(* ===== verification/Prelude.thy ===== *)
theory Prelude
  imports Main "HOL-Library.Word" "HOL-Library.Monad_Syntax" "HOL-Library.AList"
begin

text \<open>The vocabulary that the components share: the sequencing of fallible steps (the
  question mark of Rust on \<open>Result\<close>), 64-bit integers with their checked operations, vectors
  read and written by index, and hash maps as association lists.\<close>

named_theorems dest_simps \<open>characterisations of let-else destructors\<close>
named_theorems checked_simps \<open>checked machine arithmetic in terms of the integers\<close>

section \<open>Results\<close>

definition and_then :: "'e + 'a \<Rightarrow> ('a \<Rightarrow> 'e + 'b) \<Rightarrow> 'e + 'b" where
  "and_then r f = (case r of Inl e \<Rightarrow> Inl e | Inr x \<Rightarrow> f x)"

lemma and_then_simps [simp]:
  "and_then (Inl e) f = Inl e"
  "and_then (Inr x) f = f x"
  by (simp_all add: and_then_def)

lemma and_then_eq_Inr: "and_then r f = Inr y \<longleftrightarrow> (\<exists>x. r = Inr x \<and> f x = Inr y)"
  by (cases r) auto

lemma and_then_eq_Inl: "and_then r f = Inl e \<longleftrightarrow> r = Inl e \<or> (\<exists>x. r = Inr x \<and> f x = Inl e)"
  by (cases r) auto

lemma and_then_assoc: "and_then (and_then r f) g = and_then r (\<lambda>x. and_then (f x) g)"
  by (cases r) auto

lemma and_then_cong [fundef_cong]:
  "r = r' \<Longrightarrow> (\<And>x. r' = Inr x \<Longrightarrow> f x = f' x) \<Longrightarrow> and_then r f = and_then r' f'"
  by (cases r') auto

definition ok_or :: "'e \<Rightarrow> 'a option \<Rightarrow> 'e + 'a" where
  "ok_or e x = (case x of None \<Rightarrow> Inl e | Some y \<Rightarrow> Inr y)"

lemma ok_or_simps [simp]:
  "ok_or e None = Inl e"
  "ok_or e (Some x) = Inr x"
  by (simp_all add: ok_or_def)

definition is_ok :: "'e + 'a \<Rightarrow> bool" where
  "is_ok r = (case r of Inl _ \<Rightarrow> False | Inr _ \<Rightarrow> True)"

lemma is_ok_simps [simp]: "\<not> is_ok (Inl e)" "is_ok (Inr x)"
  by (simp_all add: is_ok_def)

text \<open>Collecting an iterator of results into a vector stops at the first error.\<close>

primrec collect_ok :: "('a \<Rightarrow> 'e + 'b) \<Rightarrow> 'a list \<Rightarrow> 'e + 'b list" where
  "collect_ok f [] = Inr []"
| "collect_ok f (x # xs) = and_then (f x) (\<lambda>y. and_then (collect_ok f xs) (\<lambda>ys. Inr (y # ys)))"

primrec collect_some :: "('a \<Rightarrow> 'b option) \<Rightarrow> 'a list \<Rightarrow> 'b list option" where
  "collect_some f [] = Some []"
| "collect_some f (x # xs) = do { y \<leftarrow> f x; ys \<leftarrow> collect_some f xs; Some (y # ys) }"

text \<open>A fold whose step may fail, as a for loop with the question mark in its body.\<close>

primrec fold_ok :: "('a \<Rightarrow> 's \<Rightarrow> 'e + 's) \<Rightarrow> 'a list \<Rightarrow> 's \<Rightarrow> 'e + 's" where
  "fold_ok f [] s = Inr s"
| "fold_ok f (x # xs) s = and_then (f x s) (fold_ok f xs)"

lemma fold_ok_append: "fold_ok f (xs @ ys) s = and_then (fold_ok f xs s) (fold_ok f ys)"
proof (induction xs arbitrary: s)
  case (Cons x xs)
  then show ?case by (cases "f x s") simp_all
qed simp

lemma fold_ok_invariant:
  assumes "fold_ok f xs s = Inr s'" and "P s"
    and "\<And>x s s'. x \<in> set xs \<Longrightarrow> P s \<Longrightarrow> f x s = Inr s' \<Longrightarrow> P s'"
  shows "P s'"
  using assms by (induction xs arbitrary: s) (auto simp: and_then_eq_Inr)

section \<open>Option values\<close>

lemma bind_eq_SomeE:
  assumes "Option.bind x f = Some y"
  obtains z where "x = Some z" and "f z = Some y"
  using assms by (cases x) auto

definition guard :: "bool \<Rightarrow> unit option" where
  "guard b = (if b then Some () else None)"

lemma guard_simps [simp]: "guard True = Some ()" "guard False = None" "guard b = Some u \<longleftrightarrow> b"
    "guard b = None \<longleftrightarrow> \<not> b"
  by (auto simp: guard_def)

text \<open>The lazy alternative \<open>Option::or_else\<close>.\<close>

definition or_else :: "'a option \<Rightarrow> 'a option \<Rightarrow> 'a option" where
  "or_else x y = (case x of Some a \<Rightarrow> Some a | None \<Rightarrow> y)"

lemma or_else_simps [simp]: "or_else (Some a) y = Some a" "or_else None y = y"
  by (simp_all add: or_else_def)

lemma or_else_eq_Some: "or_else x y = Some a \<longleftrightarrow> x = Some a \<or> x = None \<and> y = Some a"
  by (cases x) auto

section \<open>64-bit integers\<close>

type_synonym i64 = "64 word"

definition in_i64 :: "int \<Rightarrow> bool" where
  "in_i64 z \<longleftrightarrow> - 9223372036854775808 \<le> z \<and> z < 9223372036854775808"

definition i64_of :: "int \<Rightarrow> i64" where
  "i64_of z = word_of_int z"

definition i64_checked :: "int \<Rightarrow> i64 option" where
  "i64_checked z = (if in_i64 z then Some (i64_of z) else None)"

definition checked_add :: "i64 \<Rightarrow> i64 \<Rightarrow> i64 option" where
  "checked_add a b = i64_checked (sint a + sint b)"

definition checked_sub :: "i64 \<Rightarrow> i64 \<Rightarrow> i64 option" where
  "checked_sub a b = i64_checked (sint a - sint b)"

definition checked_mul :: "i64 \<Rightarrow> i64 \<Rightarrow> i64 option" where
  "checked_mul a b = i64_checked (sint a * sint b)"

definition checked_neg :: "i64 \<Rightarrow> i64 option" where
  "checked_neg a = i64_checked (- sint a)"

text \<open>The division of Rust truncates toward zero, and the remainder has the sign of the dividend.\<close>

definition tdiv :: "int \<Rightarrow> int \<Rightarrow> int" where
  "tdiv a b = sgn a * sgn b * (\<bar>a\<bar> div \<bar>b\<bar>)"

definition trem :: "int \<Rightarrow> int \<Rightarrow> int" where
  "trem a b = a - b * tdiv a b"

definition checked_div :: "i64 \<Rightarrow> i64 \<Rightarrow> i64 option" where
  "checked_div a b = (if b = 0 then None else i64_checked (tdiv (sint a) (sint b)))"

definition checked_rem :: "i64 \<Rightarrow> i64 \<Rightarrow> i64 option" where
  "checked_rem a b = (if b = 0 \<or> \<not> in_i64 (tdiv (sint a) (sint b)) then None
     else i64_checked (trem (sint a) (sint b)))"

text \<open>A checked shift only checks the shift count: bits shifted out are lost.\<close>

definition checked_shl :: "i64 \<Rightarrow> nat \<Rightarrow> i64 option" where
  "checked_shl a n = (if n < 64 then Some (push_bit n a) else None)"

definition checked_shr :: "i64 \<Rightarrow> nat \<Rightarrow> i64 option" where
  "checked_shr a n = (if n < 64 then Some (signed_drop_bit n a) else None)"

lemma in_i64_sint [simp, intro]: "in_i64 (sint (a :: i64))"
  using sint_greater_eq [of a] sint_lt [of a] by (simp add: in_i64_def)

lemma sint_i64_of [simp]: "in_i64 z \<Longrightarrow> sint (i64_of z) = z"
  unfolding i64_of_def in_i64_def
  by (subst sint_sbintrunc') (auto intro!: signed_take_bit_int_eq_self)

lemma i64_of_sint [simp]: "i64_of (sint a) = a"
  by (simp add: i64_of_def)

lemma i64_checked_eq_Some [checked_simps]:
  "i64_checked z = Some c \<longleftrightarrow> in_i64 z \<and> sint c = z"
  by (auto simp: i64_checked_def)

lemma i64_checked_eq_None [checked_simps]: "i64_checked z = None \<longleftrightarrow> \<not> in_i64 z"
  by (simp add: i64_checked_def)

lemma sint_eq_iff: "sint (a :: i64) = sint b \<longleftrightarrow> a = b"
  by (metis i64_of_sint)

lemma sint_zero_iff [simp]: "sint (a :: i64) = 0 \<longleftrightarrow> a = 0"
  using sint_eq_iff [of a 0] by simp

lemmas checked_defs = checked_add_def checked_sub_def checked_mul_def checked_neg_def
  checked_div_def checked_rem_def

section \<open>Vectors\<close>

definition vec_get :: "'a list \<Rightarrow> nat \<Rightarrow> 'a option" where
  "vec_get xs i = (if i < length xs then Some (xs ! i) else None)"

lemma vec_get_simps [simp]:
  "vec_get (x # xs) 0 = Some x"
  "vec_get (x # xs) (Suc i) = vec_get xs i"
  "vec_get [] i = None"
  "i < length xs \<Longrightarrow> vec_get xs i = Some (xs ! i)"
  "vec_get xs i = None \<longleftrightarrow> length xs \<le> i"
  by (auto simp: vec_get_def)

lemma vec_get_eq_Some: "vec_get xs i = Some x \<longleftrightarrow> i < length xs \<and> xs ! i = x"
  by (auto simp: vec_get_def)

lemma vec_get_append:
  "vec_get (xs @ ys) i = (if i < length xs then Some (xs ! i) else vec_get ys (i - length xs))"
  by (auto simp: vec_get_def nth_append)

lemma vec_get_update:
  "vec_get (xs[i := x]) j = (if i = j \<and> j < length xs then Some x else vec_get xs j)"
  by (auto simp: vec_get_def)

text \<open>The position of the first element that satisfies a predicate.\<close>

primrec position :: "('a \<Rightarrow> bool) \<Rightarrow> 'a list \<Rightarrow> nat option" where
  "position P [] = None"
| "position P (x # xs) = (if P x then Some 0 else map_option Suc (position P xs))"

lemma position_SomeD:
  "position P xs = Some i \<Longrightarrow> i < length xs \<and> P (xs ! i) \<and> (\<forall>j<i. \<not> P (xs ! j))"
proof (induction xs arbitrary: i)
  case (Cons x xs)
  then show ?case
    by (auto simp: less_Suc_eq_0_disj split: if_splits)
qed simp

lemma position_eq_None: "position P xs = None \<longleftrightarrow> (\<forall>x\<in>set xs. \<not> P x)"
  by (induction xs) auto

lemma position_append:
  "position P (xs @ ys) = (case position P xs of Some i \<Rightarrow> Some i
     | None \<Rightarrow> map_option (\<lambda>i. length xs + i) (position P ys))"
  by (induction xs) (cases "position P ys"; auto split: option.splits)+

section \<open>Hash maps as association lists\<close>

text \<open>A \<open>HashMap\<close> is an association list with distinct keys. Inserting keeps the place of a key
  that is present, so the list records one order in which the map could be iterated.\<close>

definition keys_of :: "('k \<times> 'v) list \<Rightarrow> 'k set" where
  "keys_of m = fst ` set m"

definition wf_alist :: "('k \<times> 'v) list \<Rightarrow> bool" where
  "wf_alist m = distinct (map fst m)"

lemma wf_alist_update [simp, intro]: "wf_alist m \<Longrightarrow> wf_alist (AList.update k v m)"
  by (simp add: wf_alist_def distinct_update)

lemma wf_alist_Nil [simp]: "wf_alist []"
  by (simp add: wf_alist_def)

lemma keys_of_map_of: "k \<in> keys_of m \<longleftrightarrow> map_of m k \<noteq> None"
  by (simp add: keys_of_def map_of_eq_None_iff)

lemma map_of_update [simp]: "map_of (AList.update k v m) k' = (if k = k' then Some v else map_of m k')"
  by (simp add: update_conv)

end
