(* ===== verification/F64.thy ===== *)
theory F64
  imports Prelude
begin

text \<open>The \<open>f64\<close> of Rust: IEEE 754 binary64 with rounding to nearest, ties to even. A finite value
  is its sign (true when negative), its significand and the exponent of the last place, in the canonical form
  \<open>m < 2 ^ 53\<close>, \<open>-1074 \<le> e \<le> 971\<close> and \<open>2 ^ 52 \<le> m\<close> unless \<open>e = -1074\<close>. All NaNs are one value. Every
  operation computes the exact result as a fraction times a power of two and rounds once.\<close>

datatype ordering = OLess | OEqual | OGreater

definition int_cmp :: "int \<Rightarrow> int \<Rightarrow> ordering" where
  "int_cmp a b = (if a < b then OLess else if a = b then OEqual else OGreater)"

datatype f64 = F_NaN | F_Inf bool | F_Fin bool int int

function bit_count :: "int \<Rightarrow> int" where
  "bit_count n = (if n \<le> 0 then 0 else 1 + bit_count (n div 2))"
  by auto

termination bit_count
  by (relation "measure nat") auto

declare bit_count.simps [simp del]

definition div_half_even :: "int \<Rightarrow> int \<Rightarrow> int" where
  "div_half_even n d = (let q = n div d; r = n mod d
     in if 2 * r < d \<or> 2 * r = d \<and> even q then q else q + 1)"

text \<open>The fraction \<open>n / d * 2 ^ (k - e)\<close>, as numerator and denominator.\<close>

definition scaled :: "int \<Rightarrow> int \<Rightarrow> int \<Rightarrow> int \<times> int" where
  "scaled n d k = (if 0 \<le> k then (n * 2 ^ nat k, d) else (n, d * 2 ^ nat (- k)))"

definition f64_round :: "bool \<Rightarrow> int \<Rightarrow> int \<Rightarrow> int \<Rightarrow> f64" where
  "f64_round s n d k = (if n = 0 then F_Fin s 0 (- 1074) else
     let e0 = k + bit_count n - bit_count d - 53;
         e1 = (case scaled n d (k - e0) of (a, b) \<Rightarrow> if 2 ^ 53 \<le> a div b then e0 + 1 else e0);
         e = max (- 1074) e1;
         q = (case scaled n d (k - e) of (a, b) \<Rightarrow> div_half_even a b)
     in if q = 2 ^ 53 then (if 971 < e + 1 then F_Inf s else F_Fin s (2 ^ 52) (e + 1))
        else (if 971 < e then F_Inf s else F_Fin s q e))"

definition f64_of_int :: "int \<Rightarrow> f64" where
  "f64_of_int z = f64_round (z < 0) \<bar>z\<bar> 1 0"

definition f64_zero :: f64 where
  "f64_zero = F_Fin False 0 (- 1074)"

definition i64_as_f64 :: "i64 \<Rightarrow> f64" where
  "i64_as_f64 a = f64_of_int (sint a)"

definition signed_mantissa :: "bool \<Rightarrow> int \<Rightarrow> int" where
  "signed_mantissa s m = (if s then - m else m)"

text \<open>Two finite values over their smaller exponent.\<close>

definition align :: "int \<Rightarrow> int \<Rightarrow> int \<Rightarrow> int" where
  "align z e e0 = z * 2 ^ nat (e - e0)"

definition f64_neg :: "f64 \<Rightarrow> f64" where
  "f64_neg x = (case x of F_NaN \<Rightarrow> F_NaN | F_Inf s \<Rightarrow> F_Inf (\<not> s) | F_Fin s m e \<Rightarrow> F_Fin (\<not> s) m e)"

definition f64_add :: "f64 \<Rightarrow> f64 \<Rightarrow> f64" where
  "f64_add x y = (case x of
     F_NaN \<Rightarrow> F_NaN
   | F_Inf s \<Rightarrow> (case y of F_NaN \<Rightarrow> F_NaN | F_Inf t \<Rightarrow> if s = t then F_Inf s else F_NaN
                         | F_Fin _ _ _ \<Rightarrow> F_Inf s)
   | F_Fin s m e \<Rightarrow> (case y of F_NaN \<Rightarrow> F_NaN | F_Inf t \<Rightarrow> F_Inf t
       | F_Fin t n f \<Rightarrow>
           let g = min e f; z = align (signed_mantissa s m) e g + align (signed_mantissa t n) f g
           in if z = 0 then F_Fin (s \<and> t) 0 (- 1074) else f64_round (z < 0) \<bar>z\<bar> 1 g))"

definition f64_sub :: "f64 \<Rightarrow> f64 \<Rightarrow> f64" where
  "f64_sub x y = f64_add x (f64_neg y)"

definition f64_mul :: "f64 \<Rightarrow> f64 \<Rightarrow> f64" where
  "f64_mul x y = (case x of
     F_NaN \<Rightarrow> F_NaN
   | F_Inf s \<Rightarrow> (case y of F_NaN \<Rightarrow> F_NaN | F_Inf t \<Rightarrow> F_Inf (s \<noteq> t)
                         | F_Fin t n _ \<Rightarrow> if n = 0 then F_NaN else F_Inf (s \<noteq> t))
   | F_Fin s m e \<Rightarrow> (case y of F_NaN \<Rightarrow> F_NaN
                         | F_Inf t \<Rightarrow> if m = 0 then F_NaN else F_Inf (s \<noteq> t)
                         | F_Fin t n f \<Rightarrow> f64_round (s \<noteq> t) (m * n) 1 (e + f)))"

definition f64_div :: "f64 \<Rightarrow> f64 \<Rightarrow> f64" where
  "f64_div x y = (case x of
     F_NaN \<Rightarrow> F_NaN
   | F_Inf s \<Rightarrow> (case y of F_NaN \<Rightarrow> F_NaN | F_Inf _ \<Rightarrow> F_NaN | F_Fin t _ _ \<Rightarrow> F_Inf (s \<noteq> t))
   | F_Fin s m e \<Rightarrow> (case y of F_NaN \<Rightarrow> F_NaN
                         | F_Inf t \<Rightarrow> F_Fin (s \<noteq> t) 0 (- 1074)
                         | F_Fin t n f \<Rightarrow>
                             if n = 0 then (if m = 0 then F_NaN else F_Inf (s \<noteq> t))
                             else f64_round (s \<noteq> t) m n (e - f)))"

definition f64_floor :: "f64 \<Rightarrow> f64" where
  "f64_floor x = (case x of
     F_Fin s m e \<Rightarrow> if 0 \<le> e then x
       else let p = 2 ^ nat (- e) in f64_round s (if s then (m + p - 1) div p else m div p) 1 0
   | _ \<Rightarrow> x)"

text \<open>The cast to \<open>i64\<close> truncates and saturates, and sends NaN to zero.\<close>

definition i64_saturate :: "int \<Rightarrow> i64" where
  "i64_saturate z = i64_of (max (- 9223372036854775808) (min 9223372036854775807 z))"

definition f64_as_i64 :: "f64 \<Rightarrow> i64" where
  "f64_as_i64 x = (case x of
     F_NaN \<Rightarrow> 0
   | F_Inf s \<Rightarrow> i64_of (if s then - 9223372036854775808 else 9223372036854775807)
   | F_Fin s m e \<Rightarrow> i64_saturate (signed_mantissa s
       (if 0 \<le> e then m * 2 ^ nat e else m div 2 ^ nat (- e))))"

definition f64_partial_cmp :: "f64 \<Rightarrow> f64 \<Rightarrow> ordering option" where
  "f64_partial_cmp x y = (case x of
     F_NaN \<Rightarrow> None
   | F_Inf s \<Rightarrow> (case y of F_NaN \<Rightarrow> None
                         | F_Inf t \<Rightarrow> Some (if s = t then OEqual else if s then OLess else OGreater)
                         | F_Fin _ _ _ \<Rightarrow> Some (if s then OLess else OGreater))
   | F_Fin s m e \<Rightarrow> (case y of F_NaN \<Rightarrow> None
                         | F_Inf t \<Rightarrow> Some (if t then OGreater else OLess)
                         | F_Fin t n f \<Rightarrow> let g = min e f in
                             Some (int_cmp (align (signed_mantissa s m) e g)
                                           (align (signed_mantissa t n) f g))))"

definition f64_eq :: "f64 \<Rightarrow> f64 \<Rightarrow> bool" where
  "f64_eq x y \<longleftrightarrow> f64_partial_cmp x y = Some OEqual"

definition f64_lt :: "f64 \<Rightarrow> f64 \<Rightarrow> bool" where
  "f64_lt x y \<longleftrightarrow> f64_partial_cmp x y = Some OLess"

definition f64_is_nan :: "f64 \<Rightarrow> bool" where
  "f64_is_nan x \<longleftrightarrow> x = F_NaN"

definition ordering_reverse :: "ordering \<Rightarrow> ordering" where
  "ordering_reverse c = (case c of OLess \<Rightarrow> OGreater | OEqual \<Rightarrow> OEqual | OGreater \<Rightarrow> OLess)"

lemma ordering_reverse_simps [simp]:
  "ordering_reverse OLess = OGreater" "ordering_reverse OEqual = OEqual"
  "ordering_reverse OGreater = OLess"
  by (simp_all add: ordering_reverse_def)

lemma int_cmp_reverse: "int_cmp b a = ordering_reverse (int_cmp a b)"
  by (simp add: int_cmp_def)

lemma int_cmp_eq_simps [simp]:
  "int_cmp a b = OEqual \<longleftrightarrow> a = b" "int_cmp a b = OLess \<longleftrightarrow> a < b" "int_cmp a b = OGreater \<longleftrightarrow> b < a"
  by (auto simp: int_cmp_def)

lemma f64_partial_cmp_reverse:
  "f64_partial_cmp y x = map_option ordering_reverse (f64_partial_cmp x y)"
proof (cases x; cases y)
  fix s m e t n f
  assume *: "x = F_Fin s m e" "y = F_Fin t n f"
  have "int_cmp (align (signed_mantissa t n) f (min f e)) (align (signed_mantissa s m) e (min f e))
      = ordering_reverse (int_cmp (align (signed_mantissa s m) e (min e f))
          (align (signed_mantissa t n) f (min e f)))"
    by (subst int_cmp_reverse) (simp add: min.commute)
  with * show ?thesis by (simp add: f64_partial_cmp_def Let_def)
qed (auto simp: f64_partial_cmp_def)

lemma f64_add_commute: "f64_add x y = f64_add y x"
  by (cases x; cases y) (auto simp: f64_add_def Let_def min.commute add.commute conj_commute)

lemma f64_mul_commute: "f64_mul x y = f64_mul y x"
proof (cases x; cases y)
  fix s m e t n f
  assume *: "x = F_Fin s m e" "y = F_Fin t n f"
  show ?thesis unfolding * by (cases s; cases t) (simp_all add: f64_mul_def mult.commute add.commute)
qed (auto simp: f64_mul_def)

end
