(* ===== verification/Strings.thy ===== *)
theory Strings
  imports F64
begin

text \<open>The strings of Rust: a \<open>string\<close> holds the bytes of the UTF-8 text. A character is its byte
  sequence, a lead byte with the continuation bytes behind it. Trimming removes the characters with
  the Unicode property White_Space, and the numeric parsers follow \<open>FromStr\<close> of \<open>i64\<close> and \<open>f64\<close>.\<close>

section \<open>Characters\<close>

definition byte :: "char \<Rightarrow> int" where
  "byte c = of_char c"

definition is_cont :: "char \<Rightarrow> bool" where
  "is_cont c \<longleftrightarrow> 128 \<le> byte c \<and> byte c < 192"

function str_chars :: "string \<Rightarrow> string list" where
  "str_chars [] = []"
| "str_chars (c # cs) = (c # takeWhile is_cont cs) # str_chars (dropWhile is_cont cs)"
  by pat_completeness auto

termination str_chars
  by (relation "measure length") (auto simp: length_dropWhile_le less_Suc_eq_le)

lemma concat_str_chars [simp]: "concat (str_chars s) = s"
  by (induction s rule: str_chars.induct) auto

definition ws_chars :: "string list" where
  "ws_chars = [[CHR 0x09], [CHR 0x0A], [CHR 0x0B], [CHR 0x0C], [CHR 0x0D], [CHR 0x20],
     [CHR 0xC2, CHR 0x85], [CHR 0xC2, CHR 0xA0], [CHR 0xE1, CHR 0x9A, CHR 0x80],
     [CHR 0xE2, CHR 0x80, CHR 0x80], [CHR 0xE2, CHR 0x80, CHR 0x81], [CHR 0xE2, CHR 0x80, CHR 0x82],
     [CHR 0xE2, CHR 0x80, CHR 0x83], [CHR 0xE2, CHR 0x80, CHR 0x84], [CHR 0xE2, CHR 0x80, CHR 0x85],
     [CHR 0xE2, CHR 0x80, CHR 0x86], [CHR 0xE2, CHR 0x80, CHR 0x87], [CHR 0xE2, CHR 0x80, CHR 0x88],
     [CHR 0xE2, CHR 0x80, CHR 0x89], [CHR 0xE2, CHR 0x80, CHR 0x8A], [CHR 0xE2, CHR 0x80, CHR 0xA8],
     [CHR 0xE2, CHR 0x80, CHR 0xA9], [CHR 0xE2, CHR 0x80, CHR 0xAF], [CHR 0xE2, CHR 0x81, CHR 0x9F],
     [CHR 0xE3, CHR 0x80, CHR 0x80]]"

definition is_whitespace :: "string \<Rightarrow> bool" where
  "is_whitespace ch \<longleftrightarrow> ch \<in> set ws_chars"

definition trim_start_matches :: "(string \<Rightarrow> bool) \<Rightarrow> string \<Rightarrow> string" where
  "trim_start_matches P s = concat (dropWhile P (str_chars s))"

definition trim_end_matches :: "(string \<Rightarrow> bool) \<Rightarrow> string \<Rightarrow> string" where
  "trim_end_matches P s = concat (rev (dropWhile P (rev (str_chars s))))"

definition trim :: "string \<Rightarrow> string" where
  "trim s = trim_end_matches is_whitespace (trim_start_matches is_whitespace s)"

section \<open>Substrings\<close>

primrec starts_with :: "string \<Rightarrow> string \<Rightarrow> bool" where
  "starts_with p [] \<longleftrightarrow> p = []"
| "starts_with p (c # cs) \<longleftrightarrow> (case p of [] \<Rightarrow> True | d # ds \<Rightarrow> c = d \<and> starts_with ds cs)"

definition ends_with :: "string \<Rightarrow> string \<Rightarrow> bool" where
  "ends_with p s \<longleftrightarrow> starts_with (rev p) (rev s)"

primrec str_find :: "string \<Rightarrow> string \<Rightarrow> nat option" where
  "str_find p [] = (if p = [] then Some 0 else None)"
| "str_find p (c # cs) = (if starts_with p (c # cs) then Some 0 else map_option Suc (str_find p cs))"

definition str_contains :: "string \<Rightarrow> string \<Rightarrow> bool" where
  "str_contains p s \<longleftrightarrow> str_find p s \<noteq> None"

lemma starts_with_iff: "starts_with p s \<longleftrightarrow> (\<exists>t. s = p @ t)"
proof (induction s arbitrary: p)
  case (Cons c cs)
  then show ?case by (cases p) auto
qed simp

lemma str_find_SomeD:
  "str_find p s = Some i \<Longrightarrow> i \<le> length s \<and> starts_with p (drop i s)"
  by (induction s arbitrary: i) (auto split: if_splits)

text \<open>The lines of a text: a final line break opens no line, a carriage return before it is dropped.\<close>

definition strip_cr :: "string \<Rightarrow> string" where
  "strip_cr l = (if l \<noteq> [] \<and> last l = CHR 0x0D then butlast l else l)"

function str_lines :: "string \<Rightarrow> string list" where
  "str_lines s = (if s = [] then [] else
     let l = takeWhile (\<lambda>c. c \<noteq> CHR 0x0A) s; r = dropWhile (\<lambda>c. c \<noteq> CHR 0x0A) s
     in if r = [] then [l] else strip_cr l # str_lines (tl r))"
  by auto

termination str_lines
proof (relation "measure length", goal_cases)
  case (2 s l r)
  then have "length r \<le> length s" and "0 < length r" by (auto simp: length_dropWhile_le)
  then show ?case unfolding in_measure length_tl by linarith
qed auto

declare str_lines.simps [simp del]

section \<open>Decimal integers\<close>

datatype int_error = IntEmpty | IntInvalidDigit | IntPosOverflow | IntNegOverflow

definition digit_value :: "char \<Rightarrow> int option" where
  "digit_value c = (if 48 \<le> byte c \<and> byte c \<le> 57 then Some (byte c - 48) else None)"

definition is_ascii_digit :: "char \<Rightarrow> bool" where
  "is_ascii_digit c \<longleftrightarrow> 48 \<le> byte c \<and> byte c \<le> 57"

primrec parse_digits :: "bool \<Rightarrow> int \<Rightarrow> string \<Rightarrow> int_error + int" where
  "parse_digits neg acc [] = Inr acc"
| "parse_digits neg acc (c # cs) = (case digit_value c of
     None \<Rightarrow> Inl IntInvalidDigit
   | Some d \<Rightarrow>
       if in_i64 (acc * 10) \<and> in_i64 (acc * 10 + (if neg then - d else d))
       then parse_digits neg (acc * 10 + (if neg then - d else d)) cs
       else Inl (if neg then IntNegOverflow else IntPosOverflow))"

definition parse_i64 :: "string \<Rightarrow> int_error + i64" where
  "parse_i64 s = (case s of
     [] \<Rightarrow> Inl IntEmpty
   | c # cs \<Rightarrow>
       if c = CHR ''+'' \<or> c = CHR ''-'' then
         (if cs = [] then Inl IntInvalidDigit
          else and_then (parse_digits (c = CHR ''-'') 0 cs) (\<lambda>z. Inr (i64_of z)))
       else and_then (parse_digits False 0 s) (\<lambda>z. Inr (i64_of z)))"

definition parse_i64_ok :: "string \<Rightarrow> i64 option" where
  "parse_i64_ok s = (case parse_i64 s of Inl _ \<Rightarrow> None | Inr z \<Rightarrow> Some z)"

definition int_error_text :: "int_error \<Rightarrow> string" where
  "int_error_text e = (case e of
     IntEmpty \<Rightarrow> ''cannot parse integer from empty string''
   | IntInvalidDigit \<Rightarrow> ''invalid digit found in string''
   | IntPosOverflow \<Rightarrow> ''number too large to fit in target type''
   | IntNegOverflow \<Rightarrow> ''number too small to fit in target type'')"

section \<open>Decimal floating point\<close>

datatype float_error = FloatEmpty | FloatInvalid

definition float_error_text :: "float_error \<Rightarrow> string" where
  "float_error_text e = (case e of
     FloatEmpty \<Rightarrow> ''cannot parse float from empty string''
   | FloatInvalid \<Rightarrow> ''invalid float literal'')"

definition digits_value :: "string \<Rightarrow> int" where
  "digits_value s = foldl (\<lambda>a c. 10 * a + (byte c - 48)) 0 s"

text \<open>The exponent of the parser stops growing at 65536.\<close>

definition exponent_value :: "string \<Rightarrow> int" where
  "exponent_value s = foldl (\<lambda>a c. if a < 65536 then 10 * a + (byte c - 48) else a) 0 s"

definition parse_exponent :: "string \<Rightarrow> int option" where
  "parse_exponent s = (case s of
     [] \<Rightarrow> Some 0
   | c # cs \<Rightarrow>
       if c = CHR ''e'' \<or> c = CHR ''E'' then
         (let neg = (case cs of [] \<Rightarrow> False | d # _ \<Rightarrow> d = CHR ''-'');
              ds = (case cs of [] \<Rightarrow> [] | d # t \<Rightarrow> if d = CHR ''-'' \<or> d = CHR ''+'' then t else cs)
          in if ds \<noteq> [] \<and> list_all is_ascii_digit ds
             then Some (if neg then - exponent_value ds else exponent_value ds) else None)
       else None)"

definition parse_number :: "string \<Rightarrow> (int \<times> int) option" where
  "parse_number s = (let ip = takeWhile is_ascii_digit s; r = dropWhile is_ascii_digit s;
       dot = (case r of [] \<Rightarrow> False | c # _ \<Rightarrow> c = CHR ''.'');
       fp = (if dot then takeWhile is_ascii_digit (tl r) else []);
       r2 = (if dot then dropWhile is_ascii_digit (tl r) else r)
     in if ip = [] \<and> fp = [] then None
        else map_option (\<lambda>e. (digits_value (ip @ fp), e - int (length fp))) (parse_exponent r2))"

definition f64_of_decimal :: "bool \<Rightarrow> int \<Rightarrow> int \<Rightarrow> f64" where
  "f64_of_decimal s m e = (if 0 \<le> e then f64_round s (m * 10 ^ nat e) 1 0
     else f64_round s m (10 ^ nat (- e)) 0)"

definition ascii_lower :: "char \<Rightarrow> char" where
  "ascii_lower c = (if 65 \<le> byte c \<and> byte c \<le> 90 then char_of (byte c + 32) else c)"

definition parse_f64 :: "string \<Rightarrow> float_error + f64" where
  "parse_f64 s = (case s of
     [] \<Rightarrow> Inl FloatEmpty
   | c # cs \<Rightarrow>
       let neg = (c = CHR ''-''); t = (if c = CHR ''-'' \<or> c = CHR ''+'' then cs else s)
       in if t = [] then Inl FloatInvalid
          else case parse_number t of
            Some (m, e) \<Rightarrow> Inr (f64_of_decimal neg m e)
          | None \<Rightarrow>
              if List.map ascii_lower t \<in> {''inf'', ''infinity''} then Inr (F_Inf neg)
              else if List.map ascii_lower t = ''nan'' then Inr F_NaN
              else Inl FloatInvalid)"

lemma parse_digits_in_i64: "in_i64 acc \<Longrightarrow> parse_digits neg acc s = Inr z \<Longrightarrow> in_i64 z"
  by (induction s arbitrary: acc) (auto split: option.splits if_splits)

end
