(* ===== verification/Ast.thy ===== *)
theory Ast
  imports F64
begin

text \<open>The syntax tree of Stone (\<open>stone_ast.rs\<close>). The constructors, their fields and their order are
  those of the source; \<open>Box\<close> disappears. A float literal has no NaN and no negative zero, so the
  derived equality of the source is equality here.\<close>

datatype compare_op = CEq | CNotEq | CLt | CLtE | CGt | CGtE | CIn | CNotIn | CIs | CIsNot

datatype aug_op = AugAdd | AugSub | AugMul | AugDiv | AugFloorDiv | AugMod | AugBitAnd | AugBitOr
  | AugBitXor | AugLShift | AugRShift

datatype bool_op = BoolAnd | BoolOr

datatype format_spec = Fixed nat | ZeroPadInt nat

datatype stone_type = TyAny | TyAttemptAcceptance | TyAttemptBest | TyAttemptFailure
  | TyAttemptHandle | TyAttemptOutcome | TyAttemptScope | TyBool | TyFloat | TyInt | TyList | TyNone
  | TyRecord | TySemanticFrontier | TyStr

datatype (plugins only: code size) expr =
    ENone
  | EBool bool
  | EInt string
  | EFloat f64
  | EString string
  | EFormatted "fstring_part list"
  | EList "expr list"
  | ETuple "expr list"
  | EListComp expr "comp_clause list"
  | ERecord "(string \<times> expr) list"
  | EDictComp expr expr "comp_clause list"
  | EName string
  | ESubscript expr expr
  | EAttribute expr string
  | ESlice "expr option" "expr option"
  | ECompare expr "compare_op list" "expr list"
  | EBoolOp bool_op "expr list"
  | EConditional expr expr expr
  | ENot expr
  | ENeg expr
  | EInvert expr
  | EAwait expr
  | EAdd expr expr
  | ESub expr expr
  | EMul expr expr
  | EDiv expr expr
  | EFloorDiv expr expr
  | EMod expr expr
  | EBitAnd expr expr
  | EBitOr expr expr
  | EBitXor expr expr
  | ELShift expr expr
  | ERShift expr expr
  | EGenerator expr "comp_clause list"
  | ELambda "string list" expr
  | EMethodCall expr string "expr list" "(string \<times> expr) list"
  | ECall call
and fstring_part = FLiteral string | FExpr expr | FFormatted expr format_spec
and comp_clause = CompClause "string list" expr "expr list"
and call = Call string "expr list" "(string \<times> expr) list"

datatype assign_target =
    TName string
  | TTuple "string list"
  | TSubscript assign_target expr

datatype function_param = FunctionParam string stone_type "expr option"

record stage_decorator =
  sd_evidence :: expr
  sd_name :: "expr option"
  sd_goal :: "expr option"
  sd_inputs :: "expr option"
  sd_agent_loop :: "expr option"
  sd_repair :: "expr option"
  sd_max_attempts :: "expr option"
  sd_max_actions :: "expr option"
  sd_checkpoint :: "expr option"

datatype (plugins only: code size) stmt =
    SAssign assign_target expr
  | SAugAssign assign_target aug_op expr
  | SFor "string list" expr "stmt list"
  | SWhile expr "stmt list"
  | SIf expr "stmt list" "stmt list"
  | SWith bool "string option" expr "stmt list"
  | STry "stmt list" "except_handler list"
  | SFunctionDef function_def
  | SRaise "expr option"
  | SReturn "expr option"
  | SBreak
  | SContinue
  | SPass
  | SExpr expr
and except_handler = ExceptHandler "string option" "stmt list"
and function_def = FunctionDef string bool "function_param list" stone_type "stmt list"
  "stage_decorator option"

type_synonym program = "stmt list"

section \<open>Destructors\<close>

text \<open>The \<open>let ... else\<close> and \<open>matches!\<close> patterns of the compiler, each as a partial function on the
  tree. The lemma beside each says which trees it accepts.\<close>

definition dest_name :: "expr \<Rightarrow> string option" where
  "dest_name x0 = (case x0 of (EName x) \<Rightarrow> Some x | _ \<Rightarrow> None)"

definition dest_int :: "expr \<Rightarrow> string option" where
  "dest_int x0 = (case x0 of (EInt x) \<Rightarrow> Some x | _ \<Rightarrow> None)"

definition dest_string :: "expr \<Rightarrow> string option" where
  "dest_string x0 = (case x0 of (EString x) \<Rightarrow> Some x | _ \<Rightarrow> None)"

definition dest_add :: "expr \<Rightarrow> (expr \<times> expr) option" where
  "dest_add x0 = (case x0 of (EAdd a b) \<Rightarrow> Some (a, b) | _ \<Rightarrow> None)"

definition dest_subscript :: "expr \<Rightarrow> (expr \<times> expr) option" where
  "dest_subscript x0 = (case x0 of (ESubscript a b) \<Rightarrow> Some (a, b) | _ \<Rightarrow> None)"

definition dest_compare :: "expr \<Rightarrow> (expr \<times> compare_op list \<times> expr list) option" where
  "dest_compare x0 = (case x0 of (ECompare a ops bs) \<Rightarrow> Some (a, ops, bs) | _ \<Rightarrow> None)"

definition dest_method_call :: "expr \<Rightarrow> (expr \<times> string \<times> expr list \<times> (string \<times> expr) list) option" where
  "dest_method_call x0 = (case x0 of (EMethodCall r m ps ns) \<Rightarrow> Some (r, m, ps, ns) | _ \<Rightarrow> None)"

definition dest_call :: "expr \<Rightarrow> (string \<times> expr list \<times> (string \<times> expr) list) option" where
  "dest_call x0 = (case x0 of (ECall (Call f ps ns)) \<Rightarrow> Some (f, ps, ns) | _ \<Rightarrow> None)"

definition dest_assign :: "stmt \<Rightarrow> (assign_target \<times> expr) option" where
  "dest_assign x0 = (case x0 of (SAssign t e) \<Rightarrow> Some (t, e) | _ \<Rightarrow> None)"

definition dest_assign_name :: "stmt \<Rightarrow> (string \<times> expr) option" where
  "dest_assign_name x0 = (case x0 of (SAssign (TName x) e) \<Rightarrow> Some (x, e) | _ \<Rightarrow> None)"

definition dest_aug_assign :: "stmt \<Rightarrow> (assign_target \<times> aug_op \<times> expr) option" where
  "dest_aug_assign x0 = (case x0 of (SAugAssign t op e) \<Rightarrow> Some (t, op, e) | _ \<Rightarrow> None)"

definition dest_for :: "stmt \<Rightarrow> (string list \<times> expr \<times> stmt list) option" where
  "dest_for x0 = (case x0 of (SFor ts it body) \<Rightarrow> Some (ts, it, body) | _ \<Rightarrow> None)"

definition dest_if :: "stmt \<Rightarrow> (expr \<times> stmt list \<times> stmt list) option" where
  "dest_if x0 = (case x0 of (SIf c th el) \<Rightarrow> Some (c, th, el) | _ \<Rightarrow> None)"

definition dest_expr_stmt :: "stmt \<Rightarrow> expr option" where
  "dest_expr_stmt x0 = (case x0 of (SExpr e) \<Rightarrow> Some e | _ \<Rightarrow> None)"

definition dest_target_name :: "assign_target \<Rightarrow> string option" where
  "dest_target_name x0 = (case x0 of (TName x) \<Rightarrow> Some x | _ \<Rightarrow> None)"

definition dest_target_subscript :: "assign_target \<Rightarrow> (assign_target \<times> expr) option" where
  "dest_target_subscript x0 = (case x0 of (TSubscript t e) \<Rightarrow> Some (t, e) | _ \<Rightarrow> None)"

definition dest_one :: "'a list \<Rightarrow> 'a option" where
  "dest_one x0 = (case x0 of [x] \<Rightarrow> Some x | _ \<Rightarrow> None)"

definition dest_two :: "'a list \<Rightarrow> ('a \<times> 'a) option" where
  "dest_two x0 = (case x0 of [x, y] \<Rightarrow> Some (x, y) | _ \<Rightarrow> None)"

lemma dest_name_iff [dest_simps]: "dest_name e = Some x \<longleftrightarrow> e = EName x"
  by (auto simp: dest_name_def split: expr.splits)

lemma dest_int_iff [dest_simps]: "dest_int e = Some x \<longleftrightarrow> e = EInt x"
  by (auto simp: dest_int_def split: expr.splits)

lemma dest_string_iff [dest_simps]: "dest_string e = Some x \<longleftrightarrow> e = EString x"
  by (auto simp: dest_string_def split: expr.splits)

lemma dest_add_iff [dest_simps]: "dest_add e = Some p \<longleftrightarrow> e = EAdd (fst p) (snd p)"
  by (auto simp: dest_add_def split: expr.splits)

lemma dest_subscript_iff [dest_simps]: "dest_subscript e = Some p \<longleftrightarrow> e = ESubscript (fst p) (snd p)"
  by (auto simp: dest_subscript_def split: expr.splits)

lemma dest_compare_iff [dest_simps]: "dest_compare e = Some p \<longleftrightarrow> e = ECompare (fst p) (fst (snd p)) (snd (snd p))"
  by (auto simp: dest_compare_def split: expr.splits)

lemma dest_method_call_iff [dest_simps]: "dest_method_call e = Some p \<longleftrightarrow> e = EMethodCall (fst p) (fst (snd p)) (fst (snd (snd p))) (snd (snd (snd p)))"
  by (auto simp: dest_method_call_def split: expr.splits)

lemma dest_call_iff [dest_simps]: "dest_call e = Some p \<longleftrightarrow> e = ECall (Call (fst p) (fst (snd p)) (snd (snd p)))"
  by (auto simp: dest_call_def split: expr.splits call.splits)

lemma dest_assign_iff [dest_simps]: "dest_assign s = Some p \<longleftrightarrow> s = SAssign (fst p) (snd p)"
  by (auto simp: dest_assign_def split: stmt.splits)

lemma dest_assign_name_iff [dest_simps]: "dest_assign_name s = Some p \<longleftrightarrow> s = SAssign (TName (fst p)) (snd p)"
  by (auto simp: dest_assign_name_def split: stmt.splits assign_target.splits)

lemma dest_aug_assign_iff [dest_simps]: "dest_aug_assign s = Some p \<longleftrightarrow> s = SAugAssign (fst p) (fst (snd p)) (snd (snd p))"
  by (auto simp: dest_aug_assign_def split: stmt.splits)

lemma dest_for_iff [dest_simps]: "dest_for s = Some p \<longleftrightarrow> s = SFor (fst p) (fst (snd p)) (snd (snd p))"
  by (auto simp: dest_for_def split: stmt.splits)

lemma dest_if_iff [dest_simps]: "dest_if s = Some p \<longleftrightarrow> s = SIf (fst p) (fst (snd p)) (snd (snd p))"
  by (auto simp: dest_if_def split: stmt.splits)

lemma dest_expr_stmt_iff [dest_simps]: "dest_expr_stmt s = Some p \<longleftrightarrow> s = SExpr p"
  by (auto simp: dest_expr_stmt_def split: stmt.splits)

lemma dest_target_name_iff [dest_simps]: "dest_target_name t = Some p \<longleftrightarrow> t = TName p"
  by (auto simp: dest_target_name_def split: assign_target.splits)

lemma dest_target_subscript_iff [dest_simps]: "dest_target_subscript t = Some p \<longleftrightarrow> t = TSubscript (fst p) (snd p)"
  by (auto simp: dest_target_subscript_def split: assign_target.splits)

lemma dest_one_iff [dest_simps]: "dest_one xs = Some p \<longleftrightarrow> xs = [p]"
  by (auto simp: dest_one_def split: list.splits)

lemma dest_two_iff [dest_simps]: "dest_two xs = Some p \<longleftrightarrow> xs = [fst p, snd p]"
  by (auto simp: dest_two_def split: list.splits)

lemmas dest_defs = dest_name_def dest_int_def dest_string_def dest_add_def dest_subscript_def dest_compare_def dest_method_call_def dest_call_def dest_assign_def dest_assign_name_def dest_aug_assign_def dest_for_def dest_if_def dest_expr_stmt_def dest_target_name_def dest_target_subscript_def dest_one_def dest_two_def

lemma dest_Some [simp]:
  "dest_name (EName x) = Some x"
  "dest_int (EInt x) = Some x"
  "dest_string (EString x) = Some x"
  "dest_add (EAdd a b) = Some (a, b)"
  "dest_subscript (ESubscript a b) = Some (a, b)"
  "dest_compare (ECompare a ops bs) = Some (a, ops, bs)"
  "dest_method_call (EMethodCall r m ps ns) = Some (r, m, ps, ns)"
  "dest_call (ECall (Call f ps ns)) = Some (f, ps, ns)"
  "dest_assign (SAssign t e) = Some (t, e)"
  "dest_assign_name (SAssign (TName x) e) = Some (x, e)"
  "dest_aug_assign (SAugAssign t op e) = Some (t, op, e)"
  "dest_for (SFor ts it body) = Some (ts, it, body)"
  "dest_if (SIf c th el) = Some (c, th, el)"
  "dest_expr_stmt (SExpr e) = Some e"
  "dest_target_name (TName x) = Some x"
  "dest_target_subscript (TSubscript t e) = Some (t, e)"
  "dest_one [y] = Some y"
  "dest_two [y, z] = Some (y, z)"
  by (simp_all add: dest_defs)

end
