(* ===== verification/Value.thy ===== *)
theory Value
  imports Strings Ast
begin

text \<open>The values of Stone: the \<open>nu_protocol::Value\<close> cases that the interpreter builds, without
  their spans, a record as the list of its fields in order. A value of another nushell type (a date,
  a duration, a closure and so on) keeps the name of its type. Errors are the \<open>ShellError\<close> of
  \<open>stone_error\<close>: the kind, the message with a placeholder for each formatted part, and those parts.\<close>

datatype nu_value =
    VNothing
  | VBool bool
  | VInt i64
  | VFloat f64
  | VString string
  | VGlob string
  | VList "nu_value list"
  | VRecord "(string \<times> nu_value) list"
  | VBinary "8 word list"
  | VOther string

datatype msg_arg = MStr string | MInt int | MType nu_value

datatype shell_error = StoneError string string "msg_arg list"

type_synonym 'a res = "shell_error + 'a"

definition stone_error :: "string \<Rightarrow> string \<Rightarrow> msg_arg list \<Rightarrow> shell_error" where
  "stone_error kind msg args = StoneError kind msg args"

lemma stone_error_inject [simp]:
  "stone_error k m a = stone_error k' m' a' \<longleftrightarrow> k = k' \<and> m = m' \<and> a = a'"
  by (simp add: stone_error_def)

definition record_get :: "(string \<times> nu_value) list \<Rightarrow> string \<Rightarrow> nu_value option" where
  "record_get r k = map_of r k"

definition record_insert :: "string \<Rightarrow> nu_value \<Rightarrow> (string \<times> nu_value) list \<Rightarrow> (string \<times> nu_value) list" where
  "record_insert k v r = AList.update k v r"

lemma record_get_insert [simp]:
  "record_get (record_insert k v r) k' = (if k = k' then Some v else record_get r k')"
  by (simp add: record_get_def record_insert_def)

lemma record_get_mem: "record_get r k = Some v \<Longrightarrow> (k, v) \<in> set r"
  by (simp add: record_get_def map_of_SomeD)

definition nu_int :: "nu_value \<Rightarrow> i64 option" where
  "nu_int v = (case v of VInt i \<Rightarrow> Some i | _ \<Rightarrow> None)"

definition nu_text :: "nu_value \<Rightarrow> string option" where
  "nu_text v = (case v of VString s \<Rightarrow> Some s | VGlob s \<Rightarrow> Some s | _ \<Rightarrow> None)"

definition nu_list :: "nu_value \<Rightarrow> nu_value list option" where
  "nu_list v = (case v of VList vs \<Rightarrow> Some vs | _ \<Rightarrow> None)"

definition nu_record :: "nu_value \<Rightarrow> (string \<times> nu_value) list option" where
  "nu_record v = (case v of VRecord r \<Rightarrow> Some r | _ \<Rightarrow> None)"

lemma nu_dest_iff [dest_simps]:
  "nu_int v = Some i \<longleftrightarrow> v = VInt i"
  "nu_list v = Some vs \<longleftrightarrow> v = VList vs"
  "nu_record v = Some r \<longleftrightarrow> v = VRecord r"
  by (auto simp: nu_int_def nu_list_def nu_record_def split: nu_value.splits)

lemma nu_text_iff: "nu_text v = Some s \<longleftrightarrow> v = VString s \<or> v = VGlob s"
  by (auto simp: nu_text_def split: nu_value.splits)

lemma nu_dest_simps [simp]:
  "nu_int (VInt i) = Some i" "nu_list (VList vs) = Some vs" "nu_record (VRecord r) = Some r"
  "nu_text (VString s) = Some s" "nu_text (VGlob s) = Some s"
  by (simp_all add: nu_int_def nu_list_def nu_record_def nu_text_def)

end
