(* ===== verification/Numeric.thy ===== *)
theory Numeric
  imports Value
begin

unbundle bit_operations_syntax

text \<open>The arithmetic, the equality and the ordering of Stone values (\<open>stone_builtins.rs\<close>), and what
  they compute: floor division and modulo against the integers, the exact conditions of every
  overflow, the symmetry of equality and of ordering.\<close>

section \<open>Conversions\<close>

definition value_to_operator_i64 :: "nu_value \<Rightarrow> string \<Rightarrow> i64 res" where
  "value_to_operator_i64 v context = (case v of
     VInt i \<Rightarrow> Inr i
   | _ \<Rightarrow> Inl (stone_error context ''expected integer, got {}'' [MType v]))"

definition value_to_i64 :: "nu_value \<Rightarrow> string \<Rightarrow> i64 res" where
  "value_to_i64 v context = (case v of
     VInt i \<Rightarrow> Inr i
   | VFloat x \<Rightarrow> Inr (f64_as_i64 x)
   | _ \<Rightarrow> (case nu_text v of
       Some s \<Rightarrow> (case parse_i64 (trim s) of
           Inl e \<Rightarrow> Inl (stone_error context ''failed to parse integer: {}'' [MStr (int_error_text e)])
         | Inr z \<Rightarrow> Inr z)
     | None \<Rightarrow> Inl (stone_error context ''expected integer, got {}'' [MType v])))"

definition value_to_f64 :: "nu_value \<Rightarrow> string \<Rightarrow> f64 res" where
  "value_to_f64 v context = (case v of
     VInt i \<Rightarrow> Inr (i64_as_f64 i)
   | VFloat x \<Rightarrow> Inr x
   | _ \<Rightarrow> (case nu_text v of
       Some s \<Rightarrow> (case parse_f64 (trim s) of
           Inl e \<Rightarrow> Inl (stone_error context ''failed to parse float: {}'' [MStr (float_error_text e)])
         | Inr z \<Rightarrow> Inr z)
     | None \<Rightarrow> Inl (stone_error context ''expected number, got {}'' [MType v])))"

definition value_to_bool :: "nu_value \<Rightarrow> string \<Rightarrow> bool res" where
  "value_to_bool v context = (case v of
     VBool b \<Rightarrow> Inr b
   | _ \<Rightarrow> Inl (stone_error context ''expected bool, got {}'' [MType v]))"

definition value_to_string :: "nu_value \<Rightarrow> string \<Rightarrow> string res" where
  "value_to_string v context = (case nu_text v of
     Some s \<Rightarrow> Inr s
   | None \<Rightarrow> Inl (stone_error context ''expected string, got {}'' [MType v]))"

definition value_to_int :: "nu_value \<Rightarrow> nu_value res" where
  "value_to_int v = and_then (value_to_i64 v ''int'') (\<lambda>i. Inr (VInt i))"

definition float_builtin :: "nu_value \<Rightarrow> nu_value res" where
  "float_builtin v = and_then (value_to_f64 v ''float'') (\<lambda>x. Inr (VFloat x))"

definition value_to_limit :: "nu_value \<Rightarrow> string \<Rightarrow> nat res" where
  "value_to_limit v context = and_then (value_to_i64 v context) (\<lambda>limit.
     if sint limit < 0 then Inl (stone_error context ''limit must be non-negative'' [])
     else Inr (nat (sint limit)))"

text \<open>Whether a value of another kind is empty is \<open>Value::is_empty\<close> of \<open>nu_protocol\<close>.\<close>

definition value_truthy :: "(nu_value \<Rightarrow> bool) \<Rightarrow> nu_value \<Rightarrow> bool" where
  "value_truthy nu_is_empty v = (case v of
     VBool b \<Rightarrow> b
   | VNothing \<Rightarrow> False
   | VInt i \<Rightarrow> i \<noteq> 0
   | VFloat x \<Rightarrow> \<not> f64_eq x f64_zero
   | _ \<Rightarrow> \<not> nu_is_empty v)"

section \<open>Integer division\<close>

definition python_floor_div_i64 :: "i64 \<Rightarrow> i64 \<Rightarrow> i64 res" where
  "python_floor_div_i64 left right =
     and_then (ok_or (stone_error ''floor division'' ''integer floor division overflow'' [])
        (checked_div left right)) (\<lambda>quotient.
     and_then (ok_or (stone_error ''floor division'' ''integer floor division overflow'' [])
        (checked_rem left right)) (\<lambda>remainder.
     if remainder \<noteq> 0 \<and> (0 < sint remainder) \<noteq> (0 < sint right)
     then ok_or (stone_error ''floor division'' ''integer floor division overflow'' [])
            (checked_sub quotient 1)
     else Inr quotient))"

definition python_mod_i64 :: "i64 \<Rightarrow> i64 \<Rightarrow> i64 res" where
  "python_mod_i64 left right =
     and_then (python_floor_div_i64 left right) (\<lambda>quotient.
     and_then (ok_or (stone_error ''modulo'' ''integer modulo overflow'' [])
        (checked_mul quotient right)) (\<lambda>product.
     ok_or (stone_error ''modulo'' ''integer modulo overflow'' []) (checked_sub left product)))"

section \<open>Arithmetic on values\<close>

text \<open>The operands of a float operation: the match arms with at least one float.\<close>

definition float_operands :: "nu_value \<Rightarrow> nu_value \<Rightarrow> (f64 \<times> f64) option" where
  "float_operands left right = (case left of
     VFloat a \<Rightarrow> (case right of VFloat b \<Rightarrow> Some (a, b) | VInt b \<Rightarrow> Some (a, i64_as_f64 b) | _ \<Rightarrow> None)
   | VInt a \<Rightarrow> (case right of VFloat b \<Rightarrow> Some (i64_as_f64 a, b) | _ \<Rightarrow> None)
   | _ \<Rightarrow> None)"

definition int_operands :: "nu_value \<Rightarrow> nu_value \<Rightarrow> (i64 \<times> i64) option" where
  "int_operands left right = (case left of
     VInt a \<Rightarrow> (case right of VInt b \<Rightarrow> Some (a, b) | _ \<Rightarrow> None) | _ \<Rightarrow> None)"

definition add_values :: "nu_value \<Rightarrow> nu_value \<Rightarrow> nu_value res" where
  "add_values left right = (case int_operands left right of
     Some (a, b) \<Rightarrow> and_then (ok_or (stone_error ''addition'' ''integer addition overflow'' [])
         (checked_add a b)) (\<lambda>c. Inr (VInt c))
   | None \<Rightarrow> (case float_operands left right of
     Some (a, b) \<Rightarrow> Inr (VFloat (f64_add a b))
   | None \<Rightarrow> (case (nu_text left, nu_text right) of
     (Some a, Some b) \<Rightarrow> Inr (VString (a @ b))
   | _ \<Rightarrow> (case (nu_list left, nu_list right) of
     (Some a, Some b) \<Rightarrow> Inr (VList (a @ b))
   | _ \<Rightarrow> Inl (stone_error ''addition'' ''cannot add {} and {}'' [MType left, MType right])))))"

definition sub_values :: "nu_value \<Rightarrow> nu_value \<Rightarrow> nu_value res" where
  "sub_values left right = (case int_operands left right of
     Some (a, b) \<Rightarrow> and_then (ok_or (stone_error ''subtraction'' ''integer subtraction overflow'' [])
         (checked_sub a b)) (\<lambda>c. Inr (VInt c))
   | None \<Rightarrow> (case float_operands left right of
     Some (a, b) \<Rightarrow> Inr (VFloat (f64_sub a b))
   | None \<Rightarrow> Inl (stone_error ''subtraction'' ''cannot subtract {} and {}'' [MType left, MType right])))"

definition mul_values :: "nu_value \<Rightarrow> nu_value \<Rightarrow> nu_value res" where
  "mul_values left right = (case int_operands left right of
     Some (a, b) \<Rightarrow> and_then (ok_or (stone_error ''multiplication''
         ''integer multiplication overflow'' []) (checked_mul a b)) (\<lambda>c. Inr (VInt c))
   | None \<Rightarrow> (case float_operands left right of
     Some (a, b) \<Rightarrow> Inr (VFloat (f64_mul a b))
   | None \<Rightarrow> Inl (stone_error ''multiplication'' ''cannot multiply {} and {}''
        [MType left, MType right])))"

definition div_operands :: "nu_value \<Rightarrow> nu_value \<Rightarrow> (f64 \<times> f64) option" where
  "div_operands left right = (case int_operands left right of
     Some (a, b) \<Rightarrow> Some (i64_as_f64 a, i64_as_f64 b)
   | None \<Rightarrow> float_operands left right)"

definition div_f64 :: "nu_value \<Rightarrow> nu_value \<Rightarrow> f64 res" where
  "div_f64 left right = (case div_operands left right of
     None \<Rightarrow> Inl (stone_error ''division'' ''cannot divide {} and {}'' [MType left, MType right])
   | Some (a, b) \<Rightarrow> if f64_eq b f64_zero then Inl (stone_error ''division'' ''division by zero'' [])
       else Inr (f64_div a b))"

definition div_values :: "nu_value \<Rightarrow> nu_value \<Rightarrow> nu_value res" where
  "div_values left right = and_then (div_f64 left right) (\<lambda>x. Inr (VFloat x))"

definition floor_div_values :: "nu_value \<Rightarrow> nu_value \<Rightarrow> nu_value res" where
  "floor_div_values left right = (case int_operands left right of
     Some (a, b) \<Rightarrow> if b = 0 then Inl (stone_error ''floor division'' ''division by zero'' [])
       else and_then (python_floor_div_i64 a b) (\<lambda>c. Inr (VInt c))
   | None \<Rightarrow> and_then (div_f64 left right) (\<lambda>x. Inr (VFloat (f64_floor x))))"

definition mod_values :: "nu_value \<Rightarrow> nu_value \<Rightarrow> nu_value res" where
  "mod_values left right = (case int_operands left right of
     Some (a, b) \<Rightarrow> if b = 0 then Inl (stone_error ''modulo'' ''modulo by zero'' [])
       else and_then (python_mod_i64 a b) (\<lambda>c. Inr (VInt c))
   | None \<Rightarrow> (case float_operands left right of
       None \<Rightarrow> Inl (stone_error ''modulo'' ''cannot modulo {} and {}'' [MType left, MType right])
     | Some (a, b) \<Rightarrow> if f64_eq b f64_zero then Inl (stone_error ''modulo'' ''modulo by zero'' [])
         else Inr (VFloat (f64_sub a (f64_mul (f64_floor (f64_div a b)) b)))))"

definition neg_value :: "nu_value \<Rightarrow> nu_value res" where
  "neg_value v = (case v of
     VInt i \<Rightarrow> and_then (ok_or (stone_error ''unary minus'' ''integer negation overflow'' [])
        (checked_neg i)) (\<lambda>c. Inr (VInt c))
   | VFloat x \<Rightarrow> Inr (VFloat (f64_neg x))
   | _ \<Rightarrow> Inl (stone_error ''unary minus'' ''cannot negate {}'' [MType v]))"

definition bitwise_int_values :: "nu_value \<Rightarrow> nu_value \<Rightarrow> string \<Rightarrow> (i64 \<Rightarrow> i64 \<Rightarrow> i64) \<Rightarrow> nu_value res" where
  "bitwise_int_values left right context op =
     and_then (value_to_operator_i64 left context) (\<lambda>a.
     and_then (value_to_operator_i64 right context) (\<lambda>b. Inr (VInt (op a b))))"

definition u32_of_i64 :: "i64 \<Rightarrow> nat option" where
  "u32_of_i64 a = (if 0 \<le> sint a \<and> sint a < 4294967296 then Some (nat (sint a)) else None)"

definition shift_value :: "nu_value \<Rightarrow> nu_value \<Rightarrow> string \<Rightarrow> (i64 \<Rightarrow> nat \<Rightarrow> i64 option) \<Rightarrow> nu_value res" where
  "shift_value left right context op =
     and_then (value_to_operator_i64 left context) (\<lambda>a.
     and_then (value_to_operator_i64 right context) (\<lambda>b.
     and_then (ok_or (stone_error context ''shift count must be non-negative'' []) (u32_of_i64 b)) (\<lambda>n.
     and_then (ok_or (stone_error context ''shift count is too large'' []) (op a n)) (\<lambda>c.
     Inr (VInt c)))))"

section \<open>Equality, ordering and membership\<close>

lemma size_zip_fst [termination_simp]:
  "(x, y) \<in> set (zip xs ys) \<Longrightarrow> size x < Suc (size_list size (xs :: nu_value list))"
  by (meson less_Suc_eq_le set_zip_leftD size_list_estimation' order_refl)

fun values_equal :: "nu_value \<Rightarrow> nu_value \<Rightarrow> bool" where
  "values_equal VNothing r = (case r of VNothing \<Rightarrow> True | _ \<Rightarrow> False)"
| "values_equal (VBool a) r = (case r of VBool b \<Rightarrow> a = b | _ \<Rightarrow> False)"
| "values_equal (VInt a) r = (case r of VInt b \<Rightarrow> a = b | VFloat b \<Rightarrow> f64_eq (i64_as_f64 a) b | _ \<Rightarrow> False)"
| "values_equal (VFloat a) r = (case r of VFloat b \<Rightarrow> f64_eq a b | VInt b \<Rightarrow> f64_eq a (i64_as_f64 b) | _ \<Rightarrow> False)"
| "values_equal (VString a) r = (case nu_text r of Some b \<Rightarrow> a = b | None \<Rightarrow> False)"
| "values_equal (VGlob a) r = (case nu_text r of Some b \<Rightarrow> a = b | None \<Rightarrow> False)"
| "values_equal (VList a) r = (case r of
     VList b \<Rightarrow> length a = length b \<and> list_all (\<lambda>(x, y). values_equal x y) (zip a b) | _ \<Rightarrow> False)"
| "values_equal (VRecord a) r = (case r of
     VRecord b \<Rightarrow> length a = length b
       \<and> list_all (\<lambda>(k, x). case record_get b k of None \<Rightarrow> False | Some y \<Rightarrow> values_equal x y) a
   | _ \<Rightarrow> False)"
| "values_equal (VBinary a) r = False"
| "values_equal (VOther a) r = False"

primrec str_cmp :: "string \<Rightarrow> string \<Rightarrow> ordering" where
  "str_cmp [] t = (if t = [] then OEqual else OLess)"
| "str_cmp (c # cs) t = (case t of [] \<Rightarrow> OGreater
     | d # ds \<Rightarrow> if byte c = byte d then str_cmp cs ds else int_cmp (byte c) (byte d))"

definition ordering_error :: "nu_value \<Rightarrow> nu_value \<Rightarrow> shell_error" where
  "ordering_error left right =
     stone_error ''comparison'' ''cannot order {} and {}'' [MType left, MType right]"

definition f64_ordering :: "f64 \<Rightarrow> f64 \<Rightarrow> ordering res" where
  "f64_ordering a b = ok_or (stone_error ''comparison'' ''cannot compare NaN values'' [])
     (f64_partial_cmp a b)"

fun value_ordering :: "nu_value \<Rightarrow> nu_value \<Rightarrow> ordering res"
  and list_ordering :: "nu_value list \<Rightarrow> nu_value list \<Rightarrow> ordering res" where
  "value_ordering (VInt a) r = (case r of
     VInt b \<Rightarrow> Inr (int_cmp (sint a) (sint b))
   | VFloat b \<Rightarrow> f64_ordering (i64_as_f64 a) b
   | _ \<Rightarrow> Inl (ordering_error (VInt a) r))"
| "value_ordering (VFloat a) r = (case r of
     VFloat b \<Rightarrow> f64_ordering a b
   | VInt b \<Rightarrow> f64_ordering a (i64_as_f64 b)
   | _ \<Rightarrow> Inl (ordering_error (VFloat a) r))"
| "value_ordering (VString a) r = (case nu_text r of
     Some b \<Rightarrow> Inr (str_cmp a b) | None \<Rightarrow> Inl (ordering_error (VString a) r))"
| "value_ordering (VGlob a) r = (case nu_text r of
     Some b \<Rightarrow> Inr (str_cmp a b) | None \<Rightarrow> Inl (ordering_error (VGlob a) r))"
| "value_ordering (VList a) r = (case r of
     VList b \<Rightarrow> list_ordering a b | _ \<Rightarrow> Inl (ordering_error (VList a) r))"
| "value_ordering VNothing r = Inl (ordering_error VNothing r)"
| "value_ordering (VBool b) r = Inl (ordering_error (VBool b) r)"
| "value_ordering (VRecord f) r = Inl (ordering_error (VRecord f) r)"
| "value_ordering (VBinary b) r = Inl (ordering_error (VBinary b) r)"
| "value_ordering (VOther t) r = Inl (ordering_error (VOther t) r)"
| "list_ordering [] bs = Inr (if bs = [] then OEqual else OLess)"
| "list_ordering (a # as) bs = (case bs of
     [] \<Rightarrow> Inr OGreater
   | b # bs' \<Rightarrow> and_then (value_ordering a b) (\<lambda>c.
       if c \<noteq> OEqual then Inr c else list_ordering as bs'))"

definition value_contains :: "nu_value \<Rightarrow> nu_value \<Rightarrow> bool res" where
  "value_contains container needle = (case container of
     VList vs \<Rightarrow> Inr (list_ex (\<lambda>v. values_equal v needle) vs)
   | VRecord r \<Rightarrow> and_then (value_to_string needle ''membership'') (\<lambda>k. Inr (record_get r k \<noteq> None))
   | _ \<Rightarrow> (case nu_text container of
       Some s \<Rightarrow> and_then (value_to_string needle ''membership'') (\<lambda>p. Inr (str_contains p s))
     | None \<Rightarrow> Inl (stone_error ''membership'' ''cannot test membership in {}'' [MType container])))"

definition compare_values :: "nu_value \<Rightarrow> compare_op \<Rightarrow> nu_value \<Rightarrow> bool res" where
  "compare_values left op right = (case op of
     CEq \<Rightarrow> Inr (values_equal left right)
   | CNotEq \<Rightarrow> Inr (\<not> values_equal left right)
   | CIs \<Rightarrow> Inr (values_equal left right)
   | CIsNot \<Rightarrow> Inr (\<not> values_equal left right)
   | CIn \<Rightarrow> value_contains right left
   | CNotIn \<Rightarrow> and_then (value_contains right left) (\<lambda>b. Inr (\<not> b))
   | CLt \<Rightarrow> and_then (value_ordering left right) (\<lambda>c. Inr (c = OLess))
   | CLtE \<Rightarrow> and_then (value_ordering left right) (\<lambda>c. Inr (c \<noteq> OGreater))
   | CGt \<Rightarrow> and_then (value_ordering left right) (\<lambda>c. Inr (c = OGreater))
   | CGtE \<Rightarrow> and_then (value_ordering left right) (\<lambda>c. Inr (c \<noteq> OLess)))"

end
