(* ===== verification/State.thy ===== *)
theory State
  imports Numeric
begin

text \<open>The state of the evaluator (\<open>stone_eval.rs\<close>): the stack of scopes, the functions, the
  diagnostics of the hot loop compiler, and the runtime values a name can hold
  (\<open>stone_runtime_value.rs\<close>). A view into a JSON line and the task-owned handles are kept as they
  are; what they materialise to is the parameter \<open>materialize\<close>.\<close>

section \<open>Runtime values\<close>

record json_view =
  jv_bytes :: string
  jv_range :: "nat \<times> nat"
  jv_source :: string
  jv_line_number :: nat

record jsonl_rows =
  rows_bytes :: string
  rows_lines :: "((nat \<times> nat) \<times> nat) list"
  rows_source :: string

datatype rvalue =
    RNu nu_value
  | RTextLines "string list" string
  | RJsonlRows jsonl_rows
  | RJsonObjectView json_view
  | RJsonArrayView json_view
  | RJsonScalarView json_view
  | RCallable nat string
  | ROwned string nat

text \<open>The conversion to a plain value. The context only appears in the error, so the materialisation
  of a view or of an owned value is a value or a message that awaits the context.\<close>

type_synonym materializer = "rvalue \<Rightarrow> (string \<Rightarrow> shell_error) + nu_value"

definition into_nu_value :: "materializer \<Rightarrow> rvalue \<Rightarrow> string \<Rightarrow> nu_value res" where
  "into_nu_value materialize v context = (case v of
     RNu n \<Rightarrow> Inr n
   | RTextLines ls _ \<Rightarrow> Inr (VList (List.map VString ls))
   | _ \<Rightarrow> (case materialize v of Inl err \<Rightarrow> Inl (err context) | Inr n \<Rightarrow> Inr n))"

lemma into_nu_value_RNu [simp]: "into_nu_value m (RNu n) c = Inr n"
  by (simp add: into_nu_value_def)

lemma into_nu_value_Inr_context:
  "into_nu_value m v c = Inr n \<Longrightarrow> into_nu_value m v c' = Inr n"
  by (auto simp: into_nu_value_def split: rvalue.splits sum.splits)

section \<open>Diagnostics\<close>

record hot_diagnostics =
  hd_loop_candidates :: nat
  hd_loop_ir_lowered :: nat
  hd_loop_vm_executed :: nat
  hd_kernels_selected :: nat
  hd_kernels_executed :: nat
  hd_loop_fallbacks :: nat
  hd_generic_lowered :: nat
  hd_generic_executed :: nat
  hd_jsonl_lowered :: nat
  hd_jsonl_executed :: nat
  hd_lowering_missed :: "string \<Rightarrow> nat"
  hd_fusion_missed :: "string \<Rightarrow> nat"
  hd_optimizations :: "string \<Rightarrow> nat"

definition empty_diagnostics :: hot_diagnostics where
  "empty_diagnostics = \<lparr> hd_loop_candidates = 0, hd_loop_ir_lowered = 0, hd_loop_vm_executed = 0,
     hd_kernels_selected = 0, hd_kernels_executed = 0, hd_loop_fallbacks = 0, hd_generic_lowered = 0,
     hd_generic_executed = 0, hd_jsonl_lowered = 0, hd_jsonl_executed = 0,
     hd_lowering_missed = (\<lambda>_. 0), hd_fusion_missed = (\<lambda>_. 0), hd_optimizations = (\<lambda>_. 0) \<rparr>"

definition bump :: "string \<Rightarrow> (string \<Rightarrow> nat) \<Rightarrow> string \<Rightarrow> nat" where
  "bump k f = f(k := f k + 1)"

definition diag_lowering_miss :: "string \<Rightarrow> hot_diagnostics \<Rightarrow> hot_diagnostics" where
  "diag_lowering_miss reason d = d\<lparr> hd_lowering_missed := bump reason (hd_lowering_missed d) \<rparr>"

definition diag_fusion_miss :: "string \<Rightarrow> hot_diagnostics \<Rightarrow> hot_diagnostics" where
  "diag_fusion_miss reason d = d\<lparr> hd_fusion_missed := bump reason (hd_fusion_missed d) \<rparr>"

definition diag_loop_ir_lowered :: "hot_diagnostics \<Rightarrow> hot_diagnostics" where
  "diag_loop_ir_lowered d = d\<lparr> hd_loop_ir_lowered := hd_loop_ir_lowered d + 1,
     hd_generic_lowered := hd_generic_lowered d + 1 \<rparr>"

definition diag_loop_vm_executed :: "hot_diagnostics \<Rightarrow> hot_diagnostics" where
  "diag_loop_vm_executed d = d\<lparr> hd_loop_vm_executed := hd_loop_vm_executed d + 1,
     hd_generic_executed := hd_generic_executed d + 1 \<rparr>"

definition diag_loop_fallback :: "hot_diagnostics \<Rightarrow> hot_diagnostics" where
  "diag_loop_fallback d = d\<lparr> hd_loop_fallbacks := hd_loop_fallbacks d + 1 \<rparr>"

section \<open>Scopes\<close>

type_synonym scope = "string \<rightharpoonup> rvalue"

record eval_state =
  es_scopes :: "scope list"
  es_functions :: "string \<rightharpoonup> function_def"
  es_next_callable :: nat
  es_hot_enabled :: bool
  es_session_names :: "string list"
  es_diagnostics :: hot_diagnostics

text \<open>A scope stack is a vector whose last element is the innermost scope.\<close>

primrec find_some :: "('a \<Rightarrow> 'b option) \<Rightarrow> 'a list \<Rightarrow> 'b option" where
  "find_some f [] = None"
| "find_some f (x # xs) = (case f x of Some y \<Rightarrow> Some y | None \<Rightarrow> find_some f xs)"

definition rooted :: "scope list \<Rightarrow> scope list" where
  "rooted ss = (if ss = [] then [Map.empty] else ss)"

definition get_local :: "string \<Rightarrow> eval_state \<Rightarrow> rvalue option" where
  "get_local x st = find_some (\<lambda>s. s x) (rev (es_scopes st))"

definition set_local :: "string \<Rightarrow> rvalue \<Rightarrow> eval_state \<Rightarrow> eval_state" where
  "set_local x v st = (let ss = rooted (es_scopes st)
     in st\<lparr> es_scopes := butlast ss @ [(last ss)(x \<mapsto> v)] \<rparr>)"

text \<open>Writing through \<open>get_local_mut\<close> changes the innermost scope that binds the name.\<close>

primrec update_first :: "string \<Rightarrow> rvalue \<Rightarrow> scope list \<Rightarrow> scope list" where
  "update_first x v [] = []"
| "update_first x v (s # ss) = (if s x \<noteq> None then s(x \<mapsto> v) # ss else s # update_first x v ss)"

definition write_local_mut :: "string \<Rightarrow> rvalue \<Rightarrow> eval_state \<Rightarrow> eval_state" where
  "write_local_mut x v st = st\<lparr> es_scopes := rev (update_first x v (rev (es_scopes st))) \<rparr>"

primrec remove_first :: "string \<Rightarrow> scope list \<Rightarrow> scope list" where
  "remove_first x [] = []"
| "remove_first x (s # ss) = (if s x \<noteq> None then s(x := None) # ss else s # remove_first x ss)"

definition remove_local :: "string \<Rightarrow> eval_state \<Rightarrow> eval_state" where
  "remove_local x st = st\<lparr> es_scopes := rev (remove_first x (rev (es_scopes st))) \<rparr>"

definition push_scope :: "eval_state \<Rightarrow> eval_state" where
  "push_scope st = st\<lparr> es_scopes := es_scopes st @ [Map.empty] \<rparr>"

definition pop_scope :: "eval_state \<Rightarrow> eval_state res" where
  "pop_scope st = (if length (es_scopes st) \<le> 1
     then Inl (stone_error ''scope'' ''cannot pop root scope'' [])
     else Inr (st\<lparr> es_scopes := butlast (es_scopes st) \<rparr>))"

definition is_nu :: "rvalue \<Rightarrow> bool" where
  "is_nu v = (case v of RNu _ \<Rightarrow> True | _ \<Rightarrow> False)"

definition merge_nu :: "string option \<Rightarrow> scope \<Rightarrow> scope \<Rightarrow> scope" where
  "merge_nu exclude child parent = (\<lambda>x. case child x of
     Some v \<Rightarrow> if exclude = Some x \<or> \<not> is_nu v then parent x else Some v
   | None \<Rightarrow> parent x)"

definition pop_scope_merging_nu_locals :: "string option \<Rightarrow> eval_state \<Rightarrow> eval_state res" where
  "pop_scope_merging_nu_locals exclude st = (if length (es_scopes st) \<le> 1
     then Inl (stone_error ''scope'' ''cannot pop root scope'' [])
     else let child = last (es_scopes st); rest = butlast (es_scopes st)
       in Inr (st\<lparr> es_scopes := butlast rest @ [merge_nu exclude child (last rest)] \<rparr>))"

text \<open>A callable identifier wraps to zero after the largest 64-bit number.\<close>

definition next_callable_id :: "eval_state \<Rightarrow> nat \<times> eval_state" where
  "next_callable_id st = (es_next_callable st,
     st\<lparr> es_next_callable := if es_next_callable st = 18446744073709551615 then 0 else es_next_callable st + 1 \<rparr>)"

definition record_session_binding :: "string \<Rightarrow> eval_state \<Rightarrow> eval_state" where
  "record_session_binding x st = (if x \<in> set (es_session_names st) then st
     else st\<lparr> es_session_names := es_session_names st @ [x] \<rparr>)"

definition with_diagnostics :: "(hot_diagnostics \<Rightarrow> hot_diagnostics) \<Rightarrow> eval_state \<Rightarrow> eval_state" where
  "with_diagnostics f st = st\<lparr> es_diagnostics := f (es_diagnostics st) \<rparr>"

section \<open>Laws of a scoped store\<close>

text \<open>The contract between the loop executor and the scopes: a name read after it was written has
  the value written, every other name keeps its own.\<close>

locale scoped_store =
  fixes get :: "'n \<Rightarrow> 's \<Rightarrow> 'v option"
    and put :: "'n \<Rightarrow> 'v \<Rightarrow> 's \<Rightarrow> 's"
  assumes get_put: "get x (put y v s) = (if x = y then Some v else get x s)"
begin

lemma get_put_same [simp]: "get x (put x v s) = Some v"
  by (simp add: get_put)

lemma get_put_other [simp]: "x \<noteq> y \<Longrightarrow> get x (put y v s) = get x s"
  by (simp add: get_put)

lemma get_fold_put_notin:
  "x \<notin> fst ` set kvs \<Longrightarrow> get x (fold (\<lambda>a. put (fst a) (snd a)) kvs s) = get x s"
  by (induction kvs arbitrary: s) (auto simp: get_put)

lemma get_fold_put:
  assumes "distinct (List.map fst kvs)"
  shows "get x (fold (\<lambda>a. put (fst a) (snd a)) kvs s)
    = (case map_of kvs x of Some v \<Rightarrow> Some v | None \<Rightarrow> get x s)"
  using assms
proof (induction kvs arbitrary: s)
  case (Cons kv kvs)
  show ?case
  proof (cases "x = fst kv")
    case True
    with Cons.prems have "x \<notin> fst ` set kvs" by auto
    with True show ?thesis by (simp add: get_fold_put_notin get_put)
  next
    case False
    with Cons show ?thesis by (simp add: get_put split: option.splits)
  qed
qed simp

end

locale mutable_store = scoped_store get put
  for get :: "'n \<Rightarrow> 's \<Rightarrow> 'v option" and put :: "'n \<Rightarrow> 'v \<Rightarrow> 's \<Rightarrow> 's" +
  fixes upd :: "'n \<Rightarrow> 'v \<Rightarrow> 's \<Rightarrow> 's"
  assumes get_upd: "get x (upd y v s) = (if x = y \<and> get y s \<noteq> None then Some v else get x s)"
begin

lemma get_upd_bound: "get y s \<noteq> None \<Longrightarrow> get x (upd y v s) = get x (put y v s)"
  by (simp add: get_upd get_put)

lemma bound_after_upd: "get z s \<noteq> None \<Longrightarrow> get z (upd y v s) \<noteq> None"
  by (simp add: get_upd)

end

lemma find_some_append:
  "find_some f (xs @ ys) = (case find_some f xs of Some y \<Rightarrow> Some y | None \<Rightarrow> find_some f ys)"
  by (induction xs) (auto split: option.splits)

lemma get_local_set_local:
  "get_local x (set_local y v st) = (if x = y then Some v else get_local x st)"
proof (cases "es_scopes st" rule: rev_cases)
  case Nil
  then show ?thesis by (simp add: get_local_def set_local_def rooted_def)
next
  case (snoc ss s)
  then show ?thesis by (simp add: get_local_def set_local_def rooted_def)
qed

lemma find_some_update_first:
  "find_some (\<lambda>s. s x) (update_first y v ss)
    = (if x = y \<and> find_some (\<lambda>s. s y) ss \<noteq> None then Some v else find_some (\<lambda>s. s x) ss)"
  by (induction ss) (auto split: option.splits)

lemma get_local_write_local_mut:
  "get_local x (write_local_mut y v st)
    = (if x = y \<and> get_local y st \<noteq> None then Some v else get_local x st)"
  by (simp add: get_local_def write_local_mut_def find_some_update_first)

interpretation locals: mutable_store get_local set_local write_local_mut
  by unfold_locales (simp_all add: get_local_set_local get_local_write_local_mut)

lemma get_local_with_diagnostics [simp]: "get_local x (with_diagnostics f st) = get_local x st"
  by (simp add: get_local_def with_diagnostics_def)

lemma set_local_fields [simp]:
  "es_functions (set_local x v st) = es_functions st"
  "es_next_callable (set_local x v st) = es_next_callable st"
  "es_hot_enabled (set_local x v st) = es_hot_enabled st"
  "es_session_names (set_local x v st) = es_session_names st"
  "es_diagnostics (set_local x v st) = es_diagnostics st"
  by (simp_all add: set_local_def Let_def)

lemma write_local_mut_fields [simp]:
  "es_functions (write_local_mut x v st) = es_functions st"
  "es_next_callable (write_local_mut x v st) = es_next_callable st"
  "es_hot_enabled (write_local_mut x v st) = es_hot_enabled st"
  "es_session_names (write_local_mut x v st) = es_session_names st"
  "es_diagnostics (write_local_mut x v st) = es_diagnostics st"
  by (simp_all add: write_local_mut_def)

lemma with_diagnostics_fields [simp]:
  "es_scopes (with_diagnostics f st) = es_scopes st"
  "es_functions (with_diagnostics f st) = es_functions st"
  "es_next_callable (with_diagnostics f st) = es_next_callable st"
  "es_hot_enabled (with_diagnostics f st) = es_hot_enabled st"
  "es_session_names (with_diagnostics f st) = es_session_names st"
  by (simp_all add: with_diagnostics_def)

end
