(* ===== verification/Json.thy ===== *)
theory Json
  imports Numeric "HOL-Library.Char_ord" "HOL-Library.List_Lexorder"
begin

text \<open>JSON values and their conversion to and from the values of Stone (\<open>json.rs\<close>). A number is an
  integer of 64 bits, signed or unsigned, or a finite float; an object is a \<open>BTreeMap\<close>, the list of its
  entries in the order of their keys.\<close>

datatype json =
    JNull
  | JBool bool
  | JInt int
  | JFloat f64
  | JString string
  | JArray "json list"
  | JObject "(string \<times> json) list"

fun map_insert :: "string \<Rightarrow> 'a \<Rightarrow> (string \<times> 'a) list \<Rightarrow> (string \<times> 'a) list" where
  "map_insert k v [] = [(k, v)]"
| "map_insert k v ((k', v') # m) =
     (if k < k' then (k, v) # (k', v') # m
      else if k = k' then (k, v) # m
      else (k', v') # map_insert k v m)"

definition record_to_json :: "(string \<times> 'a) list \<Rightarrow> (string \<times> 'a) list" where
  "record_to_json entries = fold (\<lambda>(k, j). map_insert k j) entries []"

definition f64_finite :: "f64 \<Rightarrow> bool" where
  "f64_finite x = (case x of F_Fin _ _ _ \<Rightarrow> True | _ \<Rightarrow> False)"

definition non_finite_text :: "f64 \<Rightarrow> string" where
  "non_finite_text x = (case x of F_Inf s \<Rightarrow> if s then ''-inf'' else ''inf'' | _ \<Rightarrow> ''NaN'')"

definition hex_digit :: "nat \<Rightarrow> char" where
  "hex_digit n = char_of (if n < 10 then 48 + n else 87 + n)"

definition encode_hex :: "8 word list \<Rightarrow> string" where
  "encode_hex bytes = concat (List.map (\<lambda>b. [hex_digit (unat b div 16), hex_digit (unat b mod 16)]) bytes)"

definition typed_json :: "string \<Rightarrow> string \<Rightarrow> json \<Rightarrow> json" where
  "typed_json kind key v = JObject (record_to_json [(''$type'', JString kind), (key, v)])"

text \<open>The values of other nushell types (dates, durations, ranges, closures) have no constructor in the
  model; what they become is the parameter \<open>other\<close>.\<close>

fun nu_to_json_value :: "(string \<Rightarrow> json) \<Rightarrow> nu_value \<Rightarrow> json" where
  "nu_to_json_value other VNothing = JNull"
| "nu_to_json_value other (VBool b) = JBool b"
| "nu_to_json_value other (VInt i) = JInt (sint i)"
| "nu_to_json_value other (VFloat x) =
     (if f64_finite x then JFloat x else typed_json ''float'' ''value'' (JString (non_finite_text x)))"
| "nu_to_json_value other (VString s) = JString s"
| "nu_to_json_value other (VGlob s) = JString s"
| "nu_to_json_value other (VBinary bytes) = typed_json ''binary'' ''hex'' (JString (encode_hex bytes))"
| "nu_to_json_value other (VOther t) = other t"
| "nu_to_json_value other (VList vs) = JArray (List.map (nu_to_json_value other) vs)"
| "nu_to_json_value other (VRecord r) =
     JObject (record_to_json (List.map (\<lambda>(k, v). (k, nu_to_json_value other v)) r))"

text \<open>An integer above the range of \<open>i64\<close> becomes a float.\<close>

fun json_to_nu_value :: "json \<Rightarrow> nu_value" where
  "json_to_nu_value JNull = VNothing"
| "json_to_nu_value (JBool b) = VBool b"
| "json_to_nu_value (JInt z) = (if in_i64 z then VInt (i64_of z) else VFloat (f64_of_int z))"
| "json_to_nu_value (JFloat x) = VFloat x"
| "json_to_nu_value (JString s) = VString s"
| "json_to_nu_value (JArray js) = VList (List.map json_to_nu_value js)"
| "json_to_nu_value (JObject m) = VRecord (List.map (\<lambda>(k, j). (k, json_to_nu_value j)) m)"

end
