(* ===== verification/Json_Scan.thy ===== *)
theory Json_Scan
  imports State Json
begin

text \<open>The byte-level scanner of JSON lines (\<open>stone_json_view.rs\<close>): it finds the ranges of fields and
  elements without decoding them. An index is a natural number; reading past the end is \<open>None\<close>, as
  with \<open>slice::get\<close>. Decoding is left to \<open>serde_json\<close>, a parameter.\<close>

section \<open>UTF-8\<close>

text \<open>\<open>str::from_utf8\<close> fails with the length of the valid prefix, and the number of bytes that are
  invalid, or nothing when the input ends inside a character.\<close>

definition utf8_width :: "int \<Rightarrow> nat" where
  "utf8_width b = (if b < 128 then 1 else if 194 \<le> b \<and> b \<le> 223 then 2
     else if 224 \<le> b \<and> b \<le> 239 then 3 else if 240 \<le> b \<and> b \<le> 244 then 4 else 0)"

definition utf8_second_ok :: "int \<Rightarrow> int \<Rightarrow> bool" where
  "utf8_second_ok b c \<longleftrightarrow>
     (if b = 224 then 160 else if b = 240 then 144 else 128) \<le> c
   \<and> c \<le> (if b = 237 then 159 else if b = 244 then 143 else 191)"

definition utf8_char :: "string \<Rightarrow> nat option + nat" where
  "utf8_char s = (case s of [] \<Rightarrow> Inl None | c # s1 \<Rightarrow>
     let w = utf8_width (byte c)
     in if w = 0 then Inl (Some 1)
        else if w = 1 then Inr 1
        else (case s1 of [] \<Rightarrow> Inl None | d # s2 \<Rightarrow>
          if \<not> utf8_second_ok (byte c) (byte d) then Inl (Some 1)
          else if w = 2 then Inr 2
          else (case s2 of [] \<Rightarrow> Inl None | e # s3 \<Rightarrow>
            if \<not> is_cont e then Inl (Some 2)
            else if w = 3 then Inr 3
            else (case s3 of [] \<Rightarrow> Inl None | f # _ \<Rightarrow>
              if \<not> is_cont f then Inl (Some 3) else Inr 4))))"

lemma utf8_char_pos: "utf8_char s = Inr w \<Longrightarrow> 0 < w \<and> s \<noteq> []"
  by (auto simp: utf8_char_def Let_def split: list.splits if_splits)

function utf8_error :: "nat \<Rightarrow> string \<Rightarrow> (nat \<times> nat option) option" where
  "utf8_error i s = (if s = [] then None else case utf8_char s of
     Inl n \<Rightarrow> Some (i, n) | Inr w \<Rightarrow> utf8_error (i + w) (drop w s))"
  by auto

termination utf8_error
  by (relation "measure (\<lambda>(_, s). length s)") (auto dest: utf8_char_pos)

declare utf8_error.simps [simp del]

fun decimal :: "nat \<Rightarrow> string" where
  "decimal n = (if n < 10 then [char_of (48 + n)] else decimal (n div 10) @ [char_of (48 + n mod 10)])"

declare decimal.simps [simp del]

definition utf8_error_text :: "nat \<times> nat option \<Rightarrow> string" where
  "utf8_error_text e = (case snd e of
     Some n \<Rightarrow> ''invalid utf-8 sequence of '' @ decimal n @ '' bytes from index '' @ decimal (fst e)
   | None \<Rightarrow> ''incomplete utf-8 byte sequence from index '' @ decimal (fst e))"

definition from_utf8 :: "string \<Rightarrow> string + string" where
  "from_utf8 s = (case utf8_error 0 s of None \<Rightarrow> Inr s | Some e \<Rightarrow> Inl (utf8_error_text e))"

section \<open>The decoder\<close>

text \<open>The calls of \<open>serde_json::from_slice\<close>, with the text of an error: at \<open>String\<close> and at \<open>Value\<close>.\<close>

record serde =
  sj_string :: "string \<Rightarrow> string + string"
  sj_value :: "string \<Rightarrow> string + json"

definition decode_value :: "serde \<Rightarrow> string \<Rightarrow> string + nu_value" where
  "decode_value sj bytes = and_then (sj_value sj bytes) (\<lambda>j. Inr (json_to_nu_value j))"

text \<open>The error of the views.\<close>

definition view_error :: "string \<Rightarrow> shell_error" where
  "view_error msg = stone_error ''json view'' msg []"

definition line_error :: "string \<Rightarrow> nat \<Rightarrow> string \<Rightarrow> shell_error" where
  "line_error source line_number text =
     stone_error ''json view'' ''{} line {}: {}'' [MStr source, MInt (int line_number), MStr text]"

definition at_line :: "string \<Rightarrow> nat \<Rightarrow> string + 'a \<Rightarrow> 'a res" where
  "at_line source line_number r = (case r of Inl e \<Rightarrow> Inl (line_error source line_number e) | Inr x \<Rightarrow> Inr x)"

section \<open>Tokens\<close>

definition is_ascii_whitespace :: "char \<Rightarrow> bool" where
  "is_ascii_whitespace c \<longleftrightarrow> byte c \<in> {32, 9, 10, 12, 13}"

definition range_of :: "string \<Rightarrow> nat \<times> nat \<Rightarrow> string" where
  "range_of bytes r = take (snd r - fst r) (drop (fst r) bytes)"

function skip_json_ws :: "string \<Rightarrow> nat \<Rightarrow> nat" where
  "skip_json_ws bytes i = (case vec_get bytes i of
     Some c \<Rightarrow> if is_ascii_whitespace c then skip_json_ws bytes (i + 1) else i
   | None \<Rightarrow> i)"
  by auto

termination skip_json_ws
  by (relation "measure (\<lambda>(bytes, i). length bytes - i)") (auto simp: vec_get_eq_Some)

function string_end_loop :: "string \<Rightarrow> nat \<Rightarrow> nat res" where
  "string_end_loop bytes i = (case vec_get bytes i of
     None \<Rightarrow> Inl (view_error ''unterminated string'')
   | Some c \<Rightarrow>
       if c = CHR 0x5C then string_end_loop bytes (i + 2)
       else if c = CHR 0x22 then Inr i
       else string_end_loop bytes (i + 1))"
  by auto

termination string_end_loop
  by (relation "measure (\<lambda>(bytes, i). length bytes - i)") (auto simp: vec_get_eq_Some)

declare skip_json_ws.simps [simp del] string_end_loop.simps [simp del]

definition json_string_end :: "string \<Rightarrow> nat \<Rightarrow> nat res" where
  "json_string_end bytes quote = string_end_loop bytes (quote + 1)"

lemma string_end_bounds: "string_end_loop bytes i = Inr k \<Longrightarrow> i \<le> k \<and> k < length bytes"
proof (induction bytes i rule: string_end_loop.induct)
  case (1 bytes i)
  from "1.prems" obtain c where c: "vec_get bytes i = Some c"
    by (cases "vec_get bytes i") (simp_all add: string_end_loop.simps [of bytes i])
  then have "i < length bytes" by (simp add: vec_get_eq_Some)
  with c "1.prems" "1.IH" [OF c] show ?case
    by (force simp: string_end_loop.simps [of bytes i] split: if_splits)
qed

lemma json_string_end_bounds: "json_string_end bytes i = Inr k \<Longrightarrow> i < k \<and> k < length bytes"
  using string_end_bounds [of bytes "i + 1" k] by (auto simp: json_string_end_def)

function value_end_loop :: "string \<Rightarrow> nat \<Rightarrow> nat \<Rightarrow> nat res" where
  "value_end_loop bytes i depth = (case vec_get bytes i of
     None \<Rightarrow> Inr i
   | Some c \<Rightarrow>
       if c = CHR 0x22 then and_then (json_string_end bytes i) (\<lambda>k. value_end_loop bytes (k + 1) depth)
       else if c = CHR ''{'' \<or> c = CHR ''['' then value_end_loop bytes (i + 1) (depth + 1)
       else if (c = CHR ''}'' \<or> c = CHR '']'') \<and> 0 < depth then value_end_loop bytes (i + 1) (depth - 1)
       else if (c = CHR '','' \<or> c = CHR ''}'' \<or> c = CHR '']'') \<and> depth = 0 then Inr i
       else value_end_loop bytes (i + 1) depth)"
  by auto

termination value_end_loop
  by (relation "measure (\<lambda>(bytes, i, _). length bytes - i)")
     (auto simp: vec_get_eq_Some dest: json_string_end_bounds)

declare value_end_loop.simps [simp del]

definition json_value_end :: "string \<Rightarrow> nat \<Rightarrow> nat res" where
  "json_value_end bytes start = value_end_loop bytes start 0"

section \<open>Objects\<close>

definition trim_json_bytes :: "string \<Rightarrow> string" where
  "trim_json_bytes s = rev (dropWhile is_ascii_whitespace (rev (dropWhile is_ascii_whitespace s)))"

text \<open>Escaped keys are decoded before they are compared.\<close>

definition json_key_matches :: "serde \<Rightarrow> string \<Rightarrow> nat \<times> nat \<Rightarrow> string \<Rightarrow> bool" where
  "json_key_matches sj bytes r key = (let raw = range_of bytes r
     in if CHR 0x5C \<notin> set raw then raw = key
        else sj_string sj (CHR 0x22 # raw @ [CHR 0x22]) = Inr key)"

definition json_object_start :: "string \<Rightarrow> nat res" where
  "json_object_start bytes = (let i = skip_json_ws bytes 0
     in if vec_get bytes i = Some (CHR ''{'') then Inr (i + 1)
        else Inl (view_error ''JSONL row is not an object''))"

text \<open>One turn of the loop over the fields up to the end of the value: the ranges of the key and of the
  value, or nothing at the end of the object.\<close>

definition json_field_at :: "string \<Rightarrow> nat \<Rightarrow> ((nat \<times> nat) \<times> (nat \<times> nat)) option res" where
  "json_field_at bytes i0 = (let i = skip_json_ws bytes i0
     in if vec_get bytes i = Some (CHR ''}'') then Inr None
        else if vec_get bytes i \<noteq> Some (CHR 0x22) then Inl (view_error ''expected object key string'')
        else and_then (json_string_end bytes i) (\<lambda>key_end.
          let colon = skip_json_ws bytes (key_end + 1)
          in if vec_get bytes colon \<noteq> Some (CHR '':'')
             then Inl (view_error ''expected `:` after object key'')
             else let value_start = skip_json_ws bytes (colon + 1)
               in and_then (json_value_end bytes value_start) (\<lambda>value_end.
                  Inr (Some ((i + 1, key_end), (value_start, value_end))))))"

text \<open>The rest of the turn: the index behind the comma, or nothing at the end of the object.\<close>

definition json_field_next :: "string \<Rightarrow> nat \<Rightarrow> nat option res" where
  "json_field_next bytes value_end = (let i = skip_json_ws bytes value_end
     in if vec_get bytes i = Some (CHR '','') then Inr (Some (i + 1))
        else if vec_get bytes i = Some (CHR ''}'') then Inr None
        else Inl (view_error ''expected `,` or `}` after value''))"

lemma skip_json_ws_ge: "i \<le> skip_json_ws bytes i"
proof (induction bytes i rule: skip_json_ws.induct)
  case (1 bytes i)
  then show ?case by (subst skip_json_ws.simps) (auto split: option.splits dest: Suc_leD)
qed

lemma skip_json_ws_le: "i \<le> length bytes \<Longrightarrow> skip_json_ws bytes i \<le> length bytes"
proof (induction bytes i rule: skip_json_ws.induct)
  case (1 bytes i)
  then show ?case by (subst skip_json_ws.simps) (auto split: option.splits simp: vec_get_eq_Some)
qed

lemma value_end_bounds:
  "value_end_loop bytes i d = Inr k \<Longrightarrow> i \<le> k \<and> (i \<le> length bytes \<longrightarrow> k \<le> length bytes)"
proof (induction bytes i d rule: value_end_loop.induct)
  case (1 bytes i d)
  show ?case
  proof (cases "vec_get bytes i")
    case None
    with "1.prems" show ?thesis by (simp add: value_end_loop.simps [of bytes i])
  next
    case (Some c)
    then have i: "i < length bytes" by (simp add: vec_get_eq_Some)
    note IH = "1.IH" [OF Some]
    have eq: "value_end_loop bytes i d =
       (if c = CHR 0x22 then and_then (json_string_end bytes i) (\<lambda>k. value_end_loop bytes (k + 1) d)
        else if c = CHR ''{'' \<or> c = CHR ''['' then value_end_loop bytes (i + 1) (d + 1)
        else if (c = CHR ''}'' \<or> c = CHR '']'') \<and> 0 < d then value_end_loop bytes (i + 1) (d - 1)
        else if (c = CHR '','' \<or> c = CHR ''}'' \<or> c = CHR '']'') \<and> d = 0 then Inr i
        else value_end_loop bytes (i + 1) d)"
      by (simp add: value_end_loop.simps [of bytes i] Some)
    show ?thesis
    proof (cases "c = CHR 0x22")
      case True
      with "1.prems"(1) obtain k' where k': "json_string_end bytes i = Inr k'"
        and "value_end_loop bytes (k' + 1) d = Inr k"
        by (auto simp: eq and_then_eq_Inr)
      with IH(1) [OF True, of k'] show ?thesis
        using json_string_end_bounds [OF k'] by simp
    next
      case False
      note IH = IH(2-) [OF False]
      show ?thesis
      proof (cases "(c = CHR '','' \<or> c = CHR ''}'' \<or> c = CHR '']'') \<and> d = 0")
        case True
        with "1.prems"(1) i show ?thesis unfolding eq by auto
      next
        case stop: False
        show ?thesis
        proof (cases "c = CHR ''{'' \<or> c = CHR ''[''")
          case True
          with "1.prems"(1) False IH(1) [OF True] i show ?thesis unfolding eq by simp
        next
          case opens: False
          show ?thesis
          proof (cases "(c = CHR ''}'' \<or> c = CHR '']'') \<and> 0 < d")
            case True
            with "1.prems"(1) False IH(2) [OF opens True] opens i show ?thesis unfolding eq by simp
          next
            case closes: False
            with "1.prems"(1) False IH(3) [OF opens closes stop] opens stop i show ?thesis
              unfolding eq by simp
          qed
        qed
      qed
    qed
  qed
qed

lemma json_field_at_bounds:
  assumes "json_field_at bytes i = Inr (Some (kr, vr))"
  shows "i < fst kr \<and> fst kr \<le> snd kr \<and> snd kr < fst vr \<and> fst vr \<le> snd vr \<and> snd vr \<le> length bytes"
proof -
  let ?i = "skip_json_ws bytes i"
  from assms obtain k where k: "json_string_end bytes ?i = Inr k"
    and colon: "vec_get bytes (skip_json_ws bytes (k + 1)) = Some (CHR '':'')"
    and e: "json_value_end bytes (skip_json_ws bytes (skip_json_ws bytes (k + 1) + 1)) = Inr (snd vr)"
    and vr: "fst vr = skip_json_ws bytes (skip_json_ws bytes (k + 1) + 1)" and kr: "kr = (?i + 1, k)"
    by (auto simp: json_field_at_def Let_def and_then_eq_Inr split: if_splits)
  from colon have c: "skip_json_ws bytes (k + 1) < length bytes" by (simp add: vec_get_eq_Some)
  then have "fst vr \<le> length bytes" unfolding vr by (intro skip_json_ws_le) simp
  moreover have "skip_json_ws bytes (k + 1) + 1 \<le> fst vr" unfolding vr by (rule skip_json_ws_ge)
  moreover have "k + 1 \<le> skip_json_ws bytes (k + 1)" by (rule skip_json_ws_ge)
  ultimately show ?thesis
    using json_string_end_bounds [OF k] e kr vr skip_json_ws_ge [of i bytes]
      value_end_bounds [of bytes "fst vr" 0 "snd vr"]
    by (simp add: json_value_end_def)
qed

lemma json_field_next_bounds:
  "json_field_next bytes e = Inr (Some j) \<Longrightarrow> e < j \<and> j \<le> length bytes"
  using skip_json_ws_ge [of e bytes]
  by (auto simp: json_field_next_def Let_def vec_get_eq_Some split: if_splits)

function find_field_loop :: "serde \<Rightarrow> string \<Rightarrow> string \<Rightarrow> nat \<Rightarrow> (nat \<times> nat) option res" where
  "find_field_loop sj bytes key i = and_then (json_field_at bytes i) (\<lambda>fld. case fld of
     None \<Rightarrow> Inr None
   | Some (kr, vr) \<Rightarrow>
       if json_key_matches sj bytes kr key then Inr (Some vr)
       else and_then (json_field_next bytes (snd vr)) (\<lambda>next. case next of
         None \<Rightarrow> Inr None | Some j \<Rightarrow> find_field_loop sj bytes key j))"
  by auto

termination find_field_loop
  by (relation "measure (\<lambda>(_, bytes, _, i). length bytes - i)")
     (auto dest!: json_field_at_bounds json_field_next_bounds)

definition find_top_level_json_field :: "serde \<Rightarrow> string \<Rightarrow> string \<Rightarrow> (nat \<times> nat) option res" where
  "find_top_level_json_field sj bytes key =
     and_then (json_object_start bytes) (find_field_loop sj bytes key)"

function each_field_loop ::
  "string \<Rightarrow> (nat \<times> nat \<Rightarrow> nat \<times> nat \<Rightarrow> 's \<Rightarrow> 's res) \<Rightarrow> nat \<Rightarrow> 's \<Rightarrow> 's res" where
  "each_field_loop bytes f i s = and_then (json_field_at bytes i) (\<lambda>fld. case fld of
     None \<Rightarrow> Inr s
   | Some (kr, vr) \<Rightarrow> and_then (f kr vr s) (\<lambda>s'.
       and_then (json_field_next bytes (snd vr)) (\<lambda>next. case next of
         None \<Rightarrow> Inr s' | Some j \<Rightarrow> each_field_loop bytes f j s')))"
  by auto

termination each_field_loop
  by (relation "measure (\<lambda>(bytes, _, i, _). length bytes - i)")
     (auto dest!: json_field_at_bounds json_field_next_bounds)

declare find_field_loop.simps [simp del] each_field_loop.simps [simp del]

definition json_object_for_each_field ::
  "string \<Rightarrow> (nat \<times> nat \<Rightarrow> nat \<times> nat \<Rightarrow> 's \<Rightarrow> 's res) \<Rightarrow> 's \<Rightarrow> 's res" where
  "json_object_for_each_field bytes f s =
     and_then (json_object_start bytes) (\<lambda>i. each_field_loop bytes f i s)"

section \<open>Arrays\<close>

definition json_array_start :: "string \<Rightarrow> nat res" where
  "json_array_start bytes = (let i = skip_json_ws bytes 0
     in if vec_get bytes i = Some (CHR ''['') then Inr (i + 1)
        else Inl (view_error ''JSON view is not an array''))"

definition json_element_at :: "string \<Rightarrow> nat \<Rightarrow> (nat \<times> nat) option res" where
  "json_element_at bytes i0 = (let i = skip_json_ws bytes i0
     in if vec_get bytes i = Some (CHR '']'') then Inr None
        else and_then (json_value_end bytes i) (\<lambda>e. Inr (Some (i, e))))"

definition json_element_next :: "string \<Rightarrow> nat \<Rightarrow> nat option res" where
  "json_element_next bytes value_end = (let i = skip_json_ws bytes value_end
     in if vec_get bytes i = Some (CHR '','') then Inr (Some (i + 1))
        else if vec_get bytes i = Some (CHR '']'') then Inr None
        else Inl (view_error ''expected `,` or `]` after array value''))"

lemma json_element_at_bounds:
  assumes "json_element_at bytes i = Inr (Some r)"
  shows "i \<le> fst r \<and> fst r \<le> snd r \<and> (i \<le> length bytes \<longrightarrow> snd r \<le> length bytes)"
  using assms value_end_bounds [of bytes "skip_json_ws bytes i" 0 "snd r"]
    skip_json_ws_ge [of i bytes] skip_json_ws_le [of i bytes]
  by (auto simp: json_element_at_def json_value_end_def Let_def and_then_eq_Inr split: if_splits)

lemma json_element_next_bounds:
  "json_element_next bytes e = Inr (Some j) \<Longrightarrow> e < j \<and> j \<le> length bytes"
  using skip_json_ws_ge [of e bytes]
  by (auto simp: json_element_next_def Let_def vec_get_eq_Some split: if_splits)

function each_element_loop :: "string \<Rightarrow> (nat \<times> nat \<Rightarrow> 's \<Rightarrow> 's res) \<Rightarrow> nat \<Rightarrow> 's \<Rightarrow> 's res" where
  "each_element_loop bytes f i s = and_then (json_element_at bytes i) (\<lambda>elem. case elem of
     None \<Rightarrow> Inr s
   | Some r \<Rightarrow> and_then (f r s) (\<lambda>s'.
       and_then (json_element_next bytes (snd r)) (\<lambda>next. case next of
         None \<Rightarrow> Inr s' | Some j \<Rightarrow> each_element_loop bytes f j s')))"
  by auto

termination each_element_loop
  by (relation "measure (\<lambda>(bytes, _, i, _). length bytes - i)")
     (auto dest!: json_element_at_bounds json_element_next_bounds)

declare each_element_loop.simps [simp del]

definition json_array_bytes_for_each_range :: "string \<Rightarrow> (nat \<times> nat \<Rightarrow> 's \<Rightarrow> 's res) \<Rightarrow> 's \<Rightarrow> 's res" where
  "json_array_bytes_for_each_range bytes f s =
     and_then (json_array_start bytes) (\<lambda>i. each_element_loop bytes f i s)"

definition json_array_view_element_ranges :: "string \<Rightarrow> (nat \<times> nat) list res" where
  "json_array_view_element_ranges bytes =
     and_then (json_array_start bytes) (\<lambda>i. each_element_loop bytes (\<lambda>r rs. Inr (rs @ [r])) i [])"

section \<open>Decoding\<close>

definition json_string_bytes_to_cow :: "serde \<Rightarrow> string \<Rightarrow> string + string" where
  "json_string_bytes_to_cow sj bytes0 = (let bytes = trim_json_bytes bytes0
     in if length bytes < 2 \<or> vec_get bytes 0 \<noteq> Some (CHR 0x22) \<or> last bytes \<noteq> CHR 0x22
        then Inl ''expected JSON string''
        else let inner = butlast (tl bytes)
          in if CHR 0x5C \<in> set inner then sj_string sj bytes else from_utf8 inner)"

definition json_number_bytes_to_f64 :: "string \<Rightarrow> string \<Rightarrow> nat \<Rightarrow> f64 res" where
  "json_number_bytes_to_f64 bytes source line_number =
     and_then (at_line source line_number (from_utf8 bytes)) (\<lambda>t.
     at_line source line_number (case parse_f64 t of Inl e \<Rightarrow> Inl (float_error_text e) | Inr x \<Rightarrow> Inr x))"

definition json_number_bytes_to_i64 :: "string \<Rightarrow> string \<Rightarrow> nat \<Rightarrow> i64 res" where
  "json_number_bytes_to_i64 bytes source line_number =
     and_then (at_line source line_number (from_utf8 bytes)) (\<lambda>t.
     at_line source line_number (case parse_i64 t of Inl e \<Rightarrow> Inl (int_error_text e) | Inr x \<Rightarrow> Inr x))"

definition json_value_may_be_number :: "string \<Rightarrow> bool" where
  "json_value_may_be_number s \<longleftrightarrow> (case s of [] \<Rightarrow> False | c # _ \<Rightarrow> c = CHR ''-'' \<or> is_ascii_digit c)"

section \<open>Views\<close>

definition view_bytes :: "json_view \<Rightarrow> string" where
  "view_bytes v = range_of (jv_bytes v) (jv_range v)"

text \<open>A range inside a view as a range of the whole buffer.\<close>

definition absolute_range :: "json_view \<Rightarrow> nat \<times> nat \<Rightarrow> nat \<times> nat" where
  "absolute_range v r = (fst (jv_range v) + fst r, fst (jv_range v) + snd r)"

definition array_view :: "string \<Rightarrow> nat \<times> nat \<Rightarrow> rvalue" where
  "array_view bytes r = RJsonArrayView \<lparr> jv_bytes = bytes, jv_range = r, jv_source = '''', jv_line_number = 0 \<rparr>"

definition json_object_view_get :: "serde \<Rightarrow> json_view \<Rightarrow> string \<Rightarrow> rvalue option res" where
  "json_object_view_get sj v key =
     and_then (find_top_level_json_field sj (view_bytes v) key) (\<lambda>found. case found of
       None \<Rightarrow> Inr None
     | Some r \<Rightarrow>
         let absolute = absolute_range v r; text = trim_json_bytes (range_of (jv_bytes v) absolute)
         in if starts_with ''['' text then Inr (Some (array_view (jv_bytes v) absolute))
            else if starts_with ''{'' text then Inr (Some (RJsonObjectView (v\<lparr> jv_range := absolute \<rparr>)))
            else if \<not> json_value_may_be_number text
            then and_then (at_line (jv_source v) (jv_line_number v) (decode_value sj text)) (\<lambda>n. Inr (Some (RNu n)))
            else Inr (Some (RJsonScalarView (v\<lparr> jv_range := absolute \<rparr>))))"

definition json_object_view_get_string_default :: "serde \<Rightarrow> json_view \<Rightarrow> string \<Rightarrow> string \<Rightarrow> string res" where
  "json_object_view_get_string_default sj v key dflt =
     and_then (find_top_level_json_field sj (view_bytes v) key) (\<lambda>found. case found of
       None \<Rightarrow> Inr dflt
     | Some r \<Rightarrow> at_line (jv_source v) (jv_line_number v)
         (json_string_bytes_to_cow sj (trim_json_bytes (range_of (view_bytes v) r))))"

definition json_object_view_get_f64_default :: "serde \<Rightarrow> json_view \<Rightarrow> string \<Rightarrow> f64 \<Rightarrow> f64 res" where
  "json_object_view_get_f64_default sj v key dflt =
     and_then (find_top_level_json_field sj (view_bytes v) key) (\<lambda>found. case found of
       None \<Rightarrow> Inr dflt
     | Some r \<Rightarrow> json_number_bytes_to_f64 (trim_json_bytes (range_of (view_bytes v) r))
         (jv_source v) (jv_line_number v))"

definition json_object_view_get_i64_default :: "serde \<Rightarrow> json_view \<Rightarrow> string \<Rightarrow> i64 \<Rightarrow> i64 res" where
  "json_object_view_get_i64_default sj v key dflt =
     and_then (find_top_level_json_field sj (view_bytes v) key) (\<lambda>found. case found of
       None \<Rightarrow> Inr dflt
     | Some r \<Rightarrow> json_number_bytes_to_i64 (trim_json_bytes (range_of (view_bytes v) r))
         (jv_source v) (jv_line_number v))"

definition json_object_view_get_array_default :: "serde \<Rightarrow> json_view \<Rightarrow> string \<Rightarrow> rvalue res" where
  "json_object_view_get_array_default sj v key =
     and_then (find_top_level_json_field sj (view_bytes v) key) (\<lambda>found. case found of
       None \<Rightarrow> Inr (RNu (VList []))
     | Some r \<Rightarrow>
         if starts_with ''['' (trim_json_bytes (range_of (jv_bytes v) (absolute_range v r)))
         then Inr (array_view (jv_bytes v) (absolute_range v r))
         else Inl (view_error ''expected JSON array''))"

definition json_array_view_value_from_relative_range :: "serde \<Rightarrow> json_view \<Rightarrow> nat \<times> nat \<Rightarrow> rvalue res" where
  "json_array_view_value_from_relative_range sj v r = (
     let absolute = absolute_range v r; text = trim_json_bytes (range_of (jv_bytes v) absolute);
         decoded = (case decode_value sj text of
           Inl e \<Rightarrow> Inl (stone_error ''json view'' ''{}'' [MStr e]) | Inr n \<Rightarrow> Inr (RNu n))
     in if starts_with ''['' text then Inr (array_view (jv_bytes v) absolute)
        else if starts_with ''{'' text then decoded
        else if json_value_may_be_number text \<or> starts_with [CHR 0x22] text
        then Inr (RJsonScalarView \<lparr> jv_bytes = jv_bytes v, jv_range = absolute,
                    jv_source = ''<json-array>'', jv_line_number = 0 \<rparr>)
        else decoded)"

definition json_array_view_iter_values :: "serde \<Rightarrow> json_view \<Rightarrow> rvalue list res" where
  "json_array_view_iter_values sj v =
     and_then (json_array_view_element_ranges (view_bytes v))
       (collect_ok (json_array_view_value_from_relative_range sj v))"

definition json_scalar_view_to_string :: "serde \<Rightarrow> json_view \<Rightarrow> string + string" where
  "json_scalar_view_to_string sj v = json_string_bytes_to_cow sj (view_bytes v)"

section \<open>Rows\<close>

function trim_start_index :: "string \<Rightarrow> nat \<Rightarrow> nat \<Rightarrow> nat" where
  "trim_start_index bytes i e =
     (if i < e \<and> is_ascii_whitespace (bytes ! i) then trim_start_index bytes (i + 1) e else i)"
  by auto

termination trim_start_index
  by (relation "measure (\<lambda>(_, i, e). e - i)") auto

fun trim_end_index :: "string \<Rightarrow> nat \<Rightarrow> nat \<Rightarrow> nat" where
  "trim_end_index bytes i 0 = 0"
| "trim_end_index bytes i (Suc e) =
     (if i < Suc e \<and> is_ascii_whitespace (bytes ! e) then trim_end_index bytes i e else Suc e)"

declare trim_start_index.simps [simp del]

definition limit_reached :: "nat option \<Rightarrow> 'a list \<Rightarrow> bool" where
  "limit_reached limit lines = (case limit of None \<Rightarrow> False | Some n \<Rightarrow> n \<le> length lines)"

definition push_jsonl_line_range ::
  "string \<Rightarrow> nat \<Rightarrow> nat \<Rightarrow> nat \<Rightarrow> nat option \<Rightarrow> ((nat \<times> nat) \<times> nat) list \<Rightarrow> ((nat \<times> nat) \<times> nat) list" where
  "push_jsonl_line_range bytes start stop line_number limit lines =
     (if limit_reached limit lines then lines
      else let s = trim_start_index bytes start stop; e = trim_end_index bytes s stop
        in if s < e then lines @ [((s, e), line_number)] else lines)"

function rows_loop ::
  "string \<Rightarrow> nat option \<Rightarrow> nat \<Rightarrow> nat \<Rightarrow> ((nat \<times> nat) \<times> nat) list \<Rightarrow> ((nat \<times> nat) \<times> nat) list" where
  "rows_loop bytes limit start line_number lines =
     (case position (\<lambda>c. c = CHR 0x0A) (drop start bytes) of
        Some k \<Rightarrow>
          let lines' = push_jsonl_line_range bytes start (start + k) line_number limit lines
          in if limit_reached limit lines' then lines'
             else rows_loop bytes limit (start + k + 1) (line_number + 1) lines'
      | None \<Rightarrow>
          if \<not> limit_reached limit lines \<and> start < length bytes
          then push_jsonl_line_range bytes start (length bytes) line_number limit lines else lines)"
  by auto

termination rows_loop
  by (relation "measure (\<lambda>(bytes, _, start, _). length bytes - start)")
     (auto dest!: position_SomeD)

declare rows_loop.simps [simp del]

definition jsonl_rows_from_bytes :: "string \<Rightarrow> nat option \<Rightarrow> string \<Rightarrow> jsonl_rows" where
  "jsonl_rows_from_bytes bytes limit source =
     \<lparr> rows_bytes = bytes, rows_lines = rows_loop bytes limit 0 1 [], rows_source = source \<rparr>"

definition row_json_view :: "jsonl_rows \<Rightarrow> (nat \<times> nat) \<times> nat \<Rightarrow> json_view" where
  "row_json_view rows line = \<lparr> jv_bytes = rows_bytes rows, jv_range = fst line,
     jv_source = rows_source rows, jv_line_number = snd line \<rparr>"

definition jsonl_row_view :: "jsonl_rows \<Rightarrow> (nat \<times> nat) \<times> nat \<Rightarrow> rvalue" where
  "jsonl_row_view rows line = RJsonObjectView (row_json_view rows line)"

definition jsonl_row_views :: "jsonl_rows \<Rightarrow> rvalue list" where
  "jsonl_row_views rows = List.map (jsonl_row_view rows) (rows_lines rows)"

section \<open>Materialisation\<close>

definition materialize_json_object_view :: "serde \<Rightarrow> json_view \<Rightarrow> nu_value res" where
  "materialize_json_object_view sj v = at_line (jv_source v) (jv_line_number v) (decode_value sj (view_bytes v))"

definition materialize_json_scalar_view :: "serde \<Rightarrow> json_view \<Rightarrow> nu_value res" where
  "materialize_json_scalar_view sj v = at_line (jv_source v) (jv_line_number v) (decode_value sj (view_bytes v))"

definition materialize_json_array_view :: "serde \<Rightarrow> json_view \<Rightarrow> nu_value res" where
  "materialize_json_array_view sj v = (case decode_value sj (view_bytes v) of
     Inl e \<Rightarrow> Inl (stone_error ''json view'' ''{}'' [MStr e]) | Inr n \<Rightarrow> Inr n)"

definition materialize_jsonl_rows :: "serde \<Rightarrow> jsonl_rows \<Rightarrow> nu_value res" where
  "materialize_jsonl_rows sj rows =
     and_then (collect_ok (\<lambda>line. materialize_json_object_view sj (row_json_view rows line)) (rows_lines rows))
       (\<lambda>vs. Inr (VList vs))"

text \<open>The views and rows become plain values without their context; what the task-owned values become is a
  parameter.\<close>

definition materialize_with :: "serde \<Rightarrow> materializer \<Rightarrow> materializer" where
  "materialize_with sj owned v = (let plain = (\<lambda>r. case r of Inl e \<Rightarrow> Inl (\<lambda>_. e) | Inr n \<Rightarrow> Inr n) in case v of
     RJsonlRows rows \<Rightarrow> plain (materialize_jsonl_rows sj rows)
   | RJsonObjectView view \<Rightarrow> plain (materialize_json_object_view sj view)
   | RJsonArrayView view \<Rightarrow> plain (materialize_json_array_view sj view)
   | RJsonScalarView view \<Rightarrow> plain (materialize_json_scalar_view sj view)
   | _ \<Rightarrow> owned v)"

end
