(* ===== verification/Collections.thy ===== *)
theory Collections
  imports Numeric
begin

text \<open>Indexing, slicing and the list functions of Stone (\<open>stone_builtins.rs\<close>). A length is a natural
  number that the code converts to \<open>i64\<close> first, so a collection of more than \<open>i64::MAX\<close> elements is
  an error of its own.\<close>

section \<open>Indices\<close>

definition i64_of_len :: "nat \<Rightarrow> int option" where
  "i64_of_len n = (if int n < 9223372036854775808 then Some (int n) else None)"

definition normalize_index :: "i64 \<Rightarrow> nat \<Rightarrow> nat res" where
  "normalize_index index n =
     and_then (ok_or (stone_error ''subscript'' ''collection is too large'' []) (i64_of_len n)) (\<lambda>l.
     let normalized = (if sint index < 0 then l + sint index else sint index)
     in if normalized < 0 \<or> l \<le> normalized
        then Inl (stone_error ''subscript'' ''index {} is out of range'' [MInt (sint index)])
        else Inr (nat normalized))"

definition clamp :: "int \<Rightarrow> int \<Rightarrow> int \<Rightarrow> int" where
  "clamp z lo hi = (if z < lo then lo else if hi < z then hi else z)"

definition normalize_string_start :: "i64 \<Rightarrow> nat \<Rightarrow> nat res" where
  "normalize_string_start index n =
     and_then (ok_or (stone_error ''index'' ''string is too large'' []) (i64_of_len n)) (\<lambda>l.
     Inr (nat (clamp (if sint index < 0 then l + sint index else sint index) 0 l)))"

definition slice_bound :: "i64 option \<Rightarrow> int \<Rightarrow> int \<Rightarrow> int" where
  "slice_bound b missing l = (let z = (case b of None \<Rightarrow> missing | Some i \<Rightarrow> sint i)
     in clamp (if z < 0 then l + z else z) 0 l)"

definition normalize_slice_bounds :: "i64 option \<Rightarrow> i64 option \<Rightarrow> nat \<Rightarrow> (nat \<times> nat) res" where
  "normalize_slice_bounds lower upper n =
     and_then (ok_or (stone_error ''slice'' ''collection is too large'' []) (i64_of_len n)) (\<lambda>l.
     let start = nat (slice_bound lower 0 l); stop = nat (slice_bound upper l l)
     in Inr (if stop < start then (start, start) else (start, stop)))"

definition slice_list :: "'a list \<Rightarrow> nat \<times> nat \<Rightarrow> 'a list" where
  "slice_list xs b = take (snd b - fst b) (drop (fst b) xs)"

definition slice_builtin :: "nu_value \<Rightarrow> i64 option \<Rightarrow> i64 option \<Rightarrow> nu_value res" where
  "slice_builtin v lower upper = (case nu_list v of
     Some vs \<Rightarrow> and_then (normalize_slice_bounds lower upper (length vs)) (\<lambda>b.
       Inr (VList (slice_list vs b)))
   | None \<Rightarrow> (case nu_text v of
       Some s \<Rightarrow> and_then (normalize_slice_bounds lower upper (length (str_chars s))) (\<lambda>b.
         Inr (VString (concat (slice_list (str_chars s) b))))
     | None \<Rightarrow> Inl (stone_error ''slice'' ''cannot slice {}'' [MType v])))"

definition subscript_builtin :: "nu_value \<Rightarrow> nu_value \<Rightarrow> nu_value res" where
  "subscript_builtin v index = (case (nu_record v, nu_text index) of
     (Some r, Some key) \<Rightarrow>
       ok_or (stone_error ''subscript'' ''record has no key `{}`'' [MStr key]) (record_get r key)
   | _ \<Rightarrow> (case (v, nu_int index) of
       (VList vs, Some i) \<Rightarrow> and_then (normalize_index i (length vs)) (\<lambda>k.
         ok_or (stone_error ''subscript'' ''list index {} is out of range'' [MInt (int k)]) (vec_get vs k))
     | (VString s, Some i) \<Rightarrow> and_then (normalize_index i (length (str_chars s))) (\<lambda>k.
         and_then (ok_or (stone_error ''subscript'' ''string index {} is out of range'' [MInt (int k)])
           (vec_get (str_chars s) k)) (\<lambda>ch. Inr (VString ch)))
     | _ \<Rightarrow> Inl (stone_error ''subscript'' ''cannot index {} with {}'' [MType v, MType index])))"

section \<open>Assignment through an index\<close>

definition assign_subscript :: "nu_value \<Rightarrow> nu_value \<Rightarrow> nu_value \<Rightarrow> nu_value res" where
  "assign_subscript target index v = (case (nu_record target, nu_text index) of
     (Some r, Some key) \<Rightarrow> Inr (VRecord (record_insert key v r))
   | _ \<Rightarrow> (case (nu_list target, nu_int index) of
       (Some vs, Some i) \<Rightarrow> and_then (normalize_index i (length vs)) (\<lambda>k.
         if k < length vs then Inr (VList (vs[k := v]))
         else Inl (stone_error ''assignment'' ''list index {} is out of range'' [MInt (int k)]))
     | _ \<Rightarrow> Inl (stone_error ''assignment'' ''cannot assign {} item with {} index''
         [MType target, MType index])))"

text \<open>A mutable reference into a value is its content and the function that puts a content back.\<close>

definition subscript_mut ::
  "nu_value \<Rightarrow> nu_value \<Rightarrow> string \<Rightarrow> (nu_value \<times> (nu_value \<Rightarrow> nu_value)) res" where
  "subscript_mut target index context = (case (nu_record target, nu_text index) of
     (Some r, Some key) \<Rightarrow>
       and_then (ok_or (stone_error context ''record has no key `{}`'' [MStr key]) (record_get r key))
       (\<lambda>inner. Inr (inner, \<lambda>v. VRecord (record_insert key v r)))
   | _ \<Rightarrow> (case (nu_list target, nu_int index) of
       (Some vs, Some i) \<Rightarrow> and_then (normalize_index i (length vs)) (\<lambda>k.
         and_then (ok_or (stone_error context ''list index {} is out of range'' [MInt (int k)])
           (vec_get vs k)) (\<lambda>inner. Inr (inner, \<lambda>v. VList (vs[k := v]))))
     | _ \<Rightarrow> Inl (stone_error context ''cannot mutate nested {} item with {} index''
         [MType target, MType index])))"

fun assign_subscript_path :: "nu_value \<Rightarrow> nu_value list \<Rightarrow> nu_value \<Rightarrow> nu_value res" where
  "assign_subscript_path target [] v =
     Inl (stone_error ''assignment'' ''missing assignment index'' [])"
| "assign_subscript_path target [index] v = assign_subscript target index v"
| "assign_subscript_path target (index # next # rest) v =
     and_then (subscript_mut target index ''assignment'') (\<lambda>(inner, put).
     and_then (assign_subscript_path inner (next # rest) v) (\<lambda>w. Inr (put w)))"

primrec subscript_path_mut ::
  "nu_value list \<Rightarrow> nu_value \<Rightarrow> string \<Rightarrow> (nu_value \<times> (nu_value \<Rightarrow> nu_value)) res" where
  "subscript_path_mut [] target context = Inr (target, id)"
| "subscript_path_mut (index # rest) target context =
     and_then (subscript_mut target index context) (\<lambda>(inner, put).
     and_then (subscript_path_mut rest inner context) (\<lambda>(deep, put'). Inr (deep, put \<circ> put')))"

section \<open>Lists\<close>

text \<open>The counter \<open>n\<close> is the length of the vector built so far.\<close>

definition range_continues :: "i64 \<Rightarrow> i64 \<Rightarrow> i64 \<Rightarrow> bool" where
  "range_continues current stop step =
     (if 0 < sint step then sint current < sint stop else sint stop < sint current)"

function range_loop :: "int \<Rightarrow> i64 \<Rightarrow> i64 \<Rightarrow> i64 \<Rightarrow> nu_value list res" where
  "range_loop n current stop step =
     (if range_continues current stop step then
        (if 100000 \<le> n then Inl (stone_error ''range'' ''range() produced too many values'' [])
         else and_then (ok_or (stone_error ''range'' ''range() integer overflow'' [])
                (checked_add current step)) (\<lambda>c.
              and_then (range_loop (n + 1) c stop step) (\<lambda>vs. Inr (VInt current # vs))))
      else Inr [])"
  by auto

termination range_loop
  by (relation "measure (\<lambda>(n, _). nat (100000 - n))") auto

declare range_loop.simps [simp del]

definition range_args :: "i64 list \<Rightarrow> (i64 \<times> i64 \<times> i64) option" where
  "range_args args = (case args of
     [stop] \<Rightarrow> Some (0, stop, 1)
   | [start, stop] \<Rightarrow> Some (start, stop, 1)
   | [start, stop, step] \<Rightarrow> Some (start, stop, step)
   | _ \<Rightarrow> None)"

definition range_builtin :: "i64 list \<Rightarrow> nu_value res" where
  "range_builtin args =
     and_then (ok_or (stone_error ''range'' ''range() requires one to three integer arguments'' [])
       (range_args args)) (\<lambda>(start, stop, step).
     if step = 0 then Inl (stone_error ''range'' ''range() step must not be zero'' [])
     else and_then (range_loop 0 start stop step) (\<lambda>vs. Inr (VList vs)))"

definition value_len :: "nu_value \<Rightarrow> i64 res" where
  "value_len v =
     and_then (case v of
        VList vs \<Rightarrow> Inr (length vs)
      | VRecord r \<Rightarrow> Inr (length r)
      | _ \<Rightarrow> (case nu_text v of
          Some s \<Rightarrow> Inr (length (str_chars s))
        | None \<Rightarrow> Inl (stone_error ''len'' ''len() does not support {}'' [MType v]))) (\<lambda>n.
     and_then (ok_or (stone_error ''len'' ''value is too large'' []) (i64_of_len n)) (\<lambda>z.
     Inr (i64_of z)))"

definition enumerate_item :: "i64 \<Rightarrow> nat \<times> nu_value \<Rightarrow> nu_value res" where
  "enumerate_item start item =
     and_then (ok_or (stone_error ''enumerate'' ''index is too large'' []) (i64_of_len (fst item))) (\<lambda>off.
     and_then (ok_or (stone_error ''enumerate'' ''index overflow'' []) (checked_add start (i64_of off))) (\<lambda>i.
     Inr (VList [VInt i, snd item])))"

definition enumerate_builtin :: "nu_value list \<Rightarrow> i64 \<Rightarrow> nu_value res" where
  "enumerate_builtin vs start =
     and_then (collect_ok (enumerate_item start) (List.enumerate 0 vs)) (\<lambda>ws. Inr (VList ws))"

definition first_builtin :: "nu_value \<Rightarrow> nat option \<Rightarrow> string \<Rightarrow> nu_value res" where
  "first_builtin v count name =
     and_then (ok_or (stone_error name ''expected list, got {}'' [MType v]) (nu_list v)) (\<lambda>vs.
     Inr (case count of Some n \<Rightarrow> VList (take n vs) | None \<Rightarrow> (case vs of [] \<Rightarrow> VNothing | x # _ \<Rightarrow> x)))"

definition last_builtin :: "nu_value \<Rightarrow> nat option \<Rightarrow> string \<Rightarrow> nu_value res" where
  "last_builtin v count name =
     and_then (ok_or (stone_error name ''expected list, got {}'' [MType v]) (nu_list v)) (\<lambda>vs.
     Inr (case count of Some n \<Rightarrow> VList (drop (length vs - n) vs)
                      | None \<Rightarrow> if vs = [] then VNothing else last vs))"

primrec join_strings :: "string \<Rightarrow> string list \<Rightarrow> string" where
  "join_strings sep [] = []"
| "join_strings sep (s # ss) = (if ss = [] then s else s @ sep @ join_strings sep ss)"

definition join_items :: "nu_value \<Rightarrow> string \<Rightarrow> nu_value res" where
  "join_items items sep =
     and_then (ok_or (stone_error ''join'' ''expected list, got {}'' [MType items]) (nu_list items)) (\<lambda>vs.
     and_then (collect_ok (\<lambda>v. value_to_string v ''join'') vs) (\<lambda>parts.
     Inr (VString (join_strings sep parts))))"

definition join_builtin :: "nu_value \<Rightarrow> nu_value option \<Rightarrow> nu_value res" where
  "join_builtin a b = (case b of
     None \<Rightarrow> join_items a ''''
   | Some c \<Rightarrow>
       if nu_list a \<noteq> None then and_then (value_to_string c ''join'') (\<lambda>sep. join_items a sep)
       else if nu_list c \<noteq> None then and_then (value_to_string a ''join'') (\<lambda>sep. join_items c sep)
       else Inl (stone_error ''join'' ''join() requires a list and optional separator'' []))"

datatype sum_number = SumInt i64 | SumFloat f64

definition value_to_sum_number :: "nu_value \<Rightarrow> sum_number res" where
  "value_to_sum_number v = (case v of
     VInt i \<Rightarrow> Inr (SumInt i)
   | VFloat x \<Rightarrow> Inr (SumFloat x)
   | _ \<Rightarrow> (case nu_text v of
       Some s \<Rightarrow> (case parse_i64 (trim s) of
           Inr i \<Rightarrow> Inr (SumInt i)
         | Inl _ \<Rightarrow> (case parse_f64 (trim s) of
             Inr x \<Rightarrow> Inr (SumFloat x)
           | Inl e \<Rightarrow> Inl (stone_error ''sum'' ''failed to parse number: {}'' [MStr (float_error_text e)])))
     | None \<Rightarrow> Inl (stone_error ''sum'' ''expected number, got {}'' [MType v])))"

definition sum_step :: "nu_value \<Rightarrow> i64 \<times> f64 \<times> bool \<Rightarrow> (i64 \<times> f64 \<times> bool) res" where
  "sum_step v acc = (case acc of (int_total, float_total, has_float) \<Rightarrow>
     and_then (value_to_sum_number v) (\<lambda>n. case n of
       SumInt i \<Rightarrow>
         if has_float then Inr (int_total, f64_add float_total (i64_as_f64 i), True)
         else and_then (ok_or (stone_error ''sum'' ''integer sum overflow'' []) (checked_add int_total i))
                (\<lambda>t. Inr (t, float_total, False))
     | SumFloat x \<Rightarrow>
         if has_float then Inr (int_total, f64_add float_total x, True)
         else Inr (int_total, f64_add (i64_as_f64 int_total) x, True)))"

definition sum_builtin :: "nu_value list \<Rightarrow> nu_value res" where
  "sum_builtin vs = and_then (fold_ok sum_step vs (0, f64_zero, False)) (\<lambda>(t, x, has_float).
     Inr (if has_float then VFloat x else VInt t))"

definition is_number :: "nu_value \<Rightarrow> bool" where
  "is_number v = (case v of VInt _ \<Rightarrow> True | VFloat _ \<Rightarrow> True | _ \<Rightarrow> False)"

text \<open>The name selects the direction; the caller only passes \<open>min\<close> and \<open>max\<close>.\<close>

definition min_max_step :: "string \<Rightarrow> nu_value \<Rightarrow> nu_value option \<Rightarrow> nu_value option res" where
  "min_max_step name v best =
     (if \<not> is_number v then Inl (stone_error name (name @ ''() expected numbers, got {}'') [MType v])
      else case best of
        None \<Rightarrow> Inr (Some v)
      | Some current \<Rightarrow> and_then (value_ordering v current) (\<lambda>c.
          Inr (if c = (if name = ''min'' then OLess else OGreater) then Some v else Some current)))"

definition min_max_builtin :: "nu_value list \<Rightarrow> string \<Rightarrow> nu_value res" where
  "min_max_builtin vs name = and_then (fold_ok (min_max_step name) vs None) (\<lambda>best.
     ok_or (stone_error name (name @ ''() requires at least one numeric argument'') []) best)"

end
