(* ===== verification/Loop_Types.thy ===== *)
theory Loop_Types
  imports Numeric
begin

text \<open>The intermediate languages of the hot loop compiler (\<open>stone_vm/types.rs\<close>): loop plans, the
  register code for integer loop bodies, the block code for JSONL aggregations. A \<open>usize\<close> index and
  the \<open>u32\<close> newtypes of registers, constants, accumulators, blocks and snapshots are naturals.\<close>

section \<open>Plans\<close>

datatype json_slot = SlotUser | SlotAmount | SlotItems | SlotTags | SlotTag

datatype json_body_op =
    JGetFields string string string string
  | JMapAddF64 string json_slot json_slot "string option"
  | JMapAddI64 string json_slot json_slot
  | JForEachString json_slot json_slot "json_body_op list"
  | JMapAddI64Const string json_slot i64 "string option"

record nested_user_totals =
  nt_map_name :: string
  nt_amount_field :: string
  nt_items_field :: string

record json_body =
  jb_ops :: "json_body_op list"
  jb_nested :: "nested_user_totals option"
  jb_user_name :: string
  jb_user_key :: string
  jb_user_has_default :: bool
  jb_user_default :: string
  jb_amounts_map :: string
  jb_amount_key :: string
  jb_amount_has_default :: bool
  jb_amount_default :: f64
  jb_items_map :: string
  jb_items_key :: string
  jb_items_has_default :: bool
  jb_items_default :: i64
  jb_users_list :: "string option"
  jb_tags_key :: string
  jb_tags_default_empty :: bool
  jb_tag_counts_map :: string
  jb_tags_list :: "string option"
  jb_row_count_local :: "string option"

record trace_plan =
  tp_user_name :: string
  tp_user_key :: string
  tp_user_has_default :: bool
  tp_user_default :: string
  tp_amounts_map :: string
  tp_amount_key :: string
  tp_amount_has_default :: bool
  tp_amount_default :: f64
  tp_items_map :: string
  tp_items_key :: string
  tp_items_has_default :: bool
  tp_items_default :: i64
  tp_users_list :: "string option"
  tp_tags_key :: string
  tp_tags_default_empty :: bool
  tp_tag_counts_map :: string
  tp_tags_list :: "string option"

datatype generic_loop_op =
    GAddAssign string string
  | GAddAssignParsedInt string string
  | GAddAssignParsedFloat string string
  | GMapAddI64Const string string i64
  | GMapAddRecordStringField string string string bool bool i64
  | GListAppend string string
  | GListAppendUnique string string
  | GJsonlAggregation json_body
  | GExprBody "stmt list"

datatype generic_loop_iter = MaterializedList | OpenSplitlines | RangeIter | ReadJsonl | ReadCsv

record generic_loop_plan =
  gp_target :: string
  gp_iter :: generic_loop_iter
  gp_ops :: "generic_loop_op list"

datatype hot_loop_iter = HotReadJsonl | HotJsonlTextLines string

datatype hot_loop_op =
    HGetStrDefault string string string
  | HGetF64Default string string f64
  | HGetI64Default string string i64
  | HGetArrayDefault string string
  | HGetValue string string

record hot_loop_plan =
  hp_target :: string
  hp_iter :: hot_loop_iter
  hp_ops :: "hot_loop_op list"
  hp_body_start :: nat

record outer_jsonl_body =
  oj_row_target :: string
  oj_body :: json_body

section \<open>The generic loop language\<close>

datatype vm_const = ConstI64 i64

datatype expr_op =
    LoadLocal nat nat
  | StoreLocal nat nat
  | LoadConst nat nat
  | AddI64 nat nat nat
  | SubI64 nat nat nat
  | MulI64 nat nat nat
  | FloorDivI64 nat nat nat
  | ModI64 nat nat nat
  | BitAndI64 nat nat nat
  | BitOrI64 nat nat nat
  | BitXorI64 nat nat nat
  | ShlI64 nat nat nat
  | ShrI64 nat nat nat
  | NegI64 nat nat
  | BitNotI64 nat nat

record expr_body =
  eb_registers :: nat
  eb_constants :: "vm_const list"
  eb_ops :: "expr_op list"

datatype parse_number = ParseInt | ParseFloat

datatype vm_op =
    VAddAssign nat
  | VAddAssignParsed nat parse_number
  | VMapAddI64Const nat i64
  | VMapAddRecordField nat string i64
  | VMapAddRecordStringField nat string bool bool i64
  | VListAppend nat bool
  | VExprBody expr_body

datatype iterator_adapter = MaterializedValues | RangeValues | TextLines | JsonlRows bool | CsvRows
  | JsonlFiles string

datatype loop_terminator = LoopReturn

record loop_block =
  lb_ops :: "vm_op list"
  lb_terminator :: loop_terminator

datatype snapshot_boundary = LoopEntry | IterationEnd

record loop_snapshot =
  ls_locals :: "nat list"
  ls_boundary :: snapshot_boundary

record loop_function =
  lf_iter :: generic_loop_iter
  lf_adapter :: iterator_adapter
  lf_locals :: "string list"
  lf_registers :: nat
  lf_constants :: "vm_const list"
  lf_blocks :: "loop_block list"
  lf_entry :: nat
  lf_snapshots :: "loop_snapshot list"
  lf_lowering_path :: string
  lf_ops :: "vm_op list"

definition local_name :: "loop_function \<Rightarrow> nat \<Rightarrow> string option" where
  "local_name f i = vec_get (lf_locals f) i"

datatype fused_kernel = KMapAddI64Const | KListAppend | KJsonlAggregation

datatype subgraph_kind = SgMapAddI64Const | SgListAppend | SgJsonlAggregation

datatype optimization_diagnostic = Canonicalized

record loop_optimization =
  lo_function :: loop_function
  lo_kernel :: "fused_kernel option"
  lo_subgraph :: "subgraph_kind option"
  lo_diagnostics :: "optimization_diagnostic list"

section \<open>The JSONL loop language\<close>

type_synonym reg = nat
type_synonym const_id = nat
type_synonym acc_id = nat
type_synonym block_id = nat
type_synonym snapshot_id = nat

datatype stone_const = KString string | KF64 f64 | KI64 i64 | KEmptyList

datatype acc_kind = F64Map | I64Map | StringList

record acc_spec =
  as_name :: string
  as_kind :: acc_kind

datatype guard_kind = InputIsJsonObject reg | AccumulatorShape acc_id acc_kind

record stone_guard =
  sg_kind :: guard_kind
  sg_snapshot :: snapshot_id

record stone_snapshot =
  ss_locals :: "(nat \<times> reg) list"
  ss_accumulators :: "(string \<times> acc_id) list"

datatype stone_op =
    JsonGetStrDefault reg reg const_id const_id
  | JsonGetValue reg reg const_id
  | JsonGetF64Default reg reg const_id f64
  | JsonGetF64Required reg reg const_id
  | JsonGetI64Default reg reg const_id i64
  | JsonGetI64Required reg reg const_id
  | JsonGetArrayDefault reg reg const_id
  | JsonGetArrayRequired reg reg const_id
  | MapAddF64 acc_id reg reg "acc_id option"
  | MapAddI64 acc_id reg reg "acc_id option"
  | MapAddI64Const acc_id reg i64 "acc_id option"

datatype stone_terminator =
    JsonEachStrArray reg reg block_id block_id
  | Jump block_id
  | Return

record stone_block =
  sb_ops :: "stone_op list"
  sb_terminator :: stone_terminator

record stone_function =
  sf_adapter :: "iterator_adapter option"
  sf_registers :: nat
  sf_constants :: "stone_const list"
  sf_locals :: "string list"
  sf_accumulators :: "acc_spec list"
  sf_guards :: "stone_guard list"
  sf_snapshots :: "stone_snapshot list"
  sf_blocks :: "stone_block list"
  sf_entry :: block_id

record jsonl_subgraph =
  js_user_has_default :: bool
  js_amount_has_default :: bool
  js_amount_default :: f64
  js_items_has_default :: bool
  js_items_default :: i64
  js_tags_default_empty :: bool
  js_users_append :: "acc_id option"
  js_tags_append :: "acc_id option"

record stone_optimization =
  so_function :: stone_function
  so_kernel :: "fused_kernel option"
  so_subgraph :: "subgraph_kind option"
  so_diagnostics :: "optimization_diagnostic list"

section \<open>Operation codes\<close>

definition vm_op_opcode_id :: "vm_op \<Rightarrow> nat" where
  "vm_op_opcode_id op = (case op of
     VAddAssign _ \<Rightarrow> 1 | VAddAssignParsed _ _ \<Rightarrow> 2 | VMapAddI64Const _ _ \<Rightarrow> 3
   | VMapAddRecordField _ _ _ \<Rightarrow> 4 | VMapAddRecordStringField _ _ _ _ _ \<Rightarrow> 5
   | VListAppend _ _ \<Rightarrow> 6 | VExprBody _ \<Rightarrow> 7)"

definition expr_op_opcode_id :: "expr_op \<Rightarrow> nat" where
  "expr_op_opcode_id op = (case op of
     LoadLocal _ _ \<Rightarrow> 101 | StoreLocal _ _ \<Rightarrow> 102 | LoadConst _ _ \<Rightarrow> 103 | AddI64 _ _ _ \<Rightarrow> 104
   | SubI64 _ _ _ \<Rightarrow> 105 | MulI64 _ _ _ \<Rightarrow> 106 | FloorDivI64 _ _ _ \<Rightarrow> 107 | BitAndI64 _ _ _ \<Rightarrow> 108
   | BitOrI64 _ _ _ \<Rightarrow> 109 | BitXorI64 _ _ _ \<Rightarrow> 110 | ShlI64 _ _ _ \<Rightarrow> 111 | ShrI64 _ _ _ \<Rightarrow> 112
   | BitNotI64 _ _ \<Rightarrow> 113 | ModI64 _ _ _ \<Rightarrow> 114 | NegI64 _ _ \<Rightarrow> 115)"

definition stone_op_opcode_id :: "stone_op \<Rightarrow> nat" where
  "stone_op_opcode_id op = (case op of
     JsonGetStrDefault _ _ _ _ \<Rightarrow> 201 | JsonGetValue _ _ _ \<Rightarrow> 202 | JsonGetF64Default _ _ _ _ \<Rightarrow> 203
   | JsonGetI64Default _ _ _ _ \<Rightarrow> 204 | JsonGetArrayDefault _ _ _ \<Rightarrow> 205 | MapAddF64 _ _ _ _ \<Rightarrow> 206
   | MapAddI64 _ _ _ _ \<Rightarrow> 207 | MapAddI64Const _ _ _ _ \<Rightarrow> 208 | JsonGetF64Required _ _ _ \<Rightarrow> 209
   | JsonGetI64Required _ _ _ \<Rightarrow> 210 | JsonGetArrayRequired _ _ _ \<Rightarrow> 211)"

end
