(* ===== verification/Lower_Match.thy ===== *)
theory Lower_Match
  imports Loop_Types
begin

text \<open>The pattern matchers of \<open>stone_vm/lower.rs\<close> on statements and expressions: row accesses,
  counter updates under a membership test, appends, the decoding prefix of a JSONL line loop.\<close>

definition is_name :: "string \<Rightarrow> expr \<Rightarrow> bool" where
  "is_name x e \<longleftrightarrow> e = EName x"

section \<open>Accesses to the row\<close>

definition match_row_get :: "string \<Rightarrow> expr \<Rightarrow> (string \<times> expr) option" where
  "match_row_get row_target value = do {
     (receiver, method_name, positional, _) \<leftarrow> dest_method_call value;
     guard (method_name = ''get'');
     receiver \<leftarrow> dest_name receiver;
     guard (receiver = row_target);
     (key, dflt) \<leftarrow> dest_two positional;
     key \<leftarrow> dest_string key;
     Some (key, dflt) }"

definition match_row_subscript :: "string \<Rightarrow> expr \<Rightarrow> string option" where
  "match_row_subscript row_target value = (case value of
     ESubscript e index \<Rightarrow> do {
       receiver \<leftarrow> dest_name e;
       guard (receiver = row_target);
       dest_string index }
   | EAttribute e attr \<Rightarrow> do {
       receiver \<leftarrow> dest_name e;
       guard (receiver = row_target);
       Some attr }
   | _ \<Rightarrow> None)"

definition matches_record_field_access :: "string \<Rightarrow> string \<Rightarrow> expr \<Rightarrow> bool" where
  "matches_record_field_access record_name field_name e = (case e of
     EAttribute v attr \<Rightarrow> attr = field_name \<and> v = EName record_name
   | ESubscript v index \<Rightarrow> v = EName record_name \<and> index = EString field_name
   | _ \<Rightarrow> False)"

section \<open>Counters under a membership test\<close>

record fused_update =
  fu_map_name :: string
  fu_addend :: expr

record fused_if =
  fi_key_name :: string
  fi_contains_map :: string
  fi_updates :: "fused_update list"
  fi_append_list :: "string option"

definition match_key_in_map :: "expr \<Rightarrow> (string \<times> string) option" where
  "match_key_in_map condition = do {
     (left, ops, comparators) \<leftarrow> dest_compare condition;
     guard (ops = [CIn]);
     map_expr \<leftarrow> dest_one comparators;
     map_name \<leftarrow> dest_name map_expr;
     key_name \<leftarrow> dest_name left;
     Some (key_name, map_name) }"

definition match_key_not_in_map :: "expr \<Rightarrow> (string \<times> string) option" where
  "match_key_not_in_map condition = (case condition of
     ENot inner \<Rightarrow> match_key_in_map inner
   | _ \<Rightarrow> do {
       (left, ops, comparators) \<leftarrow> dest_compare condition;
       guard (ops = [CNotIn]);
       map_expr \<leftarrow> dest_one comparators;
       map_name \<leftarrow> dest_name map_expr;
       key_name \<leftarrow> dest_name left;
       Some (key_name, map_name) })"

definition match_map_key_target :: "assign_target \<Rightarrow> (string \<times> string) option" where
  "match_map_key_target t = do {
     (v, index) \<leftarrow> dest_target_subscript t;
     map_name \<leftarrow> dest_target_name v;
     key_name \<leftarrow> dest_name index;
     Some (map_name, key_name) }"

definition match_map_key_expr :: "expr \<Rightarrow> (string \<times> string) option" where
  "match_map_key_expr e = do {
     (v, index) \<leftarrow> dest_subscript e;
     map_name \<leftarrow> dest_name v;
     key_name \<leftarrow> dest_name index;
     Some (map_name, key_name) }"

definition match_increment_assignment :: "stmt \<Rightarrow> (string \<times> string \<times> expr) option" where
  "match_increment_assignment s = (case s of
     SAssign t value \<Rightarrow> do {
       (target_map, target_key) \<leftarrow> match_map_key_target t;
       (left, right) \<leftarrow> dest_add value;
       (left_map, left_key) \<leftarrow> match_map_key_expr left;
       guard (left_map = target_map \<and> left_key = target_key);
       Some (target_map, target_key, right) }
   | SAugAssign t op value \<Rightarrow> do {
       guard (op = AugAdd);
       (target_map, target_key) \<leftarrow> match_map_key_target t;
       Some (target_map, target_key, value) }
   | _ \<Rightarrow> None)"

definition match_insert_assignment :: "stmt \<Rightarrow> (string \<times> string \<times> expr) option" where
  "match_insert_assignment s = do {
     (t, value) \<leftarrow> dest_assign s;
     (map_name, key_name) \<leftarrow> match_map_key_target t;
     Some (map_name, key_name, value) }"

definition match_append_key :: "stmt \<Rightarrow> string \<Rightarrow> string option" where
  "match_append_key s key_name = do {
     e \<leftarrow> dest_expr_stmt s;
     (receiver, method_name, positional, _) \<leftarrow> dest_method_call e;
     guard (method_name = ''append'');
     list_name \<leftarrow> dest_name receiver;
     arg \<leftarrow> dest_one positional;
     arg_name \<leftarrow> dest_name arg;
     guard (arg_name = key_name);
     Some list_name }"

definition match_update_pair :: "string \<Rightarrow> stmt \<times> stmt \<Rightarrow> fused_update option" where
  "match_update_pair key_name pair = do {
     (map_name, then_key, addend) \<leftarrow> match_increment_assignment (fst pair);
     guard (then_key = key_name);
     (else_map, else_key, else_value) \<leftarrow> match_insert_assignment (snd pair);
     guard (else_map = map_name \<and> else_key = key_name \<and> else_value = addend);
     Some \<lparr> fu_map_name = map_name, fu_addend = addend \<rparr> }"

definition match_fused_map_update_if :: "expr \<Rightarrow> stmt list \<Rightarrow> stmt list \<Rightarrow> fused_if option" where
  "match_fused_map_update_if condition then_branch else_branch = do {
     (key_name, contains_map) \<leftarrow> match_key_in_map condition;
     guard (then_branch \<noteq> [] \<and> length then_branch \<le> length else_branch);
     updates \<leftarrow> collect_some (match_update_pair key_name) (zip then_branch else_branch);
     append_list \<leftarrow> (case drop (length then_branch) else_branch of
        [] \<Rightarrow> Some None
      | [s] \<Rightarrow> map_option Some (match_append_key s key_name)
      | _ \<Rightarrow> None);
     Some \<lparr> fi_key_name = key_name, fi_contains_map = contains_map, fi_updates = updates,
            fi_append_list = append_list \<rparr> }"

section \<open>The prefix of a line loop\<close>

definition matches_line_strip_call :: "string \<Rightarrow> expr \<Rightarrow> bool" where
  "matches_line_strip_call line_target e = (case dest_method_call e of
     None \<Rightarrow> False
   | Some (receiver, method_name, positional, _) \<Rightarrow>
       method_name = ''strip'' \<and> positional = [] \<and> receiver = EName line_target)"

definition matches_blank_line_continue :: "string \<Rightarrow> stmt \<Rightarrow> bool" where
  "matches_blank_line_continue line_target s = (case dest_if s of
     None \<Rightarrow> False
   | Some (condition, then_branch, else_branch) \<Rightarrow>
       if else_branch \<noteq> [] \<or> then_branch \<noteq> [SContinue] then False
       else case condition of
         ECompare left ops comparators \<Rightarrow>
           ops = [CEq] \<and> comparators = [EString ''''] \<and> matches_line_strip_call line_target left
       | ENot value \<Rightarrow> matches_line_strip_call line_target value
       | _ \<Rightarrow> False)"

definition lower_json_loads_line_prefix :: "string \<Rightarrow> stmt list \<Rightarrow> (string \<times> nat) option" where
  "lower_json_loads_line_prefix line_target body = do {
     first \<leftarrow> vec_get body 0;
     let index = (if matches_blank_line_continue line_target first then 1 else 0);
     s \<leftarrow> vec_get body index;
     (record_target, value) \<leftarrow> dest_assign_name s;
     (name, positional, named) \<leftarrow> dest_call value;
     guard (name = ''json_loads'' \<and> named = [] \<and> positional = [EName line_target]);
     Some (record_target, index + 1) }"

definition lower_get_assignment :: "string \<Rightarrow> string \<Rightarrow> expr \<Rightarrow> hot_loop_op option" where
  "lower_get_assignment row_target target value = (case match_row_subscript row_target value of
     Some key \<Rightarrow> Some (HGetValue target key)
   | None \<Rightarrow> (case match_row_get row_target value of
       Some (key, dflt) \<Rightarrow> (case dflt of
           EString d \<Rightarrow> Some (HGetStrDefault target key d)
         | EList items \<Rightarrow> if items = [] then Some (HGetArrayDefault target key) else None
         | _ \<Rightarrow> None)
     | None \<Rightarrow> do {
         (name, positional, named) \<leftarrow> dest_call value;
         guard (named = []);
         arg \<leftarrow> dest_one positional;
         (key, dflt) \<leftarrow> match_row_get row_target arg;
         (case dflt of
            EFloat d \<Rightarrow> if name = ''float'' then Some (HGetF64Default target key d) else None
          | EInt d \<Rightarrow> if name = ''int'' then do { z \<leftarrow> parse_i64_ok d; Some (HGetI64Default target key z) }
                      else None
          | _ \<Rightarrow> None) }))"

definition lower_prefix_stmt :: "string \<Rightarrow> stmt \<Rightarrow> hot_loop_op option" where
  "lower_prefix_stmt row_target s = do {
     (target, value) \<leftarrow> dest_assign_name s;
     lower_get_assignment row_target target value }"

primrec lower_prefix_ops :: "string \<Rightarrow> stmt list \<Rightarrow> hot_loop_op list" where
  "lower_prefix_ops row_target [] = []"
| "lower_prefix_ops row_target (s # body) = (case lower_prefix_stmt row_target s of
     None \<Rightarrow> []
   | Some op \<Rightarrow> op # lower_prefix_ops row_target body)"

section \<open>Conditions of a match\<close>

lemma collect_some_SomeD:
  "collect_some f xs = Some ys \<Longrightarrow> length ys = length xs \<and> (\<forall>i<length xs. f (xs ! i) = Some (ys ! i))"
proof (induction xs arbitrary: ys)
  case (Cons x xs)
  then obtain y zs where "f x = Some y" "collect_some f xs = Some zs" "ys = y # zs"
    by (auto split: bind_splits)
  with Cons.IH [of zs] show ?case by (auto simp: less_Suc_eq_0_disj)
qed simp

lemma match_key_in_map_iff:
  "match_key_in_map c = Some (k, m) \<longleftrightarrow> c = ECompare (EName k) [CIn] [EName m]"
  by (auto simp: match_key_in_map_def dest_simps split: bind_splits prod.splits)

lemma match_map_key_target_iff:
  "match_map_key_target t = Some (m, k) \<longleftrightarrow> t = TSubscript (TName m) (EName k)"
  by (auto simp: match_map_key_target_def dest_simps split: bind_splits prod.splits)

lemma match_map_key_expr_iff:
  "match_map_key_expr e = Some (m, k) \<longleftrightarrow> e = ESubscript (EName m) (EName k)"
  by (auto simp: match_map_key_expr_def dest_simps split: bind_splits prod.splits)

end
