(* ===== verification/Eval.thy ===== *)
theory Eval
  imports Json_Scan Collections Lower_Match Loop_Types
begin

unbundle bit_operations_syntax

text \<open>The tree-walking evaluator (\<open>stone_eval.rs\<close>): literals, names, subscripts, comparisons, boolean
  and conditional expressions, arithmetic, \<open>append\<close>, assignments to every target, the statements
  \<open>for\<close>, \<open>while\<close>, \<open>if\<close>, \<open>return\<close>, \<open>break\<close>, \<open>continue\<close> and \<open>pass\<close>, and the fused counter update of the hot
  loop mode. The other forms (calls, lambdas, comprehensions, attributes, \<open>with\<close>, \<open>try\<close>, \<open>raise\<close>,
  definitions) are the parameters \<open>rt_other_expr\<close> and \<open>rt_other_stmt\<close>: every theorem holds whatever
  they do.\<close>

section \<open>Steps of the evaluator\<close>

type_synonym 'a ev = "eval_state \<Rightarrow> 'a res \<times> eval_state"

definition ev_ret :: "'a \<Rightarrow> 'a ev" where
  "ev_ret x = (\<lambda>st. (Inr x, st))"

definition ev_lift :: "'a res \<Rightarrow> 'a ev" where
  "ev_lift r = (\<lambda>st. (r, st))"

definition ev_fail :: "shell_error \<Rightarrow> 'a ev" where
  "ev_fail e = (\<lambda>st. (Inl e, st))"

definition ev_then :: "'a ev \<Rightarrow> ('a \<Rightarrow> 'b ev) \<Rightarrow> 'b ev" where
  "ev_then m f = (\<lambda>st. case m st of (Inl e, st') \<Rightarrow> (Inl e, st') | (Inr x, st') \<Rightarrow> f x st')"

definition ev_update :: "(eval_state \<Rightarrow> eval_state) \<Rightarrow> unit ev" where
  "ev_update f = (\<lambda>st. (Inr (), f st))"

lemma ev_simps [simp]:
  "ev_ret x st = (Inr x, st)"
  "ev_lift r st = (r, st)"
  "ev_fail e st = (Inl e, st)"
  "ev_update f st = (Inr (), f st)"
  by (simp_all add: ev_ret_def ev_lift_def ev_fail_def ev_update_def)

lemma ev_then_Inr [simp]: "m st = (Inr x, st') \<Longrightarrow> ev_then m f st = f x st'"
  by (simp add: ev_then_def)

lemma ev_then_Inl [simp]: "m st = (Inl e, st') \<Longrightarrow> ev_then m f st = (Inl e, st')"
  by (simp add: ev_then_def)

datatype pipeline = PEmpty | PValue nu_value

datatype flow = FOutput pipeline | FBreak | FContinue | FReturn rvalue

record runtime =
  rt_is_empty :: "nu_value \<Rightarrow> bool"
  rt_serde :: serde
  rt_owned :: materializer
  rt_iterate_other :: "rvalue \<Rightarrow> rvalue list ev"
  rt_other_expr :: "pipeline \<Rightarrow> expr \<Rightarrow> rvalue ev"
  rt_other_stmt :: "pipeline \<Rightarrow> stmt \<Rightarrow> flow ev"
  rt_to_lowercase :: "string \<Rightarrow> string"
  rt_hash_order :: "string list \<Rightarrow> string list"
  rt_vm_interpreter :: bool
  rt_validate_snapshot :: bool
  rt_read_bytes :: "string \<Rightarrow> string \<Rightarrow> (string \<times> string) res"

text \<open>The fields of the record are the environment of the model: what \<open>nu_protocol\<close> and the JSON
  decoder do, the Unicode case mapping, the order in which a \<open>HashMap\<close> with given keys is iterated, the
  bytes of a file with the path it was found at, the task-owned values, the remaining expression and
  statement forms, and the two settings of the loop executor.\<close>

definition rt_materialize :: "runtime \<Rightarrow> materializer" where
  "rt_materialize rt = materialize_with (rt_serde rt) (rt_owned rt)"

definition to_nu :: "runtime \<Rightarrow> string \<Rightarrow> rvalue ev \<Rightarrow> nu_value ev" where
  "to_nu rt context m = ev_then m (\<lambda>v. ev_lift (into_nu_value (rt_materialize rt) v context))"

definition nu_result :: "nu_value res \<Rightarrow> rvalue ev" where
  "nu_result r = ev_lift (and_then r (\<lambda>v. Inr (RNu v)))"

definition unknown_name :: "string \<Rightarrow> string \<Rightarrow> shell_error" where
  "unknown_name kind name = stone_error kind ''unknown name `{}`'' [MStr name]"

section \<open>Names and subscripts\<close>

definition eval_name :: "string \<Rightarrow> rvalue ev" where
  "eval_name name = (\<lambda>st. case get_local name st of
     Some v \<Rightarrow> (Inr v, st)
   | None \<Rightarrow> (case es_functions st name of
       Some f \<Rightarrow> (case next_callable_id st of (i, st') \<Rightarrow> (Inr (RCallable i name), st'))
     | None \<Rightarrow>
         if name = ''true'' then (Inr (RNu (VBool True)), st)
         else if name = ''false'' then (Inr (RNu (VBool False)), st)
         else if name = ''null'' then (Inr (RNu VNothing), st)
         else (Inl (unknown_name ''name'' name), st)))"

definition eval_runtime_subscript :: "runtime \<Rightarrow> rvalue \<Rightarrow> nu_value \<Rightarrow> rvalue res" where
  "eval_runtime_subscript rt v index = (case v of
     RJsonObjectView view \<Rightarrow>
       and_then (value_to_string index ''subscript'') (\<lambda>key.
       and_then (json_object_view_get (rt_serde rt) view key) (\<lambda>found.
       ok_or (stone_error ''subscript'' ''record has no key `{}`'' [MStr key]) found))
   | RJsonArrayView view \<Rightarrow> (case nu_int index of
       None \<Rightarrow> Inl (stone_error ''subscript'' ''JSON array views require integer indexes'' [])
     | Some i \<Rightarrow>
         and_then (json_array_view_iter_values (rt_serde rt) view) (\<lambda>items.
         and_then (normalize_index i (length items)) (\<lambda>k.
         ok_or (stone_error ''subscript'' ''list index {} is out of range'' [MInt (int k)])
           (vec_get items k))))
   | _ \<Rightarrow>
       and_then (into_nu_value (rt_materialize rt) v ''subscript'') (\<lambda>n.
       and_then (subscript_builtin n index) (\<lambda>r. Inr (RNu r))))"

text \<open>A literal key of a name that holds an object view is looked up in the view itself.\<close>

definition try_eval_json_object_literal_subscript :: "runtime \<Rightarrow> expr \<Rightarrow> expr \<Rightarrow> rvalue option ev" where
  "try_eval_json_object_literal_subscript rt v index = (\<lambda>st.
     case (dest_name v, dest_string index) of
       (Some name, Some key) \<Rightarrow> (case get_local name st of
           Some (RJsonObjectView view) \<Rightarrow>
             (and_then (json_object_view_get (rt_serde rt) view key) (\<lambda>found.
              and_then (ok_or (stone_error ''subscript'' ''record has no key `{}`'' [MStr key]) found)
                (\<lambda>w. Inr (Some w))), st)
         | _ \<Rightarrow> (Inr None, st))
     | _ \<Rightarrow> (Inr None, st))"

definition runtime_value_is_none :: "rvalue \<Rightarrow> bool" where
  "runtime_value_is_none v \<longleftrightarrow> v = RNu VNothing"

definition compare_step :: "runtime \<Rightarrow> compare_op \<Rightarrow> rvalue \<Rightarrow> rvalue \<Rightarrow> bool res" where
  "compare_step rt op left right =
     (if (op = CIs \<or> op = CIsNot) \<and> (runtime_value_is_none left \<or> runtime_value_is_none right)
      then let equal = (runtime_value_is_none left \<and> runtime_value_is_none right)
           in Inr (if op = CIs then equal else \<not> equal)
      else and_then (into_nu_value (rt_materialize rt) left ''comparison'') (\<lambda>l.
           and_then (into_nu_value (rt_materialize rt) right ''comparison'') (\<lambda>r.
           compare_values l op r)))"

text \<open>Pushing onto the list at a path: \<open>mutable_list_method_target\<close> and the push of its caller.\<close>

definition push_at_path :: "string \<Rightarrow> string \<times> nu_value list \<Rightarrow> nu_value \<Rightarrow> rvalue ev" where
  "push_at_path context path v = (\<lambda>st. case get_local (fst path) st of
     None \<Rightarrow> (Inl (unknown_name context (fst path)), st)
   | Some (RNu target) \<Rightarrow> (case subscript_path_mut (snd path) target context of
         Inl e \<Rightarrow> (Inl e, st)
       | Inr (inner, put) \<Rightarrow> (case nu_list inner of
           None \<Rightarrow> (Inl (stone_error context (''{} has no '' @ context @ ''()'') [MType inner]), st)
         | Some vs \<Rightarrow> (Inr (RNu VNothing),
             write_local_mut (fst path) (RNu (put (VList (vs @ [v])))) st)))
   | Some _ \<Rightarrow> (Inl (stone_error context (''{} does not support '' @ context @ ''()'')
       [MStr (fst path)]), st))"

definition keyword_error :: "string \<Rightarrow> shell_error" where
  "keyword_error method_name = stone_error ''method call'' (method_name @
     ''() keyword arguments are not supported; method keyword arguments are supported only for split(maxsplit=...) and sort(key=..., reverse=...)'') []"

section \<open>Expressions\<close>

text \<open>A binary operator evaluates its operands from left to right, each as a plain value.\<close>

definition binary ::
  "runtime \<Rightarrow> string \<Rightarrow> (nu_value \<Rightarrow> nu_value \<Rightarrow> nu_value res) \<Rightarrow> rvalue ev \<Rightarrow> rvalue ev \<Rightarrow> rvalue ev" where
  "binary rt context op left right =
     ev_then (to_nu rt context left) (\<lambda>a. ev_then (to_nu rt context right) (\<lambda>b. nu_result (op a b)))"

function eval_expr :: "runtime \<Rightarrow> pipeline \<Rightarrow> expr \<Rightarrow> rvalue ev"
  and eval_items :: "runtime \<Rightarrow> expr list \<Rightarrow> nu_value list ev"
  and eval_fields :: "runtime \<Rightarrow> (string \<times> expr) list \<Rightarrow> (string \<times> nu_value) list ev"
  and eval_optional_index :: "runtime \<Rightarrow> expr option \<Rightarrow> i64 option ev"
  and eval_chain :: "runtime \<Rightarrow> rvalue \<Rightarrow> compare_op list \<Rightarrow> expr list \<Rightarrow> rvalue ev"
  and eval_bool_op :: "runtime \<Rightarrow> bool_op \<Rightarrow> expr list \<Rightarrow> rvalue ev"
  and eval_mutable_path :: "runtime \<Rightarrow> string \<Rightarrow> expr \<Rightarrow> (string \<times> nu_value list) ev" where
  "eval_expr rt inp e = (case e of
     ENone \<Rightarrow> ev_ret (RNu VNothing)
   | EBool b \<Rightarrow> ev_ret (RNu (VBool b))
   | EInt t \<Rightarrow> (case parse_i64 t of
        Inl err \<Rightarrow> ev_fail (stone_error ''integer literal'' ''{}'' [MStr (int_error_text err)])
      | Inr i \<Rightarrow> ev_ret (RNu (VInt i)))
   | EFloat x \<Rightarrow> ev_ret (RNu (VFloat x))
   | EString s \<Rightarrow> ev_ret (RNu (VString s))
   | EList items \<Rightarrow> ev_then (eval_items rt items) (\<lambda>vs. ev_ret (RNu (VList vs)))
   | ETuple items \<Rightarrow> ev_then (eval_items rt items) (\<lambda>vs. ev_ret (RNu (VList vs)))
   | ERecord items \<Rightarrow> ev_then (eval_fields rt items) (\<lambda>r. ev_ret (RNu (VRecord r)))
   | EName name \<Rightarrow> eval_name name
   | ESubscript v index \<Rightarrow>
       ev_then (try_eval_json_object_literal_subscript rt v index) (\<lambda>found. case found of
         Some w \<Rightarrow> ev_ret w
       | None \<Rightarrow> ev_then (eval_expr rt PEmpty v) (\<lambda>w. case index of
           ESlice lower upper \<Rightarrow>
             ev_then (ev_lift (into_nu_value (rt_materialize rt) w ''subscript'')) (\<lambda>n.
             ev_then (eval_optional_index rt lower) (\<lambda>lo.
             ev_then (eval_optional_index rt upper) (\<lambda>hi. nu_result (slice_builtin n lo hi))))
         | _ \<Rightarrow> ev_then (to_nu rt ''subscript'' (eval_expr rt PEmpty index)) (\<lambda>i.
             ev_lift (eval_runtime_subscript rt w i))))
   | ESlice _ _ \<Rightarrow> ev_fail (stone_error ''slice''
       ''slice expressions are only supported inside subscripts'' [])
   | ECompare left ops comparators \<Rightarrow>
       if length ops \<noteq> length comparators
       then ev_fail (stone_error ''comparison'' ''comparison operator and comparator counts differ'' [])
       else ev_then (eval_expr rt PEmpty left) (\<lambda>l. eval_chain rt l ops comparators)
   | EBoolOp op vs \<Rightarrow>
       if vs = [] then ev_fail (stone_error ''boolean expression''
         ''boolean expression requires at least one value'' [])
       else eval_bool_op rt op vs
   | EConditional then_expr condition else_expr \<Rightarrow>
       ev_then (to_nu rt ''conditional expression'' (eval_expr rt PEmpty condition)) (\<lambda>c.
         if value_truthy (rt_is_empty rt) c then eval_expr rt PEmpty then_expr
         else eval_expr rt PEmpty else_expr)
   | ENot v \<Rightarrow> ev_then (to_nu rt ''not'' (eval_expr rt PEmpty v)) (\<lambda>n.
       ev_ret (RNu (VBool (\<not> value_truthy (rt_is_empty rt) n))))
   | ENeg v \<Rightarrow> ev_then (to_nu rt ''unary minus'' (eval_expr rt PEmpty v)) (\<lambda>n. nu_result (neg_value n))
   | EInvert v \<Rightarrow> ev_then (to_nu rt ''bitwise invert'' (eval_expr rt PEmpty v)) (\<lambda>n.
       ev_lift (and_then (value_to_operator_i64 n ''bitwise invert'') (\<lambda>i. Inr (RNu (VInt (NOT i))))))
   | EAdd l r \<Rightarrow> binary rt ''addition'' add_values (eval_expr rt PEmpty l) (eval_expr rt PEmpty r)
   | ESub l r \<Rightarrow> binary rt ''subtraction'' sub_values (eval_expr rt PEmpty l) (eval_expr rt PEmpty r)
   | EMul l r \<Rightarrow> binary rt ''multiplication'' mul_values (eval_expr rt PEmpty l) (eval_expr rt PEmpty r)
   | EDiv l r \<Rightarrow> binary rt ''division'' div_values (eval_expr rt PEmpty l) (eval_expr rt PEmpty r)
   | EFloorDiv l r \<Rightarrow> binary rt ''floor division'' floor_div_values
       (eval_expr rt PEmpty l) (eval_expr rt PEmpty r)
   | EMod l r \<Rightarrow> binary rt ''modulo'' mod_values (eval_expr rt PEmpty l) (eval_expr rt PEmpty r)
   | EBitAnd l r \<Rightarrow> binary rt ''bitwise and'' (\<lambda>a b. bitwise_int_values a b ''bitwise and'' (AND))
       (eval_expr rt PEmpty l) (eval_expr rt PEmpty r)
   | EBitOr l r \<Rightarrow> binary rt ''bitwise or'' (\<lambda>a b. bitwise_int_values a b ''bitwise or'' (OR))
       (eval_expr rt PEmpty l) (eval_expr rt PEmpty r)
   | EBitXor l r \<Rightarrow> binary rt ''bitwise xor'' (\<lambda>a b. bitwise_int_values a b ''bitwise xor'' (XOR))
       (eval_expr rt PEmpty l) (eval_expr rt PEmpty r)
   | ELShift l r \<Rightarrow> binary rt ''left shift'' (\<lambda>a b. shift_value a b ''left shift'' checked_shl)
       (eval_expr rt PEmpty l) (eval_expr rt PEmpty r)
   | ERShift l r \<Rightarrow> binary rt ''right shift'' (\<lambda>a b. shift_value a b ''right shift'' checked_shr)
       (eval_expr rt PEmpty l) (eval_expr rt PEmpty r)
   | EGenerator _ _ \<Rightarrow> ev_fail (stone_error ''generator expression''
       ''generator expressions are only supported inside sum(...), any(...), all(...), join(...), and set(...) for now; use a list comprehension like [expr for x in items] when you need a list'' [])
   | EMethodCall receiver method_name positional named \<Rightarrow>
       if method_name \<noteq> ''append'' then rt_other_expr rt inp e
       else if named \<noteq> [] then ev_fail (keyword_error method_name)
       else (case positional of
         [arg] \<Rightarrow> ev_then (to_nu rt ''append'' (eval_expr rt PEmpty arg)) (\<lambda>v.
           ev_then (eval_mutable_path rt ''append'' receiver) (\<lambda>path. push_at_path ''append'' path v))
       | _ \<Rightarrow> ev_fail (stone_error ''append'' ''append() requires exactly one argument'' []))
   | _ \<Rightarrow> rt_other_expr rt inp e)"
| "eval_items rt [] = ev_ret []"
| "eval_items rt (e # es) =
     ev_then (to_nu rt ''sequence literal'' (eval_expr rt PEmpty e)) (\<lambda>v.
     ev_then (eval_items rt es) (\<lambda>vs. ev_ret (v # vs)))"
| "eval_fields rt [] = ev_ret []"
| "eval_fields rt ((k, e) # es) =
     ev_then (to_nu rt ''record literal'' (eval_expr rt PEmpty e)) (\<lambda>v.
     ev_then (eval_fields rt es) (\<lambda>vs. ev_ret ((k, v) # vs)))"
| "eval_optional_index rt None = ev_ret None"
| "eval_optional_index rt (Some e) =
     ev_then (to_nu rt ''slice'' (eval_expr rt PEmpty e)) (\<lambda>v.
     ev_lift (and_then (value_to_i64 v ''slice'') (\<lambda>i. Inr (Some i))))"
| "eval_chain rt left ops [] = ev_ret (RNu (VBool True))"
| "eval_chain rt left ops (e # es) = (case ops of
     [] \<Rightarrow> ev_ret (RNu (VBool True))
   | op # ops' \<Rightarrow> ev_then (eval_expr rt PEmpty e) (\<lambda>right.
       ev_then (ev_lift (compare_step rt op left right)) (\<lambda>b.
       if b then eval_chain rt right ops' es else ev_ret (RNu (VBool False)))))"
| "eval_bool_op rt op [] = ev_ret (RNu (VBool (op = BoolAnd)))"
| "eval_bool_op rt op (e # es) =
     ev_then (to_nu rt ''boolean expression'' (eval_expr rt PEmpty e)) (\<lambda>v.
     if value_truthy (rt_is_empty rt) v = (op = BoolAnd) then eval_bool_op rt op es
     else ev_ret (RNu (VBool (op \<noteq> BoolAnd))))"
| "eval_mutable_path rt context e = (case e of
     EName name \<Rightarrow> ev_ret (name, [])
   | ESubscript v index \<Rightarrow>
       ev_then (eval_mutable_path rt context v) (\<lambda>path.
       ev_then (to_nu rt context (eval_expr rt PEmpty index)) (\<lambda>i. ev_ret (fst path, snd path @ [i])))
   | EAttribute v attr \<Rightarrow>
       ev_then (eval_mutable_path rt context v) (\<lambda>path. ev_ret (fst path, snd path @ [VString attr]))
   | _ \<Rightarrow> ev_fail (stone_error context (context @ ''() is only supported on local list paths'') []))"
  by pat_completeness auto

termination
  by (relation "measure (case_sum
      (case_sum (\<lambda>(_, _, e). size e)
        (case_sum (\<lambda>(_, es). size_list size es) (\<lambda>(_, fs). size_list (size_prod (\<lambda>_. 0) size) fs)))
      (case_sum
        (case_sum (\<lambda>(_, i). size_option size i) (\<lambda>(_, _, _, es). size_list size es))
        (case_sum (\<lambda>(_, _, es). size_list size es) (\<lambda>(_, _, e). size e))))") auto

declare eval_expr.simps [simp del] eval_mutable_path.simps [simp del]

end
