(* ===== verification/Hot_Diagnostics.thy ===== *)
theory Hot_Diagnostics
  imports Eval
begin

text \<open>The counters that the loop executors keep in the state of the evaluator
  (\<open>HotLoopDiagnostics\<close> of \<open>stone_eval.rs\<close>).\<close>

definition count_diag :: "(hot_diagnostics \<Rightarrow> hot_diagnostics) \<Rightarrow> unit ev" where
  "count_diag f = ev_update (with_diagnostics f)"

definition diag_optimized :: "optimization_diagnostic list \<Rightarrow> hot_diagnostics \<Rightarrow> hot_diagnostics" where
  "diag_optimized ds d = fold (\<lambda>_ d. d\<lparr> hd_optimizations :=
     bump ''canonicalized'' (hd_optimizations d) \<rparr>) ds d"

definition diag_kernel_selected :: "fused_kernel \<Rightarrow> hot_diagnostics \<Rightarrow> hot_diagnostics" where
  "diag_kernel_selected k d = d\<lparr> hd_kernels_selected := hd_kernels_selected d + 1,
     hd_jsonl_lowered := hd_jsonl_lowered d + (if k = KJsonlAggregation then 1 else 0) \<rparr>"

definition diag_kernel_executed :: "fused_kernel \<Rightarrow> hot_diagnostics \<Rightarrow> hot_diagnostics" where
  "diag_kernel_executed k d = d\<lparr> hd_kernels_executed := hd_kernels_executed d + 1,
     hd_jsonl_executed := hd_jsonl_executed d + (if k = KJsonlAggregation then 1 else 0) \<rparr>"

end
