(* ===== verification/Jsonl_Match.thy ===== *)
theory Jsonl_Match
  imports Lower_Match
begin

text \<open>The recognisers of JSONL aggregation loops (\<open>stone_vm/jsonl_match.rs\<close>): six shapes of a loop
  body that adds an amount and an item count per user and counts the tags of each row. Every
  recogniser returns the same plan record.\<close>

definition hot_jsonl_aggregation_ops ::
  "string \<Rightarrow> string \<Rightarrow> string \<Rightarrow> string \<Rightarrow> string \<Rightarrow> string \<Rightarrow> string option \<Rightarrow> string \<Rightarrow> string option
    \<Rightarrow> json_body_op list" where
  "hot_jsonl_aggregation_ops user_key amount_key items_key tags_key amounts_map items_map users_list
     tag_counts_map tags_list =
   [JGetFields user_key amount_key items_key tags_key,
    JMapAddF64 amounts_map SlotUser SlotAmount users_list,
    JMapAddI64 items_map SlotUser SlotItems,
    JForEachString SlotTags SlotTag [JMapAddI64Const tag_counts_map SlotTag 1 tags_list]]"

section \<open>Pieces of a body\<close>

definition match_required_string_prefix :: "string \<Rightarrow> stmt \<Rightarrow> (string \<times> string) option" where
  "match_required_string_prefix row_name s = do {
     (target, value) \<leftarrow> dest_assign_name s;
     key \<leftarrow> match_row_subscript row_name value;
     Some (target, key) }"

definition match_cast_row_subscript :: "string \<Rightarrow> expr \<Rightarrow> string \<Rightarrow> string option" where
  "match_cast_row_subscript row_name value cast_name = do {
     (name, positional, named) \<leftarrow> dest_call value;
     guard (name = cast_name \<and> named = []);
     arg \<leftarrow> dest_one positional;
     match_row_subscript row_name arg }"

definition match_required_cast_prefix :: "string \<Rightarrow> stmt \<Rightarrow> string \<Rightarrow> (string \<times> string) option" where
  "match_required_cast_prefix row_name s cast_name = do {
     (target, value) \<leftarrow> dest_assign_name s;
     key \<leftarrow> match_cast_row_subscript row_name value cast_name;
     Some (target, key) }"

definition matches_add_self_int_one :: "string \<Rightarrow> expr \<Rightarrow> expr \<Rightarrow> bool" where
  "matches_add_self_int_one x left right \<longleftrightarrow>
     left = EName x \<and> right = EInt ''1'' \<or> left = EInt ''1'' \<and> right = EName x"

definition match_row_count_increment :: "stmt \<Rightarrow> string option" where
  "match_row_count_increment s = (case s of
     SAugAssign t op value \<Rightarrow> do {
       x \<leftarrow> dest_target_name t;
       guard (op = AugAdd \<and> value = EInt ''1'');
       Some x }
   | SAssign t value \<Rightarrow> do {
       x \<leftarrow> dest_target_name t;
       (left, right) \<leftarrow> dest_add value;
       guard (matches_add_self_int_one x left right);
       Some x }
   | _ \<Rightarrow> None)"

definition split_optional_row_count_body5 ::
  "stmt list \<Rightarrow> (stmt \<times> stmt \<times> stmt \<times> stmt \<times> stmt \<times> string option) option" where
  "split_optional_row_count_body5 body = (case body of
     [a, b, c, d, tag_loop] \<Rightarrow> Some (a, b, c, d, tag_loop, None)
   | [a, b, c, d, count_stmt, tag_loop] \<Rightarrow> do {
       x \<leftarrow> match_row_count_increment count_stmt;
       Some (a, b, c, d, tag_loop, Some x) }
   | _ \<Rightarrow> None)"

definition dest_record :: "expr \<Rightarrow> (string \<times> expr) list option" where
  "dest_record e = (case e of ERecord flds \<Rightarrow> Some flds | _ \<Rightarrow> None)"

definition is_zero_float :: "expr \<Rightarrow> bool" where
  "is_zero_float e = (case e of EFloat x \<Rightarrow> f64_eq x f64_zero | _ \<Rightarrow> False)"

definition match_zero_record_field :: "(string \<times> expr) list \<Rightarrow> bool \<Rightarrow> string option" where
  "match_zero_record_field flds want_float =
     map_option fst (List.find (\<lambda>(_, value).
       if want_float then is_zero_float value else value = EInt ''0'') flds)"

definition match_nested_totals_init :: "string \<Rightarrow> stmt \<Rightarrow> (string \<times> string \<times> string) option" where
  "match_nested_totals_init user_name s = do {
     (condition, then_branch, else_branch) \<leftarrow> dest_if s;
     guard (else_branch = []);
     (key_name, map_name) \<leftarrow> match_key_not_in_map condition;
     guard (key_name = user_name);
     insert_stmt \<leftarrow> dest_one then_branch;
     (t, value) \<leftarrow> dest_assign insert_stmt;
     flds \<leftarrow> dest_record value;
     (insert_map, insert_key) \<leftarrow> match_map_key_target t;
     guard (insert_map = map_name \<and> insert_key = key_name);
     amount_field \<leftarrow> match_zero_record_field flds True;
     items_field \<leftarrow> match_zero_record_field flds False;
     Some (map_name, amount_field, items_field) }"

definition match_nested_map_field_target :: "assign_target \<Rightarrow> (string \<times> string \<times> string) option" where
  "match_nested_map_field_target t = do {
     (v, index) \<leftarrow> dest_target_subscript t;
     field_name \<leftarrow> dest_string index;
     (map_name, key_name) \<leftarrow> match_map_key_target v;
     Some (map_name, key_name, field_name) }"

definition match_nested_total_add ::
  "string \<Rightarrow> string \<Rightarrow> string \<Rightarrow> stmt \<Rightarrow> string \<Rightarrow> string \<Rightarrow> string option" where
  "match_nested_total_add row_name totals_map user_name s field_name cast_name = do {
     (t, op, value) \<leftarrow> dest_aug_assign s;
     guard (op = AugAdd);
     (target_map, target_key, target_field) \<leftarrow> match_nested_map_field_target t;
     guard (target_map = totals_map \<and> target_key = user_name \<and> target_field = field_name);
     match_cast_row_subscript row_name value cast_name }"

definition match_two_zero_insert_if ::
  "string \<Rightarrow> stmt \<Rightarrow> ((string \<times> expr) \<times> (string \<times> expr)) option" where
  "match_two_zero_insert_if user_name s = do {
     (condition, then_branch, else_branch) \<leftarrow> dest_if s;
     guard (else_branch = []);
     (key_name, first_map) \<leftarrow> match_key_not_in_map condition;
     guard (key_name = user_name);
     (s1, s2) \<leftarrow> dest_two then_branch;
     (first_insert_map, first_key, first_value) \<leftarrow> match_insert_assignment s1;
     guard (first_insert_map = first_map \<and> first_key = key_name);
     (second_insert_map, second_key, second_value) \<leftarrow> match_insert_assignment s2;
     guard (second_key = key_name);
     Some ((first_insert_map, first_value), (second_insert_map, second_value)) }"

definition match_map_add_cast ::
  "string \<Rightarrow> string \<Rightarrow> string \<Rightarrow> stmt \<Rightarrow> string \<Rightarrow> string option" where
  "match_map_add_cast row_name map_name key_name s cast_name = do {
     (t, op, value) \<leftarrow> dest_aug_assign s;
     guard (op = AugAdd);
     (target_map, target_key) \<leftarrow> match_map_key_target t;
     guard (target_map = map_name \<and> target_key = key_name);
     match_cast_row_subscript row_name value cast_name }"

definition match_tag_init_then_add_body :: "string \<Rightarrow> stmt list \<Rightarrow> string option" where
  "match_tag_init_then_add_body tag_name body = do {
     (init_stmt, add_stmt) \<leftarrow> dest_two body;
     (condition, then_branch, else_branch) \<leftarrow> dest_if init_stmt;
     guard (else_branch = []);
     (key_name, map_name) \<leftarrow> match_key_not_in_map condition;
     guard (key_name = tag_name);
     insert_stmt \<leftarrow> dest_one then_branch;
     (insert_map, insert_key, insert_value) \<leftarrow> match_insert_assignment insert_stmt;
     guard (insert_map = map_name \<and> insert_key = key_name \<and> insert_value = EInt ''0'');
     (t, op, value) \<leftarrow> dest_aug_assign add_stmt;
     text_value \<leftarrow> dest_int value;
     guard (op = AugAdd);
     (add_map, add_key) \<leftarrow> match_map_key_target t;
     guard (add_map = map_name \<and> add_key = key_name \<and> text_value = ''1'');
     Some map_name }"

definition match_string_get_prefix :: "string \<Rightarrow> stmt \<Rightarrow> (string \<times> string \<times> string) option" where
  "match_string_get_prefix row_name s = do {
     (target, value) \<leftarrow> dest_assign_name s;
     (key, dflt) \<leftarrow> match_row_get row_name value;
     d \<leftarrow> dest_string dflt;
     Some (target, key, d) }"

definition cast_get_prefix :: "string \<Rightarrow> string \<Rightarrow> stmt \<Rightarrow> (string \<times> string \<times> expr) option" where
  "cast_get_prefix cast_name row_name s = do {
     (target, value) \<leftarrow> dest_assign_name s;
     (name, positional, named) \<leftarrow> dest_call value;
     guard (name = cast_name \<and> named = []);
     arg \<leftarrow> dest_one positional;
     (key, dflt) \<leftarrow> match_row_get row_name arg;
     Some (target, key, dflt) }"

definition match_f64_get_prefix :: "string \<Rightarrow> stmt \<Rightarrow> (string \<times> string \<times> f64) option" where
  "match_f64_get_prefix row_name s = do {
     (target, key, dflt) \<leftarrow> cast_get_prefix ''float'' row_name s;
     d \<leftarrow> (case dflt of
        EFloat d \<Rightarrow> Some d
      | EInt t \<Rightarrow> map_option i64_as_f64 (parse_i64_ok t)
      | _ \<Rightarrow> None);
     Some (target, key, d) }"

definition match_i64_get_prefix :: "string \<Rightarrow> stmt \<Rightarrow> (string \<times> string \<times> i64) option" where
  "match_i64_get_prefix row_name s = do {
     (target, key, dflt) \<leftarrow> cast_get_prefix ''int'' row_name s;
     t \<leftarrow> dest_int dflt;
     d \<leftarrow> parse_i64_ok t;
     Some (target, key, d) }"

definition match_array_get_prefix :: "string \<Rightarrow> stmt \<Rightarrow> (string \<times> string) option" where
  "match_array_get_prefix row_name s = do {
     (target, value) \<leftarrow> dest_assign_name s;
     (key, dflt) \<leftarrow> match_row_get row_name value;
     guard (dflt = EList []);
     Some (target, key) }"

definition match_str_alias_assignment :: "stmt \<Rightarrow> (string \<times> string) option" where
  "match_str_alias_assignment s = do {
     (target, value) \<leftarrow> dest_assign_name s;
     (name, positional, named) \<leftarrow> dest_call value;
     guard (name = ''str'' \<and> named = []);
     arg \<leftarrow> dest_one positional;
     source \<leftarrow> dest_name arg;
     Some (target, source) }"

definition match_tag_update_body :: "string \<Rightarrow> stmt list \<Rightarrow> (string \<times> stmt) option" where
  "match_tag_update_body tag_name body = (case body of
     [s] \<Rightarrow> Some (tag_name, s)
   | [alias_stmt, update_stmt] \<Rightarrow> do {
       (alias, source) \<leftarrow> match_str_alias_assignment alias_stmt;
       guard (source = tag_name);
       Some (alias, update_stmt) }
   | _ \<Rightarrow> None)"

section \<open>The recognisers\<close>

text \<open>The plan of a body without nested totals: the operations carry the keys, maps and lists of the
  record itself. A default that the program does not give is the default value of its type.\<close>

definition flat_body_plan ::
  "string \<Rightarrow> string \<Rightarrow> string option \<Rightarrow> string \<Rightarrow> string \<Rightarrow> f64 option \<Rightarrow> string \<Rightarrow> string \<Rightarrow> i64 option
    \<Rightarrow> string option \<Rightarrow> string \<Rightarrow> bool \<Rightarrow> string \<Rightarrow> string option \<Rightarrow> string option \<Rightarrow> json_body" where
  "flat_body_plan user_name user_key user_dflt amounts_map amount_key amount_dflt items_map items_key
     items_dflt users_list tags_key tags_empty tag_counts_map tags_list row_count = \<lparr>
     jb_ops = hot_jsonl_aggregation_ops user_key amount_key items_key tags_key amounts_map items_map
       users_list tag_counts_map tags_list,
     jb_nested = None,
     jb_user_name = user_name,
     jb_user_key = user_key,
     jb_user_has_default = (user_dflt \<noteq> None),
     jb_user_default = (case user_dflt of None \<Rightarrow> '''' | Some d \<Rightarrow> d),
     jb_amounts_map = amounts_map,
     jb_amount_key = amount_key,
     jb_amount_has_default = (amount_dflt \<noteq> None),
     jb_amount_default = (case amount_dflt of None \<Rightarrow> f64_zero | Some d \<Rightarrow> d),
     jb_items_map = items_map,
     jb_items_key = items_key,
     jb_items_has_default = (items_dflt \<noteq> None),
     jb_items_default = (case items_dflt of None \<Rightarrow> 0 | Some d \<Rightarrow> d),
     jb_users_list = users_list,
     jb_tags_key = tags_key,
     jb_tags_default_empty = tags_empty,
     jb_tag_counts_map = tag_counts_map,
     jb_tags_list = tags_list,
     jb_row_count_local = row_count \<rparr>"

text \<open>The tag loop of a body, shared by the recognisers: one target, and a body that counts the tag.\<close>

definition match_tag_count_if :: "string \<Rightarrow> stmt list \<Rightarrow> (string \<times> string option) option" where
  "match_tag_count_if tag_name tag_body = do {
     (tag, tag_update_stmt) \<leftarrow> match_tag_update_body tag_name tag_body;
     (condition, then_branch, else_branch) \<leftarrow> dest_if tag_update_stmt;
     tag_update \<leftarrow> match_fused_map_update_if condition then_branch else_branch;
     guard (fi_key_name tag_update = tag);
     tag_count_update \<leftarrow> dest_one (fi_updates tag_update);
     guard (fu_addend tag_count_update = EInt ''1'');
     Some (fi_contains_map tag_update, fi_append_list tag_update) }"

definition match_one_target_loop :: "stmt \<Rightarrow> (string \<times> expr \<times> stmt list) option" where
  "match_one_target_loop s = do {
     (targets, iter, loop_body) \<leftarrow> dest_for s;
     target \<leftarrow> dest_one targets;
     Some (target, iter, loop_body) }"

definition match_user_update :: "stmt \<Rightarrow> (fused_if \<times> fused_update \<times> fused_update) option" where
  "match_user_update s = do {
     (condition, then_branch, else_branch) \<leftarrow> dest_if s;
     user_update \<leftarrow> match_fused_map_update_if condition then_branch else_branch;
     (first_update, second_update) \<leftarrow> dest_two (fi_updates user_update);
     Some (user_update, first_update, second_update) }"

definition match_direct_hot_jsonl_aggregation_body :: "string \<Rightarrow> stmt list \<Rightarrow> json_body option" where
  "match_direct_hot_jsonl_aggregation_body row_name body = do {
     (user_stmt, tag_loop) \<leftarrow> dest_two body;
     (user_update, first_update, second_update) \<leftarrow> match_user_update user_stmt;
     first_key \<leftarrow> match_row_subscript row_name (fu_addend first_update);
     second_key \<leftarrow> match_row_subscript row_name (fu_addend second_update);
     (tag_name, iter, tag_body) \<leftarrow> match_one_target_loop tag_loop;
     tags_key \<leftarrow> match_row_subscript row_name iter;
     (tag_counts_map, tags_list) \<leftarrow> match_tag_count_if tag_name tag_body;
     Some (flat_body_plan (fi_key_name user_update) (fi_key_name user_update) None
       (fu_map_name first_update) first_key None (fu_map_name second_update) second_key None
       (fi_append_list user_update) tags_key False tag_counts_map tags_list None) }"

definition match_nested_totals_hot_jsonl_aggregation_body ::
  "string \<Rightarrow> stmt list \<Rightarrow> json_body option" where
  "match_nested_totals_hot_jsonl_aggregation_body row_name body = (case body of
     [user_stmt, init_stmt, amount_stmt, items_stmt, tag_loop] \<Rightarrow> do {
       (user_name, user_key) \<leftarrow> match_required_string_prefix row_name user_stmt;
       (totals_map, amount_field, items_field) \<leftarrow> match_nested_totals_init user_name init_stmt;
       amount_key \<leftarrow> match_nested_total_add row_name totals_map user_name amount_stmt amount_field ''float'';
       items_key \<leftarrow> match_nested_total_add row_name totals_map user_name items_stmt items_field ''int'';
       (tag_name, iter, tag_body) \<leftarrow> match_one_target_loop tag_loop;
       tags_key \<leftarrow> match_row_subscript row_name iter;
       (tag_counts_map, tags_list) \<leftarrow> match_tag_count_if tag_name tag_body;
       Some \<lparr>
         jb_ops = hot_jsonl_aggregation_ops user_key amount_key items_key tags_key totals_map totals_map
           None tag_counts_map tags_list,
         jb_nested = Some \<lparr> nt_map_name = totals_map, nt_amount_field = amount_field,
           nt_items_field = items_field \<rparr>,
         jb_user_name = user_name, jb_user_key = user_key,
         jb_user_has_default = False, jb_user_default = '''',
         jb_amounts_map = '''', jb_amount_key = amount_key,
         jb_amount_has_default = False, jb_amount_default = f64_zero,
         jb_items_map = '''', jb_items_key = items_key,
         jb_items_has_default = False, jb_items_default = 0,
         jb_users_list = None, jb_tags_key = tags_key, jb_tags_default_empty = False,
         jb_tag_counts_map = tag_counts_map, jb_tags_list = tags_list,
         jb_row_count_local = None \<rparr> }
   | _ \<Rightarrow> None)"

definition match_required_prefixed_hot_jsonl_aggregation_body ::
  "string \<Rightarrow> stmt list \<Rightarrow> json_body option" where
  "match_required_prefixed_hot_jsonl_aggregation_body row_name body = do {
     (user_stmt, amount_stmt, items_stmt, update_stmt, tag_loop, row_count) \<leftarrow>
       split_optional_row_count_body5 body;
     (user_name, user_key) \<leftarrow> match_required_string_prefix row_name user_stmt;
     (amount_name, amount_key) \<leftarrow> match_required_cast_prefix row_name amount_stmt ''float'';
     (items_name, items_key) \<leftarrow> match_required_cast_prefix row_name items_stmt ''int'';
     (user_update, first_update, second_update) \<leftarrow> match_user_update update_stmt;
     guard (fi_key_name user_update = user_name);
     guard (fu_addend first_update = EName amount_name \<and> fu_addend second_update = EName items_name);
     (tag_name, iter, tag_body) \<leftarrow> match_one_target_loop tag_loop;
     tags_key \<leftarrow> match_row_subscript row_name iter;
     (tag_counts_map, tags_list) \<leftarrow> match_tag_count_if tag_name tag_body;
     Some (flat_body_plan user_name user_key None (fu_map_name first_update) amount_key None
       (fu_map_name second_update) items_key None (fi_append_list user_update) tags_key False
       tag_counts_map tags_list row_count) }"

definition match_init_then_add_hot_jsonl_aggregation_body ::
  "string \<Rightarrow> stmt list \<Rightarrow> json_body option" where
  "match_init_then_add_hot_jsonl_aggregation_body row_name body = do {
     (user_stmt, init_stmt, amount_stmt, items_stmt, tag_loop, row_count) \<leftarrow>
       split_optional_row_count_body5 body;
     (user_name, user_key) \<leftarrow> match_required_string_prefix row_name user_stmt;
     ((amounts_map, amount_zero), (items_map, items_zero)) \<leftarrow>
       match_two_zero_insert_if user_name init_stmt;
     guard (is_zero_float amount_zero \<and> items_zero = EInt ''0'');
     amount_key \<leftarrow> match_map_add_cast row_name amounts_map user_name amount_stmt ''float'';
     items_key \<leftarrow> match_map_add_cast row_name items_map user_name items_stmt ''int'';
     (tag_name, iter, tag_body) \<leftarrow> match_one_target_loop tag_loop;
     tags_key \<leftarrow> match_row_subscript row_name iter;
     tag_counts_map \<leftarrow> match_tag_init_then_add_body tag_name tag_body;
     Some (flat_body_plan user_name user_key None amounts_map amount_key None items_map items_key None
       None tags_key False tag_counts_map None row_count) }"

definition match_prefixed_hot_jsonl_aggregation_body :: "string \<Rightarrow> stmt list \<Rightarrow> json_body option" where
  "match_prefixed_hot_jsonl_aggregation_body row_name body = (case body of
     [user_stmt, amount_stmt, items_stmt, fourth_stmt, fifth_stmt, tag_loop] \<Rightarrow> do {
       (user_name, user_key, user_dflt) \<leftarrow> match_string_get_prefix row_name user_stmt;
       (amount_name, amount_key, amount_dflt) \<leftarrow> match_f64_get_prefix row_name amount_stmt;
       (items_name, items_key, items_dflt) \<leftarrow> match_i64_get_prefix row_name items_stmt;
       (tags_name, tags_key, update_stmt) \<leftarrow> (case match_array_get_prefix row_name fourth_stmt of
          Some (n, k) \<Rightarrow> Some (n, k, fifth_stmt)
        | None \<Rightarrow> do { (n, k) \<leftarrow> match_array_get_prefix row_name fifth_stmt; Some (n, k, fourth_stmt) });
       (user_update, first_update, second_update) \<leftarrow> match_user_update update_stmt;
       guard (fi_key_name user_update = user_name);
       guard (fu_addend first_update = EName amount_name \<and> fu_addend second_update = EName items_name);
       (tag_name, iter, tag_body) \<leftarrow> match_one_target_loop tag_loop;
       guard (iter = EName tags_name);
       (tag_counts_map, tags_list) \<leftarrow> match_tag_count_if tag_name tag_body;
       Some (flat_body_plan user_name user_key (Some user_dflt) (fu_map_name first_update) amount_key
         (Some amount_dflt) (fu_map_name second_update) items_key (Some items_dflt)
         (fi_append_list user_update) tags_key True tag_counts_map tags_list None) }
   | _ \<Rightarrow> None)"

definition match_prefixed_count_hot_jsonl_aggregation_body ::
  "string \<Rightarrow> stmt list \<Rightarrow> json_body option" where
  "match_prefixed_count_hot_jsonl_aggregation_body row_name body = (case body of
     [user_stmt, amount_stmt, tags_stmt, update_stmt, tag_loop] \<Rightarrow> do {
       (user_name, user_key, user_dflt) \<leftarrow> match_string_get_prefix row_name user_stmt;
       (amount_name, amount_key, amount_dflt) \<leftarrow> match_f64_get_prefix row_name amount_stmt;
       (tags_name, tags_key) \<leftarrow> match_array_get_prefix row_name tags_stmt;
       (user_update, amount_update, count_update) \<leftarrow> match_user_update update_stmt;
       guard (fi_key_name user_update = user_name);
       guard (fu_addend amount_update = EName amount_name \<and> fu_addend count_update = EInt ''1'');
       (tag_name, iter, tag_body) \<leftarrow> match_one_target_loop tag_loop;
       guard (iter = EName tags_name);
       (tag_counts_map, tags_list) \<leftarrow> match_tag_count_if tag_name tag_body;
       Some (flat_body_plan user_name user_key (Some user_dflt) (fu_map_name amount_update) amount_key
         (Some amount_dflt) (fu_map_name count_update) '''' (Some 1)
         (fi_append_list user_update) tags_key True tag_counts_map tags_list None) }
   | _ \<Rightarrow> None)"

definition match_hot_jsonl_aggregation_body :: "string \<Rightarrow> stmt list \<Rightarrow> json_body option" where
  "match_hot_jsonl_aggregation_body row_name body =
     or_else (match_nested_totals_hot_jsonl_aggregation_body row_name body)
    (or_else (match_init_then_add_hot_jsonl_aggregation_body row_name body)
    (or_else (match_required_prefixed_hot_jsonl_aggregation_body row_name body)
    (or_else (match_direct_hot_jsonl_aggregation_body row_name body)
    (or_else (match_prefixed_hot_jsonl_aggregation_body row_name body)
             (match_prefixed_count_hot_jsonl_aggregation_body row_name body)))))"

end
