(* ===== verification/Expr_Lower.thy ===== *)
theory Expr_Lower
  imports Loop_Types
begin

text \<open>The compiler of integer loop bodies to register code: \<open>GenericVmExprBuilder\<close> and
  \<open>compile_generic_vm_expr_body\<close> of \<open>stone_vm/lower.rs\<close>. The builder is passed explicitly; a form
  that has no code makes the whole compilation \<open>None\<close>.\<close>

record vm_builder =
  vb_locals :: "string list"
  vb_constants :: "vm_const list"
  vb_ops :: "expr_op list"
  vb_next :: nat

definition new_builder :: "string list \<Rightarrow> vm_builder" where
  "new_builder locals = \<lparr> vb_locals = locals, vb_constants = [], vb_ops = [], vb_next = 0 \<rparr>"

definition finish_builder :: "vm_builder \<Rightarrow> expr_body" where
  "finish_builder b = \<lparr> eb_registers = vb_next b, eb_constants = vb_constants b, eb_ops = vb_ops b \<rparr>"

definition builder_reg :: "vm_builder \<Rightarrow> nat \<times> vm_builder" where
  "builder_reg b = (vb_next b, b\<lparr> vb_next := vb_next b + 1 \<rparr>)"

text \<open>The index of an element, with the vector extended when it is new.\<close>

definition intern :: "'a \<Rightarrow> 'a list \<Rightarrow> nat \<times> 'a list" where
  "intern x xs = (case position (\<lambda>y. y = x) xs of
     Some i \<Rightarrow> (i, xs)
   | None \<Rightarrow> (length xs, xs @ [x]))"

definition generic_vm_local :: "string list \<Rightarrow> string \<Rightarrow> nat \<times> string list" where
  "generic_vm_local locals name = intern name locals"

definition builder_local :: "string \<Rightarrow> vm_builder \<Rightarrow> nat \<times> vm_builder" where
  "builder_local name b = (case generic_vm_local (vb_locals b) name of
     (i, ls) \<Rightarrow> (i, b\<lparr> vb_locals := ls \<rparr>))"

definition builder_constant :: "vm_const \<Rightarrow> vm_builder \<Rightarrow> nat \<times> vm_builder" where
  "builder_constant c b = (case intern c (vb_constants b) of
     (i, cs) \<Rightarrow> (i, b\<lparr> vb_constants := cs \<rparr>))"

definition emit :: "expr_op \<Rightarrow> vm_builder \<Rightarrow> vm_builder" where
  "emit op b = b\<lparr> vb_ops := vb_ops b @ [op] \<rparr>"

type_synonym lowering = "vm_builder \<Rightarrow> (nat \<times> vm_builder) option"

definition lower_unary :: "(nat \<Rightarrow> nat \<Rightarrow> expr_op) \<Rightarrow> lowering \<Rightarrow> lowering" where
  "lower_unary op lower_value = (\<lambda>b. do {
     (src, b) \<leftarrow> lower_value b;
     let (dst, b) = builder_reg b;
     Some (dst, emit (op dst src) b) })"

definition lower_binary :: "(nat \<Rightarrow> nat \<Rightarrow> nat \<Rightarrow> expr_op) \<Rightarrow> lowering \<Rightarrow> lowering \<Rightarrow> lowering" where
  "lower_binary op lower_left lower_right = (\<lambda>b. do {
     (lhs, b) \<leftarrow> lower_left b;
     (rhs, b) \<leftarrow> lower_right b;
     let (dst, b) = builder_reg b;
     Some (dst, emit (op dst lhs rhs) b) })"

definition lower_int :: "string \<Rightarrow> lowering" where
  "lower_int t = (\<lambda>b. do {
     value \<leftarrow> parse_i64_ok t;
     let (c, b) = builder_constant (ConstI64 value) b;
     let (dst, b) = builder_reg b;
     Some (dst, emit (LoadConst dst c) b) })"

definition lower_name :: "string \<Rightarrow> lowering" where
  "lower_name name = (\<lambda>b.
     let (i, b) = builder_local name b;
         (dst, b) = builder_reg b
     in Some (dst, emit (LoadLocal dst i) b))"

fun lower_expr :: "expr \<Rightarrow> lowering" where
  "lower_expr (EInt t) = lower_int t"
| "lower_expr (EName name) = lower_name name"
| "lower_expr (EInvert value) = lower_unary BitNotI64 (lower_expr value)"
| "lower_expr (ENeg value) = lower_unary NegI64 (lower_expr value)"
| "lower_expr (EAdd left right) = lower_binary AddI64 (lower_expr left) (lower_expr right)"
| "lower_expr (ESub left right) = lower_binary SubI64 (lower_expr left) (lower_expr right)"
| "lower_expr (EMul left right) = lower_binary MulI64 (lower_expr left) (lower_expr right)"
| "lower_expr (EFloorDiv left right) = lower_binary FloorDivI64 (lower_expr left) (lower_expr right)"
| "lower_expr (EMod left right) = lower_binary ModI64 (lower_expr left) (lower_expr right)"
| "lower_expr (EBitAnd left right) = lower_binary BitAndI64 (lower_expr left) (lower_expr right)"
| "lower_expr (EBitOr left right) = lower_binary BitOrI64 (lower_expr left) (lower_expr right)"
| "lower_expr (EBitXor left right) = lower_binary BitXorI64 (lower_expr left) (lower_expr right)"
| "lower_expr (ELShift left right) = lower_binary ShlI64 (lower_expr left) (lower_expr right)"
| "lower_expr (ERShift left right) = lower_binary ShrI64 (lower_expr left) (lower_expr right)"
| "lower_expr _ = (\<lambda>b. None)"

definition lower_assign :: "string \<Rightarrow> expr \<Rightarrow> vm_builder \<Rightarrow> vm_builder option" where
  "lower_assign name value b = do {
     (src, b) \<leftarrow> lower_expr value b;
     let (i, b) = builder_local name b;
     Some (emit (StoreLocal i src) b) }"

definition lower_add_assign :: "string \<Rightarrow> expr \<Rightarrow> vm_builder \<Rightarrow> vm_builder option" where
  "lower_add_assign name value b = (
     let (lhs, b) = builder_reg b;
         (i, b) = builder_local name b;
         b = emit (LoadLocal lhs i) b
     in do {
       (rhs, b) \<leftarrow> lower_expr value b;
       let (dst, b) = builder_reg b;
       Some (emit (StoreLocal i dst) (emit (AddI64 dst lhs rhs) b)) })"

definition lower_stmt :: "stmt \<Rightarrow> vm_builder \<Rightarrow> vm_builder option" where
  "lower_stmt s b = (case s of
     SAssign t value \<Rightarrow> do { name \<leftarrow> dest_target_name t; lower_assign name value b }
   | SAugAssign t op value \<Rightarrow> do {
       name \<leftarrow> dest_target_name t;
       guard (op = AugAdd);
       lower_add_assign name value b }
   | _ \<Rightarrow> None)"

primrec lower_stmts :: "stmt list \<Rightarrow> vm_builder \<Rightarrow> vm_builder option" where
  "lower_stmts [] b = Some b"
| "lower_stmts (s # body) b = do { b \<leftarrow> lower_stmt s b; lower_stmts body b }"

text \<open>The result pairs the code with the local names that the builder has interned.\<close>

definition compile_generic_vm_expr_body ::
  "string \<Rightarrow> stmt list \<Rightarrow> string list \<Rightarrow> (expr_body \<times> string list) option" where
  "compile_generic_vm_expr_body loop_target body locals = do {
     let (i, b) = builder_local loop_target (new_builder locals);
     b \<leftarrow> lower_stmts body b;
     Some (finish_builder b, vb_locals b) }"

end
