(* ===== verification/Lower.thy ===== *)
theory Lower
  imports Jsonl_Match Expr_Lower
begin

text \<open>Recognition and compilation of hot loops (\<open>stone_vm/lower.rs\<close>): a \<open>for\<close> statement becomes a
  loop plan, a plan becomes a function of the generic loop language with one operation.\<close>

section \<open>Generic loop operations\<close>

record string_field =
  sf_field :: string
  sf_strip :: bool
  sf_lower :: bool

fun match_record_string_field_expr :: "string \<Rightarrow> expr \<Rightarrow> string_field option" where
  "match_record_string_field_expr item (ESubscript receiver index) = do {
     guard (receiver = EName item);
     f \<leftarrow> dest_string index;
     Some \<lparr> sf_field = f, sf_strip = False, sf_lower = False \<rparr> }"
| "match_record_string_field_expr item (EMethodCall receiver method_name positional named) = do {
     guard (positional = [] \<and> (method_name = ''strip'' \<or> method_name = ''lower''));
     f \<leftarrow> match_record_string_field_expr item receiver;
     Some (if method_name = ''strip'' then f\<lparr> sf_strip := True \<rparr> else f\<lparr> sf_lower := True \<rparr>) }"
| "match_record_string_field_expr item _ = None"

text \<open>A counter update of one map by an integer literal: the common part of two recognisers. The
  result is the key name, the map and the addend.\<close>

definition match_count_if :: "expr \<Rightarrow> stmt list \<Rightarrow> stmt list \<Rightarrow> (string \<times> string \<times> i64) option" where
  "match_count_if condition then_branch else_branch = do {
     update \<leftarrow> match_fused_map_update_if condition then_branch else_branch;
     guard (fi_append_list update = None);
     count \<leftarrow> dest_one (fi_updates update);
     guard (fi_contains_map update = fu_map_name count);
     t \<leftarrow> dest_int (fu_addend count);
     value \<leftarrow> parse_i64_ok t;
     Some (fi_key_name update, fu_map_name count, value) }"

definition lower_generic_record_field_count :: "string \<Rightarrow> stmt list \<Rightarrow> generic_loop_op option" where
  "lower_generic_record_field_count item body = do {
     (assign_stmt, count_stmt) \<leftarrow> dest_two body;
     (key_local, value) \<leftarrow> dest_assign_name assign_stmt;
     f \<leftarrow> match_record_string_field_expr item value;
     (condition, then_branch, else_branch) \<leftarrow> dest_if count_stmt;
     (key_name, map_name, addend) \<leftarrow> match_count_if condition then_branch else_branch;
     guard (key_name = key_local);
     Some (GMapAddRecordStringField map_name item (sf_field f) (sf_strip f) (sf_lower f) addend) }"

definition lower_generic_count_if ::
  "string \<Rightarrow> expr \<Rightarrow> stmt list \<Rightarrow> stmt list \<Rightarrow> generic_loop_op option" where
  "lower_generic_count_if item condition then_branch else_branch = do {
     (key_name, map_name, addend) \<leftarrow> match_count_if condition then_branch else_branch;
     guard (key_name = item);
     Some (GMapAddI64Const map_name item addend) }"

definition lower_generic_list_append ::
  "string \<Rightarrow> expr \<Rightarrow> string \<Rightarrow> expr list \<Rightarrow> generic_loop_op option" where
  "lower_generic_list_append item receiver method_name positional = do {
     guard (method_name = ''append'' \<and> positional = [EName item]);
     l \<leftarrow> dest_name receiver;
     Some (GListAppend l item) }"

definition lower_generic_parse_add_assign :: "string \<Rightarrow> string \<Rightarrow> expr \<Rightarrow> generic_loop_op option" where
  "lower_generic_parse_add_assign x item value = do {
     (name, positional, named) \<leftarrow> dest_call value;
     guard (named = [] \<and> positional = [EName item]);
     (if name = ''int'' then Some (GAddAssignParsedInt x item)
      else if name = ''float'' then Some (GAddAssignParsedFloat x item) else None) }"

definition matches_add_self_item :: "string \<Rightarrow> string \<Rightarrow> expr \<Rightarrow> expr \<Rightarrow> bool" where
  "matches_add_self_item x item left right \<longleftrightarrow>
     left = EName x \<and> right = EName item \<or> left = EName item \<and> right = EName x"

text \<open>The condition \<open>not (item in list)\<close>, as the name of the list.\<close>

definition match_item_not_in :: "string \<Rightarrow> expr \<Rightarrow> string option" where
  "match_item_not_in item condition = (case condition of
     ENot inner \<Rightarrow> do {
       (left, ops, comparators) \<leftarrow> dest_compare inner;
       guard (ops = [CIn]);
       e \<leftarrow> dest_one comparators;
       l \<leftarrow> dest_name e;
       guard (left = EName item);
       Some l }
   | _ \<Rightarrow> None)"

fun lower_generic_loop_stmt :: "string \<Rightarrow> stmt \<Rightarrow> generic_loop_op option" where
  "lower_generic_loop_stmt item (SIf condition then_branch else_branch) =
     or_else
       (if else_branch \<noteq> [] then None
        else case match_item_not_in item condition of
          None \<Rightarrow> None
        | Some l \<Rightarrow> (case then_branch of
            [s] \<Rightarrow> (case lower_generic_loop_stmt item s of
                Some (GListAppend append_list it) \<Rightarrow>
                  if append_list = l then Some (GListAppendUnique append_list it) else None
              | _ \<Rightarrow> None)
          | _ \<Rightarrow> None))
       (lower_generic_count_if item condition then_branch else_branch)"
| "lower_generic_loop_stmt item (SExpr e) = do {
     (receiver, method_name, positional, _) \<leftarrow> dest_method_call e;
     lower_generic_list_append item receiver method_name positional }"
| "lower_generic_loop_stmt item (SAugAssign t op value) = do {
     x \<leftarrow> dest_target_name t;
     guard (op = AugAdd);
     (if value = EName item then Some (GAddAssign x item)
      else lower_generic_parse_add_assign x item value) }"
| "lower_generic_loop_stmt item (SAssign t value) = do {
     x \<leftarrow> dest_target_name t;
     (left, right) \<leftarrow> dest_add value;
     guard (matches_add_self_item x item left right);
     Some (GAddAssign x item) }"
| "lower_generic_loop_stmt item _ = None"

section \<open>Loop plans\<close>

definition call_with_args :: "string \<Rightarrow> expr \<Rightarrow> bool" where
  "call_with_args f e = (case dest_call e of
     None \<Rightarrow> False | Some (name, positional, named) \<Rightarrow> name = f \<and> positional \<noteq> [] \<and> named = [])"

definition generic_iter :: "expr \<Rightarrow> generic_loop_iter option" where
  "generic_iter e = (case e of
     EList _ \<Rightarrow> Some MaterializedList
   | ETuple _ \<Rightarrow> Some MaterializedList
   | EName _ \<Rightarrow> Some MaterializedList
   | EMethodCall _ method_name positional _ \<Rightarrow>
       if method_name = ''splitlines'' \<and> positional = [] then Some OpenSplitlines else None
   | _ \<Rightarrow>
       if call_with_args ''range'' e then Some RangeIter
       else if call_with_args ''read_jsonl'' e then Some ReadJsonl
       else if call_with_args ''read_csv'' e then Some ReadCsv
       else None)"

definition match_generic_jsonl_aggregation_body :: "string \<Rightarrow> stmt list \<Rightarrow> json_body option" where
  "match_generic_jsonl_aggregation_body row_name body =
     or_else (match_hot_jsonl_aggregation_body row_name body) (do {
       s \<leftarrow> vec_get body 0;
       (x, value) \<leftarrow> dest_assign_name s;
       (receiver, index) \<leftarrow> dest_subscript value;
       guard (receiver = EName row_name);
       f \<leftarrow> dest_string index;
       plan \<leftarrow> match_hot_jsonl_aggregation_body row_name (drop 1 body);
       guard (jb_user_name plan = x \<and> jb_user_key plan = f);
       Some plan })"

definition match_outer_jsonl_file_loop_body :: "string \<Rightarrow> stmt list \<Rightarrow> outer_jsonl_body option" where
  "match_outer_jsonl_file_loop_body file_target body = do {
     (rows_stmt, row_loop) \<leftarrow> dest_two body;
     (rows_name, value) \<leftarrow> dest_assign_name rows_stmt;
     (name, positional, named) \<leftarrow> dest_call value;
     guard (name = ''read_jsonl'' \<and> named = []);
     path_expr \<leftarrow> dest_one positional;
     guard (matches_record_field_access file_target ''path'' path_expr);
     (targets, iter, row_body) \<leftarrow> dest_for row_loop;
     row_target \<leftarrow> dest_one targets;
     guard (iter = EName rows_name);
     plan \<leftarrow> match_generic_jsonl_aggregation_body row_target row_body;
     Some \<lparr> oj_row_target = row_target, oj_body = plan \<rparr> }"

definition try_lower_hot_loop :: "string list \<Rightarrow> expr \<Rightarrow> stmt list \<Rightarrow> hot_loop_plan option" where
  "try_lower_hot_loop targets iter body = do {
     target \<leftarrow> dest_one targets;
     if call_with_args ''read_jsonl'' iter then
       (let ops = lower_prefix_ops target body
        in if ops = [] then None
           else Some \<lparr> hp_target = target, hp_iter = HotReadJsonl, hp_ops = ops,
                       hp_body_start = length ops \<rparr>)
     else do {
       (record_target, body_start) \<leftarrow> lower_json_loads_line_prefix target body;
       Some \<lparr> hp_target = record_target, hp_iter = HotJsonlTextLines target, hp_ops = [],
              hp_body_start = body_start \<rparr> } }"

definition lower_generic_op :: "string \<Rightarrow> stmt list \<Rightarrow> generic_loop_op option" where
  "lower_generic_op target body =
     or_else (lower_generic_record_field_count target body)
    (or_else (do { s \<leftarrow> dest_one body; lower_generic_loop_stmt target s })
             (if body \<noteq> [] then Some (GExprBody body) else None))"

text \<open>When a line loop starts with the decoding prefix but its rest is no aggregation, lowering goes on
  to the single operation; the slice behind the prefix always exists.\<close>

definition try_lower_generic_loop :: "string list \<Rightarrow> expr \<Rightarrow> stmt list \<Rightarrow> generic_loop_plan option" where
  "try_lower_generic_loop targets iter_expr body = do {
     target \<leftarrow> dest_one targets;
     iter \<leftarrow> generic_iter iter_expr;
     let rows_plan = (if iter = ReadJsonl \<or> iter = MaterializedList
       then match_generic_jsonl_aggregation_body target body else None);
     let lines_plan = (if iter = OpenSplitlines \<or> iter = MaterializedList
       then do { (record_target, body_start) \<leftarrow> lower_json_loads_line_prefix target body;
                 match_hot_jsonl_aggregation_body record_target (drop body_start body) }
       else None);
     (case or_else rows_plan lines_plan of
        Some plan \<Rightarrow> Some \<lparr> gp_target = target, gp_iter = iter, gp_ops = [GJsonlAggregation plan] \<rparr>
      | None \<Rightarrow> do {
          op \<leftarrow> lower_generic_op target body;
          Some \<lparr> gp_target = target, gp_iter = iter, gp_ops = [op] \<rparr> }) }"

definition loop_op_item :: "generic_loop_op \<Rightarrow> string option" where
  "loop_op_item op = (case op of
     GAddAssign _ item \<Rightarrow> Some item
   | GAddAssignParsedInt _ item \<Rightarrow> Some item
   | GAddAssignParsedFloat _ item \<Rightarrow> Some item
   | GMapAddI64Const _ key _ \<Rightarrow> Some key
   | GMapAddRecordStringField _ item _ _ _ _ \<Rightarrow> Some item
   | GListAppend _ item \<Rightarrow> Some item
   | GListAppendUnique _ item \<Rightarrow> Some item
   | GJsonlAggregation _ \<Rightarrow> None
   | GExprBody _ \<Rightarrow> None)"

definition generic_loop_compile_miss_reason :: "generic_loop_plan \<Rightarrow> string" where
  "generic_loop_compile_miss_reason plan = (case dest_one (gp_ops plan) of
     None \<Rightarrow> ''generic_loop_multi_op''
   | Some op \<Rightarrow> (case op of
       GJsonlAggregation _ \<Rightarrow> ''jsonl_aggregation_wrong_input''
     | GExprBody body \<Rightarrow>
         if match_outer_jsonl_file_loop_body (gp_target plan) body \<noteq> None then ''outer_jsonl_file_loop''
         else ''unsupported_expr_body''
     | _ \<Rightarrow> if loop_op_item op \<noteq> Some (gp_target plan) then ''loop_target_mismatch''
            else ''unsupported_body_stmt''))"

section \<open>Compilation\<close>

definition loop_ir_iterator_adapter :: "generic_loop_plan \<Rightarrow> iterator_adapter" where
  "loop_ir_iterator_adapter plan = (case gp_iter plan of
     OpenSplitlines \<Rightarrow> (case gp_ops plan of [GJsonlAggregation _] \<Rightarrow> JsonlRows True | _ \<Rightarrow> TextLines)
   | ReadJsonl \<Rightarrow> JsonlRows False
   | ReadCsv \<Rightarrow> CsvRows
   | RangeIter \<Rightarrow> RangeValues
   | MaterializedList \<Rightarrow> MaterializedValues)"

text \<open>The operation with the local names, the registers, the constants and the label of the path.\<close>

definition compile_loop_op ::
  "string \<Rightarrow> generic_loop_op \<Rightarrow> (vm_op \<times> string list \<times> nat \<times> vm_const list \<times> string) option" where
  "compile_loop_op target op = (case op of
     GAddAssign x item \<Rightarrow> do {
       guard (item = target);
       let (i, ls) = generic_vm_local [] x;
       Some (VAddAssign i, ls, 0, [], ''add_assign'') }
   | GAddAssignParsedInt x item \<Rightarrow> do {
       guard (item = target);
       let (i, ls) = generic_vm_local [] x;
       Some (VAddAssignParsed i ParseInt, ls, 0, [], ''add_assign_parsed_int'') }
   | GAddAssignParsedFloat x item \<Rightarrow> do {
       guard (item = target);
       let (i, ls) = generic_vm_local [] x;
       Some (VAddAssignParsed i ParseFloat, ls, 0, [], ''add_assign_parsed_float'') }
   | GMapAddI64Const map_name key value \<Rightarrow> do {
       guard (key = target);
       let (i, ls) = generic_vm_local [] map_name;
       Some (VMapAddI64Const i value, ls, 0, [], ''map_add_i64_const'') }
   | GMapAddRecordStringField map_name item f strip lower value \<Rightarrow> do {
       guard (item = target);
       let (i, ls) = generic_vm_local [] map_name;
       Some (VMapAddRecordStringField i f strip lower value, ls, 0, [],
             ''map_add_i64_const_record_string_field'') }
   | GListAppend l item \<Rightarrow> do {
       guard (item = target);
       let (i, ls) = generic_vm_local [] l;
       Some (VListAppend i False, ls, 0, [], ''list_append'') }
   | GListAppendUnique l item \<Rightarrow> do {
       guard (item = target);
       let (i, ls) = generic_vm_local [] l;
       Some (VListAppend i True, ls, 0, [], ''list_append_unique'') }
   | GJsonlAggregation _ \<Rightarrow> None
   | GExprBody body \<Rightarrow> do {
       (code, ls) \<leftarrow> compile_generic_vm_expr_body target body [];
       Some (VExprBody code, ls, eb_registers code, eb_constants code, ''expr_body'') })"

definition compile_generic_vm_function :: "generic_loop_plan \<Rightarrow> loop_function option" where
  "compile_generic_vm_function plan = do {
     op \<leftarrow> dest_one (gp_ops plan);
     (vm, ls, registers, constants, path) \<leftarrow> compile_loop_op (gp_target plan) op;
     Some \<lparr>
       lf_iter = gp_iter plan,
       lf_adapter = loop_ir_iterator_adapter plan,
       lf_locals = ls,
       lf_registers = registers,
       lf_constants = constants,
       lf_blocks = [\<lparr> lb_ops = [vm], lb_terminator = LoopReturn \<rparr>],
       lf_entry = 0,
       lf_snapshots = [\<lparr> ls_locals = [0..<length ls], ls_boundary = LoopEntry \<rparr>,
                       \<lparr> ls_locals = [0..<length ls], ls_boundary = IterationEnd \<rparr>],
       lf_lowering_path = path,
       lf_ops = [vm] \<rparr> }"

end
