(* ===== verification/Optimize.thy ===== *)
theory Optimize
  imports Loop_Types
begin

text \<open>The optimizer of the loop languages (\<open>stone_vm/optimize.rs\<close>): canonicalisation of a field
  counter that does not clean its key, and the selection of a fused kernel by matching the code.\<close>

definition canonicalize_loop_ir_ops :: "vm_op list \<Rightarrow> vm_op list option" where
  "canonicalize_loop_ir_ops ops = (case ops of
     [VMapAddRecordStringField m f strip lower addend] \<Rightarrow>
       if strip \<or> lower then None else Some [VMapAddRecordField m f addend]
   | _ \<Rightarrow> None)"

definition replace_ops :: "vm_op list \<Rightarrow> vm_op list \<Rightarrow> loop_block \<Rightarrow> loop_block" where
  "replace_ops old_ops new_ops b = (if lb_ops b = old_ops then b\<lparr> lb_ops := new_ops \<rparr> else b)"

definition canonicalize_loop_ir :: "loop_function \<Rightarrow> loop_function \<times> optimization_diagnostic list" where
  "canonicalize_loop_ir f = (case canonicalize_loop_ir_ops (lf_ops f) of
     None \<Rightarrow> (f, [])
   | Some canonical_ops \<Rightarrow>
       if canonical_ops = lf_ops f then (f, [])
       else (f\<lparr> lf_ops := canonical_ops,
                 lf_blocks := List.map (replace_ops (lf_ops f) canonical_ops) (lf_blocks f) \<rparr>,
             [Canonicalized]))"

definition match_loop_ir_subgraph :: "loop_function \<Rightarrow> subgraph_kind option" where
  "match_loop_ir_subgraph f = do {
     block \<leftarrow> vec_get (lf_blocks f) (lf_entry f);
     guard (lb_terminator block = LoopReturn \<and> lb_ops block = lf_ops f);
     op \<leftarrow> (case lb_ops block of [op] \<Rightarrow> Some op | _ \<Rightarrow> None);
     (case op of
        VMapAddI64Const _ _ \<Rightarrow> Some SgMapAddI64Const
      | VMapAddRecordField _ _ _ \<Rightarrow> Some SgMapAddI64Const
      | VMapAddRecordStringField _ _ _ _ _ \<Rightarrow> Some SgMapAddI64Const
      | VListAppend _ _ \<Rightarrow> Some SgListAppend
      | _ \<Rightarrow> None) }"

definition kernel_of_subgraph :: "subgraph_kind \<Rightarrow> fused_kernel" where
  "kernel_of_subgraph k = (case k of
     SgMapAddI64Const \<Rightarrow> KMapAddI64Const
   | SgListAppend \<Rightarrow> KListAppend
   | SgJsonlAggregation \<Rightarrow> KJsonlAggregation)"

definition optimize_loop_ir :: "loop_function \<Rightarrow> loop_optimization" where
  "optimize_loop_ir f = (case canonicalize_loop_ir f of (g, diags) \<Rightarrow>
     let subgraph = match_loop_ir_subgraph g
     in \<lparr> lo_function = g, lo_kernel = map_option kernel_of_subgraph subgraph,
          lo_subgraph = subgraph, lo_diagnostics = diags \<rparr>)"

definition select_loop_ir_fused_kernel :: "loop_function \<Rightarrow> fused_kernel option" where
  "select_loop_ir_fused_kernel f = lo_kernel (optimize_loop_ir f)"

section \<open>The JSONL language\<close>

definition match_user_op :: "stone_op \<Rightarrow> (reg \<times> bool) option" where
  "match_user_op op = (case op of
     JsonGetStrDefault dst object key dflt \<Rightarrow>
       if dst = 1 \<and> object = 0 \<and> key = 0 \<and> dflt = 1 then Some (1, True) else None
   | JsonGetValue dst object key \<Rightarrow>
       if dst = 1 \<and> object = 0 \<and> key = 0 then Some (1, False) else None
   | _ \<Rightarrow> None)"

definition match_amount_op :: "stone_op \<Rightarrow> (bool \<times> f64) option" where
  "match_amount_op op = (case op of
     JsonGetF64Default dst object key d \<Rightarrow>
       if dst = 2 \<and> object = 0 \<and> key = 2 then Some (True, d) else None
   | JsonGetF64Required dst object key \<Rightarrow>
       if dst = 2 \<and> object = 0 \<and> key = 2 then Some (False, f64_zero) else None
   | _ \<Rightarrow> None)"

definition match_items_op :: "stone_op \<Rightarrow> (bool \<times> i64) option" where
  "match_items_op op = (case op of
     JsonGetI64Default dst object key d \<Rightarrow>
       if dst = 3 \<and> object = 0 \<and> key = 3 then Some (True, d) else None
   | JsonGetI64Required dst object key \<Rightarrow>
       if dst = 3 \<and> object = 0 \<and> key = 3 then Some (False, 0) else None
   | _ \<Rightarrow> None)"

definition match_tags_op :: "stone_op \<Rightarrow> bool option" where
  "match_tags_op op = (case op of
     JsonGetArrayDefault dst object key \<Rightarrow>
       if dst = 4 \<and> object = 0 \<and> key = 4 then Some True else None
   | JsonGetArrayRequired dst object key \<Rightarrow>
       if dst = 4 \<and> object = 0 \<and> key = 4 then Some False else None
   | _ \<Rightarrow> None)"

definition match_amounts_add :: "reg \<Rightarrow> stone_op \<Rightarrow> acc_id option option" where
  "match_amounts_add user op = (case op of
     MapAddF64 m key value app \<Rightarrow>
       if m = 0 \<and> value = 2 \<and> key = user \<and> app \<in> {None, Some 2} then Some app else None
   | _ \<Rightarrow> None)"

definition match_items_add :: "reg \<Rightarrow> stone_op \<Rightarrow> unit option" where
  "match_items_add user op = (case op of
     MapAddI64 m key value app \<Rightarrow> guard (m = 1 \<and> value = 3 \<and> app = None \<and> key = user)
   | _ \<Rightarrow> None)"

definition match_tag_add :: "stone_op list \<Rightarrow> acc_id option option" where
  "match_tag_add ops = (case ops of
     [MapAddI64Const m key value app] \<Rightarrow>
       if m = 3 \<and> key = 5 \<and> value = 1 then Some app else None
   | _ \<Rightarrow> None)"

definition match_hot_jsonl_aggregation_ir_subgraph :: "stone_function \<Rightarrow> jsonl_subgraph option" where
  "match_hot_jsonl_aggregation_ir_subgraph f = (case sf_blocks f of
     [row_block, tag_block, done_block] \<Rightarrow> (case sb_ops row_block of
       [user_op, amount_op, items_op, tags_op, amounts_add, items_add] \<Rightarrow> do {
         (user_reg, user_has_default) \<leftarrow> match_user_op user_op;
         (amount_has_default, amount_default) \<leftarrow> match_amount_op amount_op;
         (items_has_default, items_default) \<leftarrow> match_items_op items_op;
         tags_default_empty \<leftarrow> match_tags_op tags_op;
         users_append \<leftarrow> match_amounts_add user_reg amounts_add;
         match_items_add user_reg items_add;
         guard (sb_terminator row_block = JsonEachStrArray 4 5 1 2);
         tags_append \<leftarrow> match_tag_add (sb_ops tag_block);
         guard (tags_append \<in> {None, Some 4} \<and> sb_terminator tag_block = Jump 0
           \<and> sb_terminator done_block = Return \<and> sb_ops done_block = []);
         Some \<lparr> js_user_has_default = user_has_default,
                js_amount_has_default = amount_has_default, js_amount_default = amount_default,
                js_items_has_default = items_has_default, js_items_default = items_default,
                js_tags_default_empty = tags_default_empty,
                js_users_append = users_append, js_tags_append = tags_append \<rparr> }
     | _ \<Rightarrow> None)
   | _ \<Rightarrow> None)"

definition match_hot_jsonl_ir_subgraph :: "stone_function \<Rightarrow> subgraph_kind option" where
  "match_hot_jsonl_ir_subgraph f =
     map_option (\<lambda>_. SgJsonlAggregation) (match_hot_jsonl_aggregation_ir_subgraph f)"

definition optimize_stone_loop_ir :: "stone_function \<Rightarrow> stone_optimization" where
  "optimize_stone_loop_ir f = (let subgraph = match_hot_jsonl_ir_subgraph f
     in \<lparr> so_function = f,
          so_kernel = Option.bind subgraph (\<lambda>k. case k of
             SgJsonlAggregation \<Rightarrow> Some KJsonlAggregation | _ \<Rightarrow> None),
          so_subgraph = subgraph, so_diagnostics = [] \<rparr>)"

definition select_hot_jsonl_fused_kernel_from_ir :: "stone_function \<Rightarrow> fused_kernel option" where
  "select_hot_jsonl_fused_kernel_from_ir f = so_kernel (optimize_stone_loop_ir f)"

end
