(* ===== verification/Jsonl_Lower.thy ===== *)
theory Jsonl_Lower
  imports Lower Optimize
begin

text \<open>Compilation of a JSONL aggregation to block code, and the trace plan read back from the code
  (\<open>stone_vm/lower.rs\<close>).\<close>

definition opt_name :: "string option \<Rightarrow> string" where
  "opt_name x = (case x of None \<Rightarrow> '''' | Some s \<Rightarrow> s)"

text \<open>The keys, maps and lists that the operations of a body carry, when they have the one shape the
  compiler knows.\<close>

record body_shape =
  bs_user_key :: string
  bs_amount_key :: string
  bs_items_key :: string
  bs_tags_key :: string
  bs_amounts_map :: string
  bs_users_list :: "string option"
  bs_items_map :: string
  bs_tag_counts_map :: string
  bs_tags_list :: "string option"

definition match_get_fields :: "json_body_op \<Rightarrow> (string \<times> string \<times> string \<times> string) option" where
  "match_get_fields op = (case op of JGetFields u a i t \<Rightarrow> Some (u, a, i, t) | _ \<Rightarrow> None)"

definition match_map_add_f64 :: "json_body_op \<Rightarrow> (string \<times> string option) option" where
  "match_map_add_f64 op = (case op of
     JMapAddF64 m k v l \<Rightarrow> if k = SlotUser \<and> v = SlotAmount then Some (m, l) else None | _ \<Rightarrow> None)"

definition match_map_add_i64 :: "json_body_op \<Rightarrow> string option" where
  "match_map_add_i64 op = (case op of
     JMapAddI64 m k v \<Rightarrow> if k = SlotUser \<and> v = SlotItems then Some m else None | _ \<Rightarrow> None)"

definition match_for_each :: "json_body_op \<Rightarrow> json_body_op list option" where
  "match_for_each op = (case op of
     JForEachString a i b \<Rightarrow> if a = SlotTags \<and> i = SlotTag then Some b else None | _ \<Rightarrow> None)"

definition match_tag_const :: "json_body_op \<Rightarrow> (string \<times> string option) option" where
  "match_tag_const op = (case op of
     JMapAddI64Const m k v l \<Rightarrow> if k = SlotTag \<and> v = 1 then Some (m, l) else None | _ \<Rightarrow> None)"

definition match_body_ops :: "json_body_op list \<Rightarrow> body_shape option" where
  "match_body_ops ops = (case ops of
     [fields_op, amounts_op, items_op, each_op] \<Rightarrow> do {
       (user_key, amount_key, items_key, tags_key) \<leftarrow> match_get_fields fields_op;
       (amounts_map, users_list) \<leftarrow> match_map_add_f64 amounts_op;
       items_map \<leftarrow> match_map_add_i64 items_op;
       tag_ops \<leftarrow> match_for_each each_op;
       tag_op \<leftarrow> dest_one tag_ops;
       (tag_counts_map, tags_list) \<leftarrow> match_tag_const tag_op;
       Some \<lparr> bs_user_key = user_key, bs_amount_key = amount_key, bs_items_key = items_key,
              bs_tags_key = tags_key, bs_amounts_map = amounts_map, bs_users_list = users_list,
              bs_items_map = items_map, bs_tag_counts_map = tag_counts_map,
              bs_tags_list = tags_list \<rparr> }
   | _ \<Rightarrow> None)"

definition shape_agrees :: "body_shape \<Rightarrow> json_body \<Rightarrow> bool" where
  "shape_agrees s p \<longleftrightarrow>
     bs_user_key s = jb_user_key p \<and> bs_amount_key s = jb_amount_key p
   \<and> bs_items_key s = jb_items_key p \<and> bs_tags_key s = jb_tags_key p
   \<and> bs_amounts_map s = jb_amounts_map p \<and> bs_items_map s = jb_items_map p
   \<and> bs_users_list s = jb_users_list p \<and> bs_tag_counts_map s = jb_tag_counts_map p
   \<and> bs_tags_list s = jb_tags_list p"

definition row_block_ops :: "body_shape \<Rightarrow> json_body \<Rightarrow> stone_op list" where
  "row_block_ops s p =
    [if jb_user_has_default p then JsonGetStrDefault 1 0 0 1 else JsonGetValue 1 0 0,
     if jb_amount_has_default p then JsonGetF64Default 2 0 2 (jb_amount_default p)
     else JsonGetF64Required 2 0 2,
     if jb_items_has_default p then JsonGetI64Default 3 0 3 (jb_items_default p)
     else JsonGetI64Required 3 0 3,
     if jb_tags_default_empty p then JsonGetArrayDefault 4 0 4 else JsonGetArrayRequired 4 0 4,
     MapAddF64 0 1 2 (map_option (\<lambda>_. 2) (bs_users_list s)),
     MapAddI64 1 1 3 None]"

definition acc_specs :: "body_shape \<Rightarrow> acc_spec list" where
  "acc_specs s =
    [\<lparr> as_name = bs_amounts_map s, as_kind = F64Map \<rparr>,
     \<lparr> as_name = bs_items_map s, as_kind = I64Map \<rparr>,
     \<lparr> as_name = opt_name (bs_users_list s), as_kind = StringList \<rparr>,
     \<lparr> as_name = bs_tag_counts_map s, as_kind = I64Map \<rparr>,
     \<lparr> as_name = opt_name (bs_tags_list s), as_kind = StringList \<rparr>]"

definition compile_hot_jsonl_vm_function :: "json_body \<Rightarrow> stone_function option" where
  "compile_hot_jsonl_vm_function p = do {
     s \<leftarrow> match_body_ops (jb_ops p);
     guard (shape_agrees s p);
     Some \<lparr>
       sf_adapter = None,
       sf_registers = 6,
       sf_constants = [KString (bs_user_key s), KString (jb_user_default p), KString (bs_amount_key s),
         KString (bs_items_key s), KString (bs_tags_key s), KEmptyList],
       sf_locals = [jb_user_name p],
       sf_accumulators = acc_specs s,
       sf_guards = [
         \<lparr> sg_kind = InputIsJsonObject 0, sg_snapshot = 0 \<rparr>,
         \<lparr> sg_kind = AccumulatorShape 0 F64Map, sg_snapshot = 0 \<rparr>,
         \<lparr> sg_kind = AccumulatorShape 1 I64Map, sg_snapshot = 0 \<rparr>,
         \<lparr> sg_kind = AccumulatorShape 2 StringList, sg_snapshot = 0 \<rparr>,
         \<lparr> sg_kind = AccumulatorShape 3 I64Map, sg_snapshot = 0 \<rparr>,
         \<lparr> sg_kind = AccumulatorShape 4 StringList, sg_snapshot = 0 \<rparr>],
       sf_snapshots = [\<lparr> ss_locals = [(0, 1)],
         ss_accumulators = [(bs_amounts_map s, 0), (bs_items_map s, 1), (opt_name (bs_users_list s), 2),
           (bs_tag_counts_map s, 3), (opt_name (bs_tags_list s), 4)] \<rparr>],
       sf_blocks = [
         \<lparr> sb_ops = row_block_ops s p, sb_terminator = JsonEachStrArray 4 5 1 2 \<rparr>,
         \<lparr> sb_ops = [MapAddI64Const 3 5 1 (map_option (\<lambda>_. 4) (bs_tags_list s))],
           sb_terminator = Jump 0 \<rparr>,
         \<lparr> sb_ops = [], sb_terminator = Return \<rparr>],
       sf_entry = 0 \<rparr> }"

definition compile_hot_jsonl_loop_ir_function :: "generic_loop_plan \<Rightarrow> stone_function option" where
  "compile_hot_jsonl_loop_ir_function plan = (case gp_ops plan of
     [GJsonlAggregation body] \<Rightarrow>
       map_option (\<lambda>f. f\<lparr> sf_adapter := Some (loop_ir_iterator_adapter plan) \<rparr>)
         (compile_hot_jsonl_vm_function body)
   | _ \<Rightarrow> None)"

section \<open>Trace plans\<close>

definition match_constants ::
  "stone_const list \<Rightarrow> (string \<times> string \<times> string \<times> string \<times> string) option" where
  "match_constants cs = (case cs of
     [KString a, KString b, KString c, KString d, KString e, KEmptyList] \<Rightarrow> Some (a, b, c, d, e)
   | _ \<Rightarrow> None)"

definition match_accumulators ::
  "acc_spec list \<Rightarrow> (string \<times> string \<times> string \<times> string \<times> string) option" where
  "match_accumulators as = (if List.map as_kind as = [F64Map, I64Map, StringList, I64Map, StringList]
     then Some (as_name (as ! 0), as_name (as ! 1), as_name (as ! 2), as_name (as ! 3), as_name (as ! 4))
     else None)"

definition compile_hot_jsonl_trace_plan_from_ir :: "stone_function \<Rightarrow> trace_plan option" where
  "compile_hot_jsonl_trace_plan_from_ir f = do {
     (user_key, user_default, amount_key, items_key, tags_key) \<leftarrow> match_constants (sf_constants f);
     user_name \<leftarrow> dest_one (sf_locals f);
     (amounts_map, items_map, users_list, tag_counts_map, tags_list) \<leftarrow>
       match_accumulators (sf_accumulators f);
     g \<leftarrow> match_hot_jsonl_aggregation_ir_subgraph f;
     Some \<lparr>
       tp_user_name = user_name, tp_user_key = user_key,
       tp_user_has_default = js_user_has_default g, tp_user_default = user_default,
       tp_amounts_map = amounts_map, tp_amount_key = amount_key,
       tp_amount_has_default = js_amount_has_default g, tp_amount_default = js_amount_default g,
       tp_items_map = items_map, tp_items_key = items_key,
       tp_items_has_default = js_items_has_default g, tp_items_default = js_items_default g,
       tp_users_list = map_option (\<lambda>_. users_list) (js_users_append g),
       tp_tags_key = tags_key, tp_tags_default_empty = js_tags_default_empty g,
       tp_tag_counts_map = tag_counts_map,
       tp_tags_list = map_option (\<lambda>_. tags_list) (js_tags_append g) \<rparr> }"

definition compile_hot_jsonl_trace_plan :: "json_body \<Rightarrow> trace_plan option" where
  "compile_hot_jsonl_trace_plan p =
     Option.bind (compile_hot_jsonl_vm_function p) compile_hot_jsonl_trace_plan_from_ir"

definition validate_hot_jsonl_native_prefix :: "hot_loop_plan \<Rightarrow> json_body \<Rightarrow> bool" where
  "validate_hot_jsonl_native_prefix prefix p = (case hp_ops prefix of
     [HGetValue target key] \<Rightarrow> target = jb_user_name p \<and> key = jb_user_key p
   | HGetStrDefault ut uk ud # HGetF64Default at ak ad # HGetI64Default it ik id' # rest \<Rightarrow>
       ut = jb_user_name p \<and> uk = jb_user_key p \<and> ud = jb_user_default p
     \<and> at \<noteq> ut \<and> ak = jb_amount_key p \<and> f64_eq ad (jb_amount_default p)
     \<and> it \<noteq> ut \<and> ik = jb_items_key p \<and> id' = jb_items_default p
     \<and> (case rest of
          [HGetArrayDefault _ tk] \<Rightarrow> tk = jb_tags_key p
        | [] \<Rightarrow> jb_tags_default_empty p
        | _ \<Rightarrow> False)
   | _ \<Rightarrow> False)"

end
