(* ===== verification/Jsonl_Vm.thy ===== *)
theory Jsonl_Vm
  imports Json_Scan Jsonl_Lower
begin

text \<open>The two executors of a JSONL aggregation on one row (\<open>stone_vm/jsonl_runtime.rs\<close>): the native
  trace body, which extracts the four fields in one pass, and the machine for the block code. A
  \<open>HashMap\<close> is an association list; \<open>+=\<close> on \<open>i64\<close> wraps around, as in a release build.\<close>

section \<open>Rows and accumulators\<close>

record row_slice =
  hr_bytes :: string
  hr_source :: string
  hr_line :: nat

record row_fields =
  rf_user :: string
  rf_amount :: f64
  rf_items :: i64
  rf_tags :: string

record accumulators =
  ac_amounts :: "(string \<times> f64) list"
  ac_items :: "(string \<times> i64) list"
  ac_users :: "string list"
  ac_tag_counts :: "(string \<times> i64) list"
  ac_tags :: "string list"

definition no_key :: "string \<Rightarrow> shell_error" where
  "no_key key = stone_error ''json view'' ''record has no key `{}`'' [MStr key]"

section \<open>Decoding a field\<close>

definition decode_string :: "serde \<Rightarrow> row_slice \<Rightarrow> nat \<times> nat \<Rightarrow> string res" where
  "decode_string sj row r = at_line (hr_source row) (hr_line row)
     (json_string_bytes_to_cow sj (trim_json_bytes (range_of (hr_bytes row) r)))"

definition decode_f64 :: "row_slice \<Rightarrow> nat \<times> nat \<Rightarrow> f64 res" where
  "decode_f64 row r = json_number_bytes_to_f64 (trim_json_bytes (range_of (hr_bytes row) r))
     (hr_source row) (hr_line row)"

definition decode_i64 :: "row_slice \<Rightarrow> nat \<times> nat \<Rightarrow> i64 res" where
  "decode_i64 row r = json_number_bytes_to_i64 (trim_json_bytes (range_of (hr_bytes row) r))
     (hr_source row) (hr_line row)"

definition decode_array :: "row_slice \<Rightarrow> nat \<times> nat \<Rightarrow> string res" where
  "decode_array row r = (let text = trim_json_bytes (range_of (hr_bytes row) r)
     in if starts_with ''['' text then Inr text else Inl (view_error ''expected JSON array''))"

text \<open>The value of a field that may be missing.\<close>

definition field_or :: "'a res \<Rightarrow> (nat \<times> nat \<Rightarrow> 'a res) \<Rightarrow> (nat \<times> nat) option \<Rightarrow> 'a res" where
  "field_or missing decode found = (case found of None \<Rightarrow> missing | Some r \<Rightarrow> decode r)"

lemma field_or_simps [simp]:
  "field_or missing decode None = missing"
  "field_or missing decode (Some r) = decode r"
  by (simp_all add: field_or_def)

definition hot_jsonl_row_get_string_default :: "serde \<Rightarrow> row_slice \<Rightarrow> string \<Rightarrow> string \<Rightarrow> string res" where
  "hot_jsonl_row_get_string_default sj row key dflt =
     and_then (find_top_level_json_field sj (hr_bytes row) key) (field_or (Inr dflt) (decode_string sj row))"

definition hot_jsonl_row_get_string_required :: "serde \<Rightarrow> row_slice \<Rightarrow> string \<Rightarrow> string res" where
  "hot_jsonl_row_get_string_required sj row key =
     and_then (find_top_level_json_field sj (hr_bytes row) key) (field_or (Inl (no_key key)) (decode_string sj row))"

definition hot_jsonl_row_get_f64_default :: "serde \<Rightarrow> row_slice \<Rightarrow> string \<Rightarrow> f64 \<Rightarrow> f64 res" where
  "hot_jsonl_row_get_f64_default sj row key dflt =
     and_then (find_top_level_json_field sj (hr_bytes row) key) (field_or (Inr dflt) (decode_f64 row))"

definition hot_jsonl_row_get_f64_required :: "serde \<Rightarrow> row_slice \<Rightarrow> string \<Rightarrow> f64 res" where
  "hot_jsonl_row_get_f64_required sj row key =
     and_then (find_top_level_json_field sj (hr_bytes row) key) (field_or (Inl (no_key key)) (decode_f64 row))"

definition hot_jsonl_row_get_i64_default :: "serde \<Rightarrow> row_slice \<Rightarrow> string \<Rightarrow> i64 \<Rightarrow> i64 res" where
  "hot_jsonl_row_get_i64_default sj row key dflt =
     and_then (find_top_level_json_field sj (hr_bytes row) key) (field_or (Inr dflt) (decode_i64 row))"

definition hot_jsonl_row_get_i64_required :: "serde \<Rightarrow> row_slice \<Rightarrow> string \<Rightarrow> i64 res" where
  "hot_jsonl_row_get_i64_required sj row key =
     and_then (find_top_level_json_field sj (hr_bytes row) key) (field_or (Inl (no_key key)) (decode_i64 row))"

definition hot_jsonl_row_get_array_default :: "serde \<Rightarrow> row_slice \<Rightarrow> string \<Rightarrow> string res" where
  "hot_jsonl_row_get_array_default sj row key =
     and_then (find_top_level_json_field sj (hr_bytes row) key) (field_or (Inr ''[]'') (decode_array row))"

definition hot_jsonl_row_get_array_required :: "serde \<Rightarrow> row_slice \<Rightarrow> string \<Rightarrow> string res" where
  "hot_jsonl_row_get_array_required sj row key =
     and_then (find_top_level_json_field sj (hr_bytes row) key) (field_or (Inl (no_key key)) (decode_array row))"

lemmas row_get_defs = hot_jsonl_row_get_string_default_def hot_jsonl_row_get_string_required_def
  hot_jsonl_row_get_f64_default_def hot_jsonl_row_get_f64_required_def
  hot_jsonl_row_get_i64_default_def hot_jsonl_row_get_i64_required_def
  hot_jsonl_row_get_array_default_def hot_jsonl_row_get_array_required_def

section \<open>All fields in one pass\<close>

record field_ranges =
  fr_user :: "(nat \<times> nat) option"
  fr_amount :: "(nat \<times> nat) option"
  fr_items :: "(nat \<times> nat) option"
  fr_tags :: "(nat \<times> nat) option"

text \<open>A field goes to the first of the four that has its key and is still empty.\<close>

definition pick_field ::
  "serde \<Rightarrow> string \<Rightarrow> string \<times> string \<times> string \<times> string \<Rightarrow> nat \<times> nat \<Rightarrow> nat \<times> nat \<Rightarrow> field_ranges \<Rightarrow> field_ranges res" where
  "pick_field sj bytes keys kr vr s = (case keys of (user_key, amount_key, items_key, tags_key) \<Rightarrow> Inr (
     if fr_user s = None \<and> json_key_matches sj bytes kr user_key then s\<lparr> fr_user := Some vr \<rparr>
     else if fr_amount s = None \<and> json_key_matches sj bytes kr amount_key then s\<lparr> fr_amount := Some vr \<rparr>
     else if fr_items s = None \<and> json_key_matches sj bytes kr items_key then s\<lparr> fr_items := Some vr \<rparr>
     else if fr_tags s = None \<and> json_key_matches sj bytes kr tags_key then s\<lparr> fr_tags := Some vr \<rparr>
     else s))"

definition no_ranges :: field_ranges where
  "no_ranges = \<lparr> fr_user = None, fr_amount = None, fr_items = None, fr_tags = None \<rparr>"

definition decode_fields :: "serde \<Rightarrow> row_slice \<Rightarrow> trace_plan \<Rightarrow> string \<times> string \<times> string \<times> string
    \<Rightarrow> field_ranges \<Rightarrow> row_fields res" where
  "decode_fields sj row plan keys s = (case keys of (user_key, amount_key, items_key, tags_key) \<Rightarrow>
     and_then (field_or (if tp_user_has_default plan then Inr (tp_user_default plan) else Inl (no_key user_key))
       (decode_string sj row) (fr_user s)) (\<lambda>user.
     and_then (field_or (if tp_amount_has_default plan then Inr (tp_amount_default plan) else Inl (no_key amount_key))
       (decode_f64 row) (fr_amount s)) (\<lambda>amount.
     and_then (field_or (if tp_items_has_default plan then Inr (tp_items_default plan) else Inl (no_key items_key))
       (decode_i64 row) (fr_items s)) (\<lambda>items.
     and_then (field_or (if tp_tags_default_empty plan then Inr ''[]'' else Inl (no_key tags_key))
       (decode_array row) (fr_tags s)) (\<lambda>tags.
     Inr \<lparr> rf_user = user, rf_amount = amount, rf_items = items, rf_tags = tags \<rparr>)))))"

definition json_object_view_get_hot_jsonl_row_fields ::
  "serde \<Rightarrow> row_slice \<Rightarrow> trace_plan \<Rightarrow> string \<times> string \<times> string \<times> string \<Rightarrow> row_fields res" where
  "json_object_view_get_hot_jsonl_row_fields sj row plan keys =
     and_then (json_object_for_each_field (hr_bytes row) (pick_field sj (hr_bytes row) keys) no_ranges)
       (decode_fields sj row plan keys)"

definition string_item :: "serde \<Rightarrow> string \<Rightarrow> (string \<Rightarrow> 's \<Rightarrow> 's res) \<Rightarrow> nat \<times> nat \<Rightarrow> 's \<Rightarrow> 's res" where
  "string_item sj bytes f r s =
     and_then (case json_string_bytes_to_cow sj (trim_json_bytes (range_of bytes r)) of
        Inl e \<Rightarrow> Inl (stone_error ''json view'' ''{}'' [MStr e]) | Inr t \<Rightarrow> Inr t) (\<lambda>t. f t s)"

definition hot_jsonl_string_array_for_each_string ::
  "serde \<Rightarrow> string \<Rightarrow> (string \<Rightarrow> 's \<Rightarrow> 's res) \<Rightarrow> 's \<Rightarrow> 's res" where
  "hot_jsonl_string_array_for_each_string sj bytes f s =
     json_array_bytes_for_each_range bytes (string_item sj bytes f) s"

section \<open>The native trace body\<close>

definition add_user :: "row_fields \<Rightarrow> accumulators \<Rightarrow> accumulators res" where
  "add_user fs acc = (case map_of (ac_amounts acc) (rf_user fs) of
     Some old \<Rightarrow>
       and_then (ok_or (stone_error ''hot loop'' ''user item accumulator is inconsistent'' [])
         (map_of (ac_items acc) (rf_user fs))) (\<lambda>n.
       Inr (acc\<lparr> ac_amounts := AList.update (rf_user fs) (f64_add old (rf_amount fs)) (ac_amounts acc),
                 ac_items := AList.update (rf_user fs) (n + rf_items fs) (ac_items acc) \<rparr>))
   | None \<Rightarrow> Inr (acc\<lparr> ac_amounts := AList.update (rf_user fs) (rf_amount fs) (ac_amounts acc),
                       ac_items := AList.update (rf_user fs) (rf_items fs) (ac_items acc),
                       ac_users := ac_users acc @ [rf_user fs] \<rparr>))"

definition count_tag :: "string \<Rightarrow> accumulators \<Rightarrow> accumulators res" where
  "count_tag tag acc = Inr (case map_of (ac_tag_counts acc) tag of
     Some n \<Rightarrow> acc\<lparr> ac_tag_counts := AList.update tag (n + 1) (ac_tag_counts acc) \<rparr>
   | None \<Rightarrow> acc\<lparr> ac_tag_counts := AList.update tag 1 (ac_tag_counts acc), ac_tags := ac_tags acc @ [tag] \<rparr>)"

definition plan_keys :: "trace_plan \<Rightarrow> string \<times> string \<times> string \<times> string" where
  "plan_keys plan = (tp_user_key plan, tp_amount_key plan, tp_items_key plan, tp_tags_key plan)"

definition execute_hot_jsonl_native_trace_body ::
  "serde \<Rightarrow> trace_plan \<Rightarrow> row_slice \<Rightarrow> accumulators \<Rightarrow> accumulators res" where
  "execute_hot_jsonl_native_trace_body sj plan row acc =
     and_then (json_object_view_get_hot_jsonl_row_fields sj row plan (plan_keys plan)) (\<lambda>fs.
     and_then (add_user fs acc) (\<lambda>acc'.
     hot_jsonl_string_array_for_each_string sj (rf_tags fs) count_tag acc'))"

section \<open>The machine\<close>

datatype slot = SEmpty | SRow row_slice | SString string | SF64 f64 | SI64 i64 | SArray string

datatype vm_exit = Completed | Fallback snapshot_id

definition vm_error :: "string \<Rightarrow> shell_error" where
  "vm_error msg = stone_error ''hot loop'' msg []"

definition set_stone_vm_slot :: "slot list \<Rightarrow> reg \<Rightarrow> slot \<Rightarrow> slot list res" where
  "set_stone_vm_slot slots r v =
     (if r < length slots then Inr (slots[r := v]) else Inl (vm_error ''VM register is out of range''))"

definition stone_vm_row :: "slot list \<Rightarrow> reg \<Rightarrow> row_slice res" where
  "stone_vm_row slots r = (case vec_get slots r of
     Some (SRow row) \<Rightarrow> Inr row | _ \<Rightarrow> Inl (vm_error ''VM register is not a row''))"

definition stone_vm_string :: "slot list \<Rightarrow> reg \<Rightarrow> string res" where
  "stone_vm_string slots r = (case vec_get slots r of
     Some (SString s) \<Rightarrow> Inr s | _ \<Rightarrow> Inl (vm_error ''VM register is not a string''))"

definition stone_vm_f64 :: "slot list \<Rightarrow> reg \<Rightarrow> f64 res" where
  "stone_vm_f64 slots r = (case vec_get slots r of
     Some (SF64 x) \<Rightarrow> Inr x | _ \<Rightarrow> Inl (vm_error ''VM register is not an f64''))"

definition stone_vm_i64 :: "slot list \<Rightarrow> reg \<Rightarrow> i64 res" where
  "stone_vm_i64 slots r = (case vec_get slots r of
     Some (SI64 n) \<Rightarrow> Inr n | _ \<Rightarrow> Inl (vm_error ''VM register is not an i64''))"

definition stone_vm_string_array :: "slot list \<Rightarrow> reg \<Rightarrow> string res" where
  "stone_vm_string_array slots r = (case vec_get slots r of
     Some (SArray s) \<Rightarrow> Inr s | _ \<Rightarrow> Inl (vm_error ''VM register is not a string array''))"

definition stone_const_string :: "stone_function \<Rightarrow> const_id \<Rightarrow> string res" where
  "stone_const_string f c = (case vec_get (sf_constants f) c of
     Some (KString s) \<Rightarrow> Inr s | _ \<Rightarrow> Inl (vm_error ''VM constant is not a string''))"

definition execute_hot_jsonl_vm_map_add_f64 ::
  "acc_id \<Rightarrow> reg \<Rightarrow> reg \<Rightarrow> acc_id option \<Rightarrow> slot list \<Rightarrow> accumulators \<Rightarrow> accumulators res" where
  "execute_hot_jsonl_vm_map_add_f64 m key v app slots acc =
     (if m \<noteq> 0 \<or> app \<notin> {None, Some 2} then Inl (vm_error ''unsupported VM f64 map add'')
      else and_then (stone_vm_f64 slots v) (\<lambda>x.
        and_then (stone_vm_string slots key) (\<lambda>k.
        Inr (case map_of (ac_amounts acc) k of
          Some old \<Rightarrow> acc\<lparr> ac_amounts := AList.update k (f64_add old x) (ac_amounts acc) \<rparr>
        | None \<Rightarrow> acc\<lparr> ac_amounts := AList.update k x (ac_amounts acc),
                      ac_users := if app \<noteq> None then ac_users acc @ [k] else ac_users acc \<rparr>))))"

definition execute_hot_jsonl_vm_map_add_i64 ::
  "acc_id \<Rightarrow> reg \<Rightarrow> reg \<Rightarrow> slot list \<Rightarrow> accumulators \<Rightarrow> accumulators res" where
  "execute_hot_jsonl_vm_map_add_i64 m key v slots acc =
     (if m \<noteq> 1 then Inl (vm_error ''unsupported VM i64 map add'')
      else and_then (stone_vm_i64 slots v) (\<lambda>n.
        and_then (stone_vm_string slots key) (\<lambda>k.
        Inr (acc\<lparr> ac_items := AList.update k (case map_of (ac_items acc) k of
            Some old \<Rightarrow> old + n | None \<Rightarrow> n) (ac_items acc) \<rparr>))))"

definition execute_hot_jsonl_vm_map_add_i64_const ::
  "acc_id \<Rightarrow> reg \<Rightarrow> i64 \<Rightarrow> acc_id option \<Rightarrow> slot list \<Rightarrow> accumulators \<Rightarrow> accumulators res" where
  "execute_hot_jsonl_vm_map_add_i64_const m key n app slots acc =
     (if m \<noteq> 3 \<or> app \<notin> {None, Some 4} then Inl (vm_error ''unsupported VM i64 const map add'')
      else and_then (stone_vm_string slots key) (\<lambda>k.
        Inr (case map_of (ac_tag_counts acc) k of
          Some old \<Rightarrow> acc\<lparr> ac_tag_counts := AList.update k (old + n) (ac_tag_counts acc) \<rparr>
        | None \<Rightarrow> acc\<lparr> ac_tag_counts := AList.update k n (ac_tag_counts acc),
                      ac_tags := if app \<noteq> None then ac_tags acc @ [k] else ac_tags acc \<rparr>)))"

text \<open>A load: the row in a register, a key from the constants, and the value into a register.\<close>

definition load_field :: "stone_function \<Rightarrow> reg \<Rightarrow> reg \<Rightarrow> const_id \<Rightarrow> ('a \<Rightarrow> slot) \<Rightarrow> (row_slice \<Rightarrow> string \<Rightarrow> 'a res)
    \<Rightarrow> slot list \<Rightarrow> slot list res" where
  "load_field f dst object key wrap getter slots =
     and_then (stone_vm_row slots object) (\<lambda>row.
     and_then (stone_const_string f key) (\<lambda>k.
     and_then (getter row k) (\<lambda>v. set_stone_vm_slot slots dst (wrap v))))"

definition exec_stone_op :: "serde \<Rightarrow> stone_function \<Rightarrow> stone_op \<Rightarrow> slot list \<times> accumulators
    \<Rightarrow> (slot list \<times> accumulators) res" where
  "exec_stone_op sj f op s = (case s of (slots, acc) \<Rightarrow>
     let loads = (\<lambda>r. and_then r (\<lambda>slots'. Inr (slots', acc)));
         adds = (\<lambda>r. and_then r (\<lambda>acc'. Inr (slots, acc')))
     in case op of
       JsonGetStrDefault dst object key dflt \<Rightarrow> loads (load_field f dst object key SString
         (\<lambda>row k. and_then (stone_const_string f dflt) (\<lambda>d. hot_jsonl_row_get_string_default sj row k d)) slots)
     | JsonGetValue dst object key \<Rightarrow> loads (load_field f dst object key SString
         (hot_jsonl_row_get_string_required sj) slots)
     | JsonGetF64Default dst object key d \<Rightarrow> loads (load_field f dst object key SF64
         (\<lambda>row k. hot_jsonl_row_get_f64_default sj row k d) slots)
     | JsonGetF64Required dst object key \<Rightarrow> loads (load_field f dst object key SF64
         (hot_jsonl_row_get_f64_required sj) slots)
     | JsonGetI64Default dst object key d \<Rightarrow> loads (load_field f dst object key SI64
         (\<lambda>row k. hot_jsonl_row_get_i64_default sj row k d) slots)
     | JsonGetI64Required dst object key \<Rightarrow> loads (load_field f dst object key SI64
         (hot_jsonl_row_get_i64_required sj) slots)
     | JsonGetArrayDefault dst object key \<Rightarrow> loads (load_field f dst object key SArray
         (hot_jsonl_row_get_array_default sj) slots)
     | JsonGetArrayRequired dst object key \<Rightarrow> loads (load_field f dst object key SArray
         (hot_jsonl_row_get_array_required sj) slots)
     | MapAddF64 m key v app \<Rightarrow> adds (execute_hot_jsonl_vm_map_add_f64 m key v app slots acc)
     | MapAddI64 m key v app \<Rightarrow>
         if app \<noteq> None then Inl (vm_error ''unsupported i64 append map op'')
         else adds (execute_hot_jsonl_vm_map_add_i64 m key v slots acc)
     | MapAddI64Const m key n app \<Rightarrow> adds (execute_hot_jsonl_vm_map_add_i64_const m key n app slots acc))"

text \<open>No operation asks for a fallback, so the operations of a block end with the new state or an error.\<close>

definition execute_hot_jsonl_vm_ops :: "serde \<Rightarrow> stone_function \<Rightarrow> stone_op list \<Rightarrow> slot list \<times> accumulators
    \<Rightarrow> (slot list \<times> accumulators) res" where
  "execute_hot_jsonl_vm_ops sj f ops s = fold_ok (exec_stone_op sj f) ops s"

text \<open>The body of a string loop; once a fallback is requested the remaining strings are skipped.\<close>

definition string_loop_step :: "serde \<Rightarrow> stone_function \<Rightarrow> block_id \<Rightarrow> reg \<Rightarrow> block_id \<Rightarrow> string
    \<Rightarrow> (slot list \<times> accumulators) \<times> snapshot_id option
    \<Rightarrow> ((slot list \<times> accumulators) \<times> snapshot_id option) res" where
  "string_loop_step sj f block item body tag s = (case s of ((slots, acc), fallback) \<Rightarrow>
     if fallback \<noteq> None then Inr s
     else and_then (set_stone_vm_slot slots item (SString tag)) (\<lambda>slots'.
       and_then (ok_or (vm_error ''VM tag block is out of range'') (vec_get (sf_blocks f) body)) (\<lambda>b.
       and_then (execute_hot_jsonl_vm_ops sj f (sb_ops b) (slots', acc)) (\<lambda>s'.
       Inr (s', if sb_terminator b = Jump block then None else Some 0)))))"

partial_function (option) run_blocks :: "serde \<Rightarrow> stone_function \<Rightarrow> block_id \<Rightarrow> slot list \<times> accumulators
    \<Rightarrow> (vm_exit \<times> accumulators) res option" where
  "run_blocks sj f block s = (case vec_get (sf_blocks f) block of
     None \<Rightarrow> Some (Inl (vm_error ''VM block is out of range''))
   | Some b \<Rightarrow> (case execute_hot_jsonl_vm_ops sj f (sb_ops b) s of
       Inl e \<Rightarrow> Some (Inl e)
     | Inr s' \<Rightarrow> (case sb_terminator b of
         JsonEachStrArray array item body done_block \<Rightarrow>
           (case and_then (stone_vm_string_array (fst s') array) (\<lambda>tags.
              hot_jsonl_string_array_for_each_string sj tags (string_loop_step sj f block item body) (s', None)) of
             Inl e \<Rightarrow> Some (Inl e)
           | Inr t \<Rightarrow> (case snd t of
               Some snapshot \<Rightarrow> Some (Inr (Fallback snapshot, snd (fst t)))
             | None \<Rightarrow> run_blocks sj f done_block (fst t)))
       | Jump target \<Rightarrow> run_blocks sj f target s'
       | Return \<Rightarrow> Some (Inr (Completed, snd s')))))"

definition validate_hot_jsonl_vm_accumulators :: "stone_function \<Rightarrow> unit res" where
  "validate_hot_jsonl_vm_accumulators f =
     (if length (sf_accumulators f) \<noteq> 5 then Inl (vm_error ''unsupported VM accumulator layout'')
      else if List.map as_kind (sf_accumulators f) \<noteq> [F64Map, I64Map, StringList, I64Map, StringList]
      then Inl (vm_error ''unsupported VM accumulator kind'') else Inr ())"

definition execute_hot_jsonl_vm_function :: "serde \<Rightarrow> stone_function \<Rightarrow> row_slice \<Rightarrow> accumulators
    \<Rightarrow> (vm_exit \<times> accumulators) res option" where
  "execute_hot_jsonl_vm_function sj f row acc =
     (case and_then (validate_hot_jsonl_vm_accumulators f) (\<lambda>_.
        set_stone_vm_slot (replicate (sf_registers f) SEmpty) 0 (SRow row)) of
       Inl e \<Rightarrow> Some (Inl e)
     | Inr slots \<Rightarrow> run_blocks sj f (sf_entry f) (slots, acc))"

end
