(* ===== verification/Interp.thy ===== *)
theory Interp
  imports Expr_Lower State
begin

unbundle bit_operations_syntax

text \<open>The register machine of the hot loop compiler (\<open>stone_vm/interp.rs\<close>). A loop either finishes,
  misses (the caller falls back to the evaluator; the reason is recorded) or fails with an error.\<close>

datatype 'a vm_outcome = Done 'a | Miss string

type_synonym 'a vm_res = "'a vm_outcome res"

definition vm_then :: "'a vm_res \<Rightarrow> ('a \<Rightarrow> 'b vm_res) \<Rightarrow> 'b vm_res" where
  "vm_then r f = and_then r (\<lambda>out. case out of Done x \<Rightarrow> f x | Miss reason \<Rightarrow> Inr (Miss reason))"

lemma vm_then_simps [simp]:
  "vm_then (Inl e) f = Inl e"
  "vm_then (Inr (Done x)) f = f x"
  "vm_then (Inr (Miss m)) f = Inr (Miss m)"
  by (simp_all add: vm_then_def)

lemma vm_res_cases [case_names Error Done Miss]:
  obtains e where "r = Inl e" | x where "r = Inr (Done x)" | m where "r = Inr (Miss m)"
  by (metis sum.exhaust vm_outcome.exhaust)

lemma vm_then_assoc: "vm_then (vm_then r f) g = vm_then r (\<lambda>x. vm_then (f x) g)"
  by (cases r rule: vm_res_cases) simp_all

definition vm_done :: "'a res \<Rightarrow> 'a vm_res" where
  "vm_done r = and_then r (\<lambda>x. Inr (Done x))"

lemma vm_done_simps [simp]: "vm_done (Inl e) = Inl e" "vm_done (Inr x) = Inr (Done x)"
  by (simp_all add: vm_done_def)

definition vm_need :: "string \<Rightarrow> 'a option \<Rightarrow> 'a vm_res" where
  "vm_need reason x = (case x of None \<Rightarrow> Inr (Miss reason) | Some y \<Rightarrow> Inr (Done y))"

lemma vm_need_simps [simp]:
  "vm_need m None = Inr (Miss m)" "vm_need m (Some x) = Inr (Done x)"
  by (simp_all add: vm_need_def)

section \<open>Numbers\<close>

datatype vm_number = NumI64 i64 | NumF64 f64

definition generic_vm_number_from_runtime :: "rvalue \<Rightarrow> vm_number option" where
  "generic_vm_number_from_runtime v = (case v of
     RNu n \<Rightarrow> (case n of VInt i \<Rightarrow> Some (NumI64 i) | VFloat x \<Rightarrow> Some (NumF64 x) | _ \<Rightarrow> None)
   | _ \<Rightarrow> None)"

definition generic_vm_add_number :: "vm_number \<Rightarrow> vm_number \<Rightarrow> vm_number res" where
  "generic_vm_add_number left right = (case left of
     NumI64 a \<Rightarrow> (case right of
         NumI64 b \<Rightarrow> and_then (ok_or (stone_error ''hot loop'' ''integer addition overflow'' [])
            (checked_add a b)) (\<lambda>c. Inr (NumI64 c))
       | NumF64 b \<Rightarrow> Inr (NumF64 (f64_add (i64_as_f64 a) b)))
   | NumF64 a \<Rightarrow> (case right of
         NumF64 b \<Rightarrow> Inr (NumF64 (f64_add a b))
       | NumI64 b \<Rightarrow> Inr (NumF64 (f64_add a (i64_as_f64 b)))))"

definition generic_vm_number_to_value :: "vm_number \<Rightarrow> nu_value" where
  "generic_vm_number_to_value n = (case n of NumI64 i \<Rightarrow> VInt i | NumF64 x \<Rightarrow> VFloat x)"

definition generic_vm_record_field_value ::
  "(json_view \<Rightarrow> string \<Rightarrow> rvalue option res) \<Rightarrow> rvalue \<Rightarrow> string \<Rightarrow> rvalue option res" where
  "generic_vm_record_field_value view_get v field = (case v of
     RNu n \<Rightarrow> (case nu_record n of
         Some r \<Rightarrow> Inr (map_option RNu (record_get r field))
       | None \<Rightarrow> Inr None)
   | RJsonObjectView view \<Rightarrow> view_get view field
   | _ \<Rightarrow> Inr None)"

section \<open>Fused loops\<close>

text \<open>Each loop carries its accumulator and the last value it consumed.\<close>

primrec add_assign_loop :: "rvalue list \<Rightarrow> vm_number \<times> rvalue option \<Rightarrow> (vm_number \<times> rvalue option) vm_res" where
  "add_assign_loop [] acc = Inr (Done acc)"
| "add_assign_loop (v # vs) acc =
     vm_then (vm_need ''unsupported_expr'' (generic_vm_number_from_runtime v)) (\<lambda>n.
     vm_then (vm_done (generic_vm_add_number (fst acc) n)) (\<lambda>a. add_assign_loop vs (a, Some v)))"

definition execute_generic_vm_add_assign ::
  "rvalue \<Rightarrow> rvalue list \<Rightarrow> (rvalue \<times> rvalue option) vm_res" where
  "execute_generic_vm_add_assign local_value vs =
     vm_then (vm_need ''unsupported_expr'' (generic_vm_number_from_runtime local_value)) (\<lambda>a.
     vm_then (add_assign_loop vs (a, None)) (\<lambda>r.
     Inr (Done (RNu (generic_vm_number_to_value (fst r)), snd r))))"

definition parse_line :: "parse_number \<Rightarrow> string \<Rightarrow> vm_number option" where
  "parse_line p line = (case p of
     ParseInt \<Rightarrow> (case parse_i64 (trim line) of Inl _ \<Rightarrow> None | Inr i \<Rightarrow> Some (NumI64 i))
   | ParseFloat \<Rightarrow> (case parse_f64 (trim line) of Inl _ \<Rightarrow> None | Inr x \<Rightarrow> Some (NumF64 x)))"

primrec text_parse_loop ::
  "parse_number \<Rightarrow> string list \<Rightarrow> vm_number \<times> rvalue option \<Rightarrow> (vm_number \<times> rvalue option) vm_res" where
  "text_parse_loop p [] acc = Inr (Done acc)"
| "text_parse_loop p (line # ls) acc =
     vm_then (vm_need ''unsupported_expr'' (parse_line p line)) (\<lambda>n.
     vm_then (vm_done (generic_vm_add_number (fst acc) n)) (\<lambda>a.
     text_parse_loop p ls (a, Some (RNu (VString line)))))"

definition execute_generic_vm_text_parse_add_assign ::
  "rvalue \<Rightarrow> string list \<Rightarrow> parse_number \<Rightarrow> (rvalue \<times> rvalue option) vm_res" where
  "execute_generic_vm_text_parse_add_assign local_value lines p =
     vm_then (vm_need ''unsupported_expr'' (generic_vm_number_from_runtime local_value)) (\<lambda>a.
     vm_then (text_parse_loop p lines (a, None)) (\<lambda>r.
     Inr (Done (RNu (generic_vm_number_to_value (fst r)), snd r))))"

type_synonym counts = "(string \<times> i64) list"

definition add_count :: "string \<Rightarrow> i64 \<Rightarrow> counts \<Rightarrow> counts res" where
  "add_count key addend counts =
     and_then (ok_or (stone_error ''hot loop'' ''integer addition overflow'' [])
       (checked_add (case map_of counts key of None \<Rightarrow> 0 | Some t \<Rightarrow> t) addend)) (\<lambda>t.
     Inr (AList.update key t counts))"

definition ok_to_option :: "'a res \<Rightarrow> 'a option" where
  "ok_to_option r = (case r of Inl _ \<Rightarrow> None | Inr x \<Rightarrow> Some x)"

primrec map_add_loop ::
  "(rvalue \<Rightarrow> string vm_res) \<Rightarrow> i64 \<Rightarrow> rvalue list \<Rightarrow> counts \<times> rvalue option \<Rightarrow> (counts \<times> rvalue option) vm_res" where
  "map_add_loop key_of addend [] acc = Inr (Done acc)"
| "map_add_loop key_of addend (v # vs) acc =
     vm_then (key_of v) (\<lambda>key.
     vm_then (vm_done (add_count key addend (fst acc))) (\<lambda>counts.
     map_add_loop key_of addend vs (counts, Some v)))"

definition nu_part :: "rvalue \<Rightarrow> nu_value option" where
  "nu_part v = (case v of RNu n \<Rightarrow> Some n | _ \<Rightarrow> None)"

definition value_key :: "(nu_value \<Rightarrow> string res) \<Rightarrow> rvalue \<Rightarrow> string vm_res" where
  "value_key value_to_key v =
     vm_then (vm_need ''unsupported_expr'' (nu_part v)) (\<lambda>n.
     vm_need ''unsupported_expr'' (ok_to_option (value_to_key n)))"

definition execute_generic_vm_map_add_i64_const ::
  "counts \<Rightarrow> i64 \<Rightarrow> rvalue list \<Rightarrow> (nu_value \<Rightarrow> string res) \<Rightarrow> (counts \<times> rvalue option) vm_res" where
  "execute_generic_vm_map_add_i64_const counts addend vs value_to_key =
     map_add_loop (value_key value_to_key) addend vs (counts, None)"

definition field_key ::
  "(json_view \<Rightarrow> string \<Rightarrow> rvalue option res) \<Rightarrow> string \<Rightarrow> (rvalue \<Rightarrow> string res) \<Rightarrow> rvalue \<Rightarrow> string vm_res" where
  "field_key view_get field value_to_key v =
     vm_then (vm_done (generic_vm_record_field_value view_get v field)) (\<lambda>found.
     vm_then (vm_need ''unsupported_expr'' found) (\<lambda>field_value.
     vm_need ''unsupported_expr'' (ok_to_option (value_to_key field_value))))"

definition execute_generic_vm_map_add_i64_const_record_field ::
  "(json_view \<Rightarrow> string \<Rightarrow> rvalue option res) \<Rightarrow> counts \<Rightarrow> string \<Rightarrow> i64 \<Rightarrow> rvalue list
    \<Rightarrow> (rvalue \<Rightarrow> string res) \<Rightarrow> (counts \<times> rvalue option) vm_res" where
  "execute_generic_vm_map_add_i64_const_record_field view_get counts field addend vs value_to_key =
     map_add_loop (field_key view_get field value_to_key) addend vs (counts, None)"

text \<open>\<open>to_lowercase\<close> is the Unicode case mapping of the standard library, a parameter.\<close>

definition clean_key :: "(string \<Rightarrow> string) \<Rightarrow> bool \<Rightarrow> bool \<Rightarrow> string \<Rightarrow> string" where
  "clean_key to_lowercase strip lower key =
     (let key = (if strip then trim key else key) in if lower then to_lowercase key else key)"

definition string_field_key ::
  "(json_view \<Rightarrow> string \<Rightarrow> rvalue option res) \<Rightarrow> (string \<Rightarrow> string) \<Rightarrow> string \<Rightarrow> bool \<Rightarrow> bool
    \<Rightarrow> (rvalue \<Rightarrow> string res) \<Rightarrow> rvalue \<Rightarrow> string vm_res" where
  "string_field_key view_get to_lowercase field strip lower value_to_key v =
     vm_then (field_key view_get field value_to_key v) (\<lambda>key.
     Inr (Done (clean_key to_lowercase strip lower key)))"

definition execute_generic_vm_map_add_i64_const_record_string_field ::
  "(json_view \<Rightarrow> string \<Rightarrow> rvalue option res) \<Rightarrow> (string \<Rightarrow> string) \<Rightarrow> counts \<Rightarrow> string \<Rightarrow> bool \<Rightarrow> bool
    \<Rightarrow> i64 \<Rightarrow> rvalue list \<Rightarrow> (rvalue \<Rightarrow> string res) \<Rightarrow> (counts \<times> rvalue option) vm_res" where
  "execute_generic_vm_map_add_i64_const_record_string_field view_get to_lowercase counts field strip
     lower addend vs value_to_key =
     map_add_loop (string_field_key view_get to_lowercase field strip lower value_to_key) addend vs
       (counts, None)"

primrec list_append_loop ::
  "bool \<Rightarrow> rvalue list \<Rightarrow> nu_value list \<times> rvalue option \<Rightarrow> (nu_value list \<times> rvalue option) vm_res" where
  "list_append_loop unique [] acc = Inr (Done acc)"
| "list_append_loop unique (v # vs) acc =
     vm_then (vm_need ''unsupported_expr'' (nu_part v)) (\<lambda>n.
     list_append_loop unique vs
       (if unique \<and> list_ex (\<lambda>item. values_equal item n) (fst acc) then fst acc else fst acc @ [n],
        Some (RNu n)))"

definition execute_generic_vm_list_append ::
  "rvalue \<Rightarrow> rvalue list \<Rightarrow> bool \<Rightarrow> (nu_value list \<times> rvalue option) vm_res" where
  "execute_generic_vm_list_append current vs unique =
     vm_then (vm_need ''unsupported_expr'' (Option.bind (nu_part current) nu_list)) (\<lambda>items.
     list_append_loop unique vs (items, None))"

section \<open>Register code\<close>

type_synonym slots = "i64 option list"

definition generic_vm_register_i64 :: "slots \<Rightarrow> nat \<Rightarrow> i64 res" where
  "generic_vm_register_i64 regs r = ok_or (stone_error ''hot loop'' ''VM register is unset'' [])
     (Option.bind (vec_get regs r) id)"

definition generic_vm_set_register :: "slots \<Rightarrow> nat \<Rightarrow> i64 \<Rightarrow> slots res" where
  "generic_vm_set_register regs r v = (if r < length regs then Inr (regs[r := Some v])
     else Inl (stone_error ''hot loop'' ''VM register is out of range'' []))"

definition generic_vm_store_i64_binop ::
  "slots \<Rightarrow> nat \<Rightarrow> nat \<Rightarrow> nat \<Rightarrow> string \<Rightarrow> (i64 \<Rightarrow> i64 \<Rightarrow> i64 option) \<Rightarrow> slots res" where
  "generic_vm_store_i64_binop regs dst lhs rhs context op =
     and_then (generic_vm_register_i64 regs lhs) (\<lambda>left.
     and_then (generic_vm_register_i64 regs rhs) (\<lambda>right.
     and_then (ok_or (stone_error context (''integer '' @ context @ '' overflow'') []) (op left right))
     (\<lambda>v. generic_vm_set_register regs dst v)))"

definition generic_vm_store_shift ::
  "slots \<Rightarrow> nat \<Rightarrow> nat \<Rightarrow> nat \<Rightarrow> string \<Rightarrow> (i64 \<Rightarrow> nat \<Rightarrow> i64 option) \<Rightarrow> slots res" where
  "generic_vm_store_shift regs dst lhs rhs context op =
     and_then (generic_vm_register_i64 regs lhs) (\<lambda>left.
     and_then (generic_vm_register_i64 regs rhs) (\<lambda>right.
     and_then (ok_or (stone_error context ''shift count must be non-negative'' []) (u32_of_i64 right)) (\<lambda>n.
     and_then (ok_or (stone_error context ''shift count is too large'' []) (op left n)) (\<lambda>v.
     generic_vm_set_register regs dst v))))"

text \<open>The bitwise operations read both registers, left first.\<close>

definition store_bitwise :: "slots \<Rightarrow> nat \<Rightarrow> nat \<Rightarrow> nat \<Rightarrow> (i64 \<Rightarrow> i64 \<Rightarrow> i64) \<Rightarrow> slots res" where
  "store_bitwise regs dst lhs rhs op =
     and_then (generic_vm_register_i64 regs lhs) (\<lambda>left.
     and_then (generic_vm_register_i64 regs rhs) (\<lambda>right.
     generic_vm_set_register regs dst (op left right)))"

definition store_division ::
  "slots \<Rightarrow> nat \<Rightarrow> nat \<Rightarrow> nat \<Rightarrow> shell_error \<Rightarrow> (i64 \<Rightarrow> i64 \<Rightarrow> i64 res) \<Rightarrow> slots res" where
  "store_division regs dst lhs rhs by_zero op =
     and_then (generic_vm_register_i64 regs lhs) (\<lambda>left.
     and_then (generic_vm_register_i64 regs rhs) (\<lambda>right.
     if right = 0 then Inl by_zero
     else and_then (op left right) (\<lambda>v. generic_vm_set_register regs dst v)))"

definition with_regs :: "slots \<Rightarrow> slots res \<Rightarrow> (slots \<times> slots) vm_res" where
  "with_regs locals r = vm_done (and_then r (\<lambda>regs. Inr (locals, regs)))"

definition exec_expr_op :: "vm_const list \<Rightarrow> expr_op \<Rightarrow> slots \<times> slots \<Rightarrow> (slots \<times> slots) vm_res" where
  "exec_expr_op constants op st = (case st of (locals, regs) \<Rightarrow> (case op of
     LoadLocal dst i \<Rightarrow>
       vm_then (vm_need ''unsupported_expr_name'' (Option.bind (vec_get locals i) id)) (\<lambda>v.
       with_regs locals (generic_vm_set_register regs dst v))
   | StoreLocal i src \<Rightarrow>
       vm_done (and_then (generic_vm_register_i64 regs src) (\<lambda>v.
         if i < length locals then Inr (locals[i := Some v], regs)
         else Inl (stone_error ''hot loop'' ''VM local is out of range'' [])))
   | LoadConst dst c \<Rightarrow> (case vec_get constants c of
         None \<Rightarrow> Inl (stone_error ''hot loop'' ''VM constant is out of range'' [])
       | Some (ConstI64 v) \<Rightarrow> with_regs locals (generic_vm_set_register regs dst v))
   | AddI64 dst lhs rhs \<Rightarrow> with_regs locals (generic_vm_store_i64_binop regs dst lhs rhs ''addition'' checked_add)
   | SubI64 dst lhs rhs \<Rightarrow> with_regs locals (generic_vm_store_i64_binop regs dst lhs rhs ''subtraction'' checked_sub)
   | MulI64 dst lhs rhs \<Rightarrow> with_regs locals (generic_vm_store_i64_binop regs dst lhs rhs ''multiplication'' checked_mul)
   | FloorDivI64 dst lhs rhs \<Rightarrow> with_regs locals (store_division regs dst lhs rhs
       (stone_error ''floor division'' ''division by zero'' []) python_floor_div_i64)
   | ModI64 dst lhs rhs \<Rightarrow> with_regs locals (store_division regs dst lhs rhs
       (stone_error ''modulo'' ''modulo by zero'' []) python_mod_i64)
   | BitAndI64 dst lhs rhs \<Rightarrow> with_regs locals (store_bitwise regs dst lhs rhs (AND))
   | BitOrI64 dst lhs rhs \<Rightarrow> with_regs locals (store_bitwise regs dst lhs rhs (OR))
   | BitXorI64 dst lhs rhs \<Rightarrow> with_regs locals (store_bitwise regs dst lhs rhs (XOR))
   | ShlI64 dst lhs rhs \<Rightarrow> with_regs locals (generic_vm_store_shift regs dst lhs rhs ''left shift'' checked_shl)
   | ShrI64 dst lhs rhs \<Rightarrow> with_regs locals (generic_vm_store_shift regs dst lhs rhs ''right shift'' checked_shr)
   | NegI64 dst src \<Rightarrow> with_regs locals (and_then (generic_vm_register_i64 regs src) (\<lambda>v.
       and_then (ok_or (stone_error ''unary minus'' ''integer negation overflow'' []) (checked_neg v)) (\<lambda>w.
       generic_vm_set_register regs dst w)))
   | BitNotI64 dst src \<Rightarrow> with_regs locals (and_then (generic_vm_register_i64 regs src) (\<lambda>v.
       generic_vm_set_register regs dst (NOT v)))))"

primrec execute_generic_vm_expr_ops ::
  "vm_const list \<Rightarrow> expr_op list \<Rightarrow> slots \<times> slots \<Rightarrow> (slots \<times> slots) vm_res" where
  "execute_generic_vm_expr_ops constants [] st = Inr (Done st)"
| "execute_generic_vm_expr_ops constants (op # ops) st =
     vm_then (exec_expr_op constants op st) (execute_generic_vm_expr_ops constants ops)"

text \<open>Every iteration puts the item into the first local and clears the registers.\<close>

primrec expr_body_loop ::
  "expr_body \<Rightarrow> rvalue list \<Rightarrow> slots \<times> rvalue option \<Rightarrow> (slots \<times> rvalue option) vm_res" where
  "expr_body_loop body [] acc = Inr (Done acc)"
| "expr_body_loop body (v # vs) acc =
     vm_then (vm_need ''unsupported_value_type'' (Option.bind (nu_part v) nu_int)) (\<lambda>i.
     if fst acc = [] then Inr (Miss ''unsupported_body_stmt'')
     else vm_then (execute_generic_vm_expr_ops (eb_constants body) (eb_ops body)
            ((fst acc)[0 := Some i], replicate (eb_registers body) None)) (\<lambda>st.
          expr_body_loop body vs (fst st, Some v)))"

definition execute_generic_vm_expr_body ::
  "expr_body \<Rightarrow> slots \<Rightarrow> rvalue list \<Rightarrow> (slots \<times> rvalue option) vm_res" where
  "execute_generic_vm_expr_body body locals vs = expr_body_loop body vs (locals, None)"

section \<open>Sequencing\<close>

lemma exec_append:
  "execute_generic_vm_expr_ops cs (xs @ ys) st
    = vm_then (execute_generic_vm_expr_ops cs xs st) (execute_generic_vm_expr_ops cs ys)"
proof (induction xs arbitrary: st)
  case (Cons op xs)
  then show ?case by (cases "exec_expr_op cs op st" rule: vm_res_cases) simp_all
qed simp

lemma nu_part_iff [dest_simps]: "nu_part v = Some n \<longleftrightarrow> v = RNu n"
  by (cases v) (auto simp: nu_part_def)

lemma nu_part_RNu [simp]: "nu_part (RNu n) = Some n"
  by (simp add: nu_part_def)

end
