(* ===== verification/Jsonl_Native.thy ===== *)
theory Jsonl_Native
  imports Hot_Diagnostics Jsonl_Vm Interp
begin

text \<open>The native execution of JSONL aggregations inside the evaluator (\<open>stone_vm/jsonl_runtime.rs\<close>): the
  accumulators are loaded from the locals of the task, every row runs through the trace body or the
  machine, and the snapshots of the block code are written back. The first entry of a bucket of a
  \<open>HashMap\<close> is not specified, so the order of its keys is a parameter.\<close>

section \<open>Records of accumulators\<close>

text \<open>The keys of the list come first, in its order, then the other keys in the order of the map.\<close>

definition native_entry :: "('v \<Rightarrow> nu_value) \<Rightarrow> (string \<times> 'v) list \<Rightarrow> string \<Rightarrow> (string \<times> nu_value) option" where
  "native_entry wrap m k = map_option (\<lambda>v. (k, wrap v)) (map_of m k)"

definition record_from_native_map ::
  "runtime \<Rightarrow> ('v \<Rightarrow> nu_value) \<Rightarrow> string list \<Rightarrow> (string \<times> 'v) list \<Rightarrow> (string \<times> nu_value) list" where
  "record_from_native_map rt wrap keys m = List.map_filter (native_entry wrap m) keys
     @ List.map_filter (\<lambda>k. if k \<in> set keys then None else native_entry wrap m k)
         (rt_hash_order rt (List.map fst m))"

definition f64_record_from_native_map :: "runtime \<Rightarrow> string list \<Rightarrow> (string \<times> f64) list \<Rightarrow> (string \<times> nu_value) list" where
  "f64_record_from_native_map rt = record_from_native_map rt VFloat"

definition i64_record_from_native_map :: "runtime \<Rightarrow> string list \<Rightarrow> counts \<Rightarrow> (string \<times> nu_value) list" where
  "i64_record_from_native_map rt = record_from_native_map rt VInt"

definition string_list_from_ordered_keys :: "string list \<Rightarrow> nu_value" where
  "string_list_from_ordered_keys keys = VList (List.map VString keys)"

definition nested_totals_value ::
  "string \<Rightarrow> (string \<times> f64) list \<Rightarrow> counts \<Rightarrow> string \<Rightarrow> string \<Rightarrow> nu_value option" where
  "nested_totals_value key amounts items amount_field items_field = do {
     amount \<leftarrow> map_of amounts key;
     n \<leftarrow> map_of items key;
     Some (VRecord [(amount_field, VFloat amount), (items_field, VInt n)]) }"

definition push_new_total :: "(string \<Rightarrow> nu_value option) \<Rightarrow> string list \<Rightarrow> string \<Rightarrow> (string \<times> nu_value) list
    \<Rightarrow> (string \<times> nu_value) list" where
  "push_new_total tot keys k r = (if k \<in> set keys \<or> record_get r k \<noteq> None then r
     else case tot k of None \<Rightarrow> r | Some v \<Rightarrow> r @ [(k, v)])"

definition nested_totals_record_from_native_maps ::
  "runtime \<Rightarrow> string list \<Rightarrow> (string \<times> f64) list \<Rightarrow> counts \<Rightarrow> string \<Rightarrow> string \<Rightarrow> (string \<times> nu_value) list" where
  "nested_totals_record_from_native_maps rt keys amounts items amount_field items_field = (
     let tot = (\<lambda>k. nested_totals_value k amounts items amount_field items_field)
     in fold (push_new_total tot keys)
          (rt_hash_order rt (List.map fst amounts) @ rt_hash_order rt (List.map fst items))
          (List.map_filter (\<lambda>k. map_option (Pair k) (tot k)) keys))"

section \<open>Loading\<close>

definition record_of_local :: "string \<Rightarrow> eval_state \<Rightarrow> (string \<times> nu_value) list res" where
  "record_of_local name st = (case get_local name st of
     None \<Rightarrow> Inl (unknown_name ''hot loop'' name)
   | Some v \<Rightarrow> (case Option.bind (nu_part v) nu_record of
       None \<Rightarrow> Inl (stone_error ''hot loop'' ''{} is not a record'' [MStr name])
     | Some r \<Rightarrow> Inr r))"

definition load_f64_record_map :: "string \<Rightarrow> (string \<times> f64) list ev" where
  "load_f64_record_map name = (\<lambda>st. (and_then (record_of_local name st) (\<lambda>r.
     fold_ok (\<lambda>(k, n) m. and_then (value_to_f64 n ''hot loop'') (\<lambda>x. Inr (AList.update k x m))) r []), st))"

definition load_i64_record_map :: "string \<Rightarrow> counts ev" where
  "load_i64_record_map name = (\<lambda>st. (and_then (record_of_local name st) (\<lambda>r.
     fold_ok (\<lambda>(k, n) m. and_then (value_to_i64 n ''hot loop'') (\<lambda>i. Inr (AList.update k i m))) r []), st))"

definition load_string_list :: "string \<Rightarrow> string list ev" where
  "load_string_list name = (\<lambda>st. (case get_local name st of
     None \<Rightarrow> Inl (unknown_name ''hot loop'' name)
   | Some v \<Rightarrow> (case Option.bind (nu_part v) nu_list of
       None \<Rightarrow> Inl (stone_error ''hot loop'' ''{} is not a list'' [MStr name])
     | Some vs \<Rightarrow> collect_ok (\<lambda>n. value_to_string n ''hot loop'') vs), st))"

definition load_optional_list :: "string option \<Rightarrow> string list ev" where
  "load_optional_list name = (case name of None \<Rightarrow> ev_ret [] | Some x \<Rightarrow> load_string_list x)"

definition load_hot_jsonl_native_accumulators :: "trace_plan \<Rightarrow> accumulators ev" where
  "load_hot_jsonl_native_accumulators plan =
     ev_then (load_f64_record_map (tp_amounts_map plan)) (\<lambda>amounts.
     ev_then (load_i64_record_map (tp_items_map plan)) (\<lambda>items.
     ev_then (load_optional_list (tp_users_list plan)) (\<lambda>users.
     ev_then (load_i64_record_map (tp_tag_counts_map plan)) (\<lambda>tag_counts.
     ev_then (load_optional_list (tp_tags_list plan)) (\<lambda>tags.
     ev_ret \<lparr> ac_amounts = amounts, ac_items = items, ac_users = users, ac_tag_counts = tag_counts,
              ac_tags = tags \<rparr>)))))"

definition nested_field :: "string \<Rightarrow> string \<Rightarrow> string \<Rightarrow> (nu_value \<Rightarrow> string \<Rightarrow> 'a res) \<Rightarrow> (string \<times> nu_value) list \<Rightarrow> 'a res" where
  "nested_field map_name user field convert totals =
     and_then (ok_or (stone_error ''hot loop'' ''{}[{}] has no `{}`'' [MStr map_name, MStr user, MStr field])
       (record_get totals field)) (\<lambda>v. convert v ''hot loop'')"

definition load_nested_entry :: "nested_user_totals \<Rightarrow> string \<times> nu_value
    \<Rightarrow> string list \<times> (string \<times> f64) list \<times> counts \<Rightarrow> (string list \<times> (string \<times> f64) list \<times> counts) res" where
  "load_nested_entry nested entry s = (case (entry, s) of ((user, v), (users, amounts, items)) \<Rightarrow>
     and_then (ok_or (stone_error ''hot loop'' ''{}[{}] is not a record'' [MStr (nt_map_name nested), MStr user])
       (nu_record v)) (\<lambda>totals.
     and_then (nested_field (nt_map_name nested) user (nt_amount_field nested) value_to_f64 totals) (\<lambda>amount.
     and_then (nested_field (nt_map_name nested) user (nt_items_field nested) value_to_i64 totals) (\<lambda>n.
     Inr (users @ [user], AList.update user amount amounts, AList.update user n items)))))"

definition load_nested_totals_record_map :: "nested_user_totals \<Rightarrow> (string list \<times> (string \<times> f64) list \<times> counts) ev" where
  "load_nested_totals_record_map nested = (\<lambda>st. (and_then (record_of_local (nt_map_name nested) st) (\<lambda>r.
     fold_ok (load_nested_entry nested) r ([], [], [])), st))"

definition load_nested_hot_jsonl_native_accumulators :: "trace_plan \<Rightarrow> nested_user_totals \<Rightarrow> accumulators ev" where
  "load_nested_hot_jsonl_native_accumulators plan nested =
     ev_then (load_nested_totals_record_map nested) (\<lambda>(users, amounts, items).
     ev_then (load_i64_record_map (tp_tag_counts_map plan)) (\<lambda>tag_counts.
     ev_then (load_optional_list (tp_tags_list plan)) (\<lambda>tags.
     ev_ret \<lparr> ac_amounts = amounts, ac_items = items, ac_users = users, ac_tag_counts = tag_counts,
              ac_tags = tags \<rparr>)))"

section \<open>Guards and snapshots\<close>

definition validate_guard :: "stone_function \<Rightarrow> stone_guard \<Rightarrow> unit \<Rightarrow> unit res" where
  "validate_guard f g u = (if vec_get (sf_snapshots f) (sg_snapshot g) = None
     then Inl (vm_error ''VM guard snapshot is out of range'')
     else case sg_kind g of
       InputIsJsonObject r \<Rightarrow> if r \<noteq> 0 then Inl (vm_error ''unsupported VM input guard'') else Inr ()
     | AccumulatorShape a kind \<Rightarrow>
         and_then (ok_or (vm_error ''VM accumulator guard is out of range'') (vec_get (sf_accumulators f) a)) (\<lambda>spec.
         if as_kind spec \<noteq> kind then Inl (vm_error ''VM accumulator guard does not match accumulator shape'')
         else Inr ()))"

definition validate_hot_jsonl_vm_guards :: "stone_function \<Rightarrow> unit res" where
  "validate_hot_jsonl_vm_guards f = fold_ok (validate_guard f) (sf_guards f) ()"

text \<open>A snapshot as the bindings that it writes.\<close>

type_synonym bindings = "(string \<times> rvalue) list"

definition with_binding :: "string \<Rightarrow> bindings \<Rightarrow> nu_value \<Rightarrow> bindings res" where
  "with_binding name bs v = Inr (bs @ [(name, RNu v)])"

definition snapshot_binding :: "runtime \<Rightarrow> stone_function \<Rightarrow> accumulators \<Rightarrow> string \<times> acc_id
    \<Rightarrow> bindings \<Rightarrow> bindings res" where
  "snapshot_binding rt f acc entry bs = (case entry of (name, a) \<Rightarrow>
     and_then (ok_or (vm_error ''VM snapshot accumulator is out of range'') (vec_get (sf_accumulators f) a)) (\<lambda>spec.
        if a = 0 \<and> as_kind spec = F64Map
        then with_binding name bs (VRecord (f64_record_from_native_map rt (ac_users acc) (ac_amounts acc)))
        else if a = 1 \<and> as_kind spec = I64Map
        then with_binding name bs (VRecord (i64_record_from_native_map rt (ac_users acc) (ac_items acc)))
        else if a = 2 \<and> as_kind spec = StringList
        then (if name = '''' then Inr bs else with_binding name bs (string_list_from_ordered_keys (ac_users acc)))
        else if a = 3 \<and> as_kind spec = I64Map
        then with_binding name bs (VRecord (i64_record_from_native_map rt (ac_tags acc) (ac_tag_counts acc)))
        else if a = 4 \<and> as_kind spec = StringList
        then (if name = '''' then Inr bs else with_binding name bs (string_list_from_ordered_keys (ac_tags acc)))
        else Inl (vm_error ''unsupported VM snapshot accumulator materialization'')))"

definition materialize_hot_jsonl_vm_snapshot_accumulators ::
  "runtime \<Rightarrow> stone_function \<Rightarrow> snapshot_id \<Rightarrow> accumulators \<Rightarrow> bindings res" where
  "materialize_hot_jsonl_vm_snapshot_accumulators rt f s acc =
     and_then (ok_or (vm_error ''VM snapshot is out of range'') (vec_get (sf_snapshots f) s)) (\<lambda>snapshot.
     fold_ok (snapshot_binding rt f acc) (ss_accumulators snapshot) [])"

definition materialize_hot_jsonl_vm_user_reg :: "serde \<Rightarrow> stone_function \<Rightarrow> row_slice \<Rightarrow> string res" where
  "materialize_hot_jsonl_vm_user_reg sj f row =
     and_then (ok_or (vm_error ''VM entry block is out of range'') (vec_get (sf_blocks f) (sf_entry f))) (\<lambda>b.
     and_then (ok_or (vm_error ''VM row block has no user op'') (vec_get (sb_ops b) 0)) (\<lambda>op. case op of
       JsonGetStrDefault dst object key dflt \<Rightarrow>
         if dst = 1 \<and> object = 0 then
           and_then (stone_const_string f key) (\<lambda>k.
           and_then (stone_const_string f dflt) (\<lambda>d. hot_jsonl_row_get_string_default sj row k d))
         else Inl (vm_error ''unsupported VM user snapshot op'')
     | JsonGetValue dst object key \<Rightarrow>
         if dst = 1 \<and> object = 0 then
           and_then (stone_const_string f key) (hot_jsonl_row_get_string_required sj row)
         else Inl (vm_error ''unsupported VM user snapshot op'')
     | _ \<Rightarrow> Inl (vm_error ''unsupported VM user snapshot op'')))"

definition snapshot_local :: "serde \<Rightarrow> stone_function \<Rightarrow> row_slice \<Rightarrow> nat \<times> reg \<Rightarrow> bindings \<Rightarrow> bindings res" where
  "snapshot_local sj f row entry bs = (case entry of (i, r) \<Rightarrow>
     and_then (ok_or (vm_error ''VM snapshot local is out of range'') (vec_get (sf_locals f) i)) (\<lambda>name.
     if r = 1 then and_then (materialize_hot_jsonl_vm_user_reg sj f row) (\<lambda>user.
       Inr (bs @ [(name, RNu (VString user))]))
     else Inl (vm_error ''unsupported VM snapshot local register'')))"

definition materialize_hot_jsonl_vm_snapshot_row_locals ::
  "serde \<Rightarrow> stone_function \<Rightarrow> snapshot_id \<Rightarrow> row_slice \<Rightarrow> bindings res" where
  "materialize_hot_jsonl_vm_snapshot_row_locals sj f s row =
     and_then (ok_or (vm_error ''VM snapshot is out of range'') (vec_get (sf_snapshots f) s)) (\<lambda>snapshot.
     fold_ok (snapshot_local sj f row) (ss_locals snapshot) [])"

definition validate_stone_materialized_snapshot :: "bindings \<Rightarrow> unit res" where
  "validate_stone_materialized_snapshot bs = fold_ok (\<lambda>(name, v) u.
     if name = '''' then Inl (vm_error ''materialized VM snapshot contains an empty local name'')
     else case v of
       RNu _ \<Rightarrow> Inr () | RJsonObjectView _ \<Rightarrow> Inr ()
     | _ \<Rightarrow> Inl (vm_error ''materialized VM snapshot contains a non-materialized value'')) bs ()"

definition apply_stone_materialized_snapshot :: "bindings \<Rightarrow> unit ev" where
  "apply_stone_materialized_snapshot bs = ev_update (fold (\<lambda>(name, v). set_local name v) bs)"

definition write_snapshot :: "runtime \<Rightarrow> bindings res \<Rightarrow> unit ev" where
  "write_snapshot rt snapshot = ev_then (ev_lift snapshot) (\<lambda>bs.
     ev_then (ev_lift (if rt_validate_snapshot rt then validate_stone_materialized_snapshot bs else Inr ())) (\<lambda>_.
     apply_stone_materialized_snapshot bs))"

section \<open>Rows\<close>

text \<open>A machine that does not return has no result. The error of the second case is never reached by
  compiled code.\<close>

definition no_return :: shell_error where
  "no_return = vm_error ''the machine does not return''"

definition execute_hot_jsonl_vm_function_or_fallback ::
  "runtime \<Rightarrow> stone_function \<Rightarrow> row_slice \<Rightarrow> accumulators \<Rightarrow> accumulators ev" where
  "execute_hot_jsonl_vm_function_or_fallback rt f row acc =
     (case execute_hot_jsonl_vm_function (rt_serde rt) f row acc of
        None \<Rightarrow> ev_fail no_return
      | Some r \<Rightarrow> ev_then (ev_lift r) (\<lambda>(exit, acc'). case exit of
          Completed \<Rightarrow> ev_ret acc'
        | Fallback snapshot \<Rightarrow> ev_then (count_diag diag_loop_fallback) (\<lambda>_. ev_fail (stone_error ''hot loop''
            ''VM requested fallback to snapshot {}, but AST resume is not implemented'' [MInt (int snapshot)]))))"

definition execute_row :: "runtime \<Rightarrow> stone_function \<Rightarrow> trace_plan \<Rightarrow> row_slice \<Rightarrow> accumulators \<Rightarrow> accumulators ev" where
  "execute_row rt f plan row acc =
     (if rt_vm_interpreter rt then execute_hot_jsonl_vm_function_or_fallback rt f row acc
      else ev_lift (execute_hot_jsonl_native_trace_body (rt_serde rt) plan row acc))"

primrec execute_rows ::
  "runtime \<Rightarrow> stone_function \<Rightarrow> trace_plan \<Rightarrow> row_slice list \<Rightarrow> accumulators \<Rightarrow> accumulators ev" where
  "execute_rows rt f plan [] acc = ev_ret acc"
| "execute_rows rt f plan (row # rows) acc =
     ev_then (execute_row rt f plan row acc) (execute_rows rt f plan rows)"

definition view_slice :: "json_view \<Rightarrow> row_slice" where
  "view_slice v = \<lparr> hr_bytes = view_bytes v, hr_source = jv_source v, hr_line = jv_line_number v \<rparr>"

definition row_slices :: "jsonl_rows \<Rightarrow> row_slice list" where
  "row_slices rows = List.map (\<lambda>line. view_slice (row_json_view rows line)) (rows_lines rows)"

text \<open>The lines of a text that are not blank, with their numbers.\<close>

definition text_rows :: "string list \<Rightarrow> string \<Rightarrow> (row_slice \<times> string) list" where
  "text_rows lines source = List.map (\<lambda>(i, l). (\<lparr> hr_bytes = l, hr_source = source, hr_line = i + 1 \<rparr>, l))
     (List.filter (\<lambda>(i, l). trim l \<noteq> '''') (List.enumerate 0 lines))"

definition last_opt :: "'a list \<Rightarrow> 'a option" where
  "last_opt xs = (if xs = [] then None else Some (last xs))"

definition set_first_target :: "string list \<Rightarrow> rvalue \<Rightarrow> unit ev" where
  "set_first_target targets v = (case targets of [] \<Rightarrow> ev_ret () | target # _ \<Rightarrow> ev_update (set_local target v))"

section \<open>The native bodies\<close>

definition record_hot_jsonl_ir_fused_selection :: "stone_optimization \<Rightarrow> unit ev" where
  "record_hot_jsonl_ir_fused_selection opt =
     ev_then (count_diag diag_loop_ir_lowered) (\<lambda>_.
     ev_then (count_diag (diag_optimized (so_diagnostics opt))) (\<lambda>_.
     case so_kernel opt of
       None \<Rightarrow> ev_then (count_diag (diag_fusion_miss ''jsonl_ir_no_fused_kernel'')) (\<lambda>_.
         ev_fail (vm_error ''unsupported JSONL native IR fused kernel''))
     | Some k \<Rightarrow> count_diag (diag_kernel_selected k)))"

text \<open>What the bodies do before the rows: the guards, the kernel, the trace plan and the accumulators.\<close>

definition prepare_native :: "stone_function \<Rightarrow> (stone_function \<Rightarrow> trace_plan res) \<Rightarrow> (trace_plan \<times> accumulators) ev" where
  "prepare_native f trace =
     ev_then (ev_lift (validate_hot_jsonl_vm_guards (so_function (optimize_stone_loop_ir f)))) (\<lambda>_.
     ev_then (record_hot_jsonl_ir_fused_selection (optimize_stone_loop_ir f)) (\<lambda>_.
     ev_then (ev_lift (trace (so_function (optimize_stone_loop_ir f)))) (\<lambda>plan.
     ev_then (load_hot_jsonl_native_accumulators plan) (\<lambda>acc. ev_ret (plan, acc)))))"

definition count_executed :: "unit ev" where
  "count_executed = ev_then (count_diag diag_loop_vm_executed) (\<lambda>_.
     count_diag (diag_kernel_executed KJsonlAggregation))"

text \<open>The length of a vector always fits \<open>i64\<close>.\<close>

definition apply_hot_jsonl_row_count :: "json_body \<Rightarrow> nat \<Rightarrow> unit ev" where
  "apply_hot_jsonl_row_count body count = (case jb_row_count_local body of
     None \<Rightarrow> ev_ret ()
   | Some name \<Rightarrow> (\<lambda>st. case get_local name st of
       None \<Rightarrow> (Inl (unknown_name ''hot loop'' name), st)
     | Some v \<Rightarrow> (case nu_part v of
         None \<Rightarrow> (Inl (stone_error ''hot loop'' ''{} is not an integer counter'' [MStr name]), st)
       | Some n \<Rightarrow> (case and_then (value_to_i64 n ''hot loop'') (\<lambda>i.
             ok_or (vm_error ''row count overflow'') (checked_add i (i64_of (int count)))) of
           Inl e \<Rightarrow> (Inl e, st)
         | Inr i \<Rightarrow> (Inr (), write_local_mut name (RNu (VInt i)) st)))))"

text \<open>What they do from the rows on.\<close>

definition run_native_rows ::
  "runtime \<Rightarrow> string list \<Rightarrow> jsonl_rows \<Rightarrow> stone_function \<Rightarrow> json_body \<Rightarrow> trace_plan \<Rightarrow> accumulators \<Rightarrow> unit ev" where
  "run_native_rows rt targets rows f body plan acc =
     ev_then (execute_rows rt f plan (row_slices rows) acc) (\<lambda>acc'.
     ev_then (case last_opt (rows_lines rows) of
        None \<Rightarrow> ev_ret ()
      | Some line \<Rightarrow> ev_then (set_first_target targets (jsonl_row_view rows line)) (\<lambda>_.
          write_snapshot rt (materialize_hot_jsonl_vm_snapshot_row_locals (rt_serde rt) f 0
            (view_slice (row_json_view rows line))))) (\<lambda>_.
     ev_then count_executed (\<lambda>_.
     ev_then (write_snapshot rt (materialize_hot_jsonl_vm_snapshot_accumulators rt f 0 acc')) (\<lambda>_.
     apply_hot_jsonl_row_count body (length (rows_lines rows))))))"

definition native_rows_body ::
  "runtime \<Rightarrow> string list \<Rightarrow> jsonl_rows \<Rightarrow> stone_function \<Rightarrow> json_body \<Rightarrow> unit ev" where
  "native_rows_body rt targets rows f body =
     ev_then (prepare_native f (\<lambda>g. ok_or (vm_error ''unsupported JSONL native loop IR'')
       (compile_hot_jsonl_trace_plan_from_ir g)))
       (\<lambda>(plan, acc). run_native_rows rt targets rows (so_function (optimize_stone_loop_ir f)) body plan acc)"

definition eval_for_jsonl_rows_hot_native_body ::
  "runtime \<Rightarrow> string list \<Rightarrow> jsonl_rows \<Rightarrow> hot_loop_plan \<Rightarrow> json_body \<Rightarrow> unit ev" where
  "eval_for_jsonl_rows_hot_native_body rt targets rows prefix body =
     (if \<not> validate_hot_jsonl_native_prefix prefix body
      then ev_fail (vm_error ''native JSONL aggregation prefix does not match body'')
      else ev_then (ev_lift (ok_or (vm_error ''unsupported JSONL native VM body ops'')
        (compile_hot_jsonl_vm_function body))) (\<lambda>f. native_rows_body rt targets rows f body))"

section \<open>Nested totals\<close>

definition add_nested_user :: "row_fields \<Rightarrow> accumulators \<Rightarrow> accumulators" where
  "add_nested_user fs acc = (let k = rf_user fs;
       acc' = (case map_of (ac_amounts acc) k of
          Some old \<Rightarrow> acc\<lparr> ac_amounts := AList.update k (f64_add old (rf_amount fs)) (ac_amounts acc) \<rparr>
        | None \<Rightarrow> acc\<lparr> ac_amounts := AList.update k (rf_amount fs) (ac_amounts acc), ac_users := ac_users acc @ [k] \<rparr>)
     in acc'\<lparr> ac_items := AList.update k ((case map_of (ac_items acc') k of Some n \<Rightarrow> n | None \<Rightarrow> 0) + rf_items fs)
          (ac_items acc') \<rparr>)"

definition hot_jsonl_trace_plan_from_body_plan :: "json_body \<Rightarrow> trace_plan" where
  "hot_jsonl_trace_plan_from_body_plan p = \<lparr>
     tp_user_name = jb_user_name p, tp_user_key = jb_user_key p,
     tp_user_has_default = jb_user_has_default p, tp_user_default = jb_user_default p,
     tp_amounts_map = jb_amounts_map p, tp_amount_key = jb_amount_key p,
     tp_amount_has_default = jb_amount_has_default p, tp_amount_default = jb_amount_default p,
     tp_items_map = jb_items_map p, tp_items_key = jb_items_key p,
     tp_items_has_default = jb_items_has_default p, tp_items_default = jb_items_default p,
     tp_users_list = jb_users_list p, tp_tags_key = jb_tags_key p,
     tp_tags_default_empty = jb_tags_default_empty p, tp_tag_counts_map = jb_tag_counts_map p,
     tp_tags_list = jb_tags_list p \<rparr>"

definition nested_row :: "serde \<Rightarrow> trace_plan \<Rightarrow> row_slice \<Rightarrow> accumulators \<Rightarrow> accumulators res" where
  "nested_row sj plan row acc =
     and_then (json_object_view_get_hot_jsonl_row_fields sj row plan (plan_keys plan)) (\<lambda>fs.
     hot_jsonl_string_array_for_each_string sj (rf_tags fs) count_tag (add_nested_user fs acc))"

definition nested_last_row :: "runtime \<Rightarrow> string list \<Rightarrow> jsonl_rows \<Rightarrow> json_body \<Rightarrow> (nat \<times> nat) \<times> nat \<Rightarrow> unit ev" where
  "nested_last_row rt targets rows body line =
     ev_then (set_first_target targets (jsonl_row_view rows line)) (\<lambda>_.
     let row = view_slice (row_json_view rows line) in
     ev_then (ev_lift (if jb_user_has_default body
       then hot_jsonl_row_get_string_default (rt_serde rt) row (jb_user_key body) (jb_user_default body)
       else hot_jsonl_row_get_string_required (rt_serde rt) row (jb_user_key body))) (\<lambda>user.
     ev_update (set_local (jb_user_name body) (RNu (VString user)))))"

definition eval_for_jsonl_rows_nested_totals_native_body ::
  "runtime \<Rightarrow> string list \<Rightarrow> jsonl_rows \<Rightarrow> json_body \<Rightarrow> unit ev" where
  "eval_for_jsonl_rows_nested_totals_native_body rt targets rows body = (case jb_nested body of
     None \<Rightarrow> ev_fail (vm_error ''missing nested totals plan'')
   | Some nested \<Rightarrow> (let plan = hot_jsonl_trace_plan_from_body_plan body in
     ev_then (count_diag diag_loop_ir_lowered) (\<lambda>_.
     ev_then (count_diag (diag_kernel_selected KJsonlAggregation)) (\<lambda>_.
     ev_then (load_nested_hot_jsonl_native_accumulators plan nested) (\<lambda>acc.
     ev_then (ev_lift (fold_ok (nested_row (rt_serde rt) plan) (row_slices rows) acc)) (\<lambda>acc'.
     ev_then (case last_opt (rows_lines rows) of
        None \<Rightarrow> ev_ret () | Some line \<Rightarrow> nested_last_row rt targets rows body line) (\<lambda>_.
     ev_then count_executed (\<lambda>_.
     ev_then (ev_update (set_local (nt_map_name nested) (RNu (VRecord
       (nested_totals_record_from_native_maps rt (ac_users acc') (ac_amounts acc') (ac_items acc')
         (nt_amount_field nested) (nt_items_field nested)))))) (\<lambda>_.
     ev_then (ev_update (set_local (jb_tag_counts_map body) (RNu (VRecord
       (i64_record_from_native_map rt (ac_tags acc') (ac_tag_counts acc')))))) (\<lambda>_.
     apply_hot_jsonl_row_count body (length (rows_lines rows))))))))))))"

definition eval_for_jsonl_rows_generic_native_body ::
  "runtime \<Rightarrow> string list \<Rightarrow> jsonl_rows \<Rightarrow> generic_loop_plan \<Rightarrow> unit ev" where
  "eval_for_jsonl_rows_generic_native_body rt targets rows plan = (case gp_ops plan of
     [GJsonlAggregation body] \<Rightarrow>
       if jb_nested body \<noteq> None then eval_for_jsonl_rows_nested_totals_native_body rt targets rows body
       else ev_then (ev_lift (ok_or (vm_error ''unsupported JSONL native loop IR'')
         (compile_hot_jsonl_loop_ir_function plan))) (\<lambda>f. native_rows_body rt targets rows f body)
   | _ \<Rightarrow> ev_fail (vm_error ''expected JSONL aggregation loop IR''))"

section \<open>Text lines\<close>

text \<open>The lines of a text that are not blank are rows. The row count is not applied, and the local of the
  user is not written.\<close>

definition run_native_lines :: "runtime \<Rightarrow> string list \<Rightarrow> (row_slice \<times> string) list \<Rightarrow> stone_function
    \<Rightarrow> (string \<Rightarrow> unit ev) \<Rightarrow> trace_plan \<Rightarrow> accumulators \<Rightarrow> unit ev" where
  "run_native_lines rt targets rows f last_line plan acc =
     ev_then (execute_rows rt f plan (List.map fst rows) acc) (\<lambda>acc'.
     ev_then count_executed (\<lambda>_.
     ev_then (case last_opt rows of
        None \<Rightarrow> ev_ret ()
      | Some row \<Rightarrow> ev_then (set_first_target targets (RNu (VString (snd row)))) (\<lambda>_. last_line (snd row))) (\<lambda>_.
     write_snapshot rt (materialize_hot_jsonl_vm_snapshot_accumulators rt f 0 acc'))))"

definition native_lines_body :: "runtime \<Rightarrow> string list \<Rightarrow> string list \<Rightarrow> string \<Rightarrow> stone_function
    \<Rightarrow> (stone_function \<Rightarrow> trace_plan res) \<Rightarrow> (string \<Rightarrow> unit ev) \<Rightarrow> unit ev" where
  "native_lines_body rt targets lines source f trace last_line =
     ev_then (prepare_native f trace) (\<lambda>(plan, acc). run_native_lines rt targets (text_rows lines source)
       (so_function (optimize_stone_loop_ir f)) last_line plan acc)"

definition eval_for_text_lines_jsonl_generic_native_body ::
  "runtime \<Rightarrow> string list \<Rightarrow> string list \<Rightarrow> string \<Rightarrow> generic_loop_plan \<Rightarrow> unit ev" where
  "eval_for_text_lines_jsonl_generic_native_body rt targets lines source plan = (case gp_ops plan of
     [GJsonlAggregation body] \<Rightarrow>
       ev_then (ev_lift (ok_or (vm_error ''unsupported JSONL text-lines loop IR'')
         (compile_hot_jsonl_loop_ir_function plan))) (\<lambda>f.
       native_lines_body rt targets lines source f
         (\<lambda>g. ok_or (vm_error ''unsupported JSONL text-lines loop IR'') (compile_hot_jsonl_trace_plan_from_ir g))
         (\<lambda>_. ev_ret ()))
   | _ \<Rightarrow> ev_fail (vm_error ''expected JSONL text-lines loop IR''))"

text \<open>The lines that a loop parses itself; nothing when its body is not an aggregation.\<close>

definition eval_for_text_lines_hot_jsonl ::
  "runtime \<Rightarrow> string list \<Rightarrow> string list \<Rightarrow> string \<Rightarrow> stmt list \<Rightarrow> hot_loop_plan \<Rightarrow> unit ev option" where
  "eval_for_text_lines_hot_jsonl rt targets lines source body plan =
     map_option (\<lambda>body_plan.
       ev_then (ev_lift (ok_or (vm_error ''unsupported JSONL text-lines VM body ops'')
         (compile_hot_jsonl_vm_function body_plan))) (\<lambda>f.
       case hp_iter plan of
         HotJsonlTextLines line_target \<Rightarrow> native_lines_body rt targets lines source f
           (\<lambda>_. ok_or (vm_error ''unsupported JSONL text-lines body ops'') (compile_hot_jsonl_trace_plan body_plan))
           (\<lambda>line. ev_update (set_local line_target (RNu (VString line))))
       | HotReadJsonl \<Rightarrow> ev_then (prepare_native f
           (\<lambda>_. ok_or (vm_error ''unsupported JSONL text-lines body ops'') (compile_hot_jsonl_trace_plan body_plan)))
           (\<lambda>_. ev_fail (vm_error ''unsupported_iterator''))))
       (match_hot_jsonl_aggregation_body (hp_target plan) (drop (hp_body_start plan) body))"

section \<open>The prefix of a row\<close>

definition view_rvalue :: "('a \<Rightarrow> nu_value) \<Rightarrow> 'a res \<Rightarrow> rvalue res" where
  "view_rvalue wrap r = and_then r (\<lambda>x. Inr (RNu (wrap x)))"

definition execute_hot_loop_op :: "runtime \<Rightarrow> json_view \<Rightarrow> hot_loop_op \<Rightarrow> unit ev" where
  "execute_hot_loop_op rt row op = (let sj = rt_serde rt;
       bind = (\<lambda>target v. ev_then (ev_lift v) (\<lambda>w. ev_update (set_local target w)))
     in case op of
       HGetStrDefault target key d \<Rightarrow> bind target (view_rvalue VString (json_object_view_get_string_default sj row key d))
     | HGetF64Default target key d \<Rightarrow> bind target (view_rvalue VFloat (json_object_view_get_f64_default sj row key d))
     | HGetI64Default target key d \<Rightarrow> bind target (view_rvalue VInt (json_object_view_get_i64_default sj row key d))
     | HGetArrayDefault target key \<Rightarrow> bind target (json_object_view_get_array_default sj row key)
     | HGetValue target key \<Rightarrow> bind target (and_then (json_object_view_get sj row key)
         (ok_or (stone_error ''hot loop'' ''record has no key `{}`'' [MStr key]))))"

primrec execute_hot_loop_prefix :: "runtime \<Rightarrow> json_view \<Rightarrow> hot_loop_op list \<Rightarrow> unit ev" where
  "execute_hot_loop_prefix rt row [] = ev_ret ()"
| "execute_hot_loop_prefix rt row (op # ops) =
     ev_then (execute_hot_loop_op rt row op) (\<lambda>_. execute_hot_loop_prefix rt row ops)"

end
