(* ===== verification/Vm_Runtime.thy ===== *)
theory Vm_Runtime
  imports Jsonl_Native
begin

text \<open>The hot loop executor (\<open>stone_vm/runtime.rs\<close>): it compiles a plan, loads the locals the code
  needs from the scopes, runs the register machine and writes the results back. Timings are left
  out; every counter is kept.\<close>

datatype vm_input = InValues "rvalue list" | InLines "string list"

datatype loop_result = Executed "rvalue option" | Unsupported

text \<open>A machine run inside the evaluator: a miss is counted under its reason and gives \<open>None\<close>.\<close>

definition vm_run :: "'a vm_res \<Rightarrow> 'a option ev" where
  "vm_run r = (case r of
     Inl e \<Rightarrow> ev_fail e
   | Inr (Miss reason) \<Rightarrow> ev_then (count_diag (diag_lowering_miss reason)) (\<lambda>_. ev_ret None)
   | Inr (Done x) \<Rightarrow> ev_ret (Some x))"

definition record_loop_ir_function_selection :: "loop_optimization \<Rightarrow> fused_kernel option ev" where
  "record_loop_ir_function_selection opt =
     ev_then (count_diag diag_loop_ir_lowered) (\<lambda>_.
     ev_then (count_diag (diag_optimized (lo_diagnostics opt))) (\<lambda>_.
     ev_then (count_diag (case lo_kernel opt of
        Some k \<Rightarrow> diag_kernel_selected k
      | None \<Rightarrow> diag_fusion_miss ''no_fused_kernel'')) (\<lambda>_.
     ev_ret (lo_kernel opt))))"

section \<open>Loading and storing\<close>

definition runtime_value_to_string_key :: "runtime \<Rightarrow> rvalue \<Rightarrow> string \<Rightarrow> string res" where
  "runtime_value_to_string_key rt v context = (case v of
     RNu n \<Rightarrow> value_to_string n context
   | RJsonScalarView view \<Rightarrow>
       at_line (jv_source view) (jv_line_number view) (json_scalar_view_to_string (rt_serde rt) view)
   | _ \<Rightarrow> and_then (into_nu_value (rt_materialize rt) v context) (\<lambda>n. value_to_string n context))"

definition store_i64_record_map :: "runtime \<Rightarrow> string \<Rightarrow> counts \<Rightarrow> unit ev" where
  "store_i64_record_map rt name m =
     ev_update (set_local name (RNu (VRecord (i64_record_from_native_map rt [] m))))"

section \<open>The operations\<close>

definition finish_with :: "('a \<Rightarrow> loop_result ev) \<Rightarrow> 'a option \<Rightarrow> loop_result ev" where
  "finish_with f r = (case r of None \<Rightarrow> ev_ret Unsupported | Some x \<Rightarrow> f x)"

definition need_local :: "string \<Rightarrow> (rvalue \<Rightarrow> loop_result ev) \<Rightarrow> loop_result ev" where
  "need_local name f = (\<lambda>st. case get_local name st of
     None \<Rightarrow> ev_then (count_diag (diag_lowering_miss ''unsupported_expr'')) (\<lambda>_. ev_ret Unsupported) st
   | Some v \<Rightarrow> f v st)"

definition run_add_assign :: "string \<Rightarrow> rvalue list \<Rightarrow> loop_result ev" where
  "run_add_assign name vs = need_local name (\<lambda>v.
     ev_then (vm_run (execute_generic_vm_add_assign v vs)) (finish_with (\<lambda>r.
     ev_then (ev_update (set_local name (fst r))) (\<lambda>_. ev_ret (Executed (snd r))))))"

definition run_text_parse_add_assign :: "string \<Rightarrow> string list \<Rightarrow> parse_number \<Rightarrow> loop_result ev" where
  "run_text_parse_add_assign name lines p = need_local name (\<lambda>v.
     ev_then (vm_run (execute_generic_vm_text_parse_add_assign v lines p)) (finish_with (\<lambda>r.
     ev_then (ev_update (set_local name (fst r))) (\<lambda>_. ev_ret (Executed (snd r))))))"

definition run_map_add :: "runtime \<Rightarrow> string \<Rightarrow> (counts \<Rightarrow> (counts \<times> rvalue option) vm_res) \<Rightarrow> loop_result ev" where
  "run_map_add rt name loop =
     ev_then (load_i64_record_map name) (\<lambda>m.
     ev_then (vm_run (loop m)) (finish_with (\<lambda>r.
     ev_then (store_i64_record_map rt name (fst r)) (\<lambda>_. ev_ret (Executed (snd r))))))"

definition run_map_add_i64_const :: "runtime \<Rightarrow> string \<Rightarrow> i64 \<Rightarrow> rvalue list \<Rightarrow> loop_result ev" where
  "run_map_add_i64_const rt name addend vs = run_map_add rt name (\<lambda>m.
     execute_generic_vm_map_add_i64_const m addend vs (\<lambda>n. value_to_string n ''hot loop''))"

definition run_map_add_record_field ::
  "runtime \<Rightarrow> string \<Rightarrow> string \<Rightarrow> i64 \<Rightarrow> rvalue list \<Rightarrow> loop_result ev" where
  "run_map_add_record_field rt name f addend vs = run_map_add rt name (\<lambda>m.
     execute_generic_vm_map_add_i64_const_record_field (json_object_view_get (rt_serde rt)) m f addend vs
       (\<lambda>v. runtime_value_to_string_key rt v ''hot loop''))"

definition run_map_add_record_string_field ::
  "runtime \<Rightarrow> string \<Rightarrow> string \<Rightarrow> bool \<Rightarrow> bool \<Rightarrow> i64 \<Rightarrow> rvalue list \<Rightarrow> loop_result ev" where
  "run_map_add_record_string_field rt name f strip lower addend vs = run_map_add rt name (\<lambda>m.
     execute_generic_vm_map_add_i64_const_record_string_field (json_object_view_get (rt_serde rt)) (rt_to_lowercase rt)
       m f strip lower addend vs (\<lambda>v. runtime_value_to_string_key rt v ''hot loop''))"

definition run_list_append :: "string \<Rightarrow> rvalue list \<Rightarrow> bool \<Rightarrow> loop_result ev" where
  "run_list_append name vs unique = (\<lambda>st. case get_local name st of
     None \<Rightarrow> (Inl (unknown_name ''hot loop'' name), st)
   | Some current \<Rightarrow>
       ev_then (vm_run (execute_generic_vm_list_append current vs unique)) (finish_with (\<lambda>r.
       ev_then (ev_update (set_local name (RNu (VList (fst r))))) (\<lambda>_. ev_ret (Executed (snd r))))) st)"

text \<open>A local is loaded when it materialises to an integer; an unset local stays unset.\<close>

definition int_of_rvalue :: "runtime \<Rightarrow> rvalue \<Rightarrow> i64 option" where
  "int_of_rvalue rt v = (case into_nu_value (rt_materialize rt) v ''hot loop'' of
     Inl _ \<Rightarrow> None | Inr n \<Rightarrow> nu_int n)"

definition load_int_local :: "runtime \<Rightarrow> eval_state \<Rightarrow> string \<Rightarrow> i64 option" where
  "load_int_local rt st name = Option.bind (get_local name st) (int_of_rvalue rt)"

definition store_int_local :: "string \<times> i64 option \<Rightarrow> eval_state \<Rightarrow> eval_state" where
  "store_int_local slot st = (case snd slot of
     None \<Rightarrow> st | Some i \<Rightarrow> set_local (fst slot) (RNu (VInt i)) st)"

definition run_expr_body :: "runtime \<Rightarrow> loop_function \<Rightarrow> expr_body \<Rightarrow> rvalue list \<Rightarrow> loop_result ev" where
  "run_expr_body rt f body vs = (\<lambda>st.
     ev_then (vm_run (execute_generic_vm_expr_body body
       (List.map (load_int_local rt st) (lf_locals f)) vs)) (finish_with (\<lambda>r.
     ev_then (ev_update (fold store_int_local (zip (lf_locals f) (fst r)))) (\<lambda>_.
     ev_ret (Executed (snd r))))) st)"

definition local_or_fail :: "loop_function \<Rightarrow> nat \<Rightarrow> (string \<Rightarrow> loop_result ev) \<Rightarrow> loop_result ev" where
  "local_or_fail f i k = ev_then (ev_lift (ok_or
     (stone_error ''hot loop'' ''generic VM local is out of range'' []) (local_name f i))) k"

definition miss_loop :: "string \<Rightarrow> loop_result ev" where
  "miss_loop reason = ev_then (count_diag (diag_lowering_miss reason)) (\<lambda>_. ev_ret Unsupported)"

definition execute_generic_vm_function :: "runtime \<Rightarrow> loop_function \<Rightarrow> vm_input \<Rightarrow> loop_result ev" where
  "execute_generic_vm_function rt f input = (case dest_one (lf_ops f) of
     None \<Rightarrow> miss_loop ''unsupported_body_stmt''
   | Some op \<Rightarrow> (case input of
       InValues vs \<Rightarrow> (case op of
           VAddAssign i \<Rightarrow> local_or_fail f i (\<lambda>x. run_add_assign x vs)
         | VMapAddI64Const i addend \<Rightarrow> local_or_fail f i (\<lambda>x. run_map_add_i64_const rt x addend vs)
         | VMapAddRecordField i fld addend \<Rightarrow>
             local_or_fail f i (\<lambda>x. run_map_add_record_field rt x fld addend vs)
         | VMapAddRecordStringField i fld strip lower addend \<Rightarrow>
             local_or_fail f i (\<lambda>x. run_map_add_record_string_field rt x fld strip lower addend vs)
         | VListAppend i unique \<Rightarrow> local_or_fail f i (\<lambda>x. run_list_append x vs unique)
         | VExprBody body \<Rightarrow> run_expr_body rt f body vs
         | VAddAssignParsed _ _ \<Rightarrow> miss_loop ''unsupported_iterator'')
     | InLines lines \<Rightarrow> (case op of
           VAddAssignParsed i p \<Rightarrow>
             if lf_iter f = OpenSplitlines
             then local_or_fail f i (\<lambda>x. run_text_parse_add_assign x lines p)
             else miss_loop ''unsupported_iterator''
         | _ \<Rightarrow> miss_loop ''unsupported_iterator'')))"

definition finish_generic_vm_loop :: "string list \<Rightarrow> rvalue option \<Rightarrow> unit ev" where
  "finish_generic_vm_loop targets last_value = ev_update (\<lambda>st.
     with_diagnostics diag_loop_vm_executed
       (case (last_value, targets) of
          (Some v, target # _) \<Rightarrow> set_local target v st
        | _ \<Rightarrow> st))"

text \<open>The common course of the three entry points: compile, optimise, run, write the loop target.\<close>

definition run_generic_loop ::
  "runtime \<Rightarrow> string list \<Rightarrow> generic_loop_plan \<Rightarrow> vm_input \<Rightarrow> flow option ev" where
  "run_generic_loop rt targets plan input = (case compile_generic_vm_function plan of
     None \<Rightarrow> ev_then (count_diag (diag_lowering_miss (generic_loop_compile_miss_reason plan)))
       (\<lambda>_. ev_ret None)
   | Some f \<Rightarrow>
       ev_then (record_loop_ir_function_selection (optimize_loop_ir f)) (\<lambda>kernel.
       ev_then (execute_generic_vm_function rt (lo_function (optimize_loop_ir f)) input) (\<lambda>result.
       case result of
         Unsupported \<Rightarrow> ev_then (count_diag diag_loop_fallback) (\<lambda>_. ev_ret None)
       | Executed last_value \<Rightarrow>
           ev_then (finish_generic_vm_loop targets last_value) (\<lambda>_.
           ev_then (case kernel of
              None \<Rightarrow> ev_ret ()
            | Some k \<Rightarrow> count_diag (diag_kernel_executed k)) (\<lambda>_.
           ev_ret (Some (FOutput PEmpty)))))))"

definition try_eval_for_values_generic_vm ::
  "runtime \<Rightarrow> string list \<Rightarrow> rvalue list \<Rightarrow> generic_loop_plan \<Rightarrow> flow option ev" where
  "try_eval_for_values_generic_vm rt targets vs plan = run_generic_loop rt targets plan (InValues vs)"

definition try_eval_for_text_lines_generic_vm ::
  "runtime \<Rightarrow> string list \<Rightarrow> string list \<Rightarrow> string \<Rightarrow> generic_loop_plan \<Rightarrow> flow option ev" where
  "try_eval_for_text_lines_generic_vm rt targets lines source plan =
     (if gp_iter plan \<noteq> OpenSplitlines \<and> gp_iter plan \<noteq> MaterializedList then ev_ret None
      else case gp_ops plan of
        [GJsonlAggregation _] \<Rightarrow> ev_then (eval_for_text_lines_jsonl_generic_native_body rt targets lines source plan)
          (\<lambda>_. ev_ret (Some (FOutput PEmpty)))
      | _ \<Rightarrow> run_generic_loop rt targets plan (InLines lines))"

definition try_eval_for_jsonl_rows_generic_vm ::
  "runtime \<Rightarrow> string list \<Rightarrow> jsonl_rows \<Rightarrow> generic_loop_plan \<Rightarrow> flow option ev" where
  "try_eval_for_jsonl_rows_generic_vm rt targets rows plan =
     (if gp_iter plan \<notin> {ReadJsonl, ReadCsv, MaterializedList} then ev_ret None
      else case dest_one (gp_ops plan) of
        None \<Rightarrow> ev_then (count_diag (diag_lowering_miss (generic_loop_compile_miss_reason plan)))
          (\<lambda>_. ev_ret None)
      | Some (GJsonlAggregation _) \<Rightarrow> ev_then (eval_for_jsonl_rows_generic_native_body rt targets rows plan)
          (\<lambda>_. ev_ret (Some (FOutput PEmpty)))
      | Some _ \<Rightarrow> run_generic_loop rt targets plan
          (InValues (jsonl_row_views rows)))"

end
