(* ===== verification/Eval_Stmt.thy ===== *)
theory Eval_Stmt
  imports Vm_Runtime
begin

unbundle bit_operations_syntax

text \<open>Statements of the evaluator (\<open>stone_eval.rs\<close>): assignment to names, tuples and subscripts,
  augmented assignment, loops with their compiled fast path, conditionals with the fused counter
  update, blocks.\<close>

section \<open>Assignment\<close>

fun eval_assign_target_path ::
  "runtime \<Rightarrow> assign_target \<Rightarrow> string \<Rightarrow> (string \<times> nu_value list) ev" where
  "eval_assign_target_path rt (TName name) context = ev_ret (name, [])"
| "eval_assign_target_path rt (TTuple _) context =
     ev_fail (stone_error context ''tuple/list destructuring does not support item assignment'' [])"
| "eval_assign_target_path rt (TSubscript v index) context =
     ev_then (eval_assign_target_path rt v context) (\<lambda>path.
     ev_then (to_nu rt context (eval_expr rt PEmpty index)) (\<lambda>i. ev_ret (fst path, snd path @ [i])))"

primrec set_locals :: "(string \<times> nu_value) list \<Rightarrow> eval_state \<Rightarrow> eval_state" where
  "set_locals [] st = st"
| "set_locals (b # bs) st = set_locals bs (set_local (fst b) (RNu (snd b)) st)"

definition unpack_targets ::
  "string \<Rightarrow> string \<Rightarrow> string \<Rightarrow> string list \<Rightarrow> nu_value \<Rightarrow> unit ev" where
  "unpack_targets context not_list wrong_length targets v = (case nu_list v of
     None \<Rightarrow> ev_fail (stone_error context not_list [])
   | Some vs \<Rightarrow>
       if length vs \<noteq> length targets
       then ev_fail (stone_error context wrong_length [MInt (int (length targets)), MInt (int (length vs))])
       else ev_update (set_locals (zip targets vs)))"

definition assign_unpack_targets :: "string \<Rightarrow> string list \<Rightarrow> nu_value \<Rightarrow> unit ev" where
  "assign_unpack_targets context targets v = unpack_targets context
     ''tuple/list destructuring requires a list value to unpack''
     ''tuple/list destructuring expected {} values, got {}'' targets v"

definition assign_loop_targets :: "runtime \<Rightarrow> string list \<Rightarrow> rvalue \<Rightarrow> unit ev" where
  "assign_loop_targets rt targets v = (case dest_one targets of
     Some target \<Rightarrow> ev_update (set_local target v)
   | None \<Rightarrow> ev_then (ev_lift (into_nu_value (rt_materialize rt) v ''for''))
       (unpack_targets ''for'' ''tuple loop target requires a list item to unpack''
         ''tuple loop target expected {} values, got {}'' targets))"

definition assign_at_path :: "string \<times> nu_value list \<Rightarrow> nu_value \<Rightarrow> unit ev" where
  "assign_at_path path v = (\<lambda>st. case get_local (fst path) st of
     None \<Rightarrow> (Inl (unknown_name ''assignment'' (fst path)), st)
   | Some (RNu target) \<Rightarrow> (case assign_subscript_path target (snd path) v of
         Inl e \<Rightarrow> (Inl e, st)
       | Inr w \<Rightarrow> (Inr (), write_local_mut (fst path) (RNu w) st))
   | Some _ \<Rightarrow> (Inl (stone_error ''assignment'' ''{} does not support item assignment''
       [MStr (fst path)]), st))"

definition record_bindings :: "bool \<Rightarrow> string list \<Rightarrow> unit ev" where
  "record_bindings record_session names =
     ev_update (if record_session then fold record_session_binding names else id)"

definition assign_value :: "runtime \<Rightarrow> assign_target \<Rightarrow> rvalue \<Rightarrow> bool \<Rightarrow> unit ev" where
  "assign_value rt target v record_session = (case target of
     TName name \<Rightarrow> ev_then (record_bindings record_session [name]) (\<lambda>_. ev_update (set_local name v))
   | TTuple names \<Rightarrow> ev_then (record_bindings record_session names) (\<lambda>_.
       ev_then (ev_lift (into_nu_value (rt_materialize rt) v ''assignment''))
         (assign_unpack_targets ''assignment'' names))
   | TSubscript _ _ \<Rightarrow> ev_then (eval_assign_target_path rt target ''assignment'') (\<lambda>path.
       ev_then (ev_lift (into_nu_value (rt_materialize rt) v ''assignment'')) (assign_at_path path)))"

primrec subscript_through :: "runtime \<Rightarrow> nu_value list \<Rightarrow> rvalue \<Rightarrow> rvalue res" where
  "subscript_through rt [] v = Inr v"
| "subscript_through rt (i # is) v =
     and_then (into_nu_value (rt_materialize rt) v ''augmented assignment'') (\<lambda>n.
     and_then (subscript_builtin n i) (\<lambda>w. subscript_through rt is (RNu w)))"

definition eval_assign_target_value :: "runtime \<Rightarrow> assign_target \<Rightarrow> nu_value ev" where
  "eval_assign_target_value rt target = (case target of
     TName name \<Rightarrow> (\<lambda>st. (and_then
         (ok_or (unknown_name ''augmented assignment'' name) (get_local name st))
         (\<lambda>v. into_nu_value (rt_materialize rt) v ''augmented assignment''), st))
   | TTuple _ \<Rightarrow> ev_fail (stone_error ''augmented assignment''
       ''tuple/list destructuring cannot be used with augmented assignment'' [])
   | TSubscript _ _ \<Rightarrow> ev_then (eval_assign_target_path rt target ''augmented assignment'') (\<lambda>path st.
       (and_then (ok_or (unknown_name ''augmented assignment'' (fst path)) (get_local (fst path) st)) (\<lambda>v.
        and_then (subscript_through rt (snd path) v) (\<lambda>w.
        into_nu_value (rt_materialize rt) w ''augmented assignment'')), st)))"

definition apply_aug_op :: "aug_op \<Rightarrow> nu_value \<Rightarrow> nu_value \<Rightarrow> nu_value res" where
  "apply_aug_op op left right = (case op of
     AugAdd \<Rightarrow> add_values left right
   | AugSub \<Rightarrow> sub_values left right
   | AugMul \<Rightarrow> mul_values left right
   | AugDiv \<Rightarrow> div_values left right
   | AugFloorDiv \<Rightarrow> floor_div_values left right
   | AugMod \<Rightarrow> mod_values left right
   | AugBitAnd \<Rightarrow> bitwise_int_values left right ''bitwise and'' (AND)
   | AugBitOr \<Rightarrow> bitwise_int_values left right ''bitwise or'' (OR)
   | AugBitXor \<Rightarrow> bitwise_int_values left right ''bitwise xor'' (XOR)
   | AugLShift \<Rightarrow> shift_value left right ''left shift'' checked_shl
   | AugRShift \<Rightarrow> shift_value left right ''right shift'' checked_shr)"

definition eval_assign :: "runtime \<Rightarrow> pipeline \<Rightarrow> assign_target \<Rightarrow> expr \<Rightarrow> bool \<Rightarrow> flow ev" where
  "eval_assign rt inp target value record_session =
     ev_then (eval_expr rt inp value) (\<lambda>v.
     ev_then (assign_value rt target v record_session) (\<lambda>_. ev_ret (FOutput PEmpty)))"

definition eval_aug_assign ::
  "runtime \<Rightarrow> pipeline \<Rightarrow> assign_target \<Rightarrow> aug_op \<Rightarrow> expr \<Rightarrow> bool \<Rightarrow> flow ev" where
  "eval_aug_assign rt inp target op value record_session =
     ev_then (eval_assign_target_value rt target) (\<lambda>left.
     ev_then (to_nu rt ''augmented assignment'' (eval_expr rt inp value)) (\<lambda>right.
     ev_then (ev_lift (apply_aug_op op left right)) (\<lambda>v.
     ev_then (assign_value rt target (RNu v) record_session) (\<lambda>_. ev_ret (FOutput PEmpty)))))"

section \<open>The fused counter update\<close>

definition record_contains_key :: "string \<Rightarrow> string \<Rightarrow> bool ev" where
  "record_contains_key map_name key = (\<lambda>st. (case get_local map_name st of
     None \<Rightarrow> Inl (unknown_name ''membership'' map_name)
   | Some v \<Rightarrow> (case Option.bind (nu_part v) nu_record of
       None \<Rightarrow> Inl (stone_error ''membership'' ''{} is not a record'' [MStr map_name])
     | Some r \<Rightarrow> Inr (record_get r key \<noteq> None)), st))"

definition apply_fused_map_update :: "string \<Rightarrow> string \<Rightarrow> nu_value \<Rightarrow> bool \<Rightarrow> unit ev" where
  "apply_fused_map_update map_name key addend exists = (\<lambda>st. case get_local map_name st of
     None \<Rightarrow> (Inl (unknown_name ''assignment'' map_name), st)
   | Some v \<Rightarrow> (case Option.bind (nu_part v) nu_record of
       None \<Rightarrow> (Inl (stone_error ''assignment'' ''{} is not a record'' [MStr map_name]), st)
     | Some r \<Rightarrow> (case (if exists
           then and_then (ok_or (stone_error ''assignment'' ''record has no key `{}`'' [MStr key])
                  (record_get r key)) (\<lambda>slot. add_values slot addend)
           else Inr addend) of
         Inl e \<Rightarrow> (Inl e, st)
       | Inr w \<Rightarrow> (Inr (), write_local_mut map_name (RNu (VRecord (record_insert key w r))) st))))"

definition append_fused_key :: "string \<Rightarrow> nu_value \<Rightarrow> unit ev" where
  "append_fused_key list_name key = (\<lambda>st. case get_local list_name st of
     None \<Rightarrow> (Inl (unknown_name ''append'' list_name), st)
   | Some v \<Rightarrow> (case Option.bind (nu_part v) nu_list of
       None \<Rightarrow> (Inl (stone_error ''append'' ''{} is not a list'' [MStr list_name]), st)
     | Some vs \<Rightarrow> (Inr (), write_local_mut list_name (RNu (VList (vs @ [key]))) st)))"

primrec eval_addends :: "runtime \<Rightarrow> fused_update list \<Rightarrow> nu_value list ev" where
  "eval_addends rt [] = ev_ret []"
| "eval_addends rt (u # us) =
     ev_then (to_nu rt ''addition'' (eval_expr rt PEmpty (fu_addend u))) (\<lambda>v.
     ev_then (eval_addends rt us) (\<lambda>vs. ev_ret (v # vs)))"

primrec apply_updates :: "string \<Rightarrow> bool \<Rightarrow> (fused_update \<times> nu_value) list \<Rightarrow> unit ev" where
  "apply_updates key exists [] = ev_ret ()"
| "apply_updates key exists (u # us) =
     ev_then (apply_fused_map_update (fu_map_name (fst u)) key (snd u) exists) (\<lambda>_.
     apply_updates key exists us)"

definition execute_fused_map_update_if :: "runtime \<Rightarrow> fused_if \<Rightarrow> unit ev" where
  "execute_fused_map_update_if rt plan = (\<lambda>st. case get_local (fi_key_name plan) st of
     None \<Rightarrow> (Inl (unknown_name ''membership'' (fi_key_name plan)), st)
   | Some key \<Rightarrow>
       ev_then (ev_lift (runtime_value_to_string_key rt key ''membership'')) (\<lambda>key_text.
       ev_then (eval_addends rt (fi_updates plan)) (\<lambda>addends.
       ev_then (record_contains_key (fi_contains_map plan) key_text) (\<lambda>exists.
       ev_then (apply_updates key_text exists (zip (fi_updates plan) addends)) (\<lambda>_.
       case (exists, fi_append_list plan) of
         (False, Some list_name) \<Rightarrow>
           ev_then (ev_lift (into_nu_value (rt_materialize rt) key ''append''))
             (append_fused_key list_name)
       | _ \<Rightarrow> ev_ret ())))) st)"

section \<open>Loops\<close>

definition value_to_iter_values :: "nu_value \<Rightarrow> nu_value list res" where
  "value_to_iter_values v = (case v of
     VList vs \<Rightarrow> Inr vs
   | VRecord r \<Rightarrow> Inr (List.map (\<lambda>p. VString (fst p)) r)
   | _ \<Rightarrow> (case nu_text v of
       Some s \<Rightarrow> Inr (List.map VString (str_lines s))
     | None \<Rightarrow> Inl (stone_error ''iteration'' ''cannot iterate {}'' [MType v])))"

definition eval_iterable_value :: "runtime \<Rightarrow> rvalue \<Rightarrow> rvalue list ev" where
  "eval_iterable_value rt v = (case v of
     RNu n \<Rightarrow> ev_lift (and_then (value_to_iter_values n) (\<lambda>vs. Inr (List.map RNu vs)))
   | RTextLines ls _ \<Rightarrow> ev_ret (List.map (\<lambda>l. RNu (VString l)) ls)
   | RJsonlRows rows \<Rightarrow> ev_ret (jsonl_row_views rows)
   | RJsonArrayView view \<Rightarrow> ev_lift (json_array_view_iter_values (rt_serde rt) view)
   | _ \<Rightarrow> rt_iterate_other rt v)"

primrec eval_for_values ::
  "runtime \<Rightarrow> string list \<Rightarrow> flow ev \<Rightarrow> rvalue list \<Rightarrow> pipeline \<Rightarrow> flow ev" where
  "eval_for_values rt targets body [] output = ev_ret (FOutput output)"
| "eval_for_values rt targets body (v # vs) output =
     ev_then (assign_loop_targets rt targets v) (\<lambda>_.
     ev_then body (\<lambda>fl. case fl of
       FOutput p \<Rightarrow> eval_for_values rt targets body vs p
     | FBreak \<Rightarrow> ev_ret (FOutput output)
     | FContinue \<Rightarrow> eval_for_values rt targets body vs output
     | FReturn r \<Rightarrow> ev_ret (FReturn r)))"

function eval_while :: "int \<Rightarrow> bool ev \<Rightarrow> flow ev \<Rightarrow> pipeline \<Rightarrow> flow ev" where
  "eval_while fuel condition body output =
     (if fuel \<le> 0 then ev_fail (stone_error ''while'' ''while loop exceeded 1000000 iterations'' [])
      else ev_then condition (\<lambda>c.
        if \<not> c then ev_ret (FOutput output)
        else ev_then body (\<lambda>fl. case fl of
          FOutput p \<Rightarrow> eval_while (fuel - 1) condition body p
        | FBreak \<Rightarrow> ev_ret (FOutput output)
        | FContinue \<Rightarrow> eval_while (fuel - 1) condition body output
        | FReturn r \<Rightarrow> ev_ret (FReturn r))))"
  by auto

termination eval_while
  by (relation "measure (\<lambda>(fuel, _). nat fuel)") auto

declare eval_while.simps [simp del]

text \<open>With the hot loop mode on, every loop with one target is a candidate; a loop with no plan at all
  counts as a miss.\<close>

definition note_candidate :: "string list \<Rightarrow> expr \<Rightarrow> stmt list \<Rightarrow> unit ev" where
  "note_candidate targets iter body = ev_update (\<lambda>st.
     if es_hot_enabled st \<and> length targets = 1 then
       with_diagnostics (\<lambda>d.
         let d = d\<lparr> hd_loop_candidates := hd_loop_candidates d + 1 \<rparr>
         in if try_lower_hot_loop targets iter body = None \<and> try_lower_generic_loop targets iter body = None
            then diag_lowering_miss ''unsupported_iterator'' d else d) st
     else st)"

definition or_run :: "flow option ev \<Rightarrow> flow ev \<Rightarrow> flow ev" where
  "or_run attempt fallback = ev_then attempt (\<lambda>r. case r of Some fl \<Rightarrow> ev_ret fl | None \<Rightarrow> fallback)"

definition try_plan :: "('p \<Rightarrow> flow option ev) \<Rightarrow> 'p option \<Rightarrow> flow option ev" where
  "try_plan f plan = (case plan of None \<Rightarrow> ev_ret None | Some p \<Rightarrow> f p)"

text \<open>Rows with a prefix of lookups: a body that is an aggregation runs natively, any other row runs the
  lookups and then the statements behind them.\<close>

primrec eval_prefixed_rows ::
  "runtime \<Rightarrow> string list \<Rightarrow> hot_loop_op list \<Rightarrow> flow ev \<Rightarrow> json_view list \<Rightarrow> pipeline \<Rightarrow> flow ev" where
  "eval_prefixed_rows rt targets ops remaining [] output = ev_ret (FOutput output)"
| "eval_prefixed_rows rt targets ops remaining (row # rows) output =
     ev_then (assign_loop_targets rt targets (RJsonObjectView row)) (\<lambda>_.
     ev_then (execute_hot_loop_prefix rt row ops) (\<lambda>_.
     ev_then remaining (\<lambda>fl. case fl of
       FOutput p \<Rightarrow> eval_prefixed_rows rt targets ops remaining rows p
     | FBreak \<Rightarrow> ev_ret (FOutput output)
     | FContinue \<Rightarrow> eval_prefixed_rows rt targets ops remaining rows output
     | FReturn r \<Rightarrow> ev_ret (FReturn r))))"

definition eval_for_jsonl_rows_hot_prefix ::
  "runtime \<Rightarrow> string list \<Rightarrow> jsonl_rows \<Rightarrow> stmt list \<Rightarrow> hot_loop_plan \<Rightarrow> flow ev \<Rightarrow> flow ev" where
  "eval_for_jsonl_rows_hot_prefix rt targets rows body plan remaining =
     (case or_else (match_hot_jsonl_aggregation_body (hp_target plan) (drop (hp_body_start plan) body))
        (match_hot_jsonl_aggregation_body (hp_target plan) body) of
        Some body_plan \<Rightarrow> ev_then (eval_for_jsonl_rows_hot_native_body rt targets rows plan body_plan)
          (\<lambda>_. ev_ret (FOutput PEmpty))
      | None \<Rightarrow> eval_prefixed_rows rt targets (hp_ops plan) remaining
          (List.map (row_json_view rows) (rows_lines rows)) PEmpty)"

text \<open>A loop over files whose body aggregates the rows of each file.\<close>

definition runtime_value_record_string_field :: "serde \<Rightarrow> rvalue \<Rightarrow> string \<Rightarrow> string option res" where
  "runtime_value_record_string_field sj v field = (case v of
     RNu (VRecord r) \<Rightarrow> (case record_get r field of
       None \<Rightarrow> Inr None
     | Some n \<Rightarrow> and_then (value_to_string n ''record field'') (\<lambda>s. Inr (Some s)))
   | RJsonObjectView view \<Rightarrow> and_then (json_object_view_get sj view field) (\<lambda>found. case found of
       Some (RNu n) \<Rightarrow> (case nu_text n of
           Some s \<Rightarrow> Inr (Some s)
         | None \<Rightarrow> and_then (value_to_string n ''record field'') (\<lambda>s. Inr (Some s)))
     | _ \<Rightarrow> Inr None)
   | _ \<Rightarrow> Inr None)"

definition read_jsonl_rows_from_path :: "runtime \<Rightarrow> string \<Rightarrow> string \<Rightarrow> jsonl_rows res" where
  "read_jsonl_rows_from_path rt path context =
     and_then (rt_read_bytes rt path context) (\<lambda>(bytes, found_at). Inr (jsonl_rows_from_bytes bytes None found_at))"

primrec eval_jsonl_files :: "runtime \<Rightarrow> string \<Rightarrow> outer_jsonl_body \<Rightarrow> rvalue list \<Rightarrow> flow option ev" where
  "eval_jsonl_files rt file_target plan [] = ev_ret (Some (FOutput PEmpty))"
| "eval_jsonl_files rt file_target plan (v # vs) =
     ev_then (ev_lift (runtime_value_record_string_field (rt_serde rt) v ''path'')) (\<lambda>found. case found of
       None \<Rightarrow> ev_ret None
     | Some path \<Rightarrow>
         ev_then (ev_update (set_local file_target v)) (\<lambda>_.
         ev_then (ev_lift (read_jsonl_rows_from_path rt path ''read_jsonl'')) (\<lambda>rows.
         ev_then (eval_for_jsonl_rows_generic_native_body rt [oj_row_target plan] rows
           \<lparr> gp_target = oj_row_target plan, gp_iter = ReadJsonl, gp_ops = [GJsonlAggregation (oj_body plan)] \<rparr>) (\<lambda>_.
         eval_jsonl_files rt file_target plan vs))))"

definition try_eval_outer_jsonl_file_loop ::
  "runtime \<Rightarrow> string list \<Rightarrow> stmt list \<Rightarrow> rvalue list \<Rightarrow> flow option ev" where
  "try_eval_outer_jsonl_file_loop rt targets body vs = (\<lambda>st.
     if \<not> es_hot_enabled st then (Inr None, st)
     else case dest_one targets of
       None \<Rightarrow> (Inr None, st)
     | Some file_target \<Rightarrow> (case match_outer_jsonl_file_loop_body file_target body of
         None \<Rightarrow> (Inr None, st)
       | Some plan \<Rightarrow> eval_jsonl_files rt file_target plan vs st))"

text \<open>The argument \<open>block\<close> runs the statements of the body from an index on.\<close>

definition eval_for_iterable ::
  "runtime \<Rightarrow> bool \<Rightarrow> string list \<Rightarrow> expr \<Rightarrow> stmt list \<Rightarrow> (nat \<Rightarrow> flow ev) \<Rightarrow> rvalue \<Rightarrow> flow ev" where
  "eval_for_iterable rt hot targets iter body block iterable = (
     let generic_plan = (if hot then try_lower_generic_loop targets iter body else None);
         hot_plan = (if hot then try_lower_hot_loop targets iter body else None)
     in case iterable of
       RJsonlRows rows \<Rightarrow>
         or_run (try_plan (try_eval_for_jsonl_rows_generic_vm rt targets rows) generic_plan)
           (case hot_plan of
              Some plan \<Rightarrow> eval_for_jsonl_rows_hot_prefix rt targets rows body plan (block (hp_body_start plan))
            | None \<Rightarrow> eval_for_values rt targets (block 0) (jsonl_row_views rows) PEmpty)
     | RTextLines lines source \<Rightarrow>
         (let values = List.map (\<lambda>l. RNu (VString l)) lines in
         or_run (try_plan (try_eval_for_text_lines_generic_vm rt targets lines source) generic_plan)
           (case Option.bind hot_plan (\<lambda>p. case hp_iter p of
                HotJsonlTextLines _ \<Rightarrow> Some p | HotReadJsonl \<Rightarrow> None) of
              Some plan \<Rightarrow> (case eval_for_text_lines_hot_jsonl rt targets lines source body plan of
                  Some m \<Rightarrow> ev_then m (\<lambda>_. ev_ret (FOutput PEmpty))
                | None \<Rightarrow> ev_then (count_diag (diag_lowering_miss ''unsupported_body_stmt''))
                    (\<lambda>_. eval_for_values rt targets (block 0) values PEmpty))
            | None \<Rightarrow> eval_for_values rt targets (block 0) values PEmpty))
     | _ \<Rightarrow>
         ev_then (eval_iterable_value rt iterable) (\<lambda>vs.
         or_run (try_eval_outer_jsonl_file_loop rt targets body vs)
        (or_run (try_plan (try_eval_for_values_generic_vm rt targets vs) generic_plan)
           (eval_for_values rt targets (block 0) vs PEmpty))))"

definition eval_for_stmt ::
  "runtime \<Rightarrow> string list \<Rightarrow> expr \<Rightarrow> stmt list \<Rightarrow> (nat \<Rightarrow> flow ev) \<Rightarrow> flow ev" where
  "eval_for_stmt rt targets iter body block = (\<lambda>st.
     ev_then (note_candidate targets iter body) (\<lambda>_.
     ev_then (eval_expr rt PEmpty iter) (\<lambda>iterable.
     eval_for_iterable rt (es_hot_enabled st) targets iter body block iterable)) st)"

section \<open>Statements and blocks\<close>

definition truthy_ev :: "runtime \<Rightarrow> string \<Rightarrow> rvalue ev \<Rightarrow> bool ev" where
  "truthy_ev rt context m = ev_then (to_nu rt context m) (\<lambda>v. ev_ret (value_truthy (rt_is_empty rt) v))"

definition eval_expr_stmt :: "runtime \<Rightarrow> pipeline \<Rightarrow> expr \<Rightarrow> flow ev" where
  "eval_expr_stmt rt inp e =
     ev_then (to_nu rt ''pipeline'' (eval_expr rt inp e)) (\<lambda>v. ev_ret (FOutput (PValue v)))"

definition eval_return :: "runtime \<Rightarrow> pipeline \<Rightarrow> expr option \<Rightarrow> flow ev" where
  "eval_return rt inp value = (case value of
     Some e \<Rightarrow> ev_then (eval_expr rt inp e) (\<lambda>v. ev_ret (FReturn v))
   | None \<Rightarrow> ev_ret (FReturn (RNu VNothing)))"

definition eval_if :: "runtime \<Rightarrow> pipeline \<Rightarrow> expr \<Rightarrow> stmt list \<Rightarrow> stmt list \<Rightarrow> flow ev \<Rightarrow> flow ev \<Rightarrow> flow ev" where
  "eval_if rt inp condition then_branch else_branch then_ev else_ev = (\<lambda>st.
     case (if es_hot_enabled st then match_fused_map_update_if condition then_branch else_branch else None) of
       Some plan \<Rightarrow> ev_then (execute_fused_map_update_if rt plan) (\<lambda>_. ev_ret (FOutput PEmpty)) st
     | None \<Rightarrow> ev_then (truthy_ev rt ''if'' (eval_expr rt inp condition)) (\<lambda>c.
         if c then then_ev else else_ev) st)"

lemma size_list_drop [termination_simp]: "size_list f (drop n xs) \<le> size_list f xs"
proof (induction xs arbitrary: n)
  case (Cons x xs)
  then show ?case by (cases n) (simp_all add: le_SucI trans_le_add2)
qed simp

function (sequential) eval_stmt :: "runtime \<Rightarrow> pipeline \<Rightarrow> bool \<Rightarrow> stmt \<Rightarrow> flow ev"
  and eval_block :: "runtime \<Rightarrow> pipeline \<Rightarrow> bool \<Rightarrow> pipeline \<Rightarrow> stmt list \<Rightarrow> flow ev" where
  "eval_stmt rt inp record_session (SAssign target value) = eval_assign rt inp target value record_session"
| "eval_stmt rt inp record_session (SAugAssign target op value) =
     eval_aug_assign rt inp target op value record_session"
| "eval_stmt rt inp record_session SPass = ev_ret (FOutput PEmpty)"
| "eval_stmt rt inp record_session (SReturn value) = eval_return rt inp value"
| "eval_stmt rt inp record_session (SFor targets iter body) =
     eval_for_stmt rt targets iter body (\<lambda>start. eval_block rt PEmpty False PEmpty (drop start body))"
| "eval_stmt rt inp record_session (SWhile condition body) =
     eval_while 1000000 (truthy_ev rt ''while'' (eval_expr rt PEmpty condition))
       (eval_block rt PEmpty False PEmpty body) PEmpty"
| "eval_stmt rt inp record_session (SIf condition then_branch else_branch) =
     eval_if rt inp condition then_branch else_branch
       (eval_block rt PEmpty False PEmpty then_branch) (eval_block rt PEmpty False PEmpty else_branch)"
| "eval_stmt rt inp record_session SBreak = ev_ret FBreak"
| "eval_stmt rt inp record_session SContinue = ev_ret FContinue"
| "eval_stmt rt inp record_session (SExpr e) = eval_expr_stmt rt inp e"
| "eval_stmt rt inp record_session s = rt_other_stmt rt inp s"
| "eval_block rt inp record_session output [] = ev_ret (FOutput output)"
| "eval_block rt inp record_session output (s # body) =
     ev_then (eval_stmt rt inp record_session s) (\<lambda>fl. case fl of
       FOutput p \<Rightarrow> eval_block rt PEmpty record_session p body
     | _ \<Rightarrow> ev_ret fl)"
  by pat_completeness auto

termination
  by (relation "measure (case_sum (\<lambda>(_, _, _, s). size s) (\<lambda>(_, _, _, _, body). size_list size body))")
     (auto intro: le_less_trans [OF size_list_drop])

end
