(* ===== verification/Expr_Correct.thy ===== *)
theory Expr_Correct
  imports Eval_Stmt "HOL-Library.Sublist"
begin

unbundle bit_operations_syntax

text \<open>The register code of an integer loop body computes the meaning of the body. The meaning is given
  on environments that map a name to the integer it holds: \<open>frag_expr\<close> and \<open>frag_stmts\<close>. One half of
  the argument relates code to this meaning (here), the other half relates the evaluator to it.\<close>

section \<open>The integer fragment\<close>

type_synonym int_env = "string \<Rightarrow> i64 option"

definition add_i64 :: "i64 \<Rightarrow> i64 \<Rightarrow> i64 res" where
  "add_i64 a b = ok_or (stone_error ''addition'' ''integer addition overflow'' []) (checked_add a b)"

definition sub_i64 :: "i64 \<Rightarrow> i64 \<Rightarrow> i64 res" where
  "sub_i64 a b = ok_or (stone_error ''subtraction'' ''integer subtraction overflow'' []) (checked_sub a b)"

definition mul_i64 :: "i64 \<Rightarrow> i64 \<Rightarrow> i64 res" where
  "mul_i64 a b = ok_or (stone_error ''multiplication'' ''integer multiplication overflow'' []) (checked_mul a b)"

definition floor_div_i64 :: "i64 \<Rightarrow> i64 \<Rightarrow> i64 res" where
  "floor_div_i64 a b = (if b = 0 then Inl (stone_error ''floor division'' ''division by zero'' [])
     else python_floor_div_i64 a b)"

definition mod_i64 :: "i64 \<Rightarrow> i64 \<Rightarrow> i64 res" where
  "mod_i64 a b = (if b = 0 then Inl (stone_error ''modulo'' ''modulo by zero'' []) else python_mod_i64 a b)"

definition shift_i64 :: "string \<Rightarrow> (i64 \<Rightarrow> nat \<Rightarrow> i64 option) \<Rightarrow> i64 \<Rightarrow> i64 \<Rightarrow> i64 res" where
  "shift_i64 context op a b =
     and_then (ok_or (stone_error context ''shift count must be non-negative'' []) (u32_of_i64 b)) (\<lambda>n.
     ok_or (stone_error context ''shift count is too large'' []) (op a n))"

definition neg_i64 :: "i64 \<Rightarrow> i64 res" where
  "neg_i64 a = ok_or (stone_error ''unary minus'' ''integer negation overflow'' []) (checked_neg a)"

definition frag_unary :: "(i64 \<Rightarrow> i64 res) \<Rightarrow> i64 vm_res \<Rightarrow> i64 vm_res" where
  "frag_unary f m = vm_then m (\<lambda>a. vm_done (f a))"

definition frag_binary :: "(i64 \<Rightarrow> i64 \<Rightarrow> i64 res) \<Rightarrow> i64 vm_res \<Rightarrow> i64 vm_res \<Rightarrow> i64 vm_res" where
  "frag_binary f m n = vm_then m (\<lambda>a. vm_then n (\<lambda>b. vm_done (f a b)))"

fun frag_expr :: "int_env \<Rightarrow> expr \<Rightarrow> i64 vm_res" where
  "frag_expr env (EInt t) = vm_need ''unsupported_expr'' (parse_i64_ok t)"
| "frag_expr env (EName x) = vm_need ''unsupported_expr_name'' (env x)"
| "frag_expr env (EInvert e) = frag_unary (\<lambda>a. Inr (NOT a)) (frag_expr env e)"
| "frag_expr env (ENeg e) = frag_unary neg_i64 (frag_expr env e)"
| "frag_expr env (EAdd l r) = frag_binary add_i64 (frag_expr env l) (frag_expr env r)"
| "frag_expr env (ESub l r) = frag_binary sub_i64 (frag_expr env l) (frag_expr env r)"
| "frag_expr env (EMul l r) = frag_binary mul_i64 (frag_expr env l) (frag_expr env r)"
| "frag_expr env (EFloorDiv l r) = frag_binary floor_div_i64 (frag_expr env l) (frag_expr env r)"
| "frag_expr env (EMod l r) = frag_binary mod_i64 (frag_expr env l) (frag_expr env r)"
| "frag_expr env (EBitAnd l r) = frag_binary (\<lambda>a b. Inr (a AND b)) (frag_expr env l) (frag_expr env r)"
| "frag_expr env (EBitOr l r) = frag_binary (\<lambda>a b. Inr (a OR b)) (frag_expr env l) (frag_expr env r)"
| "frag_expr env (EBitXor l r) = frag_binary (\<lambda>a b. Inr (a XOR b)) (frag_expr env l) (frag_expr env r)"
| "frag_expr env (ELShift l r) =
     frag_binary (shift_i64 ''left shift'' checked_shl) (frag_expr env l) (frag_expr env r)"
| "frag_expr env (ERShift l r) =
     frag_binary (shift_i64 ''right shift'' checked_shr) (frag_expr env l) (frag_expr env r)"
| "frag_expr env _ = Inr (Miss ''unsupported_expr'')"

definition frag_stmt :: "int_env \<Rightarrow> stmt \<Rightarrow> int_env vm_res" where
  "frag_stmt env s = (case s of
     SAssign t e \<Rightarrow> vm_then (vm_need ''unsupported_stmt'' (dest_target_name t)) (\<lambda>x.
       vm_then (frag_expr env e) (\<lambda>v. Inr (Done (env(x \<mapsto> v)))))
   | SAugAssign t op e \<Rightarrow> vm_then (vm_need ''unsupported_stmt''
         (if op = AugAdd then dest_target_name t else None)) (\<lambda>x.
       vm_then (vm_need ''unsupported_expr_name'' (env x)) (\<lambda>a.
       vm_then (frag_expr env e) (\<lambda>b.
       vm_then (vm_done (add_i64 a b)) (\<lambda>v. Inr (Done (env(x \<mapsto> v)))))))
   | _ \<Rightarrow> Inr (Miss ''unsupported_stmt''))"

primrec frag_stmts :: "int_env \<Rightarrow> stmt list \<Rightarrow> int_env vm_res" where
  "frag_stmts env [] = Inr (Done env)"
| "frag_stmts env (s # body) = vm_then (frag_stmt env s) (\<lambda>env. frag_stmts env body)"

section \<open>Locals as an environment\<close>

definition slot_env :: "string list \<Rightarrow> slots \<Rightarrow> int_env" where
  "slot_env names locals = (\<lambda>x. Option.bind (position (\<lambda>y. y = x) names) (\<lambda>i. locals ! i))"

lemma position_eq_nth: "distinct xs \<Longrightarrow> i < length xs \<Longrightarrow> position (\<lambda>y. y = xs ! i) xs = Some i"
proof (induction xs arbitrary: i)
  case (Cons x xs)
  then show ?case by (cases i) auto
qed simp

lemma position_eq_SomeD: "position (\<lambda>y. y = x) xs = Some i \<Longrightarrow> i < length xs \<and> xs ! i = x"
  by (auto dest: position_SomeD)

lemma slot_env_nth: "distinct names \<Longrightarrow> i < length names \<Longrightarrow> slot_env names locals (names ! i) = locals ! i"
  by (simp add: slot_env_def position_eq_nth)

lemma slot_env_update:
  assumes "distinct names" and "i < length names" and "length locals = length names"
  shows "slot_env names (locals[i := Some v]) = (slot_env names locals)(names ! i \<mapsto> v)"
proof
  fix x
  show "slot_env names (locals[i := Some v]) x = ((slot_env names locals)(names ! i \<mapsto> v)) x"
  proof (cases "position (\<lambda>y. y = x) names")
    case None
    then have "x \<noteq> names ! i" using assms by (auto simp: position_eq_None)
    with None show ?thesis by (simp add: slot_env_def)
  next
    case (Some j)
    from position_eq_SomeD [OF this] have "j < length names" "names ! j = x" by auto
    with Some assms show ?thesis
      by (auto simp: slot_env_def nth_list_update nth_eq_iff_index_eq)
  qed
qed

lemma intern_spec:
  assumes "intern x xs = (i, ys)"
  shows "prefix xs ys \<and> i < length ys \<and> ys ! i = x \<and> (distinct xs \<longrightarrow> distinct ys)"
proof (cases "position (\<lambda>y. y = x) xs")
  case None
  with assms have "ys = xs @ [x]" "i = length xs" by (auto simp: intern_def)
  moreover have "x \<notin> set xs" using None by (auto simp: position_eq_None)
  ultimately show ?thesis by simp
next
  case (Some j)
  with assms show ?thesis by (auto simp: intern_def dest: position_eq_SomeD)
qed

lemma prefix_nth: "prefix xs ys \<Longrightarrow> i < length xs \<Longrightarrow> i < length ys \<and> ys ! i = xs ! i"
  by (auto simp: prefix_def nth_append)

section \<open>Operations of the machine\<close>

definition implements_unary :: "(nat \<Rightarrow> nat \<Rightarrow> expr_op) \<Rightarrow> (i64 \<Rightarrow> i64 res) \<Rightarrow> bool" where
  "implements_unary op f \<longleftrightarrow> (\<forall>cs ls regs dst src a.
     src < length regs \<and> regs ! src = Some a \<and> dst < length regs \<longrightarrow>
     exec_expr_op cs (op dst src) (ls, regs)
       = vm_done (and_then (f a) (\<lambda>v. Inr (ls, regs[dst := Some v]))))"

definition implements_binary :: "(nat \<Rightarrow> nat \<Rightarrow> nat \<Rightarrow> expr_op) \<Rightarrow> (i64 \<Rightarrow> i64 \<Rightarrow> i64 res) \<Rightarrow> bool" where
  "implements_binary op f \<longleftrightarrow> (\<forall>cs ls regs dst lhs rhs a b.
     lhs < length regs \<and> regs ! lhs = Some a \<and> rhs < length regs \<and> regs ! rhs = Some b
       \<and> dst < length regs \<longrightarrow>
     exec_expr_op cs (op dst lhs rhs) (ls, regs)
       = vm_done (and_then (f a b) (\<lambda>v. Inr (ls, regs[dst := Some v]))))"

lemmas register_simps = with_regs_def generic_vm_register_i64_def generic_vm_set_register_def
  generic_vm_store_i64_binop_def generic_vm_store_shift_def store_bitwise_def store_division_def
  exec_expr_op_def and_then_assoc

lemma implements_ops:
  "implements_unary NegI64 neg_i64"
  "implements_unary BitNotI64 (\<lambda>a. Inr (NOT a))"
  "implements_binary AddI64 add_i64"
  "implements_binary SubI64 sub_i64"
  "implements_binary MulI64 mul_i64"
  "implements_binary FloorDivI64 floor_div_i64"
  "implements_binary ModI64 mod_i64"
  "implements_binary BitAndI64 (\<lambda>a b. Inr (a AND b))"
  "implements_binary BitOrI64 (\<lambda>a b. Inr (a OR b))"
  "implements_binary BitXorI64 (\<lambda>a b. Inr (a XOR b))"
  "implements_binary ShlI64 (shift_i64 ''left shift'' checked_shl)"
  "implements_binary ShrI64 (shift_i64 ''right shift'' checked_shr)"
  by (simp_all add: implements_unary_def implements_binary_def register_simps neg_i64_def add_i64_def
        sub_i64_def mul_i64_def floor_div_i64_def mod_i64_def shift_i64_def)

section \<open>Code of expressions\<close>

definition delivers :: "i64 vm_res \<Rightarrow> (slots \<times> slots) vm_res \<Rightarrow> slots \<Rightarrow> slots \<Rightarrow> nat \<Rightarrow> nat \<Rightarrow> bool" where
  "delivers res run ls regs n r = (case res of
     Inl e \<Rightarrow> run = Inl e
   | Inr (Miss m) \<Rightarrow> run = Inr (Miss m)
   | Inr (Done v) \<Rightarrow> \<exists>regs'. run = Inr (Done (ls, regs')) \<and> length regs' = length regs
       \<and> regs' ! r = Some v \<and> (\<forall>i<n. regs' ! i = regs ! i))"

lemma delivers_simps [simp]:
  "delivers (Inl e) run ls regs n r \<longleftrightarrow> run = Inl e"
  "delivers (Inr (Miss m)) run ls regs n r \<longleftrightarrow> run = Inr (Miss m)"
  "delivers (Inr (Done v)) run ls regs n r \<longleftrightarrow> (\<exists>regs'. run = Inr (Done (ls, regs'))
      \<and> length regs' = length regs \<and> regs' ! r = Some v \<and> (\<forall>i<n. regs' ! i = regs ! i))"
  by (simp_all add: delivers_def)

definition extends :: "vm_builder \<Rightarrow> vm_builder \<Rightarrow> bool" where
  "extends b b' \<longleftrightarrow> prefix (vb_locals b) (vb_locals b') \<and> (distinct (vb_locals b) \<longrightarrow> distinct (vb_locals b'))
     \<and> prefix (vb_constants b) (vb_constants b') \<and> vb_next b \<le> vb_next b'"

lemma extends_refl [simp]: "extends b b"
  by (simp add: extends_def)

lemma extends_trans: "extends a b \<Longrightarrow> extends b c \<Longrightarrow> extends a c"
  by (auto simp: extends_def intro: prefix_order.trans)

text \<open>The code runs in any context: with more locals, more constants and more registers behind those
  the builder knows so far.\<close>

definition fits :: "vm_builder \<Rightarrow> string list \<Rightarrow> vm_const list \<Rightarrow> slots \<Rightarrow> slots \<Rightarrow> bool" where
  "fits b names cs ls regs \<longleftrightarrow> prefix (vb_locals b) names \<and> distinct names \<and> length ls = length names
     \<and> prefix (vb_constants b) cs \<and> vb_next b \<le> length regs"

lemma fits_mono: "extends b b' \<Longrightarrow> fits b' names cs ls regs \<Longrightarrow> fits b names cs ls regs"
  by (auto simp: extends_def fits_def intro: prefix_order.trans)

lemma fits_regs: "fits b names cs ls regs \<Longrightarrow> length regs' = length regs \<Longrightarrow> fits b names cs ls regs'"
  by (simp add: fits_def)

definition compiles :: "lowering \<Rightarrow> (int_env \<Rightarrow> i64 vm_res) \<Rightarrow> bool" where
  "compiles l s \<longleftrightarrow> (\<forall>b r b'. l b = Some (r, b') \<longrightarrow>
     extends b b' \<and> vb_next b \<le> r \<and> r < vb_next b' \<and>
     (\<exists>code. vb_ops b' = vb_ops b @ code \<and>
        (\<forall>names cs ls regs. fits b' names cs ls regs \<longrightarrow>
          delivers (s (slot_env names ls)) (execute_generic_vm_expr_ops cs code (ls, regs)) ls regs
            (vb_next b) r)))"

lemma compilesE:
  assumes "compiles l s" and "l b = Some (r, b')"
  obtains code where "extends b b'" and "vb_next b \<le> r" and "r < vb_next b'"
    and "vb_ops b' = vb_ops b @ code"
    and "\<And>names cs ls regs. fits b' names cs ls regs \<Longrightarrow>
      delivers (s (slot_env names ls)) (execute_generic_vm_expr_ops cs code (ls, regs)) ls regs
        (vb_next b) r"
  using assms unfolding compiles_def by metis

lemma emit_fields [simp]:
  "vb_locals (emit op b) = vb_locals b" "vb_constants (emit op b) = vb_constants b"
  "vb_next (emit op b) = vb_next b" "vb_ops (emit op b) = vb_ops b @ [op]"
  by (simp_all add: emit_def)

lemma builder_reg_spec:
  assumes "builder_reg b = (r, b')"
  shows "r = vb_next b" and "vb_next b' = vb_next b + 1" and "vb_locals b' = vb_locals b"
    and "vb_constants b' = vb_constants b" and "vb_ops b' = vb_ops b"
  using assms by (auto simp: builder_reg_def)

lemma builder_local_spec:
  assumes "builder_local x b = (i, b')"
  shows "extends b b'" and "vb_next b' = vb_next b" and "vb_constants b' = vb_constants b"
    and "vb_ops b' = vb_ops b" and "i < length (vb_locals b')" and "vb_locals b' ! i = x"
  using assms intern_spec [of x "vb_locals b"]
  by (auto simp: builder_local_def generic_vm_local_def extends_def split: prod.splits)

lemma builder_constant_spec:
  assumes "builder_constant c b = (i, b')"
  shows "extends b b'" and "vb_next b' = vb_next b" and "vb_locals b' = vb_locals b"
    and "vb_ops b' = vb_ops b" and "i < length (vb_constants b')" and "vb_constants b' ! i = c"
  using assms intern_spec [of c "vb_constants b"]
  by (auto simp: builder_constant_def extends_def split: prod.splits)

lemma compiles_int: "compiles (lower_int t) (\<lambda>_. vm_need ''unsupported_expr'' (parse_i64_ok t))"
  unfolding compiles_def
proof (intro allI impI)
  fix b r b'
  assume "lower_int t b = Some (r, b')"
  then obtain v c b1 dst b2 where v: "parse_i64_ok t = Some v"
    and c: "builder_constant (ConstI64 v) b = (c, b1)" and dst: "builder_reg b1 = (dst, b2)"
    and res: "r = dst" "b' = emit (LoadConst dst c) b2"
    by (auto simp: lower_int_def split: bind_splits prod.splits)
  note spec = builder_constant_spec [OF c] builder_reg_spec [OF dst]
  have "extends b b'" using spec res by (auto simp: extends_def)
  moreover have "delivers (Inr (Done v))
      (execute_generic_vm_expr_ops cs [LoadConst dst c] (ls, regs)) ls regs (vb_next b) r"
    if "fits b' names cs ls regs" for names cs ls regs
  proof -
    from that spec res have "vec_get cs c = Some (ConstI64 v)" and "dst < length regs"
      by (auto simp: fits_def vec_get_eq_Some dest: prefix_nth)
    with res spec show ?thesis by (simp add: register_simps)
  qed
  ultimately show "extends b b' \<and> vb_next b \<le> r \<and> r < vb_next b' \<and> (\<exists>code. vb_ops b' = vb_ops b @ code \<and>
      (\<forall>names cs ls regs. fits b' names cs ls regs \<longrightarrow>
        delivers (vm_need ''unsupported_expr'' (parse_i64_ok t))
          (execute_generic_vm_expr_ops cs code (ls, regs)) ls regs (vb_next b) r))"
    using spec res v by auto
qed

lemma load_local:
  assumes "fits b' names cs ls regs" and "i < length (vb_locals b')" and "vb_locals b' ! i = x"
    and "dst < length regs" and "n \<le> dst"
  shows "delivers (vm_need ''unsupported_expr_name'' (slot_env names ls x))
    (exec_expr_op cs (LoadLocal dst i) (ls, regs)) ls regs n dst"
proof -
  from assms have i: "i < length names" "names ! i = x" "length ls = length names" "distinct names"
    by (auto simp: fits_def dest: prefix_nth)
  then have "slot_env names ls x = ls ! i" by (metis slot_env_nth)
  with i assms show ?thesis by (cases "ls ! i") (simp_all add: register_simps)
qed

lemma vm_then_Done [simp]: "vm_then r (\<lambda>x. Inr (Done x)) = r"
  by (cases r rule: vm_res_cases) simp_all

lemma exec_Nil [simp]: "vm_then r (execute_generic_vm_expr_ops cs []) = r"
  by (cases r rule: vm_res_cases) simp_all

lemma compiles_name: "compiles (lower_name x) (\<lambda>env. vm_need ''unsupported_expr_name'' (env x))"
  unfolding compiles_def
proof (intro allI impI)
  fix b r b'
  assume "lower_name x b = Some (r, b')"
  then obtain i b1 dst b2 where i: "builder_local x b = (i, b1)" and dst: "builder_reg b1 = (dst, b2)"
    and res: "r = dst" "b' = emit (LoadLocal dst i) b2"
    by (auto simp: lower_name_def split: prod.splits)
  note spec = builder_local_spec [OF i] builder_reg_spec [OF dst]
  have "extends b b'" using spec res by (auto simp: extends_def)
  moreover have "delivers (vm_need ''unsupported_expr_name'' (slot_env names ls x))
      (execute_generic_vm_expr_ops cs [LoadLocal dst i] (ls, regs)) ls regs (vb_next b) r"
    if "fits b' names cs ls regs" for names cs ls regs
    using load_local [OF that, of i x dst "vb_next b"] that spec res by (simp add: fits_def)
  ultimately show "extends b b' \<and> vb_next b \<le> r \<and> r < vb_next b' \<and> (\<exists>code. vb_ops b' = vb_ops b @ code \<and>
      (\<forall>names cs ls regs. fits b' names cs ls regs \<longrightarrow>
        delivers (vm_need ''unsupported_expr_name'' (slot_env names ls x))
          (execute_generic_vm_expr_ops cs code (ls, regs)) ls regs (vb_next b) r))"
    using spec res by auto
qed

lemma compiles_unary:
  assumes op: "implements_unary op f" and l: "compiles l s"
  shows "compiles (lower_unary op l) (\<lambda>env. frag_unary f (s env))"
  unfolding compiles_def
proof (intro allI impI)
  fix b r b'
  assume "lower_unary op l b = Some (r, b')"
  then obtain src b1 dst b2 where l1: "l b = Some (src, b1)" and dst: "builder_reg b1 = (dst, b2)"
    and res: "r = dst" "b' = emit (op dst src) b2"
    by (auto simp: lower_unary_def split: bind_splits prod.splits)
  note spec = builder_reg_spec [OF dst]
  obtain code where ext: "extends b b1" and src: "vb_next b \<le> src" "src < vb_next b1"
    and ops: "vb_ops b1 = vb_ops b @ code"
    and run: "\<And>names cs ls regs. fits b1 names cs ls regs \<Longrightarrow>
      delivers (s (slot_env names ls)) (execute_generic_vm_expr_ops cs code (ls, regs)) ls regs
        (vb_next b) src"
    using compilesE [OF l l1] by metis
  have "extends b1 b'" using spec res by (auto simp: extends_def)
  with ext have "extends b b'" by (rule extends_trans)
  moreover have "delivers (frag_unary f (s (slot_env names ls)))
      (execute_generic_vm_expr_ops cs (code @ [op dst src]) (ls, regs)) ls regs (vb_next b) r"
    if fit: "fits b' names cs ls regs" for names cs ls regs
  proof -
    have r: "dst < length regs" "vb_next b \<le> dst" "src < length regs"
      using fit spec res src ext by (auto simp: fits_def extends_def)
    note D = run [OF fits_mono [OF \<open>extends b1 b'\<close> fit]]
    show ?thesis
    proof (cases "s (slot_env names ls)" rule: vm_res_cases)
      case (Done a)
      with D obtain regs' where *: "execute_generic_vm_expr_ops cs code (ls, regs) = Inr (Done (ls, regs'))"
        "length regs' = length regs" "regs' ! src = Some a" "\<forall>i<vb_next b. regs' ! i = regs ! i"
        by auto
      with op r have "exec_expr_op cs (op dst src) (ls, regs')
          = vm_done (and_then (f a) (\<lambda>v. Inr (ls, regs'[dst := Some v])))"
        unfolding implements_unary_def by simp
      with Done * r res show ?thesis by (cases "f a") (auto simp: frag_unary_def exec_append)
    qed (use D in \<open>auto simp: frag_unary_def exec_append\<close>)
  qed
  ultimately show "extends b b' \<and> vb_next b \<le> r \<and> r < vb_next b' \<and> (\<exists>code. vb_ops b' = vb_ops b @ code \<and>
      (\<forall>names cs ls regs. fits b' names cs ls regs \<longrightarrow>
        delivers (frag_unary f (s (slot_env names ls)))
          (execute_generic_vm_expr_ops cs code (ls, regs)) ls regs (vb_next b) r))"
    using spec res src ext ops by (auto simp: extends_def intro!: exI [of _ "code @ [op dst src]"])
qed

lemma compiles_binary:
  assumes op: "implements_binary op f" and l: "compiles l s" and m: "compiles m t"
  shows "compiles (lower_binary op l m) (\<lambda>env. frag_binary f (s env) (t env))"
  unfolding compiles_def
proof (intro allI impI)
  fix b r b'
  assume "lower_binary op l m b = Some (r, b')"
  then obtain lhs b1 rhs b2 dst b3 where l1: "l b = Some (lhs, b1)" and m1: "m b1 = Some (rhs, b2)"
    and dst: "builder_reg b2 = (dst, b3)" and res: "r = dst" "b' = emit (op dst lhs rhs) b3"
    by (auto simp: lower_binary_def split: bind_splits prod.splits)
  note spec = builder_reg_spec [OF dst]
  obtain code where ext: "extends b b1" and lhs: "vb_next b \<le> lhs" "lhs < vb_next b1"
    and ops: "vb_ops b1 = vb_ops b @ code"
    and run: "\<And>names cs ls regs. fits b1 names cs ls regs \<Longrightarrow>
      delivers (s (slot_env names ls)) (execute_generic_vm_expr_ops cs code (ls, regs)) ls regs
        (vb_next b) lhs"
    using compilesE [OF l l1] by metis
  obtain code2 where ext2: "extends b1 b2" and rhs: "vb_next b1 \<le> rhs" "rhs < vb_next b2"
    and ops2: "vb_ops b2 = vb_ops b1 @ code2"
    and run2: "\<And>names cs ls regs. fits b2 names cs ls regs \<Longrightarrow>
      delivers (t (slot_env names ls)) (execute_generic_vm_expr_ops cs code2 (ls, regs)) ls regs
        (vb_next b1) rhs"
    using compilesE [OF m m1] by metis
  have ext3: "extends b2 b'" using spec res by (auto simp: extends_def)
  have "extends b b'" using ext ext2 ext3 by (blast intro: extends_trans)
  moreover have "delivers (frag_binary f (s (slot_env names ls)) (t (slot_env names ls)))
      (execute_generic_vm_expr_ops cs (code @ code2 @ [op dst lhs rhs]) (ls, regs)) ls regs (vb_next b) r"
    if fit: "fits b' names cs ls regs" for names cs ls regs
  proof -
    have r: "dst < length regs" "vb_next b \<le> dst" "lhs < length regs" "rhs < length regs"
      "vb_next b \<le> vb_next b1"
      using fit spec res lhs rhs ext ext2 by (auto simp: fits_def extends_def)
    have fit2: "fits b2 names cs ls regs" using ext3 fit by (rule fits_mono)
    note D = run [OF fits_mono [OF ext2 fit2]]
    show ?thesis
    proof (cases "s (slot_env names ls)" rule: vm_res_cases)
      case (Done a)
      with D obtain regs1 where 1: "execute_generic_vm_expr_ops cs code (ls, regs) = Inr (Done (ls, regs1))"
        "length regs1 = length regs" "regs1 ! lhs = Some a" "\<forall>i<vb_next b. regs1 ! i = regs ! i"
        by auto
      note E = run2 [OF fits_regs [OF fit2 1(2)]]
      show ?thesis
      proof (cases "t (slot_env names ls)" rule: vm_res_cases)
        case (Done c)
        with E obtain regs2 where 2: "execute_generic_vm_expr_ops cs code2 (ls, regs1) = Inr (Done (ls, regs2))"
          "length regs2 = length regs" "regs2 ! rhs = Some c" "\<forall>i<vb_next b1. regs2 ! i = regs1 ! i"
          using 1(2) by auto
        with 1 lhs have "regs2 ! lhs = Some a" by simp
        with op r 2 have "exec_expr_op cs (op dst lhs rhs) (ls, regs2)
            = vm_done (and_then (f a c) (\<lambda>v. Inr (ls, regs2[dst := Some v])))"
          unfolding implements_binary_def by simp
        with Done \<open>s (slot_env names ls) = Inr (Done a)\<close> 1 2 r res show ?thesis
          by (cases "f a c") (auto simp: frag_binary_def exec_append)
      qed (use E Done 1 in \<open>auto simp: frag_binary_def exec_append\<close>)
    qed (use D in \<open>auto simp: frag_binary_def exec_append\<close>)
  qed
  ultimately show "extends b b' \<and> vb_next b \<le> r \<and> r < vb_next b' \<and> (\<exists>code. vb_ops b' = vb_ops b @ code \<and>
      (\<forall>names cs ls regs. fits b' names cs ls regs \<longrightarrow>
        delivers (frag_binary f (s (slot_env names ls)) (t (slot_env names ls)))
          (execute_generic_vm_expr_ops cs code (ls, regs)) ls regs (vb_next b) r))"
    using spec res lhs rhs ext ext2 ops ops2
    by (auto simp: extends_def intro!: exI [of _ "code @ code2 @ [op dst lhs rhs]"])
qed

lemma compiles_None: "compiles (\<lambda>b. None) s"
  by (simp add: compiles_def)

lemma compiles_expr: "compiles (lower_expr e) (\<lambda>env. frag_expr env e)"
  by (induction e rule: lower_expr.induct)
     (simp_all add: compiles_None compiles_int compiles_name compiles_unary compiles_binary implements_ops)

section \<open>Code of statements\<close>

definition delivers_env ::
  "int_env vm_res \<Rightarrow> (slots \<times> slots) vm_res \<Rightarrow> string list \<Rightarrow> slots \<Rightarrow> slots \<Rightarrow> bool" where
  "delivers_env res run names ls regs = (case res of
     Inl e \<Rightarrow> run = Inl e
   | Inr (Miss m) \<Rightarrow> run = Inr (Miss m)
   | Inr (Done env) \<Rightarrow> \<exists>ls' regs'. run = Inr (Done (ls', regs')) \<and> length ls' = length ls
       \<and> length regs' = length regs \<and> slot_env names ls' = env)"

lemma delivers_env_simps [simp]:
  "delivers_env (Inl e) run names ls regs \<longleftrightarrow> run = Inl e"
  "delivers_env (Inr (Miss m)) run names ls regs \<longleftrightarrow> run = Inr (Miss m)"
  "delivers_env (Inr (Done env)) run names ls regs \<longleftrightarrow> (\<exists>ls' regs'. run = Inr (Done (ls', regs'))
      \<and> length ls' = length ls \<and> length regs' = length regs \<and> slot_env names ls' = env)"
  by (simp_all add: delivers_env_def)

lemma delivers_env_length:
  "delivers_env res run names ls regs \<Longrightarrow> length ls = length ls' \<Longrightarrow> length regs = length regs' \<Longrightarrow>
    delivers_env res run names ls' regs'"
  by (cases res rule: vm_res_cases) auto

definition compiles_stmts :: "(vm_builder \<Rightarrow> vm_builder option) \<Rightarrow> (int_env \<Rightarrow> int_env vm_res) \<Rightarrow> bool" where
  "compiles_stmts l s \<longleftrightarrow> (\<forall>b b'. l b = Some b' \<longrightarrow> extends b b' \<and>
     (\<exists>code. vb_ops b' = vb_ops b @ code \<and>
        (\<forall>names cs ls regs. fits b' names cs ls regs \<longrightarrow>
          delivers_env (s (slot_env names ls)) (execute_generic_vm_expr_ops cs code (ls, regs))
            names ls regs)))"

lemma compiles_stmtsE:
  assumes "compiles_stmts l s" and "l b = Some b'"
  obtains code where "extends b b'" and "vb_ops b' = vb_ops b @ code"
    and "\<And>names cs ls regs. fits b' names cs ls regs \<Longrightarrow>
      delivers_env (s (slot_env names ls)) (execute_generic_vm_expr_ops cs code (ls, regs)) names ls regs"
  using assms unfolding compiles_stmts_def by metis

text \<open>A store into the slot of a name updates the environment at that name.\<close>

lemma store_local:
  assumes "fits b names cs ls regs" and "i < length (vb_locals b)" and "vb_locals b ! i = x"
    and "src < length regs" and "regs ! src = Some v"
  shows "delivers_env (Inr (Done ((slot_env names ls)(x \<mapsto> v))))
    (exec_expr_op cs (StoreLocal i src) (ls, regs)) names ls regs"
proof -
  from assms have i: "i < length names" "names ! i = x" "length ls = length names" "distinct names"
    by (auto simp: fits_def dest: prefix_nth)
  with slot_env_update [of names i ls v] assms show ?thesis by (simp add: register_simps)
qed

lemma compiles_assign:
  "compiles_stmts (lower_assign x e) (\<lambda>env. vm_then (frag_expr env e) (\<lambda>v. Inr (Done (env(x \<mapsto> v)))))"
  unfolding compiles_stmts_def
proof (intro allI impI)
  fix b b'
  assume "lower_assign x e b = Some b'"
  then obtain src b1 i b2 where e: "lower_expr e b = Some (src, b1)" and i: "builder_local x b1 = (i, b2)"
    and res: "b' = emit (StoreLocal i src) b2"
    by (auto simp: lower_assign_def split: bind_splits prod.splits)
  note spec = builder_local_spec [OF i]
  obtain code where ext: "extends b b1" and src: "vb_next b \<le> src" "src < vb_next b1"
    and ops: "vb_ops b1 = vb_ops b @ code"
    and run: "\<And>names cs ls regs. fits b1 names cs ls regs \<Longrightarrow>
      delivers (frag_expr (slot_env names ls) e) (execute_generic_vm_expr_ops cs code (ls, regs)) ls regs
        (vb_next b) src"
    using compilesE [OF compiles_expr e] by metis
  have ext2: "extends b1 b'" using spec res by (auto simp: extends_def)
  have "extends b b'" using ext ext2 by (rule extends_trans)
  moreover have "delivers_env (vm_then (frag_expr (slot_env names ls) e)
        (\<lambda>v. Inr (Done ((slot_env names ls)(x \<mapsto> v)))))
      (execute_generic_vm_expr_ops cs (code @ [StoreLocal i src]) (ls, regs)) names ls regs"
    if fit: "fits b' names cs ls regs" for names cs ls regs
  proof -
    note D = run [OF fits_mono [OF ext2 fit]]
    show ?thesis
    proof (cases "frag_expr (slot_env names ls) e" rule: vm_res_cases)
      case (Done v)
      with D obtain regs' where 1: "execute_generic_vm_expr_ops cs code (ls, regs) = Inr (Done (ls, regs'))"
        "length regs' = length regs" "regs' ! src = Some v" by auto
      have "fits b' names cs ls regs'" using fit 1(2) by (rule fits_regs)
      moreover have "src < length regs'" using fit src 1 spec res by (auto simp: fits_def)
      ultimately show ?thesis
        using store_local [of b' names cs ls regs' i x src v] spec res Done 1 by (simp add: exec_append)
    qed (use D in \<open>auto simp: exec_append\<close>)
  qed
  ultimately show "extends b b' \<and> (\<exists>code. vb_ops b' = vb_ops b @ code \<and>
      (\<forall>names cs ls regs. fits b' names cs ls regs \<longrightarrow>
        delivers_env (vm_then (frag_expr (slot_env names ls) e)
            (\<lambda>v. Inr (Done ((slot_env names ls)(x \<mapsto> v)))))
          (execute_generic_vm_expr_ops cs code (ls, regs)) names ls regs))"
    using spec res ops by (auto intro!: exI [of _ "code @ [StoreLocal i src]"])
qed

text \<open>An augmented assignment is the assignment of a sum whose left operand is loaded first.\<close>

lemma compiles_add_assign:
  "compiles_stmts (lower_add_assign x e) (\<lambda>env.
     vm_then (frag_binary add_i64 (vm_need ''unsupported_expr_name'' (env x)) (frag_expr env e))
       (\<lambda>v. Inr (Done (env(x \<mapsto> v)))))"
  unfolding compiles_stmts_def
proof (intro allI impI)
  fix b b'
  assume low: "lower_add_assign x e b = Some b'"
  obtain lhs b1 where lhs: "builder_reg b = (lhs, b1)" by fastforce
  obtain i b2 where i: "builder_local x b1 = (i, b2)" by fastforce
  from low lhs i obtain rhs b3 dst b4 where e: "lower_expr e (emit (LoadLocal lhs i) b2) = Some (rhs, b3)"
    and dst: "builder_reg b3 = (dst, b4)"
    and res: "b' = emit (StoreLocal i dst) (emit (AddI64 dst lhs rhs) b4)"
    by (auto simp: lower_add_assign_def split: bind_splits prod.splits)
  note spec = builder_reg_spec [OF lhs] builder_local_spec [OF i] builder_reg_spec [OF dst]
  let ?c = "emit (LoadLocal lhs i) b2"
  obtain code where ext: "extends ?c b3" and rhs: "vb_next ?c \<le> rhs" "rhs < vb_next b3"
    and ops: "vb_ops b3 = vb_ops ?c @ code"
    and run: "\<And>names cs ls regs. fits b3 names cs ls regs \<Longrightarrow>
      delivers (frag_expr (slot_env names ls) e) (execute_generic_vm_expr_ops cs code (ls, regs)) ls regs
        (vb_next ?c) rhs"
    using compilesE [OF compiles_expr e] by metis
  have ext1: "extends b ?c" using spec by (auto simp: extends_def)
  have ext2: "extends b3 b'" using spec res by (auto simp: extends_def)
  have ext3: "extends b b'" using ext ext1 ext2 by (blast intro: extends_trans)
  let ?code = "[LoadLocal lhs i] @ code @ [AddI64 dst lhs rhs] @ [StoreLocal i dst]"
  have "delivers_env (vm_then (frag_binary add_i64 (vm_need ''unsupported_expr_name'' (slot_env names ls x))
          (frag_expr (slot_env names ls) e)) (\<lambda>v. Inr (Done ((slot_env names ls)(x \<mapsto> v)))))
      (execute_generic_vm_expr_ops cs ?code (ls, regs)) names ls regs"
    if fit: "fits b' names cs ls regs" for names cs ls regs
  proof -
    have fit3: "fits b3 names cs ls regs" and fitc: "fits ?c names cs ls regs"
      using fit ext ext2 by (auto intro: fits_mono extends_trans)
    have r: "lhs < length regs" "rhs < length regs" "dst < length regs" "lhs < vb_next ?c"
      using fit spec res rhs ext by (auto simp: fits_def extends_def)
    have load: "delivers (vm_need ''unsupported_expr_name'' (slot_env names ls x))
        (exec_expr_op cs (LoadLocal lhs i) (ls, regs)) ls regs (vb_next b) lhs"
      using load_local [OF fitc, of i x lhs "vb_next b"] spec r by simp
    show ?thesis
    proof (cases "slot_env names ls x")
      case None
      with load show ?thesis by (simp add: frag_binary_def)
    next
      case (Some a)
      with load obtain regs1 where 1: "exec_expr_op cs (LoadLocal lhs i) (ls, regs) = Inr (Done (ls, regs1))"
        "length regs1 = length regs" "regs1 ! lhs = Some a" by auto
      note D = run [OF fits_regs [OF fit3 1(2)]]
      show ?thesis
      proof (cases "frag_expr (slot_env names ls) e" rule: vm_res_cases)
        case (Done c)
        with D 1 obtain regs2 where 2: "execute_generic_vm_expr_ops cs code (ls, regs1) = Inr (Done (ls, regs2))"
          "length regs2 = length regs" "regs2 ! rhs = Some c" "regs2 ! lhs = Some a"
          using r by auto
        have add: "exec_expr_op cs (AddI64 dst lhs rhs) (ls, regs2)
            = vm_done (and_then (add_i64 a c) (\<lambda>v. Inr (ls, regs2[dst := Some v])))"
          using implements_ops(3) 2 r unfolding implements_binary_def by simp
        show ?thesis
        proof (cases "add_i64 a c")
          case (Inr v)
          have "fits b' names cs ls (regs2[dst := Some v])" using fit 2 by (simp add: fits_def)
          then have "delivers_env (Inr (Done ((slot_env names ls)(x \<mapsto> v))))
              (exec_expr_op cs (StoreLocal i dst) (ls, regs2[dst := Some v])) names ls (regs2[dst := Some v])"
            using store_local [of b' names cs ls "regs2[dst := Some v]" i x dst v] spec res r 2 ext
            by (auto simp: extends_def dest: prefix_nth)
          with Inr add Some Done 1 2 show ?thesis by (simp add: frag_binary_def exec_append)
        qed (use add Some Done 1 2 in \<open>simp add: frag_binary_def exec_append\<close>)
      qed (use D Some 1 in \<open>auto simp: frag_binary_def exec_append\<close>)
    qed
  qed
  then show "extends b b' \<and> (\<exists>code. vb_ops b' = vb_ops b @ code \<and>
      (\<forall>names cs ls regs. fits b' names cs ls regs \<longrightarrow>
        delivers_env (vm_then (frag_binary add_i64 (vm_need ''unsupported_expr_name'' (slot_env names ls x))
            (frag_expr (slot_env names ls) e)) (\<lambda>v. Inr (Done ((slot_env names ls)(x \<mapsto> v)))))
          (execute_generic_vm_expr_ops cs code (ls, regs)) names ls regs))"
    using ext3 spec res ops by (auto intro!: exI [of _ ?code])
qed

lemma compiles_stmts_cong:
  "compiles_stmts l s \<Longrightarrow> (\<And>env. s env = s' env) \<Longrightarrow> compiles_stmts l s'"
  by (simp add: compiles_stmts_def)

lemma compiles_stmts_None: "compiles_stmts (\<lambda>b. None) s"
  by (simp add: compiles_stmts_def)

lemma compiles_stmt: "compiles_stmts (lower_stmt s) (\<lambda>env. frag_stmt env s)"
proof (cases s)
  case (SAssign t e)
  show ?thesis
  proof (cases t)
    case (TName x)
    with SAssign have "lower_stmt s = lower_assign x e" by (auto simp: lower_stmt_def)
    moreover have "compiles_stmts (lower_assign x e) (\<lambda>env. frag_stmt env s)"
      by (rule compiles_stmts_cong [OF compiles_assign]) (simp add: frag_stmt_def SAssign TName)
    ultimately show ?thesis by simp
  qed (use SAssign in \<open>auto simp: compiles_stmts_def lower_stmt_def dest_target_name_def\<close>)
next
  case (SAugAssign t op e)
  show ?thesis
  proof (cases "\<exists>x. t = TName x \<and> op = AugAdd")
    case True
    then obtain x where x: "t = TName x" "op = AugAdd" by blast
    with SAugAssign have "lower_stmt s = lower_add_assign x e" by (auto simp: lower_stmt_def)
    moreover have "compiles_stmts (lower_add_assign x e) (\<lambda>env. frag_stmt env s)"
      by (rule compiles_stmts_cong [OF compiles_add_assign])
         (simp add: frag_stmt_def frag_binary_def SAugAssign x vm_then_assoc)
    ultimately show ?thesis by simp
  next
    case False
    with SAugAssign show ?thesis
      by (auto simp: compiles_stmts_def lower_stmt_def dest_target_name_iff split: bind_splits)
  qed
qed (simp_all add: compiles_stmts_def lower_stmt_def)

lemma compiles_body: "compiles_stmts (lower_stmts body) (\<lambda>env. frag_stmts env body)"
proof (induction body)
  case Nil
  show ?case by (auto simp: compiles_stmts_def)
next
  case (Cons s body)
  show ?case unfolding compiles_stmts_def
  proof (intro allI impI)
    fix b b'
    assume "lower_stmts (s # body) b = Some b'"
    then obtain b1 where s: "lower_stmt s b = Some b1" and body: "lower_stmts body b1 = Some b'"
      by (auto split: bind_splits)
    obtain code where ext: "extends b b1" and ops: "vb_ops b1 = vb_ops b @ code"
      and run: "\<And>names cs ls regs. fits b1 names cs ls regs \<Longrightarrow>
        delivers_env (frag_stmt (slot_env names ls) s) (execute_generic_vm_expr_ops cs code (ls, regs))
          names ls regs"
      using compiles_stmtsE [OF compiles_stmt s] by metis
    obtain code2 where ext2: "extends b1 b'" and ops2: "vb_ops b' = vb_ops b1 @ code2"
      and run2: "\<And>names cs ls regs. fits b' names cs ls regs \<Longrightarrow>
        delivers_env (frag_stmts (slot_env names ls) body) (execute_generic_vm_expr_ops cs code2 (ls, regs))
          names ls regs"
      using compiles_stmtsE [OF Cons.IH body] by metis
    have "delivers_env (frag_stmts (slot_env names ls) (s # body))
        (execute_generic_vm_expr_ops cs (code @ code2) (ls, regs)) names ls regs"
      if fit: "fits b' names cs ls regs" for names cs ls regs
    proof -
      note D = run [OF fits_mono [OF ext2 fit]]
      show ?thesis
      proof (cases "frag_stmt (slot_env names ls) s" rule: vm_res_cases)
        case (Done env)
        with D obtain ls1 regs1 where 1: "execute_generic_vm_expr_ops cs code (ls, regs) = Inr (Done (ls1, regs1))"
          "length ls1 = length ls" "length regs1 = length regs" "slot_env names ls1 = env" by auto
        have "fits b' names cs ls1 regs1" using fit 1 by (simp add: fits_def)
        from delivers_env_length [OF run2 [OF this] 1(2,3)] Done 1 show ?thesis
          by (simp add: exec_append)
      qed (use D in \<open>auto simp: exec_append\<close>)
    qed
    with ext ext2 ops ops2 show "extends b b' \<and> (\<exists>code. vb_ops b' = vb_ops b @ code \<and>
        (\<forall>names cs ls regs. fits b' names cs ls regs \<longrightarrow>
          delivers_env (frag_stmts (slot_env names ls) (s # body))
            (execute_generic_vm_expr_ops cs code (ls, regs)) names ls regs))"
      by (auto intro: extends_trans intro!: exI [of _ "code @ code2"])
  qed
qed

section \<open>The loop\<close>

text \<open>The meaning of the loop: the item becomes the value of the target, then the body runs.\<close>

primrec frag_loop ::
  "string \<Rightarrow> stmt list \<Rightarrow> rvalue list \<Rightarrow> int_env \<times> rvalue option \<Rightarrow> (int_env \<times> rvalue option) vm_res" where
  "frag_loop target body [] acc = Inr (Done acc)"
| "frag_loop target body (v # vs) acc =
     vm_then (vm_need ''unsupported_value_type'' (Option.bind (nu_part v) nu_int)) (\<lambda>i.
     vm_then (frag_stmts ((fst acc)(target \<mapsto> i)) body) (\<lambda>env.
     frag_loop target body vs (env, Some v)))"

lemma compile_body_spec:
  assumes "compile_generic_vm_expr_body target body [] = Some (code, names)"
  shows "distinct names" and "names \<noteq> []" and "names ! 0 = target"
    and "\<And>ls regs. length ls = length names \<Longrightarrow> length regs = eb_registers code \<Longrightarrow>
      delivers_env (frag_stmts (slot_env names ls) body)
        (execute_generic_vm_expr_ops (eb_constants code) (eb_ops code) (ls, regs)) names ls regs"
proof -
  let ?b0 = "new_builder [target]"
  have "builder_local target (new_builder []) = (0, ?b0)"
    by (simp add: builder_local_def generic_vm_local_def intern_def new_builder_def)
  with assms obtain b where b: "lower_stmts body ?b0 = Some b" "code = finish_builder b" "names = vb_locals b"
    by (auto simp: compile_generic_vm_expr_body_def split: bind_splits)
  obtain ops where ext: "extends ?b0 b" and ops: "vb_ops b = vb_ops ?b0 @ ops"
    and run: "\<And>names cs ls regs. fits b names cs ls regs \<Longrightarrow>
      delivers_env (frag_stmts (slot_env names ls) body) (execute_generic_vm_expr_ops cs ops (ls, regs))
        names ls regs"
    using compiles_stmtsE [OF compiles_body b(1)] by metis
  show names: "distinct names" "names \<noteq> []" "names ! 0 = target"
    using ext b by (auto simp: extends_def new_builder_def prefix_def)
  fix ls regs :: slots
  assume "length ls = length names" and "length regs = eb_registers code"
  with names b have "fits b names (eb_constants code) ls regs"
    by (simp add: fits_def finish_builder_def)
  from run [OF this] b ops show "delivers_env (frag_stmts (slot_env names ls) body)
      (execute_generic_vm_expr_ops (eb_constants code) (eb_ops code) (ls, regs)) names ls regs"
    by (simp add: finish_builder_def new_builder_def)
qed

definition delivers_loop ::
  "(int_env \<times> rvalue option) vm_res \<Rightarrow> (slots \<times> rvalue option) vm_res \<Rightarrow> string list \<Rightarrow> slots \<Rightarrow> bool" where
  "delivers_loop res run names ls = (case res of
     Inl e \<Rightarrow> run = Inl e
   | Inr (Miss m) \<Rightarrow> run = Inr (Miss m)
   | Inr (Done (env, lv)) \<Rightarrow> \<exists>ls'. run = Inr (Done (ls', lv)) \<and> length ls' = length ls
       \<and> slot_env names ls' = env)"

lemma expr_body_loop_correct:
  assumes comp: "compile_generic_vm_expr_body target body [] = Some (code, names)"
    and "length ls = length names"
  shows "delivers_loop (frag_loop target body vs (slot_env names ls, lv))
    (expr_body_loop code vs (ls, lv)) names ls"
  using assms(2)
proof (induction vs arbitrary: ls lv)
  case Nil
  then show ?case by (simp add: delivers_loop_def)
next
  case (Cons v vs)
  note spec = compile_body_spec [OF comp]
  show ?case
  proof (cases "Option.bind (nu_part v) nu_int")
    case None
    then show ?thesis by (simp add: delivers_loop_def)
  next
    case (Some i)
    let ?ls = "ls[0 := Some i]"
    have upd: "slot_env names ?ls = (slot_env names ls)(target \<mapsto> i)"
      using slot_env_update [of names 0 ls i] spec(1-3) Cons.prems by simp
    have ne: "ls \<noteq> []" using spec(2) Cons.prems by auto
    have D: "delivers_env (frag_stmts (slot_env names ?ls) body)
        (execute_generic_vm_expr_ops (eb_constants code) (eb_ops code)
          (?ls, replicate (eb_registers code) None)) names ?ls (replicate (eb_registers code) None)"
      using Cons.prems by (intro spec(4)) simp_all
    show ?thesis
    proof (cases "frag_stmts (slot_env names ?ls) body" rule: vm_res_cases)
      case (Done env)
      with D obtain ls1 regs1 where 1: "execute_generic_vm_expr_ops (eb_constants code) (eb_ops code)
          (?ls, replicate (eb_registers code) None) = Inr (Done (ls1, regs1))"
        "length ls1 = length ls" "slot_env names ls1 = env" by auto
      with Cons.IH [of ls1 "Some v"] Cons.prems Some Done ne upd show ?thesis
        by (auto simp: delivers_loop_def split: sum.splits vm_outcome.splits)
    qed (use D Some ne upd in \<open>auto simp: delivers_loop_def\<close>)
  qed
qed

end
