(* ===== verification/Loop_Correct.thy ===== *)
theory Loop_Correct
  imports Expr_Correct
begin

unbundle bit_operations_syntax

text \<open>The evaluator agrees with the meaning of an integer loop body, so the compiled loop agrees with
  the evaluator: same error, or same values of all names. A name is observed through the value it
  materialises to.\<close>

section \<open>The evaluator on the integer fragment\<close>

definition env_sound :: "runtime \<Rightarrow> int_env \<Rightarrow> eval_state \<Rightarrow> bool" where
  "env_sound rt env st \<longleftrightarrow> (\<forall>x i. env x = Some i \<longrightarrow> load_int_local rt st x = Some i)"

definition holds_int :: "runtime \<Rightarrow> rvalue \<Rightarrow> i64 \<Rightarrow> bool" where
  "holds_int rt w i \<longleftrightarrow> (\<forall>c. into_nu_value (rt_materialize rt) w c = Inr (VInt i))"

lemma nu_int_Some [simp]: "nu_int n = Some i \<longleftrightarrow> n = VInt i"
  by (rule nu_dest_iff)

lemma holds_int_iff: "holds_int rt w i \<longleftrightarrow> int_of_rvalue rt w = Some i"
proof -
  have "holds_int rt w i \<longleftrightarrow> into_nu_value (rt_materialize rt) w ''hot loop'' = Inr (VInt i)"
    by (metis holds_int_def into_nu_value_Inr_context)
  then show ?thesis by (auto simp: int_of_rvalue_def split: sum.splits)
qed

lemma holds_int_RNu [simp]: "holds_int rt (RNu (VInt i)) j \<longleftrightarrow> i = j"
  by (auto simp: holds_int_def)

lemma env_soundD:
  assumes "env_sound rt env st" and "env x = Some i"
  obtains w where "get_local x st = Some w" and "holds_int rt w i"
  using assms unfolding env_sound_def load_int_local_def holds_int_iff
  by (metis bind_eq_SomeE)

lemma int_op_values:
  "add_values (VInt a) (VInt b) = and_then (add_i64 a b) (\<lambda>c. Inr (VInt c))"
  "sub_values (VInt a) (VInt b) = and_then (sub_i64 a b) (\<lambda>c. Inr (VInt c))"
  "mul_values (VInt a) (VInt b) = and_then (mul_i64 a b) (\<lambda>c. Inr (VInt c))"
  "floor_div_values (VInt a) (VInt b) = and_then (floor_div_i64 a b) (\<lambda>c. Inr (VInt c))"
  "mod_values (VInt a) (VInt b) = and_then (mod_i64 a b) (\<lambda>c. Inr (VInt c))"
  "bitwise_int_values (VInt a) (VInt b) context op = Inr (VInt (op a b))"
  "shift_value (VInt a) (VInt b) context shift
     = and_then (shift_i64 context shift a b) (\<lambda>c. Inr (VInt c))"
  "neg_value (VInt a) = and_then (neg_i64 a) (\<lambda>c. Inr (VInt c))"
  by (simp_all add: add_values_def sub_values_def mul_values_def floor_div_values_def mod_values_def
        bitwise_int_values_def shift_value_def neg_value_def int_operands_def value_to_operator_i64_def
        add_i64_def sub_i64_def mul_i64_def floor_div_i64_def mod_i64_def shift_i64_def neg_i64_def
        and_then_assoc)

text \<open>An evaluation agrees with an integer result when it has that value or that error and leaves the
  state alone. Nothing is said about a miss.\<close>

definition agrees :: "runtime \<Rightarrow> eval_state \<Rightarrow> i64 vm_res \<Rightarrow> rvalue ev \<Rightarrow> bool" where
  "agrees rt st res m = (case res of
     Inl e \<Rightarrow> m st = (Inl e, st)
   | Inr (Miss _) \<Rightarrow> True
   | Inr (Done i) \<Rightarrow> \<exists>w. m st = (Inr w, st) \<and> holds_int rt w i)"

lemma agrees_simps [simp]:
  "agrees rt st (Inl e) m \<longleftrightarrow> m st = (Inl e, st)"
  "agrees rt st (Inr (Miss r)) m"
  "agrees rt st (Inr (Done i)) m \<longleftrightarrow> (\<exists>w. m st = (Inr w, st) \<and> holds_int rt w i)"
  by (simp_all add: agrees_def)

lemma to_nu_agrees:
  "m st = (Inl e, st) \<Longrightarrow> to_nu rt c m st = (Inl e, st)"
  "m st = (Inr w, st) \<Longrightarrow> holds_int rt w i \<Longrightarrow> to_nu rt c m st = (Inr (VInt i), st)"
  by (simp_all add: to_nu_def holds_int_def)

lemma agrees_unary:
  assumes "agrees rt st res m" and "\<And>i. f (VInt i) = and_then (g i) (\<lambda>c. Inr (VInt c))"
  shows "agrees rt st (frag_unary g res) (ev_then (to_nu rt context m) (\<lambda>n. nu_result (f n)))"
proof (cases res rule: vm_res_cases)
  case (Done i)
  with assms(1) obtain w where "m st = (Inr w, st)" "holds_int rt w i" by auto
  then have "to_nu rt context m st = (Inr (VInt i), st)" by (rule to_nu_agrees)
  with Done assms(2) show ?thesis by (cases "g i") (auto simp: frag_unary_def nu_result_def)
qed (use assms(1) in \<open>auto simp: frag_unary_def to_nu_agrees\<close>)

lemma agrees_binary:
  assumes m: "agrees rt st res m" and n: "agrees rt st res2 n"
    and f: "\<And>i j. f (VInt i) (VInt j) = and_then (g i j) (\<lambda>c. Inr (VInt c))"
  shows "agrees rt st (frag_binary g res res2) (binary rt context f m n)"
proof (cases res rule: vm_res_cases)
  case (Done i)
  with m obtain w where "m st = (Inr w, st)" "holds_int rt w i" by auto
  then have 1: "to_nu rt context m st = (Inr (VInt i), st)" by (rule to_nu_agrees)
  show ?thesis
  proof (cases res2 rule: vm_res_cases)
    case (Done j)
    with n obtain w where "n st = (Inr w, st)" "holds_int rt w j" by auto
    then have "to_nu rt context n st = (Inr (VInt j), st)" by (rule to_nu_agrees)
    with 1 Done \<open>res = Inr (Done i)\<close> f show ?thesis
      by (cases "g i j") (auto simp: frag_binary_def binary_def nu_result_def)
  qed (use n 1 Done in \<open>auto simp: frag_binary_def binary_def to_nu_agrees\<close>)
qed (use m in \<open>auto simp: frag_binary_def binary_def to_nu_agrees\<close>)

lemma agrees_name:
  assumes "env_sound rt env st"
  shows "agrees rt st (vm_need ''unsupported_expr_name'' (env x)) (eval_name x)"
proof (cases "env x")
  case (Some i)
  with assms obtain w where "get_local x st = Some w" "holds_int rt w i" by (rule env_soundD)
  with Some show ?thesis by (simp add: eval_name_def)
qed simp

lemma agrees_invert:
  assumes "agrees rt st res m"
  shows "agrees rt st (frag_unary (\<lambda>a. Inr (NOT a)) res) (ev_then (to_nu rt context m) (\<lambda>n.
    ev_lift (and_then (value_to_operator_i64 n context) (\<lambda>i. Inr (RNu (VInt (NOT i)))))))"
proof (cases res rule: vm_res_cases)
  case (Done i)
  with assms obtain w where "m st = (Inr w, st)" "holds_int rt w i" by auto
  then have "to_nu rt context m st = (Inr (VInt i), st)" by (rule to_nu_agrees)
  with Done show ?thesis by (simp add: frag_unary_def value_to_operator_i64_def)
qed (use assms in \<open>auto simp: frag_unary_def to_nu_agrees\<close>)

lemma eval_expr_agrees:
  "env_sound rt env st \<Longrightarrow> agrees rt st (frag_expr env e) (eval_expr rt inp e)"
proof (induction env e arbitrary: inp rule: frag_expr.induct)
  case (1 env t)
  then show ?case by (auto simp: eval_expr.simps parse_i64_ok_def split: sum.splits)
next
  case (2 env x)
  then show ?case by (simp add: eval_expr.simps agrees_name)
next
  case (3 env e)
  then show ?case by (simp add: eval_expr.simps agrees_invert)
qed (simp_all add: eval_expr.simps agrees_unary agrees_binary int_op_values)

section \<open>Statements, blocks and loops\<close>

definition same_rest :: "eval_state \<Rightarrow> eval_state \<Rightarrow> bool" where
  "same_rest st st' \<longleftrightarrow> es_functions st' = es_functions st \<and> es_next_callable st' = es_next_callable st
     \<and> es_hot_enabled st' = es_hot_enabled st \<and> es_session_names st' = es_session_names st"

lemma same_rest_refl [simp]: "same_rest st st"
  by (simp add: same_rest_def)

lemma same_rest_set_local [simp]: "same_rest st0 (set_local x v st) \<longleftrightarrow> same_rest st0 st"
  by (simp add: same_rest_def)

text \<open>A state tracks an environment from the state \<open>st0\<close> in which the loop was entered: the integers
  of the environment are in the scopes, every other name still has its value.\<close>

definition tracks :: "runtime \<Rightarrow> eval_state \<Rightarrow> int_env \<Rightarrow> eval_state \<Rightarrow> bool" where
  "tracks rt st0 env st \<longleftrightarrow> same_rest st0 st \<and> (\<forall>x. case env x of
     Some i \<Rightarrow> load_int_local rt st x = Some i
   | None \<Rightarrow> get_local x st = get_local x st0)"

lemma tracks_sound: "tracks rt st0 env st \<Longrightarrow> env_sound rt env st"
  unfolding tracks_def env_sound_def by (metis option.simps(5))

lemma load_int_set_local:
  "load_int_local rt (set_local y w st) x
    = (if x = y then int_of_rvalue rt w else load_int_local rt st x)"
  by (simp add: load_int_local_def get_local_set_local)

lemma tracks_set_local:
  assumes "tracks rt st0 env st" and "holds_int rt w i"
  shows "tracks rt st0 (env(x \<mapsto> i)) (set_local x w st)"
proof -
  have old: "case env y of Some i \<Rightarrow> load_int_local rt st y = Some i
      | None \<Rightarrow> get_local y st = get_local y st0" for y
    using assms(1) by (simp add: tracks_def)
  have "case (env(x \<mapsto> i)) y of Some i \<Rightarrow> load_int_local rt (set_local x w st) y = Some i
      | None \<Rightarrow> get_local y (set_local x w st) = get_local y st0" for y
    using old [of y] assms(2)
    by (cases "y = x"; cases "env y") (auto simp: holds_int_iff load_int_set_local get_local_set_local)
  then show ?thesis using assms(1) by (simp add: tracks_def)
qed

definition assigned_name :: "stmt \<Rightarrow> string option" where
  "assigned_name s = (case s of
     SAssign t _ \<Rightarrow> dest_target_name t | SAugAssign t _ _ \<Rightarrow> dest_target_name t | _ \<Rightarrow> None)"

definition assigns_name :: "string \<Rightarrow> stmt list \<Rightarrow> bool" where
  "assigns_name x body \<longleftrightarrow> list_ex (\<lambda>s. assigned_name s = Some x) body"

lemma eval_stmt_tracks:
  assumes tr: "tracks rt st0 env st"
  shows "case frag_stmt env s of
      Inl e \<Rightarrow> fst (eval_stmt rt inp False s st) = Inl e
    | Inr (Miss _) \<Rightarrow> True
    | Inr (Done env') \<Rightarrow> \<exists>st'. eval_stmt rt inp False s st = (Inr (FOutput PEmpty), st')
        \<and> tracks rt st0 env' st' \<and> (\<forall>y. assigned_name s \<noteq> Some y \<longrightarrow> get_local y st' = get_local y st)"
proof (cases s)
  case (SAssign t e)
  show ?thesis
  proof (cases "dest_target_name t")
    case None
    then show ?thesis by (simp add: frag_stmt_def SAssign)
  next
    case (Some x)
    then have t: "t = TName x" by (simp add: dest_target_name_iff)
    note A = eval_expr_agrees [OF tracks_sound [OF tr], where e = e and inp = inp]
    show ?thesis
    proof (cases "frag_expr env e" rule: vm_res_cases)
      case (Done i)
      with A obtain w where "eval_expr rt inp e st = (Inr w, st)" "holds_int rt w i" by auto
      with Done t tracks_set_local [OF tr] show ?thesis
        by (auto simp: frag_stmt_def SAssign eval_assign_def assign_value_def record_bindings_def
              assigned_name_def get_local_set_local ev_then_def)
    qed (use A in \<open>auto simp: frag_stmt_def SAssign t eval_assign_def\<close>)
  qed
next
  case (SAugAssign t op e)
  show ?thesis
  proof (cases "\<exists>x. t = TName x \<and> op = AugAdd")
    case False
    then show ?thesis
      by (auto simp: frag_stmt_def SAugAssign vm_need_def dest_target_name_iff split: option.splits)
  next
    case True
    then obtain x where t: "t = TName x" "op = AugAdd" by blast
    note A = eval_expr_agrees [OF tracks_sound [OF tr], where e = e and inp = inp]
    show ?thesis
    proof (cases "env x")
      case None
      then show ?thesis by (simp add: frag_stmt_def SAugAssign t)
    next
      case (Some i)
      with tracks_sound [OF tr] obtain w where "get_local x st = Some w" "holds_int rt w i"
        by (rule env_soundD)
      then have left: "eval_assign_target_value rt t st = (Inr (VInt i), st)"
        by (simp add: eval_assign_target_value_def t holds_int_def)
      show ?thesis
      proof (cases "frag_expr env e" rule: vm_res_cases)
        case (Error err)
        with A have "to_nu rt ''augmented assignment'' (eval_expr rt inp e) st = (Inl err, st)"
          by (simp add: to_nu_agrees)
        with Error Some left show ?thesis
          by (simp add: frag_stmt_def SAugAssign t eval_aug_assign_def)
      next
        case (Miss m)
        with Some show ?thesis by (simp add: frag_stmt_def SAugAssign t)
      next
        case (Done j)
        with A obtain u where "eval_expr rt inp e st = (Inr u, st)" "holds_int rt u j" by auto
        then have "to_nu rt ''augmented assignment'' (eval_expr rt inp e) st = (Inr (VInt j), st)"
          by (rule to_nu_agrees)
        with Done Some left t tracks_set_local [OF tr] show ?thesis
          by (cases "add_i64 i j")
             (auto simp: frag_stmt_def SAugAssign eval_aug_assign_def apply_aug_op_def int_op_values
                assign_value_def record_bindings_def assigned_name_def get_local_set_local ev_then_def)
      qed
    qed
  qed
qed (simp_all add: frag_stmt_def)

lemma eval_block_tracks:
  assumes "tracks rt st0 env st"
  shows "case frag_stmts env body of
      Inl e \<Rightarrow> fst (eval_block rt inp False PEmpty body st) = Inl e
    | Inr (Miss _) \<Rightarrow> True
    | Inr (Done env') \<Rightarrow> \<exists>st'. eval_block rt inp False PEmpty body st = (Inr (FOutput PEmpty), st')
        \<and> tracks rt st0 env' st' \<and> (\<forall>y. \<not> assigns_name y body \<longrightarrow> get_local y st' = get_local y st)"
  using assms
proof (induction body arbitrary: env st inp)
  case Nil
  then show ?case by simp
next
  case (Cons s body)
  note A = eval_stmt_tracks [OF Cons.prems, where s = s and inp = inp]
  show ?case
  proof (cases "frag_stmt env s" rule: vm_res_cases)
    case (Error e)
    with A obtain st' where "eval_stmt rt inp False s st = (Inl e, st')"
      by (cases "eval_stmt rt inp False s st") auto
    with Error show ?thesis by simp
  next
    case (Done env1)
    with A obtain st1 where 1: "eval_stmt rt inp False s st = (Inr (FOutput PEmpty), st1)"
      "tracks rt st0 env1 st1" "\<forall>y. assigned_name s \<noteq> Some y \<longrightarrow> get_local y st1 = get_local y st"
      by auto
    with Cons.IH [OF 1(2), where inp = PEmpty] Done show ?thesis
      by (auto simp: assigns_name_def split: sum.splits vm_outcome.splits)
  qed simp
qed

lemma loop_tracks:
  assumes "tracks rt st0 env st" and "\<not> assigns_name target body"
    and "\<forall>v. lv = Some v \<longrightarrow> get_local target st = Some v"
  shows "case frag_loop target body vs (env, lv) of
      Inl e \<Rightarrow> fst (eval_for_values rt [target] (eval_block rt PEmpty False PEmpty body) vs PEmpty st) = Inl e
    | Inr (Miss _) \<Rightarrow> True
    | Inr (Done (env', lv')) \<Rightarrow>
        \<exists>st'. eval_for_values rt [target] (eval_block rt PEmpty False PEmpty body) vs PEmpty st
            = (Inr (FOutput PEmpty), st')
        \<and> tracks rt st0 env' st' \<and> (\<forall>v. lv' = Some v \<longrightarrow> get_local target st' = Some v)"
  using assms(1,3)
proof (induction vs arbitrary: env st lv)
  case Nil
  then show ?case by simp
next
  case (Cons v vs)
  show ?case
  proof (cases "Option.bind (nu_part v) nu_int")
    case None
    then show ?thesis by simp
  next
    case (Some i)
    then have v: "v = RNu (VInt i)"
      by (auto simp: nu_part_iff elim!: bind_eq_SomeE)
    let ?st = "set_local target v st" and ?env = "env(target \<mapsto> i)"
    have tr: "tracks rt st0 ?env ?st" using Cons.prems(1) v by (simp add: tracks_set_local)
    note A = eval_block_tracks [OF tr, where body = body and inp = PEmpty]
    have assign: "assign_loop_targets rt [target] v st = (Inr (), ?st)"
      by (simp add: assign_loop_targets_def)
    show ?thesis
    proof (cases "frag_stmts ?env body" rule: vm_res_cases)
      case (Error e)
      with A obtain st' where "eval_block rt PEmpty False PEmpty body ?st = (Inl e, st')"
        by (cases "eval_block rt PEmpty False PEmpty body ?st") auto
      with Error assign Some show ?thesis by simp
    next
      case (Miss m)
      with Some show ?thesis by simp
    next
      case (Done env1)
      with A obtain st1 where 1: "eval_block rt PEmpty False PEmpty body ?st = (Inr (FOutput PEmpty), st1)"
        "tracks rt st0 env1 st1" "get_local target st1 = Some v"
        using assms(2) by (auto simp: get_local_set_local)
      then have step: "eval_for_values rt [target] (eval_block rt PEmpty False PEmpty body) (v # vs) PEmpty st
          = eval_for_values rt [target] (eval_block rt PEmpty False PEmpty body) vs PEmpty st1"
        by (simp add: assign)
      have frag: "frag_loop target body (v # vs) (env, lv) = frag_loop target body vs (env1, Some v)"
        using Done Some by simp
      show ?thesis
        unfolding step frag using Cons.IH [OF 1(2), where lv = "Some v"] 1(3) by simp
    qed
  qed
qed

section \<open>The loop executor and the evaluator\<close>

text \<open>What the program can see of a name: the value it materialises to.\<close>

definition observe :: "runtime \<Rightarrow> eval_state \<Rightarrow> string \<Rightarrow> rvalue option" where
  "observe rt st x = map_option (\<lambda>w. case into_nu_value (rt_materialize rt) w ''hot loop'' of
     Inl _ \<Rightarrow> w | Inr n \<Rightarrow> RNu n) (get_local x st)"

definition same_view :: "runtime \<Rightarrow> eval_state \<Rightarrow> eval_state \<Rightarrow> bool" where
  "same_view rt st st' \<longleftrightarrow> (\<forall>x. observe rt st x = observe rt st' x) \<and> same_rest st st'"

lemma observe_int: "load_int_local rt st x = Some i \<Longrightarrow> observe rt st x = Some (RNu (VInt i))"
  by (auto simp: load_int_local_def observe_def int_of_rvalue_def split: sum.splits
      elim!: bind_eq_SomeE)

lemma observe_get_local: "get_local x st = get_local x st' \<Longrightarrow> observe rt st x = observe rt st' x"
  by (simp add: observe_def)

lemma slot_env_notin:
  assumes "x \<notin> set names"
  shows "slot_env names ls x = None"
proof -
  have "position (\<lambda>y. y = x) names = None" using assms by (auto simp: position_eq_None)
  then show ?thesis by (simp add: slot_env_def)
qed

lemma slot_env_Cons:
  "slot_env (y # names) (l # ls) x = (if y = x then l else slot_env names ls x)"
  by (cases "position (\<lambda>y. y = x) names") (auto simp: slot_env_def)

lemma slot_env_load:
  "slot_env names (List.map (load_int_local rt st) names) x
    = (if x \<in> set names then load_int_local rt st x else None)"
proof (cases "position (\<lambda>y. y = x) names")
  case None
  moreover from None have "x \<notin> set names" by (auto simp: position_eq_None)
  ultimately show ?thesis by (simp add: slot_env_notin)
next
  case (Some i)
  with position_eq_SomeD [OF this] show ?thesis by (auto simp: slot_env_def)
qed

lemma tracks_entry: "tracks rt st (slot_env names (List.map (load_int_local rt st) names)) st"
  by (auto simp: tracks_def slot_env_load split: option.splits)

definition stored_slots :: "string list \<Rightarrow> slots \<Rightarrow> (string \<times> rvalue) list" where
  "stored_slots names ls = List.map (\<lambda>(x, s). (x, RNu (VInt (the s))))
     (List.filter (\<lambda>(x, s). s \<noteq> None) (zip names ls))"

lemma store_as_puts:
  "fold store_int_local (zip names ls) st = fold (\<lambda>a. set_local (fst a) (snd a)) (stored_slots names ls) st"
proof (induction names arbitrary: ls st)
  case (Cons y names)
  then show ?case
    by (cases ls) (auto simp: stored_slots_def store_int_local_def split: option.splits)
qed (simp add: stored_slots_def)

lemma stored_slots_lookup:
  "length ls = length names \<Longrightarrow>
   map_of (stored_slots names ls) x = map_option (\<lambda>i. RNu (VInt i)) (slot_env names ls x)
     \<or> \<not> distinct names"
proof (induction names arbitrary: ls)
  case Nil
  then show ?case by (simp add: stored_slots_def slot_env_def)
next
  case (Cons y names)
  then obtain l ls' where ls: "ls = l # ls'" by (cases ls) auto
  have "stored_slots (y # names) ls
      = (case l of None \<Rightarrow> [] | Some i \<Rightarrow> [(y, RNu (VInt i))]) @ stored_slots names ls'"
    by (simp add: stored_slots_def ls split: option.splits)
  with Cons ls show ?case
    by (auto simp: slot_env_Cons slot_env_notin split: option.splits)
qed

lemma stored_slots_distinct: "distinct names \<Longrightarrow> distinct (List.map fst (stored_slots names ls))"
proof -
  assume "distinct names"
  then have "distinct (List.map fst (zip names ls))"
    by (simp add: map_fst_zip_take)
  then have "distinct (List.map fst (List.filter (\<lambda>(x, s). s \<noteq> None) (zip names ls)))"
    by (rule distinct_map_filter)
  then show ?thesis by (simp add: stored_slots_def case_prod_unfold comp_def)
qed

text \<open>Writing the locals back.\<close>

lemma get_local_stored:
  assumes "distinct names" and "length ls = length names"
  shows "get_local x (fold store_int_local (zip names ls) st) = (case slot_env names ls x of
    Some i \<Rightarrow> Some (RNu (VInt i)) | None \<Rightarrow> get_local x st)"
  unfolding store_as_puts
  using stored_slots_lookup [OF assms(2), of x] assms(1)
    locals.get_fold_put [OF stored_slots_distinct [OF assms(1)], of x ls st]
  by (cases "slot_env names ls x") auto

lemma same_rest_stored: "same_rest st0 (fold store_int_local (zip names ls) st) \<longleftrightarrow> same_rest st0 st"
proof -
  have "same_rest st0 (fold store_int_local sl st) \<longleftrightarrow> same_rest st0 st" for sl
    by (induction sl arbitrary: st) (auto simp: store_int_local_def split: option.splits)
  then show ?thesis .
qed

lemma tracks_cases:
  assumes "tracks rt st0 env st"
  shows "env x = Some i \<Longrightarrow> load_int_local rt st x = Some i"
    and "env x = None \<Longrightarrow> get_local x st = get_local x st0"
  using assms unfolding tracks_def by (auto dest: spec [of _ x])

lemma tracks_view:
  assumes "tracks rt st0 env st" and "tracks rt st0 env st'"
  shows "same_view rt st st'"
proof -
  have "observe rt st x = observe rt st' x" for x
  proof (cases "env x")
    case None
    have "get_local x st = get_local x st'"
      by (simp only: tracks_cases(2) [OF assms(1) None] tracks_cases(2) [OF assms(2) None])
    then show ?thesis by (rule observe_get_local)
  next
    case (Some i)
    show ?thesis
      using observe_int [OF tracks_cases(1) [OF assms(1) Some]]
        observe_int [OF tracks_cases(1) [OF assms(2) Some]] by simp
  qed
  moreover have "same_rest st0 st" and "same_rest st0 st'"
    using assms unfolding tracks_def by blast+
  ultimately show ?thesis by (simp add: same_view_def same_rest_def)
qed

lemma tracks_stored:
  assumes "distinct names" and "length ls = length names"
  shows "tracks rt st (slot_env names ls) (fold store_int_local (zip names ls) st)"
proof -
  have "case slot_env names ls x of
      Some i \<Rightarrow> load_int_local rt (fold store_int_local (zip names ls) st) x = Some i
    | None \<Rightarrow> get_local x (fold store_int_local (zip names ls) st) = get_local x st" for x
    by (cases "slot_env names ls x")
       (simp_all add: load_int_local_def get_local_stored [OF assms] int_of_rvalue_def)
  then show ?thesis by (simp add: tracks_def same_rest_stored)
qed

lemma same_view_diag [simp]: "same_view rt st (with_diagnostics f st') \<longleftrightarrow> same_view rt st st'"
  by (simp add: same_view_def observe_def same_rest_def)

lemma same_view_set_local:
  assumes "same_view rt st st'" and "get_local x st = Some v"
  shows "same_view rt st (set_local x v st')"
proof -
  have "observe rt st y = observe rt (set_local x v st') y" for y
  proof (cases "y = x")
    case False
    then have "observe rt (set_local x v st') y = observe rt st' y"
      by (simp add: observe_def get_local_set_local)
    with assms(1) show ?thesis by (simp add: same_view_def)
  qed (simp add: observe_def get_local_set_local assms(2))
  with assms(1) show ?thesis by (simp add: same_view_def)
qed

lemma same_rest_with_diagnostics [simp]: "same_rest st0 (with_diagnostics f st) \<longleftrightarrow> same_rest st0 st"
  by (simp add: same_rest_def)

lemma tracks_with_diagnostics [simp]:
  "tracks rt (with_diagnostics f st0) env st \<longleftrightarrow> tracks rt st0 env st"
  by (simp add: tracks_def same_rest_def cong: option.case_cong)

lemma load_int_with_diagnostics [simp]:
  "load_int_local rt (with_diagnostics f st) = load_int_local rt st"
  by (simp add: load_int_local_def fun_eq_iff)

lemma with_diagnostics_comp [simp]:
  "with_diagnostics f (with_diagnostics g st) = with_diagnostics (f \<circ> g) st"
  by (simp add: with_diagnostics_def)

lemma compile_expr_body_function:
  assumes "compile_generic_vm_function plan = Some f" and "gp_ops plan = [GExprBody body]"
  obtains code where "compile_generic_vm_expr_body (gp_target plan) body [] = Some (code, lf_locals f)"
    and "lf_ops f = [VExprBody code]"
  using assms
  by (auto simp: compile_generic_vm_function_def compile_loop_op_def Let_def split: bind_splits)

lemma optimize_expr_body:
  "lf_ops f = [VExprBody code] \<Longrightarrow> lo_function (optimize_loop_ir f) = f \<and> lo_kernel (optimize_loop_ir f) = None"
  by (auto simp: optimize_loop_ir_def canonicalize_loop_ir_def canonicalize_loop_ir_ops_def
      match_loop_ir_subgraph_def Let_def split: bind_splits list.splits)

lemma lowered_target:
  assumes "try_lower_generic_loop [target] iter body = Some plan"
  shows "gp_target plan = target"
  using assms by (auto simp: try_lower_generic_loop_def Let_def split: bind_splits option.splits)

text \<open>The outcome of the executor, read off the meaning of the loop.\<close>

lemma run_expr_loop:
  assumes comp: "compile_generic_vm_function plan = Some f" and ops: "gp_ops plan = [GExprBody body]"
  shows "case try_eval_for_values_generic_vm rt [gp_target plan] vs plan st of
      (Inl e, st') \<Rightarrow> (\<exists>d. st' = with_diagnostics d st)
        \<and> frag_loop (gp_target plan) body vs
            (slot_env (lf_locals f) (List.map (load_int_local rt st) (lf_locals f)), None) = Inl e
    | (Inr None, st') \<Rightarrow> \<exists>d. st' = with_diagnostics d st
    | (Inr (Some fl), st') \<Rightarrow> fl = FOutput PEmpty \<and> (\<exists>env lv d st1. frag_loop (gp_target plan) body vs
            (slot_env (lf_locals f) (List.map (load_int_local rt st) (lf_locals f)), None)
              = Inr (Done (env, lv))
          \<and> tracks rt st env st1
          \<and> st' = with_diagnostics d (case lv of Some v \<Rightarrow> set_local (gp_target plan) v st1 | None \<Rightarrow> st1))"
proof -
  obtain code where code: "compile_generic_vm_expr_body (gp_target plan) body [] = Some (code, lf_locals f)"
    "lf_ops f = [VExprBody code]"
    using compile_expr_body_function [OF comp ops] by metis
  let ?ls = "List.map (load_int_local rt st) (lf_locals f)"
  have D: "delivers_loop (frag_loop (gp_target plan) body vs (slot_env (lf_locals f) ?ls, None))
      (expr_body_loop code vs (?ls, None)) (lf_locals f) ?ls"
    by (rule expr_body_loop_correct [OF code(1)]) simp
  note distinct = compile_body_spec(1) [OF code(1)]
  note run_simps = try_eval_for_values_generic_vm_def run_generic_loop_def comp optimize_expr_body [OF code(2)]
    record_loop_ir_function_selection_def count_diag_def execute_generic_vm_function_def code(2)
    run_expr_body_def vm_run_def execute_generic_vm_expr_body_def finish_with_def ev_then_def
    finish_generic_vm_loop_def
  show ?thesis
  proof (cases "frag_loop (gp_target plan) body vs (slot_env (lf_locals f) ?ls, None)" rule: vm_res_cases)
    case (Error e)
    with D show ?thesis by (auto simp: delivers_loop_def run_simps)
  next
    case (Miss m)
    with D show ?thesis by (auto simp: delivers_loop_def run_simps)
  next
    case (Done r)
    obtain env lv where r: "r = (env, lv)" by (cases r)
    with D Done obtain ls where ls: "expr_body_loop code vs (?ls, None) = Inr (Done (ls, lv))"
      "length ls = length (lf_locals f)" "slot_env (lf_locals f) ls = env"
      by (auto simp: delivers_loop_def)
    have "tracks rt st (slot_env (lf_locals f) ls)
        (fold store_int_local (zip (lf_locals f) ls) (with_diagnostics d st))" for d
      using tracks_stored [OF distinct ls(2), of rt "with_diagnostics d st"] by simp
    with ls Done r show ?thesis
      by (auto simp: run_simps split: option.splits intro!: exI [of _ diag_loop_vm_executed])
  qed
qed

text \<open>C1: an integer loop body that is lowered and run by the register machine does what the
  evaluator does: the same error, or the same flow with every name observed alike. An unsuccessful
  attempt changes the diagnostics only, so the evaluator then starts from an unchanged program
  state. The body must not assign the loop target.\<close>

theorem integer_loop_matches_evaluator:
  assumes plan: "try_lower_generic_loop [target] iter stmts = Some plan"
    and ops: "gp_ops plan = [GExprBody body]"
    and target: "\<not> assigns_name target body"
  shows "case try_eval_for_values_generic_vm rt [target] vs plan st of
      (Inl e, st') \<Rightarrow> (\<exists>d. st' = with_diagnostics d st)
        \<and> fst (eval_for_values rt [target] (eval_block rt PEmpty False PEmpty body) vs PEmpty st) = Inl e
    | (Inr None, st') \<Rightarrow> \<exists>d. st' = with_diagnostics d st
    | (Inr (Some fl), st') \<Rightarrow> \<exists>st''. same_view rt st'' st'
        \<and> eval_for_values rt [target] (eval_block rt PEmpty False PEmpty body) vs PEmpty st = (Inr fl, st'')"
proof (cases "compile_generic_vm_function plan")
  case None
  then show ?thesis
    by (auto simp: try_eval_for_values_generic_vm_def run_generic_loop_def count_diag_def ev_then_def)
next
  case (Some f)
  note t = lowered_target [OF plan]
  let ?env = "slot_env (lf_locals f) (List.map (load_int_local rt st) (lf_locals f))"
  note R = run_expr_loop [OF Some ops, where rt = rt and vs = vs and st = st, unfolded t]
  note entry = tracks_entry [where rt = rt and st = st and names = "lf_locals f"]
  note L = loop_tracks [OF entry target, where lv = None and vs = vs, simplified]
  obtain r st' where run: "try_eval_for_values_generic_vm rt [target] vs plan st = (r, st')" by fastforce
  show ?thesis
  proof (cases r)
    case (Inl e)
    with R L run show ?thesis by auto
  next
    case (Inr ok)
    show ?thesis
    proof (cases ok)
      case None
      with R run Inr show ?thesis by auto
    next
      case ok: (Some fl)
      with R run Inr obtain env lv d st1 where 1: "fl = FOutput PEmpty"
        "frag_loop target body vs (?env, None) = Inr (Done (env, lv))" "tracks rt st env st1"
        "st' = with_diagnostics d (case lv of Some v \<Rightarrow> set_local target v st1 | None \<Rightarrow> st1)"
        by auto
      with L obtain st2 where 2: "tracks rt st env st2" "\<forall>v. lv = Some v \<longrightarrow> get_local target st2 = Some v"
        "eval_for_values rt [target] (eval_block rt PEmpty False PEmpty body) vs PEmpty st
          = (Inr (FOutput PEmpty), st2)"
        by auto
      have "same_view rt st2 st'"
        using tracks_view [OF 2(1) 1(3)] 2(2) 1(4) by (cases lv) (simp_all add: same_view_set_local)
      with 1 2 run Inr ok show ?thesis by auto
    qed
  qed
qed

end
