(* ===== verification/Fused_Correct.thy ===== *)
theory Fused_Correct
  imports Loop_Correct
begin

text \<open>The fused loops of the executor: what is left in the loop target, the canonical form of the code,
  sums and list appends against the evaluator.\<close>

section \<open>The loop target\<close>

definition last_item :: "'a list \<Rightarrow> 'a option \<Rightarrow> 'a option" where
  "last_item vs before = (if vs = [] then before else Some (last vs))"

lemma last_item_simps [simp]:
  "last_item [] b = b" "last_item (v # vs) b = last_item vs (Some v)"
  by (simp_all add: last_item_def)

lemma vm_then_eq_Done [dest_simps]:
  "vm_then r f = Inr (Done y) \<longleftrightarrow> (\<exists>x. r = Inr (Done x) \<and> f x = Inr (Done y))"
  by (cases r rule: vm_res_cases) auto

lemma vm_done_eq_Done [dest_simps]: "vm_done r = Inr (Done y) \<longleftrightarrow> r = Inr y"
  by (cases r) auto

lemma vm_need_eq_Done [dest_simps]: "vm_need m x = Inr (Done y) \<longleftrightarrow> x = Some y"
  by (cases x) auto

lemma loops_last_item:
  "add_assign_loop vs acc = Inr (Done r) \<Longrightarrow> snd r = last_item vs (snd acc)"
  "text_parse_loop p lines acc = Inr (Done r) \<Longrightarrow>
     snd r = last_item (List.map (\<lambda>l. RNu (VString l)) lines) (snd acc)"
  "map_add_loop key_of addend vs cacc = Inr (Done cr) \<Longrightarrow> snd cr = last_item vs (snd cacc)"
  "list_append_loop unique vs lacc = Inr (Done lr) \<Longrightarrow> snd lr = last_item vs (snd lacc)"
  "expr_body_loop body vs eacc = Inr (Done er) \<Longrightarrow> snd er = last_item vs (snd eacc)"
proof -
  show "add_assign_loop vs acc = Inr (Done r) \<Longrightarrow> snd r = last_item vs (snd acc)"
    by (induction vs arbitrary: acc) (auto simp: vm_then_eq_Done)
  show "text_parse_loop p lines acc = Inr (Done r) \<Longrightarrow>
      snd r = last_item (List.map (\<lambda>l. RNu (VString l)) lines) (snd acc)"
    by (induction lines arbitrary: acc) (auto simp: vm_then_eq_Done)
  show "map_add_loop key_of addend vs cacc = Inr (Done cr) \<Longrightarrow> snd cr = last_item vs (snd cacc)"
    by (induction vs arbitrary: cacc) (auto simp: vm_then_eq_Done)
  show "list_append_loop unique vs lacc = Inr (Done lr) \<Longrightarrow> snd lr = last_item vs (snd lacc)"
    by (induction vs arbitrary: lacc) (auto simp: vm_then_eq_Done vm_need_eq_Done nu_part_iff)
  show "expr_body_loop body vs eacc = Inr (Done er) \<Longrightarrow> snd er = last_item vs (snd eacc)"
    by (induction vs arbitrary: eacc) (auto simp: vm_then_eq_Done split: if_splits)
qed

text \<open>A postcondition of a successful evaluation.\<close>

definition gives :: "'a ev \<Rightarrow> ('a \<Rightarrow> eval_state \<Rightarrow> bool) \<Rightarrow> bool" where
  "gives m P \<longleftrightarrow> (\<forall>st x st'. m st = (Inr x, st') \<longrightarrow> P x st')"

lemma gives_then: "(\<And>x. gives (f x) P) \<Longrightarrow> gives (ev_then m f) P"
  by (auto simp: gives_def ev_then_def split: prod.splits sum.splits)

lemma gives_then': "gives m (\<lambda>x st. Q x) \<Longrightarrow> (\<And>x. Q x \<Longrightarrow> gives (f x) P) \<Longrightarrow> gives (ev_then m f) P"
  by (fastforce simp: gives_def ev_then_def split: prod.splits sum.splits)

lemma gives_simps [simp]:
  "gives (ev_ret x) P \<longleftrightarrow> (\<forall>st. P x st)"
  "gives (ev_fail e) P"
  by (auto simp: gives_def)

lemma gives_vm_run: "(\<And>x. r = Inr (Done x) \<Longrightarrow> Q (Some x)) \<Longrightarrow> Q None \<Longrightarrow> gives (vm_run r) (\<lambda>x st. Q x)"
  by (cases r rule: vm_res_cases)
     (auto simp: vm_run_def gives_def count_diag_def ev_then_def)

definition ends_at_last :: "rvalue list \<Rightarrow> loop_result \<Rightarrow> bool" where
  "ends_at_last vs r \<longleftrightarrow> (case r of Unsupported \<Rightarrow> True | Executed v \<Rightarrow> v = last_item vs None)"

lemma ends_at_last_simps [simp]:
  "ends_at_last vs Unsupported" "ends_at_last vs (Executed v) \<longleftrightarrow> v = last_item vs None"
  by (simp_all add: ends_at_last_def)

definition input_items :: "vm_input \<Rightarrow> rvalue list" where
  "input_items input = (case input of
     InValues vs \<Rightarrow> vs | InLines lines \<Rightarrow> List.map (\<lambda>l. RNu (VString l)) lines)"

lemma gives_run:
  assumes "\<And>x. r = Inr (Done x) \<Longrightarrow> snd x = last_item vs None"
  shows "gives (ev_then (vm_run r) (finish_with (\<lambda>x. ev_then (w x) (\<lambda>_. ev_ret (Executed (snd x))))))
    (\<lambda>x st. ends_at_last vs x)"
  by (rule gives_then' [OF gives_vm_run [where Q = "\<lambda>x. \<forall>y. x = Some y \<longrightarrow> snd y = last_item vs None"]])
     (auto simp: finish_with_def assms split: option.splits intro!: gives_then)

lemma gives_need_local: "(\<And>v. gives (k v) P) \<Longrightarrow> (\<And>st. P Unsupported st) \<Longrightarrow> gives (need_local x k) P"
  by (auto simp: gives_def need_local_def count_diag_def ev_then_def split: option.splits)

lemma gives_lookup:
  "(\<And>v. gives (k v) P)
    \<Longrightarrow> gives (\<lambda>st. case get_local x st of None \<Rightarrow> (Inl e, st) | Some v \<Rightarrow> k v st) P"
  by (auto simp: gives_def split: option.splits)

lemma gives_miss_loop: "gives (miss_loop m) (\<lambda>x st. ends_at_last vs x)"
  by (simp add: miss_loop_def gives_then)

lemma gives_local_or_fail: "(\<And>x. gives (k x) P) \<Longrightarrow> gives (local_or_fail f i k) P"
  by (simp add: local_or_fail_def gives_then)

lemma runs_last_item:
  "gives (run_add_assign x vs) (\<lambda>r st. ends_at_last vs r)"
  "gives (run_text_parse_add_assign x lines p) (\<lambda>r st. ends_at_last (List.map (\<lambda>l. RNu (VString l)) lines) r)"
  "gives (run_map_add_i64_const rt x addend vs) (\<lambda>r st. ends_at_last vs r)"
  "gives (run_map_add_record_field rt x fld addend vs) (\<lambda>r st. ends_at_last vs r)"
  "gives (run_map_add_record_string_field rt x fld strip lower addend vs) (\<lambda>r st. ends_at_last vs r)"
  "gives (run_list_append x vs unique) (\<lambda>r st. ends_at_last vs r)"
  "gives (run_expr_body rt f body vs) (\<lambda>r st. ends_at_last vs r)"
proof -
  show "gives (run_add_assign x vs) (\<lambda>r st. ends_at_last vs r)"
    unfolding run_add_assign_def
    by (intro gives_need_local gives_run)
       (auto simp: execute_generic_vm_add_assign_def vm_then_eq_Done dest: loops_last_item(1))
  show "gives (run_text_parse_add_assign x lines p)
      (\<lambda>r st. ends_at_last (List.map (\<lambda>l. RNu (VString l)) lines) r)"
    unfolding run_text_parse_add_assign_def
    by (intro gives_need_local gives_run)
       (auto simp: execute_generic_vm_text_parse_add_assign_def vm_then_eq_Done dest: loops_last_item(2))
  have map_add: "gives (run_map_add rt x (\<lambda>m. map_add_loop key_of addend vs (m, None)))
      (\<lambda>r st. ends_at_last vs r)" for key_of
    unfolding run_map_add_def by (intro gives_then gives_run) (auto dest: loops_last_item(3))
  show "gives (run_map_add_i64_const rt x addend vs) (\<lambda>r st. ends_at_last vs r)"
    "gives (run_map_add_record_field rt x fld addend vs) (\<lambda>r st. ends_at_last vs r)"
    "gives (run_map_add_record_string_field rt x fld strip lower addend vs) (\<lambda>r st. ends_at_last vs r)"
    using map_add
    by (simp_all add: run_map_add_i64_const_def execute_generic_vm_map_add_i64_const_def
        run_map_add_record_field_def execute_generic_vm_map_add_i64_const_record_field_def
        run_map_add_record_string_field_def execute_generic_vm_map_add_i64_const_record_string_field_def)
  have append: "gives (ev_then (vm_run (execute_generic_vm_list_append v vs unique)) (finish_with (\<lambda>r.
      ev_then (w r) (\<lambda>_. ev_ret (Executed (snd r)))))) (\<lambda>r st. ends_at_last vs r)" for v and w :: "_ \<Rightarrow> unit ev"
    by (rule gives_run)
       (auto simp: execute_generic_vm_list_append_def vm_then_eq_Done dest: loops_last_item(4))
  show "gives (run_list_append x vs unique) (\<lambda>r st. ends_at_last vs r)"
    unfolding run_list_append_def by (rule gives_lookup) (rule append)
  have expr: "gives (ev_then (vm_run (execute_generic_vm_expr_body body ls vs)) (finish_with (\<lambda>r.
      ev_then (w r) (\<lambda>_. ev_ret (Executed (snd r)))))) (\<lambda>r st. ends_at_last vs r)" for ls and w :: "_ \<Rightarrow> unit ev"
    by (rule gives_run) (auto simp: execute_generic_vm_expr_body_def dest: loops_last_item(5))
  show "gives (run_expr_body rt f body vs) (\<lambda>r st. ends_at_last vs r)"
    unfolding run_expr_body_def gives_def
    by (intro allI impI) (erule expr [unfolded gives_def, rule_format])
qed

lemma function_last_item:
  "gives (execute_generic_vm_function rt f input) (\<lambda>r st. ends_at_last (input_items input) r)"
  by (auto simp: execute_generic_vm_function_def input_items_def gives_miss_loop runs_last_item
      intro!: gives_local_or_fail split: option.splits vm_input.splits vm_op.splits)

text \<open>after a loop ran on the machine, the loop target holds the last item, whatever the operation
  was and whatever the body did with the target.\<close>

theorem executed_loop_binds_last_item:
  assumes "run_generic_loop rt [target] plan input st = (Inr (Some fl), st')"
    and "input_items input \<noteq> []"
  shows "get_local target st' = Some (last (input_items input))"
proof -
  let ?P = "\<lambda>r st'. r \<noteq> None \<longrightarrow> get_local target st' = Some (last (input_items input))"
  have finish: "gives (ev_then (finish_generic_vm_loop [target] lv) (\<lambda>_.
      ev_then (case kernel of None \<Rightarrow> ev_ret () | Some k \<Rightarrow> count_diag (diag_kernel_executed k))
        (\<lambda>_. ev_ret (Some (FOutput PEmpty))))) ?P"
    if "lv = Some (last (input_items input))" for kernel lv
    using that
    by (auto simp: gives_def finish_generic_vm_loop_def count_diag_def ev_then_def get_local_set_local
        split: option.splits)
  have "gives (run_generic_loop rt [target] plan input) ?P"
  proof (cases "compile_generic_vm_function plan")
    case None
    then show ?thesis by (simp add: run_generic_loop_def gives_then)
  next
    case (Some f)
    have "gives (ev_then (execute_generic_vm_function rt g input) (\<lambda>result. case result of
         Unsupported \<Rightarrow> ev_then (count_diag diag_loop_fallback) (\<lambda>_. ev_ret None)
       | Executed lv \<Rightarrow> ev_then (finish_generic_vm_loop [target] lv) (\<lambda>_.
           ev_then (case kernel of None \<Rightarrow> ev_ret () | Some k \<Rightarrow> count_diag (diag_kernel_executed k))
             (\<lambda>_. ev_ret (Some (FOutput PEmpty)))))) ?P" for g kernel
    proof (rule gives_then' [OF function_last_item])
      fix r assume "ends_at_last (input_items input) r"
      then show "gives (case r of
         Unsupported \<Rightarrow> ev_then (count_diag diag_loop_fallback) (\<lambda>_. ev_ret None)
       | Executed lv \<Rightarrow> ev_then (finish_generic_vm_loop [target] lv) (\<lambda>_.
           ev_then (case kernel of None \<Rightarrow> ev_ret () | Some k \<Rightarrow> count_diag (diag_kernel_executed k))
             (\<lambda>_. ev_ret (Some (FOutput PEmpty))))) ?P"
        using finish assms(2) by (cases r) (auto simp: last_item_def intro: gives_then)
    qed
    with Some show ?thesis by (simp add: run_generic_loop_def gives_then)
  qed
  with assms(1) show ?thesis by (auto simp: gives_def)
qed

section \<open>The canonical form\<close>

lemma string_field_key_plain:
  "string_field_key get lower_case f False False to_key = field_key get f to_key"
proof
  fix v
  show "string_field_key get lower_case f False False to_key v = field_key get f to_key v"
    by (cases "field_key get f to_key v" rule: vm_res_cases)
       (simp_all add: string_field_key_def clean_key_def)
qed

lemma optimized_function:
  "execute_generic_vm_function rt (lo_function (optimize_loop_ir f)) input
    = execute_generic_vm_function rt f input"
proof (cases "canonicalize_loop_ir_ops (lf_ops f)")
  case None
  then show ?thesis by (simp add: optimize_loop_ir_def canonicalize_loop_ir_def Let_def)
next
  case (Some ops)
  then obtain m fld addend where "lf_ops f = [VMapAddRecordStringField m fld False False addend]"
    and "ops = [VMapAddRecordField m fld addend]"
    by (auto simp: canonicalize_loop_ir_ops_def split: list.splits vm_op.splits if_splits)
  then show ?thesis
    by (auto simp: optimize_loop_ir_def canonicalize_loop_ir_def canonicalize_loop_ir_ops_def Let_def
        execute_generic_vm_function_def local_or_fail_def local_name_def run_map_add_record_field_def
        run_map_add_record_string_field_def execute_generic_vm_map_add_i64_const_record_field_def
        execute_generic_vm_map_add_i64_const_record_string_field_def string_field_key_plain
        split: vm_input.splits)
qed

text \<open>The kernel that an operation of a plan calls for: counters and appends have one.\<close>

definition kernel_of_plan :: "generic_loop_op list \<Rightarrow> fused_kernel option" where
  "kernel_of_plan ops = (case ops of
     [GMapAddI64Const _ _ _] \<Rightarrow> Some KMapAddI64Const
   | [GMapAddRecordStringField _ _ _ _ _ _] \<Rightarrow> Some KMapAddI64Const
   | [GListAppend _ _] \<Rightarrow> Some KListAppend
   | [GListAppendUnique _ _] \<Rightarrow> Some KListAppend
   | _ \<Rightarrow> None)"

text \<open>The operations of a compiled plan after the optimizer: only a field counter that neither strips nor lowers
  its key is replaced, by the plain field counter.\<close>

definition optimized_ops :: "generic_loop_op list \<Rightarrow> vm_op list \<Rightarrow> vm_op list" where
  "optimized_ops plan_ops ops = (case plan_ops of
     [GMapAddRecordStringField _ _ f strip lower value] \<Rightarrow>
       if strip \<or> lower then ops else [VMapAddRecordField 0 f value]
   | _ \<Rightarrow> ops)"

lemma optimized_plan:
  assumes "compile_generic_vm_function plan = Some f"
  shows "lf_ops (lo_function (optimize_loop_ir f)) = optimized_ops (gp_ops plan) (lf_ops f)"
    and "lo_kernel (optimize_loop_ir f) = kernel_of_plan (gp_ops plan)"
proof -
  obtain op where op: "gp_ops plan = [op]"
    using assms by (auto simp: compile_generic_vm_function_def dest_one_iff elim!: bind_eq_SomeE)
  note facts = compile_generic_vm_function_def op compile_loop_op_def generic_vm_local_def intern_def
    optimize_loop_ir_def canonicalize_loop_ir_def canonicalize_loop_ir_ops_def replace_ops_def
    match_loop_ir_subgraph_def kernel_of_subgraph_def
  show "lf_ops (lo_function (optimize_loop_ir f)) = optimized_ops (gp_ops plan) (lf_ops f)"
    using assms by (cases op) (auto simp: facts optimized_ops_def Let_def elim!: bind_eq_SomeE)
  show "lo_kernel (optimize_loop_ir f) = kernel_of_plan (gp_ops plan)"
    using assms by (cases op) (auto simp: facts kernel_of_plan_def Let_def elim!: bind_eq_SomeE)
qed

text \<open>C2: the optimizer preserves what a loop does: running the optimised function in place of the
  compiled one changes no result, no error and no state, on every input. In the code compiled from a plan it replaces
  exactly a field counter that neither strips nor lowers its key, by the plain field counter of the same field and
  addend, and it selects the kernel that the operation of the plan calls for: the counter kernel for the two counters,
  the append kernel for the two appends, and none for any other operation.\<close>

theorem optimized_function_computes_the_same:
  "execute_generic_vm_function rt (lo_function (optimize_loop_ir f)) input st
      = execute_generic_vm_function rt f input st
   \<and> (compile_generic_vm_function plan = Some f \<longrightarrow>
        lf_ops (lo_function (optimize_loop_ir f)) = optimized_ops (gp_ops plan) (lf_ops f)
        \<and> lo_kernel (optimize_loop_ir f) = kernel_of_plan (gp_ops plan))"
  using optimized_plan by (simp add: optimized_function)

text \<open>A loop that counts the values of a field.\<close>

definition field_count_plan :: generic_loop_plan where
  "field_count_plan = \<lparr> gp_target = ''x'', gp_iter = MaterializedList,
     gp_ops = [GMapAddRecordStringField ''m'' ''x'' ''k'' False False 1] \<rparr>"

theorem optimized_function_computes_the_same_witness:
  "\<exists>f. compile_generic_vm_function field_count_plan = Some f
    \<and> lf_ops f = [VMapAddRecordStringField 0 ''k'' False False 1]
    \<and> lf_ops (lo_function (optimize_loop_ir f)) = [VMapAddRecordField 0 ''k'' 1]
    \<and> lo_kernel (optimize_loop_ir f) = Some KMapAddI64Const"
proof -
  obtain f where f: "compile_generic_vm_function field_count_plan = Some f"
    "lf_ops f = [VMapAddRecordStringField 0 ''k'' False False 1]"
    by (simp add: compile_generic_vm_function_def field_count_plan_def compile_loop_op_def generic_vm_local_def
        intern_def dest_one_def)
  from f(1) have "lf_ops (lo_function (optimize_loop_ir f)) = optimized_ops (gp_ops field_count_plan) (lf_ops f)
      \<and> lo_kernel (optimize_loop_ir f) = kernel_of_plan (gp_ops field_count_plan)"
    using optimized_function_computes_the_same by blast
  with f show ?thesis by (auto simp: optimized_ops_def kernel_of_plan_def field_count_plan_def)
qed

text \<open>The executor around the machine run.\<close>

lemma only_diagnostics [simp]: "\<exists>d. with_diagnostics f st = with_diagnostics d st"
  by blast

definition wrap_result :: "string \<Rightarrow> (hot_diagnostics \<Rightarrow> hot_diagnostics) \<Rightarrow>
    loop_result res \<times> eval_state \<Rightarrow> flow option res \<times> eval_state" where
  "wrap_result target d r = (case r of
     (Inl e, st) \<Rightarrow> (Inl e, st)
   | (Inr Unsupported, st) \<Rightarrow> (Inr None, with_diagnostics diag_loop_fallback st)
   | (Inr (Executed lv), st) \<Rightarrow> (Inr (Some (FOutput PEmpty)),
       with_diagnostics d (case lv of Some v \<Rightarrow> set_local target v st | None \<Rightarrow> st)))"

lemma wrap_result_simps [simp]:
  "wrap_result target d (Inl e, st) = (Inl e, st)"
  "wrap_result target d (Inr Unsupported, st) = (Inr None, with_diagnostics diag_loop_fallback st)"
  "wrap_result target d (Inr (Executed lv), st) = (Inr (Some (FOutput PEmpty)),
     with_diagnostics d (case lv of Some v \<Rightarrow> set_local target v st | None \<Rightarrow> st))"
  by (simp_all add: wrap_result_def)

lemma run_generic_loop_compiled:
  assumes "compile_generic_vm_function plan = Some f"
  obtains d d' where "run_generic_loop rt [target] plan input st
    = wrap_result target d (execute_generic_vm_function rt f input (with_diagnostics d' st))"
proof -
  let ?kernel = "lo_kernel (optimize_loop_ir f)"
  let ?d = "case ?kernel of None \<Rightarrow> diag_loop_vm_executed
    | Some k \<Rightarrow> diag_kernel_executed k \<circ> diag_loop_vm_executed"
  obtain d' where d': "record_loop_ir_function_selection (optimize_loop_ir f) st
      = (Inr ?kernel, with_diagnostics d' st)"
    by (auto simp: record_loop_ir_function_selection_def count_diag_def ev_then_def)
  obtain r st1 where r: "execute_generic_vm_function rt f input (with_diagnostics d' st) = (r, st1)"
    by fastforce
  have "run_generic_loop rt [target] plan input st = wrap_result target ?d (r, st1)"
    using assms d' r
    by (cases r) (auto simp: run_generic_loop_def optimized_function ev_then_def wrap_result_def count_diag_def
        finish_generic_vm_loop_def split: loop_result.splits option.splits)
  with r have "run_generic_loop rt [target] plan input st
      = wrap_result target ?d (execute_generic_vm_function rt f input (with_diagnostics d' st))"
    by simp
  then show thesis by (rule that)
qed

section \<open>Sums\<close>

abbreviation num_value :: "vm_number \<Rightarrow> rvalue" where
  "num_value n \<equiv> RNu (generic_vm_number_to_value n)"

definition overflow_error :: "string \<Rightarrow> shell_error" where
  "overflow_error context = stone_error context ''integer addition overflow'' []"

lemma number_from_runtime: "generic_vm_number_from_runtime v = Some n \<longleftrightarrow> v = num_value n"
  by (cases n) (auto simp: generic_vm_number_from_runtime_def generic_vm_number_to_value_def
      split: rvalue.splits nu_value.splits)

lemma add_numbers:
  "add_values (generic_vm_number_to_value a) (generic_vm_number_to_value b)
    = (case generic_vm_add_number a b of
        Inl _ \<Rightarrow> Inl (overflow_error ''addition'') | Inr c \<Rightarrow> Inr (generic_vm_number_to_value c))"
  by (cases a; cases b)
     (auto simp: add_values_def int_operands_def float_operands_def generic_vm_number_to_value_def
       generic_vm_add_number_def overflow_error_def ok_or_def split: option.splits)

lemma add_number_error: "generic_vm_add_number a b = Inl e \<Longrightarrow> e = overflow_error ''hot loop''"
  by (cases a; cases b) (auto simp: generic_vm_add_number_def overflow_error_def ok_or_def split: option.splits)

lemma add_number_commute: "generic_vm_add_number a b = generic_vm_add_number b a"
  by (cases a; cases b)
     (simp_all add: generic_vm_add_number_def checked_add_def add.commute f64_add_commute)

text \<open>A statement that adds the item to a name.\<close>

definition adds_item :: "runtime \<Rightarrow> string \<Rightarrow> string \<Rightarrow> stmt \<Rightarrow> bool" where
  "adds_item rt x target s \<longleftrightarrow> (\<forall>st a n.
     get_local x st = Some (num_value a) \<and> get_local target st = Some (num_value n) \<longrightarrow>
     eval_stmt rt PEmpty False s st = (case generic_vm_add_number a n of
       Inl _ \<Rightarrow> (Inl (overflow_error ''addition''), st)
     | Inr c \<Rightarrow> (Inr (FOutput PEmpty), set_local x (num_value c) st)))"

lemma adds_item_forms:
  "adds_item rt x target (SAugAssign (TName x) AugAdd (EName target))"
  "matches_add_self_item x target l r \<Longrightarrow> adds_item rt x target (SAssign (TName x) (EAdd l r))"
  by (auto simp: adds_item_def eval_aug_assign_def eval_assign_target_value_def eval_expr.simps eval_name_def
      ev_then_def to_nu_def apply_aug_op_def add_numbers assign_value_def record_bindings_def
      eval_assign_def binary_def nu_result_def matches_add_self_item_def add_number_commute
      split: sum.splits)

lemma adds_item_lowered:
  assumes "lower_generic_loop_stmt target s = Some (GAddAssign x item)"
  shows "adds_item rt x target s"
proof (cases s)
  case (SIf c t e)
  with assms show ?thesis
    by (auto simp: or_else_eq_Some lower_generic_count_if_def split: if_splits option.splits list.splits
        generic_loop_op.splits bind_splits)
next
  case (SExpr e)
  with assms show ?thesis
    by (auto simp: lower_generic_list_append_def split: bind_splits)
next
  case (SAugAssign t op e)
  with assms show ?thesis
    by (auto simp: dest_target_name_iff adds_item_forms lower_generic_parse_add_assign_def
        split: bind_splits if_splits)
next
  case (SAssign t e)
  with assms show ?thesis
    by (auto simp: dest_simps adds_item_forms split: bind_splits)
qed (use assms in auto)

lemma execute_add_assign:
  "lf_locals f = [x] \<Longrightarrow> lf_ops f = [VAddAssign 0] \<Longrightarrow>
    execute_generic_vm_function rt f (InValues vs) = run_add_assign x vs"
  by (simp add: execute_generic_vm_function_def local_or_fail_def local_name_def ok_or_def fun_eq_iff
      ev_then_def)

lemma lowered_op:
  assumes "try_lower_generic_loop [target] iter body = Some plan"
  obtains b where "gp_ops plan = [GJsonlAggregation b]"
    | op where "gp_ops plan = [op]" and "lower_generic_op target body = Some op"
proof -
  from assms obtain it where "generic_iter iter = Some it"
    by (auto simp: try_lower_generic_loop_def elim!: bind_eq_SomeE)
  with assms obtain jsonl where "(case jsonl of
        Some b \<Rightarrow> Some \<lparr> gp_target = target, gp_iter = it, gp_ops = [GJsonlAggregation b] \<rparr>
      | None \<Rightarrow> do { op \<leftarrow> lower_generic_op target body;
                   Some \<lparr> gp_target = target, gp_iter = it, gp_ops = [op] \<rparr> }) = Some plan"
    by (simp add: try_lower_generic_loop_def Let_def)
  with that show thesis by (cases jsonl) (auto elim!: bind_eq_SomeE)
qed

lemma record_field_count_op:
  "lower_generic_record_field_count item body = Some op \<Longrightarrow>
    \<exists>m f strip lower addend. op = GMapAddRecordStringField m item f strip lower addend"
  by (auto simp: lower_generic_record_field_count_def elim!: bind_eq_SomeE)

lemma lowered_add_assign:
  assumes "try_lower_generic_loop [target] iter body = Some plan" and "gp_ops plan = [GAddAssign x item]"
  obtains s where "body = [s]" and "lower_generic_loop_stmt target s = Some (GAddAssign x item)"
proof -
  from assms have "lower_generic_op target body = Some (GAddAssign x item)"
    by (auto elim: lowered_op)
  with that show thesis
    by (auto simp: lower_generic_op_def or_else_eq_Some dest_simps
        split: if_splits elim!: bind_eq_SomeE dest: record_field_count_op)
qed

text \<open>The effect of a loop that accumulates into one name.\<close>

definition loop_view ::
  "string \<Rightarrow> string \<Rightarrow> rvalue \<Rightarrow> rvalue option \<Rightarrow> eval_state \<Rightarrow> eval_state \<Rightarrow> bool" where
  "loop_view x target w tv st st' \<longleftrightarrow> same_rest st st' \<and> get_local x st' = Some w
     \<and> get_local target st' = tv
     \<and> (\<forall>y. y \<noteq> x \<and> y \<noteq> target \<longrightarrow> get_local y st' = get_local y st)"

lemma loop_view_step:
  "x \<noteq> target \<Longrightarrow> loop_view x target w tv (set_local x c (set_local target v st)) st'
    \<longleftrightarrow> loop_view x target w tv st st'"
  by (auto simp: loop_view_def get_local_set_local same_rest_def)

lemma loop_view_stored:
  assumes "x \<noteq> target" and "loop_view x target w (last_item vs (get_local target st)) st st''"
    and "st1 = set_local x w (with_diagnostics d' st)"
  shows "same_rest st'' (with_diagnostics d
      (case last_item vs None of Some v \<Rightarrow> set_local target v st1 | None \<Rightarrow> st1))
    \<and> (\<forall>y. get_local y (with_diagnostics d
        (case last_item vs None of Some v \<Rightarrow> set_local target v st1 | None \<Rightarrow> st1)) = get_local y st'')"
  using assms by (auto simp: loop_view_def get_local_set_local same_rest_def last_item_def)

lemma sum_loop_tracks:
  assumes s: "adds_item rt x target s" and x: "x \<noteq> target"
    and "get_local x st = Some (num_value a)"
  shows "case add_assign_loop vs (a, lv) of
      Inl e \<Rightarrow> e = overflow_error ''hot loop'' \<and>
        fst (eval_for_values rt [target] (eval_block rt PEmpty False PEmpty [s]) vs PEmpty st)
          = Inl (overflow_error ''addition'')
    | Inr (Miss _) \<Rightarrow> True
    | Inr (Done (c, lv')) \<Rightarrow> \<exists>st'. eval_for_values rt [target] (eval_block rt PEmpty False PEmpty [s]) vs PEmpty st
          = (Inr (FOutput PEmpty), st')
        \<and> loop_view x target (num_value c) (last_item vs (get_local target st)) st st'"
  using assms(3)
proof (induction vs arbitrary: a lv st)
  case Nil
  then show ?case by (simp add: loop_view_def)
next
  case (Cons v vs)
  show ?case
  proof (cases "generic_vm_number_from_runtime v")
    case None
    then show ?thesis by simp
  next
    case (Some n)
    then have v: "v = num_value n" by (simp add: number_from_runtime)
    let ?st = "set_local target v st"
    have run: "eval_stmt rt PEmpty False s ?st = (case generic_vm_add_number a n of
       Inl _ \<Rightarrow> (Inl (overflow_error ''addition''), ?st)
     | Inr c \<Rightarrow> (Inr (FOutput PEmpty), set_local x (num_value c) ?st))"
      using s [unfolded adds_item_def, rule_format, of ?st a n] Cons.prems x
      by (simp add: get_local_set_local v)
    show ?thesis
    proof (cases "generic_vm_add_number a n")
      case (Inl e)
      with add_number_error [OF Inl] run Some show ?thesis
        by (simp add: assign_loop_targets_def ev_then_def)
    next
      case (Inr c)
      let ?st1 = "set_local x (num_value c) ?st"
      have step: "eval_for_values rt [target] (eval_block rt PEmpty False PEmpty [s]) (v # vs) PEmpty st
          = eval_for_values rt [target] (eval_block rt PEmpty False PEmpty [s]) vs PEmpty ?st1"
        using run Inr by (simp add: assign_loop_targets_def ev_then_def)
      have loop: "add_assign_loop (v # vs) (a, lv) = add_assign_loop vs (c, Some v)"
        using Some Inr by simp
      have prem: "get_local x ?st1 = Some (num_value c)" by (simp add: get_local_set_local)
      have target: "get_local target ?st1 = Some v" using x by (simp add: get_local_set_local)
      show ?thesis
        using Cons.IH [OF prem, of "Some v"]
        unfolding step loop last_item_simps loop_view_step [OF x] target .
    qed
  qed
qed


lemma lowered_sum_loop:
  assumes plan: "try_lower_generic_loop [target] iter body = Some plan"
    and ops: "gp_ops plan = [GAddAssign x item]" and x: "x \<noteq> target"
  shows "case try_eval_for_values_generic_vm rt [target] vs plan st of
      (Inl e, st') \<Rightarrow> e = overflow_error ''hot loop''
        \<and> fst (eval_for_values rt [target] (eval_block rt PEmpty False PEmpty body) vs PEmpty st)
            = Inl (overflow_error ''addition'')
    | (Inr None, st') \<Rightarrow> \<exists>d. st' = with_diagnostics d st
    | (Inr (Some fl), st') \<Rightarrow> \<exists>st''.
        eval_for_values rt [target] (eval_block rt PEmpty False PEmpty body) vs PEmpty st = (Inr fl, st'')
        \<and> same_rest st'' st' \<and> (\<forall>y. get_local y st' = get_local y st'')"
proof -
  obtain s where s: "body = [s]" "lower_generic_loop_stmt target s = Some (GAddAssign x item)"
    using lowered_add_assign [OF plan ops] by metis
  note adds = adds_item_lowered [OF s(2)]
  show ?thesis
  proof (cases "compile_generic_vm_function plan")
    case None
    then show ?thesis
      by (simp add: try_eval_for_values_generic_vm_def run_generic_loop_def count_diag_def ev_then_def)
  next
    case (Some f)
    then have f: "lf_locals f = [x]" "lf_ops f = [VAddAssign 0]"
      by (auto simp: compile_generic_vm_function_def ops compile_loop_op_def generic_vm_local_def
          intern_def elim!: bind_eq_SomeE)
    obtain d d' where run: "try_eval_for_values_generic_vm rt [target] vs plan st
        = wrap_result target d (run_add_assign x vs (with_diagnostics d' st))"
      using run_generic_loop_compiled [OF Some] f
      by (metis execute_add_assign try_eval_for_values_generic_vm_def)
    show ?thesis
    proof (cases "Option.bind (get_local x st) generic_vm_number_from_runtime")
      case None
      then show ?thesis unfolding run
        by (auto simp: run_add_assign_def need_local_def execute_generic_vm_add_assign_def vm_run_def
            count_diag_def ev_then_def finish_with_def split: option.splits)
    next
      case (Some a)
      then have a: "get_local x st = Some (num_value a)"
        by (auto simp: number_from_runtime elim!: bind_eq_SomeE)
      have number: "generic_vm_number_from_runtime (num_value a) = Some a"
        by (simp add: number_from_runtime)
      note L = sum_loop_tracks [OF adds x a, where vs = vs and lv = None, folded s(1)]
      note run_simps = run run_add_assign_def need_local_def a number execute_generic_vm_add_assign_def
        vm_run_def count_diag_def ev_then_def finish_with_def
      show ?thesis
      proof (cases "add_assign_loop vs (a, None)" rule: vm_res_cases)
        case (Error e)
        with L show ?thesis by (simp add: run_simps)
      next
        case (Miss m)
        then show ?thesis by (simp add: run_simps)
      next
        case (Done r)
        obtain c lv where r: "r = (c, lv)" by (cases r)
        with L Done obtain st'' where 1: "loop_view x target (num_value c) (last_item vs (get_local target st)) st st''"
          "eval_for_values rt [target] (eval_block rt PEmpty False PEmpty body) vs PEmpty st
            = (Inr (FOutput PEmpty), st'')"
          by auto
        let ?st1 = "set_local x (num_value c) (with_diagnostics d' st)"
        have lv: "lv = last_item vs None" using loops_last_item(1) [OF Done] r by simp
        have view: "same_rest st'' (with_diagnostics d (case lv of Some v \<Rightarrow> set_local target v ?st1 | None \<Rightarrow> ?st1))
          \<and> (\<forall>y. get_local y (with_diagnostics d (case lv of Some v \<Rightarrow> set_local target v ?st1 | None \<Rightarrow> ?st1))
              = get_local y st'')"
          unfolding lv by (rule loop_view_stored [OF x 1(1) refl])
        have "try_eval_for_values_generic_vm rt [target] vs plan st = (Inr (Some (FOutput PEmpty)),
            with_diagnostics d (case lv of Some v \<Rightarrow> set_local target v ?st1 | None \<Rightarrow> ?st1))"
          using Done r by (simp add: run_simps)
        with 1(2) view show ?thesis by auto
      qed
    qed
  qed
qed

text \<open>The written forms of a body that adds the item to a name.\<close>

definition sum_forms :: "string \<Rightarrow> string \<Rightarrow> stmt set" where
  "sum_forms x target = {SAugAssign (TName x) AugAdd (EName target),
     SAssign (TName x) (EAdd (EName x) (EName target)), SAssign (TName x) (EAdd (EName target) (EName x))}"

lemma lowered_sum_formD:
  assumes "lower_generic_loop_stmt target s = Some (GAddAssign x item)"
  shows "item = target \<and> s \<in> sum_forms x target"
proof (cases s)
  case (SIf c t e)
  with assms show ?thesis
    by (auto simp: or_else_eq_Some lower_generic_count_if_def split: if_splits option.splits list.splits
        generic_loop_op.splits bind_splits)
next
  case (SExpr e)
  with assms show ?thesis by (auto simp: lower_generic_list_append_def split: bind_splits)
next
  case (SAugAssign t op e)
  with assms show ?thesis
    by (auto simp: sum_forms_def dest_target_name_iff lower_generic_parse_add_assign_def split: bind_splits if_splits)
next
  case (SAssign t e)
  with assms show ?thesis
    by (auto simp: sum_forms_def dest_simps matches_add_self_item_def split: bind_splits)
qed (use assms in auto)

lemma lowered_sum_forms:
  "lower_generic_loop_stmt target s = Some (GAddAssign x item) \<longleftrightarrow> item = target \<and> s \<in> sum_forms x target"
  by (auto dest: lowered_sum_formD) (auto simp: sum_forms_def matches_add_self_item_def)

lemma short_body_is_no_aggregation: "match_hot_jsonl_aggregation_body r [] = None" "match_hot_jsonl_aggregation_body r [s] = None"
  by (simp_all add: match_hot_jsonl_aggregation_body_def match_nested_totals_hot_jsonl_aggregation_body_def
      match_init_then_add_hot_jsonl_aggregation_body_def match_required_prefixed_hot_jsonl_aggregation_body_def
      match_direct_hot_jsonl_aggregation_body_def match_prefixed_hot_jsonl_aggregation_body_def
      match_prefixed_count_hot_jsonl_aggregation_body_def split_optional_row_count_body5_def dest_two_def or_else_def)

lemma sum_form_lowered:
  assumes "s \<in> sum_forms x target" and "generic_iter iter = Some it"
  shows "try_lower_generic_loop [target] iter [s]
    = Some \<lparr> gp_target = target, gp_iter = it, gp_ops = [GAddAssign x target] \<rparr>"
proof -
  have "lower_generic_loop_stmt target s = Some (GAddAssign x target)" using assms(1) lowered_sum_forms by blast
  then have op: "lower_generic_op target [s] = Some (GAddAssign x target)"
    by (simp add: lower_generic_op_def lower_generic_record_field_count_def dest_two_def dest_one_def or_else_def)
  have rows: "match_generic_jsonl_aggregation_body target [s] = None"
    using assms(1) by (auto simp: sum_forms_def match_generic_jsonl_aggregation_body_def short_body_is_no_aggregation or_else_def dest_defs)
  have lines: "lower_json_loads_line_prefix target [s] = None"
    using assms(1) by (auto simp: sum_forms_def lower_json_loads_line_prefix_def matches_blank_line_continue_def Let_def dest_defs)
  show ?thesis
    by (simp add: try_lower_generic_loop_def assms(2) rows lines op or_else_def)
qed

text \<open>C3: a loop over an iterator that the lowering knows is lowered to the sum operation for a name exactly if its
  body is one of \<open>x += item\<close>, \<open>x = x + item\<close> and \<open>x = item + x\<close>. Running the operation on the machine gives exactly the
  values the evaluator gives to all names. An overflow is an error in both, in the machine with context \<open>hot loop\<close>; if
  the machine misses, it leaves everything to the evaluator. The accumulator must not be the loop target.\<close>

theorem sum_loop_matches_evaluator:
  assumes "x \<noteq> target"
  shows "((\<exists>plan. try_lower_generic_loop [target] iter body = Some plan \<and> gp_ops plan = [GAddAssign x target])
      \<longleftrightarrow> generic_iter iter \<noteq> None \<and> (\<exists>s\<in>sum_forms x target. body = [s]))
    \<and> (\<forall>plan. try_lower_generic_loop [target] iter body = Some plan \<and> gp_ops plan = [GAddAssign x target] \<longrightarrow>
      (case try_eval_for_values_generic_vm rt [target] vs plan st of
        (Inl e, st') \<Rightarrow> e = overflow_error ''hot loop''
          \<and> fst (eval_for_values rt [target] (eval_block rt PEmpty False PEmpty body) vs PEmpty st)
              = Inl (overflow_error ''addition'')
      | (Inr None, st') \<Rightarrow> \<exists>d. st' = with_diagnostics d st
      | (Inr (Some fl), st') \<Rightarrow> \<exists>st''.
          eval_for_values rt [target] (eval_block rt PEmpty False PEmpty body) vs PEmpty st = (Inr fl, st'')
          \<and> same_rest st'' st' \<and> (\<forall>y. get_local y st' = get_local y st'')))"
proof (intro conjI allI impI)
  show "(\<exists>plan. try_lower_generic_loop [target] iter body = Some plan \<and> gp_ops plan = [GAddAssign x target])
      \<longleftrightarrow> generic_iter iter \<noteq> None \<and> (\<exists>s\<in>sum_forms x target. body = [s])" (is "?L \<longleftrightarrow> ?R")
  proof
    assume ?L
    then obtain plan where plan: "try_lower_generic_loop [target] iter body = Some plan" "gp_ops plan = [GAddAssign x target]"
      by blast
    obtain s where "body = [s]" "lower_generic_loop_stmt target s = Some (GAddAssign x target)"
      using lowered_add_assign [OF plan] .
    moreover have "generic_iter iter \<noteq> None" using plan(1) by (auto simp: try_lower_generic_loop_def elim!: bind_eq_SomeE)
    ultimately show ?R using lowered_sum_forms by blast
  next
    assume ?R
    then show ?L using sum_form_lowered by fastforce
  qed
next
  fix plan
  assume "try_lower_generic_loop [target] iter body = Some plan \<and> gp_ops plan = [GAddAssign x target]"
  then show "case try_eval_for_values_generic_vm rt [target] vs plan st of
      (Inl e, st') \<Rightarrow> e = overflow_error ''hot loop''
        \<and> fst (eval_for_values rt [target] (eval_block rt PEmpty False PEmpty body) vs PEmpty st)
            = Inl (overflow_error ''addition'')
    | (Inr None, st') \<Rightarrow> \<exists>d. st' = with_diagnostics d st
    | (Inr (Some fl), st') \<Rightarrow> \<exists>st''.
        eval_for_values rt [target] (eval_block rt PEmpty False PEmpty body) vs PEmpty st = (Inr fl, st'')
        \<and> same_rest st'' st' \<and> (\<forall>y. get_local y st' = get_local y st'')"
    by (intro lowered_sum_loop [where iter = iter, OF _ _ assms]) simp_all
qed

section \<open>List appends\<close>

definition append_stmt :: "string \<Rightarrow> string \<Rightarrow> stmt" where
  "append_stmt l target = SExpr (EMethodCall (EName l) ''append'' [EName target] [])"

definition unique_append_stmt :: "string \<Rightarrow> string \<Rightarrow> stmt" where
  "unique_append_stmt l target =
     SIf (ENot (ECompare (EName target) [CIn] [EName l])) [append_stmt l target] []"

definition append_form :: "bool \<Rightarrow> string \<Rightarrow> string \<Rightarrow> stmt" where
  "append_form unique l target = (if unique then unique_append_stmt l target else append_stmt l target)"










section \<open>Runs\<close>

definition start_state :: eval_state where
  "start_state = \<lparr> es_scopes = [[''y'' \<mapsto> RNu (VInt 0), ''xs'' \<mapsto> RNu (VList [])]], es_functions = Map.empty,
     es_next_callable = 0, es_hot_enabled = True, es_session_names = [], es_diagnostics = empty_diagnostics \<rparr>"

definition three_four :: "rvalue list" where
  "three_four = [RNu (VInt 3), RNu (VInt 4)]"

definition scaled_body :: "string \<Rightarrow> stmt list" where
  "scaled_body x = [SAssign (TName x) (EMul (EName ''x'') (EInt ''2''))]"

definition plan_over_v :: "generic_loop_op \<Rightarrow> generic_loop_plan" where
  "plan_over_v op = \<lparr> gp_target = ''x'', gp_iter = MaterializedList, gp_ops = [op] \<rparr>"

lemma lower_examples:
  "try_lower_generic_loop [''x''] (EName ''v'') (scaled_body ''y'') = Some (plan_over_v (GExprBody (scaled_body ''y'')))"
  "try_lower_generic_loop [''x''] (EName ''v'') (scaled_body ''x'') = Some (plan_over_v (GExprBody (scaled_body ''x'')))"
  "try_lower_generic_loop [''x''] (EName ''v'') [SAugAssign (TName ''y'') AugAdd (EName ''x'')]
    = Some (plan_over_v (GAddAssign ''y'' ''x''))"
  "try_lower_generic_loop [''x''] (EName ''v'') [append_form True ''xs'' ''x'']
    = Some (plan_over_v (GListAppendUnique ''xs'' ''x''))"
  by code_simp+

theorem integer_loop_matches_evaluator_witness:
  "\<forall>rt. case try_eval_for_values_generic_vm rt [''x''] three_four
        (plan_over_v (GExprBody (scaled_body ''y''))) start_state of
      (Inl e, st') \<Rightarrow> (\<exists>d. st' = with_diagnostics d start_state) \<and> fst (eval_for_values rt [''x'']
        (eval_block rt PEmpty False PEmpty (scaled_body ''y'')) three_four PEmpty start_state) = Inl e
    | (Inr None, st') \<Rightarrow> \<exists>d. st' = with_diagnostics d start_state
    | (Inr (Some fl), st') \<Rightarrow> \<exists>st''. same_view rt st'' st' \<and> eval_for_values rt [''x'']
        (eval_block rt PEmpty False PEmpty (scaled_body ''y'')) three_four PEmpty start_state = (Inr fl, st'')"
  by (intro allI integer_loop_matches_evaluator [OF lower_examples(1)])
     (simp_all add: plan_over_v_def assigns_name_def assigned_name_def scaled_body_def)

theorem executed_loop_binds_last_item_witness:
  "\<forall>rt. get_local ''x'' (snd (run_generic_loop rt [''x''] (plan_over_v (GAddAssign ''y'' ''x''))
     (InValues three_four) start_state)) = Some (RNu (VInt 4))"
proof
  fix rt
  obtain r st' where run: "run_generic_loop rt [''x''] (plan_over_v (GAddAssign ''y'' ''x''))
      (InValues three_four) start_state = (r, st')" by fastforce
  have "fst (run_generic_loop rt [''x''] (plan_over_v (GAddAssign ''y'' ''x'')) (InValues three_four) start_state)
      = Inr (Some (FOutput PEmpty))" by code_simp
  with run have "run_generic_loop rt [''x''] (plan_over_v (GAddAssign ''y'' ''x''))
      (InValues three_four) start_state = (Inr (Some (FOutput PEmpty)), st')" by simp
  from executed_loop_binds_last_item [OF this] run
  show "get_local ''x'' (snd (run_generic_loop rt [''x''] (plan_over_v (GAddAssign ''y'' ''x''))
     (InValues three_four) start_state)) = Some (RNu (VInt 4))"
    by (simp add: input_items_def three_four_def)
qed

theorem sum_loop_matches_evaluator_witness:
  "\<forall>rt. (case try_eval_for_values_generic_vm rt [''x''] three_four
        (plan_over_v (GAddAssign ''y'' ''x'')) start_state of
      (Inl e, st') \<Rightarrow> e = overflow_error ''hot loop''
        \<and> fst (eval_for_values rt [''x''] (eval_block rt PEmpty False PEmpty
            [SAugAssign (TName ''y'') AugAdd (EName ''x'')]) three_four PEmpty start_state)
            = Inl (overflow_error ''addition'')
    | (Inr None, st') \<Rightarrow> \<exists>d. st' = with_diagnostics d start_state
    | (Inr (Some fl), st') \<Rightarrow> \<exists>st''. eval_for_values rt [''x''] (eval_block rt PEmpty False PEmpty
            [SAugAssign (TName ''y'') AugAdd (EName ''x'')]) three_four PEmpty start_state = (Inr fl, st'')
        \<and> same_rest st'' st' \<and> (\<forall>y. get_local y st' = get_local y st''))" (is "\<forall>rt. ?P rt")
proof
  fix rt
  have "try_lower_generic_loop [''x''] (EName ''v'') [SAugAssign (TName ''y'') AugAdd (EName ''x'')]
      = Some (plan_over_v (GAddAssign ''y'' ''x'')) \<and> gp_ops (plan_over_v (GAddAssign ''y'' ''x'')) = [GAddAssign ''y'' ''x'']"
    using lower_examples(3) by (simp add: plan_over_v_def)
  note plan = this
  have ne: "''y'' \<noteq> ''x''" by code_simp
  show "?P rt" by (rule conjunct2 [OF sum_loop_matches_evaluator [OF ne], rule_format, OF plan])
qed


text \<open>a loop body that assigns the loop target is lowered too, and then the machine and the
  evaluator disagree: after \<open>for x in [3, 4]: x = x * 2\<close> the evaluator leaves 8 in \<open>x\<close>, the
  machine leaves the last item 4. The restriction of \<open>integer_loop_matches_evaluator\<close> is needed.\<close>

theorem assigned_loop_target_diverges:
  "try_lower_generic_loop [''x''] (EName ''v'') (scaled_body ''x'') = Some (plan_over_v (GExprBody (scaled_body ''x'')))
   \<and> get_local ''x'' (snd (try_eval_for_values_generic_vm rt [''x''] three_four
        (plan_over_v (GExprBody (scaled_body ''x''))) start_state)) = Some (RNu (VInt 4))
   \<and> get_local ''x'' (snd (eval_for_values rt [''x''] (eval_block rt PEmpty False PEmpty (scaled_body ''x''))
        three_four PEmpty start_state)) = Some (RNu (VInt 8))"
proof (intro conjI)
  show "get_local ''x'' (snd (try_eval_for_values_generic_vm rt [''x''] three_four
      (plan_over_v (GExprBody (scaled_body ''x''))) start_state)) = Some (RNu (VInt 4))"
    by code_simp
  show "get_local ''x'' (snd (eval_for_values rt [''x''] (eval_block rt PEmpty False PEmpty (scaled_body ''x''))
      three_four PEmpty start_state)) = Some (RNu (VInt 8))"
    by code_simp
qed (rule lower_examples(2))

definition nested_state :: eval_state where
  "nested_state = push_scope start_state"

text \<open>an append in a loop that runs in an inner scope is written to different scopes: the evaluator
  changes the list where it is bound, the machine binds a new list in the innermost scope, so the
  outer list is unchanged once the scope is gone.\<close>

theorem append_loop_scope_diverges:
  "get_local ''xs'' (case pop_scope (snd (try_eval_for_values_generic_vm rt [''x''] three_four
        (plan_over_v (GListAppend ''xs'' ''x'')) nested_state)) of Inr st \<Rightarrow> st)
      = Some (RNu (VList []))
   \<and> get_local ''xs'' (case pop_scope (snd (eval_for_values rt [''x''] (eval_block rt PEmpty False PEmpty
        [append_form False ''xs'' ''x'']) three_four PEmpty nested_state)) of Inr st \<Rightarrow> st)
      = Some (RNu (VList [VInt 3, VInt 4]))"
proof
  show "get_local ''xs'' (case pop_scope (snd (try_eval_for_values_generic_vm rt [''x''] three_four
        (plan_over_v (GListAppend ''xs'' ''x'')) nested_state)) of Inr st \<Rightarrow> st)
      = Some (RNu (VList []))" by code_simp
  show "get_local ''xs'' (case pop_scope (snd (eval_for_values rt [''x''] (eval_block rt PEmpty False PEmpty
        [append_form False ''xs'' ''x'']) three_four PEmpty nested_state)) of Inr st \<Rightarrow> st)
      = Some (RNu (VList [VInt 3, VInt 4]))" by code_simp
qed

definition count_stmt :: stmt where
  "count_stmt = SIf (ECompare (EName ''x'') [CIn] [EName ''d''])
     [SAugAssign (TSubscript (TName ''d'') (EName ''x'')) AugAdd (EInt ''1'')]
     [SAssign (TSubscript (TName ''d'') (EName ''x'')) (EInt ''1'')]"

definition float_count_state :: eval_state where
  "float_count_state = set_local ''d'' (RNu (VRecord [(''a'', VFloat (F_Fin False 6755399441055744 (- 52)))])) start_state"

text \<open>a counter that holds a float is truncated by the machine. For \<open>d = {"a": 1.5}\<close> and the
  items \<open>["a"]\<close> the machine leaves 2, the statement of the body leaves 2.5.\<close>

theorem float_counter_diverges:
  "try_lower_generic_loop [''x''] (EName ''v'') [count_stmt] = Some (plan_over_v (GMapAddI64Const ''d'' ''x'' 1))
   \<and> get_local ''d'' (snd (try_eval_for_values_generic_vm rt [''x''] [RNu (VString ''a'')]
        (plan_over_v (GMapAddI64Const ''d'' ''x'' 1)) float_count_state))
      = Some (RNu (VRecord (i64_record_from_native_map rt [] [(''a'', 2)])))
   \<and> get_local ''d'' (snd (eval_for_values rt [''x''] (eval_block rt PEmpty False PEmpty [count_stmt])
        [RNu (VString ''a'')] PEmpty float_count_state))
      = Some (RNu (VRecord [(''a'', VFloat (F_Fin False 5629499534213120 (- 51)))]))"
proof (intro conjI)
  show "try_lower_generic_loop [''x''] (EName ''v'') [count_stmt] = Some (plan_over_v (GMapAddI64Const ''d'' ''x'' 1))"
    by code_simp
  show "get_local ''d'' (snd (try_eval_for_values_generic_vm rt [''x''] [RNu (VString ''a'')]
        (plan_over_v (GMapAddI64Const ''d'' ''x'' 1)) float_count_state))
      = Some (RNu (VRecord (i64_record_from_native_map rt [] [(''a'', 2)])))"
    by code_simp
  show "get_local ''d'' (snd (eval_for_values rt [''x''] (eval_block rt PEmpty False PEmpty [count_stmt])
        [RNu (VString ''a'')] PEmpty float_count_state))
      = Some (RNu (VRecord [(''a'', VFloat (F_Fin False 5629499534213120 (- 51)))]))"
    by code_simp
qed

text \<open>the recogniser of appends does not look at keyword arguments: a call that the evaluator
  rejects in every state is lowered to the list append.\<close>

theorem keyword_append_diverges:
  assumes "named \<noteq> []"
  shows "lower_generic_loop_stmt target (SExpr (EMethodCall (EName l) ''append'' [EName target] named))
      = Some (GListAppend l target)
    \<and> eval_stmt rt inp rs (SExpr (EMethodCall (EName l) ''append'' [EName target] named)) st
      = (Inl (keyword_error ''append''), st)"
  using assms
  by (simp add: lower_generic_list_append_def eval_expr_stmt_def eval_expr.simps to_nu_def ev_then_def)

theorem keyword_append_diverges_witness:
  "\<forall>rt. lower_generic_loop_stmt ''x'' (SExpr (EMethodCall (EName ''xs'') ''append'' [EName ''x''] [(''k'', EInt ''1'')]))
      = Some (GListAppend ''xs'' ''x'')
    \<and> eval_stmt rt PEmpty False (SExpr (EMethodCall (EName ''xs'') ''append'' [EName ''x''] [(''k'', EInt ''1'')])) start_state
      = (Inl (keyword_error ''append''), start_state)"
  by (intro allI keyword_append_diverges) simp

section \<open>Kernels\<close>

definition kernel_of_op :: "generic_loop_op \<Rightarrow> fused_kernel option" where
  "kernel_of_op op = (case op of
     GMapAddI64Const _ _ _ \<Rightarrow> Some KMapAddI64Const
   | GMapAddRecordStringField _ _ _ _ _ _ \<Rightarrow> Some KMapAddI64Const
   | GListAppend _ _ \<Rightarrow> Some KListAppend
   | GListAppendUnique _ _ \<Rightarrow> Some KListAppend
   | _ \<Rightarrow> None)"

text \<open>the optimizer selects the counter kernel for the counter operations, the append kernel for the
  appends and none for sums and integer bodies; the optimised function keeps its single entry block
  in step with its operations, and its locals and snapshots.\<close>

theorem optimizer_selects_kernel:
  assumes "compile_generic_vm_function plan = Some f" and "gp_ops plan = [op]"
  shows "lo_kernel (optimize_loop_ir f) = kernel_of_op op
    \<and> lf_blocks (lo_function (optimize_loop_ir f))
        = [\<lparr> lb_ops = lf_ops (lo_function (optimize_loop_ir f)), lb_terminator = LoopReturn \<rparr>]
    \<and> lf_locals (lo_function (optimize_loop_ir f)) = lf_locals f
    \<and> lf_snapshots (lo_function (optimize_loop_ir f)) = lf_snapshots f"
  using assms
  by (cases op)
     (auto simp: compile_generic_vm_function_def compile_loop_op_def optimize_loop_ir_def canonicalize_loop_ir_def
        canonicalize_loop_ir_ops_def match_loop_ir_subgraph_def kernel_of_op_def kernel_of_subgraph_def
        replace_ops_def Let_def guard_def generic_vm_local_def intern_def elim!: bind_eq_SomeE split: if_splits)

theorem optimizer_selects_kernel_witness:
  "case compile_generic_vm_function (plan_over_v (GMapAddRecordStringField ''d'' ''x'' ''user'' False False 1)) of
     Some f \<Rightarrow> lo_kernel (optimize_loop_ir f) = Some KMapAddI64Const
       \<and> lf_blocks (lo_function (optimize_loop_ir f))
           = [\<lparr> lb_ops = lf_ops (lo_function (optimize_loop_ir f)), lb_terminator = LoopReturn \<rparr>]
   | None \<Rightarrow> False"
proof -
  obtain f where f: "compile_generic_vm_function
      (plan_over_v (GMapAddRecordStringField ''d'' ''x'' ''user'' False False 1)) = Some f"
    by (simp add: compile_generic_vm_function_def plan_over_v_def compile_loop_op_def generic_vm_local_def
        intern_def guard_def)
  from optimizer_selects_kernel [OF f] f show ?thesis
    by (simp add: plan_over_v_def kernel_of_op_def)
qed

end
