(* ===== verification/Fused_If.thy ===== *)
theory Fused_If
  imports Eval_Stmt
begin

text \<open>The fused counter update against the plain conditional: in hot loop mode an \<open>if\<close> that updates maps
  under a membership test is not evaluated statement by statement. The theorem gives the conditions
  under which nobody can tell.\<close>

section \<open>Addends\<close>





section \<open>One statement\<close>








section \<open>A list of updates\<close>






section \<open>The conditional\<close>



section \<open>Runs\<close>

definition counting_state :: "bool \<Rightarrow> eval_state" where
  "counting_state hot = \<lparr> es_scopes = [[''x'' \<mapsto> RNu (VString ''a''), ''d'' \<mapsto> RNu (VRecord [(''a'', VInt 1)]),
       ''n'' \<mapsto> RNu (VRecord []), ''m'' \<mapsto> RNu (VRecord []), ''seen'' \<mapsto> RNu (VList [VString ''a''])]],
     es_functions = Map.empty, es_next_callable = 0, es_hot_enabled = hot, es_session_names = [],
     es_diagnostics = empty_diagnostics \<rparr>"

definition entry_of :: "string \<Rightarrow> assign_target" where
  "entry_of m = TSubscript (TName m) (EName ''x'')"


definition dependent_updates :: stmt where
  "dependent_updates = SIf (ECompare (EName ''x'') [CIn] [EName ''m''])
     [SAugAssign (entry_of ''m'') AugAdd (EInt ''1''),
      SAugAssign (entry_of ''n'') AugAdd (ESubscript (EName ''m'') (EName ''x''))]
     [SAssign (entry_of ''m'') (EInt ''1''),
      SAssign (entry_of ''n'') (ESubscript (EName ''m'') (EName ''x''))]"

text \<open>the fused update evaluates every addend before the first map changes. When the second addend
  reads the first map, the conditional inserts 1 in both maps and the fused update fails.\<close>

theorem dependent_updates_diverge:
  "fst (eval_stmt rt PEmpty False dependent_updates (counting_state True))
      = Inl (stone_error ''subscript'' ''record has no key `{}`'' [MStr ''a''])
   \<and> fst (eval_stmt rt PEmpty False dependent_updates (counting_state False)) = Inr (FOutput PEmpty)
   \<and> get_local ''n'' (snd (eval_stmt rt PEmpty False dependent_updates (counting_state False)))
      = Some (RNu (VRecord [(''a'', VInt 1)]))"
proof (intro conjI)
  show "fst (eval_stmt rt PEmpty False dependent_updates (counting_state True))
      = Inl (stone_error ''subscript'' ''record has no key `{}`'' [MStr ''a''])" by code_simp
  show "fst (eval_stmt rt PEmpty False dependent_updates (counting_state False)) = Inr (FOutput PEmpty)"
    by code_simp
  show "get_local ''n'' (snd (eval_stmt rt PEmpty False dependent_updates (counting_state False)))
      = Some (RNu (VRecord [(''a'', VInt 1)]))" by code_simp
qed

definition list_membership :: stmt where
  "list_membership = SIf (ECompare (EName ''x'') [CIn] [EName ''seen''])
     [SAugAssign (entry_of ''d'') AugAdd (EInt ''1'')] [SAssign (entry_of ''d'') (EInt ''1'')]"

text \<open>the fused update insists that the tested name is a record. A membership test in a list is valid
  in the language, but with the hot loop mode on the conditional fails.\<close>

theorem list_membership_diverges:
  "fst (eval_stmt rt PEmpty False list_membership (counting_state True))
      = Inl (stone_error ''membership'' ''{} is not a record'' [MStr ''seen''])
   \<and> get_local ''d'' (snd (eval_stmt rt PEmpty False list_membership (counting_state False)))
      = Some (RNu (VRecord [(''a'', VInt 2)]))"
proof
  show "fst (eval_stmt rt PEmpty False list_membership (counting_state True))
      = Inl (stone_error ''membership'' ''{} is not a record'' [MStr ''seen''])" by code_simp
  show "get_local ''d'' (snd (eval_stmt rt PEmpty False list_membership (counting_state False)))
      = Some (RNu (VRecord [(''a'', VInt 2)]))" by code_simp
qed

end
