(* ===== verification/Code_Safety.thy ===== *)
theory Code_Safety
  imports Expr_Correct
begin

text \<open>Compiled integer code is safe: the machine never reports one of its internal errors (an unset
  register, a register, constant or local out of range) on code that the compiler produced.\<close>

section \<open>Kinds of errors\<close>

definition error_kind :: "shell_error \<Rightarrow> string" where
  "error_kind e = (case e of StoneError k _ _ \<Rightarrow> k)"

lemma error_kind_stone [simp]: "error_kind (stone_error k m a) = k"
  by (simp add: error_kind_def stone_error_def)

definition arithmetic_kinds :: "string set" where
  "arithmetic_kinds = {''addition'', ''subtraction'', ''multiplication'', ''floor division'', ''modulo'',
     ''left shift'', ''right shift'', ''unary minus''}"

definition arith_fail :: "shell_error \<Rightarrow> bool" where
  "arith_fail e \<longleftrightarrow> error_kind e \<in> arithmetic_kinds"

lemma arith_ops:
  "add_i64 a b = Inl e \<Longrightarrow> arith_fail e" "sub_i64 a b = Inl e \<Longrightarrow> arith_fail e"
  "mul_i64 a b = Inl e \<Longrightarrow> arith_fail e" "floor_div_i64 a b = Inl e \<Longrightarrow> arith_fail e"
  "mod_i64 a b = Inl e \<Longrightarrow> arith_fail e" "neg_i64 a = Inl e \<Longrightarrow> arith_fail e"
  "shift_i64 ''left shift'' op a b = Inl e \<Longrightarrow> arith_fail e"
  "shift_i64 ''right shift'' op a b = Inl e \<Longrightarrow> arith_fail e"
  by (auto simp: add_i64_def sub_i64_def mul_i64_def floor_div_i64_def mod_i64_def neg_i64_def shift_i64_def
      python_floor_div_i64_def python_mod_i64_def arith_fail_def arithmetic_kinds_def ok_or_def and_then_def
      split: option.splits sum.splits if_splits)

lemma frag_expr_error: "frag_expr env e = Inl err \<Longrightarrow> arith_fail err"
proof -
  have unary: "arith_fail err" if "frag_unary f m = Inl err" "m = Inl err \<Longrightarrow> arith_fail err"
      "\<And>a. f a = Inl err \<Longrightarrow> arith_fail err" for f m
    using that by (cases m rule: vm_res_cases) (auto simp: frag_unary_def vm_done_def and_then_def split: sum.splits)
  have binary: "arith_fail err" if "frag_binary f m n = Inl err" "m = Inl err \<Longrightarrow> arith_fail err"
      "n = Inl err \<Longrightarrow> arith_fail err" "\<And>a b. f a b = Inl err \<Longrightarrow> arith_fail err" for f m n
    using that by (cases m rule: vm_res_cases; cases n rule: vm_res_cases)
      (auto simp: frag_binary_def vm_done_def and_then_def split: sum.splits)
  show "frag_expr env e = Inl err \<Longrightarrow> arith_fail err"
    by (induction env e rule: frag_expr.induct)
       (auto simp: vm_need_def split: option.splits dest!: unary binary dest: arith_ops)
qed

lemma frag_stmt_error: "frag_stmt env s = Inl err \<Longrightarrow> arith_fail err"
  by (cases s) (auto simp: frag_stmt_def vm_then_def vm_need_def vm_done_def and_then_def
      split: option.splits sum.splits vm_outcome.splits dest: frag_expr_error arith_ops)

lemma frag_stmts_error: "frag_stmts env body = Inl err \<Longrightarrow> arith_fail err"
proof (induction body arbitrary: env)
  case (Cons s body)
  then show ?case
    by (cases "frag_stmt env s" rule: vm_res_cases) (auto dest: frag_stmt_error)
qed simp

lemma frag_loop_error: "frag_loop target body vs acc = Inl err \<Longrightarrow> arith_fail err"
proof (induction vs arbitrary: acc)
  case (Cons v vs)
  show ?case
  proof (cases "Option.bind (nu_part v) nu_int")
    case (Some i)
    with Cons show ?thesis
      by (cases "frag_stmts ((fst acc)(target \<mapsto> i)) body" rule: vm_res_cases) (auto dest: frag_stmts_error)
  qed (use Cons in simp)
qed simp

text \<open>C15: when code compiled from a loop body fails on the machine, the failure is one of the arithmetic
  of the program (overflow, division by zero, a bad shift count), never an internal one: registers are
  set before they are read and every register, constant and local index is in range.\<close>

theorem compiled_body_never_fails_internally:
  assumes "compile_generic_vm_expr_body target body [] = Some (code, names)"
    and "length locals = length names"
    and "execute_generic_vm_expr_body code locals vs = Inl e"
  shows "error_kind e \<in> arithmetic_kinds"
  using expr_body_loop_correct [OF assms(1,2), of vs None] assms(3)
  by (cases "frag_loop target body vs (slot_env names locals, None)" rule: vm_res_cases)
     (auto simp: delivers_loop_def execute_generic_vm_expr_body_def arith_fail_def dest: frag_loop_error)

theorem compiled_body_never_fails_internally_witness:
  "error_kind (stone_error ''floor division'' ''division by zero'' []) \<in> arithmetic_kinds"
proof -
  let ?code = "\<lparr> eb_registers = 3, eb_constants = [ConstI64 7],
    eb_ops = [LoadConst 0 0, LoadLocal 1 0, FloorDivI64 2 0 1, StoreLocal 1 2] \<rparr>"
  have compiled: "compile_generic_vm_expr_body ''x''
      [SAssign (TName ''y'') (EFloorDiv (EInt ''7'') (EName ''x''))] [] = Some (?code, [''x'', ''y''])"
    by code_simp
  have "execute_generic_vm_expr_body ?code [None, None] [RNu (VInt 0)]
      = Inl (stone_error ''floor division'' ''division by zero'' [])"
    by code_simp
  from compiled_body_never_fails_internally [OF compiled _ this] show ?thesis by simp
qed

end
