(* ===== verification/Jsonl_Correct.thy ===== *)
theory Jsonl_Correct
  imports Jsonl_Lower
begin

text \<open>The JSONL compiler: what the recognisers accept is compiled, the block code is well formed, and the
  trace plan read back from the code is the plan that went in.\<close>

section \<open>Recognised bodies\<close>

definition is_flat_body :: "json_body \<Rightarrow> bool" where
  "is_flat_body p \<longleftrightarrow> (\<exists>un uk ud am ak ad im ik id' ul tk te tm gl rc.
     p = flat_body_plan un uk ud am ak ad im ik id' ul tk te tm gl rc)"

lemma is_flat_bodyI [intro!, simp]:
  "is_flat_body (flat_body_plan un uk ud am ak ad im ik id' ul tk te tm gl rc)"
  unfolding is_flat_body_def by blast

lemma nested_body_shape:
  assumes "match_nested_totals_hot_jsonl_aggregation_body row body = Some p"
  shows "\<exists>nt tcm gl uk ak ik tk. jb_nested p = Some nt \<and> jb_amounts_map p = ''''
    \<and> jb_ops p = hot_jsonl_aggregation_ops uk ak ik tk (nt_map_name nt) (nt_map_name nt) None tcm gl"
  using assms
  by (auto simp: match_nested_totals_hot_jsonl_aggregation_body_def elim!: bind_eq_SomeE split: list.splits)
     blast

lemma flat_recognisers:
  "match_direct_hot_jsonl_aggregation_body row body = Some p \<Longrightarrow> is_flat_body p"
  "match_required_prefixed_hot_jsonl_aggregation_body row body = Some p \<Longrightarrow> is_flat_body p"
  "match_init_then_add_hot_jsonl_aggregation_body row body = Some p \<Longrightarrow> is_flat_body p"
  "match_prefixed_hot_jsonl_aggregation_body row body = Some p \<Longrightarrow> is_flat_body p"
  "match_prefixed_count_hot_jsonl_aggregation_body row body = Some p \<Longrightarrow> is_flat_body p"
  by (auto simp: match_direct_hot_jsonl_aggregation_body_def
      match_required_prefixed_hot_jsonl_aggregation_body_def
      match_init_then_add_hot_jsonl_aggregation_body_def match_prefixed_hot_jsonl_aggregation_body_def
      match_prefixed_count_hot_jsonl_aggregation_body_def elim!: bind_eq_SomeE split: list.splits)

lemma flat_body_not_nested: "is_flat_body p \<Longrightarrow> jb_nested p = None"
  by (auto simp: is_flat_body_def flat_body_plan_def)

lemma recognised_body_cases:
  assumes "match_hot_jsonl_aggregation_body row body = Some p"
  shows "is_flat_body p \<or> match_nested_totals_hot_jsonl_aggregation_body row body = Some p"
  using assms by (auto simp: match_hot_jsonl_aggregation_body_def or_else_eq_Some dest: flat_recognisers)

section \<open>The round trip through the block code\<close>

definition trace_of_body :: "json_body \<Rightarrow> trace_plan" where
  "trace_of_body p = \<lparr>
     tp_user_name = jb_user_name p, tp_user_key = jb_user_key p,
     tp_user_has_default = jb_user_has_default p, tp_user_default = jb_user_default p,
     tp_amounts_map = jb_amounts_map p, tp_amount_key = jb_amount_key p,
     tp_amount_has_default = jb_amount_has_default p, tp_amount_default = jb_amount_default p,
     tp_items_map = jb_items_map p, tp_items_key = jb_items_key p,
     tp_items_has_default = jb_items_has_default p, tp_items_default = jb_items_default p,
     tp_users_list = jb_users_list p, tp_tags_key = jb_tags_key p,
     tp_tags_default_empty = jb_tags_default_empty p, tp_tag_counts_map = jb_tag_counts_map p,
     tp_tags_list = jb_tags_list p \<rparr>"

lemma match_body_ops_hot:
  "match_body_ops (hot_jsonl_aggregation_ops uk ak ik tk am im ul tm gl) = Some \<lparr> bs_user_key = uk,
     bs_amount_key = ak, bs_items_key = ik, bs_tags_key = tk, bs_amounts_map = am, bs_users_list = ul,
     bs_items_map = im, bs_tag_counts_map = tm, bs_tags_list = gl \<rparr>"
  by (simp add: match_body_ops_def hot_jsonl_aggregation_ops_def match_get_fields_def match_map_add_f64_def
      match_map_add_i64_def match_for_each_def match_tag_const_def)

lemma ops_read_back [simp]:
  "match_user_op (if b then JsonGetStrDefault 1 0 0 1 else JsonGetValue 1 0 0) = Some (1, b)"
  "match_amount_op (if b then JsonGetF64Default 2 0 2 d else JsonGetF64Required 2 0 2)
    = Some (b, if b then d else f64_zero)"
  "match_items_op (if b then JsonGetI64Default 3 0 3 i else JsonGetI64Required 3 0 3) = Some (b, if b then i else 0)"
  "match_tags_op (if b then JsonGetArrayDefault 4 0 4 else JsonGetArrayRequired 4 0 4) = Some b"
  "match_amounts_add 1 (MapAddF64 0 1 2 (map_option (\<lambda>_. 2) u)) = Some (map_option (\<lambda>_. 2) u)"
  "match_items_add 1 (MapAddI64 1 1 3 None) = Some ()"
  "match_tag_add [MapAddI64Const 3 5 1 (map_option (\<lambda>_. 4) u)] = Some (map_option (\<lambda>_. 4) u)"
  by (cases u; simp add: match_user_op_def match_amount_op_def match_items_op_def match_tags_op_def
      match_amounts_add_def match_items_add_def match_tag_add_def guard_def)+

lemma compiled_jsonl_subgraph:
  assumes "compile_hot_jsonl_vm_function p = Some f" and "match_body_ops (jb_ops p) = Some s"
  shows "match_hot_jsonl_aggregation_ir_subgraph f = Some \<lparr>
     js_user_has_default = jb_user_has_default p, js_amount_has_default = jb_amount_has_default p,
     js_amount_default = (if jb_amount_has_default p then jb_amount_default p else f64_zero),
     js_items_has_default = jb_items_has_default p,
     js_items_default = (if jb_items_has_default p then jb_items_default p else 0),
     js_tags_default_empty = jb_tags_default_empty p,
     js_users_append = map_option (\<lambda>_. 2) (bs_users_list s),
     js_tags_append = map_option (\<lambda>_. 4) (bs_tags_list s) \<rparr>"
proof -
  have f: "sf_blocks f = [
         \<lparr> sb_ops = row_block_ops s p, sb_terminator = JsonEachStrArray 4 5 1 2 \<rparr>,
         \<lparr> sb_ops = [MapAddI64Const 3 5 1 (map_option (\<lambda>_. 4) (bs_tags_list s))], sb_terminator = Jump 0 \<rparr>,
         \<lparr> sb_ops = [], sb_terminator = Return \<rparr>]"
    using assms by (auto simp: compile_hot_jsonl_vm_function_def elim!: bind_eq_SomeE)
  have append: "map_option (\<lambda>_. 4) (bs_tags_list s) \<in> {None, Some (4 :: nat)}"
    by (cases "bs_tags_list s") auto
  show ?thesis
    unfolding match_hot_jsonl_aggregation_ir_subgraph_def f row_block_ops_def
    using append by (simp only: list.case stone_block.simps ops_read_back option.case Option.bind.simps guard_def
        prod.case if_True simp_thms)
qed

lemma compiled_jsonl_kernel:
  assumes "compile_hot_jsonl_vm_function p = Some f"
  shows "select_hot_jsonl_fused_kernel_from_ir f = Some KJsonlAggregation"
proof -
  obtain s where "match_body_ops (jb_ops p) = Some s"
    using assms by (auto simp: compile_hot_jsonl_vm_function_def elim!: bind_eq_SomeE)
  from compiled_jsonl_subgraph [OF assms this] show ?thesis
    by (simp add: select_hot_jsonl_fused_kernel_from_ir_def optimize_stone_loop_ir_def
        match_hot_jsonl_ir_subgraph_def)
qed

lemma compiled_jsonl_trace:
  assumes "compile_hot_jsonl_vm_function p = Some f"
    and "jb_amount_has_default p \<or> jb_amount_default p = f64_zero"
    and "jb_items_has_default p \<or> jb_items_default p = 0"
  shows "compile_hot_jsonl_trace_plan_from_ir f = Some (trace_of_body p)"
proof -
  obtain s where s: "match_body_ops (jb_ops p) = Some s" "shape_agrees s p"
    and constants: "sf_constants f = [KString (bs_user_key s), KString (jb_user_default p),
      KString (bs_amount_key s), KString (bs_items_key s), KString (bs_tags_key s), KEmptyList]"
    and locals: "sf_locals f = [jb_user_name p]" and accs: "sf_accumulators f = acc_specs s"
    using assms(1) by (auto simp: compile_hot_jsonl_vm_function_def elim!: bind_eq_SomeE)
  have lists: "map_option (\<lambda>_. opt_name x) (map_option (\<lambda>_. i) x) = x" for x and i :: nat
    by (cases x) (simp_all add: opt_name_def)
  show ?thesis
    using s(2) assms(2,3) lists
    by (auto simp: compile_hot_jsonl_trace_plan_from_ir_def compiled_jsonl_subgraph [OF assms(1) s(1)] constants
        locals accs match_constants_def match_accumulators_def acc_specs_def trace_of_body_def shape_agrees_def)
qed

lemma flat_body_compiles: "is_flat_body p \<Longrightarrow> \<exists>f. compile_hot_jsonl_vm_function p = Some f"
  by (auto simp: is_flat_body_def compile_hot_jsonl_vm_function_def flat_body_plan_def match_body_ops_hot
      shape_agrees_def guard_def)

text \<open>C16: every aggregation body that is recognised and has no nested totals compiles to block code, the
  optimizer recognises the code as a JSONL aggregation, and the trace plan read back from the code has
  exactly the names, keys, defaults, maps and lists of the recognised body.\<close>

theorem recognised_body_round_trip:
  assumes "match_hot_jsonl_aggregation_body row body = Some p" and "jb_nested p = None"
  shows "\<exists>f. compile_hot_jsonl_vm_function p = Some f
    \<and> select_hot_jsonl_fused_kernel_from_ir f = Some KJsonlAggregation
    \<and> compile_hot_jsonl_trace_plan p = Some (trace_of_body p)"
proof -
  from recognised_body_cases [OF assms(1)] have flat: "is_flat_body p"
    using nested_body_shape assms(2) by (metis option.distinct(1))
  from flat_body_compiles [OF flat] obtain f where f: "compile_hot_jsonl_vm_function p = Some f" ..
  have "jb_amount_has_default p \<or> jb_amount_default p = f64_zero"
    "jb_items_has_default p \<or> jb_items_default p = 0"
    using flat by (auto simp: is_flat_body_def flat_body_plan_def split: option.splits)
  from compiled_jsonl_trace [OF f this] f compiled_jsonl_kernel [OF f] show ?thesis
    by (simp add: compile_hot_jsonl_trace_plan_def)
qed

text \<open>a recognised body with nested totals never compiles to block code, so it can only run natively:
  its operations name the totals map where the record leaves the flat maps empty.\<close>

theorem nested_body_never_compiles:
  assumes "match_hot_jsonl_aggregation_body row body = Some p"
    and "jb_nested p = Some nt" and "nt_map_name nt \<noteq> ''''"
  shows "compile_hot_jsonl_vm_function p = None \<and> compile_hot_jsonl_trace_plan p = None"
proof -
  have "match_nested_totals_hot_jsonl_aggregation_body row body = Some p"
    using recognised_body_cases [OF assms(1)] flat_body_not_nested assms(2) by fastforce
  from nested_body_shape [OF this] assms(2,3) show ?thesis
    by (auto simp: compile_hot_jsonl_trace_plan_def compile_hot_jsonl_vm_function_def match_body_ops_hot
        shape_agrees_def guard_def)
qed

section \<open>Well-formed block code\<close>

definition const_is_string :: "stone_function \<Rightarrow> const_id \<Rightarrow> bool" where
  "const_is_string f c = (case vec_get (sf_constants f) c of Some (KString _) \<Rightarrow> True | _ \<Rightarrow> False)"

definition acc_has_kind :: "stone_function \<Rightarrow> acc_id \<Rightarrow> acc_kind \<Rightarrow> bool" where
  "acc_has_kind f a k = (case vec_get (sf_accumulators f) a of Some s \<Rightarrow> as_kind s = k | None \<Rightarrow> False)"

definition append_ok :: "stone_function \<Rightarrow> acc_id option \<Rightarrow> bool" where
  "append_ok f app = (case app of None \<Rightarrow> True | Some a \<Rightarrow> acc_has_kind f a StringList)"

definition wf_stone_op :: "stone_function \<Rightarrow> stone_op \<Rightarrow> bool" where
  "wf_stone_op f op = (let reg = (\<lambda>r. r < sf_registers f); key = const_is_string f in case op of
     JsonGetStrDefault dst object k d \<Rightarrow> reg dst \<and> reg object \<and> key k \<and> key d
   | JsonGetValue dst object k \<Rightarrow> reg dst \<and> reg object \<and> key k
   | JsonGetF64Default dst object k _ \<Rightarrow> reg dst \<and> reg object \<and> key k
   | JsonGetF64Required dst object k \<Rightarrow> reg dst \<and> reg object \<and> key k
   | JsonGetI64Default dst object k _ \<Rightarrow> reg dst \<and> reg object \<and> key k
   | JsonGetI64Required dst object k \<Rightarrow> reg dst \<and> reg object \<and> key k
   | JsonGetArrayDefault dst object k \<Rightarrow> reg dst \<and> reg object \<and> key k
   | JsonGetArrayRequired dst object k \<Rightarrow> reg dst \<and> reg object \<and> key k
   | MapAddF64 m k v app \<Rightarrow> acc_has_kind f m F64Map \<and> reg k \<and> reg v \<and> append_ok f app
   | MapAddI64 m k v app \<Rightarrow> acc_has_kind f m I64Map \<and> reg k \<and> reg v \<and> append_ok f app
   | MapAddI64Const m k _ app \<Rightarrow> acc_has_kind f m I64Map \<and> reg k \<and> append_ok f app)"

definition wf_stone_block :: "stone_function \<Rightarrow> stone_block \<Rightarrow> bool" where
  "wf_stone_block f b \<longleftrightarrow> list_all (wf_stone_op f) (sb_ops b) \<and>
     (let block = (\<lambda>t. t < length (sf_blocks f)) in case sb_terminator b of
        JsonEachStrArray a i body exit \<Rightarrow> a < sf_registers f \<and> i < sf_registers f \<and> block body \<and> block exit
      | Jump t \<Rightarrow> block t
      | Return \<Rightarrow> True)"

definition wf_stone_guard :: "stone_function \<Rightarrow> stone_guard \<Rightarrow> bool" where
  "wf_stone_guard f g \<longleftrightarrow> sg_snapshot g < length (sf_snapshots f) \<and> (case sg_kind g of
     InputIsJsonObject r \<Rightarrow> r < sf_registers f
   | AccumulatorShape a k \<Rightarrow> acc_has_kind f a k)"

definition wf_stone_snapshot :: "stone_function \<Rightarrow> stone_snapshot \<Rightarrow> bool" where
  "wf_stone_snapshot f s \<longleftrightarrow>
     list_all (\<lambda>(l, r). l < length (sf_locals f) \<and> r < sf_registers f) (ss_locals s) \<and>
     list_all (\<lambda>(name, a). map_option as_name (vec_get (sf_accumulators f) a) = Some name) (ss_accumulators s)"

definition wf_stone_function :: "stone_function \<Rightarrow> bool" where
  "wf_stone_function f \<longleftrightarrow> sf_entry f < length (sf_blocks f) \<and> list_all (wf_stone_block f) (sf_blocks f)
     \<and> list_all (wf_stone_guard f) (sf_guards f) \<and> list_all (wf_stone_snapshot f) (sf_snapshots f)"

lemma compiled_jsonl_fields:
  assumes "compile_hot_jsonl_vm_function p = Some f"
  obtains s where "sf_registers f = 6" and "sf_entry f = 0" and "sf_locals f = [jb_user_name p]"
    and "sf_constants f = [KString (bs_user_key s), KString (jb_user_default p), KString (bs_amount_key s),
      KString (bs_items_key s), KString (bs_tags_key s), KEmptyList]"
    and "sf_accumulators f = acc_specs s"
    and "sf_guards f = [\<lparr> sg_kind = InputIsJsonObject 0, sg_snapshot = 0 \<rparr>,
      \<lparr> sg_kind = AccumulatorShape 0 F64Map, sg_snapshot = 0 \<rparr>,
      \<lparr> sg_kind = AccumulatorShape 1 I64Map, sg_snapshot = 0 \<rparr>,
      \<lparr> sg_kind = AccumulatorShape 2 StringList, sg_snapshot = 0 \<rparr>,
      \<lparr> sg_kind = AccumulatorShape 3 I64Map, sg_snapshot = 0 \<rparr>,
      \<lparr> sg_kind = AccumulatorShape 4 StringList, sg_snapshot = 0 \<rparr>]"
    and "sf_snapshots f = [\<lparr> ss_locals = [(0, 1)],
      ss_accumulators = [(bs_amounts_map s, 0), (bs_items_map s, 1), (opt_name (bs_users_list s), 2),
        (bs_tag_counts_map s, 3), (opt_name (bs_tags_list s), 4)] \<rparr>]"
    and "sf_blocks f = [\<lparr> sb_ops = row_block_ops s p, sb_terminator = JsonEachStrArray 4 5 1 2 \<rparr>,
      \<lparr> sb_ops = [MapAddI64Const 3 5 1 (map_option (\<lambda>_. 4) (bs_tags_list s))], sb_terminator = Jump 0 \<rparr>,
      \<lparr> sb_ops = [], sb_terminator = Return \<rparr>]"
  using assms by (auto simp: compile_hot_jsonl_vm_function_def elim!: bind_eq_SomeE)

text \<open>C17: compiled block code is well formed: every register, constant, accumulator, block and snapshot it
  names exists and has the kind its use needs, every accumulator has a guard of its own shape, and
  the snapshot maps every accumulator to its name.\<close>

theorem compiled_jsonl_well_formed:
  assumes "compile_hot_jsonl_vm_function p = Some f"
  shows "wf_stone_function f
    \<and> (\<forall>a < length (sf_accumulators f).
        AccumulatorShape a (as_kind (sf_accumulators f ! a)) \<in> sg_kind ` set (sf_guards f)
        \<and> (as_name (sf_accumulators f ! a), a) \<in> (\<Union>s\<in>set (sf_snapshots f). set (ss_accumulators s)))"
proof -
  obtain s where sizes: "sf_registers f = 6" "sf_entry f = 0" "sf_locals f = [jb_user_name p]"
    and constants: "sf_constants f = [KString (bs_user_key s), KString (jb_user_default p),
      KString (bs_amount_key s), KString (bs_items_key s), KString (bs_tags_key s), KEmptyList]"
    and accs: "sf_accumulators f = acc_specs s"
    and rest: "sf_guards f = [\<lparr> sg_kind = InputIsJsonObject 0, sg_snapshot = 0 \<rparr>,
      \<lparr> sg_kind = AccumulatorShape 0 F64Map, sg_snapshot = 0 \<rparr>,
      \<lparr> sg_kind = AccumulatorShape 1 I64Map, sg_snapshot = 0 \<rparr>,
      \<lparr> sg_kind = AccumulatorShape 2 StringList, sg_snapshot = 0 \<rparr>,
      \<lparr> sg_kind = AccumulatorShape 3 I64Map, sg_snapshot = 0 \<rparr>,
      \<lparr> sg_kind = AccumulatorShape 4 StringList, sg_snapshot = 0 \<rparr>]"
      "sf_snapshots f = [\<lparr> ss_locals = [(0, 1)],
      ss_accumulators = [(bs_amounts_map s, 0), (bs_items_map s, 1), (opt_name (bs_users_list s), 2),
        (bs_tag_counts_map s, 3), (opt_name (bs_tags_list s), 4)] \<rparr>]"
      "sf_blocks f = [\<lparr> sb_ops = row_block_ops s p, sb_terminator = JsonEachStrArray 4 5 1 2 \<rparr>,
      \<lparr> sb_ops = [MapAddI64Const 3 5 1 (map_option (\<lambda>_. 4) (bs_tags_list s))], sb_terminator = Jump 0 \<rparr>,
      \<lparr> sb_ops = [], sb_terminator = Return \<rparr>]"
    by (rule compiled_jsonl_fields [OF assms])
  have strings: "const_is_string f 0" "const_is_string f 1" "const_is_string f 2" "const_is_string f 3"
    "const_is_string f 4"
    by (simp_all add: constants const_is_string_def vec_get_def)
  have kinds: "acc_has_kind f 0 F64Map" "acc_has_kind f 1 I64Map" "acc_has_kind f 2 StringList"
    "acc_has_kind f 3 I64Map" "acc_has_kind f 4 StringList"
    by (simp_all add: acc_has_kind_def accs acc_specs_def vec_get_def)
  have "list_all (wf_stone_op f) (row_block_ops s p)"
    and "wf_stone_op f (MapAddI64Const 3 5 1 (map_option (\<lambda>_. 4) (bs_tags_list s)))"
    using strings kinds
    by (auto simp: row_block_ops_def wf_stone_op_def sizes append_ok_def split: option.splits)
  then have "wf_stone_function f"
    using kinds
    by (simp add: wf_stone_function_def wf_stone_block_def wf_stone_guard_def wf_stone_snapshot_def sizes rest
        accs acc_specs_def vec_get_def)
  then show ?thesis by (auto simp: accs rest acc_specs_def less_Suc_eq nth_Cons')
qed

section \<open>Runs\<close>

definition counted :: "string \<Rightarrow> string \<Rightarrow> stmt" where
  "counted x m = SIf (ECompare (EName x) [CIn] [EName m])
     [SAugAssign (TSubscript (TName m) (EName x)) AugAdd (EInt ''1'')]
     [SAssign (TSubscript (TName m) (EName x)) (EInt ''1'')]"

definition row_field :: "string \<Rightarrow> expr" where
  "row_field k = ESubscript (EName ''row'') (EString k)"

definition tag_loop_stmt :: stmt where
  "tag_loop_stmt = SFor [''tag''] (row_field ''tags'') [counted ''tag'' ''tags'']"

definition direct_body :: "stmt list" where
  "direct_body = [SIf (ECompare (EName ''u'') [CIn] [EName ''amounts''])
     [SAugAssign (TSubscript (TName ''amounts'') (EName ''u'')) AugAdd (row_field ''amount''),
      SAugAssign (TSubscript (TName ''items'') (EName ''u'')) AugAdd (row_field ''items'')]
     [SAssign (TSubscript (TName ''amounts'') (EName ''u'')) (row_field ''amount''),
      SAssign (TSubscript (TName ''items'') (EName ''u'')) (row_field ''items'')],
     tag_loop_stmt]"

definition nested_body :: "stmt list" where
  "nested_body = [SAssign (TName ''u'') (row_field ''user''),
     SIf (ECompare (EName ''u'') [CNotIn] [EName ''totals''])
       [SAssign (TSubscript (TName ''totals'') (EName ''u''))
         (ERecord [(''amount'', EFloat f64_zero), (''items'', EInt ''0'')])] [],
     SAugAssign (TSubscript (TSubscript (TName ''totals'') (EName ''u'')) (EString ''amount'')) AugAdd
       (ECall (Call ''float'' [row_field ''amount''] [])),
     SAugAssign (TSubscript (TSubscript (TName ''totals'') (EName ''u'')) (EString ''items'')) AugAdd
       (ECall (Call ''int'' [row_field ''items''] [])),
     tag_loop_stmt]"

lemma direct_body_matches:
  "match_hot_jsonl_aggregation_body ''row'' direct_body = Some (flat_body_plan ''u'' ''u'' None ''amounts''
     ''amount'' None ''items'' ''items'' None None ''tags'' False ''tags'' None None)"
  by code_simp

theorem recognised_body_round_trip_witness:
  "\<exists>p. match_hot_jsonl_aggregation_body ''row'' direct_body = Some p \<and> (\<exists>f. compile_hot_jsonl_vm_function p = Some f
    \<and> select_hot_jsonl_fused_kernel_from_ir f = Some KJsonlAggregation
    \<and> compile_hot_jsonl_trace_plan p = Some (trace_of_body p))"
  using recognised_body_round_trip [OF direct_body_matches] direct_body_matches
  by (simp add: flat_body_plan_def)

theorem nested_body_never_compiles_witness:
  "case match_hot_jsonl_aggregation_body ''row'' nested_body of
     Some p \<Rightarrow> compile_hot_jsonl_vm_function p = None \<and> compile_hot_jsonl_trace_plan p = None | None \<Rightarrow> False"
proof -
  have "map_option (\<lambda>p. map_option nt_map_name (jb_nested p)) (match_hot_jsonl_aggregation_body ''row'' nested_body)
      = Some (Some ''totals'')"
    by code_simp
  then obtain p nt where "match_hot_jsonl_aggregation_body ''row'' nested_body = Some p"
    "jb_nested p = Some nt" "nt_map_name nt = ''totals''" by auto
  with nested_body_never_compiles [of "''row''" nested_body p nt] show ?thesis by simp
qed

theorem compiled_jsonl_well_formed_witness:
  "case Option.bind (match_hot_jsonl_aggregation_body ''row'' direct_body) compile_hot_jsonl_vm_function of
     Some f \<Rightarrow> wf_stone_function f | None \<Rightarrow> False"
proof -
  obtain p where p: "match_hot_jsonl_aggregation_body ''row'' direct_body = Some p" "is_flat_body p"
    using direct_body_matches by simp
  from flat_body_compiles [OF p(2)] obtain f where "compile_hot_jsonl_vm_function p = Some f" ..
  with compiled_jsonl_well_formed [OF this] p show ?thesis by simp
qed

end
