(* ===== verification/Numeric_Correct.thy ===== *)
theory Numeric_Correct
  imports Collections
begin

unbundle bit_operations_syntax

text \<open>Arithmetic and comparison of values: the floor division and the modulo of the language are those
  of the integers with the exact conditions of their errors, equality is symmetric, orderings reverse.\<close>

section \<open>Floor division and modulo\<close>

lemma tdiv_trem: "a = b * tdiv a b + trem a b"
  by (simp add: trem_def)

lemma trem_bounds:
  assumes "b \<noteq> 0"
  shows "\<bar>trem a b\<bar> < \<bar>b\<bar>" and "trem a b = 0 \<or> sgn (trem a b) = sgn a"
proof -
  have "trem a b = sgn a * (\<bar>a\<bar> mod \<bar>b\<bar>)"
  proof -
    have "\<bar>a\<bar> mod \<bar>b\<bar> = \<bar>a\<bar> - \<bar>b\<bar> * (\<bar>a\<bar> div \<bar>b\<bar>)" by (simp add: minus_mult_div_eq_mod)
    then show ?thesis
      using assms by (cases "0 < a"; cases "a = 0"; cases "0 < b") (simp_all add: trem_def tdiv_def sgn_if)
  qed
  moreover have "0 \<le> \<bar>a\<bar> mod \<bar>b\<bar>" "\<bar>a\<bar> mod \<bar>b\<bar> < \<bar>b\<bar>" using assms by simp_all
  ultimately show "\<bar>trem a b\<bar> < \<bar>b\<bar>" "trem a b = 0 \<or> sgn (trem a b) = sgn a"
    by (auto simp: abs_mult sgn_mult sgn_if)
qed

lemma floor_of_truncated:
  assumes "b \<noteq> 0"
  shows "a div b = (if trem a b \<noteq> 0 \<and> (0 < trem a b) \<noteq> (0 < b) then tdiv a b - 1 else tdiv a b)"
proof -
  note eq = tdiv_trem [of a b] and bounds = trem_bounds(1) [OF assms, of a]
  show ?thesis
  proof (cases "trem a b \<noteq> 0 \<and> (0 < trem a b) \<noteq> (0 < b)")
    case True
    have eq': "a = b * (tdiv a b - 1) + (trem a b + b)" using eq by (simp add: algebra_simps)
    have "a div b = tdiv a b - 1"
    proof (cases "0 < b")
      case True': True
      show ?thesis by (rule int_div_pos_eq [OF eq']) (use True True' bounds in auto)
    next
      case False
      show ?thesis by (rule int_div_neg_eq [OF eq']) (use True False assms bounds in auto)
    qed
    with True show ?thesis by simp
  next
    case False
    have "a div b = tdiv a b"
    proof (cases "0 < b")
      case True
      show ?thesis by (rule int_div_pos_eq [OF eq]) (use False True bounds in auto)
    next
      case False': False
      show ?thesis by (rule int_div_neg_eq [OF eq]) (use False False' assms bounds in auto)
    qed
    with False show ?thesis by simp
  qed
qed

lemma tdiv_abs: "b \<noteq> 0 \<Longrightarrow> \<bar>tdiv a b\<bar> = \<bar>a\<bar> div \<bar>b\<bar>"
  by (cases "a = 0") (simp_all add: tdiv_def abs_mult pos_imp_zdiv_nonneg_iff)

lemma tdiv_half: "1 < \<bar>b\<bar> \<Longrightarrow> \<bar>tdiv a b\<bar> \<le> \<bar>a\<bar> div 2"
  using zdiv_mono2 [of "\<bar>a\<bar>" 2 "\<bar>b\<bar>"] by (subst tdiv_abs) auto

lemma floor_div_in_range:
  assumes "in_i64 a" and "in_i64 b" and "b \<noteq> 0" and "\<not> (a = - 9223372036854775808 \<and> b = - 1)"
  shows "in_i64 (a div b)" and "in_i64 (tdiv a b)" and "in_i64 (trem a b)"
proof -
  note floor = floor_of_truncated [OF assms(3), of a] and small = trem_bounds(1) [OF assms(3), of a]
  have "in_i64 (tdiv a b) \<and> in_i64 (a div b)"
  proof (cases "1 < \<bar>b\<bar>")
    case True
    have "\<bar>a\<bar> div 2 \<le> 4611686018427387904" using assms(1) by (auto simp: in_i64_def)
    with tdiv_half [OF True, of a] have "\<bar>tdiv a b\<bar> \<le> 4611686018427387904" by linarith
    then show ?thesis by (auto simp: floor in_i64_def)
  next
    case False
    with assms(3) have b: "b = 1 \<or> b = - 1" by linarith
    with small have "trem a b = 0" by auto
    with floor have "a div b = tdiv a b" by simp
    with b assms(1,4) show ?thesis by (auto simp: in_i64_def)
  qed
  then show "in_i64 (a div b)" "in_i64 (tdiv a b)" by simp_all
  show "in_i64 (trem a b)" using small assms(2) by (auto simp: in_i64_def)
qed

lemma tdiv_overflow: "\<not> in_i64 (tdiv (- 9223372036854775808) (- 1))"
  by (simp add: tdiv_def in_i64_def)

definition floor_div_overflow :: shell_error where
  "floor_div_overflow = stone_error ''floor division'' ''integer floor division overflow'' []"

lemma checked_quotient:
  assumes "b \<noteq> 0" and "\<not> (sint a = - 9223372036854775808 \<and> sint b = - 1)"
  shows "checked_div a b = Some (i64_of (tdiv (sint a) (sint b)))"
    and "checked_rem a b = Some (i64_of (trem (sint a) (sint b)))"
  using assms floor_div_in_range [of "sint a" "sint b"]
  by (simp_all add: checked_div_def checked_rem_def i64_checked_def)

lemma floor_div_cases:
  "python_floor_div_i64 a b =
     (if b = 0 \<or> sint a = - 9223372036854775808 \<and> sint b = - 1 then Inl floor_div_overflow
      else Inr (i64_of (sint a div sint b)))"
proof (cases "b = 0 \<or> sint a = - 9223372036854775808 \<and> sint b = - 1")
  case True
  then have "checked_div a b = None"
    using tdiv_overflow by (auto simp: checked_div_def i64_checked_def)
  with True show ?thesis by (simp add: python_floor_div_i64_def floor_div_overflow_def ok_or_def)
next
  case False
  then have b: "b \<noteq> 0" "\<not> (sint a = - 9223372036854775808 \<and> sint b = - 1)" by auto
  let ?q = "tdiv (sint a) (sint b)" and ?r = "trem (sint a) (sint b)"
  have range: "in_i64 (sint a div sint b)" "in_i64 ?q" "in_i64 ?r"
    using floor_div_in_range [of "sint a" "sint b"] b by auto
  have floor: "sint a div sint b = (if ?r \<noteq> 0 \<and> (0 < ?r) \<noteq> (0 < sint b) then ?q - 1 else ?q)"
    by (rule floor_of_truncated) (simp add: b)
  have r0: "i64_of ?r = 0 \<longleftrightarrow> ?r = 0" using range(3) by (metis sint_i64_of sint_zero_iff)
  show ?thesis
  proof (cases "?r \<noteq> 0 \<and> (0 < ?r) \<noteq> (0 < sint b)")
    case True
    with range floor have "checked_sub (i64_of ?q) 1 = Some (i64_of (sint a div sint b))"
      by (simp add: checked_sub_def i64_checked_def)
    with True False range r0 checked_quotient [OF b] show ?thesis
      by (simp add: python_floor_div_i64_def ok_or_def)
  next
    case False': False
    with False range r0 floor checked_quotient [OF b] show ?thesis
      by (auto simp: python_floor_div_i64_def ok_or_def)
  qed
qed

text \<open>the integer floor division succeeds for every divisor but zero, except for the least integer
  by -1, and its result is the quotient rounded towards minus infinity.\<close>

theorem floor_division_is_floor:
  "python_floor_div_i64 a b =
     (if b = 0 \<or> sint a = - 9223372036854775808 \<and> sint b = - 1 then Inl floor_div_overflow
      else Inr (i64_of (sint a div sint b)))"
  by (rule floor_div_cases)

definition modulo_overflow :: shell_error where
  "modulo_overflow = stone_error ''modulo'' ''integer modulo overflow'' []"

text \<open>C30: the modulo has the sign of the divisor, as in Python, but it is computed through the product of
  the quotient and the divisor: it fails when that product leaves the range although the remainder
  itself is small, for instance for the least integer modulo 3.\<close>

theorem modulo_is_python_modulo:
  "python_mod_i64 a b =
     (if b = 0 \<or> sint a = - 9223372036854775808 \<and> sint b = - 1 then Inl floor_div_overflow
      else if in_i64 (sint a div sint b * sint b) then Inr (i64_of (sint a mod sint b))
      else Inl modulo_overflow)"
proof (cases "b = 0 \<or> sint a = - 9223372036854775808 \<and> sint b = - 1")
  case True
  then show ?thesis by (auto simp: python_mod_i64_def floor_div_cases)
next
  case False
  let ?q = "sint a div sint b"
  have q: "in_i64 ?q" using False floor_div_in_range [of "sint a" "sint b"] by auto
  have m: "sint a - ?q * sint b = sint a mod sint b" by (simp add: minus_div_mult_eq_mod)
  have "\<bar>sint a mod sint b\<bar> < \<bar>sint b\<bar>"
  proof (cases "0 < sint b")
    case True
    then show ?thesis by (simp add: pos_mod_bound pos_mod_sign)
  next
    case False': False
    with False have "sint b < 0" by (auto simp: less_le)
    then show ?thesis using neg_mod_bound [of "sint b" "sint a"] neg_mod_sign [of "sint b" "sint a"] by linarith
  qed
  moreover have "in_i64 (sint b)" by simp
  ultimately have "in_i64 (sint a mod sint b)" by (auto simp: in_i64_def)
  with False q m show ?thesis
    by (auto simp: python_mod_i64_def floor_div_cases ok_or_def checked_mul_def checked_sub_def i64_checked_def
        modulo_overflow_def)
qed

section \<open>Shifts\<close>

lemma sint_push_bit:
  assumes "in_i64 (sint (a::i64) * 2 ^ n)"
  shows "sint (push_bit n a) = sint a * 2 ^ n"
proof -
  have "push_bit n a = i64_of (sint a * 2 ^ n)"
    by (simp add: i64_of_def push_bit_eq_mult)
  with assms show ?thesis by simp
qed

text \<open>a shift by a count from 0 to 63 always succeeds. The right shift is the floor division by the
  power of two. The left shift is the multiplication by the power of two only when the product is a
  64-bit integer; otherwise bits are lost without an error. Any other count is an error.\<close>

theorem shifts_of_integers:
  assumes "0 \<le> sint n" and "sint n < 64"
  shows "\<exists>l r. shift_value (VInt a) (VInt n) ''left shift'' checked_shl = Inr (VInt l)
    \<and> shift_value (VInt a) (VInt n) ''right shift'' checked_shr = Inr (VInt r)
    \<and> sint r = sint a div 2 ^ nat (sint n)
    \<and> (sint l = sint a * 2 ^ nat (sint n) \<longleftrightarrow> in_i64 (sint a * 2 ^ nat (sint n)))"
proof -
  have count: "u32_of_i64 n = Some (nat (sint n))" "nat (sint n) < 64"
    using assms by (auto simp: u32_of_i64_def nat_less_iff)
  have "sint (push_bit (nat (sint n)) a) = sint a * 2 ^ nat (sint n) \<longleftrightarrow> in_i64 (sint a * 2 ^ nat (sint n))"
    using sint_push_bit [of a "nat (sint n)"] by (metis in_i64_sint)
  moreover have "sint (signed_drop_bit (nat (sint n)) a) = sint a div 2 ^ nat (sint n)"
    by (simp add: sint_signed_drop_bit_eq drop_bit_eq_div)
  ultimately show ?thesis
    using count by (simp add: shift_value_def value_to_operator_i64_def ok_or_def checked_shl_def checked_shr_def)
qed

theorem shifts_of_integers_witness:
  "\<exists>l r. shift_value (VInt 1) (VInt 63) ''left shift'' checked_shl = Inr (VInt l)
    \<and> shift_value (VInt 1) (VInt 63) ''right shift'' checked_shr = Inr (VInt r)
    \<and> sint r = 0 \<and> sint l \<noteq> 2 ^ 63"
proof -
  have "0 \<le> sint (63::i64)" "sint (63::i64) < 64" by simp_all
  from shifts_of_integers [OF this, of 1] show ?thesis by (auto simp: in_i64_def)
qed

section \<open>Equality\<close>

text \<open>A record of the runtime has no key twice.\<close>

fun wf_value :: "nu_value \<Rightarrow> bool" where
  "wf_value (VList vs) = list_all wf_value vs"
| "wf_value (VRecord r) = (distinct (List.map fst r) \<and> list_all (\<lambda>(k, v). wf_value v) r)"
| "wf_value _ = True"

lemma reverse_equal [simp]: "ordering_reverse c = OEqual \<longleftrightarrow> c = OEqual"
  by (cases c) simp_all

lemma f64_eq_sym: "f64_eq x y \<longleftrightarrow> f64_eq y x"
  unfolding f64_eq_def using f64_partial_cmp_reverse [of x y] by (auto simp: reverse_equal)

lemma record_get_Some: "distinct (List.map fst r) \<Longrightarrow> record_get r k = Some v \<longleftrightarrow> (k, v) \<in> set r"
  by (simp add: record_get_def)

lemma record_equal_sym:
  assumes a: "distinct (List.map fst a)" and b: "distinct (List.map fst b)" and len: "length a = length b"
    and all: "\<forall>(k, x)\<in>set a. \<exists>y. record_get b k = Some y \<and> E x y"
  shows "\<forall>(k, y)\<in>set b. \<exists>x. record_get a k = Some x \<and> E x y"
proof -
  have "fst ` set a \<subseteq> fst ` set b"
    using all b by (force simp: record_get_Some)
  moreover have "card (fst ` set a) = card (fst ` set b)"
    using a b len by (metis distinct_card length_map set_map)
  ultimately have keys: "fst ` set a = fst ` set b" by (simp add: card_subset_eq)
  show ?thesis
  proof clarify
    fix k y assume y: "(k, y) \<in> set b"
    then have "k \<in> fst ` set a" by (force simp: keys)
    then obtain x where x: "(k, x) \<in> set a" by auto
    with all obtain y' where "record_get b k = Some y'" "E x y'" by auto
    moreover have "record_get b k = Some y" using y b by (simp add: record_get_Some)
    ultimately show "\<exists>x. record_get a k = Some x \<and> E x y" using x a by (auto simp: record_get_Some)
  qed
qed

lemma values_equal_flip: "values_equal x y \<Longrightarrow> wf_value x \<Longrightarrow> wf_value y \<Longrightarrow> values_equal y x"
proof (induction x y rule: values_equal.induct)
  case (7 a r)
  then obtain b where r: "r = VList b" "length a = length b"
    and eq: "list_all (\<lambda>(x, y). values_equal x y) (zip a b)" by (auto split: nu_value.splits)
  have "values_equal (b ! i) (a ! i)" if i: "i < length a" for i
  proof (rule "7.IH" [OF r(1), of "(a ! i, b ! i)"])
    show "(a ! i, b ! i) \<in> set (zip a b)" using i r(2) by (auto simp: set_zip)
    show "values_equal (a ! i) (b ! i)" using eq i r(2) by (auto simp: list_all_length)
    show "wf_value (a ! i)" "wf_value (b ! i)" using "7.prems" r i by (auto simp: list_all_length)
  qed simp
  with r show ?case by (auto simp: list_all_length)
next
  case (8 a r)
  then obtain b where r: "r = VRecord b" "length a = length b" by (auto split: nu_value.splits)
  have "\<forall>(k, y)\<in>set b. \<exists>x. record_get a k = Some x \<and> values_equal y x"
  proof (rule record_equal_sym [OF _ _ r(2)])
    show "distinct (List.map fst a)" "distinct (List.map fst b)" using "8.prems" r by auto
    show "\<forall>(k, x)\<in>set a. \<exists>y. record_get b k = Some y \<and> values_equal y x"
    proof clarify
      fix k x assume x: "(k, x) \<in> set a"
      with "8.prems"(1) r obtain y where y: "record_get b k = Some y" "values_equal x y"
        by (auto simp: list_all_iff split: option.splits)
      have "values_equal y x"
        using x y "8.prems" r record_get_mem [OF y(1)]
        by (intro "8.IH" [OF r(1) x refl y(1)]) (auto simp: list_all_iff)
      with y show "\<exists>y. record_get b k = Some y \<and> values_equal y x" by blast
    qed
  qed
  with r show ?case by (fastforce simp: list_all_iff)
qed (auto simp: f64_eq_sym nu_text_def split: nu_value.splits)

text \<open>equality of values is symmetric, for records whatever the order of their keys.\<close>

theorem values_equal_symmetric:
  assumes "wf_value x" and "wf_value y"
  shows "values_equal x y \<longleftrightarrow> values_equal y x"
  using assms values_equal_flip by blast

theorem values_equal_symmetric_witness:
  "values_equal (VRecord [(''a'', VInt 1), (''b'', VList [VBool True])])
      (VRecord [(''b'', VList [VBool True]), (''a'', VInt 1)])
    \<longleftrightarrow> values_equal (VRecord [(''b'', VList [VBool True]), (''a'', VInt 1)])
      (VRecord [(''a'', VInt 1), (''b'', VList [VBool True])])"
  by (rule values_equal_symmetric) simp_all

section \<open>Ordering\<close>

lemma str_cmp_reverse: "str_cmp b a = ordering_reverse (str_cmp a b)"
proof (induction a arbitrary: b)
  case Nil
  then show ?case by (cases b) simp_all
next
  case (Cons c a)
  then show ?case by (cases b) (auto simp: int_cmp_reverse [where a = "byte c"])
qed

lemma f64_ordering_reverse:
  "f64_ordering b a = and_then (f64_ordering a b) (\<lambda>c. Inr (ordering_reverse c))"
  unfolding f64_ordering_def by (subst f64_partial_cmp_reverse) (auto simp: ok_or_def split: option.splits)

definition reverses :: "ordering res \<Rightarrow> ordering res \<Rightarrow> bool" where
  "reverses r s = (case r of Inl _ \<Rightarrow> (\<exists>e. s = Inl e) | Inr c \<Rightarrow> s = Inr (ordering_reverse c))"

lemma reverses_basic [simp]:
  "reverses (Inr (int_cmp i j)) (Inr (int_cmp j i))"
  "reverses (Inr (str_cmp a b)) (Inr (str_cmp b a))"
  "reverses (f64_ordering u v) (f64_ordering v u)"
  "reverses (Inl e) (Inl e')"
  by (simp_all add: reverses_def int_cmp_def str_cmp_reverse [where a = a] f64_ordering_reverse [where a = u]
      split: sum.splits)

lemma list_ordering_reverses:
  assumes "reverses (value_ordering a b) (value_ordering b a)"
    and "value_ordering a b = Inr OEqual \<Longrightarrow> reverses (list_ordering as bs) (list_ordering bs as)"
  shows "reverses (list_ordering (a # as) (b # bs)) (list_ordering (b # bs) (a # as))"
proof (cases "value_ordering a b")
  case (Inr c)
  with assms show ?thesis by (cases c) (simp_all add: reverses_def)
qed (use assms in \<open>auto simp: reverses_def\<close>)

lemma ordering_reverses:
  "reverses (value_ordering x y) (value_ordering y x)"
  "reverses (list_ordering xs ys) (list_ordering ys xs)"
proof (induction x y and xs ys rule: value_ordering_list_ordering.induct)
  case (1 a r) show ?case by (cases r) (simp_all add: nu_text_def)
next
  case (2 a r) show ?case by (cases r) (simp_all add: nu_text_def)
next
  case (3 a r) show ?case by (cases r) (simp_all add: nu_text_def)
next
  case (4 a r) show ?case by (cases r) (simp_all add: nu_text_def)
next
  case (5 a r) then show ?case by (cases r) (simp_all add: nu_text_def)
next
  case (6 r) show ?case by (cases r) (simp_all add: nu_text_def)
next
  case (7 b r) show ?case by (cases r) (simp_all add: nu_text_def)
next
  case (8 f r) show ?case by (cases r) (simp_all add: nu_text_def)
next
  case (9 b r) show ?case by (cases r) (simp_all add: nu_text_def)
next
  case (10 t r) show ?case by (cases r) (simp_all add: nu_text_def)
next
  case (11 bs) show ?case by (cases bs) (simp_all add: reverses_def)
next
  case (12 a as bs)
  show ?case
  proof (cases bs)
    case (Cons b bs')
    show ?thesis unfolding Cons
      by (rule list_ordering_reverses) (use "12.IH" [OF Cons] in auto)
  qed (simp add: reverses_def)
qed

text \<open>comparing two values the other way round gives the reverse ordering, and when one order is an
  error (values of different kinds, NaN) so is the other.\<close>

theorem value_ordering_reverses:
  "case value_ordering x y of
     Inl _ \<Rightarrow> (\<exists>e. value_ordering y x = Inl e)
   | Inr c \<Rightarrow> value_ordering y x = Inr (ordering_reverse c)"
  using ordering_reverses(1) [of x y] by (simp add: reverses_def)

end
