(* ===== verification/Collections_Correct.thy ===== *)
theory Collections_Correct
  imports Collections
begin

text \<open>Integer literals, indices, slices, assignment through an index, \<open>range\<close> and \<open>sum\<close>.\<close>

section \<open>Integer literals\<close>

lemma digit_value_Some: "is_ascii_digit c \<Longrightarrow> digit_value c = Some (byte c - 48)"
  by (simp add: is_ascii_digit_def digit_value_def)

definition digits_from :: "int \<Rightarrow> string \<Rightarrow> int" where
  "digits_from acc s = foldl (\<lambda>a c. 10 * a + (byte c - 48)) acc s"

lemma digits_from_simps [simp]:
  "digits_from acc [] = acc" "digits_from acc (c # s) = digits_from (10 * acc + (byte c - 48)) s"
  by (simp_all add: digits_from_def)

lemma digits_from_grows: "0 \<le> acc \<Longrightarrow> list_all is_ascii_digit s \<Longrightarrow> acc \<le> digits_from acc s"
proof (induction s arbitrary: acc)
  case (Cons c s)
  then have "10 * acc + (byte c - 48) \<le> digits_from (10 * acc + (byte c - 48)) s"
    by (intro Cons.IH) (auto simp: is_ascii_digit_def)
  with Cons.prems show ?case by (auto simp: is_ascii_digit_def)
qed simp

definition parse_sign :: "bool \<Rightarrow> int" where
  "parse_sign neg = (if neg then - 1 else 1)"

lemma parse_digits_spec:
  assumes "list_all is_ascii_digit s" and "0 \<le> acc" and "in_i64 (parse_sign neg * acc)"
  shows "parse_digits neg (parse_sign neg * acc) s =
    (if in_i64 (parse_sign neg * digits_from acc s) then Inr (parse_sign neg * digits_from acc s)
     else Inl (if neg then IntNegOverflow else IntPosOverflow))"
  using assms
proof (induction s arbitrary: acc)
  case Nil
  then show ?case by simp
next
  case (Cons c s)
  let ?acc = "10 * acc + (byte c - 48)"
  have digit: "digit_value c = Some (byte c - 48)" "0 \<le> byte c - 48"
    using Cons.prems by (auto simp: digit_value_Some is_ascii_digit_def)
  have step: "parse_sign neg * acc * 10 + (if neg then - (byte c - 48) else byte c - 48) = parse_sign neg * ?acc"
    by (simp add: parse_sign_def)
  have smaller: "in_i64 (parse_sign neg * ?acc) \<Longrightarrow> in_i64 (parse_sign neg * acc * 10)"
    using Cons.prems(2) digit by (cases neg) (auto simp: parse_sign_def in_i64_def)
  show ?case
  proof (cases "in_i64 (parse_sign neg * ?acc)")
    case True
    with smaller step digit Cons.IH [of ?acc] Cons.prems show ?thesis by simp
  next
    case False
    have "?acc \<le> digits_from ?acc s"
      using Cons.prems digit by (intro digits_from_grows) auto
    with False have "\<not> in_i64 (parse_sign neg * digits_from ?acc s)"
      using Cons.prems(2) digit by (cases neg) (auto simp: parse_sign_def in_i64_def)
    with False step digit show ?thesis by simp
  qed
qed

text \<open>a decimal literal with an optional sign parses to the integer it denotes when that fits 64 bits,
  the least integer included, and is otherwise the overflow error of its sign.\<close>

theorem parse_i64_of_digits:
  assumes "list_all is_ascii_digit ds" and "ds \<noteq> []"
  shows "parse_i64 ds = (if in_i64 (digits_value ds) then Inr (i64_of (digits_value ds)) else Inl IntPosOverflow)
    \<and> parse_i64 (CHR ''+'' # ds)
        = (if in_i64 (digits_value ds) then Inr (i64_of (digits_value ds)) else Inl IntPosOverflow)
    \<and> parse_i64 (CHR ''-'' # ds)
        = (if in_i64 (- digits_value ds) then Inr (i64_of (- digits_value ds)) else Inl IntNegOverflow)"
proof -
  obtain c cs where ds: "ds = c # cs" using assms(2) by (cases ds) auto
  have c: "c \<noteq> CHR ''+''" "c \<noteq> CHR ''-''"
    using assms(1) ds by (auto simp: is_ascii_digit_def byte_def)
  have whole: "digits_value ds = digits_from 0 ds" by (simp add: digits_value_def digits_from_def)
  have "parse_digits neg 0 ds = (if in_i64 (parse_sign neg * digits_value ds)
      then Inr (parse_sign neg * digits_value ds)
      else Inl (if neg then IntNegOverflow else IntPosOverflow))" for neg
    using parse_digits_spec [OF assms(1), of 0 neg] by (simp add: whole in_i64_def)
  from this [of True] this [of False] c assms(2) show ?thesis
    by (auto simp: parse_i64_def ds parse_sign_def simp del: parse_digits.simps)
qed

theorem parse_i64_of_digits_witness:
  "parse_i64 ''-9223372036854775808'' = Inr (i64_of (- 9223372036854775808))
   \<and> parse_i64 ''9223372036854775808'' = Inl IntPosOverflow"
proof -
  have "list_all is_ascii_digit ''9223372036854775808''" "''9223372036854775808'' \<noteq> ''''"
    by code_simp+
  note T = parse_i64_of_digits [OF this]
  have "digits_value ''9223372036854775808'' = 9223372036854775808" by code_simp
  with T show ?thesis by (simp add: in_i64_def)
qed

section \<open>Subscripts\<close>

definition wrapped_index :: "i64 \<Rightarrow> nat \<Rightarrow> nat" where
  "wrapped_index i n = nat (sint i mod int n)"

lemma normalize_index_spec:
  assumes "int n < 9223372036854775808"
  shows "normalize_index i n = (if - int n \<le> sint i \<and> sint i < int n then Inr (wrapped_index i n)
    else Inl (stone_error ''subscript'' ''index {} is out of range'' [MInt (sint i)]))"
proof (cases "sint i < 0")
  case True
  have "sint i mod int n = int n + sint i" if "- int n \<le> sint i"
  proof -
    have "sint i mod int n = (int n + sint i) mod int n" by simp
    also have "\<dots> = int n + sint i" using True that by (intro mod_pos_pos_trivial) auto
    finally show ?thesis .
  qed
  with True assms show ?thesis
    by (auto simp: normalize_index_def i64_of_len_def ok_or_def wrapped_index_def Let_def)
next
  case False
  with assms show ?thesis
    by (auto simp: normalize_index_def i64_of_len_def ok_or_def wrapped_index_def Let_def)
qed

lemma wrapped_index_less: "- int n \<le> sint i \<Longrightarrow> sint i < int n \<Longrightarrow> wrapped_index i n < n"
  by (simp add: wrapped_index_def nat_less_iff)

text \<open>a list of fewer than 2^63 elements can be indexed exactly from minus its length to its length
  minus one, negative indices counting from the end; any other index is the range error.\<close>

theorem list_subscript_wraps:
  assumes "int (length vs) < 9223372036854775808"
  shows "subscript_builtin (VList vs) (VInt i) =
    (if - int (length vs) \<le> sint i \<and> sint i < int (length vs)
     then Inr (vs ! nat (sint i mod int (length vs)))
     else Inl (stone_error ''subscript'' ''index {} is out of range'' [MInt (sint i)]))"
  using wrapped_index_less [of "length vs" i]
  by (simp add: subscript_builtin_def nu_record_def nu_int_def normalize_index_spec [OF assms] ok_or_def
      wrapped_index_def)

theorem list_subscript_wraps_witness:
  "subscript_builtin (VList [VInt 7, VInt 8, VInt 9]) (VInt (- 1)) = Inr (VInt 9)"
proof -
  have "int (length [VInt 7, VInt 8, VInt 9]) < 9223372036854775808" by simp
  from list_subscript_wraps [OF this, of "- 1"] show ?thesis by (simp add: eval_nat_numeral)
qed

section \<open>Assignment through an index\<close>

primrec read_path :: "nu_value list \<Rightarrow> nu_value \<Rightarrow> nu_value res" where
  "read_path [] v = Inr v"
| "read_path (i # is) v = and_then (subscript_builtin v i) (read_path is)"

lemma normalize_index_less: "normalize_index i n = Inr k \<Longrightarrow> k < n"
  by (auto simp: normalize_index_def i64_of_len_def ok_or_def Let_def nat_less_iff split: if_splits)

lemma nu_record_Some [simp]: "nu_record v = Some r \<longleftrightarrow> v = VRecord r"
  by (auto simp: nu_record_def split: nu_value.splits)

lemma nu_list_Some [simp]: "nu_list v = Some vs \<longleftrightarrow> v = VList vs"
  by (auto simp: nu_list_def split: nu_value.splits)

lemma nu_record_VList [simp]: "nu_record (VList vs) = None"
  by (simp add: nu_record_def)

lemma assign_subscript_cases:
  assumes "assign_subscript target i v = Inr w"
  shows "(\<exists>r key. target = VRecord r \<and> nu_text i = Some key \<and> w = VRecord (record_insert key v r))
    \<or> (\<exists>vs n k. target = VList vs \<and> i = VInt n \<and> normalize_index n (length vs) = Inr k \<and> k < length vs
        \<and> w = VList (vs[k := v]))"
  using assms
  by (auto simp: and_then_eq_Inr assign_subscript_def nu_int_def split: option.splits if_splits nu_value.splits)

lemma subscript_after_assign:
  assumes "assign_subscript target i v = Inr w"
  shows "subscript_builtin w i = Inr v"
  using assign_subscript_cases [OF assms]
  by (auto simp: subscript_builtin_def ok_or_def nu_int_def nu_record_def)

lemma subscript_after_put:
  assumes "subscript_mut target i context = Inr (inner, put)"
  shows "subscript_builtin (put w) i = Inr w"
  using assms
  by (auto simp: and_then_eq_Inr subscript_mut_def subscript_builtin_def ok_or_def nu_int_def nu_text_def
      split: option.splits if_splits nu_value.splits dest: normalize_index_less)

text \<open>C31: after an assignment through a path of indices and keys, reading the path gives the assigned
  value, at any depth of nested lists and records.\<close>

theorem read_after_assign:
  assumes "assign_subscript_path target path v = Inr w"
  shows "read_path path w = Inr v"
  using assms
proof (induction target path v arbitrary: w rule: assign_subscript_path.induct)
  case (2 target i v)
  then show ?case by (simp add: subscript_after_assign)
next
  case (3 target i i' rest v)
  then obtain inner put u where 1: "subscript_mut target i ''assignment'' = Inr (inner, put)"
    "assign_subscript_path inner (i' # rest) v = Inr u" "w = put u"
    by (auto simp: and_then_eq_Inr)
  from "3.IH" [OF 1(1) refl 1(2)] 1(3) subscript_after_put [OF 1(1)] show ?case by simp
qed simp

theorem read_after_assign_witness:
  "read_path [VString ''a'', VInt (- 1)] (VRecord [(''a'', VList [VInt 1, VInt 5])]) = Inr (VInt 5)"
proof (rule read_after_assign)
  show "assign_subscript_path (VRecord [(''a'', VList [VInt 1, VInt 2])]) [VString ''a'', VInt (- 1)] (VInt 5)
      = Inr (VRecord [(''a'', VList [VInt 1, VInt 5])])" by code_simp
qed

section \<open>Slices\<close>

lemma slice_bound_range: "0 \<le> l \<Longrightarrow> 0 \<le> slice_bound b m l \<and> slice_bound b m l \<le> l"
  by (auto simp: slice_bound_def clamp_def Let_def)

text \<open>the two slices of a list at any bound, negative or out of range, are its two parts, and a slice
  never reads outside the list.\<close>

theorem slices_partition_list:
  assumes "int (length vs) < 9223372036854775808"
  shows "\<exists>xs ys. slice_builtin (VList vs) None (Some k) = Inr (VList xs)
    \<and> slice_builtin (VList vs) (Some k) None = Inr (VList ys) \<and> xs @ ys = vs"
proof -
  define z where "z = nat (slice_bound (Some k) 0 (int (length vs)))"
  have z: "z \<le> length vs" using slice_bound_range [of "int (length vs)" "Some k" 0] by (auto simp: z_def nat_le_iff)
  have same: "slice_bound (Some k) m l = slice_bound (Some k) 0 l" for m l
    by (simp add: slice_bound_def)
  have none: "slice_bound None 0 (int n) = 0" "slice_bound None (int n) (int n) = int n" for n
    by (simp_all add: slice_bound_def clamp_def)
  have "slice_builtin (VList vs) None (Some k) = Inr (VList (take z vs))"
    "slice_builtin (VList vs) (Some k) None = Inr (VList (drop z vs))"
    using assms z same [of "int (length vs)"] none slice_bound_range [of "int (length vs)" "Some k" 0]
    by (auto simp: slice_builtin_def nu_list_def normalize_slice_bounds_def i64_of_len_def ok_or_def Let_def
        slice_list_def z_def [symmetric])
  then show ?thesis by simp
qed

theorem slices_partition_list_witness:
  "\<exists>xs ys. slice_builtin (VList [VInt 1, VInt 2, VInt 3]) None (Some (- 2)) = Inr (VList xs)
    \<and> slice_builtin (VList [VInt 1, VInt 2, VInt 3]) (Some (- 2)) None = Inr (VList ys)
    \<and> xs @ ys = [VInt 1, VInt 2, VInt 3]"
  by (rule slices_partition_list) simp

section \<open>Ranges\<close>

definition range_item :: "i64 \<Rightarrow> i64 \<Rightarrow> nat \<Rightarrow> int" where
  "range_item start step k = sint start + int k * sint step"

definition before_stop :: "i64 \<Rightarrow> i64 \<Rightarrow> int \<Rightarrow> bool" where
  "before_stop stop step z = (if 0 < sint step then z < sint stop else sint stop < z)"

definition range_items :: "i64 \<Rightarrow> i64 \<Rightarrow> nat \<Rightarrow> nu_value list" where
  "range_items start step m = List.map (\<lambda>k. VInt (i64_of (range_item start step k))) [0..<m]"

definition range_counts :: "i64 \<Rightarrow> i64 \<Rightarrow> i64 \<Rightarrow> nat \<Rightarrow> bool" where
  "range_counts start stop step m \<longleftrightarrow> (\<forall>k<m. before_stop stop step (range_item start step k))
     \<and> \<not> before_stop stop step (range_item start step m) \<and> (\<forall>k\<le>m. in_i64 (range_item start step k))"

lemma range_items_Suc: "in_i64 (sint start + sint step) \<Longrightarrow>
   range_items start step (Suc m) = VInt start # range_items (i64_of (sint start + sint step)) step m"
  by (simp add: range_items_def range_item_def upt_conv_Cons map_Suc_upt [symmetric] algebra_simps
      del: upt_Suc)

lemma range_counts_0: "range_counts start stop step 0 \<longleftrightarrow> \<not> range_continues start stop step"
  by (simp add: range_counts_def before_stop_def range_item_def range_continues_def)

lemma range_counts_Suc:
  "range_counts start stop step (Suc m) \<longleftrightarrow> range_continues start stop step
    \<and> in_i64 (sint start + sint step) \<and> range_counts (i64_of (sint start + sint step)) stop step m"
proof (cases "in_i64 (sint start + sint step)")
  case True
  then have shift: "range_item start step (Suc k) = range_item (i64_of (sint start + sint step)) step k" for k
    by (simp add: range_item_def algebra_simps)
  have zero: "range_item start step 0 = sint start" by (simp add: range_item_def)
  have le: "(\<forall>k\<le>Suc m. P k) \<longleftrightarrow> P 0 \<and> (\<forall>k\<le>m. P (Suc k))" for P :: "nat \<Rightarrow> bool"
    using All_less_Suc2 [of "Suc m" P] by (simp add: less_Suc_eq_le)
  show ?thesis using True
    by (auto simp: range_counts_def All_less_Suc2 le shift zero before_stop_def range_continues_def)
next
  case False
  then have "\<not> in_i64 (range_item start step (Suc 0))" by (simp add: range_item_def)
  then have "\<not> range_counts start stop step (Suc m)" by (auto simp: range_counts_def)
  with False show ?thesis by simp
qed

lemma range_loop_spec:
  "range_loop n start stop step = Inr vs \<longleftrightarrow>
    (\<exists>m. range_counts start stop step m \<and> vs = range_items start step m \<and> (m = 0 \<or> n + int m \<le> 100000))"
proof (induction n start stop step arbitrary: vs rule: range_loop.induct)
  case (1 n start stop step)
  let ?next = "i64_of (sint start + sint step)"
  have split: "(\<exists>m. P m) \<longleftrightarrow> P 0 \<or> (\<exists>m. P (Suc m))" for P :: "nat \<Rightarrow> bool"
    by (metis not0_implies_Suc)
  have nil: "range_items start step 0 = []" by (simp add: range_items_def)
  show ?case
  proof (cases "range_continues start stop step \<and> n < 100000 \<and> in_i64 (sint start + sint step)")
    case True
    then have step: "range_loop n start stop step
        = and_then (range_loop (n + 1) ?next stop step) (\<lambda>vs. Inr (VInt start # vs))"
      by (simp add: range_loop.simps [of n] checked_add_def i64_checked_def ok_or_def)
    have IH: "range_loop (n + 1) ?next stop step = Inr us \<longleftrightarrow> (\<exists>m. range_counts ?next stop step m
        \<and> us = range_items ?next step m \<and> (m = 0 \<or> n + 1 + int m \<le> 100000))" for us
      using "1.IH" [of ?next us] True by (simp add: ok_or_def checked_add_def i64_checked_def)
    have room: "m = 0 \<or> n + 1 + int m \<le> 100000 \<longleftrightarrow> n + int (Suc m) \<le> 100000" for m
      using True by auto
    show ?thesis
      unfolding step split [of "\<lambda>m. range_counts start stop step m \<and> vs = range_items start step m
        \<and> (m = 0 \<or> n + int m \<le> 100000)"] using True
      by (auto simp: and_then_eq_Inr IH range_counts_0 range_counts_Suc range_items_Suc room)
  next
    case False
    then show ?thesis
      unfolding split [of "\<lambda>m. range_counts start stop step m \<and> vs = range_items start step m
        \<and> (m = 0 \<or> n + int m \<le> 100000)"]
      by (auto simp: range_loop.simps [of n] checked_add_def i64_checked_def ok_or_def range_counts_0
          range_counts_Suc nil)
  qed
qed

text \<open>\<open>range\<close> yields the arithmetic progression from the start that lies before the stop, at most
  100000 items; it fails when the first number that is not before the stop is no 64-bit integer,
  although that number is not in the result.\<close>

theorem range_is_progression:
  assumes "step \<noteq> 0"
  shows "range_builtin [start, stop, step] = Inr v \<longleftrightarrow>
    (\<exists>m \<le> 100000. range_counts start stop step m \<and> v = VList (range_items start step m))"
  using assms
  by (auto simp: range_builtin_def range_args_def ok_or_def and_then_eq_Inr range_loop_spec)

theorem range_is_progression_witness:
  "range_builtin [1, 8, 3] = Inr (VList [VInt 1, VInt 4, VInt 7])
   \<and> \<not> (\<exists>v. range_builtin [9223372036854775806, 9223372036854775807, 5] = Inr v)"
proof
  have "range_counts 1 8 3 3"
    by (auto simp: range_counts_def range_item_def before_stop_def in_i64_def)
  moreover have "range_items 1 3 3 = [VInt 1, VInt 4, VInt 7]"
    by (simp add: range_items_def range_item_def upt_rec i64_of_def)
  ultimately have "\<exists>m\<le>100000. range_counts 1 8 3 m \<and> VList [VInt 1, VInt 4, VInt 7] = VList (range_items 1 3 m)"
    by (intro exI [of _ "3 :: nat"] conjI) simp_all
  moreover have "(3 :: i64) \<noteq> 0" by simp
  ultimately show "range_builtin [1, 8, 3] = Inr (VList [VInt 1, VInt 4, VInt 7])"
    using range_is_progression [of 3 1 8 "VList [VInt 1, VInt 4, VInt 7]"] by blast
  have "\<not> range_counts 9223372036854775806 9223372036854775807 5 m" for m
  proof (cases m)
    case (Suc k)
    then have "\<not> in_i64 (range_item 9223372036854775806 5 m)" by (simp add: range_item_def in_i64_def)
    then show ?thesis by (auto simp: range_counts_def)
  qed (simp add: range_counts_def range_item_def before_stop_def)
  then show "\<not> (\<exists>v. range_builtin [9223372036854775806, 9223372036854775807, 5] = Inr v)"
    using range_is_progression [of 5 9223372036854775806 9223372036854775807] by simp
qed

section \<open>Sums\<close>

definition prefix_sums_fit :: "int \<Rightarrow> i64 list \<Rightarrow> bool" where
  "prefix_sums_fit t xs \<longleftrightarrow> (\<forall>k\<le>length xs. in_i64 (t + sum_list (List.map sint (take k xs))))"

lemma prefix_sums_fit_Cons:
  "in_i64 t \<Longrightarrow> prefix_sums_fit t (x # xs) \<longleftrightarrow> in_i64 (t + sint x) \<and> prefix_sums_fit (t + sint x) xs"
proof -
  assume t: "in_i64 t"
  have le: "(\<forall>k\<le>Suc m. P k) \<longleftrightarrow> P 0 \<and> (\<forall>k\<le>m. P (Suc k))" for m and P :: "nat \<Rightarrow> bool"
    using All_less_Suc2 [of "Suc m" P] by (simp add: less_Suc_eq_le)
  show ?thesis using t
    by (auto simp: prefix_sums_fit_def le add.assoc dest: spec [of _ 0])
qed

lemma sum_ints:
  "fold_ok sum_step (List.map VInt xs) (t, f64_zero, False) =
    (if prefix_sums_fit (sint t) xs then Inr (i64_of (sint t + sum_list (List.map sint xs)), f64_zero, False)
     else Inl (stone_error ''sum'' ''integer sum overflow'' []))"
proof (induction xs arbitrary: t)
  case Nil
  then show ?case by (simp add: prefix_sums_fit_def)
next
  case (Cons x xs)
  then show ?case
    by (cases "in_i64 (sint t + sint x)")
       (simp_all add: sum_step_def value_to_sum_number_def checked_add_def i64_checked_def ok_or_def
          prefix_sums_fit_Cons add.assoc)
qed

text \<open>the sum of integers is exact when every prefix sum is a 64-bit integer, and an overflow error
  otherwise, even when later items would bring the sum back into the range.\<close>

theorem sum_of_integers:
  "sum_builtin (List.map VInt xs) =
    (if prefix_sums_fit 0 xs then Inr (VInt (i64_of (sum_list (List.map sint xs))))
     else Inl (stone_error ''sum'' ''integer sum overflow'' []))"
  using sum_ints [of xs 0] by (simp add: sum_builtin_def)

end
