(* ===== verification/State_Correct.thy ===== *)
theory State_Correct
  imports Eval_Stmt
begin

text \<open>Scopes and loops of the evaluator: the scope stack never gets empty, a popped scope leaves no trace,
  the scope of an exception handler is merged, and a loop that does not end is stopped.\<close>

section \<open>The scope stack\<close>

definition has_scope :: "eval_state \<Rightarrow> bool" where
  "has_scope st \<longleftrightarrow> es_scopes st \<noteq> []"

lemma update_first_length [simp]: "length (update_first x v ss) = length ss"
  by (induction ss) auto

lemma remove_first_length [simp]: "length (remove_first x ss) = length ss"
  by (induction ss) auto

lemma scope_lengths:
  "has_scope st \<Longrightarrow> length (es_scopes (set_local x v st)) = length (es_scopes st)"
  "length (es_scopes (write_local_mut x v st)) = length (es_scopes st)"
  "length (es_scopes (remove_local x st)) = length (es_scopes st)"
  "length (es_scopes (push_scope st)) = Suc (length (es_scopes st))"
  by (simp_all add: has_scope_def set_local_def rooted_def write_local_mut_def remove_local_def push_scope_def Let_def)

text \<open>C32: the scope stack keeps its root: writing, mutating and removing a local do not change the number
  of scopes, pushing adds exactly one, empty, scope on top of those that are there, and popping, with or without
  merging, removes exactly one and fails exactly on the last.\<close>

theorem scope_stack_keeps_root:
  assumes "has_scope st"
  shows "length (es_scopes (set_local x v st)) = length (es_scopes st)
    \<and> length (es_scopes (write_local_mut x v st)) = length (es_scopes st)
    \<and> length (es_scopes (remove_local x st)) = length (es_scopes st)
    \<and> es_scopes (push_scope st) = es_scopes st @ [Map.empty]
    \<and> (case pop_scope st of Inl _ \<Rightarrow> length (es_scopes st) = 1
         | Inr st' \<Rightarrow> has_scope st' \<and> length (es_scopes st) = Suc (length (es_scopes st')))
    \<and> (case pop_scope_merging_nu_locals exclude st of Inl _ \<Rightarrow> length (es_scopes st) = 1
         | Inr st' \<Rightarrow> has_scope st' \<and> length (es_scopes st) = Suc (length (es_scopes st')))"
proof -
  have ne: "es_scopes st \<noteq> []" using assms by (simp add: has_scope_def)
  have "butlast (es_scopes st) = [] \<longleftrightarrow> length (es_scopes st) = 1"
    using ne by (cases "es_scopes st" rule: rev_cases) auto
  then show ?thesis
    using ne scope_lengths(1) [OF assms] scope_lengths(2,3)
    by (cases "es_scopes st" rule: rev_cases)
       (auto simp: has_scope_def push_scope_def pop_scope_def pop_scope_merging_nu_locals_def Let_def)
qed

theorem scope_stack_keeps_root_witness:
  "case pop_scope \<lparr> es_scopes = [Map.empty], es_functions = Map.empty, es_next_callable = 0,
     es_hot_enabled = True, es_session_names = [], es_diagnostics = empty_diagnostics \<rparr> of
     Inl _ \<Rightarrow> True | Inr _ \<Rightarrow> False"
proof -
  let ?st = "\<lparr> es_scopes = [Map.empty], es_functions = Map.empty, es_next_callable = 0,
     es_hot_enabled = True, es_session_names = [], es_diagnostics = empty_diagnostics \<rparr>"
  have "has_scope ?st" by (simp add: has_scope_def)
  from scope_stack_keeps_root [OF this] show ?thesis by (auto simp: has_scope_def split: sum.splits)
qed

section \<open>Leaving a scope\<close>

lemma set_local_pushed:
  "es_scopes (set_local x v (push_scope st)) = es_scopes st @ [[x \<mapsto> v]]"
  by (simp add: set_local_def push_scope_def rooted_def)

lemma get_local_snoc:
  "get_local x (st\<lparr> es_scopes := ss @ [s] \<rparr>)
    = (case s x of Some v \<Rightarrow> Some v | None \<Rightarrow> get_local x (st\<lparr> es_scopes := ss \<rparr>))"
  by (cases "s x") (simp_all add: get_local_def)

primrec bind_all :: "(string \<times> rvalue) list \<Rightarrow> eval_state \<Rightarrow> eval_state" where
  "bind_all [] st = st"
| "bind_all (b # bs) st = bind_all bs (set_local (fst b) (snd b) st)"

lemma bind_all_top:
  "es_scopes st = ss @ [s] \<Longrightarrow> \<exists>s'. bind_all bs st = st\<lparr> es_scopes := ss @ [s'] \<rparr>"
proof (induction bs arbitrary: st s)
  case (Cons b bs)
  have "set_local (fst b) (snd b) st = st\<lparr> es_scopes := ss @ [s(fst b \<mapsto> snd b)] \<rparr>"
    using Cons.prems by (simp add: set_local_def rooted_def)
  with Cons.IH [of "set_local (fst b) (snd b) st"] show ?case by simp
qed (metis bind_all.simps(1) eval_state.surjective eval_state.update_convs(1))

text \<open>what is bound in a pushed scope is gone when the scope is popped: the state is exactly the one
  before the push.\<close>

theorem popped_scope_leaves_no_trace:
  assumes "has_scope st"
  shows "pop_scope (bind_all bs (push_scope st)) = Inr st"
proof -
  obtain s where "bind_all bs (push_scope st) = (push_scope st)\<lparr> es_scopes := es_scopes st @ [s] \<rparr>"
    using bind_all_top [of "push_scope st" "es_scopes st" Map.empty bs] by (auto simp: push_scope_def)
  with assms show ?thesis by (simp add: pop_scope_def push_scope_def has_scope_def Suc_le_eq)
qed

theorem popped_scope_leaves_no_trace_witness:
  "\<forall>d. pop_scope (bind_all [(''x'', RNu (VInt 1)), (''x'', RNu VNothing)] (push_scope
     \<lparr> es_scopes = [[''x'' \<mapsto> RNu (VInt 7)]], es_functions = Map.empty, es_next_callable = 0,
       es_hot_enabled = True, es_session_names = [], es_diagnostics = d \<rparr>))
   = Inr \<lparr> es_scopes = [[''x'' \<mapsto> RNu (VInt 7)]], es_functions = Map.empty, es_next_callable = 0,
       es_hot_enabled = True, es_session_names = [], es_diagnostics = d \<rparr>"
  by (intro allI popped_scope_leaves_no_trace) (simp add: has_scope_def)

text \<open>leaving the scope of an exception handler keeps exactly its plain values: a name has the value the
  handler gave it when that is a plain value and not the name of the exception, and otherwise the value
  it had outside.\<close>

theorem handler_scope_is_merged:
  assumes "es_scopes st = ss @ [parent, child]"
  shows "\<exists>st'. pop_scope_merging_nu_locals exclude st = Inr st' \<and> (\<forall>x. get_local x st' =
    (case child x of
       Some v \<Rightarrow> if is_nu v \<and> exclude \<noteq> Some x then Some v
                 else get_local x (st\<lparr> es_scopes := ss @ [parent] \<rparr>)
     | None \<Rightarrow> get_local x (st\<lparr> es_scopes := ss @ [parent] \<rparr>)))"
  using assms
  by (auto simp: pop_scope_merging_nu_locals_def Let_def butlast_append get_local_snoc merge_nu_def
      split: option.splits)

theorem handler_scope_is_merged_witness:
  "\<exists>st'. pop_scope_merging_nu_locals (Some ''err'') \<lparr> es_scopes = [[''err'' \<mapsto> RNu (VInt 0)],
       [''err'' \<mapsto> RNu (VInt 1), ''y'' \<mapsto> RNu (VInt 2)]], es_functions = Map.empty, es_next_callable = 0,
       es_hot_enabled = True, es_session_names = [], es_diagnostics = empty_diagnostics \<rparr> = Inr st'
     \<and> get_local ''err'' st' = Some (RNu (VInt 0)) \<and> get_local ''y'' st' = Some (RNu (VInt 2))"
proof -
  let ?st = "\<lparr> es_scopes = [[''err'' \<mapsto> RNu (VInt 0)],
       [''err'' \<mapsto> RNu (VInt 1), ''y'' \<mapsto> RNu (VInt 2)]], es_functions = Map.empty, es_next_callable = 0,
       es_hot_enabled = True, es_session_names = [], es_diagnostics = empty_diagnostics \<rparr>"
  have "es_scopes ?st = [] @ [[''err'' \<mapsto> RNu (VInt 0)], [''err'' \<mapsto> RNu (VInt 1), ''y'' \<mapsto> RNu (VInt 2)]]"
    by simp
  from handler_scope_is_merged [OF this, of "Some ''err''"] show ?thesis
    by (auto simp: get_local_def is_nu_def)
qed

section \<open>Loops that do not end\<close>

lemma eval_while_exhausts:
  assumes "\<And>st. I st \<Longrightarrow> \<exists>st'. condition st = (Inr True, st') \<and> J st'"
    and "\<And>st. J st \<Longrightarrow> \<exists>fl st'. body st = (Inr fl, st') \<and> I st' \<and> (fl = FContinue \<or> (\<exists>p. fl = FOutput p))"
  shows "I st \<Longrightarrow> \<exists>st'. I st' \<and> eval_while fuel condition body out st
    = (Inl (stone_error ''while'' ''while loop exceeded 1000000 iterations'' []), st')"
proof (induction "nat fuel" arbitrary: fuel out st)
  case 0
  then show ?case by (auto simp: eval_while.simps [of fuel])
next
  case (Suc n)
  obtain st1 where 1: "condition st = (Inr True, st1)" "J st1" using assms(1) Suc.prems by blast
  obtain fl st2 where 2: "body st1 = (Inr fl, st2)" "I st2" "fl = FContinue \<or> (\<exists>p. fl = FOutput p)"
    using assms(2) 1(2) by blast
  have fuel: "n = nat (fuel - 1)" "\<not> fuel \<le> 0" using Suc.hyps(2) by auto
  from Suc.hyps(1) [OF fuel(1) 2(2)] fuel(2) 1(1) 2(1,3) show ?case
    by (auto simp: eval_while.simps [of fuel] ev_then_def)
qed

text \<open>C33: a \<open>while\<close> loop that would not end by itself is stopped. If in every state of a set the condition is true and
  leads into a second set, and from every state of the second set the body goes on (normally or by \<open>continue\<close>) and leads
  back into the first, the loop that starts in the first set is stopped by the iteration limit with an error, in a state
  of the first set.\<close>

theorem endless_while_is_stopped:
  assumes "\<And>st. I st \<Longrightarrow> \<exists>st'. truthy_ev rt ''while'' (eval_expr rt PEmpty condition) st = (Inr True, st') \<and> J st'"
    and "\<And>st. J st \<Longrightarrow> \<exists>fl st'. eval_block rt PEmpty False PEmpty body st = (Inr fl, st') \<and> I st'
      \<and> (fl = FContinue \<or> (\<exists>p. fl = FOutput p))"
    and "I st"
  shows "\<exists>st'. I st' \<and> eval_stmt rt inp rs (SWhile condition body) st
    = (Inl (stone_error ''while'' ''while loop exceeded 1000000 iterations'' []), st')"
  using eval_while_exhausts [OF assms(1,2,3)] by simp

text \<open>The loop \<open>while x: pass\<close> where \<open>x\<close> is bound to a true value.\<close>

definition true_state :: eval_state where
  "true_state = \<lparr> es_scopes = [[''x'' \<mapsto> RNu (VBool True)]], es_functions = Map.empty, es_next_callable = 0,
     es_hot_enabled = True, es_session_names = [], es_diagnostics = empty_diagnostics \<rparr>"

theorem endless_while_is_stopped_witness:
  "\<forall>rt. fst (eval_stmt rt PEmpty False (SWhile (EName ''x'') [SPass]) true_state)
    = Inl (stone_error ''while'' ''while loop exceeded 1000000 iterations'' [])"
proof
  fix rt
  let ?I = "\<lambda>st. get_local ''x'' st = Some (RNu (VBool True))"
  have "?I true_state" by code_simp
  from endless_while_is_stopped [where I = ?I and J = ?I, OF _ _ this, of rt "EName ''x''" "[SPass]" PEmpty False]
  show "fst (eval_stmt rt PEmpty False (SWhile (EName ''x'') [SPass]) true_state)
      = Inl (stone_error ''while'' ''while loop exceeded 1000000 iterations'' [])"
    by (fastforce simp: truthy_ev_def eval_expr.simps eval_name_def to_nu_def ev_then_def value_truthy_def)
qed

end
