(* ===== verification/Json_Scan_Correct.thy ===== *)
theory Json_Scan_Correct
  imports Json_Scan
begin

text \<open>The scanner of JSON lines against the grammar of JSON: on the text of an object the search for a
  field finds the first field with the key and delimits exactly its value; on any bytes every range
  lies inside the bytes; the rows of a file are its trimmed non-blank lines.\<close>

section \<open>The grammar of JSON texts\<close>

definition ws :: "string \<Rightarrow> bool" where
  "ws w \<longleftrightarrow> list_all is_ascii_whitespace w"

fun string_body :: "string \<Rightarrow> bool" where
  "string_body [] \<longleftrightarrow> True"
| "string_body (c # cs) \<longleftrightarrow>
     (if c = CHR 0x5C then (case cs of [] \<Rightarrow> False | _ # ds \<Rightarrow> string_body ds)
      else c \<noteq> CHR 0x22 \<and> string_body cs)"

definition quoted :: "string \<Rightarrow> string" where
  "quoted b = CHR 0x22 # b @ [CHR 0x22]"

definition plain_char :: "char \<Rightarrow> bool" where
  "plain_char c \<longleftrightarrow> c \<noteq> CHR 0x22 \<and> c \<noteq> CHR ''{'' \<and> c \<noteq> CHR ''['' \<and> c \<noteq> CHR ''}'' \<and> c \<noteq> CHR '']''
     \<and> c \<noteq> CHR '','' \<and> c \<noteq> CHR '':'' \<and> \<not> is_ascii_whitespace c"

text \<open>A text with its white space: the literals and numbers are the words without special characters,
  and a list of fields is kept with the keys and the values as they are written.\<close>

inductive value_text :: "string \<Rightarrow> bool"
  and elements_text :: "string list \<Rightarrow> string \<Rightarrow> bool"
  and members_text :: "(string \<times> string) list \<Rightarrow> string \<Rightarrow> bool" where
  word: "s \<noteq> [] \<Longrightarrow> list_all plain_char s \<Longrightarrow> value_text s"
| str: "string_body b \<Longrightarrow> value_text (quoted b)"
| empty_array: "ws w \<Longrightarrow> value_text (CHR ''['' # w @ [CHR '']''])"
| array: "elements_text vs e \<Longrightarrow> value_text (CHR ''['' # e @ [CHR '']''])"
| empty_object: "ws w \<Longrightarrow> value_text (CHR ''{'' # w @ [CHR ''}''])"
| object: "members_text fs m \<Longrightarrow> value_text (CHR ''{'' # m @ [CHR ''}''])"
| element: "ws w1 \<Longrightarrow> value_text v \<Longrightarrow> ws w2 \<Longrightarrow> elements_text [v] (w1 @ v @ w2)"
| elements: "ws w1 \<Longrightarrow> value_text v \<Longrightarrow> ws w2 \<Longrightarrow> elements_text vs e
    \<Longrightarrow> elements_text (v # vs) (w1 @ v @ w2 @ CHR '','' # e)"
| member: "ws w1 \<Longrightarrow> string_body k \<Longrightarrow> ws w2 \<Longrightarrow> ws w3 \<Longrightarrow> value_text v \<Longrightarrow> ws w4
    \<Longrightarrow> members_text [(k, v)] (w1 @ quoted k @ w2 @ CHR '':'' # w3 @ v @ w4)"
| members: "ws w1 \<Longrightarrow> string_body k \<Longrightarrow> ws w2 \<Longrightarrow> ws w3 \<Longrightarrow> value_text v \<Longrightarrow> ws w4
    \<Longrightarrow> members_text fs m
    \<Longrightarrow> members_text ((k, v) # fs) (w1 @ quoted k @ w2 @ CHR '':'' # w3 @ v @ w4 @ CHR '','' # m)"

section \<open>Indices into a text\<close>

lemma vec_get_here [simp]: "vec_get (pre @ c # post) (length pre) = Some c"
  by (simp add: vec_get_append)

lemma range_of_middle [simp]: "range_of (pre @ x @ post) (length pre, length pre + length x) = x"
  by (simp add: range_of_def)

lemma skip_ws:
  assumes "ws w" and "post = [] \<or> \<not> is_ascii_whitespace (hd post)"
  shows "skip_json_ws (pre @ w @ post) (length pre) = length pre + length w"
  using assms(1)
proof (induction w arbitrary: pre)
  case Nil
  show ?case using assms(2)
    by (subst skip_json_ws.simps) (cases post; simp add: vec_get_def nth_append)
next
  case (Cons c w)
  then show ?case using Cons.IH [of "pre @ [c]"]
    by (subst skip_json_ws.simps) (simp add: ws_def)
qed

lemma string_end:
  "string_body b \<Longrightarrow> string_end_loop (pre @ b @ CHR 0x22 # post) (length pre) = Inr (length pre + length b)"
proof (induction b arbitrary: pre rule: string_body.induct)
  case 1
  show ?case by (subst string_end_loop.simps) simp
next
  case (2 c cs)
  show ?case
  proof (cases "c = CHR 0x5C")
    case True
    with "2.prems" obtain d ds where cs: "cs = d # ds" by (cases cs) auto
    with True "2.prems" "2.IH"(1) [OF True cs, of "pre @ [c, d]"] show ?thesis
      by (subst string_end_loop.simps) simp
  next
    case False
    with "2.prems" "2.IH"(2) [OF False, of "pre @ [c]"] show ?thesis
      by (subst string_end_loop.simps) simp
  qed
qed

section \<open>The end of a value\<close>

definition skips :: "nat \<Rightarrow> string \<Rightarrow> bool" where
  "skips d s \<longleftrightarrow> (\<forall>pre post. value_end_loop (pre @ s @ post) (length pre) d
     = value_end_loop (pre @ s @ post) (length pre + length s) d)"

lemma skipsD: "skips d s \<Longrightarrow> value_end_loop (pre @ s @ post) (length pre) d
     = value_end_loop (pre @ s @ post) (length pre + length s) d"
  by (simp add: skips_def)

lemma skips_append [intro]:
  assumes "skips d a" and "skips d b"
  shows "skips d (a @ b)"
  unfolding skips_def
proof (intro allI)
  fix pre post
  show "value_end_loop (pre @ (a @ b) @ post) (length pre) d
    = value_end_loop (pre @ (a @ b) @ post) (length pre + length (a @ b)) d"
    using skipsD [OF assms(1), of pre "b @ post"] skipsD [OF assms(2), of "pre @ a" post]
    by (simp add: add.assoc)
qed

lemma skips_Nil [simp]: "skips d []"
  by (simp add: skips_def)

lemma ws_not_special:
  "is_ascii_whitespace c \<Longrightarrow> c \<noteq> CHR 0x22 \<and> c \<noteq> CHR ''{'' \<and> c \<noteq> CHR ''['' \<and> c \<noteq> CHR ''}'' \<and> c \<noteq> CHR '']''
     \<and> c \<noteq> CHR '','' \<and> c \<noteq> CHR '':''"
  by (auto simp: is_ascii_whitespace_def byte_def)

lemma skips_char:
  assumes "plain_char c \<or> is_ascii_whitespace c \<or> c = CHR '':'' \<or> c = CHR '','' \<and> 0 < d"
  shows "skips d [c]"
proof -
  have "c \<noteq> CHR 0x22 \<and> c \<noteq> CHR ''{'' \<and> c \<noteq> CHR ''['' \<and> c \<noteq> CHR ''}'' \<and> c \<noteq> CHR '']''
      \<and> (c = CHR '','' \<longrightarrow> 0 < d)"
    using assms ws_not_special [of c] by (auto simp: plain_char_def)
  then have "value_end_loop (pre @ [c] @ post) (length pre) d
      = value_end_loop (pre @ [c] @ post) (length pre + length [c]) d" for pre post
    by (subst value_end_loop.simps) auto
  then show ?thesis by (simp add: skips_def)
qed

lemma skips_chars: "list_all (\<lambda>c. plain_char c \<or> is_ascii_whitespace c) s \<Longrightarrow> skips d s"
proof (induction s)
  case (Cons c s)
  then have "skips d ([c] @ s)" by (intro skips_append skips_char) auto
  then show ?case by simp
qed simp

lemma skips_ws: "ws w \<Longrightarrow> skips d w"
  by (rule skips_chars) (auto simp: ws_def list_all_iff)

lemma skips_quoted:
  assumes "string_body b"
  shows "skips d (quoted b)"
  unfolding skips_def
proof (intro allI)
  fix pre post
  show "value_end_loop (pre @ quoted b @ post) (length pre) d
    = value_end_loop (pre @ quoted b @ post) (length pre + length (quoted b)) d"
    using string_end [OF assms, of "pre @ [CHR 0x22]" post]
    by (subst value_end_loop.simps) (simp add: quoted_def json_string_end_def)
qed

lemma skips_bracket:
  assumes "skips (Suc d) s" and "opn = CHR ''{'' \<or> opn = CHR ''[''" and "cls = CHR ''}'' \<or> cls = CHR '']''"
  shows "skips d (opn # s @ [cls])"
  unfolding skips_def
proof (intro allI)
  fix pre post
  have "value_end_loop (pre @ (opn # s @ [cls]) @ post) (length pre) d
      = value_end_loop (pre @ (opn # s @ [cls]) @ post) (Suc (length pre)) (Suc d)"
    using assms(2) by (subst value_end_loop.simps) auto
  also have "\<dots> = value_end_loop (pre @ (opn # s @ [cls]) @ post) (Suc (length pre) + length s) (Suc d)"
    using skipsD [OF assms(1), of "pre @ [opn]" "cls # post"] by simp
  also have "\<dots> = value_end_loop (pre @ (opn # s @ [cls]) @ post) (length pre + length (opn # s @ [cls])) d"
    using assms(3) vec_get_here [of "pre @ opn # s" cls post]
    by (subst value_end_loop.simps) auto
  finally show "value_end_loop (pre @ (opn # s @ [cls]) @ post) (length pre) d
    = value_end_loop (pre @ (opn # s @ [cls]) @ post) (length pre + length (opn # s @ [cls])) d" .
qed

lemma skips_texts:
  "value_text v \<Longrightarrow> skips d v"
  "elements_text vs e \<Longrightarrow> skips (Suc d) e"
  "members_text fs m \<Longrightarrow> skips (Suc d) m"
proof (induction arbitrary: d and d and d rule: value_text_elements_text_members_text.inducts)
  case (word s)
  then show ?case by (intro skips_chars) (auto simp: list_all_iff)
next
  case (elements w1 v w2 vs e)
  then have "skips (Suc d) (w1 @ v @ w2 @ [CHR '',''] @ e)"
    by (intro skips_append skips_char) (auto intro: skips_ws)
  then show ?case by simp
next
  case (member w1 k w2 w3 v w4)
  then have "skips (Suc d) (w1 @ quoted k @ w2 @ [CHR '':''] @ w3 @ v @ w4)"
    by (intro skips_append skips_char) (auto intro: skips_ws skips_quoted)
  then show ?case by simp
next
  case (members w1 k w2 w3 v w4 fs m)
  then have "skips (Suc d) (w1 @ quoted k @ w2 @ [CHR '':''] @ w3 @ v @ w4 @ [CHR '',''] @ m)"
    by (intro skips_append skips_char) (auto intro: skips_ws skips_quoted)
  then show ?case by simp
qed (auto intro!: skips_quoted skips_bracket skips_append intro: skips_ws)

lemma not_ws_special [simp]:
  "\<not> is_ascii_whitespace (CHR 0x22)" "\<not> is_ascii_whitespace (CHR ''['')" "\<not> is_ascii_whitespace (CHR '']'')"
  "\<not> is_ascii_whitespace (CHR ''{'')" "\<not> is_ascii_whitespace (CHR ''}'')" "\<not> is_ascii_whitespace (CHR '':'')"
  "\<not> is_ascii_whitespace (CHR '','')"
  by (simp_all add: is_ascii_whitespace_def byte_def)

lemma plain_char_not_ws: "plain_char c \<Longrightarrow> \<not> is_ascii_whitespace c"
  by (simp add: plain_char_def)

lemma value_text_hd:
  assumes "value_text v"
  shows "v \<noteq> [] \<and> \<not> is_ascii_whitespace (hd v) \<and> \<not> is_ascii_whitespace (last v)"
  using assms
proof cases
  case word
  then show ?thesis
    using plain_char_not_ws [of "hd v"] plain_char_not_ws [of "last v"] by (simp add: list_all_iff)
qed (simp_all add: quoted_def)

lemma value_end_here:
  assumes "value_text v" and "ws w" and "c = CHR '','' \<or> c = CHR ''}'' \<or> c = CHR '']''"
  shows "json_value_end (pre @ v @ w @ c # post) (length pre) = Inr (length pre + length v + length w)"
proof -
  have "value_end_loop (pre @ v @ w @ c # post) (length pre) 0
      = value_end_loop (pre @ v @ w @ c # post) (length pre + length (v @ w)) 0"
    using skipsD [OF skips_append [OF skips_texts(1) [OF assms(1)] skips_ws [OF assms(2)]], of pre "c # post" 0]
    by simp
  also have "\<dots> = Inr (length pre + length (v @ w))"
    using assms(3) vec_get_here [of "pre @ v @ w" c post]
    by (subst value_end_loop.simps) auto
  finally show ?thesis by (simp add: json_value_end_def add.assoc)
qed

lemma trim_value:
  assumes "value_text v" and "ws w"
  shows "trim_json_bytes (v @ w) = v"
proof -
  have "dropWhile is_ascii_whitespace (v @ w) = v @ w"
    using value_text_hd [OF assms(1)] by (cases v) auto
  moreover have "dropWhile is_ascii_whitespace (rev w @ rev v) = rev v"
    using assms(2) value_text_hd [OF assms(1)]
    by (cases v rule: rev_cases) (auto simp: ws_def list_all_iff dropWhile_append)
  ultimately show ?thesis by (simp add: trim_json_bytes_def)
qed

section \<open>One field\<close>

definition member_text :: "string \<Rightarrow> string \<Rightarrow> string \<Rightarrow> string \<Rightarrow> string \<Rightarrow> string \<Rightarrow> string" where
  "member_text w1 k w2 w3 v w4 = w1 @ quoted k @ w2 @ CHR '':'' # w3 @ v @ w4"

lemma field_at:
  fixes pre post :: string
  assumes "ws w1" "string_body k" "ws w2" "ws w3" "value_text v" "ws w4"
    and c: "c = CHR '','' \<or> c = CHR ''}''"
  defines "s \<equiv> pre @ member_text w1 k w2 w3 v w4 @ c # post"
  shows "\<exists>kr vr. json_field_at s (length pre) = Inr (Some (kr, vr))
    \<and> range_of s kr = k \<and> range_of s vr = v @ w4 \<and> snd vr = length pre + length (member_text w1 k w2 w3 v w4)"
proof -
  let ?i = "length (pre @ w1)" let ?k = "length (pre @ w1 @ CHR 0x22 # k)"
  let ?c = "length (pre @ w1 @ quoted k @ w2)" let ?v = "length (pre @ w1 @ quoted k @ w2 @ CHR '':'' # w3)"
  note s = s_def member_text_def quoted_def
  have i: "skip_json_ws s (length pre) = ?i"
    using skip_ws [of w1 "quoted k @ w2 @ CHR '':'' # w3 @ v @ w4 @ c # post" pre] assms(1)
    by (simp add: s is_ascii_whitespace_def byte_def)
  have quote: "vec_get s ?i = Some (CHR 0x22)"
    using vec_get_here [of "pre @ w1" "CHR 0x22"] by (simp add: s)
  have k: "json_string_end s ?i = Inr ?k"
    using string_end [OF assms(2), of "pre @ w1 @ [CHR 0x22]" "w2 @ CHR '':'' # w3 @ v @ w4 @ c # post"]
    by (simp add: s json_string_end_def)
  have colon: "skip_json_ws s (?k + 1) = ?c"
    using skip_ws [of w2 "CHR '':'' # w3 @ v @ w4 @ c # post" "pre @ w1 @ quoted k"] assms(3)
    by (simp add: s is_ascii_whitespace_def byte_def)
  have c': "vec_get s ?c = Some (CHR '':'')"
    using vec_get_here [of "pre @ w1 @ quoted k @ w2" "CHR '':''"] by (simp add: s)
  have start: "skip_json_ws s (?c + 1) = ?v"
    using skip_ws [of w3 "v @ w4 @ c # post" "pre @ w1 @ quoted k @ w2 @ [CHR '':'']"] assms(4)
      value_text_hd [OF assms(5)]
    by (simp add: s)
  have stop: "json_value_end s ?v = Inr (?v + length v + length w4)"
    using value_end_here [OF assms(5,6), of c "pre @ w1 @ quoted k @ w2 @ CHR '':'' # w3" post] c
    by (auto simp: s)
  have "json_field_at s (length pre) = Inr (Some ((?i + 1, ?k), (?v, ?v + length v + length w4)))"
    using i quote k colon c' start stop by (simp add: json_field_at_def Let_def)
  moreover have "range_of s (?i + 1, ?k) = k"
    using range_of_middle [of "pre @ w1 @ [CHR 0x22]" k] by (simp add: s add.assoc)
  moreover have "range_of s (?v, ?v + length v + length w4) = v @ w4"
    using range_of_middle [of "pre @ w1 @ quoted k @ w2 @ CHR '':'' # w3" "v @ w4"] by (simp add: s add.assoc)
  ultimately show ?thesis by (auto simp: member_text_def quoted_def)
qed

section \<open>The search for a field\<close>

definition key_text_matches :: "serde \<Rightarrow> string \<Rightarrow> string \<Rightarrow> bool" where
  "key_text_matches sj raw key \<longleftrightarrow>
     (if CHR 0x5C \<notin> set raw then raw = key else sj_string sj (quoted raw) = Inr key)"

lemma json_key_matches_text: "json_key_matches sj s r key = key_text_matches sj (range_of s r) key"
  by (simp add: json_key_matches_def key_text_matches_def quoted_def Let_def)

text \<open>The first field with the key.\<close>

definition first_field :: "serde \<Rightarrow> string \<Rightarrow> (string \<times> string) list \<Rightarrow> string option" where
  "first_field sj key fs = map_option snd (List.find (\<lambda>f. key_text_matches sj (fst f) key) fs)"

lemma first_field_simps [simp]:
  "first_field sj key [] = None"
  "first_field sj key ((k, v) # fs) = (if key_text_matches sj k key then Some v else first_field sj key fs)"
  by (simp_all add: first_field_def)

definition finds :: "string \<Rightarrow> (nat \<times> nat) option res \<Rightarrow> string option \<Rightarrow> bool" where
  "finds s r found \<longleftrightarrow> (case found of None \<Rightarrow> r = Inr None
     | Some v \<Rightarrow> (\<exists>a. r = Inr (Some a) \<and> trim_json_bytes (range_of s a) = v))"

lemma field_next:
  "json_field_next (pre @ CHR '','' # post) (length pre) = Inr (Some (Suc (length pre)))"
  "json_field_next (pre @ CHR ''}'' # post) (length pre) = Inr None"
  using skip_ws [of "[]" "CHR '','' # post" pre] skip_ws [of "[]" "CHR ''}'' # post" pre]
  by (simp_all add: json_field_next_def ws_def Let_def)

lemma find_field_step:
  assumes "ws w1" "string_body k" "ws w2" "ws w3" "value_text v" "ws w4" and c: "c = CHR '','' \<or> c = CHR ''}''"
    and s: "s = pre @ member_text w1 k w2 w3 v w4 @ c # post"
  shows "if key_text_matches sj k key then finds s (find_field_loop sj s key (length pre)) (Some v)
    else find_field_loop sj s key (length pre)
      = (if c = CHR '','' then find_field_loop sj s key (length (pre @ member_text w1 k w2 w3 v w4 @ [c]))
         else Inr None)"
proof -
  from field_at [OF assms(1-6) c, of pre post] obtain kr vr where
    at: "json_field_at s (length pre) = Inr (Some (kr, vr))" and k: "range_of s kr = k"
    and v: "range_of s vr = v @ w4" and e: "snd vr = length (pre @ member_text w1 k w2 w3 v w4)"
    unfolding s by auto
  have nxt: "json_field_next s (snd vr)
      = Inr (if c = CHR '','' then Some (length (pre @ member_text w1 k w2 w3 v w4 @ [c])) else None)"
    using c field_next [of "pre @ member_text w1 k w2 w3 v w4" post] unfolding e s by auto
  show ?thesis
    using trim_value [OF assms(5,6)]
    unfolding find_field_loop.simps [of sj s key "length pre"]
    by (simp add: at nxt json_key_matches_text k v finds_def)
qed

lemma find_field_members:
  assumes "members_text fs m"
  shows "finds (pre @ m @ CHR ''}'' # post)
    (find_field_loop sj (pre @ m @ CHR ''}'' # post) key (length pre)) (first_field sj key fs)"
  using assms
proof (induction fs m arbitrary: pre rule: value_text_elements_text_members_text.inducts(3)
    [where ?P1.0 = "\<lambda>_. True" and ?P2.0 = "\<lambda>_ _. True"])
  case (member w1 k w2 w3 v w4)
  then show ?case
    using find_field_step [of w1 k w2 w3 v w4 "CHR ''}''" _ pre post sj key]
    by (auto simp: finds_def member_text_def split: if_splits)
next
  case (members w1 k w2 w3 v w4 fs m)
  let ?pre = "pre @ member_text w1 k w2 w3 v w4 @ [CHR '','']"
  have s: "pre @ (w1 @ quoted k @ w2 @ CHR '':'' # w3 @ v @ w4 @ CHR '','' # m) @ CHR ''}'' # post
      = pre @ member_text w1 k w2 w3 v w4 @ CHR '','' # m @ CHR ''}'' # post"
    by (simp add: member_text_def)
  have "?pre @ m @ CHR ''}'' # post = pre @ member_text w1 k w2 w3 v w4 @ CHR '','' # m @ CHR ''}'' # post"
    by simp
  with members.IH [of ?pre] members.hyps show ?case
    using find_field_step [of w1 k w2 w3 v w4 "CHR '',''" _ pre "m @ CHR ''}'' # post" sj key]
    unfolding s by (auto split: if_splits)
qed simp_all

lemma object_start:
  assumes "ws w"
  shows "json_object_start (w @ CHR ''{'' # post) = Inr (Suc (length w))"
  using skip_ws [OF assms, of "CHR ''{'' # post" "[]"] vec_get_here [of w "CHR ''{''" post]
  by (simp add: json_object_start_def Let_def)

text \<open>C34: in the text of a JSON object, with any white space, the search for a key finds the first field
  with that key, nested values and escapes notwithstanding: the range it returns, trimmed, is exactly
  the text of the value; without such a field it finds nothing.\<close>

theorem field_search_finds_first_value:
  assumes "members_text fs m" and "ws w"
  shows "case first_field sj key fs of
      None \<Rightarrow> find_top_level_json_field sj (w @ CHR ''{'' # m @ CHR ''}'' # rest) key = Inr None
    | Some v \<Rightarrow> \<exists>r. find_top_level_json_field sj (w @ CHR ''{'' # m @ CHR ''}'' # rest) key = Inr (Some r)
        \<and> trim_json_bytes (range_of (w @ CHR ''{'' # m @ CHR ''}'' # rest) r) = v"
  using find_field_members [OF assms(1), of "w @ [CHR ''{'']" rest sj key] object_start [OF assms(2)]
  by (auto simp: find_top_level_json_field_def finds_def split: option.splits)

lemma sample_members:
  "members_text [(''a'', ''[1]''), (''b'', ''2'')]
     (quoted ''a'' @ CHR '':'' # ''[1]'' @ CHR '','' # quoted ''b'' @ CHR '':'' # ''2'')"
proof -
  have word: "value_text [c]" if "plain_char c" for c
    using that by (intro value_text_elements_text_members_text.word) auto
  have nil: "ws []" by (simp add: ws_def)
  have digits: "plain_char (CHR ''1'')" "plain_char (CHR ''2'')"
    by (simp_all add: plain_char_def is_ascii_whitespace_def byte_def)
  have "value_text (CHR ''['' # ([] @ ''1'' @ []) @ '']'')"
    by (intro value_text_elements_text_members_text.array [of "[''1'']"]
        value_text_elements_text_members_text.element word digits nil)
  moreover have "members_text [(''b'', ''2'')] ([] @ quoted ''b'' @ [] @ CHR '':'' # [] @ ''2'' @ [])"
    by (intro value_text_elements_text_members_text.member word digits nil) simp
  ultimately have "members_text [(''a'', ''[1]''), (''b'', ''2'')]
     ([] @ quoted ''a'' @ [] @ CHR '':'' # [] @ ''[1]'' @ [] @ CHR '','' # [] @ quoted ''b'' @ [] @ CHR '':'' # [] @ ''2'' @ [])"
    by (intro value_text_elements_text_members_text.members nil) simp_all
  then show ?thesis by simp
qed

theorem field_search_finds_first_value_witness:
  "\<exists>r. find_top_level_json_field \<lparr> sj_string = (\<lambda>_. Inl ''''), sj_value = (\<lambda>_. Inl '''') \<rparr>
      ('''' @ CHR ''{'' # (quoted ''a'' @ CHR '':'' # ''[1]'' @ CHR '','' # quoted ''b'' @ CHR '':'' # ''2'')
        @ CHR ''}'' # '''') ''b'' = Inr (Some r)
    \<and> trim_json_bytes (range_of ('''' @ CHR ''{'' # (quoted ''a'' @ CHR '':'' # ''[1]'' @ CHR '','' # quoted ''b''
        @ CHR '':'' # ''2'') @ CHR ''}'' # '''') r) = ''2''"
proof -
  let ?sj = "\<lparr> sj_string = (\<lambda>_. Inl ''''), sj_value = (\<lambda>_. Inl '''') \<rparr> :: serde"
  have "ws ''''" by (simp add: ws_def)
  moreover have "first_field ?sj ''b'' [(''a'', ''[1]''), (''b'', ''2'')] = Some ''2''"
    by (simp add: key_text_matches_def)
  ultimately show ?thesis
    using field_search_finds_first_value [OF sample_members, where sj = ?sj and key = "''b''" and rest = "''''" and w = "''''"] by simp
qed

section \<open>Ranges\<close>

lemma find_field_loop_bounds:
  "find_field_loop sj bytes key i = Inr (Some r) \<Longrightarrow> fst r \<le> snd r \<and> snd r \<le> length bytes"
proof (induction i rule: measure_induct_rule [where f = "\<lambda>i. length bytes - i"])
  case (less i)
  from less.prems obtain kr vr where at: "json_field_at bytes i = Inr (Some (kr, vr))"
    unfolding find_field_loop.simps [of sj bytes key i]
    by (auto simp: and_then_eq_Inr split: option.splits)
  with less.prems consider "vr = r"
    | j where "json_field_next bytes (snd vr) = Inr (Some j)" "find_field_loop sj bytes key j = Inr (Some r)"
    unfolding find_field_loop.simps [of sj bytes key i]
    by (auto simp: and_then_eq_Inr split: option.splits if_splits)
  then show ?case
  proof cases
    case 1
    then show ?thesis using json_field_at_bounds [OF at] by simp
  next
    case (2 j)
    then have "length bytes - j < length bytes - i"
      using json_field_at_bounds [OF at] json_field_next_bounds [OF 2(1)] by linarith
    with less.IH 2(2) show ?thesis by blast
  qed
qed

definition ordered_ranges :: "nat \<Rightarrow> (nat \<times> nat) list \<Rightarrow> bool" where
  "ordered_ranges n rs \<longleftrightarrow> sorted_wrt (\<lambda>r r'. snd r < fst r') rs \<and> list_all (\<lambda>r. fst r \<le> snd r \<and> snd r \<le> n) rs"

lemma element_ranges_bounds:
  "each_element_loop bytes (\<lambda>r rs. Inr (rs @ [r])) i rs = Inr rs' \<Longrightarrow> i \<le> length bytes
    \<Longrightarrow> ordered_ranges (length bytes) rs \<Longrightarrow> list_all (\<lambda>r. snd r < i) rs
    \<Longrightarrow> ordered_ranges (length bytes) rs'"
proof (induction i arbitrary: rs rule: measure_induct_rule [where f = "\<lambda>i. length bytes - i"])
  case (less i)
  from less.prems(1) consider "rs' = rs" | r where "json_element_at bytes i = Inr (Some r)" "rs' = rs @ [r]"
    | r j where "json_element_at bytes i = Inr (Some r)" "json_element_next bytes (snd r) = Inr (Some j)"
      "each_element_loop bytes (\<lambda>r rs. Inr (rs @ [r])) j (rs @ [r]) = Inr rs'"
    unfolding each_element_loop.simps [of bytes _ i]
    by (auto simp: and_then_eq_Inr split: option.splits)
  then show ?case
  proof cases
    case 1
    then show ?thesis using less.prems by simp
  next
    case (2 r)
    then show ?thesis using less.prems(2-) json_element_at_bounds [OF 2(1)]
      by (auto simp: ordered_ranges_def sorted_wrt_append list_all_iff)
  next
    case (3 r j)
    note b = json_element_at_bounds [OF 3(1)] json_element_next_bounds [OF 3(2)]
    have "ordered_ranges (length bytes) (rs @ [r])" "list_all (\<lambda>r. snd r < j) (rs @ [r])"
      using less.prems(2-) b by (auto simp: ordered_ranges_def sorted_wrt_append list_all_iff)
    with less.IH [of j "rs @ [r]"] less.prems(2) 3(3) b show ?thesis by auto
  qed
qed

text \<open>whatever bytes it is given, the scanner only returns ranges inside them, so no slice of the
  program can be out of range: the value of a field, and the elements of an array, which are in order
  and do not overlap.\<close>

theorem scanned_ranges_in_bounds:
  "(case find_top_level_json_field sj bytes key of
      Inr (Some r) \<Rightarrow> fst r \<le> snd r \<and> snd r \<le> length bytes | _ \<Rightarrow> True)
   \<and> (case json_array_view_element_ranges bytes of
      Inr rs \<Rightarrow> ordered_ranges (length bytes) rs | _ \<Rightarrow> True)"
proof
  show "case find_top_level_json_field sj bytes key of
      Inr (Some r) \<Rightarrow> fst r \<le> snd r \<and> snd r \<le> length bytes | _ \<Rightarrow> True"
    by (auto simp: find_top_level_json_field_def and_then_def dest: find_field_loop_bounds split: sum.splits option.splits)
  have "i \<le> length bytes" if "json_array_start bytes = Inr i" for i
    using that by (auto simp: json_array_start_def Let_def vec_get_eq_Some split: if_splits)
  then show "case json_array_view_element_ranges bytes of Inr rs \<Rightarrow> ordered_ranges (length bytes) rs | _ \<Rightarrow> True"
    using element_ranges_bounds [of bytes _ "[]"]
    by (auto simp: json_array_view_element_ranges_def and_then_eq_Inr ordered_ranges_def split: sum.splits)
qed

section \<open>Rows\<close>

text \<open>The lines of a text, without the line breaks.\<close>

function lines_of :: "string \<Rightarrow> string list" where
  "lines_of s = (case position (\<lambda>c. c = CHR 0x0A) s of
     None \<Rightarrow> [s] | Some k \<Rightarrow> take k s # lines_of (drop (Suc k) s))"
  by auto

termination lines_of
  by (relation "measure length") (auto dest!: position_SomeD)

declare lines_of.simps [simp del]

text \<open>The numbered, trimmed lines that are not blank.\<close>

definition rows_of :: "nat \<Rightarrow> string list \<Rightarrow> (nat \<times> string) list" where
  "rows_of n ls = List.filter (\<lambda>l. snd l \<noteq> []) (List.enumerate n (List.map trim_json_bytes ls))"

definition limited :: "nat option \<Rightarrow> 'a list \<Rightarrow> 'a list" where
  "limited limit xs = (case limit of None \<Rightarrow> xs | Some n \<Rightarrow> take n xs)"

definition row_text :: "string \<Rightarrow> (nat \<times> nat) \<times> nat \<Rightarrow> nat \<times> string" where
  "row_text bytes line = (snd line, range_of bytes (fst line))"

lemma range_of_Cons:
  "i < e \<Longrightarrow> e \<le> length bytes \<Longrightarrow> range_of bytes (i, e) = bytes ! i # range_of bytes (Suc i, e)"
  by (simp add: range_of_def Cons_nth_drop_Suc [symmetric] take_Cons' Suc_diff_Suc)

lemma range_of_snoc:
  "i \<le> e \<Longrightarrow> e < length bytes \<Longrightarrow> range_of bytes (i, Suc e) = range_of bytes (i, e) @ [bytes ! e]"
  by (simp add: range_of_def Suc_diff_le take_Suc_conv_app_nth)

lemma range_of_empty [simp]: "range_of bytes (i, i) = []"
  by (simp add: range_of_def)

lemma trim_start:
  "i \<le> e \<Longrightarrow> e \<le> length bytes \<Longrightarrow> i \<le> trim_start_index bytes i e \<and> trim_start_index bytes i e \<le> e
    \<and> range_of bytes (trim_start_index bytes i e, e) = dropWhile is_ascii_whitespace (range_of bytes (i, e))"
proof (induction bytes i e rule: trim_start_index.induct)
  case (1 bytes i e)
  then show ?case
  proof (cases "i = e")
    case True
    then show ?thesis by (simp add: trim_start_index.simps [of bytes e e])
  qed (auto simp: trim_start_index.simps [of bytes i e] range_of_Cons [of i e])
qed

lemma trim_end:
  "i \<le> e \<Longrightarrow> e \<le> length bytes \<Longrightarrow> i \<le> trim_end_index bytes i e \<and> trim_end_index bytes i e \<le> e
    \<and> range_of bytes (i, trim_end_index bytes i e)
      = rev (dropWhile is_ascii_whitespace (rev (range_of bytes (i, e))))"
  by (induction e) (auto simp: range_of_snoc le_Suc_eq)

lemma range_of_eq_Nil: "i \<le> e \<Longrightarrow> e \<le> length bytes \<Longrightarrow> range_of bytes (i, e) = [] \<longleftrightarrow> i = e"
  by (auto simp: range_of_def)

lemma rows_of_Cons: "rows_of n (l # ls) = (if trim_json_bytes l = [] then [] else [(n, trim_json_bytes l)])
    @ rows_of (Suc n) ls"
  by (simp add: rows_of_def)

lemma push_line:
  assumes "\<not> limit_reached limit lines" and "start \<le> stop" and "stop \<le> length bytes"
  shows "List.map (row_text bytes) (push_jsonl_line_range bytes start stop n limit lines)
    = List.map (row_text bytes) lines @ rows_of n [range_of bytes (start, stop)]"
proof -
  let ?s = "trim_start_index bytes start stop" let ?e = "trim_end_index bytes ?s stop"
  note s = trim_start [OF assms(2,3)]
  have e: "?s \<le> ?e \<and> ?e \<le> stop
      \<and> range_of bytes (?s, ?e) = rev (dropWhile is_ascii_whitespace (rev (range_of bytes (?s, stop))))"
    using s assms(3) by (intro trim_end) auto
  have "range_of bytes (?s, ?e) = trim_json_bytes (range_of bytes (start, stop))"
    using s e by (simp add: trim_json_bytes_def)
  moreover have "range_of bytes (?s, ?e) = [] \<longleftrightarrow> ?s = ?e"
    using e assms(3) by (intro range_of_eq_Nil) auto
  ultimately show ?thesis
    using assms(1) e by (auto simp: push_jsonl_line_range_def Let_def row_text_def rows_of_def)
qed

lemma limited_full: "limit_reached limit xs \<Longrightarrow> limited limit (List.map f xs @ ys) = limited limit (List.map f xs)"
  by (auto simp: limit_reached_def limited_def split: option.splits)

lemma push_length:
  "length (push_jsonl_line_range bytes a b n limit lines) \<le> Suc (length lines)"
  by (simp add: push_jsonl_line_range_def Let_def)

lemma rows_loop_text:
  assumes "start \<le> length bytes" and "\<not> limit_reached limit lines"
  shows "List.map (row_text bytes) (rows_loop bytes limit start n lines)
    = limited limit (List.map (row_text bytes) lines @ rows_of n (lines_of (drop start bytes)))"
  using assms
proof (induction bytes limit start n lines rule: rows_loop.induct)
  case (1 bytes limit start n lines)
  let ?push = "\<lambda>stop. push_jsonl_line_range bytes start stop n limit lines"
  have fits: "limited limit (List.map (row_text bytes) (?push stop)) = List.map (row_text bytes) (?push stop)" for stop
    using "1.prems"(2) push_length [of bytes start stop n limit lines]
    by (auto simp: limited_def limit_reached_def split: option.splits)
  show ?case
  proof (cases "position (\<lambda>c. c = CHR 0x0A) (drop start bytes)")
    case None
    have "range_of bytes (start, length bytes) = drop start bytes" by (simp add: range_of_def)
    moreover have "rows_of n [[]] = []" by (simp add: rows_of_def trim_json_bytes_def)
    moreover have "limited limit (List.map (row_text bytes) lines) = List.map (row_text bytes) lines"
      using "1.prems"(2) by (auto simp: limited_def limit_reached_def split: option.splits)
    ultimately show ?thesis
      using "1.prems" fits [of "length bytes"] push_line [of limit lines start "length bytes" bytes n]
      by (auto simp: rows_loop.simps [of bytes limit start n lines] lines_of.simps [of "drop start bytes"] None)
  next
    case (Some k)
    from position_SomeD [OF Some] have k: "start + k < length bytes" by auto
    have lines: "lines_of (drop start bytes) = range_of bytes (start, start + k) # lines_of (drop (start + k + 1) bytes)"
      using Some by (simp add: lines_of.simps [of "drop start bytes"] range_of_def add.commute add.left_commute)
    have pushed: "List.map (row_text bytes) lines @ rows_of n (lines_of (drop start bytes))
      = List.map (row_text bytes) (?push (start + k)) @ rows_of (Suc n) (lines_of (drop (start + k + 1) bytes))"
      using push_line [OF "1.prems"(2), of start "start + k" bytes n] k unfolding lines rows_of_Cons
      by (simp add: rows_of_def)
    show ?thesis
    proof (cases "limit_reached limit (?push (start + k))")
      case True
      then show ?thesis
        unfolding pushed limited_full [OF True] fits
        by (simp add: rows_loop.simps [of bytes limit start n lines] Some Let_def)
    next
      case False
      then show ?thesis
        using "1.IH" [OF Some refl False] k unfolding pushed
        by (simp add: rows_loop.simps [of bytes limit start n lines] Some Let_def)
    qed
  qed
qed

text \<open>the rows of a JSONL file are its lines that are not blank, trimmed, in order and with their line
  numbers, as many as the limit allows.\<close>

theorem rows_are_trimmed_lines:
  "List.map (row_text bytes) (rows_lines (jsonl_rows_from_bytes bytes limit source))
    = limited limit (rows_of 1 (lines_of bytes))"
proof (cases "limit_reached limit ([] :: ((nat \<times> nat) \<times> nat) list)")
  case True
  have "push_jsonl_line_range bytes a b n limit [] = []" for a b n
    using True by (simp add: push_jsonl_line_range_def)
  with True show ?thesis
    by (auto simp: jsonl_rows_from_bytes_def rows_loop.simps [of bytes limit 0] limited_def limit_reached_def
        split: option.splits)
next
  case False
  then show ?thesis
    using rows_loop_text [of 0 bytes limit "[]" 1] by (simp add: jsonl_rows_from_bytes_def)
qed

end
