(* ===== verification/Jsonl_Vm_Correct.thy ===== *)
theory Jsonl_Vm_Correct
  imports Jsonl_Vm Jsonl_Correct Json_Scan_Correct
begin

text \<open>The block code of a JSONL aggregation computes what the native trace body computes.\<close>

section \<open>One pass and four searches\<close>

text \<open>Two different keys never match the same range.\<close>

lemma json_key_matches_unique:
  "json_key_matches sj bytes r k \<Longrightarrow> json_key_matches sj bytes r k' \<Longrightarrow> k = k'"
  by (auto simp: json_key_matches_def Let_def split: if_splits)

lemma each_field_cases:
  assumes "each_field_loop bytes f i s = Inr s'"
  obtains (stop) "json_field_at bytes i = Inr None" "s' = s"
    | (last) kr vr where "json_field_at bytes i = Inr (Some (kr, vr))" "f kr vr s = Inr s'"
        "json_field_next bytes (snd vr) = Inr None"
    | (more) kr vr t j where "json_field_at bytes i = Inr (Some (kr, vr))" "f kr vr s = Inr t"
        "json_field_next bytes (snd vr) = Inr (Some j)" "each_field_loop bytes f j t = Inr s'"
        "length bytes - j < length bytes - i"
proof -
  obtain fld where fld: "json_field_at bytes i = Inr fld"
    using assms by (cases "json_field_at bytes i") (simp_all add: each_field_loop.simps [of bytes f i])
  show ?thesis
  proof (cases fld)
    case None
    then show ?thesis using assms fld stop by (simp add: each_field_loop.simps [of bytes f i])
  next
    case (Some p)
    obtain kr vr where p: "p = (kr, vr)" by (cases p)
    obtain t nxt where t: "f kr vr s = Inr t" "json_field_next bytes (snd vr) = Inr nxt"
      and rest: "(case nxt of None \<Rightarrow> Inr t | Some j \<Rightarrow> each_field_loop bytes f j t) = Inr s'"
      using assms fld Some p by (auto simp: each_field_loop.simps [of bytes f i] and_then_eq_Inr)
    show ?thesis
    proof (cases nxt)
      case None
      then show ?thesis using last [of kr vr] t rest fld Some p by simp
    next
      case [simp]: (Some j)
      have "length bytes - j < length bytes - i"
        using json_field_at_bounds [of bytes i kr vr] json_field_next_bounds [of bytes "snd vr" j] fld t \<open>fld = Some p\<close> p
        by fastforce
      then show ?thesis using more [of kr vr t j] t rest fld \<open>fld = Some p\<close> p by simp
    qed
  qed
qed

lemma is_ok_iff: "is_ok r \<longleftrightarrow> (\<exists>x. r = Inr x)"
  by (cases r) simp_all

text \<open>A slot that takes the first field whose key matches holds what the search for the key finds.\<close>

lemma each_field_keeps:
  assumes "\<And>kr vr s s'. f kr vr s = Inr s' \<Longrightarrow> g s \<noteq> None \<Longrightarrow> g s' = g s"
  shows "each_field_loop bytes f i s = Inr s' \<Longrightarrow> g s \<noteq> None \<Longrightarrow> g s' = g s"
proof (induction "length bytes - i" arbitrary: i s rule: less_induct)
  case less
  from less.prems(1) show ?case
  proof (cases rule: each_field_cases)
    case (more kr vr t j)
    then show ?thesis using less.hyps [OF more(5,4)] assms [OF more(2) less.prems(2)] less.prems(2) by simp
  qed (use assms less.prems(2) in auto)
qed

lemma each_field_finds:
  assumes first: "\<And>kr vr s s'. f kr vr s = Inr s' \<Longrightarrow> g s = None \<Longrightarrow>
      g s' = (if json_key_matches sj bytes kr key then Some vr else None)"
    and keeps: "\<And>kr vr s s'. f kr vr s = Inr s' \<Longrightarrow> g s \<noteq> None \<Longrightarrow> g s' = g s"
  shows "each_field_loop bytes f i s = Inr s' \<Longrightarrow> g s = None \<Longrightarrow> find_field_loop sj bytes key i = Inr (g s')"
proof (induction "length bytes - i" arbitrary: i s rule: less_induct)
  case less
  from less.prems(1) show ?case
  proof (cases rule: each_field_cases)
    case stop
    then show ?thesis using less.prems by (simp add: find_field_loop.simps [of sj bytes key i])
  next
    case (last kr vr)
    then show ?thesis using first [OF last(2) less.prems(2)]
      by (simp add: find_field_loop.simps [of sj bytes key i])
  next
    case (more kr vr t j)
    show ?thesis
    proof (cases "json_key_matches sj bytes kr key")
      case True
      then have "g t = Some vr" using first [OF more(2) less.prems(2)] by simp
      then have "g s' = Some vr"
        using each_field_keeps [where f = f and g = g and s = t, OF keeps more(4)] by auto
      with True more(1) show ?thesis by (simp add: find_field_loop.simps [of sj bytes key i])
    next
      case False
      then have "g t = None" using first [OF more(2) less.prems(2)] by simp
      with False more(1,3) less.hyps [OF more(5,4)] show ?thesis
        by (simp add: find_field_loop.simps [of sj bytes key i])
    qed
  qed
qed

lemma for_each_finds:
  assumes "json_object_for_each_field bytes f s = Inr s'" and "g s = None"
    and "\<And>kr vr s s'. f kr vr s = Inr s' \<Longrightarrow> g s = None \<Longrightarrow>
      g s' = (if json_key_matches sj bytes kr key then Some vr else None)"
    and "\<And>kr vr s s'. f kr vr s = Inr s' \<Longrightarrow> g s \<noteq> None \<Longrightarrow> g s' = g s"
  shows "find_top_level_json_field sj bytes key = Inr (g s')"
proof -
  obtain i where i: "json_object_start bytes = Inr i" and loop: "each_field_loop bytes f i s = Inr s'"
    using assms(1) by (auto simp: json_object_for_each_field_def and_then_eq_Inr)
  have "find_field_loop sj bytes key i = Inr (g s')"
    by (rule each_field_finds [where f = f and g = g, OF assms(3,4) loop assms(2)])
  with i show ?thesis by (simp add: find_top_level_json_field_def)
qed

definition distinct_keys :: "trace_plan \<Rightarrow> bool" where
  "distinct_keys t = distinct [tp_user_key t, tp_amount_key t, tp_items_key t, tp_tags_key t]"

lemma picked_fields_found:
  assumes "json_object_for_each_field bytes (pick_field sj bytes (plan_keys t)) no_ranges = Inr s"
    and "distinct_keys t"
  shows "find_top_level_json_field sj bytes (tp_user_key t) = Inr (fr_user s)"
    and "find_top_level_json_field sj bytes (tp_amount_key t) = Inr (fr_amount s)"
    and "find_top_level_json_field sj bytes (tp_items_key t) = Inr (fr_items s)"
    and "find_top_level_json_field sj bytes (tp_tags_key t) = Inr (fr_tags s)"
  using assms(2)
  by (intro for_each_finds [OF assms(1)];
      auto simp: no_ranges_def pick_field_def plan_keys_def distinct_keys_def
        dest: json_key_matches_unique split: if_splits)+

text \<open>Whether the fields of an object can be walked does not depend on what is done with them.\<close>

definition scans :: "string \<Rightarrow> bool" where
  "scans bytes = is_ok (json_object_for_each_field bytes (\<lambda>_ _ u. Inr u) ())"

lemma each_field_ok:
  assumes "\<And>kr vr s. is_ok (f kr vr s)" and "\<And>kr vr s. is_ok (f' kr vr s)"
  shows "is_ok (each_field_loop bytes f i s) = is_ok (each_field_loop bytes f' i s')"
proof (induction "length bytes - i" arbitrary: i s s' rule: less_induct)
  case less
  have f: "\<exists>t. f kr vr s = Inr t" "\<exists>t. f' kr vr s' = Inr t" for kr vr
    using assms(1) [of kr vr s] assms(2) [of kr vr s'] by (simp_all add: is_ok_iff)
  consider (error) e where "json_field_at bytes i = Inl e" | (stop) "json_field_at bytes i = Inr None"
    | (field) kr vr where "json_field_at bytes i = Inr (Some (kr, vr))"
    by (metis surj_pair not_None_eq sum.exhaust)
  then show ?case
  proof cases
    case field
    obtain t t' where t: "f kr vr s = Inr t" "f' kr vr s' = Inr t'" using f by blast
    show ?thesis
    proof (cases "\<exists>j. json_field_next bytes (snd vr) = Inr (Some j)")
      case True
      then obtain j where j: "json_field_next bytes (snd vr) = Inr (Some j)" by blast
      have "length bytes - j < length bytes - i"
        using json_field_at_bounds [OF field] json_field_next_bounds [OF j] by linarith
      from less.hyps [OF this] show ?thesis
        by (simp add: each_field_loop.simps [of bytes f i] each_field_loop.simps [of bytes f' i] field t j)
    next
      case False
      then show ?thesis
        by (cases "json_field_next bytes (snd vr)")
           (auto simp: each_field_loop.simps [of bytes f i] each_field_loop.simps [of bytes f' i] field t)
    qed
  qed (simp_all add: each_field_loop.simps [of bytes f i] each_field_loop.simps [of bytes f' i])
qed

lemma scans_pick: "scans bytes \<Longrightarrow> \<exists>s. json_object_for_each_field bytes (pick_field sj bytes keys) no_ranges = Inr s"
proof -
  assume "scans bytes"
  then have "is_ok (json_object_for_each_field bytes (pick_field sj bytes keys) no_ranges)"
    using each_field_ok [of "pick_field sj bytes keys" "\<lambda>_ _ u. Inr u" bytes _ no_ranges "()"]
    by (cases "json_object_start bytes")
       (auto simp: scans_def json_object_for_each_field_def pick_field_def split: prod.splits)
  then show ?thesis by (simp add: is_ok_iff)
qed

section \<open>The run of the machine\<close>

text \<open>The four loads and the two additions of the row block, with the values in the order in which the
  code reads them.\<close>

definition load_fields :: "serde \<Rightarrow> row_slice \<Rightarrow> trace_plan \<Rightarrow> row_fields res" where
  "load_fields sj row t = (let find = find_top_level_json_field sj (hr_bytes row) in
     and_then (and_then (find (tp_user_key t)) (field_or
       (if tp_user_has_default t then Inr (tp_user_default t) else Inl (no_key (tp_user_key t)))
       (decode_string sj row))) (\<lambda>user.
     and_then (and_then (find (tp_amount_key t)) (field_or
       (if tp_amount_has_default t then Inr (tp_amount_default t) else Inl (no_key (tp_amount_key t)))
       (decode_f64 row))) (\<lambda>amount.
     and_then (and_then (find (tp_items_key t)) (field_or
       (if tp_items_has_default t then Inr (tp_items_default t) else Inl (no_key (tp_items_key t)))
       (decode_i64 row))) (\<lambda>items.
     and_then (and_then (find (tp_tags_key t)) (field_or
       (if tp_tags_default_empty t then Inr ''[]'' else Inl (no_key (tp_tags_key t)))
       (decode_array row))) (\<lambda>tags.
     Inr \<lparr> rf_user = user, rf_amount = amount, rf_items = items, rf_tags = tags \<rparr>)))))"

lemma load_fields_native:
  assumes "distinct_keys t"
    and "json_object_for_each_field (hr_bytes row) (pick_field sj (hr_bytes row) (plan_keys t)) no_ranges = Inr s"
  shows "json_object_view_get_hot_jsonl_row_fields sj row t (plan_keys t) = load_fields sj row t"
  using assms(2) picked_fields_found [OF assms(2,1)]
  by (simp add: json_object_view_get_hot_jsonl_row_fields_def decode_fields_def load_fields_def plan_keys_def)

definition add_row :: "bool \<Rightarrow> row_fields \<Rightarrow> accumulators \<Rightarrow> accumulators" where
  "add_row app fs acc = (let k = rf_user fs in
     acc\<lparr> ac_amounts := AList.update k (case map_of (ac_amounts acc) k of
            Some old \<Rightarrow> f64_add old (rf_amount fs) | None \<Rightarrow> rf_amount fs) (ac_amounts acc),
          ac_items := AList.update k (case map_of (ac_items acc) k of
            Some old \<Rightarrow> old + rf_items fs | None \<Rightarrow> rf_items fs) (ac_items acc),
          ac_users := if app \<and> map_of (ac_amounts acc) k = None then ac_users acc @ [k] else ac_users acc \<rparr>)"

definition add_tag :: "bool \<Rightarrow> string \<Rightarrow> accumulators \<Rightarrow> accumulators res" where
  "add_tag app k acc = Inr (case map_of (ac_tag_counts acc) k of
     Some old \<Rightarrow> acc\<lparr> ac_tag_counts := AList.update k (old + 1) (ac_tag_counts acc) \<rparr>
   | None \<Rightarrow> acc\<lparr> ac_tag_counts := AList.update k 1 (ac_tag_counts acc),
                 ac_tags := if app then ac_tags acc @ [k] else ac_tags acc \<rparr>)"

lemma load_field_simps:
  assumes "vec_get slots object = Some (SRow row)" and "vec_get (sf_constants f) key = Some (KString k)"
  shows "load_field f dst object key wrap getter slots
    = and_then (getter row k) (\<lambda>v. set_stone_vm_slot slots dst (wrap v))"
  using assms by (simp add: load_field_def stone_vm_row_def stone_const_string_def)

lemma row_ops_run:
  assumes f: "sf_constants f = [KString uk, KString d, KString ak, KString ik, KString tk, KEmptyList]"
  shows "exec_stone_op sj f (if b then JsonGetStrDefault 1 0 0 1 else JsonGetValue 1 0 0) (SRow row # x # xs, acc)
      = and_then (and_then (find_top_level_json_field sj (hr_bytes row) uk)
          (field_or (if b then Inr d else Inl (no_key uk)) (decode_string sj row)))
        (\<lambda>v. Inr (SRow row # SString v # xs, acc))"
    and "exec_stone_op sj f (if b then JsonGetF64Default 2 0 2 r else JsonGetF64Required 2 0 2) (SRow row # x # y # xs, acc)
      = and_then (and_then (find_top_level_json_field sj (hr_bytes row) ak)
          (field_or (if b then Inr r else Inl (no_key ak)) (decode_f64 row)))
        (\<lambda>v. Inr (SRow row # x # SF64 v # xs, acc))"
    and "exec_stone_op sj f (if b then JsonGetI64Default 3 0 3 n else JsonGetI64Required 3 0 3) (SRow row # x # y # z # xs, acc)
      = and_then (and_then (find_top_level_json_field sj (hr_bytes row) ik)
          (field_or (if b then Inr n else Inl (no_key ik)) (decode_i64 row)))
        (\<lambda>v. Inr (SRow row # x # y # SI64 v # xs, acc))"
    and "exec_stone_op sj f (if b then JsonGetArrayDefault 4 0 4 else JsonGetArrayRequired 4 0 4) (SRow row # x # y # z # u # xs, acc)
      = and_then (and_then (find_top_level_json_field sj (hr_bytes row) tk)
          (field_or (if b then Inr ''[]'' else Inl (no_key tk)) (decode_array row)))
        (\<lambda>v. Inr (SRow row # x # y # z # SArray v # xs, acc))"
  by (cases b; simp add: exec_stone_op_def load_field_simps f row_get_defs set_stone_vm_slot_def and_then_assoc
      stone_const_string_def eval_nat_numeral)+

lemma add_ops_run:
  "execute_hot_jsonl_vm_ops sj f [MapAddF64 0 1 2 (map_option (\<lambda>_. 2) (l :: string option)), MapAddI64 1 1 3 None]
     ([w, SString k, SF64 v, SI64 n, SArray tags, y], acc)
   = Inr ([w, SString k, SF64 v, SI64 n, SArray tags, y],
       add_row (l \<noteq> None) \<lparr> rf_user = k, rf_amount = v, rf_items = n, rf_tags = tags \<rparr> acc)"
  by (cases l; cases "map_of (ac_amounts acc) k"; cases "map_of (ac_items acc) k"; simp add: execute_hot_jsonl_vm_ops_def exec_stone_op_def
      execute_hot_jsonl_vm_map_add_f64_def execute_hot_jsonl_vm_map_add_i64_def stone_vm_f64_def stone_vm_i64_def
      stone_vm_string_def add_row_def Let_def eval_nat_numeral)

lemma row_block_run:
  assumes f: "sf_constants f = [KString (bs_user_key s), KString (jb_user_default p), KString (bs_amount_key s),
      KString (bs_items_key s), KString (bs_tags_key s), KEmptyList]"
    and t: "tp_user_key t = bs_user_key s" "tp_user_default t = jb_user_default p"
      "tp_amount_key t = bs_amount_key s" "tp_items_key t = bs_items_key s" "tp_tags_key t = bs_tags_key s"
      "tp_user_has_default t = jb_user_has_default p" "tp_amount_has_default t = jb_amount_has_default p"
      "tp_items_has_default t = jb_items_has_default p" "tp_tags_default_empty t = jb_tags_default_empty p"
      "jb_amount_has_default p \<Longrightarrow> tp_amount_default t = jb_amount_default p"
      "jb_items_has_default p \<Longrightarrow> tp_items_default t = jb_items_default p"
  shows "execute_hot_jsonl_vm_ops sj f (row_block_ops s p) ([SRow row, SEmpty, SEmpty, SEmpty, SEmpty, SEmpty], acc)
    = and_then (load_fields sj row t) (\<lambda>fs. Inr ([SRow row, SString (rf_user fs), SF64 (rf_amount fs),
        SI64 (rf_items fs), SArray (rf_tags fs), SEmpty], add_row (bs_users_list s \<noteq> None) fs acc))"
proof -
  have d: "(if jb_amount_has_default p then Inr (jb_amount_default p) else e)
      = (if jb_amount_has_default p then Inr (tp_amount_default t) else e)"
    "(if jb_items_has_default p then Inr (jb_items_default p) else e')
      = (if jb_items_has_default p then Inr (tp_items_default t) else e')" for e :: "f64 res" and e' :: "i64 res"
    using t by auto
  have eta: "fold_ok g (y # ys) = (\<lambda>s. and_then (g y s) (fold_ok g ys))" "fold_ok g [] = Inr"
    for g :: "stone_op \<Rightarrow> slot list \<times> accumulators \<Rightarrow> (slot list \<times> accumulators) res" and y ys
    by (simp_all add: fun_eq_iff)
  note adds = add_ops_run [of sj f "bs_users_list s", unfolded execute_hot_jsonl_vm_ops_def eta]
  show ?thesis
    unfolding row_block_ops_def execute_hot_jsonl_vm_ops_def load_fields_def Let_def t(1-9) eta
    by (simp only: row_ops_run [OF f] d and_then_assoc and_then_simps adds row_fields.simps)
qed

section \<open>The simulation\<close>

text \<open>The walk over an array keeps a relation between two states that every step keeps; errors agree.\<close>

lemma each_element_simulation:
  assumes step: "\<And>r s t. R s t \<Longrightarrow> rel_sum (=) R (f r s) (g r t)"
  shows "R s t \<Longrightarrow> rel_sum (=) R (each_element_loop bytes f i s) (each_element_loop bytes g i t)"
proof (induction "length bytes - i" arbitrary: i s t rule: less_induct)
  case less
  note loops = each_element_loop.simps [of bytes f i s] each_element_loop.simps [of bytes g i t]
  consider (error) e where "json_element_at bytes i = Inl e" | (stop) "json_element_at bytes i = Inr None"
    | (element) r where "json_element_at bytes i = Inr (Some r)"
    by (metis not_None_eq sum.exhaust)
  then show ?case
  proof cases
    case element
    from step [OF less.prems, of r] show ?thesis
    proof (cases rule: rel_sum.cases)
      case (1 e e')
      then show ?thesis by (simp add: loops element)
    next
      case (2 s' t')
      consider (error) e where "json_element_next bytes (snd r) = Inl e"
        | (stop) "json_element_next bytes (snd r) = Inr None"
        | (more) j where "json_element_next bytes (snd r) = Inr (Some j)"
        by (metis not_None_eq sum.exhaust)
      then show ?thesis
      proof cases
        case (more j)
        have "length bytes - j < length bytes - i"
          using json_element_at_bounds [OF element] json_element_next_bounds [OF more] by linarith
        from less.hyps [OF this 2(3)] show ?thesis by (simp add: loops element more 2(1,2))
      qed (simp_all add: loops element 2)
    qed
  qed (use less.prems in \<open>simp_all add: loops\<close>)
qed

lemma string_array_simulation:
  assumes "\<And>x s t. R s t \<Longrightarrow> rel_sum (=) R (f x s) (g x t)" and "R s t"
  shows "rel_sum (=) R (hot_jsonl_string_array_for_each_string sj bytes f s)
    (hot_jsonl_string_array_for_each_string sj bytes g t)"
proof -
  have "rel_sum (=) R (string_item sj bytes f r s) (string_item sj bytes g r t)" if "R s t" for r s t
    using assms(1) [OF that]
    by (auto simp: string_item_def and_then_def split: sum.splits)
  then show ?thesis
    using assms(2) unfolding hot_jsonl_string_array_for_each_string_def json_array_bytes_for_each_range_def
    by (cases "json_array_start bytes") (auto intro: each_element_simulation)
qed

text \<open>The machine fills a list only when the plan has one, the native body always does; the maps and the
  lists of the plan agree.\<close>

definition same_totals :: "trace_plan \<Rightarrow> accumulators \<Rightarrow> accumulators \<Rightarrow> bool" where
  "same_totals t a b \<longleftrightarrow> ac_amounts a = ac_amounts b \<and> ac_items a = ac_items b
   \<and> ac_tag_counts a = ac_tag_counts b
   \<and> (tp_users_list t \<noteq> None \<longrightarrow> ac_users a = ac_users b) \<and> (tp_tags_list t \<noteq> None \<longrightarrow> ac_tags a = ac_tags b)"

definition consistent :: "accumulators \<Rightarrow> bool" where
  "consistent a \<longleftrightarrow> (\<forall>k. map_of (ac_amounts a) k = None \<longleftrightarrow> map_of (ac_items a) k = None)"

lemma add_user_row:
  assumes "consistent b"
  shows "add_user fs b = Inr (add_row True fs b)"
proof -
  have "map_of (ac_amounts b) (rf_user fs) = None \<longleftrightarrow> map_of (ac_items b) (rf_user fs) = None"
    using assms by (simp add: consistent_def)
  then show ?thesis
    by (cases "map_of (ac_amounts b) (rf_user fs)"; cases "map_of (ac_items b) (rf_user fs)")
       (auto simp: add_user_def add_row_def Let_def)
qed

lemma add_row_consistent: "consistent b \<Longrightarrow> consistent (add_row app fs b)"
  by (simp add: consistent_def add_row_def Let_def)

lemma add_row_same: "same_totals t a b \<Longrightarrow> same_totals t (add_row (tp_users_list t \<noteq> None) fs a) (add_row True fs b)"
  by (simp add: same_totals_def add_row_def Let_def)

lemma count_tag_simulation:
  assumes "same_totals t a b"
  shows "rel_sum (=) (\<lambda>a b. same_totals t a b) (add_tag (tp_tags_list t \<noteq> None) k a) (count_tag k b)"
  using assms by (auto simp: add_tag_def count_tag_def same_totals_def split: option.splits)

lemma count_tag_consistent: "consistent b \<Longrightarrow> count_tag k b = Inr b' \<Longrightarrow> consistent b'"
  by (auto simp: count_tag_def consistent_def split: option.splits)

lemma tag_block_run:
  assumes blocks: "sf_blocks f = [b0, \<lparr> sb_ops = [MapAddI64Const 3 5 1 (map_option (\<lambda>_. 4) (l :: string option))],
      sb_terminator = Jump 0 \<rparr>, b2]"
    and "length slots = 6"
  shows "string_loop_step sj f 0 5 1 k ((slots, acc), None)
    = and_then (add_tag (l \<noteq> None) k acc) (\<lambda>acc'. Inr ((slots[5 := SString k], acc'), None))"
  using assms(2)
  by (cases l; simp add: string_loop_step_def set_stone_vm_slot_def blocks execute_hot_jsonl_vm_ops_def
      exec_stone_op_def execute_hot_jsonl_vm_map_add_i64_const_def stone_vm_string_def add_tag_def)

text \<open>The code of a loop is the compiled code with the adapter of its iterator, which nothing reads.\<close>

lemma adapter_irrelevant [simp]:
  "match_hot_jsonl_aggregation_ir_subgraph (g\<lparr> sf_adapter := a \<rparr>) = match_hot_jsonl_aggregation_ir_subgraph g"
  "compile_hot_jsonl_trace_plan_from_ir (g\<lparr> sf_adapter := a \<rparr>) = compile_hot_jsonl_trace_plan_from_ir g"
  by (simp_all add: match_hot_jsonl_aggregation_ir_subgraph_def compile_hot_jsonl_trace_plan_from_ir_def)

lemma compiled_trace_fields:
  assumes f: "compile_hot_jsonl_vm_function p = Some f" and t: "compile_hot_jsonl_trace_plan_from_ir f = Some t"
  obtains s where "match_body_ops (jb_ops p) = Some s" and "tp_user_key t = bs_user_key s"
    and "tp_user_default t = jb_user_default p" and "tp_amount_key t = bs_amount_key s"
    and "tp_items_key t = bs_items_key s" and "tp_tags_key t = bs_tags_key s"
    and "tp_user_has_default t = jb_user_has_default p" and "tp_amount_has_default t = jb_amount_has_default p"
    and "tp_items_has_default t = jb_items_has_default p" and "tp_tags_default_empty t = jb_tags_default_empty p"
    and "jb_amount_has_default p \<Longrightarrow> tp_amount_default t = jb_amount_default p"
    and "jb_items_has_default p \<Longrightarrow> tp_items_default t = jb_items_default p"
    and "tp_users_list t \<noteq> None \<longleftrightarrow> bs_users_list s \<noteq> None" and "tp_tags_list t \<noteq> None \<longleftrightarrow> bs_tags_list s \<noteq> None"
proof -
  obtain s where s: "match_body_ops (jb_ops p) = Some s"
    using f by (auto simp: compile_hot_jsonl_vm_function_def elim!: bind_eq_SomeE)
  have c: "sf_constants f = [KString (bs_user_key s), KString (jb_user_default p), KString (bs_amount_key s),
      KString (bs_items_key s), KString (bs_tags_key s), KEmptyList]"
    using f s by (auto simp: compile_hot_jsonl_vm_function_def elim!: bind_eq_SomeE)
  show ?thesis
    using that [OF s] t compiled_jsonl_subgraph [OF f s]
    by (auto simp: compile_hot_jsonl_trace_plan_from_ir_def c match_constants_def elim!: bind_eq_SomeE)
qed

lemma compiled_run:
  assumes g: "compile_hot_jsonl_vm_function p = Some g" and t: "compile_hot_jsonl_trace_plan_from_ir g = Some t"
    and f: "f = g\<lparr> sf_adapter := ad \<rparr>"
  shows "execute_hot_jsonl_vm_function sj f row acc = Some (and_then (load_fields sj row t) (\<lambda>fs.
    and_then (hot_jsonl_string_array_for_each_string sj (rf_tags fs) (add_tag (tp_tags_list t \<noteq> None))
      (add_row (tp_users_list t \<noteq> None) fs acc)) (\<lambda>acc'. Inr (Completed, acc'))))"
proof -
  obtain s where s: "match_body_ops (jb_ops p) = Some s"
    and fields: "tp_user_key t = bs_user_key s" "tp_user_default t = jb_user_default p"
      "tp_amount_key t = bs_amount_key s" "tp_items_key t = bs_items_key s" "tp_tags_key t = bs_tags_key s"
      "tp_user_has_default t = jb_user_has_default p" "tp_amount_has_default t = jb_amount_has_default p"
      "tp_items_has_default t = jb_items_has_default p" "tp_tags_default_empty t = jb_tags_default_empty p"
      "jb_amount_has_default p \<Longrightarrow> tp_amount_default t = jb_amount_default p"
      "jb_items_has_default p \<Longrightarrow> tp_items_default t = jb_items_default p"
    and users: "tp_users_list t \<noteq> None \<longleftrightarrow> bs_users_list s \<noteq> None"
    and tags: "tp_tags_list t \<noteq> None \<longleftrightarrow> bs_tags_list s \<noteq> None"
    by (rule compiled_trace_fields [OF g t]) blast
  have constants: "sf_constants f = [KString (bs_user_key s), KString (jb_user_default p),
      KString (bs_amount_key s), KString (bs_items_key s), KString (bs_tags_key s), KEmptyList]"
    and blocks: "sf_blocks f = [\<lparr> sb_ops = row_block_ops s p, sb_terminator = JsonEachStrArray 4 5 1 2 \<rparr>,
      \<lparr> sb_ops = [MapAddI64Const 3 5 1 (map_option (\<lambda>_. 4) (bs_tags_list s))], sb_terminator = Jump 0 \<rparr>,
      \<lparr> sb_ops = [], sb_terminator = Return \<rparr>]"
    and rest: "sf_registers f = 6" "sf_entry f = 0" "sf_accumulators f = acc_specs s"
    using g s f by (auto simp: compile_hot_jsonl_vm_function_def elim!: bind_eq_SomeE)
  have start: "(replicate 6 SEmpty)[0 := SRow row] = [SRow row, SEmpty, SEmpty, SEmpty, SEmpty, SEmpty]"
    by (simp add: eval_nat_numeral)
  have "validate_hot_jsonl_vm_accumulators f = Inr ()"
    by (simp add: validate_hot_jsonl_vm_accumulators_def rest acc_specs_def)
  then have entry: "execute_hot_jsonl_vm_function sj f row acc
      = run_blocks sj f 0 ([SRow row, SEmpty, SEmpty, SEmpty, SEmpty, SEmpty], acc)"
    using start by (simp add: execute_hot_jsonl_vm_function_def set_stone_vm_slot_def rest)
  have last: "run_blocks sj f 2 st = Some (Inr (Completed, snd st))" for st
    by (subst run_blocks.simps) (simp add: blocks execute_hot_jsonl_vm_ops_def eval_nat_numeral)
  have loop: "rel_sum (=) (\<lambda>st b. length (fst (fst st)) = 6 \<and> snd st = None \<and> snd (fst st) = b)
      (hot_jsonl_string_array_for_each_string sj bytes (string_loop_step sj f 0 5 1) ((slots, a), None))
      (hot_jsonl_string_array_for_each_string sj bytes (add_tag (bs_tags_list s \<noteq> None)) a)"
    if "length slots = 6" for slots a bytes
  proof (rule string_array_simulation)
    fix k b and st :: "(slot list \<times> accumulators) \<times> snapshot_id option"
    assume *: "length (fst (fst st)) = 6 \<and> snd st = None \<and> snd (fst st) = b"
    obtain slots where st: "st = ((slots, b), None)" and len: "length slots = 6"
      using * by (cases st) auto
    show "rel_sum (=) (\<lambda>st b. length (fst (fst st)) = 6 \<and> snd st = None \<and> snd (fst st) = b)
        (string_loop_step sj f 0 5 1 k st) (add_tag (bs_tags_list s \<noteq> None) k b)"
      unfolding st tag_block_run [OF blocks len]
      by (cases "add_tag (bs_tags_list s \<noteq> None) k b") (simp_all add: len)
  qed (use that in simp)
  show ?thesis
  proof (cases "load_fields sj row t")
    case (Inl e)
    then show ?thesis
      unfolding entry using row_block_run [OF constants fields]
      by (subst run_blocks.simps) (simp add: blocks)
  next
    case (Inr fs)
    let ?slots = "[SRow row, SString (rf_user fs), SF64 (rf_amount fs), SI64 (rf_items fs), SArray (rf_tags fs), SEmpty]"
    have array: "stone_vm_string_array ?slots 4 = Inr (rf_tags fs)"
      by (simp add: stone_vm_string_array_def eval_nat_numeral)
    have ops: "execute_hot_jsonl_vm_ops sj f (row_block_ops s p) ([SRow row, SEmpty, SEmpty, SEmpty, SEmpty, SEmpty], acc)
        = Inr (?slots, add_row (tp_users_list t \<noteq> None) fs acc)"
      using Inr row_block_run [OF constants fields] users by simp
    from loop [of ?slots "rf_tags fs" "add_row (tp_users_list t \<noteq> None) fs acc"] show ?thesis
      unfolding entry using last array tags
      by (subst run_blocks.simps) (auto simp: blocks ops Inr elim!: rel_sum.cases)
  qed
qed


text \<open>C35: on a row, the machine that runs the compiled block code, whatever its adapter, always stops, and simulates the native
  trace body. The four values of a row must be read under different keys, and the totals that are there must be
  the same on both sides and have an amount for a user exactly when they have a number of items: when the native body succeeds the machine completes with the same amounts, items and
  tag counts, and the same lists where the plan has them; when the native body fails and the fields
  of the row can be walked to the end, the machine fails with the same error.\<close>

theorem machine_simulates_native_body:
  assumes "compile_hot_jsonl_vm_function p = Some g" and "compile_hot_jsonl_trace_plan_from_ir g = Some t"
    and "f = g\<lparr> sf_adapter := ad \<rparr>" and "distinct_keys t" and "same_totals t a b" and "consistent b"
  shows "case execute_hot_jsonl_native_trace_body sj t row b of
     Inr b' \<Rightarrow> consistent b' \<and> (\<exists>a'. execute_hot_jsonl_vm_function sj f row a = Some (Inr (Completed, a'))
       \<and> same_totals t a' b')
   | Inl e \<Rightarrow> execute_hot_jsonl_vm_function sj f row a \<noteq> None
       \<and> (scans (hr_bytes row) \<longrightarrow> execute_hot_jsonl_vm_function sj f row a = Some (Inl e))"
proof (cases "\<exists>s. json_object_for_each_field (hr_bytes row) (pick_field sj (hr_bytes row) (plan_keys t)) no_ranges = Inr s")
  case False
  then obtain e where "execute_hot_jsonl_native_trace_body sj t row b = Inl e"
    by (cases "json_object_for_each_field (hr_bytes row) (pick_field sj (hr_bytes row) (plan_keys t)) no_ranges")
       (auto simp: execute_hot_jsonl_native_trace_body_def json_object_view_get_hot_jsonl_row_fields_def)
  moreover have "\<not> scans (hr_bytes row)" using scans_pick False by blast
  ultimately show ?thesis using compiled_run [OF assms(1,2,3), of sj row a] by simp
next
  case True
  then have fields: "json_object_view_get_hot_jsonl_row_fields sj row t (plan_keys t) = load_fields sj row t"
    using load_fields_native [OF assms(4)] by blast
  note run = compiled_run [OF assms(1,2,3), of sj row a]
  show ?thesis
  proof (cases "load_fields sj row t")
    case (Inl e)
    then show ?thesis by (simp add: execute_hot_jsonl_native_trace_body_def fields run)
  next
    case [simp]: (Inr fs)
    let ?R = "\<lambda>a b. same_totals t a b \<and> consistent b"
    have "rel_sum (=) ?R
        (hot_jsonl_string_array_for_each_string sj (rf_tags fs) (add_tag (tp_tags_list t \<noteq> None))
          (add_row (tp_users_list t \<noteq> None) fs a))
        (hot_jsonl_string_array_for_each_string sj (rf_tags fs) count_tag (add_row True fs b))"
    proof (rule string_array_simulation)
      fix k x y assume R: "?R x y"
      from count_tag_simulation [of t x y k] count_tag_consistent [of y k] R
      show "rel_sum (=) ?R (add_tag (tp_tags_list t \<noteq> None) k x) (count_tag k y)"
        by (auto simp: rel_sum.simps)
    qed (use add_row_same [OF assms(5)] add_row_consistent [OF assms(6)] in simp)
    then show ?thesis
      by (auto simp: execute_hot_jsonl_native_trace_body_def fields run add_user_row [OF assms(6)] elim!: rel_sum.cases)
  qed
qed

text \<open>Evaluation must not descend into the continuation of a step before the step is known.\<close>

declare and_then_def [code_unfold]

definition sample_body :: json_body where
  "sample_body = flat_body_plan ''w'' ''u'' (Some ''?'') ''A'' ''m'' (Some f64_zero) ''I'' ''n''
     (Some 0) (Some ''U'') ''t'' True ''T'' (Some ''S'') None"

definition sample_row :: row_slice where
  "sample_row = \<lparr> hr_bytes = CHR ''{'' # quoted ''u'' @ CHR '':'' # quoted ''a'' @ CHR '','' # quoted ''n'' @ CHR '':'' # ''3''
     @ CHR '','' # quoted ''t'' @ CHR '':'' # CHR ''['' # quoted ''x'' @ '']}'', hr_source = ''f'', hr_line = 1 \<rparr>"

definition no_serde :: serde where
  "no_serde = \<lparr> sj_string = (\<lambda>_. Inl ''''), sj_value = (\<lambda>_. Inl '''') \<rparr>"

definition no_totals :: accumulators where
  "no_totals = \<lparr> ac_amounts = [], ac_items = [], ac_users = [], ac_tag_counts = [], ac_tags = [] \<rparr>"

theorem machine_simulates_native_body_witness:
  "\<exists>f a. compile_hot_jsonl_vm_function sample_body = Some f
    \<and> execute_hot_jsonl_vm_function no_serde f sample_row no_totals = Some (Inr (Completed, a))
    \<and> ac_items a = [(''a'', 3)] \<and> ac_tag_counts a = [(''x'', 1)] \<and> ac_users a = [''a'']"
proof -
  let ?t = "trace_of_body sample_body"
  have flat: "is_flat_body sample_body" by (simp add: sample_body_def)
  obtain f where f: "compile_hot_jsonl_vm_function sample_body = Some f" using flat_body_compiles [OF flat] ..
  have t: "compile_hot_jsonl_trace_plan_from_ir f = Some ?t"
    by (rule compiled_jsonl_trace [OF f]) (simp_all add: sample_body_def flat_body_plan_def)
  have native: "execute_hot_jsonl_native_trace_body no_serde ?t sample_row no_totals = Inr
      \<lparr> ac_amounts = [(''a'', f64_zero)], ac_items = [(''a'', 3)], ac_users = [''a''],
        ac_tag_counts = [(''x'', 1)], ac_tags = [''x''] \<rparr>"
    by code_simp
  have "distinct_keys ?t" "same_totals ?t no_totals no_totals" "consistent no_totals"
    by (code_simp, simp_all add: same_totals_def consistent_def no_totals_def)
  note facts = this
  have adapter: "f = f\<lparr> sf_adapter := sf_adapter f \<rparr>" by simp
  from machine_simulates_native_body [OF f t adapter facts, of no_serde sample_row]
  obtain a where "execute_hot_jsonl_vm_function no_serde f sample_row no_totals = Some (Inr (Completed, a))"
    and "ac_items a = [(''a'', 3)]" "ac_tag_counts a = [(''x'', 1)]"
    and "tp_users_list ?t \<noteq> None \<longrightarrow> ac_users a = [''a'']"
    unfolding native by (auto simp: same_totals_def)
  moreover have "tp_users_list ?t = Some ''U''" by code_simp
  ultimately show ?thesis using f by blast
qed

end
