(* ===== verification/Jsonl_Native_Correct.thy ===== *)
theory Jsonl_Native_Correct
  imports Jsonl_Native Jsonl_Vm_Correct
begin

text \<open>The native execution of JSONL aggregations: the interpreter switch does not change the result, the
  totals are the sums over the rows, and nothing but the named locals is written.\<close>

section \<open>The interpreter switch\<close>

definition interpreted :: "bool \<Rightarrow> runtime \<Rightarrow> runtime" where
  "interpreted b rt = rt\<lparr> rt_vm_interpreter := b \<rparr>"

lemma interpreted_simps [simp]:
  "rt_vm_interpreter (interpreted b rt) = b" "rt_serde (interpreted b rt) = rt_serde rt"
  "rt_validate_snapshot (interpreted b rt) = rt_validate_snapshot rt"
  "rt_hash_order (interpreted b rt) = rt_hash_order rt"
  by (simp_all add: interpreted_def)

lemma interpreted_snapshots [simp]:
  "record_from_native_map (interpreted b rt) = record_from_native_map rt"
  "f64_record_from_native_map (interpreted b rt) = f64_record_from_native_map rt"
  "i64_record_from_native_map (interpreted b rt) = i64_record_from_native_map rt"
  "snapshot_binding (interpreted b rt) = snapshot_binding rt"
  "materialize_hot_jsonl_vm_snapshot_accumulators (interpreted b rt)
     = materialize_hot_jsonl_vm_snapshot_accumulators rt"
  "write_snapshot (interpreted b rt) = write_snapshot rt"
proof -
  show r: "record_from_native_map (interpreted b rt) = record_from_native_map rt"
    by (simp add: record_from_native_map_def fun_eq_iff)
  show f: "f64_record_from_native_map (interpreted b rt) = f64_record_from_native_map rt"
    and i: "i64_record_from_native_map (interpreted b rt) = i64_record_from_native_map rt"
    by (simp_all add: f64_record_from_native_map_def i64_record_from_native_map_def r)
  show s: "snapshot_binding (interpreted b rt) = snapshot_binding rt"
    by (simp only: snapshot_binding_def fun_eq_iff f i) simp
  show "materialize_hot_jsonl_vm_snapshot_accumulators (interpreted b rt)
      = materialize_hot_jsonl_vm_snapshot_accumulators rt"
    by (simp add: materialize_hot_jsonl_vm_snapshot_accumulators_def fun_eq_iff s)
  show "write_snapshot (interpreted b rt) = write_snapshot rt"
    by (simp add: write_snapshot_def fun_eq_iff)
qed

lemma execute_row_modes:
  assumes f: "compile_hot_jsonl_vm_function p = Some g" "compile_hot_jsonl_trace_plan_from_ir g = Some t"
      "f = g\<lparr> sf_adapter := ad \<rparr>"
    and "distinct_keys t" "same_totals t a b" "consistent b"
    and run: "execute_row (interpreted False rt) f t row b st = (Inr b', st')"
  shows "st' = st \<and> consistent b'
    \<and> (\<exists>a'. execute_row (interpreted True rt) f t row a st = (Inr a', st) \<and> same_totals t a' b')"
  using machine_simulates_native_body [OF assms(1-6), of "rt_serde rt" row] run
  by (auto simp: execute_row_def execute_hot_jsonl_vm_function_or_fallback_def ev_then_def)

lemma execute_rows_modes:
  assumes f: "compile_hot_jsonl_vm_function p = Some g" "compile_hot_jsonl_trace_plan_from_ir g = Some t"
      "f = g\<lparr> sf_adapter := ad \<rparr>"
    and "distinct_keys t"
  shows "same_totals t a b \<Longrightarrow> consistent b
    \<Longrightarrow> execute_rows (interpreted False rt) f t rows b st = (Inr b', st')
    \<Longrightarrow> st' = st \<and> consistent b'
      \<and> (\<exists>a'. execute_rows (interpreted True rt) f t rows a st = (Inr a', st) \<and> same_totals t a' b')"
proof (induction rows arbitrary: a b)
  case (Cons row rows)
  obtain c where row: "execute_row (interpreted False rt) f t row b st = (Inr c, st)"
    and rows: "execute_rows (interpreted False rt) f t rows c st = (Inr b', st')"
  proof -
    obtain r s where r: "execute_row (interpreted False rt) f t row b st = (r, s)" by fastforce
    with Cons.prems(3) obtain c where "r = Inr c" by (cases r) (auto simp: ev_then_def)
    with r show ?thesis
      using that Cons.prems(3) execute_row_modes [OF f assms(4) Cons.prems(1,2), of rt row st c s]
      by (auto simp: ev_then_def)
  qed
  obtain a' where "execute_row (interpreted True rt) f t row a st = (Inr a', st)"
    and "same_totals t a' c" "consistent c"
    using execute_row_modes [OF f assms(4) Cons.prems(1,2) row] by blast
  with Cons.IH [OF _ _ rows, of a'] show ?case by (simp add: ev_then_def)
qed simp

text \<open>The records of the two sums have the same users.\<close>

definition same_users :: "trace_plan \<Rightarrow> eval_state \<Rightarrow> bool" where
  "same_users t st = (case (record_of_local (tp_amounts_map t) st, record_of_local (tp_items_map t) st) of
     (Inr r, Inr r') \<Rightarrow> fst ` set r = fst ` set r' | _ \<Rightarrow> True)"

lemma loaded_keys:
  assumes "fold_ok (\<lambda>(k, n) m. and_then (conv n) (\<lambda>x. Inr (AList.update k x m))) r m = Inr m'"
  shows "dom (map_of m') = dom (map_of m) \<union> fst ` set r"
  using assms
proof (induction r arbitrary: m)
  case (Cons e r)
  obtain k n where e: "e = (k, n)" by (cases e)
  with Cons.prems obtain x where "fold_ok (\<lambda>(k, n) m. and_then (conv n) (\<lambda>x. Inr (AList.update k x m))) r (AList.update k x m) = Inr m'"
    by (auto simp: and_then_eq_Inr)
  from Cons.IH [OF this] show ?case by (auto simp: e split: if_splits)
qed simp

lemma ev_then_Inr_iff:
  "ev_then m f st = (Inr x, st') \<longleftrightarrow> (\<exists>y s. m st = (Inr y, s) \<and> f y s = (Inr x, st'))"
  by (auto simp: ev_then_def split: prod.splits sum.splits)

lemma ev_then_InrE:
  assumes "ev_then m f st = (Inr x, st')"
  obtains y s where "m st = (Inr y, s)" and "f y s = (Inr x, st')"
  using assms by (auto simp: ev_then_Inr_iff)

lemma load_state:
  "load_f64_record_map x st = (r, st') \<Longrightarrow> st' = st" "load_i64_record_map x st = (ri, st') \<Longrightarrow> st' = st"
  "load_optional_list l st = (rl, st') \<Longrightarrow> st' = st"
  by (auto simp: load_f64_record_map_def load_i64_record_map_def load_optional_list_def load_string_list_def
      split: option.splits)

lemma load_accumulators:
  assumes "load_hot_jsonl_native_accumulators t st = (Inr acc, st')" and "same_users t st"
  shows "st' = st \<and> consistent acc"
proof -
  from assms(1) obtain s1 s2 s3 s4 s5 amounts items users counts tags where
    amounts: "load_f64_record_map (tp_amounts_map t) st = (Inr amounts, s1)"
    and items: "load_i64_record_map (tp_items_map t) s1 = (Inr items, s2)"
    and rest: "load_optional_list (tp_users_list t) s2 = (Inr users, s3)"
      "load_i64_record_map (tp_tag_counts_map t) s3 = (Inr counts, s4)"
      "load_optional_list (tp_tags_list t) s4 = (Inr tags, s5)"
    and acc: "acc = \<lparr> ac_amounts = amounts, ac_items = items, ac_users = users, ac_tag_counts = counts, ac_tags = tags \<rparr>"
    and last: "st' = s5"
    unfolding load_hot_jsonl_native_accumulators_def ev_then_Inr_iff by auto
  have s1: "s1 = st" and st: "st' = st"
    using amounts items rest last by (auto dest!: load_state)
  obtain r r' where "record_of_local (tp_amounts_map t) st = Inr r" "record_of_local (tp_items_map t) st = Inr r'"
    and "dom (map_of amounts) = fst ` set r" "dom (map_of items) = fst ` set r'"
    using amounts items loaded_keys [of "\<lambda>n. value_to_f64 n ''hot loop''"] loaded_keys [of "\<lambda>n. value_to_i64 n ''hot loop''"]
    by (force simp: s1 load_f64_record_map_def load_i64_record_map_def and_then_eq_Inr)
  with assms(2) have "dom (map_of amounts) = dom (map_of items)" by (simp add: same_users_def)
  then show ?thesis by (auto simp: consistent_def acc st)
qed

lemma count_diag_simps [simp]: "count_diag d st = (Inr (), with_diagnostics d st)"
  by (simp add: count_diag_def)

lemma selection_keeps_locals:
  "record_hot_jsonl_ir_fused_selection opt st = (r, st') \<Longrightarrow> es_scopes st' = es_scopes st"
  by (auto simp: record_hot_jsonl_ir_fused_selection_def ev_then_def split: option.splits)

lemma same_scopes: "es_scopes st = es_scopes st' \<Longrightarrow> get_local x st = get_local x st'"
  by (simp add: get_local_def)

lemma same_users_scopes: "es_scopes st = es_scopes st' \<Longrightarrow> same_users t st = same_users t st'"
  by (simp add: same_users_def record_of_local_def get_local_def)

lemma optimized_stone_function [simp]: "so_function (optimize_stone_loop_ir f) = f"
  by (simp add: optimize_stone_loop_ir_def Let_def)

lemma load_accumulators_state:
  "load_hot_jsonl_native_accumulators t st = (Inr acc, st') \<Longrightarrow> st' = st"
  unfolding load_hot_jsonl_native_accumulators_def ev_then_Inr_iff by (auto dest!: load_state)

lemma prepare_native_Inr:
  assumes "prepare_native f trace st = (Inr (plan, acc), st')"
  shows "trace f = Inr plan \<and> es_scopes st' = es_scopes st
    \<and> (\<exists>s. es_scopes s = es_scopes st \<and> load_hot_jsonl_native_accumulators plan s = (Inr acc, st'))"
proof -
  obtain s u where select: "record_hot_jsonl_ir_fused_selection (optimize_stone_loop_ir f) st = (u, s)"
    and trace: "trace f = Inr plan" and load: "load_hot_jsonl_native_accumulators plan s = (Inr acc, st')"
    using assms by (auto simp: prepare_native_def ev_then_Inr_iff)
  have "es_scopes s = es_scopes st" by (rule selection_keeps_locals [OF select])
  with trace load load_accumulators_state [OF load] show ?thesis by auto
qed

lemma same_totals_lists:
  "same_totals t a b \<Longrightarrow> tp_users_list t \<noteq> None \<Longrightarrow> tp_tags_list t \<noteq> None \<Longrightarrow> a = b"
  by (simp add: same_totals_def)

lemma native_rows_modes:
  assumes f: "compile_hot_jsonl_vm_function p = Some g" "compile_hot_jsonl_trace_plan_from_ir g = Some t"
      "f = g\<lparr> sf_adapter := ad \<rparr>"
    and t: "distinct_keys t" "tp_users_list t \<noteq> None" "tp_tags_list t \<noteq> None" and users: "same_users t st"
    and run: "native_rows_body (interpreted False rt) targets rows f body st = (Inr (), st')"
  shows "native_rows_body (interpreted True rt) targets rows f body st = (Inr (), st')"
proof -
  let ?trace = "\<lambda>g. ok_or (vm_error ''unsupported JSONL native loop IR'') (compile_hot_jsonl_trace_plan_from_ir g)"
  obtain plan acc s1 acc' s2 where prep: "prepare_native f ?trace st = (Inr (plan, acc), s1)"
    and loop: "execute_rows (interpreted False rt) f plan (row_slices rows) acc s1 = (Inr acc', s2)"
    using run by (auto simp: native_rows_body_def run_native_rows_def ev_then_Inr_iff)
  have "?trace f = Inr t" using f by simp
  with prepare_native_Inr [OF prep] obtain s where plan: "plan = t" and "es_scopes s = es_scopes st"
    "load_hot_jsonl_native_accumulators t s = (Inr acc, s1)" by auto
  then have "consistent acc" using load_accumulators same_users_scopes users by metis
  moreover have "same_totals t acc acc" by (simp add: same_totals_def)
  ultimately obtain a' where "execute_rows (interpreted True rt) f plan (row_slices rows) acc s1 = (Inr a', s2)"
    and "same_totals t a' acc'"
    using execute_rows_modes [OF f t(1) _ _ loop [unfolded plan], of acc] plan by auto
  then have "execute_rows (interpreted True rt) f plan (row_slices rows) acc s1 = (Inr acc', s2)"
    using same_totals_lists [OF _ t(2,3)] by blast
  then show ?thesis
    using run prep loop
    by (cases "last_opt (rows_lines rows)") (simp_all add: native_rows_body_def run_native_rows_def)
qed

text \<open>C36: the switch between the machine and the native trace body does not change what a loop over JSON
  rows does. When the loop with the native body succeeds, the loop with the machine ends in the same
  state, with the same locals and the same counters, provided that the four keys differ, the body
  keeps the lists of users and tags, and the two records start with the same users.\<close>

theorem interpreter_switch_is_transparent:
  assumes "gp_ops plan = [GJsonlAggregation body]" and "jb_nested body = None"
    and "compile_hot_jsonl_trace_plan body = Some t"
    and "distinct_keys t" and "tp_users_list t \<noteq> None" and "tp_tags_list t \<noteq> None" and "same_users t st"
    and "eval_for_jsonl_rows_generic_native_body (interpreted False rt) targets rows plan st = (Inr (), st')"
  shows "eval_for_jsonl_rows_generic_native_body (interpreted True rt) targets rows plan st = (Inr (), st')"
proof -
  obtain g where g: "compile_hot_jsonl_vm_function body = Some g" "compile_hot_jsonl_trace_plan_from_ir g = Some t"
    using assms(3) by (auto simp: compile_hot_jsonl_trace_plan_def elim!: bind_eq_SomeE)
  then have f: "compile_hot_jsonl_loop_ir_function plan = Some (g\<lparr> sf_adapter := Some (loop_ir_iterator_adapter plan) \<rparr>)"
    using assms(1) by (simp add: compile_hot_jsonl_loop_ir_function_def)
  show ?thesis
    using assms(8) native_rows_modes [OF g refl assms(4-7), of rt targets rows]
    by (simp add: eval_for_jsonl_rows_generic_native_body_def assms(1,2) f ev_then_def)
qed

section \<open>The steps of compiled code\<close>

definition append_binding :: "string option \<Rightarrow> string list \<Rightarrow> bindings" where
  "append_binding name keys = (if opt_name name = '''' then []
     else [(opt_name name, RNu (string_list_from_ordered_keys keys))])"

definition written_bindings :: "runtime \<Rightarrow> json_body \<Rightarrow> accumulators \<Rightarrow> bindings" where
  "written_bindings rt p acc =
     [(jb_amounts_map p, RNu (VRecord (f64_record_from_native_map rt (ac_users acc) (ac_amounts acc)))),
      (jb_items_map p, RNu (VRecord (i64_record_from_native_map rt (ac_users acc) (ac_items acc))))]
     @ append_binding (jb_users_list p) (ac_users acc)
     @ [(jb_tag_counts_map p, RNu (VRecord (i64_record_from_native_map rt (ac_tags acc) (ac_tag_counts acc))))]
     @ append_binding (jb_tags_list p) (ac_tags acc)"

definition last_user :: "serde \<Rightarrow> json_body \<Rightarrow> row_slice \<Rightarrow> string res" where
  "last_user sj p row = (if jb_user_has_default p
     then hot_jsonl_row_get_string_default sj row (jb_user_key p) (jb_user_default p)
     else hot_jsonl_row_get_string_required sj row (jb_user_key p))"

lemma compiled_steps:
  assumes g: "compile_hot_jsonl_vm_function p = Some g" and f: "f = g\<lparr> sf_adapter := ad \<rparr>"
  shows "validate_hot_jsonl_vm_guards f = Inr ()"
    and "materialize_hot_jsonl_vm_snapshot_accumulators rt f 0 acc = Inr (written_bindings rt p acc)"
    and "materialize_hot_jsonl_vm_snapshot_row_locals sj f 0 row
      = and_then (last_user sj p row) (\<lambda>user. Inr [(jb_user_name p, RNu (VString user))])"
    and "so_kernel (optimize_stone_loop_ir f) = Some KJsonlAggregation"
proof -
  obtain s where s: "match_body_ops (jb_ops p) = Some s" "shape_agrees s p"
    and entry: "sf_entry f = 0" and lcl: "sf_locals f = [jb_user_name p]" and accs: "sf_accumulators f = acc_specs s"
    and kst: "sf_constants f = [KString (bs_user_key s), KString (jb_user_default p), KString (bs_amount_key s),
      KString (bs_items_key s), KString (bs_tags_key s), KEmptyList]"
    and gds: "sf_guards f = [\<lparr> sg_kind = InputIsJsonObject 0, sg_snapshot = 0 \<rparr>,
      \<lparr> sg_kind = AccumulatorShape 0 F64Map, sg_snapshot = 0 \<rparr>,
      \<lparr> sg_kind = AccumulatorShape 1 I64Map, sg_snapshot = 0 \<rparr>,
      \<lparr> sg_kind = AccumulatorShape 2 StringList, sg_snapshot = 0 \<rparr>,
      \<lparr> sg_kind = AccumulatorShape 3 I64Map, sg_snapshot = 0 \<rparr>,
      \<lparr> sg_kind = AccumulatorShape 4 StringList, sg_snapshot = 0 \<rparr>]"
    and snaps: "sf_snapshots f = [\<lparr> ss_locals = [(0, 1)],
      ss_accumulators = [(bs_amounts_map s, 0), (bs_items_map s, 1), (opt_name (bs_users_list s), 2),
        (bs_tag_counts_map s, 3), (opt_name (bs_tags_list s), 4)] \<rparr>]"
    and blks: "sf_blocks f = [\<lparr> sb_ops = row_block_ops s p, sb_terminator = JsonEachStrArray 4 5 1 2 \<rparr>,
      \<lparr> sb_ops = [MapAddI64Const 3 5 1 (map_option (\<lambda>_. 4) (bs_tags_list s))], sb_terminator = Jump 0 \<rparr>,
      \<lparr> sb_ops = [], sb_terminator = Return \<rparr>]"
    using g f by (auto simp: compile_hot_jsonl_vm_function_def elim!: bind_eq_SomeE)
  note shape = entry lcl accs kst gds snaps blks
  show "validate_hot_jsonl_vm_guards f = Inr ()"
    by (simp add: validate_hot_jsonl_vm_guards_def validate_guard_def shape acc_specs_def eval_nat_numeral)
  show "materialize_hot_jsonl_vm_snapshot_accumulators rt f 0 acc = Inr (written_bindings rt p acc)"
    using s(2) by (simp add: materialize_hot_jsonl_vm_snapshot_accumulators_def snapshot_binding_def shape acc_specs_def
        eval_nat_numeral written_bindings_def append_binding_def with_binding_def shape_agrees_def)
  show "materialize_hot_jsonl_vm_snapshot_row_locals sj f 0 row
      = and_then (last_user sj p row) (\<lambda>user. Inr [(jb_user_name p, RNu (VString user))])"
    using s(2) by (simp add: materialize_hot_jsonl_vm_snapshot_row_locals_def snapshot_local_def shape last_user_def
        materialize_hot_jsonl_vm_user_reg_def row_block_ops_def stone_const_string_def shape_agrees_def and_then_assoc)
  show "so_kernel (optimize_stone_loop_ir f) = Some KJsonlAggregation"
    using compiled_jsonl_subgraph [OF g s(1)]
    by (simp add: f optimize_stone_loop_ir_def match_hot_jsonl_ir_subgraph_def Let_def)
qed

section \<open>What a loop leaves behind\<close>

lemma native_rows_fold:
  assumes "\<not> rt_vm_interpreter rt"
  shows "execute_rows rt f t rows acc
    = ev_lift (fold_ok (execute_hot_jsonl_native_trace_body (rt_serde rt) t) rows acc)"
proof (induction rows arbitrary: acc)
  case (Cons row rows)
  then show ?case using assms
    by (cases "execute_hot_jsonl_native_trace_body (rt_serde rt) t row acc")
       (simp_all add: execute_row_def ev_then_def fun_eq_iff)
qed (simp add: fun_eq_iff)

lemma load_map_scopes:
  assumes "es_scopes s = es_scopes st"
  shows "fst (load_f64_record_map x s) = fst (load_f64_record_map x st)"
    and "fst (load_i64_record_map x s) = fst (load_i64_record_map x st)"
    and "fst (load_optional_list l s) = fst (load_optional_list l st)"
  using assms by (simp_all add: load_f64_record_map_def load_i64_record_map_def load_optional_list_def
      load_string_list_def record_of_local_def get_local_def split: option.splits)

text \<open>The accumulators that the locals of a state load to.\<close>

definition loads :: "trace_plan \<Rightarrow> eval_state \<Rightarrow> accumulators \<Rightarrow> bool" where
  "loads t st acc \<longleftrightarrow> fst (load_f64_record_map (tp_amounts_map t) st) = Inr (ac_amounts acc)
   \<and> fst (load_i64_record_map (tp_items_map t) st) = Inr (ac_items acc)
   \<and> fst (load_optional_list (tp_users_list t) st) = Inr (ac_users acc)
   \<and> fst (load_i64_record_map (tp_tag_counts_map t) st) = Inr (ac_tag_counts acc)
   \<and> fst (load_optional_list (tp_tags_list t) st) = Inr (ac_tags acc)"

lemma ev_then_pure: "m st = (r, st) \<Longrightarrow> ev_then m k st = (case r of Inl e \<Rightarrow> (Inl e, st) | Inr x \<Rightarrow> k x st)"
  by (simp add: ev_then_def split: sum.splits)

lemma loads_iff: "load_hot_jsonl_native_accumulators t st = (Inr acc, st') \<longleftrightarrow> st' = st \<and> loads t st acc"
proof -
  obtain a i u c g where l: "load_f64_record_map (tp_amounts_map t) st = (a, st)"
    "load_i64_record_map (tp_items_map t) st = (i, st)" "load_optional_list (tp_users_list t) st = (u, st)"
    "load_i64_record_map (tp_tag_counts_map t) st = (c, st)" "load_optional_list (tp_tags_list t) st = (g, st)"
    by (metis load_state surj_pair)
  obtain am im us cs gs where acc: "acc = \<lparr> ac_amounts = am, ac_items = im, ac_users = us, ac_tag_counts = cs, ac_tags = gs \<rparr>"
    by (cases acc)
  have "load_hot_jsonl_native_accumulators t st = (Inr acc, st')
    \<longleftrightarrow> st' = st \<and> a = Inr am \<and> i = Inr im \<and> u = Inr us \<and> c = Inr cs \<and> g = Inr gs"
    unfolding load_hot_jsonl_native_accumulators_def acc
    by (auto simp: ev_then_pure l split: sum.split)
  then show ?thesis by (simp add: loads_def l acc)
qed

lemma loads_scopes: "es_scopes s = es_scopes st \<Longrightarrow> loads t s acc \<longleftrightarrow> loads t st acc"
  using load_map_scopes [of s st] by (simp add: loads_def)

text \<open>The value of a name after the loop: the bindings of the accumulators come last, before them the local
  of the user and the loop target from the last row.\<close>

definition local_after :: "runtime \<Rightarrow> json_body \<Rightarrow> string list \<Rightarrow> jsonl_rows \<Rightarrow> accumulators \<Rightarrow> string \<Rightarrow> rvalue option
    \<Rightarrow> rvalue option" where
  "local_after rt body targets rows acc x old = (case map_of (rev (written_bindings rt body acc)) x of
     Some v \<Rightarrow> Some v
   | None \<Rightarrow> (case last_opt (rows_lines rows) of
       None \<Rightarrow> old
     | Some line \<Rightarrow>
         if x = jb_user_name body
         then Some (RNu (VString (case last_user (rt_serde rt) body (view_slice (row_json_view rows line)) of
                Inr user \<Rightarrow> user | Inl _ \<Rightarrow> '''')))
         else if targets \<noteq> [] \<and> x = hd targets then Some (jsonl_row_view rows line)
         else old))"

lemma get_local_bindings:
  "get_local x (fold (\<lambda>(name, v). set_local name v) bs st)
    = (case map_of (rev bs) x of Some v \<Rightarrow> Some v | None \<Rightarrow> get_local x st)"
  by (induction bs arbitrary: st) (auto simp: locals.get_put map_add_def split: option.splits)

lemma write_snapshot_Inr:
  assumes "write_snapshot rt (Inr bs) st = (Inr (), st')"
  shows "st' = fold (\<lambda>(name, v). set_local name v) bs st"
  using assms by (auto simp: write_snapshot_def ev_then_Inr_iff apply_stone_materialized_snapshot_def)

lemma row_count_locals:
  assumes "apply_hot_jsonl_row_count body n st = (Inr (), st')" and "jb_row_count_local body \<noteq> Some x"
  shows "get_local x st' = get_local x st"
  using assms by (auto simp: apply_hot_jsonl_row_count_def locals.get_upd split: option.splits sum.splits)

lemma count_executed_locals: "count_executed st = (r, st') \<Longrightarrow> get_local x st' = get_local x st"
  by (auto simp: count_executed_def ev_then_def)

lemma last_row_locals:
  assumes "(case last_opt (rows_lines rows) of None \<Rightarrow> ev_ret ()
      | Some line \<Rightarrow> ev_then (set_first_target targets (jsonl_row_view rows line)) (\<lambda>_.
          write_snapshot rt (and_then (last_user (rt_serde rt) body (view_slice (row_json_view rows line)))
            (\<lambda>user. Inr [(jb_user_name body, RNu (VString user))])))) st = (Inr (), st')"
    and "map_of (rev (written_bindings rt body acc)) x = None"
  shows "get_local x st' = local_after rt body targets rows acc x (get_local x st)"
proof (cases "last_opt (rows_lines rows)")
  case None
  with assms show ?thesis by (simp add: local_after_def)
next
  case (Some line)
  then obtain s where target: "set_first_target targets (jsonl_row_view rows line) st = (Inr (), s)"
    and user: "write_snapshot rt (and_then (last_user (rt_serde rt) body (view_slice (row_json_view rows line)))
            (\<lambda>user. Inr [(jb_user_name body, RNu (VString user))])) s = (Inr (), st')"
    using assms(1) by (auto simp: ev_then_Inr_iff)
  then obtain u where u: "last_user (rt_serde rt) body (view_slice (row_json_view rows line)) = Inr u"
    by (auto simp: write_snapshot_def ev_then_Inr_iff and_then_eq_Inr)
  have "st' = set_local (jb_user_name body) (RNu (VString u)) s"
    using write_snapshot_Inr [of rt "[(jb_user_name body, RNu (VString u))]" s st'] user u by simp
  moreover have "get_local x s = (if targets \<noteq> [] \<and> x = hd targets then Some (jsonl_row_view rows line) else get_local x st)"
    using target by (auto simp: set_first_target_def locals.get_put split: list.splits)
  ultimately show ?thesis using assms(2) Some u by (simp add: local_after_def locals.get_put)
qed

text \<open>C37: a loop over JSON rows that runs as a native aggregation is the fold of the trace body over the
  rows, from the accumulators that the locals hold to the accumulators that it writes back. After it
  every name but the row counter has the value written by the snapshot, or the user or view of the
  last row, or else its old value: the other names that the statements of the body assign are not
  written.\<close>

theorem native_loop_locals:
  assumes "gp_ops plan = [GJsonlAggregation body]" and "jb_nested body = None" and "\<not> rt_vm_interpreter rt"
    and "compile_hot_jsonl_trace_plan body = Some t"
    and "eval_for_jsonl_rows_generic_native_body rt targets rows plan st = (Inr (), st')"
  shows "\<exists>acc acc'. loads t st acc
    \<and> fold_ok (execute_hot_jsonl_native_trace_body (rt_serde rt) t) (row_slices rows) acc = Inr acc'
    \<and> (\<forall>x. get_local x st' = local_after rt body targets rows acc' x (get_local x st) \<or> jb_row_count_local body = Some x)"
proof -
  obtain g where g: "compile_hot_jsonl_vm_function body = Some g" "compile_hot_jsonl_trace_plan_from_ir g = Some t"
    using assms(4) by (auto simp: compile_hot_jsonl_trace_plan_def elim!: bind_eq_SomeE)
  define f where f: "f = g\<lparr> sf_adapter := Some (loop_ir_iterator_adapter plan) \<rparr>"
  note steps = compiled_steps [OF g(1) f]
  have "native_rows_body rt targets rows f body st = (Inr (), st')"
    using assms(5) g by (simp add: eval_for_jsonl_rows_generic_native_body_def assms(1,2) f
        compile_hot_jsonl_loop_ir_function_def ev_then_def)
  then obtain plan' acc s1 where prep: "prepare_native f (\<lambda>g. ok_or (vm_error ''unsupported JSONL native loop IR'')
      (compile_hot_jsonl_trace_plan_from_ir g)) st = (Inr (plan', acc), s1)"
    and run: "run_native_rows rt targets rows f body plan' acc s1 = (Inr (), st')"
    unfolding native_rows_body_def optimized_stone_function by (auto elim!: ev_then_InrE)
  have plan: "plan' = t" and s1: "es_scopes s1 = es_scopes st"
    using prepare_native_Inr [OF prep] g by (simp_all add: f)
  obtain s where "es_scopes s = es_scopes st" and "loads t s acc"
    using prepare_native_Inr [OF prep] plan by (auto simp: loads_iff)
  then have loaded: "loads t st acc" using loads_scopes by blast
  let ?last = "case last_opt (rows_lines rows) of None \<Rightarrow> ev_ret ()
      | Some line \<Rightarrow> ev_then (set_first_target targets (jsonl_row_view rows line)) (\<lambda>_.
          write_snapshot rt (and_then (last_user (rt_serde rt) body (view_slice (row_json_view rows line)))
            (\<lambda>user. Inr [(jb_user_name body, RNu (VString user))])))"
  let ?fold = "fold_ok (execute_hot_jsonl_native_trace_body (rt_serde rt) t) (row_slices rows) acc"
  have "ev_then (ev_lift ?fold) (\<lambda>acc'. ev_then ?last (\<lambda>_. ev_then count_executed (\<lambda>_.
      ev_then (write_snapshot rt (Inr (written_bindings rt body acc')))
        (\<lambda>_. apply_hot_jsonl_row_count body (length (rows_lines rows)))))) s1 = (Inr (), st')"
    using run unfolding run_native_rows_def native_rows_fold [OF assms(3)] steps(2,3) plan .
  then obtain acc' s0 where "ev_lift ?fold s1 = (Inr acc', s0)"
    and rest: "ev_then ?last (\<lambda>_. ev_then count_executed (\<lambda>_.
      ev_then (write_snapshot rt (Inr (written_bindings rt body acc')))
        (\<lambda>_. apply_hot_jsonl_row_count body (length (rows_lines rows))))) s0 = (Inr (), st')"
    by (rule ev_then_InrE)
  then have loop: "?fold = Inr acc'" and s0: "s0 = s1" by simp_all
  from rest [unfolded s0] obtain u2 s2 where last: "?last s1 = (Inr u2, s2)"
    and rest: "ev_then count_executed (\<lambda>_. ev_then (write_snapshot rt (Inr (written_bindings rt body acc')))
        (\<lambda>_. apply_hot_jsonl_row_count body (length (rows_lines rows)))) s2 = (Inr (), st')"
    by (rule ev_then_InrE)
  from rest obtain u3 s3 where count: "count_executed s2 = (Inr u3, s3)"
    and rest: "ev_then (write_snapshot rt (Inr (written_bindings rt body acc')))
        (\<lambda>_. apply_hot_jsonl_row_count body (length (rows_lines rows))) s3 = (Inr (), st')"
    by (rule ev_then_InrE)
  from rest obtain u4 s4 where written: "write_snapshot rt (Inr (written_bindings rt body acc')) s3 = (Inr u4, s4)"
    and rows: "apply_hot_jsonl_row_count body (length (rows_lines rows)) s4 = (Inr (), st')"
    by (rule ev_then_InrE)
  have s4: "s4 = fold (\<lambda>(name, v). set_local name v) (written_bindings rt body acc') s3"
    using write_snapshot_Inr [of rt _ s3 s4] written by simp
  have "get_local x st' = local_after rt body targets rows acc' x (get_local x st)"
    if "jb_row_count_local body \<noteq> Some x" for x
  proof -
    have "get_local x st' = (case map_of (rev (written_bindings rt body acc')) x of Some v \<Rightarrow> Some v | None \<Rightarrow> get_local x s2)"
      using row_count_locals [OF rows that] count_executed_locals [OF count, of x] by (simp add: s4 get_local_bindings split: option.split)
    then show ?thesis
      using last_row_locals [where rows = rows and targets = targets and rt = rt and body = body and st = s1 and st' = s2] last same_scopes [OF s1, of x]
      by (cases "map_of (rev (written_bindings rt body acc')) x") (simp_all add: local_after_def)
  qed
  with loaded loop show ?thesis by blast
qed

section \<open>A run\<close>

definition sample_runtime :: runtime where
  "sample_runtime = \<lparr> rt_is_empty = (\<lambda>_. False), rt_serde = no_serde, rt_owned = (\<lambda>_. Inl no_key),
     rt_iterate_other = (\<lambda>_. ev_ret []), rt_other_expr = (\<lambda>_ _. ev_ret (RNu VNothing)),
     rt_other_stmt = (\<lambda>_ _. ev_ret FBreak), rt_to_lowercase = id, rt_hash_order = id,
     rt_vm_interpreter = False, rt_validate_snapshot = False, rt_read_bytes = (\<lambda>_ _. Inl (no_key '''')) \<rparr>"

definition sample_state :: eval_state where
  "sample_state = fold (\<lambda>(x, v). set_local x (RNu v)) [(''I'', VRecord [(''b'', VInt 7)]),
       (''A'', VRecord [(''b'', VFloat f64_zero)]), (''U'', VList [VString ''b'']), (''T'', VRecord []),
       (''S'', VList [])]
     \<lparr> es_scopes = [Map.empty], es_functions = Map.empty, es_next_callable = 0, es_hot_enabled = True,
        es_session_names = [], es_diagnostics = empty_diagnostics \<rparr>"

definition sample_rows :: jsonl_rows where
  "sample_rows = jsonl_rows_from_bytes (hr_bytes sample_row) None ''f''"

definition sample_plan :: generic_loop_plan where
  "sample_plan = \<lparr> gp_target = ''r'', gp_iter = ReadJsonl, gp_ops = [GJsonlAggregation sample_body] \<rparr>"

definition sample_before :: accumulators where
  "sample_before = \<lparr> ac_amounts = [(''b'', f64_zero)], ac_items = [(''b'', 7)], ac_users = [''b''],
     ac_tag_counts = [], ac_tags = [] \<rparr>"

definition sample_after :: accumulators where
  "sample_after = \<lparr> ac_amounts = [(''b'', f64_zero), (''a'', f64_zero)], ac_items = [(''b'', 7), (''a'', 3)],
     ac_users = [''b'', ''a''], ac_tag_counts = [(''x'', 1)], ac_tags = [''x''] \<rparr>"

lemma sample_facts:
  "loads (trace_of_body sample_body) sample_state sample_before"
  "fold_ok (execute_hot_jsonl_native_trace_body (rt_serde sample_runtime) (trace_of_body sample_body))
     (row_slices sample_rows) sample_before = Inr sample_after"
  "rows_lines sample_rows = [((0, 25), 1)]"
  "last_user no_serde sample_body (view_slice (row_json_view sample_rows ((0, 25), 1))) = Inr ''a''"
  "jb_nested sample_body = None" "distinct_keys (trace_of_body sample_body)"
  "tp_users_list (trace_of_body sample_body) \<noteq> None" "tp_tags_list (trace_of_body sample_body) \<noteq> None"
  "same_users (trace_of_body sample_body) sample_state" "jb_row_count_local sample_body = None"
proof -
  show "loads (trace_of_body sample_body) sample_state sample_before" by code_simp
  show "fold_ok (execute_hot_jsonl_native_trace_body (rt_serde sample_runtime) (trace_of_body sample_body))
     (row_slices sample_rows) sample_before = Inr sample_after" by code_simp
  show "rows_lines sample_rows = [((0, 25), 1)]" by code_simp
  show "last_user no_serde sample_body (view_slice (row_json_view sample_rows ((0, 25), 1))) = Inr ''a''" by code_simp
  show "distinct_keys (trace_of_body sample_body)" by code_simp
  show "same_users (trace_of_body sample_body) sample_state" by code_simp
qed (simp_all add: sample_body_def flat_body_plan_def trace_of_body_def)

lemma sample_body_compiles:
  obtains g where "compile_hot_jsonl_vm_function sample_body = Some g"
    and "compile_hot_jsonl_trace_plan_from_ir g = Some (trace_of_body sample_body)"
    and "compile_hot_jsonl_trace_plan sample_body = Some (trace_of_body sample_body)"
proof -
  have "is_flat_body sample_body" by (simp add: sample_body_def)
  from flat_body_compiles [OF this] obtain g where g: "compile_hot_jsonl_vm_function sample_body = Some g" ..
  moreover have "compile_hot_jsonl_trace_plan_from_ir g = Some (trace_of_body sample_body)"
    by (rule compiled_jsonl_trace [OF g]) (simp_all add: sample_body_def flat_body_plan_def)
  ultimately show ?thesis by (intro that) (simp_all add: compile_hot_jsonl_trace_plan_def)
qed

lemma prepare_sample:
  assumes g: "compile_hot_jsonl_vm_function p = Some g" and f: "f = g\<lparr> sf_adapter := ad \<rparr>" and "trace f = Inr t"
    and "loads t st acc"
  shows "\<exists>s. prepare_native f trace st = (Inr (t, acc), s) \<and> es_scopes s = es_scopes st"
proof -
  let ?s = "with_diagnostics (diag_kernel_selected KJsonlAggregation)
    (with_diagnostics (diag_optimized (so_diagnostics (optimize_stone_loop_ir f))) (with_diagnostics diag_loop_ir_lowered st))"
  have "loads t ?s acc" using assms(4) loads_scopes [of ?s st] by simp
  then have "load_hot_jsonl_native_accumulators t ?s = (Inr acc, ?s)" by (simp add: loads_iff)
  then show ?thesis
    using assms(3) compiled_steps [OF g f]
    by (simp add: prepare_native_def record_hot_jsonl_ir_fused_selection_def ev_then_def)
qed

lemma sample_run:
  obtains st where "eval_for_jsonl_rows_generic_native_body sample_runtime [''r''] sample_rows sample_plan sample_state = (Inr (), st)"
proof -
  obtain g where g: "compile_hot_jsonl_vm_function sample_body = Some g"
    "compile_hot_jsonl_trace_plan_from_ir g = Some (trace_of_body sample_body)"
    by (rule sample_body_compiles)
  define f where f: "f = g\<lparr> sf_adapter := Some (loop_ir_iterator_adapter sample_plan) \<rparr>"
  let ?trace = "\<lambda>g. ok_or (vm_error ''unsupported JSONL native loop IR'') (compile_hot_jsonl_trace_plan_from_ir g)"
  obtain s where prep: "prepare_native f ?trace sample_state = (Inr (trace_of_body sample_body, sample_before), s)"
    using prepare_sample [OF g(1) f, of ?trace, OF _ sample_facts(1)] g(2) by (auto simp: f)
  have mode: "\<not> rt_vm_interpreter sample_runtime" and valid: "\<not> rt_validate_snapshot sample_runtime"
    and sj: "rt_serde sample_runtime = no_serde"
    by (simp_all add: sample_runtime_def)
  obtain s' where "run_native_rows sample_runtime [''r''] sample_rows f sample_body (trace_of_body sample_body) sample_before s
      = (Inr (), s')"
    using sample_facts(2,4)
    by (simp add: run_native_rows_def native_rows_fold [OF mode] compiled_steps [OF g(1) f] ev_then_def last_opt_def
        sample_facts(3,10) sj write_snapshot_def valid set_first_target_def apply_stone_materialized_snapshot_def
        count_executed_def apply_hot_jsonl_row_count_def)
  with prep have "native_rows_body sample_runtime [''r''] sample_rows f sample_body sample_state = (Inr (), s')"
    by (simp add: native_rows_body_def ev_then_def)
  then show ?thesis
    using that g(1) sample_facts(5)
    by (simp add: eval_for_jsonl_rows_generic_native_body_def sample_plan_def compile_hot_jsonl_loop_ir_function_def f
        ev_then_def)
qed

lemma loads_unique: "loads t st acc \<Longrightarrow> loads t st acc' \<Longrightarrow> acc = acc'"
  by (cases acc; cases acc') (simp add: loads_def)

theorem native_loop_locals_witness:
  "\<exists>st. eval_for_jsonl_rows_generic_native_body sample_runtime [''r''] sample_rows sample_plan sample_state = (Inr (), st)
    \<and> get_local ''I'' st = Some (RNu (VRecord [(''b'', VInt 7), (''a'', VInt 3)]))
    \<and> get_local ''w'' st = Some (RNu (VString ''a''))"
proof -
  obtain st where st: "eval_for_jsonl_rows_generic_native_body sample_runtime [''r''] sample_rows sample_plan sample_state
      = (Inr (), st)" by (rule sample_run)
  have t: "compile_hot_jsonl_trace_plan sample_body = Some (trace_of_body sample_body)"
    by (rule sample_body_compiles)
  have plan: "gp_ops sample_plan = [GJsonlAggregation sample_body]" by (simp add: sample_plan_def)
  have mode: "\<not> rt_vm_interpreter sample_runtime" by (simp add: sample_runtime_def)
  obtain acc acc' where "loads (trace_of_body sample_body) sample_state acc"
    and loop: "fold_ok (execute_hot_jsonl_native_trace_body (rt_serde sample_runtime) (trace_of_body sample_body))
      (row_slices sample_rows) acc = Inr acc'"
    and after: "\<And>x. get_local x st = local_after sample_runtime sample_body [''r''] sample_rows acc' x (get_local x sample_state)"
    using native_loop_locals [OF plan sample_facts(5) mode t st] sample_facts(10) by auto
  then have "acc = sample_before" using sample_facts(1) loads_unique by blast
  then have acc': "acc' = sample_after" using loop sample_facts(2) by simp
  have "local_after sample_runtime sample_body [''r''] sample_rows sample_after ''I'' old
      = Some (RNu (VRecord [(''b'', VInt 7), (''a'', VInt 3)]))"
    "local_after sample_runtime sample_body [''r''] sample_rows sample_after ''w'' old = Some (RNu (VString ''a''))" for old
    by (code_simp, code_simp)
  then show ?thesis using st after by (simp add: acc')
qed

theorem interpreter_switch_is_transparent_witness:
  "\<exists>st. eval_for_jsonl_rows_generic_native_body sample_runtime [''r''] sample_rows sample_plan sample_state = (Inr (), st)
    \<and> eval_for_jsonl_rows_generic_native_body (interpreted True sample_runtime) [''r''] sample_rows sample_plan sample_state
      = (Inr (), st)"
proof -
  obtain st where st: "eval_for_jsonl_rows_generic_native_body sample_runtime [''r''] sample_rows sample_plan sample_state
      = (Inr (), st)" by (rule sample_run)
  have t: "compile_hot_jsonl_trace_plan sample_body = Some (trace_of_body sample_body)"
    by (rule sample_body_compiles)
  have plan: "gp_ops sample_plan = [GJsonlAggregation sample_body]" by (simp add: sample_plan_def)
  have "interpreted False sample_runtime = sample_runtime" by (simp add: interpreted_def sample_runtime_def)
  then show ?thesis
    using interpreter_switch_is_transparent [OF plan sample_facts(5) t sample_facts(6-9), of sample_runtime "[''r'']"] st
    by auto
qed

section \<open>Totals\<close>

text \<open>The strings of an array, and the fold that a walk over them is.\<close>

definition strings_of :: "serde \<Rightarrow> string \<Rightarrow> string list res" where
  "strings_of sj bytes = hot_jsonl_string_array_for_each_string sj bytes (\<lambda>x xs. Inr (xs @ [x])) []"

lemma for_each_string_fold:
  "hot_jsonl_string_array_for_each_string sj bytes (\<lambda>x s. Inr (g x s)) s
    = and_then (strings_of sj bytes) (\<lambda>xs. Inr (fold g xs s))"
proof -
  have "rel_sum (=) (\<lambda>xs t. t = fold g xs s)
      (hot_jsonl_string_array_for_each_string sj bytes (\<lambda>x xs. Inr (xs @ [x])) [])
      (hot_jsonl_string_array_for_each_string sj bytes (\<lambda>x s. Inr (g x s)) s)"
    by (rule string_array_simulation) simp_all
  then show ?thesis unfolding strings_of_def by (cases rule: rel_sum.cases) simp_all
qed

definition count_of :: "counts \<Rightarrow> string \<Rightarrow> i64" where
  "count_of m k = (case map_of m k of None \<Rightarrow> 0 | Some n \<Rightarrow> n)"

text \<open>The keys that are not known yet, in the order of their first occurrence.\<close>

primrec new_keys :: "string set \<Rightarrow> string list \<Rightarrow> string list" where
  "new_keys known [] = []"
| "new_keys known (k # ks) = (if k \<in> known then new_keys known ks else k # new_keys (insert k known) ks)"

lemma new_keys_append: "new_keys known (ks @ ks') = new_keys known ks @ new_keys (known \<union> set ks) ks'"
  by (induction ks arbitrary: known) (auto simp: insert_absorb)

definition tag_step :: "string \<Rightarrow> accumulators \<Rightarrow> accumulators" where
  "tag_step k acc = (case map_of (ac_tag_counts acc) k of
     Some n \<Rightarrow> acc\<lparr> ac_tag_counts := AList.update k (n + 1) (ac_tag_counts acc) \<rparr>
   | None \<Rightarrow> acc\<lparr> ac_tag_counts := AList.update k 1 (ac_tag_counts acc), ac_tags := ac_tags acc @ [k] \<rparr>)"

lemma count_tag_step: "count_tag = (\<lambda>k acc. Inr (tag_step k acc))"
  by (simp add: count_tag_def tag_step_def fun_eq_iff)

lemma tag_step_fields [simp]:
  "ac_amounts (tag_step k acc) = ac_amounts acc" "ac_items (tag_step k acc) = ac_items acc"
  "ac_users (tag_step k acc) = ac_users acc"
  "count_of (ac_tag_counts (tag_step k acc)) k' = count_of (ac_tag_counts acc) k' + (if k = k' then 1 else 0)"
  "dom (map_of (ac_tag_counts (tag_step k acc))) = insert k (dom (map_of (ac_tag_counts acc)))"
  "ac_tags (tag_step k acc) = ac_tags acc @ (if k \<in> dom (map_of (ac_tag_counts acc)) then [] else [k])"
  by (auto simp: tag_step_def count_of_def dom_def split: option.splits if_splits)

lemma tag_steps_fields [simp]:
  "ac_amounts (fold tag_step ks acc) = ac_amounts acc" "ac_items (fold tag_step ks acc) = ac_items acc"
  "ac_users (fold tag_step ks acc) = ac_users acc"
  by (induction ks arbitrary: acc) simp_all

lemma tag_steps_counts:
  "count_of (ac_tag_counts (fold tag_step ks acc)) k = count_of (ac_tag_counts acc) k + of_nat (count_list ks k)
   \<and> dom (map_of (ac_tag_counts (fold tag_step ks acc))) = dom (map_of (ac_tag_counts acc)) \<union> set ks
   \<and> ac_tags (fold tag_step ks acc) = ac_tags acc @ new_keys (dom (map_of (ac_tag_counts acc))) ks"
proof (induction ks arbitrary: acc)
  case (Cons x ks)
  show ?case using Cons.IH [of "tag_step x acc"] by (auto simp: insert_absorb)
qed simp

definition row_step :: "row_fields \<times> string list \<Rightarrow> accumulators \<Rightarrow> accumulators" where
  "row_step d acc = fold tag_step (snd d) (add_row True (fst d) acc)"

definition add_amount :: "row_fields \<Rightarrow> f64 option \<Rightarrow> f64 option" where
  "add_amount fs old = Some (case old of None \<Rightarrow> rf_amount fs | Some x \<Rightarrow> f64_add x (rf_amount fs))"

lemma add_row_fields [simp]:
  "ac_tag_counts (add_row b fs acc) = ac_tag_counts acc" "ac_tags (add_row b fs acc) = ac_tags acc"
  "map_of (ac_amounts (add_row b fs acc)) u
     = (if u = rf_user fs then add_amount fs (map_of (ac_amounts acc) u) else map_of (ac_amounts acc) u)"
  "count_of (ac_items (add_row b fs acc)) u = count_of (ac_items acc) u + (if u = rf_user fs then rf_items fs else 0)"
  "ac_users (add_row True fs acc) = ac_users acc @ (if rf_user fs \<in> dom (map_of (ac_amounts acc)) then [] else [rf_user fs])"
  by (auto simp: add_row_def Let_def add_amount_def count_of_def split: option.splits)

lemma add_row_dom [simp]:
  "dom (map_of (ac_amounts (add_row b fs acc))) = insert (rf_user fs) (dom (map_of (ac_amounts acc)))"
  by (auto simp: add_amount_def dom_def split: if_splits)

text \<open>What a list of decoded rows adds to the accumulators.\<close>

definition totals_over :: "(row_fields \<times> string list) list \<Rightarrow> accumulators \<Rightarrow> accumulators \<Rightarrow> bool" where
  "totals_over ds b b' \<longleftrightarrow>
     (\<forall>u. map_of (ac_amounts b') u = fold add_amount (List.filter (\<lambda>fs. rf_user fs = u) (List.map fst ds)) (map_of (ac_amounts b) u))
   \<and> (\<forall>u. count_of (ac_items b') u
        = count_of (ac_items b) u + sum_list (List.map rf_items (List.filter (\<lambda>fs. rf_user fs = u) (List.map fst ds))))
   \<and> (\<forall>k. count_of (ac_tag_counts b') k = count_of (ac_tag_counts b) k + of_nat (count_list (concat (List.map snd ds)) k))
   \<and> ac_users b' = ac_users b @ new_keys (dom (map_of (ac_amounts b))) (List.map (rf_user \<circ> fst) ds)
   \<and> ac_tags b' = ac_tags b @ new_keys (dom (map_of (ac_tag_counts b))) (concat (List.map snd ds))"

lemma totals_of_steps: "totals_over ds b (fold row_step ds b)"
proof (induction ds arbitrary: b)
  case (Cons d ds)
  obtain fs tags where d: "d = (fs, tags)" by (cases d)
  have "count_list (tags @ xs) k = count_list tags k + count_list xs k" for xs and k :: string
    by (induction tags) simp_all
  then show ?case
    using Cons.IH [of "row_step d b"] tag_steps_counts [of tags "add_row True fs b"]
    by (auto simp: totals_over_def row_step_def d new_keys_append insert_absorb algebra_simps)
qed (simp add: totals_over_def)

definition decodes_to :: "serde \<Rightarrow> trace_plan \<Rightarrow> row_slice \<Rightarrow> row_fields \<times> string list \<Rightarrow> bool" where
  "decodes_to sj t row d \<longleftrightarrow> json_object_view_get_hot_jsonl_row_fields sj row t (plan_keys t) = Inr (fst d)
   \<and> strings_of sj (rf_tags (fst d)) = Inr (snd d)"

lemma tag_step_consistent: "consistent acc \<Longrightarrow> consistent (fold tag_step ks acc)"
  by (simp add: consistent_def)

lemma native_row_step:
  assumes "execute_hot_jsonl_native_trace_body sj t row b = Inr b'" and "consistent b"
  obtains d where "decodes_to sj t row d" and "b' = row_step d b" and "consistent b'"
proof -
  obtain fs where fs: "json_object_view_get_hot_jsonl_row_fields sj row t (plan_keys t) = Inr fs"
    and tags: "hot_jsonl_string_array_for_each_string sj (rf_tags fs) count_tag (add_row True fs b) = Inr b'"
    using assms by (auto simp: execute_hot_jsonl_native_trace_body_def and_then_eq_Inr add_user_row)
  obtain xs where "strings_of sj (rf_tags fs) = Inr xs" and "b' = fold tag_step xs (add_row True fs b)"
    using tags unfolding count_tag_step for_each_string_fold by (auto simp: and_then_eq_Inr)
  then show ?thesis
    using that [of "(fs, xs)"] fs tag_step_consistent [OF add_row_consistent [OF assms(2)]]
    by (simp add: decodes_to_def row_step_def)
qed

text \<open>C38: the aggregation adds the totals of its rows to the totals that were there before, which must have an amount
  for a user exactly when they have a number of items. When the trace body runs over a list of rows, every row decodes
  to its fields and tags, and afterwards the number of items of each user is the number before plus the sum over the
  user's rows (modulo two to the 64), the amount is the one before with the amounts of the user's rows added in the
  order of the rows, the count of each tag is the count before plus its occurrences, and the two lists grow by the users
  and tags that had no total before, in the order of their first occurrence.\<close>

theorem aggregation_totals:
  assumes "fold_ok (execute_hot_jsonl_native_trace_body sj t) rows b = Inr b'" and "consistent b"
  shows "\<exists>ds. list_all2 (decodes_to sj t) rows ds \<and> totals_over ds b b'"
proof -
  have "\<exists>ds. list_all2 (decodes_to sj t) rows ds \<and> b' = fold row_step ds b"
    using assms
  proof (induction rows arbitrary: b)
    case (Cons row rows)
    obtain c where row: "execute_hot_jsonl_native_trace_body sj t row b = Inr c"
      and rest: "fold_ok (execute_hot_jsonl_native_trace_body sj t) rows c = Inr b'"
      using Cons.prems(1) by (auto simp: and_then_eq_Inr)
    obtain d where "decodes_to sj t row d" "c = row_step d b" "consistent c"
      using native_row_step [OF row Cons.prems(2)] .
    then show ?case using Cons.IH [OF rest] by (metis fold_simps(2) list_all2_Cons)
  qed simp
  then show ?thesis using totals_of_steps by blast
qed

theorem aggregation_totals_witness:
  "\<exists>ds. list_all2 (decodes_to (rt_serde sample_runtime) (trace_of_body sample_body)) (row_slices sample_rows) ds
    \<and> totals_over ds sample_before sample_after"
  by (rule aggregation_totals [OF sample_facts(2)]) (simp add: consistent_def sample_before_def)

section \<open>Equal keys\<close>

text \<open>When two fields are read under one key, the single pass gives the value to the first of them and the
  default to the second; the machine and the evaluator read the value twice.\<close>

definition shared_key_plan :: trace_plan where
  "shared_key_plan = (trace_of_body sample_body)\<lparr> tp_amount_key := ''n'' \<rparr>"

definition shared_key_row :: row_slice where
  "shared_key_row = \<lparr> hr_bytes = CHR ''{'' # quoted ''n'' @ '':3}'', hr_source = ''f'', hr_line = 1 \<rparr>"

lemma shared_key_takes_default:
  "(case json_object_view_get_hot_jsonl_row_fields no_serde shared_key_row shared_key_plan (plan_keys shared_key_plan) of
      Inr fs \<Rightarrow> rf_items fs = 0 | Inl _ \<Rightarrow> False)
   \<and> hot_jsonl_row_get_i64_default no_serde shared_key_row ''n'' 0 = Inr 3"
  by code_simp

end
