(* ===== verification/Json_Correct.thy ===== *)
theory Json_Correct
  imports Json
begin

text \<open>The conversions between Stone values and JSON are inverse to each other up to the order of record
  fields.\<close>

section \<open>Objects\<close>

lemma map_of_map_insert [simp]: "map_of (map_insert k v m) k' = (if k = k' then Some v else map_of m k')"
  by (induction m) auto

text \<open>The entries of a \<open>BTreeMap\<close>: strictly increasing keys.\<close>

definition key_ordered :: "(string \<times> 'a) list \<Rightarrow> bool" where
  "key_ordered m \<longleftrightarrow> sorted_wrt (<) (List.map fst m)"

lemma key_ordered_Cons: "key_ordered (e # m) \<longleftrightarrow> (\<forall>k\<in>fst ` set m. fst e < k) \<and> key_ordered m"
  by (auto simp: key_ordered_def)

lemma keys_map_insert [simp]: "fst ` set (map_insert k v m) = insert k (fst ` set m)"
  by (induction k v m rule: map_insert.induct) (simp_all add: insert_commute)

lemma key_ordered_map_insert: "key_ordered m \<Longrightarrow> key_ordered (map_insert k v m)"
proof (induction m)
  case (Cons e m)
  obtain k' v' where e: "e = (k', v')" by (cases e)
  show ?case using Cons by (auto simp: e key_ordered_Cons)
qed (simp add: key_ordered_def)

lemma map_insert_last: "\<forall>k'\<in>fst ` set m. k' < k \<Longrightarrow> map_insert k v m = m @ [(k, v)]"
  by (induction m) (auto simp: less_not_sym)

lemma fold_map_insert_sorted: "key_ordered (m @ es) \<Longrightarrow> fold (\<lambda>(k, j). map_insert k j) es m = m @ es"
proof (induction es arbitrary: m)
  case (Cons e es)
  obtain k v where e: "e = (k, v)" by (cases e)
  have "\<forall>k'\<in>fst ` set m. k' < k"
    using Cons.prems by (auto simp: e key_ordered_def sorted_wrt_append)
  then have "map_insert k v m = m @ [e]" by (simp add: e map_insert_last)
  then show ?case using Cons.IH [of "m @ [e]"] Cons.prems by (simp add: e)
qed simp

lemma record_to_json_ordered: "key_ordered es \<Longrightarrow> record_to_json es = es"
  using fold_map_insert_sorted [of "[]" es] by (simp add: record_to_json_def)

lemma fold_map_insert:
  "key_ordered m \<Longrightarrow> key_ordered (fold (\<lambda>(k, j). map_insert k j) es m)"
  "fst ` set (fold (\<lambda>(k, j). map_insert k j) es m) = fst ` set m \<union> fst ` set es"
  "map_of (fold (\<lambda>(k, j). map_insert k j) es m) x = (case map_of (rev es) x of Some v \<Rightarrow> Some v | None \<Rightarrow> map_of m x)"
proof (induction es arbitrary: m)
  case (Cons e es)
  { case 1 then show ?case using Cons(1) by (cases e) (simp add: key_ordered_map_insert) }
  { case 2 then show ?case using Cons(2) by (cases e) simp }
  { case 3 then show ?case using Cons(3) by (cases e) (simp add: map_add_def split: option.splits) }
qed simp_all

lemma record_to_json_facts:
  "key_ordered (record_to_json es)" "fst ` set (record_to_json es) = fst ` set es"
  "map_of (record_to_json es) k = map_of (rev es) k"
  using fold_map_insert(1) [of "[]" es] fold_map_insert(2,3) [of es "[]"]
  by (simp_all add: record_to_json_def key_ordered_def split: option.splits)

section \<open>From JSON and back\<close>

text \<open>A JSON value as the parser builds it, with the integers that fit \<open>i64\<close>.\<close>

fun wf_json :: "json \<Rightarrow> bool" where
  "wf_json (JInt z) = in_i64 z"
| "wf_json (JFloat x) = f64_finite x"
| "wf_json (JArray js) = list_all wf_json js"
| "wf_json (JObject m) = (key_ordered m \<and> list_all (\<lambda>(k, j). wf_json j) m)"
| "wf_json _ = True"

lemma json_survives_conversion:
  "wf_json j \<Longrightarrow> nu_to_json_value other (json_to_nu_value j) = j"
proof (induction j rule: wf_json.induct)
  case (3 js)
  then show ?case by (auto simp: list_all_iff intro!: map_idI)
next
  case (4 m)
  have "List.map (\<lambda>(k, v). (k, nu_to_json_value other v)) (List.map (\<lambda>(k, j). (k, json_to_nu_value j)) m) = m"
    using 4 by (auto simp: list_all_iff intro!: map_idI)
  then show ?case using 4(2) record_to_json_ordered [of m] by (simp add: comp_def case_prod_unfold)
qed auto

section \<open>From values and back\<close>

text \<open>A value that JSON can carry: no binary, no value of another nushell type, finite floats, and records
  with distinct fields.\<close>

fun json_data :: "nu_value \<Rightarrow> bool" where
  "json_data (VFloat x) = f64_finite x"
| "json_data (VBinary _) = False"
| "json_data (VOther _) = False"
| "json_data (VList vs) = list_all json_data vs"
| "json_data (VRecord r) = (distinct (List.map fst r) \<and> list_all (\<lambda>(k, v). json_data v) r)"
| "json_data _ = True"

lemma f64_eq_refl: "f64_finite x \<Longrightarrow> f64_eq x x"
  by (auto simp: f64_finite_def f64_eq_def f64_partial_cmp_def int_cmp_def Let_def split: f64.splits prod.splits)

lemma map_of_conv: "map_of (List.map (\<lambda>(k, j). (k, f j)) m) k = map_option f (map_of m k)"
  by (induction m) auto

lemma length_record_to_json: "distinct (List.map fst es) \<Longrightarrow> length (record_to_json es) = length es"
  using record_to_json_facts(1,2) [of es] distinct_card [of "List.map fst (record_to_json es)"]
    distinct_card [of "List.map fst es"]
  by (simp add: key_ordered_def strict_sorted_iff)

lemma record_get_converted:
  assumes "distinct (List.map fst r)" and "(k, v) \<in> set r"
  shows "record_get (List.map (\<lambda>(k, j). (k, json_to_nu_value j)) (record_to_json (List.map (\<lambda>(k, v). (k, g v)) r))) k
    = Some (json_to_nu_value (g v))"
proof -
  have keys: "List.map fst (List.map (\<lambda>(k, v). (k, g v)) r) = List.map fst r"
    by (induction r) auto
  have "map_of (List.map (\<lambda>(k, v). (k, g v)) r) k = Some (g v)"
    using assms by (simp add: map_of_conv)
  then have "map_of (rev (List.map (\<lambda>(k, v). (k, g v)) r)) k = Some (g v)"
    using assms(1) by (metis keys map_of_inject_set list.set_map set_rev rev_map distinct_rev map_of_eq_Some_iff)
  then show ?thesis
    unfolding record_get_def map_of_conv record_to_json_facts(3) by simp
qed

lemma value_survives_json:
  "json_data v \<Longrightarrow> values_equal v (json_to_nu_value (nu_to_json_value other v))"
proof (induction v rule: json_data.induct)
  case (4 vs)
  then show ?case by (auto simp: list_all_iff set_zip)
next
  case (5 r)
  have "case record_get (List.map (\<lambda>(k, j). (k, json_to_nu_value j))
        (record_to_json (List.map (\<lambda>(k, v). (k, nu_to_json_value other v)) r))) k of
      None \<Rightarrow> False | Some y \<Rightarrow> values_equal x y" if "(k, x) \<in> set r" for k x
    using 5 that record_get_converted [of r k x] by (auto simp: list_all_iff)
  moreover have keys: "List.map fst (List.map (\<lambda>(k, v). (k, nu_to_json_value other v)) r) = List.map fst r"
    by (induction r) auto
  moreover have "length (record_to_json (List.map (\<lambda>(k, v). (k, nu_to_json_value other v)) r)) = length r"
    using length_record_to_json [of "List.map (\<lambda>(k, v). (k, nu_to_json_value other v)) r"] 5(2) unfolding keys by simp
  ultimately show ?case by (auto simp: list_all_iff)
qed (auto simp: f64_eq_refl)

text \<open>C39: the conversions between Stone values and JSON lose nothing but the order of record fields. A
  JSON value as the parser builds it, with the integers in the range of \<open>i64\<close>, is the JSON of its
  Stone value; a Stone value made of the types of JSON, with finite floats and distinct fields, is equal
  to the Stone value of its JSON in the sense of the language.\<close>

theorem json_round_trip:
  "(wf_json j \<longrightarrow> nu_to_json_value other (json_to_nu_value j) = j)
   \<and> (json_data v \<longrightarrow> values_equal v (json_to_nu_value (nu_to_json_value other v)))"
  using json_survives_conversion value_survives_json by blast

definition sample_json :: json where
  "sample_json = JObject [(''a'', JArray [JInt 1, JNull]), (''b'', JFloat f64_zero)]"

definition sample_value :: nu_value where
  "sample_value = VRecord [(''b'', VList [VInt 1, VFloat f64_zero]), (''a'', VBool True)]"

theorem json_round_trip_witness:
  "nu_to_json_value (\<lambda>_. JNull) (json_to_nu_value sample_json) = sample_json
   \<and> values_equal sample_value (json_to_nu_value (nu_to_json_value (\<lambda>_. JNull) sample_value))"
proof -
  have "wf_json sample_json" "json_data sample_value" by (code_simp, code_simp)
  then show ?thesis using json_round_trip [of sample_json "\<lambda>_. JNull" sample_value] by blast
qed

end
