(* ===== verification/Utf8.thy ===== *)
theory Utf8
  imports Strings
begin

text \<open>The check of \<open>str::from_utf8\<close>: which byte sequences are the text of a Rust string.\<close>

text \<open>Well-formed UTF-8: no overlong forms, no surrogates, at most U+10FFFF.\<close>

definition second_byte_ok :: "int \<Rightarrow> int \<Rightarrow> bool" where
  "second_byte_ok a b \<longleftrightarrow>
     (if a = 0xE0 then 0xA0 \<le> b \<and> b < 0xC0
      else if a = 0xED then 0x80 \<le> b \<and> b < 0xA0
      else if a = 0xF0 then 0x90 \<le> b \<and> b < 0xC0
      else if a = 0xF4 then 0x80 \<le> b \<and> b < 0x90
      else 0x80 \<le> b \<and> b < 0xC0)"

fun valid_utf8 :: "string \<Rightarrow> bool" where
  "valid_utf8 [] \<longleftrightarrow> True"
| "valid_utf8 (a # s) \<longleftrightarrow>
     (if byte a < 0x80 then valid_utf8 s
      else case s of
        [] \<Rightarrow> False
      | b # s2 \<Rightarrow> second_byte_ok (byte a) (byte b) \<and>
          (if 0xC2 \<le> byte a \<and> byte a < 0xE0 then valid_utf8 s2
           else case s2 of
             [] \<Rightarrow> False
           | c # s3 \<Rightarrow> is_cont c \<and>
               (if 0xE0 \<le> byte a \<and> byte a < 0xF0 then valid_utf8 s3
                else case s3 of
                  [] \<Rightarrow> False
                | d # s4 \<Rightarrow> is_cont d \<and> 0xF0 \<le> byte a \<and> byte a < 0xF5 \<and> valid_utf8 s4)))"

lemma valid_utf8_lead: "valid_utf8 (c # s) \<Longrightarrow> \<not> is_cont c"
  by (subst (asm) valid_utf8.simps)
    (auto simp: is_cont_def simp del: valid_utf8.simps split: if_splits list.splits)

lemma second_byte_cont: "second_byte_ok a b \<Longrightarrow> 0x80 \<le> b"
  by (auto simp: second_byte_ok_def split: if_splits)

lemma utf8_chunk:
  assumes "valid_utf8 (a # s)" and "\<not> byte a < 0x80"
  obtains t r where "s = t @ r" "valid_utf8 r" "\<forall>c\<in>set t. 0x80 \<le> byte c"
proof -
  obtain b s2 where s: "s = b # s2" and b: "second_byte_ok (byte a) (byte b)" using assms by (cases s) auto
  show ?thesis
  proof (cases "0xC2 \<le> byte a \<and> byte a < 0xE0")
    case True
    with assms s b that [of "[b]" s2] show ?thesis by (auto dest: second_byte_cont)
  next
    case False
    then obtain c s3 where s2: "s2 = c # s3" and c: "is_cont c" using assms s by (cases s2) auto
    show ?thesis
    proof (cases "0xE0 \<le> byte a \<and> byte a < 0xF0")
      case True
      with False assms s b s2 c that [of "[b, c]" s3] show ?thesis by (auto simp: is_cont_def dest: second_byte_cont)
    next
      case not3: False
      then obtain d s4 where "s3 = d # s4" "is_cont d" "valid_utf8 s4"
        using False assms s s2 by (cases s3) auto
      with s b s2 c that [of "[b, c, d]" s4] show ?thesis by (auto simp: is_cont_def dest: second_byte_cont)
    qed
  qed
qed

text \<open>Behind an ASCII character there is a character boundary.\<close>

lemma valid_utf8_drop:
  "valid_utf8 s \<Longrightarrow> i < length s \<Longrightarrow> byte (s ! i) < 0x80 \<Longrightarrow> valid_utf8 (drop (Suc i) s)"
proof (induction s arbitrary: i rule: length_induct)
  case (1 s)
  then obtain a s1 where s: "s = a # s1" by (cases s) auto
  show ?case
  proof (cases "byte a < 0x80")
    case True
    then have "valid_utf8 s1" using "1.prems"(1) s by simp
    with 1 s show ?thesis by (cases i) auto
  next
    case False
    then obtain t r where s1: "s1 = t @ r" "valid_utf8 r" "\<forall>c\<in>set t. 0x80 \<le> byte c"
      using utf8_chunk "1.prems"(1) s by metis
    have "i = Suc (i - 1)" using "1.prems"(3) False s by (cases i) auto
    moreover have "\<not> i - 1 < length t"
    proof
      assume "i - 1 < length t"
      then have "s ! i \<in> set t" using \<open>i = Suc (i - 1)\<close> s s1(1) by (metis nth_Cons_Suc nth_append nth_mem)
      with s1(3) "1.prems"(3) show False by force
    qed
    ultimately obtain j where "i = Suc (length t + j)" by (metis le_Suc_ex not_less)
    with 1 s s1 show ?thesis by (auto simp: nth_append)
  qed
qed

end
