(* ===== verification/Asset_Image.thy ===== *)
theory Asset_Image
  imports Utf8 "HOL-Library.Char_ord" "HOL-Library.List_Lexorder"
begin

unbundle bit_operations_syntax

text \<open>The image format of packaged assets (\<open>crates/asset-image/src/lib.rs\<close>): a header, a table of
  entries sorted by path, and the contents from an aligned offset on. Bytes are characters; \<open>usize\<close>
  has 64 bits, so a conversion from \<open>u64\<close> to \<open>usize\<close> cannot fail.\<close>

type_synonym u16 = "16 word"
type_synonym u32 = "32 word"
type_synonym u64 = "64 word"

datatype asset_error =
    ContentTooLarge string
  | DuplicatePath string
  | EntryNotSorted string string
  | EntryOverlapsData string
  | ImageTooLarge
  | InvalidDataOffset u64
  | InvalidLabel string
  | InvalidMagic
  | InvalidPath string
  | InvalidUtf8Label
  | InvalidUtf8Path
  | LabelTooLong
  | PathTooLong string
  | TooManyEntries
  | UnexpectedEof
  | UnsupportedVersion u32

type_synonym 'a image_res = "asset_error + 'a"

record asset_metadata =
  am_uuid :: string
  am_label :: string

record asset_entry =
  ae_path :: string
  ae_content :: string

record asset_image =
  ai_metadata :: asset_metadata
  ai_entries :: "asset_entry list"

record asset_entry_ref =
  er_path :: string
  er_offset :: u64
  er_content :: string

record asset_view =
  av_metadata :: asset_metadata
  av_entries :: "asset_entry_ref list"

record entry_record =
  en_path :: string
  en_offset :: u64
  en_len :: u64

record asset_header =
  ah_metadata :: asset_metadata
  ah_entry_count :: u32
  ah_data_start :: u64

record asset_probe =
  ap_metadata :: asset_metadata
  ap_entry_count :: u32
  ap_data_start :: u64

definition asset_magic :: string where
  "asset_magic = ''HLXAST1'' @ [CHR 0x00]"

definition asset_version :: u32 where
  "asset_version = 1"

definition block_align :: u64 where
  "block_align = 512"

definition data_align :: u64 where
  "data_align = 4096"

definition header_fixed_len :: u64 where
  "header_fixed_len = 8 + 4 + 16 + 2 + 4 + 8"

section \<open>Machine integers and bytes\<close>

definition try_u16 :: "nat \<Rightarrow> u16 option" where
  "try_u16 n = (if n < 2 ^ 16 then Some (of_nat n) else None)"

definition try_u32 :: "nat \<Rightarrow> u32 option" where
  "try_u32 n = (if n < 2 ^ 32 then Some (of_nat n) else None)"

definition try_u64 :: "nat \<Rightarrow> u64 option" where
  "try_u64 n = (if n < 2 ^ 64 then Some (of_nat n) else None)"

definition u64_checked_add :: "u64 \<Rightarrow> u64 \<Rightarrow> u64 option" where
  "u64_checked_add a b = try_u64 (unat a + unat b)"

text \<open>Little-endian bytes.\<close>

primrec le_bytes :: "nat \<Rightarrow> nat \<Rightarrow> string" where
  "le_bytes 0 n = []"
| "le_bytes (Suc k) n = char_of (n mod 256) # le_bytes k (n div 256)"

primrec le_value :: "string \<Rightarrow> nat" where
  "le_value [] = 0"
| "le_value (c # cs) = of_char c + 256 * le_value cs"

definition push_u16 :: "string \<Rightarrow> u16 \<Rightarrow> string" where
  "push_u16 out v = out @ le_bytes 2 (unat v)"

definition push_u32 :: "string \<Rightarrow> u32 \<Rightarrow> string" where
  "push_u32 out v = out @ le_bytes 4 (unat v)"

definition push_u64 :: "string \<Rightarrow> u64 \<Rightarrow> string" where
  "push_u64 out v = out @ le_bytes 8 (unat v)"

definition resize :: "string \<Rightarrow> nat \<Rightarrow> string" where
  "resize out n = take n out @ replicate (n - length out) (CHR 0x00)"

definition align_up :: "u64 \<Rightarrow> u64 \<Rightarrow> u64 image_res" where
  "align_up v alignment = (let mask = alignment - 1
     in ok_or ImageTooLarge (map_option (\<lambda>s. s AND NOT mask) (u64_checked_add v mask)))"

section \<open>Validation\<close>

definition is_label_byte :: "char \<Rightarrow> bool" where
  "is_label_byte c \<longleftrightarrow> (let b = byte c in 48 \<le> b \<and> b \<le> 57 \<or> 65 \<le> b \<and> b \<le> 90 \<or> 97 \<le> b \<and> b \<le> 122)
     \<or> c = CHR ''.'' \<or> c = CHR ''_'' \<or> c = CHR ''-''"

definition validate_metadata :: "asset_metadata \<Rightarrow> unit image_res" where
  "validate_metadata m =
     (if 65535 < length (am_label m) then Inl LabelTooLong
      else if am_label m \<noteq> [] \<and> \<not> list_all is_label_byte (am_label m) then Inl (InvalidLabel (am_label m))
      else Inr ())"

fun str_split :: "char \<Rightarrow> string \<Rightarrow> string list" where
  "str_split sep [] = [[]]"
| "str_split sep (c # cs) =
     (if c = sep then [] # str_split sep cs
      else case str_split sep cs of [] \<Rightarrow> [[c]] | w # ws \<Rightarrow> (c # w) # ws)"

definition is_valid_entry_path :: "string \<Rightarrow> bool" where
  "is_valid_entry_path p \<longleftrightarrow> starts_with ''/'' p \<and> p \<noteq> ''/'' \<and> \<not> ends_with ''/'' p
     \<and> \<not> str_contains ''//'' p
     \<and> list_all (\<lambda>part. part = [] \<or> part \<noteq> ''.'' \<and> part \<noteq> ''..'') (str_split (CHR ''/'') p)"

definition validate_record :: "entry_record \<Rightarrow> string option \<times> u64 \<Rightarrow> (string option \<times> u64) image_res" where
  "validate_record r s = (case s of (previous, previous_end) \<Rightarrow>
     if \<not> is_valid_entry_path (en_path r) then Inl (InvalidPath (en_path r))
     else and_then (case previous of
         None \<Rightarrow> Inr ()
       | Some p \<Rightarrow> if p = en_path r then Inl (DuplicatePath (en_path r))
                   else if en_path r < p then Inl (EntryNotSorted p (en_path r)) else Inr ()) (\<lambda>_.
     if en_offset r < previous_end then Inl (EntryOverlapsData (en_path r))
     else and_then (ok_or ImageTooLarge (u64_checked_add (en_offset r) (en_len r))) (\<lambda>stop.
       Inr (Some (en_path r), stop))))"

definition validate_records :: "entry_record list \<Rightarrow> unit image_res" where
  "validate_records rs = and_then (fold_ok validate_record rs (None, 0)) (\<lambda>_. Inr ())"

definition validate_owned_entries :: "asset_entry list \<Rightarrow> unit image_res" where
  "validate_owned_entries es =
     validate_records (List.map (\<lambda>e. \<lparr> en_path = ae_path e, en_offset = 0, en_len = 0 \<rparr>) es)"

definition with_metadata :: "asset_metadata \<Rightarrow> asset_entry list \<Rightarrow> asset_image image_res" where
  "with_metadata m es = and_then (validate_metadata m) (\<lambda>_. and_then (validate_owned_entries es) (\<lambda>_.
     Inr \<lparr> ai_metadata = m, ai_entries = es \<rparr>))"

section \<open>Encoding\<close>

definition add_table_len :: "asset_entry \<Rightarrow> u64 \<Rightarrow> u64 image_res" where
  "add_table_len e n =
     and_then (ok_or (PathTooLong (ae_path e)) (try_u64 (length (ae_path e)))) (\<lambda>path_len.
     ok_or ImageTooLarge (do {
       n1 \<leftarrow> u64_checked_add n 4;
       n2 \<leftarrow> u64_checked_add n1 path_len;
       n3 \<leftarrow> u64_checked_add n2 8;
       u64_checked_add n3 8 }))"

definition encoded_table_len :: "asset_metadata \<Rightarrow> asset_entry list \<Rightarrow> u64 image_res" where
  "encoded_table_len m es =
     and_then (ok_or LabelTooLong (try_u64 (length (am_label m)))) (\<lambda>label_len.
     and_then (ok_or ImageTooLarge (u64_checked_add header_fixed_len label_len)) (fold_ok add_table_len es))"

text \<open>The record of an entry is placed behind the content before it.\<close>

definition place_entry :: "asset_entry \<Rightarrow> entry_record list \<times> u64 \<Rightarrow> (entry_record list \<times> u64) image_res" where
  "place_entry e s = (case s of (records, data_offset) \<Rightarrow>
     and_then (ok_or (ContentTooLarge (ae_path e)) (try_u64 (length (ae_content e)))) (\<lambda>len.
     and_then (ok_or (ContentTooLarge (ae_path e)) (u64_checked_add data_offset len)) (\<lambda>data_offset'.
     Inr (records @ [\<lparr> en_path = ae_path e, en_offset = data_offset, en_len = len \<rparr>], data_offset'))))"

definition push_record :: "entry_record \<Rightarrow> string \<Rightarrow> string image_res" where
  "push_record r out =
     and_then (ok_or (PathTooLong (en_path r)) (try_u32 (length (en_path r)))) (\<lambda>path_len.
     Inr (push_u64 (push_u64 (push_u32 out path_len @ en_path r) (en_offset r)) (en_len r)))"

definition push_header :: "asset_metadata \<Rightarrow> nat \<Rightarrow> u64 \<Rightarrow> string image_res" where
  "push_header m entries data_start =
     and_then (ok_or LabelTooLong (try_u16 (length (am_label m)))) (\<lambda>label_len.
     and_then (ok_or TooManyEntries (try_u32 entries)) (\<lambda>count.
     Inr (push_u64 (push_u32 (push_u16 (push_u32 asset_magic asset_version @ am_uuid m) label_len
            @ am_label m) count) data_start)))"

definition encode :: "asset_image \<Rightarrow> string image_res" where
  "encode img = (let m = ai_metadata img; es = ai_entries img
     in and_then (validate_metadata m) (\<lambda>_.
        and_then (validate_owned_entries es) (\<lambda>_.
        and_then (encoded_table_len m es) (\<lambda>table_len.
        and_then (align_up table_len data_align) (\<lambda>data_start.
        and_then (fold_ok place_entry es ([], data_start)) (\<lambda>(records, data_end).
        and_then (push_header m (length es) data_start) (\<lambda>out.
        and_then (fold_ok push_record records out) (\<lambda>out.
        let out = resize out (unat data_start) @ concat (List.map ae_content es)
        in and_then (ok_or ImageTooLarge (try_u64 (length out))) (\<lambda>n.
           and_then (align_up n block_align) (\<lambda>padded_len.
           Inr (resize out (unat padded_len))))))))))))"

section \<open>Decoding\<close>

text \<open>The cursor is the bytes and the offset of the next read.\<close>

definition read_exact :: "string \<Rightarrow> nat \<Rightarrow> nat \<Rightarrow> (string \<times> nat) image_res" where
  "read_exact bytes len offset =
     (if 2 ^ 64 \<le> offset + len \<or> length bytes < offset + len then Inl UnexpectedEof
      else Inr (take len (drop offset bytes), offset + len))"

definition read_u16 :: "string \<Rightarrow> nat \<Rightarrow> (u16 \<times> nat) image_res" where
  "read_u16 bytes offset = and_then (read_exact bytes 2 offset) (\<lambda>(b, o'). Inr (of_nat (le_value b), o'))"

definition read_u32 :: "string \<Rightarrow> nat \<Rightarrow> (u32 \<times> nat) image_res" where
  "read_u32 bytes offset = and_then (read_exact bytes 4 offset) (\<lambda>(b, o'). Inr (of_nat (le_value b), o'))"

definition read_u64 :: "string \<Rightarrow> nat \<Rightarrow> (u64 \<times> nat) image_res" where
  "read_u64 bytes offset = and_then (read_exact bytes 8 offset) (\<lambda>(b, o'). Inr (of_nat (le_value b), o'))"

definition read_header :: "string \<Rightarrow> (asset_header \<times> nat) image_res" where
  "read_header bytes =
     and_then (read_exact bytes 8 0) (\<lambda>(magic, o1).
     if magic \<noteq> asset_magic then Inl InvalidMagic else
     and_then (read_u32 bytes o1) (\<lambda>(version, o2).
     if version \<noteq> asset_version then Inl (UnsupportedVersion version) else
     and_then (read_exact bytes 16 o2) (\<lambda>(uuid, o3).
     and_then (read_u16 bytes o3) (\<lambda>(label_len, o4).
     and_then (read_exact bytes (unat label_len) o4) (\<lambda>(label, o5).
     if \<not> valid_utf8 label then Inl InvalidUtf8Label else
     and_then (validate_metadata \<lparr> am_uuid = uuid, am_label = label \<rparr>) (\<lambda>_.
     and_then (read_u32 bytes o5) (\<lambda>(entry_count, o6).
     and_then (read_u64 bytes o6) (\<lambda>(data_start, o7).
     if data_start < header_fixed_len \<or> data_start mod data_align \<noteq> 0 then Inl (InvalidDataOffset data_start)
     else Inr (\<lparr> ah_metadata = \<lparr> am_uuid = uuid, am_label = label \<rparr>, ah_entry_count = entry_count,
                 ah_data_start = data_start \<rparr>, o7)))))))))"

definition probe :: "string \<Rightarrow> asset_probe image_res" where
  "probe bytes = and_then (read_header bytes) (\<lambda>(h, _).
     Inr \<lparr> ap_metadata = ah_metadata h, ap_entry_count = ah_entry_count h, ap_data_start = ah_data_start h \<rparr>)"

definition read_record :: "string \<Rightarrow> u64 \<Rightarrow> nat \<Rightarrow> (entry_record \<times> nat) image_res" where
  "read_record bytes data_start o0 =
     and_then (read_u32 bytes o0) (\<lambda>(path_len, o1).
     and_then (read_exact bytes (unat path_len) o1) (\<lambda>(path, o2).
     if \<not> valid_utf8 path then Inl InvalidUtf8Path else
     and_then (read_u64 bytes o2) (\<lambda>(offset, o3).
     and_then (read_u64 bytes o3) (\<lambda>(len, o4).
     if offset < data_start then Inl (InvalidDataOffset offset)
     else Inr (\<lparr> en_path = path, en_offset = offset, en_len = len \<rparr>, o4)))))"

primrec read_records :: "string \<Rightarrow> u64 \<Rightarrow> nat \<Rightarrow> nat \<Rightarrow> (entry_record list \<times> nat) image_res" where
  "read_records bytes data_start 0 o0 = Inr ([], o0)"
| "read_records bytes data_start (Suc n) o0 =
     and_then (read_record bytes data_start o0) (\<lambda>(r, o1).
     and_then (read_records bytes data_start n o1) (\<lambda>(rs, o2). Inr (r # rs, o2)))"

definition entry_ref :: "string \<Rightarrow> entry_record \<Rightarrow> asset_entry_ref image_res" where
  "entry_ref bytes r =
     (let start = unat (en_offset r); stop = start + unat (en_len r)
      in if 2 ^ 64 \<le> stop \<or> length bytes < stop then Inl UnexpectedEof
         else Inr \<lparr> er_path = en_path r, er_offset = en_offset r,
                    er_content = take (unat (en_len r)) (drop start bytes) \<rparr>)"

definition decode_view :: "string \<Rightarrow> asset_view image_res" where
  "decode_view bytes =
     and_then (read_header bytes) (\<lambda>(h, o0).
     and_then (read_records bytes (ah_data_start h) (unat (ah_entry_count h)) o0) (\<lambda>(records, o1).
     if unat (ah_data_start h) < o1 then Inl (InvalidDataOffset (ah_data_start h)) else
     and_then (validate_records records) (\<lambda>_.
     and_then (collect_ok (entry_ref bytes) records) (\<lambda>es.
     Inr \<lparr> av_metadata = ah_metadata h, av_entries = es \<rparr>))))"

definition decode :: "string \<Rightarrow> asset_image image_res" where
  "decode bytes = and_then (decode_view bytes) (\<lambda>v.
     with_metadata (av_metadata v)
       (List.map (\<lambda>e. \<lparr> ae_path = er_path e, ae_content = er_content e \<rparr>) (av_entries v)))"

section \<open>Lookup\<close>

text \<open>\<open>binary_search_by\<close> of the standard library, which halves the number of candidates; \<open>entry\<close> is the
  lookup of a path in the sorted table.\<close>

function search_base :: "('a \<Rightarrow> bool) \<Rightarrow> 'a list \<Rightarrow> nat \<Rightarrow> nat \<Rightarrow> nat" where
  "search_base beyond xs base n =
     (if n \<le> 1 then base
      else search_base beyond xs (if beyond (xs ! (base + n div 2)) then base else base + n div 2)
             (n - n div 2))"
  by auto

termination search_base
  by (relation "measure (\<lambda>(_, _, _, n). n)") auto

declare search_base.simps [simp del]

definition entry :: "asset_view \<Rightarrow> string \<Rightarrow> asset_entry_ref option" where
  "entry v path = (let es = av_entries v
     in if es = [] then None
        else let base = search_base (\<lambda>e. path < er_path e) es 0 (length es)
          in if er_path (es ! base) = path then Some (es ! base) else None)"

end
