(* ===== verification/Asset_Image_Correct.thy ===== *)
theory Asset_Image_Correct
  imports Asset_Image
begin

unbundle bit_operations_syntax

text \<open>Results on asset images: decoding an encoded image gives the image back, a decoded table is
  sorted and its contents lie apart inside the image, and the lookup finds exactly the entries.\<close>

section \<open>Integers and bytes\<close>

definition round_up :: "nat \<Rightarrow> nat \<Rightarrow> nat" where
  "round_up a n = (n + (a - 1)) div a * a"

lemma try_u64_Some [simp]: "try_u64 n = Some w \<longleftrightarrow> n < 2 ^ 64 \<and> w = of_nat n"
  by (auto simp: try_u64_def)

lemma unat_of_nat_u64 [simp]: "n < 2 ^ 64 \<Longrightarrow> unat (of_nat n :: u64) = n"
  by (simp add: unat_of_nat)

lemma unat_mask_u64: "k < 64 \<Longrightarrow> unat (2 ^ k - 1 :: u64) = 2 ^ k - 1"
proof -
  assume "k < 64"
  then have "(2 :: nat) ^ k < 2 ^ 64" by (rule power_strict_increasing) simp
  then have "unat (of_nat (2 ^ k) :: u64) = 2 ^ k" by (rule unat_of_nat_u64)
  then have k: "unat (2 ^ k :: u64) = 2 ^ k" by simp
  then have "(2 ^ k :: u64) \<noteq> 0" by (metis power_not_zero unat_0 zero_neq_numeral)
  with k show ?thesis by (simp add: unat_minus_one)
qed

lemma and_not_mask: "w AND NOT (mask n) = push_bit n (drop_bit n (w :: u64))"
  by (rule bit_word_eqI) (auto simp: bit_simps)

lemma unat_and_not_mask: "unat ((w :: u64) AND NOT (mask n)) = unat w div 2 ^ n * 2 ^ n"
proof -
  have "push_bit n (drop_bit n w) = w - take_bit n w"
    by (metis add_diff_cancel_right' bits_ident)
  moreover have "unat (take_bit n w) = unat w mod 2 ^ n"
    unfolding unsigned_take_bit_eq by (rule take_bit_eq_mod)
  ultimately have "unat (push_bit n (drop_bit n w)) = unat w - unat w mod 2 ^ n"
    by (simp add: unat_sub_if' mod_less_eq_dividend)
  then show ?thesis by (simp add: and_not_mask minus_mod_eq_div_mult)
qed

lemma align_up_spec:
  assumes "unat v + (2 ^ k - 1) < 2 ^ 64" and "k < 64"
  shows "\<exists>r. align_up v (2 ^ k) = Inr r \<and> unat r = round_up (2 ^ k) (unat v)"
proof -
  have "unat (2 ^ k - 1 :: u64) = 2 ^ k - 1"
    using \<open>k < 64\<close> by (rule unat_mask_u64)
  then have "u64_checked_add v (2 ^ k - 1) = Some (of_nat (unat v + (2 ^ k - 1)))"
    unfolding u64_checked_add_def try_u64_def using assms(1) by presburger
  then have "align_up v (2 ^ k) = Inr (of_nat (unat v + (2 ^ k - 1)) AND NOT (mask k))"
    unfolding align_up_def Let_def by (simp only: option.map ok_or_simps mask_eq_exp_minus_1)
  moreover have "unat ((of_nat (unat v + (2 ^ k - 1)) :: u64) AND NOT (mask k)) = round_up (2 ^ k) (unat v)"
    unfolding unat_and_not_mask unat_of_nat_u64 [OF assms(1)] round_up_def by (rule refl)
  ultimately show ?thesis by blast
qed

lemma align_up_Inr:
  assumes "align_up v (2 ^ k) = Inr r" and "k < 64"
  shows "unat v + (2 ^ k - 1) < 2 ^ 64 \<and> unat r = round_up (2 ^ k) (unat v)"
proof -
  have "unat (2 ^ k - 1 :: u64) = 2 ^ k - 1"
    using \<open>k < 64\<close> by (rule unat_mask_u64)
  with assms(1) have "unat v + (2 ^ k - 1) < 2 ^ 64"
    by (cases "unat v + (2 ^ k - 1) < 2 ^ 64")
      (simp_all add: align_up_def u64_checked_add_def try_u64_def)
  then show ?thesis using align_up_spec [OF _ \<open>k < 64\<close>, of v] assms(1) by auto
qed

lemma round_up_ge: "0 < a \<Longrightarrow> n \<le> round_up a n"
proof -
  assume "0 < a"
  then have "n + (a - 1) < (n + (a - 1)) div a * a + a"
    by (metis div_mult_mod_eq mod_less_divisor nat_add_left_cancel_less)
  then show "n \<le> round_up a n" by (simp add: round_up_def)
qed

lemma round_up_dvd: "a dvd round_up a n"
  by (simp add: round_up_def)

lemma length_resize [simp]: "length (resize out n) = n"
  by (simp add: resize_def min_def)

lemma length_le_bytes [simp]: "length (le_bytes k n) = k"
  by (induction k arbitrary: n) auto

lemma le_value_bytes [simp]: "le_value (le_bytes k n) = n mod 256 ^ k"
proof (induction k arbitrary: n)
  case (Suc k)
  have "n mod 256 + 256 * (n div 256 mod 256 ^ k) = n mod (256 * 256 ^ k)"
    by (simp add: mod_mult2_eq)
  with Suc show ?case by (simp add: of_char_of)
qed simp

lemma resize_grow: "length out \<le> n \<Longrightarrow> resize out n = out @ replicate (n - length out) (CHR 0x00)"
  by (simp add: resize_def)

section \<open>Reading what was written\<close>

definition unread :: "string \<Rightarrow> nat \<Rightarrow> string \<Rightarrow> bool" where
  "unread bytes offset s \<longleftrightarrow> length bytes < 2 ^ 64 \<and> offset \<le> length bytes \<and> drop offset bytes = s"

lemma unread_start: "length bytes < 2 ^ 64 \<Longrightarrow> unread bytes 0 bytes"
  by (simp add: unread_def)

lemma unread_skip:
  assumes "unread bytes o0 (x @ s)"
  shows "unread bytes (o0 + length x) s"
proof -
  have rest: "drop o0 bytes = x @ s" and "o0 \<le> length bytes" "length bytes < 2 ^ 64"
    using assms by (simp_all add: unread_def)
  have "drop (length x) (drop o0 bytes) = s" unfolding rest by simp
  moreover have "length bytes - o0 = length x + length s"
    using arg_cong [OF rest, of length] by simp
  ultimately show ?thesis
    using \<open>o0 \<le> length bytes\<close> \<open>length bytes < 2 ^ 64\<close> by (simp add: unread_def add.commute)
qed

lemma read_exact_here:
  assumes "unread bytes o0 (x @ s)" and "n = length x"
  shows "read_exact bytes n o0 = Inr (x, o0 + n)"
proof -
  have "length bytes - o0 = length x + length s"
    using assms(1) by (metis length_append length_drop unread_def)
  with assms show ?thesis by (auto simp: read_exact_def unread_def)
qed

lemma read_words_here:
  "unread bytes o0 (le_bytes 2 n @ s) \<Longrightarrow> read_u16 bytes o0 = Inr (of_nat (n mod 256 ^ 2), o0 + 2)"
  "unread bytes o0 (le_bytes 4 n @ s) \<Longrightarrow> read_u32 bytes o0 = Inr (of_nat (n mod 256 ^ 4), o0 + 4)"
  "unread bytes o0 (le_bytes 8 n @ s) \<Longrightarrow> read_u64 bytes o0 = Inr (of_nat (n mod 256 ^ 8), o0 + 8)"
  unfolding read_u16_def read_u32_def read_u64_def
  by (drule read_exact_here [OF _ length_le_bytes [symmetric]];
      simp only: and_then_simps prod.case le_value_bytes)+

lemma u64_bound [simp]: "unat (w :: u64) < 18446744073709551616"
  using unsigned_less [of w] by simp

lemma label_is_ascii: "list_all is_label_byte s \<Longrightarrow> valid_utf8 s"
  by (induction s) (auto simp: is_label_byte_def Let_def byte_def)

section \<open>Tables\<close>

definition content_size :: "asset_entry list \<Rightarrow> nat" where
  "content_size es = (\<Sum>e\<leftarrow>es. length (ae_content e))"

definition table_size :: "asset_entry list \<Rightarrow> nat" where
  "table_size es = (\<Sum>e\<leftarrow>es. 20 + length (ae_path e))"

lemma sizes_simps [simp]:
  "content_size [] = 0" "content_size (e # es) = length (ae_content e) + content_size es"
  "table_size [] = 0" "table_size (e # es) = 20 + length (ae_path e) + table_size es"
  by (simp_all add: content_size_def table_size_def)

primrec placed :: "asset_entry list \<Rightarrow> nat \<Rightarrow> entry_record list" where
  "placed [] d = []"
| "placed (e # es) d = \<lparr> en_path = ae_path e, en_offset = of_nat d, en_len = of_nat (length (ae_content e)) \<rparr>
     # placed es (d + length (ae_content e))"

lemma u64_checked_add_Some [simp]:
  "u64_checked_add a b = Some c \<longleftrightarrow> unat a + unat b < 2 ^ 64 \<and> c = of_nat (unat a + unat b)"
  by (simp only: u64_checked_add_def try_u64_Some)

lemma ok_or_eq_Inr [simp]: "ok_or e x = Inr y \<longleftrightarrow> x = Some y"
  by (cases x) auto

lemma place_entries:
  "fold_ok place_entry es (rs, d) = Inr s \<longleftrightarrow>
     unat d + content_size es < 2 ^ 64 \<and> s = (rs @ placed es (unat d), of_nat (unat d + content_size es))"
proof (induction es arbitrary: rs d)
  case (Cons e es)
  let ?n = "length (ae_content e)"
  show ?case
  proof (cases "unat d + ?n < 2 ^ 64")
    case True
    then have "place_entry e (rs, d) = Inr (rs @ placed [e] (unat d), of_nat (unat d + ?n))"
      by (simp add: place_entry_def and_then_eq_Inr unat_of_nat_u64 del: of_nat_add)
    with True show ?thesis by (simp add: Cons.IH unat_of_nat_u64 ac_simps del: of_nat_add)
  next
    case False
    then have "\<not> is_ok (place_entry e (rs, d))"
      by (auto simp: place_entry_def is_ok_def and_then_eq_Inr split: sum.split)
    with False show ?thesis by (cases "place_entry e (rs, d)") auto
  qed
qed auto

lemma u64_add_nat:
  "a + b < 2 ^ 64 \<Longrightarrow> u64_checked_add (of_nat a) (of_nat b) = Some (of_nat (a + b))"
  using u64_checked_add_Some [of "of_nat a" "of_nat b"] by simp

lemma u64_add_unat: "u64_checked_add a b = Some c \<Longrightarrow> unat c = unat a + unat b"
  by (simp del: of_nat_add)

lemma add_table_len_ok:
  assumes "a + (20 + length (ae_path e)) < 2 ^ 64"
  shows "add_table_len e (of_nat a) = Inr (of_nat (a + (20 + length (ae_path e))))"
proof -
  let ?p = "length (ae_path e)"
  have "u64_checked_add (of_nat a) 4 = Some (of_nat (a + 4))"
    and "u64_checked_add (of_nat (a + 4)) (of_nat ?p) = Some (of_nat (a + 4 + ?p))"
    and "u64_checked_add (of_nat (a + 4 + ?p)) 8 = Some (of_nat (a + 4 + ?p + 8))"
    and "u64_checked_add (of_nat (a + 4 + ?p + 8)) 8 = Some (of_nat (a + 4 + ?p + 8 + 8))"
    using assms u64_add_nat [of a 4] u64_add_nat [of "a + 4" ?p] u64_add_nat [of "a + 4 + ?p" 8]
      u64_add_nat [of "a + 4 + ?p + 8" 8] by (simp_all del: of_nat_add)
  moreover have "a + 4 + ?p + 8 + 8 = a + (20 + ?p)" by simp
  moreover have "try_u64 ?p = Some (of_nat ?p)" using assms by (simp add: try_u64_def)
  ultimately show ?thesis
    by (simp only: add_table_len_def ok_or_simps and_then_simps Option.bind.simps)
qed

lemma table_len:
  "fold_ok add_table_len es n = Inr t \<longleftrightarrow>
     unat n + table_size es < 2 ^ 64 \<and> t = of_nat (unat n + table_size es)"
proof (induction es arbitrary: n)
  case (Cons e es)
  let ?m = "20 + length (ae_path e)"
  show ?case
  proof (cases "unat n + ?m < 2 ^ 64")
    case True
    then have "add_table_len e n = Inr (of_nat (unat n + ?m))"
      using add_table_len_ok [of "unat n" e] by simp
    with True show ?thesis by (simp add: Cons.IH unat_of_nat_u64 ac_simps del: of_nat_add)
  next
    case False
    have "unat u = unat n + ?m" if "add_table_len e n = Inr u" for u
      using that by (auto simp: add_table_len_def and_then_eq_Inr bind_eq_Some_conv
          simp del: u64_checked_add_Some dest!: u64_add_unat)
    with False have "add_table_len e n \<noteq> Inr u" for u
      using u64_bound [of u] by force
    with False show ?thesis by (cases "add_table_len e n") auto
  qed
qed auto

definition record_bytes :: "entry_record \<Rightarrow> string" where
  "record_bytes r = le_bytes 4 (length (en_path r)) @ en_path r @ le_bytes 8 (unat (en_offset r))
     @ le_bytes 8 (unat (en_len r))"

lemma push_records:
  "fold_ok push_record rs out = Inr out' \<longleftrightarrow>
     list_all (\<lambda>r. length (en_path r) < 2 ^ 32) rs \<and> out' = out @ concat (List.map record_bytes rs)"
proof (induction rs arbitrary: out)
  case (Cons r rs)
  have "push_record r out = (if length (en_path r) < 2 ^ 32 then Inr (out @ record_bytes r)
      else Inl (PathTooLong (en_path r)))"
    by (simp add: push_record_def try_u32_def push_u32_def push_u64_def record_bytes_def unat_of_nat
        del: le_bytes.simps)
  then show ?case by (simp add: Cons.IH)
qed auto

lemma length_record_bytes [simp]: "length (record_bytes r) = 20 + length (en_path r)"
  by (simp add: record_bytes_def)

lemma length_table [simp]: "length (concat (List.map record_bytes (placed es d))) = table_size es"
  by (induction es arbitrary: d) auto

section \<open>The order of the table\<close>

text \<open>Paths in ascending order behind the previous one; regions behind one another.\<close>

fun path_chain :: "string option \<Rightarrow> string list \<Rightarrow> bool" where
  "path_chain p [] \<longleftrightarrow> True"
| "path_chain p (x # xs) \<longleftrightarrow> is_valid_entry_path x \<and> (case p of None \<Rightarrow> True | Some q \<Rightarrow> q < x)
     \<and> path_chain (Some x) xs"

fun region_chain :: "nat \<Rightarrow> (nat \<times> nat) list \<Rightarrow> bool" where
  "region_chain stop [] \<longleftrightarrow> True"
| "region_chain stop ((start, len) # rs) \<longleftrightarrow> stop \<le> start \<and> start + len < 2 ^ 64
     \<and> region_chain (start + len) rs"

definition region :: "entry_record \<Rightarrow> nat \<times> nat" where
  "region r = (unat (en_offset r), unat (en_len r))"

lemma validate_record_Inr:
  "validate_record r (p, e) = Inr s \<longleftrightarrow> is_valid_entry_path (en_path r)
     \<and> (case p of None \<Rightarrow> True | Some q \<Rightarrow> q < en_path r) \<and> unat e \<le> fst (region r)
     \<and> fst (region r) + snd (region r) < 2 ^ 64
     \<and> s = (Some (en_path r), of_nat (fst (region r) + snd (region r)))"
  by (auto simp: validate_record_def region_def and_then_eq_Inr word_less_nat_alt not_less
      split: option.splits if_splits simp del: of_nat_add)

lemma validate_fold:
  "is_ok (fold_ok validate_record rs (p, e)) \<longleftrightarrow>
     path_chain p (List.map en_path rs) \<and> region_chain (unat e) (List.map region rs)"
proof (induction rs arbitrary: p e)
  case (Cons r rs)
  show ?case
  proof (cases "validate_record r (p, e)")
    case (Inl err)
    then show ?thesis
      using validate_record_Inr [of r p e "(Some (en_path r), of_nat (fst (region r) + snd (region r)))"]
      by (cases "region r") (auto simp del: of_nat_add split: option.splits)
  next
    case (Inr s)
    note facts = validate_record_Inr [THEN iffD1, OF Inr]
    then show ?thesis
      by (cases "region r")
        (auto simp: Inr Cons.IH unat_of_nat_u64 simp del: of_nat_add split: option.splits)
  qed
qed simp

lemma validate_records_Inr:
  "validate_records rs = Inr u \<longleftrightarrow>
     path_chain None (List.map en_path rs) \<and> region_chain 0 (List.map region rs)"
  using validate_fold [of rs None 0]
  by (cases "fold_ok validate_record rs (None, 0)") (auto simp: validate_records_def)

lemma region_chain_zeros: "region_chain 0 (List.map (\<lambda>_. (0, 0)) xs)"
  by (induction xs) auto

lemma validate_owned_Inr: "validate_owned_entries es = Inr u \<longleftrightarrow> path_chain None (List.map ae_path es)"
  by (simp add: validate_owned_entries_def validate_records_Inr comp_def region_def region_chain_zeros)

lemma placed_paths [simp]: "List.map en_path (placed es d) = List.map ae_path es"
  by (induction es arbitrary: d) auto

lemma placed_regions: "e \<le> d \<Longrightarrow> d + content_size es < 2 ^ 64 \<Longrightarrow> region_chain e (List.map region (placed es d))"
proof (induction es arbitrary: e d)
  case (Cons x es)
  then have "unat (of_nat d :: u64) = d"
    and "unat (of_nat (length (ae_content x)) :: u64) = length (ae_content x)"
    by (simp_all add: unat_of_nat_u64)
  with Cons show ?case by (simp add: region_def)
qed simp

section \<open>Round trip\<close>

definition header_bytes :: "asset_metadata \<Rightarrow> nat \<Rightarrow> nat \<Rightarrow> string" where
  "header_bytes m n d = asset_magic @ le_bytes 4 1 @ am_uuid m @ le_bytes 2 (length (am_label m)) @ am_label m
     @ le_bytes 4 n @ le_bytes 8 d"

lemma push_header_Inr:
  "push_header m n d = Inr out \<longleftrightarrow> length (am_label m) < 2 ^ 16 \<and> n < 2 ^ 32 \<and> out = header_bytes m n (unat d)"
  by (auto simp: push_header_def and_then_eq_Inr try_u16_def try_u32_def header_bytes_def push_u16_def
      push_u32_def push_u64_def asset_version_def unat_of_nat simp del: le_bytes.simps)

lemma length_magic [simp]: "length asset_magic = 8"
  by (simp add: asset_magic_def)

lemma read_header_here:
  assumes bytes: "unread bytes 0 (header_bytes m n d @ s)" and "validate_metadata m = Inr ()"
    and "length (am_uuid m) = 16" and "n < 2 ^ 32" and "d < 2 ^ 64" and "42 \<le> d" and "4096 dvd d"
  shows "read_header bytes = Inr (\<lparr> ah_metadata = m, ah_entry_count = of_nat n, ah_data_start = of_nat d \<rparr>,
           42 + length (am_label m))"
    and "unread bytes (42 + length (am_label m)) s"
proof -
  let ?l = "length (am_label m)"
  have label: "?l < 2 ^ 16" "list_all is_label_byte (am_label m)"
    using assms(2) by (auto simp: validate_metadata_def split: if_splits)
  have m: "\<lparr> am_uuid = am_uuid m, am_label = am_label m \<rparr> = m" by simp
  note w = bytes [unfolded header_bytes_def append_assoc]
  note w1 = unread_skip [OF w, unfolded length_magic]
  note w2 = unread_skip [OF w1, unfolded length_le_bytes]
  note w3 = unread_skip [OF w2, unfolded assms(3)]
  note w4 = unread_skip [OF w3, unfolded length_le_bytes]
  note w5 = unread_skip [OF w4]
  note w6 = unread_skip [OF w5, unfolded length_le_bytes]
  note w7 = unread_skip [OF w6, unfolded length_le_bytes]
  show "unread bytes (42 + ?l) s" using w7 by (simp add: ac_simps)
  have "unat (of_nat (?l mod 256 ^ 2) :: u16) = ?l" and "(of_nat (n mod 256 ^ 4) :: u32) = of_nat n"
    and "(of_nat (1 mod 256 ^ 4) :: u32) = asset_version" and "(of_nat (d mod 256 ^ 8) :: u64) = of_nat d"
    using label assms(4, 5) by (simp_all add: unat_of_nat asset_version_def)
  note nums = this
  have "unat (of_nat d :: u64) = d" using assms(5) by simp
  then have "\<not> (of_nat d :: u64) < header_fixed_len" and "(of_nat d :: u64) mod data_align = 0"
    using assms(6, 7) by (simp_all add: word_less_nat_alt header_fixed_len_def data_align_def
      unat_eq_zero [symmetric] unat_mod del: unat_eq_zero)
  then have "read_header bytes = Inr (\<lparr> ah_metadata = m, ah_entry_count = of_nat n,
      ah_data_start = of_nat d \<rparr>, 0 + 8 + 4 + 16 + 2 + ?l + 4 + 8)"
    by (simp only: read_header_def read_exact_here [OF w] read_exact_here [OF w2] read_exact_here [OF w4]
        read_words_here(2) [OF w1] read_words_here(1) [OF w3] read_words_here(2) [OF w5]
        read_words_here(3) [OF w6] length_magic assms(3) m assms(2) nums label_is_ascii [OF label(2)]
        and_then_simps prod.case if_False simp_thms)
  then show "read_header bytes = Inr (\<lparr> ah_metadata = m, ah_entry_count = of_nat n,
      ah_data_start = of_nat d \<rparr>, 42 + ?l)" by simp
qed

lemma read_record_here:
  assumes "unread bytes o0 (record_bytes r @ s)" and "length (en_path r) < 2 ^ 32"
    and "valid_utf8 (en_path r)" and "\<not> en_offset r < d"
  shows "read_record bytes d o0 = Inr (r, o0 + length (record_bytes r))"
proof -
  note w = assms(1) [unfolded record_bytes_def append_assoc]
  note w1 = unread_skip [OF w, unfolded length_le_bytes]
  note w2 = unread_skip [OF w1]
  note w3 = unread_skip [OF w2, unfolded length_le_bytes]
  have "unat (of_nat (length (en_path r) mod 256 ^ 4) :: u32) = length (en_path r)"
    using assms(2) by (simp add: unat_of_nat)
  moreover have "of_nat (unat v mod 256 ^ 8) = v" for v :: u64
    using u64_bound [of v] by simp
  moreover have "\<lparr> en_path = en_path r, en_offset = en_offset r, en_len = en_len r \<rparr> = r" by simp
  ultimately have "read_record bytes d o0 = Inr (r, o0 + 4 + length (en_path r) + 8 + 8)"
    using assms(3, 4)
    by (simp only: read_record_def read_words_here(2) [OF w] read_exact_here [OF w1]
        read_words_here(3) [OF w2] read_words_here(3) [OF w3] and_then_simps prod.case if_False simp_thms)
  then show ?thesis by (simp add: ac_simps)
qed

lemma read_records_here:
  assumes "unread bytes o0 (concat (List.map record_bytes rs) @ s)"
    and "list_all (\<lambda>r. length (en_path r) < 2 ^ 32 \<and> valid_utf8 (en_path r) \<and> \<not> en_offset r < d) rs"
  shows "read_records bytes d (length rs) o0 = Inr (rs, o0 + length (concat (List.map record_bytes rs)))"
  using assms
proof (induction rs arbitrary: o0)
  case (Cons r rs)
  then have "read_record bytes d o0 = Inr (r, o0 + length (record_bytes r))"
    by (intro read_record_here) auto
  moreover have "unread bytes (o0 + length (record_bytes r)) (concat (List.map record_bytes rs) @ s)"
    using Cons.prems(1) by (intro unread_skip) simp
  ultimately show ?case using Cons by (simp add: ac_simps)
qed simp

lemma placed_not_before:
  "d0 \<le> d \<Longrightarrow> d + content_size es < 2 ^ 64 \<Longrightarrow> list_all (\<lambda>r. \<not> en_offset r < of_nat d0) (placed es d)"
  by (induction es arbitrary: d) (auto simp: word_less_nat_alt simp del: of_nat_add)

lemma contents_here:
  assumes "unread bytes d (concat (List.map ae_content es) @ s)" and "d + content_size es < 2 ^ 64"
  shows "collect_ok (entry_ref bytes) (placed es d)
    = Inr (List.map2 (\<lambda>e r. \<lparr> er_path = ae_path e, er_offset = en_offset r, er_content = ae_content e \<rparr>)
        es (placed es d))"
  using assms
proof (induction es arbitrary: d)
  case (Cons e es)
  let ?n = "length (ae_content e)"
  have u: "unat (of_nat d :: u64) = d" "unat (of_nat ?n :: u64) = ?n"
    using Cons.prems(2) by simp_all
  have "read_exact bytes ?n d = Inr (ae_content e, d + ?n)"
    using Cons.prems(1) by (intro read_exact_here) auto
  then have "entry_ref bytes (hd (placed (e # es) d))
      = Inr \<lparr> er_path = ae_path e, er_offset = of_nat d, er_content = ae_content e \<rparr>"
    by (auto simp: read_exact_def entry_ref_def Let_def u split: if_splits)
  moreover have "unread bytes (d + ?n) (concat (List.map ae_content es) @ s)"
    using Cons.prems(1) by (intro unread_skip) simp
  ultimately show ?case using Cons.IH [of "d + ?n"] Cons.prems(2) by simp
qed simp

definition head_size :: "asset_image \<Rightarrow> nat" where
  "head_size img = 42 + length (am_label (ai_metadata img)) + table_size (ai_entries img)"

definition data_from :: "asset_image \<Rightarrow> nat" where
  "data_from img = round_up 4096 (head_size img)"

definition data_to :: "asset_image \<Rightarrow> nat" where
  "data_to img = data_from img + content_size (ai_entries img)"

text \<open>The sizes that the fields of the format can hold.\<close>

definition image_fits :: "asset_image \<Rightarrow> bool" where
  "image_fits img \<longleftrightarrow> head_size img + 4095 < 2 ^ 64 \<and> data_to img + 511 < 2 ^ 64
     \<and> length (ai_entries img) < 2 ^ 32 \<and> list_all (\<lambda>e. length (ae_path e) < 2 ^ 32) (ai_entries img)"

definition table_bytes :: "asset_image \<Rightarrow> string" where
  "table_bytes img = concat (List.map record_bytes (placed (ai_entries img) (data_from img)))"

definition image_bytes :: "asset_image \<Rightarrow> string" where
  "image_bytes img = header_bytes (ai_metadata img) (length (ai_entries img)) (data_from img)
     @ table_bytes img @ replicate (data_from img - head_size img) (CHR 0x00)
     @ concat (List.map ae_content (ai_entries img))
     @ replicate (round_up 512 (data_to img) - data_to img) (CHR 0x00)"

lemma length_contents [simp]: "length (concat (List.map ae_content es)) = content_size es"
  by (induction es) auto

lemma length_header_bytes [simp]: "length (am_uuid m) = 16 \<Longrightarrow> length (header_bytes m n d) = 42 + length (am_label m)"
  by (simp add: header_bytes_def del: le_bytes.simps)

lemma length_placed [simp]: "length (placed es d) = length es"
  by (induction es arbitrary: d) auto

lemma list_all_placed: "list_all (\<lambda>r. P (en_path r)) (placed es d) \<longleftrightarrow> list_all (\<lambda>e. P (ae_path e)) es"
  by (induction es arbitrary: d) auto

lemmas placed_path_lengths = list_all_placed [of "\<lambda>p. length p < 2 ^ 32"]
  list_all_placed [of "\<lambda>p. length p < 4294967296"]

lemma head_le_data: "head_size img \<le> data_from img"
  by (simp add: data_from_def round_up_ge)

lemma with_metadata_Inr: "with_metadata m es = Inr img \<longleftrightarrow>
    validate_metadata m = Inr () \<and> path_chain None (List.map ae_path es) \<and> img = \<lparr> ai_metadata = m, ai_entries = es \<rparr>"
  by (auto simp: with_metadata_def and_then_eq_Inr validate_owned_Inr)

lemma table_len_Inr:
  "encoded_table_len m es = Inr t \<longleftrightarrow> 42 + length (am_label m) + table_size es < 2 ^ 64
     \<and> t = of_nat (42 + length (am_label m) + table_size es)"
proof -
  have "unat header_fixed_len = 42" by (simp add: header_fixed_len_def)
  then show ?thesis
    by (auto simp: encoded_table_len_def and_then_eq_Inr table_len unat_of_nat_u64 simp del: of_nat_add)
qed

lemma align_up_iff:
  assumes "k < 64"
  shows "align_up v (2 ^ k) = Inr r \<longleftrightarrow> unat v + (2 ^ k - 1) < 2 ^ 64 \<and> r = of_nat (round_up (2 ^ k) (unat v))"
proof -
  have "r = of_nat x" if "unat r = x" for x and r :: u64
    unfolding that [symmetric] by simp
  then show ?thesis using align_up_Inr [of v k r] align_up_spec [of v k] assms by blast
qed

lemma align_up_data: "align_up v data_align = Inr r \<longleftrightarrow>
    unat v + 4095 < 2 ^ 64 \<and> r = of_nat (round_up 4096 (unat v))"
  using align_up_iff [of 12 v r] by (simp add: data_align_def)

lemma align_up_block: "align_up v block_align = Inr r \<longleftrightarrow>
    unat v + 511 < 2 ^ 64 \<and> r = of_nat (round_up 512 (unat v))"
  using align_up_iff [of 9 v r] by (simp add: block_align_def)

lemma round_up_bound: "round_up a n \<le> n + (a - 1)"
  by (simp add: round_up_def)

lemma encode_Inr:
  assumes "with_metadata m es = Inr img" and "length (am_uuid m) = 16"
  shows "encode img = Inr bytes \<longleftrightarrow> image_fits img \<and> bytes = image_bytes img"
proof -
  have img [simp]: "ai_metadata img = m" "ai_entries img = es" and m: "validate_metadata m = Inr ()"
    and label: "length (am_label m) < 2 ^ 16" and chain: "validate_owned_entries es = Inr ()"
    using assms(1) by (auto simp: with_metadata_Inr validate_owned_Inr validate_metadata_def split: if_splits)
  let ?h = "head_size img" let ?d = "data_from img" let ?t = "data_to img"
  let ?head = "header_bytes m (length es) ?d" let ?table = "concat (List.map record_bytes (placed es ?d))"
  let ?body = "resize (?head @ ?table) ?d @ concat (List.map ae_content es)"
  have h: "42 + length (am_label m) + table_size es = ?h" and d: "round_up 4096 ?h = ?d"
    and t: "?d + content_size es = ?t"
    by (simp_all add: head_size_def data_to_def data_from_def)
  have body: "?body = ?head @ ?table @ replicate (?d - ?h) (CHR 0x00) @ concat (List.map ae_content es)"
    using head_le_data [of img] assms(2) by (simp add: resize_grow h)
  have len: "length ?body = ?t"
    by (simp add: t)
  have small: "?h + 4095 < 2 ^ 64 \<Longrightarrow> unat (of_nat ?d :: u64) = ?d" "?h < 2 ^ 64 \<Longrightarrow> unat (of_nat ?h :: u64) = ?h"
    using round_up_bound [of 4096 ?h] by (simp_all add: d)
  have "image_fits img" if "encode img = Inr bytes"
    using that small by (auto simp: encode_def Let_def and_then_eq_Inr table_len_Inr h align_up_data d
        place_entries t push_header_Inr push_records placed_path_lengths align_up_block image_fits_def
        simp del: of_nat_add)
  moreover have "encode img = Inr (image_bytes img)" if fits: "image_fits img"
  proof -
    have bounds: "?h + 4095 < 2 ^ 64" "?t + 511 < 2 ^ 64" "length es < 2 ^ 32"
        "list_all (\<lambda>e. length (ae_path e) < 2 ^ 32) es"
      using fits by (simp_all add: image_fits_def)
    have "encoded_table_len m es = Inr (of_nat ?h)"
      using bounds(1) by (simp add: table_len_Inr h del: of_nat_add)
    moreover have "align_up (of_nat ?h) data_align = Inr (of_nat ?d)"
      using bounds(1) small by (simp add: align_up_data d)
    moreover have "fold_ok place_entry es ([], of_nat ?d) = Inr (placed es ?d, of_nat ?t)"
      using bounds small by (simp add: place_entries t del: of_nat_add)
    moreover have "push_header m (length es) (of_nat ?d) = Inr ?head"
      using bounds small label by (simp add: push_header_Inr)
    moreover have "fold_ok push_record (placed es ?d) ?head = Inr (?head @ ?table)"
      using bounds by (simp add: push_records placed_path_lengths)
    moreover have "try_u64 (length ?body) = Some (of_nat ?t)"
      unfolding len using bounds(2) by simp
    moreover have "align_up (of_nat ?t) block_align = Inr (of_nat (round_up 512 ?t))"
      using bounds(2) by (simp add: align_up_block)
    moreover have "unat (of_nat (round_up 512 ?t) :: u64) = round_up 512 ?t" "unat (of_nat ?d :: u64) = ?d"
      using bounds small round_up_bound [of 512 ?t] by simp_all
    ultimately have "encode img = Inr (resize ?body (round_up 512 ?t))"
      by (simp only: encode_def Let_def img m chain and_then_simps prod.case ok_or_simps)
    also have "resize ?body (round_up 512 ?t) = image_bytes img"
      using resize_grow [of ?body "round_up 512 ?t", unfolded len] round_up_ge [of 512 ?t]
      unfolding body by (simp add: image_bytes_def table_bytes_def)
    finally show ?thesis .
  qed
  ultimately show ?thesis by auto
qed

lemma image_bytes_size:
  assumes "length (am_uuid (ai_metadata img)) = 16"
  shows "length (image_bytes img) = round_up 512 (data_to img)"
  using assms head_le_data [of img] round_up_ge [of 512 "data_to img"]
  by (simp add: image_bytes_def table_bytes_def head_size_def data_to_def)

lemma decode_image_bytes:
  assumes img: "with_metadata m es = Inr img" and uuid: "length (am_uuid m) = 16"
    and utf8: "list_all (\<lambda>e. valid_utf8 (ae_path e)) es" and fits: "image_fits img"
  shows "decode (image_bytes img) = Inr img"
proof -
  have m: "validate_metadata m = Inr ()" and paths: "path_chain None (List.map ae_path es)"
    and sel [simp]: "ai_metadata img = m" "ai_entries img = es"
    using img by (auto simp: with_metadata_Inr)
  let ?b = "image_bytes img" let ?h = "head_size img" let ?d = "data_from img" let ?t = "data_to img"
  let ?zeros = "replicate (?d - ?h) (CHR 0x00)"
  let ?rest = "concat (List.map ae_content es) @ replicate (round_up 512 ?t - ?t) (CHR 0x00)"
  have t: "?t = ?d + content_size es" by (simp add: data_to_def)
  have bounds: "?h + 4095 < 2 ^ 64" "?t + 511 < 2 ^ 64" "length es < 2 ^ 32"
      "list_all (\<lambda>e. length (ae_path e) < 2 ^ 32) es"
    using fits by (simp_all add: image_fits_def)
  have d64: "?d < 2 ^ 64" "?d + content_size es < 2 ^ 64"
    using bounds t by linarith+
  have b: "?b = header_bytes m (length es) ?d @ table_bytes img @ ?zeros @ ?rest"
    by (simp add: image_bytes_def)
  have "length ?b < 2 ^ 64"
    using image_bytes_size [of img] uuid bounds(2) round_up_bound [of 512 ?t] by simp
  then have start: "unread ?b 0 (header_bytes m (length es) ?d @ table_bytes img @ ?zeros @ ?rest)"
    using unread_start b by metis
  have dvd: "4096 dvd ?d" by (simp add: data_from_def round_up_dvd)
  have "42 \<le> ?d" using head_le_data [of img] by (simp add: head_size_def)
  note header = read_header_here [OF start m uuid bounds(3) d64(1) this dvd]
  have "list_all (\<lambda>r. length (en_path r) < 2 ^ 32 \<and> valid_utf8 (en_path r) \<and> \<not> en_offset r < of_nat ?d) (placed es ?d)"
    using placed_not_before [of ?d ?d es] d64(2) utf8 bounds(4)
      list_all_placed [of "\<lambda>p. length p < 2 ^ 32 \<and> valid_utf8 p" es ?d]
    by (simp add: list_all_iff)
  note table = read_records_here [OF header(2) [unfolded table_bytes_def sel] this]
  have "42 + length (am_label m) + length (table_bytes img) = ?h"
    by (simp add: table_bytes_def head_size_def)
  then have o1: "42 + length (am_label m) + length (concat (List.map record_bytes (placed es ?d))) = ?h"
    by (simp add: table_bytes_def)
  have "unread ?b (?h + (?d - ?h)) ?rest"
    using unread_skip [OF unread_skip [OF header(2)]] o1 by (simp add: table_bytes_def)
  then have "unread ?b ?d ?rest" using head_le_data [of img] by simp
  note contents = contents_here [OF this d64(2)]
  have "validate_records (placed es ?d) = Inr ()"
    using paths placed_regions [OF _ d64(2), of 0] by (simp add: validate_records_Inr)
  moreover have "unat (of_nat ?d :: u64) = ?d" "unat (of_nat (length es) :: u32) = length es"
    using d64 bounds(3) by (simp_all add: unat_of_nat)
  moreover have "\<not> ?d < ?h" using head_le_data [of img] by simp
  ultimately have "decode_view ?b = Inr \<lparr> av_metadata = m, av_entries =
      List.map2 (\<lambda>e r. \<lparr> er_path = ae_path e, er_offset = en_offset r, er_content = ae_content e \<rparr>)
        es (placed es ?d) \<rparr>"
    using table [unfolded o1] by (simp add: decode_view_def header(1) contents)
  moreover have "List.map (\<lambda>e. \<lparr> ae_path = er_path e, ae_content = er_content e \<rparr>)
      (List.map2 (\<lambda>e r. \<lparr> er_path = ae_path e, er_offset = en_offset r, er_content = ae_content e \<rparr>)
        es (placed es k)) = es" for k
    by (induction es arbitrary: k) auto
  ultimately show ?thesis using img by (simp add: decode_def)
qed

text \<open>C4: an image that is encoded is decoded to itself, and its length is a multiple of the block size.
  The encoder fails exactly when a count or a size does not fit its field in the format.\<close>

theorem asset_image_round_trip:
  assumes "with_metadata m es = Inr img" and "length (am_uuid m) = 16"
    and "list_all (\<lambda>e. valid_utf8 (ae_path e)) es"
  shows "case encode img of
      Inr bytes \<Rightarrow> decode bytes = Inr img \<and> 512 dvd length bytes \<and> image_fits img
    | Inl _ \<Rightarrow> \<not> image_fits img"
proof (cases "encode img")
  case (Inl e)
  then show ?thesis using encode_Inr [OF assms(1, 2)] by auto
next
  case (Inr bytes)
  then have "image_fits img" and "bytes = image_bytes img"
    using encode_Inr [OF assms(1, 2)] by auto
  then show ?thesis
    using Inr decode_image_bytes [OF assms] image_bytes_size [of img] assms(1, 2)
    by (simp add: round_up_dvd with_metadata_Inr)
qed

section \<open>Decoding arbitrary bytes\<close>

lemma path_chain_sorted: "path_chain p xs \<Longrightarrow>
    list_all is_valid_entry_path xs \<and> sorted_wrt (<) xs \<and> (\<forall>q. p = Some q \<longrightarrow> list_all ((<) q) xs)"
proof (induction xs arbitrary: p)
  case (Cons x xs)
  then have IH: "list_all is_valid_entry_path xs" "sorted_wrt (<) xs" "list_all ((<) x) xs" by auto
  moreover have "list_all ((<) q) xs" if "p = Some q" for q
    using that Cons.prems IH(3) by (auto simp: list_all_iff)
  ultimately show ?case using Cons.prems by (auto simp: list_all_iff)
qed simp

lemma entry_ref_Inr: "entry_ref bytes r = Inr e \<Longrightarrow> er_path e = en_path r \<and> er_offset e = en_offset r
    \<and> length (er_content e) = unat (en_len r) \<and> unat (en_offset r) + unat (en_len r) \<le> length bytes
    \<and> er_content e = take (length (er_content e)) (drop (unat (er_offset e)) bytes)"
  by (auto simp: entry_ref_def Let_def split: if_splits)

definition entry_region :: "asset_entry_ref \<Rightarrow> nat \<times> nat" where
  "entry_region e = (unat (er_offset e), length (er_content e))"

definition content_inside :: "string \<Rightarrow> asset_entry_ref \<Rightarrow> bool" where
  "content_inside bytes e \<longleftrightarrow> (case entry_region e of (start, len) \<Rightarrow>
     start + len \<le> length bytes \<and> er_content e = take len (drop start bytes))"

lemma entry_refs_Inr:
  "collect_ok (entry_ref bytes) rs = Inr es \<Longrightarrow> List.map er_path es = List.map en_path rs
     \<and> List.map entry_region es = List.map region rs \<and> list_all (content_inside bytes) es"
proof (induction rs arbitrary: es)
  case (Cons r rs)
  then show ?case
    by (auto simp: and_then_eq_Inr entry_region_def region_def content_inside_def dest!: entry_ref_Inr)
qed simp

lemma decode_view_Inr:
  assumes "decode_view bytes = Inr v"
  shows "path_chain None (List.map er_path (av_entries v)) \<and> region_chain 0 (List.map entry_region (av_entries v))
    \<and> list_all (content_inside bytes) (av_entries v) \<and> validate_metadata (av_metadata v) = Inr ()"
proof -
  obtain h o0 rs o1 where "read_header bytes = Inr (h, o0)" and rs: "validate_records rs = Inr ()"
    and es: "collect_ok (entry_ref bytes) rs = Inr (av_entries v)" and m: "av_metadata v = ah_metadata h"
    using assms by (auto simp: decode_view_def and_then_eq_Inr split: if_splits)
  then have "validate_metadata (ah_metadata h) = Inr ()"
    by (auto simp: read_header_def and_then_eq_Inr split: if_splits)
  with rs m entry_refs_Inr [OF es] show ?thesis by (auto simp: validate_records_Inr)
qed

text \<open>C40: whatever bytes it is given, the decoder returns a table with distinct valid paths in ascending
  order, whose contents are slices of the image that do not overlap; and the table, as an image of its
  own, passes the validation again.\<close>

theorem decoded_table_is_sound:
  assumes "decode_view bytes = Inr v"
  shows "list_all is_valid_entry_path (List.map er_path (av_entries v))
    \<and> sorted_wrt (<) (List.map er_path (av_entries v))
    \<and> list_all (content_inside bytes) (av_entries v)
    \<and> region_chain 0 (List.map entry_region (av_entries v)) \<and> is_ok (decode bytes)"
proof -
  note facts = decode_view_Inr [OF assms]
  let ?es = "List.map (\<lambda>e. \<lparr> ae_path = er_path e, ae_content = er_content e \<rparr>) (av_entries v)"
  have "validate_owned_entries ?es = Inr ()" using facts by (simp add: validate_owned_Inr comp_def)
  then have "is_ok (decode bytes)" using facts by (simp add: decode_def assms with_metadata_def)
  with facts path_chain_sorted [of None "List.map er_path (av_entries v)"] show ?thesis by auto
qed

section \<open>Lookup\<close>

lemma search_base_range: "0 < n \<Longrightarrow> search_base beyond xs base n < base + n"
proof (induction beyond xs base n rule: search_base.induct)
  case (1 beyond xs base n)
  show ?case
  proof (cases "n \<le> 1")
    case True
    with "1.prems" show ?thesis by (simp add: search_base.simps [of beyond xs base n])
  next
    case False
    then have "0 < n - n div 2" "n div 2 \<le> n" by auto
    with "1.IH" [OF False] False show ?thesis
      by (simp add: search_base.simps [of beyond xs base n] split: if_splits)
  qed
qed

lemma search_base_finds:
  assumes "\<And>i. i < length xs \<Longrightarrow> beyond (xs ! i) \<longleftrightarrow> k < i"
    and "base \<le> k" "k < base + n" "base + n \<le> length xs"
  shows "search_base beyond xs base n = k"
  using assms
proof (induction beyond xs base n rule: search_base.induct)
  case (1 beyond xs base n)
  show ?case
  proof (cases "n \<le> 1")
    case True
    with "1.prems" show ?thesis by (simp add: search_base.simps [of beyond xs base n])
  next
    case False
    let ?mid = "base + n div 2"
    have "n div 2 \<le> n - n div 2" "n div 2 < n" using False by auto
    then have "beyond (xs ! ?mid) \<longleftrightarrow> k < ?mid" using "1.prems" by auto
    then have "search_base beyond xs (if beyond (xs ! ?mid) then base else ?mid) (n - n div 2) = k"
      using "1.prems" \<open>n div 2 \<le> n - n div 2\<close> \<open>n div 2 < n\<close> by (intro "1.IH" [OF False]) auto
    with False show ?thesis by (simp add: search_base.simps [of beyond xs base n])
  qed
qed

lemma find_distinct:
  assumes "distinct (List.map f xs)" and "k < length xs"
  shows "find (\<lambda>x. f x = f (xs ! k)) xs = Some (xs ! k)"
  using assms by (auto simp: find_Some_iff distinct_conv_nth)

text \<open>the binary search of a decoded table finds exactly the entry with the path, if there is one.\<close>

theorem entry_lookup_is_exact:
  assumes "decode_view bytes = Inr v"
  shows "entry v path = find (\<lambda>e. er_path e = path) (av_entries v)"
proof -
  let ?es = "av_entries v" let ?base = "search_base (\<lambda>e. path < er_path e) ?es 0 (length ?es)"
  have sorted: "sorted_wrt (<) (List.map er_path ?es)"
    using decode_view_Inr [OF assms] path_chain_sorted by blast
  show ?thesis
  proof (cases "\<exists>k<length ?es. er_path (?es ! k) = path")
    case True
    then obtain k where k: "k < length ?es" "er_path (?es ! k) = path" by auto
    have "path < er_path (?es ! i) \<longleftrightarrow> k < i" if "i < length ?es" for i
      using that k sorted_wrt_nth_less [OF sorted, of k i] sorted_wrt_nth_less [OF sorted, of i k]
      by (cases i k rule: linorder_cases) auto
    then have "?base = k" using k by (intro search_base_finds) auto
    moreover have "distinct (List.map er_path ?es)" using sorted by (simp add: strict_sorted_iff)
    ultimately show ?thesis using k find_distinct [of er_path ?es k] by (auto simp: entry_def Let_def)
  next
    case False
    then have "find (\<lambda>e. er_path e = path) ?es = None"
      by (auto simp: find_None_iff in_set_conv_nth)
    moreover have "?es \<noteq> [] \<Longrightarrow> ?base < length ?es"
      using search_base_range [of "length ?es" "\<lambda>e. path < er_path e" ?es 0] by simp
    ultimately show ?thesis using False by (auto simp: entry_def Let_def)
  qed
qed

section \<open>A concrete image\<close>

definition sample_metadata :: asset_metadata where
  "sample_metadata = \<lparr> am_uuid = replicate 16 (CHR ''u''), am_label = ''a-1'' \<rparr>"

definition sample_entries :: "asset_entry list" where
  "sample_entries = [\<lparr> ae_path = ''/a'', ae_content = ''xy'' \<rparr>, \<lparr> ae_path = ''/d/b'', ae_content = ''z'' \<rparr>]"

definition sample_image :: asset_image where
  "sample_image = \<lparr> ai_metadata = sample_metadata, ai_entries = sample_entries \<rparr>"

lemma sample_image_ok:
  "with_metadata sample_metadata sample_entries = Inr sample_image" "length (am_uuid sample_metadata) = 16"
  "list_all (\<lambda>e. valid_utf8 (ae_path e)) sample_entries"
  by (simp_all add: with_metadata_Inr sample_image_def sample_metadata_def sample_entries_def
      validate_metadata_def is_label_byte_def byte_def is_valid_entry_path_def ends_with_def str_contains_def)

lemma sample_image_fits: "image_fits sample_image"
  by (simp add: image_fits_def sample_image_def data_to_def data_from_def head_size_def round_up_def
      sample_entries_def sample_metadata_def)

theorem asset_image_round_trip_witness:
  "\<exists>bytes. encode sample_image = Inr bytes \<and> decode bytes = Inr sample_image"
  using asset_image_round_trip [OF sample_image_ok] sample_image_fits by (auto split: sum.splits)

lemma sample_view:
  obtains v where "decode_view (image_bytes sample_image) = Inr v"
    and "List.map er_path (av_entries v) = [''/a'', ''/d/b'']"
proof -
  let ?owned = "List.map (\<lambda>e. \<lparr> ae_path = er_path e, ae_content = er_content e \<rparr>)"
  obtain v where v: "decode_view (image_bytes sample_image) = Inr v" and es: "?owned (av_entries v) = sample_entries"
    using decode_image_bytes [OF sample_image_ok sample_image_fits]
    by (auto simp: decode_def and_then_eq_Inr with_metadata_Inr sample_image_def)
  have "List.map er_path (av_entries v) = List.map ae_path (?owned (av_entries v))"
    by (simp add: comp_def)
  with v that show ?thesis unfolding es by (simp add: sample_entries_def)
qed

theorem decoded_table_is_sound_witness:
  "\<exists>v. decode_view (image_bytes sample_image) = Inr v \<and> av_entries v \<noteq> []
     \<and> list_all (content_inside (image_bytes sample_image)) (av_entries v)"
proof -
  obtain v where v: "decode_view (image_bytes sample_image) = Inr v"
    and "List.map er_path (av_entries v) = [''/a'', ''/d/b'']" by (rule sample_view)
  with decoded_table_is_sound [OF v] show ?thesis by auto
qed

theorem entry_lookup_is_exact_witness:
  "\<exists>v e. decode_view (image_bytes sample_image) = Inr v \<and> entry v ''/d/b'' = Some e \<and> er_path e = ''/d/b''"
proof -
  obtain v where v: "decode_view (image_bytes sample_image) = Inr v"
    and "List.map er_path (av_entries v) = [''/a'', ''/d/b'']" by (rule sample_view)
  then obtain e1 e2 where "av_entries v = [e1, e2]" "er_path e1 = ''/a''" "er_path e2 = ''/d/b''" by auto
  then have "entry v ''/d/b'' = Some e2" using entry_lookup_is_exact [OF v, of "''/d/b''"] by simp
  with v \<open>er_path e2 = ''/d/b''\<close> show ?thesis by auto
qed

end
