(* ===== verification/Json_Access.thy ===== *)
theory Json_Access
  imports Json
begin

text \<open>Reading and building JSON values: the accessors of \<open>serde_json::Value\<close> that the code uses, the
  \<open>json!\<close> macro on records, and decimal numbers in messages.\<close>

fun nat_text :: "nat \<Rightarrow> string" where
  "nat_text n = (if n < 10 then [char_of (48 + n)] else nat_text (n div 10) @ [char_of (48 + n mod 10)])"

declare nat_text.simps [simp del]

definition join_text :: "string \<Rightarrow> string list \<Rightarrow> string" where
  "join_text sep ss = (case ss of [] \<Rightarrow> [] | t # ts \<Rightarrow> t @ concat (List.map (\<lambda>u. sep @ u) ts))"

definition json_strings :: "string list \<Rightarrow> json" where
  "json_strings ss = JArray (List.map JString ss)"

definition json_record :: "(string \<times> json) list \<Rightarrow> json" where
  "json_record fs = JObject (record_to_json fs)"

definition json_object :: "json \<Rightarrow> (string \<times> json) list option" where
  "json_object j = (case j of JObject m \<Rightarrow> Some m | _ \<Rightarrow> None)"

definition json_array :: "json \<Rightarrow> json list option" where
  "json_array j = (case j of JArray js \<Rightarrow> Some js | _ \<Rightarrow> None)"

definition json_str :: "json \<Rightarrow> string option" where
  "json_str j = (case j of JString s \<Rightarrow> Some s | _ \<Rightarrow> None)"

definition json_bool :: "json \<Rightarrow> bool option" where
  "json_bool j = (case j of JBool b \<Rightarrow> Some b | _ \<Rightarrow> None)"

definition json_u64 :: "json \<Rightarrow> nat option" where
  "json_u64 j = (case j of JInt z \<Rightarrow> if 0 \<le> z \<and> z < 2 ^ 64 then Some (nat z) else None | _ \<Rightarrow> None)"

definition field :: "(string \<times> json) list \<Rightarrow> string \<Rightarrow> (json \<Rightarrow> 'a option) \<Rightarrow> 'a option" where
  "field m key as = Option.bind (map_of m key) as"

end
