(* ===== verification/Correction.thy ===== *)
theory Correction
  imports Json_Access "HOL-Library.Product_Lexorder"
begin

text \<open>Suggested corrections of failed programs (\<open>stone_correction.rs\<close>): candidates for a misspelt name
  ranked by edit distance, the source edit they imply, and the application of an edit that a program
  asks for. The digest of the source (SHA-256, a crate) is the parameter \<open>sha\<close>; it is a digest already
  written in hexadecimal.\<close>

section \<open>Tables\<close>

definition max_candidates :: nat where
  "max_candidates = 3"

definition max_expected :: nat where
  "max_expected = 16"

definition max_source_bytes :: nat where
  "max_source_bytes = 1048576"

definition keyword_schemas :: "(string \<times> string list) list" where
  "keyword_schemas = [
     (''model_call'', [''model_class'', ''model'', ''temperature'', ''top_p'', ''seed'', ''max_output_tokens'',
        ''response_format'', ''metadata'', ''hooks'']),
     (''model_infer'', [''retries'', ''repair_prompt'', ''schema_prompt'', ''model_class'', ''model'',
        ''temperature'', ''top_p'', ''seed'', ''max_output_tokens'', ''metadata'', ''hooks'']),
     (''context_write'', [''key'', ''kind'', ''content'', ''status'', ''evidence'']),
     (''context_read'', [''query'', ''keys'', ''kinds'', ''limit'']),
     (''context_project'', [''focus'', ''max_tokens'', ''required_keys'']),
     (''correction_apply'', [''source'', ''correction'', ''candidate'']),
     (''workflow_evidence'', []),
     (''file_nonempty'', []),
     (''stage'', [''evidence'', ''repair'', ''max_attempts'', ''checkpoint'']),
     (''workflow_stage'', [''evidence'', ''action'', ''repair'', ''max_attempts'', ''checkpoint'']),
     (''workflow'', []),
     (''workflow_run'', []),
     (''semantic_frontier'', [''checkpoint'', ''owner'']),
     (''semantic_frontier_release'', [''frontier'']),
     (''attempt_best'', [''scope'', ''objective'']),
     (''attempt_best_consider'', [''best'', ''outcome'', ''score'', ''summary'', ''evidence'', ''artifacts'']),
     (''attempt_best_accept'', [''best'', ''parent'']),
     (''attempt_best_discard'', [''best'', ''reason'']),
     (''attempt_retain_failure'', [''scope'', ''outcome'']),
     (''attempt_branch'', [''frontier'', ''task'', ''input'', ''task_input'', ''context_prompt_view'', ''program'',
        ''entrypoint'', ''start'', ''scope'', ''controller'', ''capability_profile'',
        ''container'', ''workspace_mount'', ''time_budget_ms'', ''resource_limits'', ''limits'',
        ''metadata'', ''meta''])]"

definition stone_builtin_names :: "string list" where
  "stone_builtin_names =
    [''cat'', ''diff'', ''edit'', ''edit_file'', ''echo'', ''emit'', ''attempt_branch'',
     ''attempt_best'', ''attempt_best_accept'', ''attempt_best_consider'',
     ''attempt_best_discard'', ''attempt_finish'', ''attempt_fork'', ''attempt_accept'',
     ''attempt_discard'', ''attempt_info'', ''attempt_list'', ''attempt_publish'',
     ''attempt_report'', ''attempt_retain_failure'', ''attempt_run_process'', ''attempt_spawn'',
     ''semantic_frontier'', ''semantic_frontier_release'', ''attempt_start'', ''attempt_state'',
     ''attempt_inspect'', ''attempt_scope'', ''attempt_scope_add'', ''attempt_scope_close'',
     ''attempt_join'', ''attempt_terminate'', ''attempt_wait'', ''attempt_wait_all'',
     ''attempt_wait_any'', ''attempts'', ''env_checkpoint'', ''env_checkpoint_gc'',
     ''env_checkpoints'', ''env_commit'', ''env_discard_checkpoint'', ''env_diff'', ''env_finish'',
     ''env_fork'', ''env_restore'', ''env_restore_checkpoint'', ''env_run_checkpoint'',
     ''env_rollback'', ''env_state'', ''env_tx_info'', ''env_txs'', ''fail'', ''filter'', ''find'',
     ''float'', ''format'', ''first'', ''head'', ''from_json'', ''help'', ''int'', ''last'',
     ''len'', ''ls'', ''list'', ''list_dir'', ''join'', ''map'', ''max'', ''md5'', ''min'',
     ''model_call'', ''model_infer'', ''context_write'', ''context_read'', ''context_project'',
     ''correction_apply'', ''agent_session'', ''current_program'', ''react_control'',
     ''scripted_control'', ''task_spec'', ''task_input'', ''transition_hooks'',
     ''workflow_evidence'', ''file_nonempty'', ''artifact'', ''file_valid'', ''command_succeeded'',
     ''stdout_nonempty'', ''decision_recorded'', ''all_evidence'', ''stage'', ''workflow_stage'',
     ''workflow'', ''workflow_patch'', ''workflow_run'', ''workflow_main'', ''mkdir'',
     ''must_run'', ''open'', ''parse_float'', ''parse_int'', ''print'', ''process_list'', ''ps'',
     ''pwd'', ''cd'', ''range'', ''repr'', ''read_file'', ''read_text'', ''read_csv'',
     ''read_jsonl'', ''round'', ''rm'', ''run'', ''run_complete'', ''run_status'',
     ''run_terminate'', ''run_wait'', ''slice'', ''split'', ''resolve_command'', ''state'',
     ''sys'', ''sys_info'', ''sysinfo'', ''starts_with'', ''startswith'', ''tail'', ''tuple'',
     ''last_result'', ''start_daemon'', ''daemon_status'', ''stop_daemon'', ''wait_port'',
     ''wait_for'', ''save'', ''search'', ''sha1'', ''sha256'', ''sort'', ''sorted'', ''stat'',
     ''str'', ''sum'', ''to_json'', ''to_jsonl'', ''set'', ''unique'', ''type'', ''where'',
     ''json_dumps'', ''json_loads'', ''read_json'', ''write_csv'', ''write_file'', ''write_text'',
     ''write_json'', ''write_jsonl'', ''all'', ''any'', ''enumerate'']"

definition expected_keywords :: "string \<Rightarrow> string list option" where
  "expected_keywords call_name = map_of keyword_schemas call_name"

section \<open>Strings\<close>

definition split_once :: "string \<Rightarrow> string \<Rightarrow> (string \<times> string) option" where
  "split_once s p = map_option (\<lambda>i. (take i s, drop (i + length p) s)) (str_find p s)"

definition strip_prefix :: "string \<Rightarrow> string \<Rightarrow> string option" where
  "strip_prefix s p = (if starts_with p s then Some (drop (length p) s) else None)"

definition strip_suffix :: "string \<Rightarrow> string \<Rightarrow> string option" where
  "strip_suffix s p = (if ends_with p s then Some (take (length s - length p) s) else None)"

definition trim_matches :: "(string \<Rightarrow> bool) \<Rightarrow> string \<Rightarrow> string" where
  "trim_matches P s = trim_end_matches P (trim_start_matches P s)"

text \<open>Non-overlapping occurrences from left to right; the pattern is never empty here.\<close>

function occurrences :: "string \<Rightarrow> string \<Rightarrow> nat \<Rightarrow> nat list" where
  "occurrences p s base = (if p = [] then [] else case str_find p s of
     None \<Rightarrow> []
   | Some i \<Rightarrow> (base + i) # occurrences p (drop (i + length p) s) (base + i + length p))"
  by auto

termination occurrences
proof (relation "measure (\<lambda>(_, s, _). length s)", goal_cases)
  case (2 p s base i)
  then have "length p \<le> length s" using str_find_SomeD [of p s i]
    by (auto simp: starts_with_iff dest!: arg_cong [of _ _ length])
  with 2 show ?case by (cases s) auto
qed simp

declare occurrences.simps [simp del]

definition match_indices :: "string \<Rightarrow> string \<Rightarrow> nat list" where
  "match_indices s p = occurrences p s 0"

fun str_split_text :: "string \<Rightarrow> nat list \<Rightarrow> nat \<Rightarrow> nat \<Rightarrow> string list" where
  "str_split_text s [] n start = [drop start s]"
| "str_split_text s (i # is) n start = take (i - start) (drop start s) # str_split_text s is n (i + n)"

definition split_text :: "string \<Rightarrow> string \<Rightarrow> string list" where
  "split_text s p = str_split_text s (match_indices s p) (length p) 0"

definition replace_text :: "string \<Rightarrow> string \<Rightarrow> string \<Rightarrow> string" where
  "replace_text s p r = join_text r (split_text s p)"

definition is_char_boundary :: "string \<Rightarrow> nat \<Rightarrow> bool" where
  "is_char_boundary s i \<longleftrightarrow> i = length s \<or> i < length s \<and> \<not> is_cont (s ! i)"

section \<open>Identifiers\<close>

definition is_identifier_byte :: "char \<Rightarrow> bool" where
  "is_identifier_byte c \<longleftrightarrow> (let b = byte c in 48 \<le> b \<and> b \<le> 57 \<or> 65 \<le> b \<and> b \<le> 90 \<or> 97 \<le> b \<and> b \<le> 122)
     \<or> c = CHR ''_''"

definition is_identifier :: "string \<Rightarrow> bool" where
  "is_identifier v \<longleftrightarrow> (case v of [] \<Rightarrow> False
     | c # cs \<Rightarrow> is_identifier_byte c \<and> \<not> is_ascii_digit c \<and> list_all is_identifier_byte cs)"

definition is_ascii_space :: "char \<Rightarrow> bool" where
  "is_ascii_space c \<longleftrightarrow> c \<in> {CHR 0x20, CHR 0x09, CHR 0x0A, CHR 0x0C, CHR 0x0D}"

definition next_non_space :: "string \<Rightarrow> nat \<Rightarrow> char option" where
  "next_non_space bytes i = (case dropWhile is_ascii_space (drop i bytes) of [] \<Rightarrow> None | c # _ \<Rightarrow> Some c)"

definition previous_non_space :: "string \<Rightarrow> nat \<Rightarrow> char option" where
  "previous_non_space bytes i = (case dropWhile is_ascii_space (rev (take i bytes)) of [] \<Rightarrow> None | c # _ \<Rightarrow> Some c)"

datatype source_use = UseCall | UseKeyword | UseAttribute

definition stands_alone :: "string \<Rightarrow> string \<Rightarrow> nat \<Rightarrow> bool" where
  "stands_alone source identifier start \<longleftrightarrow> (let stop = start + length identifier
     in (start = 0 \<or> \<not> is_identifier_byte (source ! (start - 1)))
      \<and> (stop = length source \<or> \<not> is_identifier_byte (source ! stop)))"

definition matches_use :: "string \<Rightarrow> nat \<Rightarrow> nat \<Rightarrow> source_use \<Rightarrow> bool" where
  "matches_use source start stop u \<longleftrightarrow> (case u of
     UseCall \<Rightarrow> next_non_space source stop = Some (CHR ''('')
   | UseKeyword \<Rightarrow> next_non_space source stop = Some (CHR ''='')
   | UseAttribute \<Rightarrow> previous_non_space source start = Some (CHR ''.''))"

definition unique_identifier_span :: "string \<Rightarrow> string \<Rightarrow> source_use \<Rightarrow> (nat \<times> nat) option" where
  "unique_identifier_span source identifier u =
     (case List.filter (\<lambda>start. stands_alone source identifier start
             \<and> matches_use source start (start + length identifier) u) (match_indices source identifier) of
        [start] \<Rightarrow> Some (start, start + length identifier)
      | _ \<Rightarrow> None)"

definition contains_identifier :: "string \<Rightarrow> string \<Rightarrow> bool" where
  "contains_identifier source identifier \<longleftrightarrow> list_ex (stands_alone source identifier) (match_indices source identifier)"

section \<open>Edit distance\<close>

text \<open>The table of the distances of all prefixes, filled in place row by row. Adjacent transpositions
  count as one edit.\<close>

definition set_cell :: "nat list list \<Rightarrow> nat \<Rightarrow> nat \<Rightarrow> nat \<Rightarrow> nat list list" where
  "set_cell rows i j v = rows[i := (rows ! i)[j := v]]"

definition cell_distance :: "'a list \<Rightarrow> 'a list \<Rightarrow> nat list list \<Rightarrow> nat \<Rightarrow> nat \<Rightarrow> nat" where
  "cell_distance left right rows i j =
     (let substitution = (if left ! (i - 1) \<noteq> right ! (j - 1) then 1 else 0);
          distance = min (min (rows ! (i - 1) ! j + 1) (rows ! i ! (j - 1) + 1))
                         (rows ! (i - 1) ! (j - 1) + substitution)
      in if 1 < i \<and> 1 < j \<and> left ! (i - 1) = right ! (j - 2) \<and> left ! (i - 2) = right ! (j - 1)
         then min distance (rows ! (i - 2) ! (j - 2) + 1) else distance)"

definition first_rows :: "nat \<Rightarrow> nat \<Rightarrow> nat list list" where
  "first_rows m n = fold (\<lambda>j rows. set_cell rows 0 j j) [0..<n + 1]
     (fold (\<lambda>i rows. set_cell rows i 0 i) [0..<m + 1] (replicate (m + 1) (replicate (n + 1) 0)))"

definition fill_row :: "'a list \<Rightarrow> 'a list \<Rightarrow> nat \<Rightarrow> nat list list \<Rightarrow> nat list list" where
  "fill_row left right i rows =
     fold (\<lambda>j rows. set_cell rows i j (cell_distance left right rows i j)) [1..<length right + 1] rows"

definition damerau_levenshtein :: "'a list \<Rightarrow> 'a list \<Rightarrow> nat" where
  "damerau_levenshtein left right =
     fold (fill_row left right) [1..<length left + 1] (first_rows (length left) (length right))
       ! length left ! length right"

section \<open>Ranking\<close>

record ranked_candidate =
  rc_replacement :: string
  rc_distance :: nat

text \<open>A \<open>BTreeSet\<close> of strings, as the sorted list of its elements.\<close>

definition sorted_set :: "string list \<Rightarrow> string list" where
  "sorted_set xs = remdups (sort xs)"

definition max_distance :: "string \<Rightarrow> nat" where
  "max_distance received = (let n = length (str_chars received) in if n \<le> 4 then 1 else if n \<le> 8 then 2 else 3)"

definition candidate_distance :: "string \<Rightarrow> string \<Rightarrow> nat" where
  "candidate_distance received candidate =
     (if ends_with (''_'' @ received) candidate then 1
      else damerau_levenshtein (str_chars received) (str_chars candidate))"

definition rank_candidate :: "string \<Rightarrow> string \<Rightarrow> ranked_candidate option" where
  "rank_candidate received candidate = (let distance = candidate_distance received candidate
     in if distance \<le> max_distance received
        then Some \<lparr> rc_replacement = candidate, rc_distance = distance \<rparr> else None)"

definition rank_candidates :: "string \<Rightarrow> string list \<Rightarrow> ranked_candidate list" where
  "rank_candidates received expected =
     (if \<not> is_identifier received \<or> 128 < length received then []
      else take max_candidates (sort_key (\<lambda>c. (rc_distance c, rc_replacement c))
        (List.map_filter (rank_candidate received)
          (sorted_set (List.filter (\<lambda>c. is_identifier c \<and> length c \<le> 128) expected)))))"

definition bounded_unique :: "string list \<Rightarrow> string list" where
  "bounded_unique vs = take max_expected (sorted_set (List.filter (\<lambda>v. v \<noteq> []) vs))"

section \<open>Reading the message of an error\<close>

definition backtick :: string where
  "backtick = [CHR 0x60]"

definition backticked_after :: "string \<Rightarrow> string \<Rightarrow> string option" where
  "backticked_after detail prefix = do {
     (_, rest) \<leftarrow> split_once detail prefix;
     (v, _) \<leftarrow> split_once rest backtick;
     guard (v \<noteq> []);
     Some v }"

primrec find_map :: "('a \<Rightarrow> 'b option) \<Rightarrow> 'a list \<Rightarrow> 'b option" where
  "find_map f [] = None"
| "find_map f (x # xs) = or_else (f x) (find_map f xs)"

definition unknown_call_name :: "string \<Rightarrow> string option" where
  "unknown_call_name detail = find_map (backticked_after detail)
     [''unknown Stone function '' @ backtick, ''unknown builtin '' @ backtick, ''unknown function '' @ backtick]"

definition parse_expected_words :: "string \<Rightarrow> string list" where
  "parse_expected_words vs = take max_expected (List.filter is_identifier
     (List.map (\<lambda>v. trim_matches (\<lambda>c. c = backtick) (trim_end_matches (\<lambda>c. c = ''.'') (trim v)))
       (split_text (replace_text (replace_text vs '', or '' '','') '' or '' '','') '','')))"

definition keyword_schema_error :: "string \<Rightarrow> string \<times> string list \<Rightarrow> (string \<times> string list) option" where
  "keyword_schema_error detail schema = map_option (\<lambda>received. (received, snd schema))
     (backticked_after detail (''unexpected '' @ fst schema @ '' keyword argument '' @ backtick))"

definition keyword_error_of :: "string \<Rightarrow> (string \<times> string list) option" where
  "keyword_error_of detail = or_else (find_map (keyword_schema_error detail) keyword_schemas) (do {
     received \<leftarrow> backticked_after detail (''unexpected keyword argument '' @ backtick);
     let expected = (case split_once detail ''; expected '' of
       None \<Rightarrow> [] | Some (_, vs) \<Rightarrow> parse_expected_words vs);
     guard (expected \<noteq> []);
     Some (received, expected) })"

definition attribute_error :: "string \<Rightarrow> (string \<times> string list) option" where
  "attribute_error detail = do {
     received \<leftarrow> backticked_after detail (''record has no attribute '' @ backtick);
     (_, vs) \<leftarrow> split_once detail ''; available fields: '';
     let expected = take max_expected (List.filter (\<lambda>v. v \<noteq> [])
       (List.map (\<lambda>v. trim_matches (\<lambda>c. c = backtick) (trim v)) (split_text vs '','')));
     guard (expected \<noteq> []);
     Some (received, expected) }"

definition message_role_error :: "string \<Rightarrow> (string \<times> string list) option" where
  "message_role_error detail = do {
     rest \<leftarrow> or_else (strip_prefix detail ''unsupported model_call message role '')
       (strip_prefix detail ''unsupported message role '');
     (received, _) \<leftarrow> split_once rest '';'';
     Some (trim_matches (\<lambda>c. c = [CHR 0x27] \<or> c = [CHR 0x22]) (trim received),
           [''system'', ''user'', ''assistant'']) }"

definition exception_handler_binding_error :: "string \<Rightarrow> string option" where
  "exception_handler_binding_error detail = do {
     received \<leftarrow> backticked_after detail (''unsupported exception handler '' @ backtick);
     rest \<leftarrow> strip_prefix received ''except '';
     rest \<leftarrow> strip_suffix rest '':'';
     let name = trim rest;
     guard (is_identifier name);
     Some name }"

definition source_function_name :: "string \<Rightarrow> string option" where
  "source_function_name line = do {
     rest \<leftarrow> strip_prefix (trim_start_matches is_whitespace line) ''def '';
     (head, _) \<leftarrow> split_once rest ''('';
     let name = trim head;
     guard (is_identifier name);
     Some name }"

definition source_function_names :: "string \<Rightarrow> string list" where
  "source_function_names source = List.map_filter source_function_name (str_lines source)"

section \<open>Envelopes\<close>

definition execution_state :: "string \<Rightarrow> string" where
  "execution_state phase = (if phase = ''admission'' then ''not_started'' else ''started_or_unknown'')"

definition suggestion_envelope :: "(string \<Rightarrow> string) \<Rightarrow> string \<Rightarrow> string \<Rightarrow> string \<Rightarrow> string \<Rightarrow> string list
    \<Rightarrow> json list \<Rightarrow> string \<Rightarrow> json" where
  "suggestion_envelope sha source phase cls received expected candidates guidance = json_record
     [(''version'', JInt 1), (''mode'', JString ''suggest''), (''phase'', JString phase),
      (''execution_state'', JString (execution_state phase)), (''class'', JString cls),
      (''safety'', JString ''suggest_only''), (''auto_apply'', JBool False),
      (''retry'', JString ''explicit_only''), (''source_sha256'', JString (sha source)),
      (''received'', JString received), (''expected'', json_strings (bounded_unique expected)),
      (''candidates'', JArray candidates), (''guidance'', JString guidance),
      (''choices'', json_strings [''apply'', ''edit'', ''reject'', ''abort''])]"

definition repair_envelope :: "(string \<Rightarrow> string) \<Rightarrow> string \<Rightarrow> string \<Rightarrow> string \<Rightarrow> string \<Rightarrow> string list
    \<Rightarrow> string \<Rightarrow> json" where
  "repair_envelope sha source phase cls received expected guidance = json_record
     [(''version'', JInt 1), (''mode'', JString ''suggest''), (''phase'', JString phase),
      (''execution_state'', JString (execution_state phase)), (''class'', JString cls),
      (''safety'', JString ''requires_repair''), (''auto_apply'', JBool False),
      (''retry'', JString ''explicit_only''), (''source_sha256'', JString (sha source)),
      (''received'', JString received), (''expected'', json_strings expected),
      (''candidates'', JArray []), (''guidance'', JString guidance),
      (''choices'', json_strings [''edit'', ''reject'', ''abort''])]"

definition best_count :: "ranked_candidate list \<Rightarrow> nat" where
  "best_count candidates = (case candidates of [] \<Rightarrow> 0
     | best # _ \<Rightarrow> length (takeWhile (\<lambda>c. rc_distance c = rc_distance best) candidates))"

definition confidence :: "nat \<Rightarrow> nat \<Rightarrow> string" where
  "confidence best distance = (if distance \<le> 1 \<and> best = 1 then ''high''
     else if distance \<le> 2 then ''medium'' else ''low'')"

definition json_edit :: "nat \<Rightarrow> nat \<Rightarrow> string \<Rightarrow> json" where
  "json_edit start stop replacement = json_record
     [(''start'', JInt (int start)), (''end'', JInt (int stop)), (''replacement'', JString replacement)]"

definition one_candidate_json :: "(nat \<times> nat) option \<Rightarrow> nat \<Rightarrow> ranked_candidate \<Rightarrow> json" where
  "one_candidate_json span best c = json_record
     ([(''replacement'', JString (rc_replacement c)),
       (''confidence'', JString (confidence best (rc_distance c))),
       (''distance'', JInt (int (rc_distance c)))]
      @ (case span of None \<Rightarrow> []
         | Some (start, stop) \<Rightarrow> [(''edit'', json_edit start stop (rc_replacement c))]))"

definition candidate_json :: "string \<Rightarrow> string \<Rightarrow> source_use \<Rightarrow> ranked_candidate list \<Rightarrow> json list" where
  "candidate_json source received u candidates =
     List.map (one_candidate_json (unique_identifier_span source received u) (best_count candidates)) candidates"


definition name_correction :: "(string \<Rightarrow> string) \<Rightarrow> string \<Rightarrow> string \<Rightarrow> string \<Rightarrow> json option" where
  "name_correction sha source phase received = (let
       expected = stone_builtin_names @ [''get'', ''items'', ''keys'', ''values''] @ source_function_names source;
       candidates = rank_candidates received expected
     in if candidates = [] then None
        else Some (suggestion_envelope sha source phase ''name'' received (List.map rc_replacement candidates)
          (candidate_json source received UseCall candidates)
          ''Replace the unknown callable, then explicitly evaluate the corrected source again.''))"

definition keyword_correction :: "(string \<Rightarrow> string) \<Rightarrow> string \<Rightarrow> string \<Rightarrow> string \<times> string list \<Rightarrow> json option" where
  "keyword_correction sha source phase e = (case e of (received, expected) \<Rightarrow>
     Some (suggestion_envelope sha source phase ''keyword'' received expected
       (candidate_json source received UseKeyword (rank_candidates received expected))
       ''Correct the structured keyword, then explicitly evaluate the source again.''))"

definition field_correction :: "(string \<Rightarrow> string) \<Rightarrow> string \<Rightarrow> string \<Rightarrow> string \<times> string list \<Rightarrow> json option" where
  "field_correction sha source phase e = (case e of (received, expected) \<Rightarrow>
     let candidates = rank_candidates received expected
     in if candidates = [] then None
        else Some (suggestion_envelope sha source phase ''field'' received expected
          (candidate_json source received UseAttribute candidates)
          ''Use a field exposed by the structured record, then explicitly evaluate the source again.''))"

definition handler_guidance :: "string \<Rightarrow> string" where
  "handler_guidance name = backtick @ ''except '' @ name @ '':'' @ backtick
     @ '' names an exception type in Python; it does not bind the caught error. Use '' @ backtick
     @ ''except Exception as '' @ name @ '':'' @ backtick @ '' when the handler reads '' @ backtick @ name
     @ backtick @ '', or use bare '' @ backtick @ ''except:'' @ backtick
     @ '' when it does not. Then explicitly evaluate the repaired source again.''"

definition handler_correction :: "(string \<Rightarrow> string) \<Rightarrow> string \<Rightarrow> string \<Rightarrow> string \<Rightarrow> json" where
  "handler_correction sha source phase name = repair_envelope sha source phase ''exception_binding''
     (''except '' @ name @ '':'') [''except Exception as '' @ name @ '':'', ''except:''] (handler_guidance name)"

definition global_correction :: "(string \<Rightarrow> string) \<Rightarrow> string \<Rightarrow> string \<Rightarrow> json" where
  "global_correction sha source phase = repair_envelope sha source phase ''unsupported_construct'' ''global''
     [''explicit function parameters'', ''authoritative state accessor'']
     ''Stone has no mutable Python global declaration. Pass state explicitly or read authoritative state through a function such as attempt_info().''"

definition role_correction :: "(string \<Rightarrow> string) \<Rightarrow> string \<Rightarrow> string \<Rightarrow> string \<times> string list \<Rightarrow> json" where
  "role_correction sha source phase e = repair_envelope sha source phase ''message_role'' (fst e) (snd e)
     ''Do not relabel a tool result mechanically. Serialize the structured observation into an allowed model message role and preserve its meaning.''"

definition lifecycle_correction :: "(string \<Rightarrow> string) \<Rightarrow> string \<Rightarrow> string \<Rightarrow> json" where
  "lifecycle_correction sha source phase = repair_envelope sha source phase ''lifecycle_type''
     ''attempt_acceptance'' [''attempt_handle'']
     ''attempt_accept() returns a typed lifecycle result. Preserve the original child handle, or pass accepted.selected when the callee requires attempt_handle.''"

text \<open>The code and the message of a generic error.\<close>

definition correction_for_error :: "(string \<Rightarrow> string) \<Rightarrow> string \<Rightarrow> string \<Rightarrow> string \<Rightarrow> json option" where
  "correction_for_error sha err_code detail source = (let
       phase = (if err_code \<in> {''stone_parse_error'', ''stone_script_unsupported'', ''stone_admission_error''}
                then ''admission'' else ''evaluation'')
     in case unknown_call_name detail of
       Some received \<Rightarrow> name_correction sha source phase received
     | None \<Rightarrow> (case keyword_error_of detail of
         Some e \<Rightarrow> keyword_correction sha source phase e
       | None \<Rightarrow> (case attribute_error detail of
           Some e \<Rightarrow> field_correction sha source phase e
         | None \<Rightarrow>
             (case (if err_code = ''stone_script_unsupported'' then exception_handler_binding_error detail else None) of
               Some name \<Rightarrow> Some (handler_correction sha source phase name)
             | None \<Rightarrow>
                 if err_code = ''stone_script_unsupported'' \<and> contains_identifier source ''global''
                 then Some (global_correction sha source phase)
                 else (case message_role_error detail of
                   Some e \<Rightarrow> Some (role_correction sha source phase e)
                 | None \<Rightarrow>
                     if str_contains ''expected attempt_handle, got attempt_acceptance'' detail
                     then Some (lifecycle_correction sha source phase) else None)))))"

section \<open>Application\<close>

definition check :: "bool \<Rightarrow> string \<Rightarrow> string + unit" where
  "check ok message = (if ok then Inr () else Inl message)"

definition is_explicit_suggestion :: "(string \<times> json) list \<Rightarrow> bool" where
  "is_explicit_suggestion m \<longleftrightarrow> field m ''mode'' json_str = Some ''suggest''
     \<and> field m ''safety'' json_str = Some ''suggest_only''
     \<and> field m ''auto_apply'' json_bool = Some False \<and> field m ''retry'' json_str = Some ''explicit_only''"

definition applied_record :: "(string \<Rightarrow> string) \<Rightarrow> (string \<times> json) list \<Rightarrow> nat \<Rightarrow> string \<Rightarrow> string \<Rightarrow> nat \<Rightarrow> nat
    \<Rightarrow> string \<Rightarrow> string \<Rightarrow> json" where
  "applied_record sha m candidate_index corrected actual_digest start stop received replacement = json_record
     [(''applied'', JBool True), (''executed'', JBool False), (''candidate'', JInt (int candidate_index)),
      (''source'', JString corrected), (''source_sha256'', JString (sha corrected)),
      (''previous_source_sha256'', JString actual_digest),
      (''edit'', json_record [(''start'', JInt (int start)), (''end'', JInt (int stop)),
         (''received'', JString received), (''replacement'', JString replacement)]),
      (''next_action'', JString ''Evaluate the returned source explicitly in the appropriate transaction.''),
      (''failed_execution_state'', case map_of m ''execution_state'' of None \<Rightarrow> JNull | Some j \<Rightarrow> j)]"

definition apply_edit :: "(string \<Rightarrow> string) \<Rightarrow> string \<Rightarrow> (string \<times> json) list \<Rightarrow> nat \<Rightarrow> string \<Rightarrow> string
    \<Rightarrow> (string \<times> json) list \<Rightarrow> string + json" where
  "apply_edit sha source m candidate_index received replacement edit =
     and_then (ok_or ''correction edit start must be a non-negative byte offset'' (field edit ''start'' json_u64)) (\<lambda>start.
     and_then (ok_or ''correction edit end must be a non-negative byte offset'' (field edit ''end'' json_u64)) (\<lambda>stop.
     and_then (ok_or ''correction edit is missing replacement'' (field edit ''replacement'' json_str)) (\<lambda>edit_replacement.
     and_then (check (edit_replacement = replacement) ''correction candidate and edit replacements differ'') (\<lambda>_.
     and_then (check (start \<le> stop \<and> stop \<le> length source \<and> is_char_boundary source start
         \<and> is_char_boundary source stop) ''correction edit is outside the supplied source'') (\<lambda>_.
     and_then (check (take (stop - start) (drop start source) = received)
         ''correction edit no longer identifies the received text'') (\<lambda>_.
     Inr (applied_record sha m candidate_index (take start source @ replacement @ drop stop source)
            (sha source) start stop received replacement)))))))"

definition apply_candidate :: "(string \<Rightarrow> string) \<Rightarrow> string \<Rightarrow> (string \<times> json) list \<Rightarrow> nat \<Rightarrow> string
    \<Rightarrow> (string \<times> json) list \<Rightarrow> string + json" where
  "apply_candidate sha source m candidate_index received candidate =
     and_then (ok_or ''correction candidate is missing replacement'' (field candidate ''replacement'' json_str)) (\<lambda>replacement.
     and_then (check (is_identifier replacement \<and> length replacement \<le> 128)
         ''correction replacement must be a bounded identifier'') (\<lambda>_.
     and_then (ok_or ''correction candidate has no unambiguous source edit'' (field candidate ''edit'' json_object)) (\<lambda>edit.
     apply_edit sha source m candidate_index received replacement edit)))"

definition apply_correction :: "(string \<Rightarrow> string) \<Rightarrow> string \<Rightarrow> json \<Rightarrow> nat \<Rightarrow> string + json" where
  "apply_correction sha source correction candidate_index =
     and_then (check (length source \<le> max_source_bytes)
         (''source exceeds the correction limit of '' @ nat_text max_source_bytes @ '' bytes'')) (\<lambda>_.
     and_then (ok_or ''correction must be a record'' (json_object correction)) (\<lambda>m.
     and_then (check (field m ''version'' json_u64 = Some 1) ''correction version must be 1'') (\<lambda>_.
     and_then (check (is_explicit_suggestion m) ''correction is not an explicit, suggest-only edit'') (\<lambda>_.
     and_then (ok_or ''correction is missing source_sha256'' (field m ''source_sha256'' json_str)) (\<lambda>expected_digest.
     and_then (check (expected_digest = sha source) ''correction does not match the supplied source'') (\<lambda>_.
     and_then (ok_or ''correction is missing received'' (field m ''received'' json_str)) (\<lambda>received.
     and_then (ok_or ''correction candidates must be a list'' (field m ''candidates'' json_array)) (\<lambda>candidates.
     and_then (check (candidates \<noteq> [] \<and> length candidates \<le> max_candidates)
         (''correction must contain between 1 and '' @ nat_text max_candidates @ '' candidates'')) (\<lambda>_.
     and_then (ok_or (''correction candidate '' @ nat_text candidate_index @ '' does not exist'')
         (Option.bind (vec_get candidates candidate_index) json_object)) (\<lambda>candidate.
     apply_candidate sha source m candidate_index received candidate))))))))))"

end
