(* ===== verification/Correction_Correct.thy ===== *)
theory Correction_Correct
  imports Correction Utf8 Json_Correct
begin

text \<open>Results on corrections: the table of the edit distance holds the least number of edits, the ranking
  is sorted and complete, and a suggestion with an edit applies to the source it was made for.\<close>

section \<open>Edit distance\<close>

text \<open>The edits that turn one text into another along an alignment, counted: keep, substitute, insert or delete a
  character, or swap two neighbours. Every character takes part in one step only, so that swapped characters are not
  edited again.\<close>

inductive edits :: "'a list \<Rightarrow> 'a list \<Rightarrow> nat \<Rightarrow> bool" where
  empty: "edits [] [] 0"
| keep: "edits xs ys n \<Longrightarrow> edits (xs @ [a]) (ys @ [a]) n"
| substitute: "edits xs ys n \<Longrightarrow> edits (xs @ [a]) (ys @ [b]) (n + 1)"
| insert: "edits xs ys n \<Longrightarrow> edits xs (ys @ [b]) (n + 1)"
| delete: "edits xs ys n \<Longrightarrow> edits (xs @ [a]) ys (n + 1)"
| swap: "edits xs ys n \<Longrightarrow> edits (xs @ [a, b]) (ys @ [b, a]) (n + 1)"

text \<open>The recurrence of the table, on reversed prefixes.\<close>

fun osa :: "'a list \<Rightarrow> 'a list \<Rightarrow> nat" where
  "osa [] ys = length ys"
| "osa (x # xs) [] = Suc (length xs)"
| "osa (x # xs) (y # ys) =
     (let d = min (min (osa xs (y # ys) + 1) (osa (x # xs) ys + 1)) (osa xs ys + (if x \<noteq> y then 1 else 0))
      in case xs of [] \<Rightarrow> d | a # xs' \<Rightarrow> (case ys of [] \<Rightarrow> d
         | b # ys' \<Rightarrow> if x = b \<and> a = y then min d (osa xs' ys' + 1) else d))"

lemma osa_Nil [simp]: "osa xs [] = length xs"
  by (cases xs) auto

declare osa.simps(3) [simp del]

definition plain_step :: "'a \<Rightarrow> 'a list \<Rightarrow> 'a \<Rightarrow> 'a list \<Rightarrow> nat" where
  "plain_step x xs y ys = min (min (osa xs (y # ys) + 1) (osa (x # xs) ys + 1)) (osa xs ys + (if x \<noteq> y then 1 else 0))"

lemma osa_Cons_eq:
  "osa (x # xs) (y # ys) = (case (xs, ys) of (a # xs', b # ys') \<Rightarrow>
     if x = b \<and> a = y then min (plain_step x xs y ys) (osa xs' ys' + 1) else plain_step x xs y ys
   | _ \<Rightarrow> plain_step x xs y ys)"
  unfolding osa.simps(3) Let_def plain_step_def [symmetric] by (cases xs; cases ys) simp_all

lemma plain_step_le:
  "plain_step x xs y ys \<le> osa xs (y # ys) + 1" "plain_step x xs y ys \<le> osa (x # xs) ys + 1"
  "plain_step x xs y ys \<le> osa xs ys + (if x \<noteq> y then 1 else 0)"
  unfolding plain_step_def by linarith+

lemma plain_step_cases:
  "plain_step x xs y ys \<in> {osa xs (y # ys) + 1, osa (x # xs) ys + 1, osa xs ys + (if x \<noteq> y then 1 else 0)}"
  unfolding plain_step_def min_def by simp

lemma osa_le_plain: "osa (x # xs) (y # ys) \<le> plain_step x xs y ys"
  unfolding osa_Cons_eq by (simp split: list.split)

lemmas osa_Cons = plain_step_le [THEN le_trans [OF osa_le_plain]]

lemma osa_steps:
  "osa xs (y # ys) \<le> osa xs ys + 1" "osa (x # xs) ys \<le> osa xs ys + 1"
  "osa (x # xs) (y # ys) \<le> osa xs ys + (if x \<noteq> y then 1 else 0)"
  "osa (y # x # xs) (x # y # ys) \<le> osa xs ys + 1"
proof -
  show "osa xs (y # ys) \<le> osa xs ys + 1" using osa_Cons(2) by (cases xs) simp_all
  show "osa (x # xs) ys \<le> osa xs ys + 1" using osa_Cons(1) by (cases ys) simp_all
  show "osa (y # x # xs) (x # y # ys) \<le> osa xs ys + 1"
    unfolding osa_Cons_eq [of y "x # xs"] by simp
qed (rule osa_Cons(3))

lemma osa_cases:
  obtains "osa (x # xs) (y # ys) = osa xs (y # ys) + 1" | "osa (x # xs) (y # ys) = osa (x # xs) ys + 1"
  | "osa (x # xs) (y # ys) = osa xs ys + (if x \<noteq> y then 1 else 0)"
  | xs' ys' where "xs = y # xs'" "ys = x # ys'" "osa (x # xs) (y # ys) = osa xs' ys' + 1"
proof (cases "osa (x # xs) (y # ys) = plain_step x xs y ys")
  case True
  with plain_step_cases [of x xs y ys] that(1-3) show ?thesis by auto
next
  case False
  then obtain xs' ys' where "xs = y # xs'" "ys = x # ys'"
    unfolding osa_Cons_eq by (auto split: list.splits if_splits)
  with False that(4) show ?thesis unfolding osa_Cons_eq min_def by (auto split: if_splits)
qed

lemma osa_least: "edits xs ys n \<Longrightarrow> osa (rev xs) (rev ys) \<le> n"
proof (induction rule: edits.induct)
  case (keep xs ys n a)
  then show ?case using osa_steps(3) [of a "rev xs" a "rev ys"] by simp
next
  case (substitute xs ys n a b)
  then show ?case using osa_steps(3) [of a "rev xs" b "rev ys"] by (simp split: if_splits)
next
  case (insert xs ys n b)
  then show ?case using osa_steps(1) [of "rev xs" b "rev ys"] by simp
next
  case (delete xs ys n a)
  then show ?case using osa_steps(2) [of a "rev xs" "rev ys"] by simp
next
  case (swap xs ys n a b)
  then show ?case using osa_steps(4) [of b a "rev xs" "rev ys"] by simp
qed simp

lemma edits_insert_all: "edits [] ys (length ys)"
proof (induction ys rule: rev_induct)
  case (snoc y ys)
  then show ?case using edits.insert [OF snoc.IH, of y] by simp
qed (simp add: edits.empty)

lemma edits_delete_all: "edits xs [] (length xs)"
proof (induction xs rule: rev_induct)
  case (snoc x xs)
  then show ?case using edits.delete [OF snoc.IH, of x] by simp
qed (simp add: edits.empty)

lemma osa_reached: "edits (rev xs) (rev ys) (osa xs ys)"
proof (induction xs ys rule: osa.induct)
  case (1 ys)
  then show ?case using edits_insert_all [of "rev ys"] by simp
next
  case (2 x xs)
  then show ?case using edits_delete_all [of "rev (x # xs)"] by simp
next
  case (3 x xs y ys)
  show ?case
  proof (cases x xs y ys rule: osa_cases)
    case 1
    with "3.IH" edits.delete [of "rev xs" "rev (y # ys)"] show ?thesis by simp
  next
    case 2
    with "3.IH" edits.insert [of "rev (x # xs)" "rev ys"] show ?thesis by simp
  next
    case 3
    with "3.IH" edits.keep [of "rev xs" "rev ys"] edits.substitute [of "rev xs" "rev ys"] show ?thesis
      by (cases "x = y") auto
  next
    case (4 xs' ys')
    with "3.IH" edits.swap [of "rev xs'" "rev ys'" _ y x] show ?thesis by simp
  qed
qed

section \<open>The table\<close>

definition prefix_distance :: "'a list \<Rightarrow> 'a list \<Rightarrow> nat \<Rightarrow> nat \<Rightarrow> nat" where
  "prefix_distance left right i j = osa (rev (take i left)) (rev (take j right))"

lemma rev_take_Suc: "i < length xs \<Longrightarrow> rev (take (Suc i) xs) = xs ! i # rev (take i xs)"
  by (simp add: take_Suc_conv_app_nth)

text \<open>The cells before a position hold their distance, and so does the first column.\<close>

definition filled :: "'a list \<Rightarrow> 'a list \<Rightarrow> nat list list \<Rightarrow> nat \<Rightarrow> nat \<Rightarrow> bool" where
  "filled left right rows i j \<longleftrightarrow> length rows = length left + 1
     \<and> (\<forall>a\<le>length left. length (rows ! a) = length right + 1 \<and> rows ! a ! 0 = a)
     \<and> (\<forall>a\<le>length left. \<forall>b\<le>length right. a < i \<or> a = i \<and> b < j
          \<longrightarrow> rows ! a ! b = prefix_distance left right a b)"

lemma prefix_distance_step:
  assumes "i < length left" "j < length right"
  shows "prefix_distance left right (Suc i) (Suc j) =
    (let p = plain_step (left ! i) (rev (take i left)) (right ! j) (rev (take j right))
     in if 0 < i \<and> 0 < j \<and> left ! i = right ! (j - 1) \<and> left ! (i - 1) = right ! j
        then min p (prefix_distance left right (i - 1) (j - 1) + 1) else p)"
proof (cases "0 < i \<and> 0 < j")
  case True
  then have "rev (take i left) = left ! (i - 1) # rev (take (i - 1) left)"
    and "rev (take j right) = right ! (j - 1) # rev (take (j - 1) right)"
    using assms rev_take_Suc [of "i - 1" left] rev_take_Suc [of "j - 1" right] by auto
  with True assms show ?thesis
    by (simp add: prefix_distance_def rev_take_Suc osa_Cons_eq [of "left ! i"] Let_def)
next
  case False
  then have "rev (take i left) = [] \<or> rev (take j right) = []" by auto
  with False assms show ?thesis
    by (auto simp: prefix_distance_def rev_take_Suc osa_Cons_eq [of "left ! i"] Let_def split: list.split)
qed

lemma cell_distance_step:
  assumes "filled left right rows i j" and "0 < i" "i \<le> length left" "0 < j" "j \<le> length right"
  shows "cell_distance left right rows i j = prefix_distance left right i j"
proof -
  obtain i' j' where ij: "i = Suc i'" "j = Suc j'" using assms(2, 4) by (cases i; cases j) auto
  then have less: "i' < length left" "j' < length right" using assms by auto
  have cells: "rows ! i' ! Suc j' = prefix_distance left right i' (Suc j')"
      "rows ! Suc i' ! j' = prefix_distance left right (Suc i') j'"
      "rows ! i' ! j' = prefix_distance left right i' j'"
    and diagonal: "0 < i' \<Longrightarrow> 0 < j' \<Longrightarrow> rows ! (i' - 1) ! (j' - 1) = prefix_distance left right (i' - 1) (j' - 1)"
    using assms ij by (auto simp: filled_def)
  have eqs: "Suc i' - 1 = i'" "Suc j' - 1 = j'" "Suc i' - 2 = i' - 1" "Suc j' - 2 = j' - 1"
      "1 < Suc i' \<longleftrightarrow> 0 < i'" "1 < Suc j' \<longleftrightarrow> 0 < j'" by auto
  have plain: "plain_step (left ! i') (rev (take i' left)) (right ! j') (rev (take j' right)) =
      min (min (prefix_distance left right i' (Suc j') + 1) (prefix_distance left right (Suc i') j' + 1))
        (prefix_distance left right i' j' + (if left ! i' \<noteq> right ! j' then 1 else 0))"
    unfolding plain_step_def prefix_distance_def rev_take_Suc [OF less(1)] rev_take_Suc [OF less(2)] by (rule refl)
  show ?thesis
    unfolding ij cell_distance_def Let_def eqs cells prefix_distance_step [OF less] plain
    by (rule if_cong [OF refl _ refl]) (elim conjE, simp only: diagonal)
qed

lemma set_cell_nth:
  assumes "i < length rows" and "j < length (rows ! i)"
  shows "length (set_cell rows i j v) = length rows"
    and "length (set_cell rows i j v ! a) = length (rows ! a)"
    and "set_cell rows i j v ! a ! b = (if a = i \<and> b = j then v else rows ! a ! b)"
  using assms by (auto simp: set_cell_def nth_list_update)

lemma prefix_distance_0:
  "i \<le> length left \<Longrightarrow> prefix_distance left right i 0 = i"
  "j \<le> length right \<Longrightarrow> prefix_distance left right 0 j = j"
  by (simp_all add: prefix_distance_def)

lemma filled_set_cell:
  assumes "filled left right rows i j" and "0 < j" "i \<le> length left" "j \<le> length right"
    and "v = prefix_distance left right i j"
  shows "filled left right (set_cell rows i j v) i (Suc j)"
proof -
  have "i < length rows" "j < length (rows ! i)" using assms(1, 3, 4) by (simp_all add: filled_def)
  note cell = set_cell_nth [OF this]
  show ?thesis
    using assms unfolding filled_def cell by (auto simp: less_Suc_eq)
qed

lemma filled_first_column:
  "filled left right rows i 0 \<Longrightarrow> filled left right rows i 1"
  unfolding filled_def by (auto simp: prefix_distance_0 less_Suc_eq)

lemma filled_next_row:
  assumes "filled left right rows i (Suc (length right))"
  shows "filled left right rows (Suc i) 1"
proof (rule filled_first_column)
  have "rows ! a ! b = prefix_distance left right a b"
    if "a \<le> length left" "b \<le> length right" "a < Suc i" for a b
    using that assms by (cases "a = i") (auto simp: filled_def)
  with assms show "filled left right rows (Suc i) 0" by (simp add: filled_def)
qed

lemma fill_row_filled:
  assumes "filled left right rows i 1" and "0 < i" "i \<le> length left"
  shows "filled left right (fill_row left right i rows) (Suc i) 1"
proof -
  have "k \<le> length right \<Longrightarrow> filled left right
      (fold (\<lambda>j rows. set_cell rows i j (cell_distance left right rows i j)) [1..<Suc k] rows) i (Suc k)" for k
  proof (induction k)
    case (Suc k)
    then have IH: "filled left right (fold (\<lambda>j rows. set_cell rows i j (cell_distance left right rows i j))
        [1..<Suc k] rows) i (Suc k)" by simp
    have "[1..<Suc (Suc k)] = [1..<Suc k] @ [Suc k]" by simp
    with Suc.prems show ?case
      using filled_set_cell [OF IH] cell_distance_step [OF IH] assms(2, 3) by (simp del: upt_Suc)
  qed (use assms in simp)
  then show ?thesis unfolding fill_row_def Suc_eq_plus1 [symmetric] by (intro filled_next_row) simp
qed

definition shaped :: "nat \<Rightarrow> nat \<Rightarrow> nat list list \<Rightarrow> bool" where
  "shaped m n rows \<longleftrightarrow> length rows = m + 1 \<and> (\<forall>a\<le>m. length (rows ! a) = n + 1)"

lemma shaped_set_cell:
  assumes "shaped m n rows" "i \<le> m" "j \<le> n"
  shows "shaped m n (set_cell rows i j v)"
    and "set_cell rows i j v ! a ! b = (if a = i \<and> b = j then v else rows ! a ! b)"
proof -
  have "i < length rows" "j < length (rows ! i)" using assms by (simp_all add: shaped_def)
  note cell = set_cell_nth [OF this]
  show "shaped m n (set_cell rows i j v)" using assms(1) unfolding shaped_def cell .
  show "set_cell rows i j v ! a ! b = (if a = i \<and> b = j then v else rows ! a ! b)" by (rule cell)
qed

lemma first_column:
  assumes "shaped m n rows"
  shows "k \<le> m + 1 \<Longrightarrow> shaped m n (fold (\<lambda>i rows. set_cell rows i 0 i) [0..<k] rows)
    \<and> (\<forall>a<k. fold (\<lambda>i rows. set_cell rows i 0 i) [0..<k] rows ! a ! 0 = a)"
proof (induction k)
  case (Suc k)
  then show ?case
    using shaped_set_cell [of m n "fold (\<lambda>i rows. set_cell rows i 0 i) [0..<k] rows" k 0 k]
    by (auto simp: less_Suc_eq)
qed (use assms in simp)

lemma first_row:
  assumes "shaped m n rows"
  shows "k \<le> n + 1 \<Longrightarrow> shaped m n (fold (\<lambda>j rows. set_cell rows 0 j j) [0..<k] rows)
    \<and> (\<forall>a b. fold (\<lambda>j rows. set_cell rows 0 j j) [0..<k] rows ! a ! b
        = (if a = 0 \<and> b < k then b else rows ! a ! b))"
proof (induction k)
  case (Suc k)
  then show ?case
    using shaped_set_cell [of m n "fold (\<lambda>j rows. set_cell rows 0 j j) [0..<k] rows" 0 k k]
    by (auto simp: less_Suc_eq)
qed (use assms in simp)

lemma first_rows_filled: "filled left right (first_rows (length left) (length right)) 1 1"
proof -
  let ?m = "length left" let ?n = "length right"
  let ?column = "fold (\<lambda>i rows. set_cell rows i 0 i) [0..<?m + 1] (replicate (?m + 1) (replicate (?n + 1) 0))"
  have start: "shaped ?m ?n (replicate (?m + 1) (replicate (?n + 1) 0))"
    by (simp add: shaped_def del: replicate_Suc)
  have column: "shaped ?m ?n ?column" "\<forall>a<?m + 1. ?column ! a ! 0 = a"
    using first_column [OF start le_refl] by blast+
  have "shaped ?m ?n (first_rows ?m ?n)"
    and "first_rows ?m ?n ! a ! b = (if a = 0 \<and> b < ?n + 1 then b else ?column ! a ! b)" for a b
    using first_row [OF column(1) le_refl] unfolding first_rows_def by blast+
  with column(2) have "filled left right (first_rows ?m ?n) 0 (Suc ?n)"
    by (simp add: filled_def shaped_def prefix_distance_0)
  from filled_next_row [OF this] show ?thesis by (simp only: One_nat_def)
qed

lemma table_distance: "damerau_levenshtein left right = osa (rev left) (rev right)"
proof -
  let ?rows = "\<lambda>k. fold (fill_row left right) [1..<Suc k] (first_rows (length left) (length right))"
  have "k \<le> length left \<Longrightarrow> filled left right (?rows k) (Suc k) 1" for k
  proof (induction k)
    case 0
    then show ?case using first_rows_filled [of left right] by simp
  next
    case (Suc k)
    have "[1..<Suc (Suc k)] = [1..<Suc k] @ [Suc k]" by simp
    with Suc show ?case using fill_row_filled [of left right "?rows k" "Suc k"] by (simp del: upt_Suc)
  qed
  from this [of "length left"] have "?rows (length left) ! length left ! length right
      = prefix_distance left right (length left) (length right)"
    by (simp add: filled_def del: upt_Suc)
  then show ?thesis by (simp add: damerau_levenshtein_def prefix_distance_def del: upt_Suc)
qed

text \<open>The restriction counts: from \<open>ca\<close> a swap gives \<open>ac\<close> and an insertion into the swapped pair \<open>abc\<close>, but the
  distance is three.\<close>

lemma swapped_pair_is_not_edited: "damerau_levenshtein ''ca'' ''abc'' = 3"
  by code_simp

text \<open>C9: the edit distance is the cost of the cheapest alignment of the two texts: the least number of
  substitutions, insertions, deletions and swaps of neighbours that turn one text into the other when every character
  takes part in at most one of them (the distance of optimal string alignment; with repeated edits of one place two
  edits turn \<open>ca\<close> into \<open>abc\<close>, and the distance is three).\<close>

theorem edit_distance_is_least_alignment:
  "edits left right (damerau_levenshtein left right)
   \<and> (\<forall>n. edits left right n \<longrightarrow> damerau_levenshtein left right \<le> n)"
  using osa_reached [of "rev left" "rev right"] osa_least [of left right]
  by (simp add: table_distance)

theorem edit_distance_is_least_alignment_witness:
  "edits ''ab'' ''ba'' 1 \<and> damerau_levenshtein ''ab'' ''ba'' \<le> 1"
proof -
  have "edits ''ab'' ''ba'' 1" using edits.swap [OF edits.empty, of "CHR ''a''" "CHR ''b''"] by simp
  with edit_distance_is_least_alignment [of "''ab''" "''ba''"] show ?thesis by blast
qed

section \<open>Ranking\<close>

definition rank_key :: "ranked_candidate \<Rightarrow> nat \<times> string" where
  "rank_key c = (rc_distance c, rc_replacement c)"

text \<open>The candidates that qualify: bounded identifiers among the expected names, near enough.\<close>

definition qualifies :: "string \<Rightarrow> string list \<Rightarrow> ranked_candidate \<Rightarrow> bool" where
  "qualifies received expected c \<longleftrightarrow> rc_replacement c \<in> set expected \<and> is_identifier (rc_replacement c)
     \<and> length (rc_replacement c) \<le> 128 \<and> rc_distance c = candidate_distance received (rc_replacement c)
     \<and> rc_distance c \<le> max_distance received"

lemma set_map_filter: "set (List.map_filter f xs) = {y. \<exists>x\<in>set xs. f x = Some y}"
  by (induction xs) (auto simp: List.map_filter_def)

lemma ranked_all:
  "set (List.map_filter (rank_candidate received)
     (sorted_set (List.filter (\<lambda>c. is_identifier c \<and> length c \<le> 128) expected)))
   = {c. qualifies received expected c}"
  unfolding set_map_filter
  by (auto simp: sorted_set_def rank_candidate_def qualifies_def Let_def split: if_splits)

lemma distinct_map_filter:
  assumes "distinct xs" and "\<And>x y. x \<in> set xs \<Longrightarrow> f x = Some y \<Longrightarrow> g y = x"
  shows "distinct (List.map_filter f xs)"
  using assms
proof (induction xs)
  case (Cons x xs)
  then have "distinct (List.map_filter f xs)" by simp
  moreover have "y \<notin> set (List.map_filter f xs)" if "f x = Some y" for y
    using that Cons.prems by (auto simp: set_map_filter)
  ultimately show ?case by (cases "f x") (auto simp: List.map_filter_def)
qed (simp add: List.map_filter_def)

lemma take_of_sorted:
  assumes "sorted (List.map f xs)" and "x \<in> set xs" "x \<notin> set (take n xs)"
  shows "length (take n xs) = n \<and> (\<forall>y\<in>set (take n xs). f y \<le> f x)"
proof -
  have "x \<in> set (drop n xs)" using assms(2, 3) by (metis Un_iff append_take_drop_id set_append)
  moreover from this have "n < length xs" by (cases "n < length xs") auto
  moreover have "sorted (List.map f (take n xs @ drop n xs))" using assms(1) by simp
  ultimately show ?thesis unfolding map_append sorted_append by auto
qed

text \<open>the ranking returns at most three candidates, each a bounded identifier among the expected names
  and near enough to the received name, in ascending order of distance and name, without repetition;
  a candidate that qualifies and is left out is not better than any of the three returned.\<close>

theorem ranking_is_complete:
  assumes "is_identifier received" and "length received \<le> 128"
    and "cs = rank_candidates received expected"
  shows "length cs \<le> 3 \<and> distinct cs \<and> sorted (List.map rank_key cs) \<and> list_all (qualifies received expected) cs
    \<and> (\<forall>c. qualifies received expected c \<and> c \<notin> set cs \<longrightarrow> length cs = 3 \<and> list_all (\<lambda>d. rank_key d \<le> rank_key c) cs)"
proof -
  let ?all = "List.map_filter (rank_candidate received)
      (sorted_set (List.filter (\<lambda>c. is_identifier c \<and> length c \<le> 128) expected))"
  let ?sorted = "sort_key rank_key ?all"
  have cs: "cs = take 3 ?sorted"
    using assms by (simp add: rank_candidates_def max_candidates_def rank_key_def [abs_def])
  have members: "set ?sorted = {c. qualifies received expected c}" by (simp add: ranked_all)
  have "distinct ?all"
    by (rule distinct_map_filter [where g = rc_replacement])
      (auto simp: sorted_set_def rank_candidate_def Let_def split: if_splits)
  then have "distinct ?sorted" by simp
  then have "distinct cs" "length cs \<le> 3" unfolding cs by simp_all
  moreover have "sorted (List.map rank_key ?sorted)" by simp
  then have "sorted (List.map rank_key cs)" unfolding cs take_map [symmetric] by (rule sorted_wrt_take)
  moreover have "list_all (qualifies received expected) cs"
    using set_take_subset [of 3 ?sorted] members unfolding cs list_all_iff by blast
  moreover have "length cs = 3 \<and> list_all (\<lambda>d. rank_key d \<le> rank_key c) cs"
    if "qualifies received expected c" "c \<notin> set cs" for c
    using that take_of_sorted [OF \<open>sorted (List.map rank_key ?sorted)\<close>, of c 3] members
    unfolding cs list_all_iff by blast
  ultimately show ?thesis by blast
qed

theorem ranking_is_complete_witness:
  "list_all (qualifies ''lem'' [''max'', ''len'']) (rank_candidates ''lem'' [''max'', ''len''])"
  using ranking_is_complete [of "''lem''" _ "[''max'', ''len'']", OF _ _ refl]
  by (simp add: is_identifier_def is_identifier_byte_def is_ascii_digit_def byte_def)

section \<open>Applying a suggestion\<close>

lemma occurrences_sound:
  "i \<in> set (occurrences p s base) \<Longrightarrow> base \<le> i \<and> (\<exists>pre post. s = pre @ p @ post \<and> i = base + length pre)"
proof (induction p s base rule: occurrences.induct)
  case (1 p s base)
  show ?case
  proof (cases "str_find p s")
    case None
    with "1.prems" show ?thesis by (simp add: occurrences.simps [of p s] split: if_splits)
  next
    case (Some j)
    then obtain t where "drop j s = p @ t" and "j \<le> length s"
      using str_find_SomeD [OF Some] by (auto simp: starts_with_iff)
    then have s: "s = take j s @ p @ t" by (metis append_take_drop_id)
    then have rest: "drop (j + length p) s = t"
      using \<open>j \<le> length s\<close> \<open>drop j s = p @ t\<close> by (metis append_eq_conv_conj add.commute drop_drop)
    from "1.prems" Some have p: "p \<noteq> []"
      and "i = base + j \<or> i \<in> set (occurrences p (drop (j + length p) s) (base + j + length p))"
      by (auto simp: occurrences.simps [of p s] split: if_splits)
    then show ?thesis
    proof (elim disjE)
      assume "i = base + j"
      with s \<open>j \<le> length s\<close> show ?thesis by (intro conjI exI [of _ "take j s"] exI [of _ t]) auto
    next
      assume "i \<in> set (occurrences p (drop (j + length p) s) (base + j + length p))"
      from "1.IH" [OF p Some this] obtain pre post where "t = pre @ p @ post" "i = base + j + length p + length pre"
        using rest by auto
      with s \<open>j \<le> length s\<close> show ?thesis
        by (intro conjI exI [of _ "take j s @ p @ pre"] exI [of _ post]) auto
    qed
  qed
qed

lemma unique_span_sound:
  assumes "unique_identifier_span source received u = Some (start, stop)"
  obtains pre post where "source = pre @ received @ post" "start = length pre" "stop = length pre + length received"
proof -
  have "start \<in> set (match_indices source received)" "stop = start + length received"
    using assms by (auto simp: unique_identifier_span_def filter_eq_Cons_iff split: list.splits)
  with occurrences_sound [of start received source 0] that show ?thesis by (auto simp: match_indices_def)
qed

lemma identifier_ascii: "is_identifier_byte c \<Longrightarrow> byte c < 0x80"
  by (auto simp: is_identifier_byte_def Let_def byte_def)

lemma identifier_boundaries:
  assumes "valid_utf8 (pre @ received @ post)" and "is_identifier received"
  shows "is_char_boundary (pre @ received @ post) (length pre)"
    and "is_char_boundary (pre @ received @ post) (length pre + length received)"
proof -
  have ne: "received \<noteq> []" and bytes: "\<forall>c\<in>set received. byte c < 0x80"
    using assms(2) identifier_ascii by (auto simp: is_identifier_def list_all_iff split: list.splits)
  then have "byte (hd received) < 0x80" by simp
  with ne show "is_char_boundary (pre @ received @ post) (length pre)"
    by (cases received) (auto simp: is_char_boundary_def is_cont_def nth_append)
  let ?i = "length pre + length received - 1"
  have "(pre @ received @ post) ! ?i = last received"
    using ne by (cases received rule: rev_cases) (auto simp: nth_append)
  then have "byte ((pre @ received @ post) ! ?i) < 0x80" using ne bytes by simp
  moreover have i: "?i < length (pre @ received @ post)" "Suc ?i = length pre + length received" using ne by (cases received; simp)+
  ultimately have "valid_utf8 (drop (length pre + length received) (pre @ received @ post))"
    using valid_utf8_drop [OF assms(1) i(1)] unfolding i(2) by simp
  then have "valid_utf8 post" by simp
  then show "is_char_boundary (pre @ received @ post) (length pre + length received)"
    using valid_utf8_lead by (cases post) (auto simp: is_char_boundary_def nth_append)
qed

definition correction_candidate :: "json \<Rightarrow> nat \<Rightarrow> (string \<times> json) list option" where
  "correction_candidate j i = do {
     m \<leftarrow> json_object j;
     cs \<leftarrow> field m ''candidates'' json_array;
     c \<leftarrow> vec_get cs i;
     json_object c }"

lemmas json_access = field_def json_object_def json_array_def json_str_def json_bool_def json_u64_def

lemma json_record_fields [simp]:
  "json_object (json_record fs) = Some (record_to_json fs)"
  "map_of (record_to_json fs) k = map_of (rev fs) k"
  by (simp_all add: json_record_def json_object_def record_to_json_facts(3))

lemma suggestion_fields:
  assumes "json_object (suggestion_envelope sha source phase cls received expected candidates guidance) = Some m"
  shows "field m ''version'' json_u64 = Some 1" "is_explicit_suggestion m"
    "field m ''source_sha256'' json_str = Some (sha source)" "field m ''received'' json_str = Some received"
    "field m ''candidates'' json_array = Some candidates"
proof -
  have m: "map_of m = map_of (rev [(''version'', JInt 1), (''mode'', JString ''suggest''), (''phase'', JString phase),
      (''execution_state'', JString (execution_state phase)), (''class'', JString cls),
      (''safety'', JString ''suggest_only''), (''auto_apply'', JBool False),
      (''retry'', JString ''explicit_only''), (''source_sha256'', JString (sha source)),
      (''received'', JString received), (''expected'', json_strings (bounded_unique expected)),
      (''candidates'', JArray candidates), (''guidance'', JString guidance),
      (''choices'', json_strings [''apply'', ''edit'', ''reject'', ''abort''])])"
    using assms by (auto simp: suggestion_envelope_def simp del: rev.simps)
  show "field m ''version'' json_u64 = Some 1" "is_explicit_suggestion m"
    "field m ''source_sha256'' json_str = Some (sha source)" "field m ''received'' json_str = Some received"
    "field m ''candidates'' json_array = Some candidates"
    unfolding is_explicit_suggestion_def field_def m by (simp_all add: json_access)
qed

lemma candidate_fields:
  assumes "json_object (one_candidate_json span best c) = Some cand"
  shows "field cand ''replacement'' json_str = Some (rc_replacement c)"
    "field cand ''edit'' json_object = map_option (\<lambda>(start, stop). record_to_json
       [(''start'', JInt (int start)), (''end'', JInt (int stop)), (''replacement'', JString (rc_replacement c))]) span"
  using assms by (cases span; force simp: one_candidate_json_def field_def json_str_def json_edit_def)+

lemma applied_record_fields:
  "\<exists>out. applied_record sha m i corrected digest start stop received replacement = JObject out
     \<and> field out ''source'' json_str = Some corrected \<and> field out ''executed'' json_bool = Some False"
  unfolding applied_record_def json_record_def
  by (intro exI conjI, rule refl) (simp_all add: field_def json_str_def json_bool_def)

definition suggested :: "(string \<Rightarrow> string) \<Rightarrow> string \<Rightarrow> json \<Rightarrow> bool" where
  "suggested sha source j \<longleftrightarrow> (\<exists>phase cls received expected all u guidance.
     j = suggestion_envelope sha source phase cls received expected
       (candidate_json source received u (rank_candidates received all)) guidance)"

definition repair_only :: "(string \<Rightarrow> string) \<Rightarrow> string \<Rightarrow> json \<Rightarrow> bool" where
  "repair_only sha source j \<longleftrightarrow> (\<exists>phase cls received expected guidance.
     j = repair_envelope sha source phase cls received expected guidance)"

lemma repairs:
  "repair_only sha source (handler_correction sha source phase name)"
  "repair_only sha source (global_correction sha source phase)"
  "repair_only sha source (role_correction sha source phase e)"
  "repair_only sha source (lifecycle_correction sha source phase)"
  unfolding repair_only_def handler_correction_def global_correction_def role_correction_def
    lifecycle_correction_def by blast+

lemma suggestions:
  "name_correction sha source phase received = Some j \<Longrightarrow> suggested sha source j"
  "keyword_correction sha source phase e = Some j \<Longrightarrow> suggested sha source j"
  "field_correction sha source phase e = Some j \<Longrightarrow> suggested sha source j"
  unfolding name_correction_def keyword_correction_def field_correction_def suggested_def Let_def
  by (auto split: if_splits prod.splits) metis+

lemma correction_cases:
  assumes "correction_for_error sha err_code detail source = Some j"
  shows "suggested sha source j \<or> repair_only sha source j"
  using assms unfolding correction_for_error_def Let_def
  by (auto split: option.splits if_splits dest: suggestions simp: repairs)

lemma repair_has_no_candidate:
  "correction_candidate (repair_envelope sha source phase cls received expected guidance) i = None"
  by (simp add: correction_candidate_def repair_envelope_def field_def json_array_def)

lemma rank_candidates_received: "c \<in> set (rank_candidates received all) \<Longrightarrow> is_identifier received"
  by (auto simp: rank_candidates_def split: if_splits)

lemma rank_candidates_replacement:
  assumes "c \<in> set (rank_candidates received all)"
  shows "is_identifier (rc_replacement c)" "length (rc_replacement c) \<le> 128"
  using assms set_take_subset [of max_candidates]
  by (auto simp: rank_candidates_def set_map_filter rank_candidate_def sorted_set_def Let_def split: if_splits
      dest!: subsetD [OF set_take_subset])

lemma length_rank_candidates: "length (rank_candidates received all) \<le> max_candidates"
  by (simp add: rank_candidates_def)

text \<open>C10: the edit of a suggestion applies to the source it was made for, a valid text within the size limit. For
  every candidate of a correction that has an edit, the application succeeds: it replaces one occurrence of the name
  in the field \<open>received\<close> of the correction, an identifier, by the text in the field \<open>replacement\<close> of the candidate,
  again an identifier, leaves the rest of the source alone and runs nothing.\<close>

theorem suggestion_applies:
  assumes "correction_for_error sha err_code detail source = Some j"
    and "correction_candidate j i = Some cand" and "field cand ''edit'' json_object \<noteq> None"
    and "valid_utf8 source" and "length source \<le> max_source_bytes"
  shows "\<exists>m pre received replacement post out. json_object j = Some m \<and> field m ''received'' json_str = Some received
    \<and> is_identifier received \<and> source = pre @ received @ post
    \<and> field cand ''replacement'' json_str = Some replacement \<and> is_identifier replacement
    \<and> apply_correction sha source j i = Inr (JObject out)
    \<and> field out ''source'' json_str = Some (pre @ replacement @ post)
    \<and> field out ''executed'' json_bool = Some False"
proof -
  obtain phase cls received expected all u guidance where j: "j = suggestion_envelope sha source phase cls
      received expected (candidate_json source received u (rank_candidates received all)) guidance"
    using correction_cases [OF assms(1)] assms(2) by (auto simp: suggested_def repair_only_def repair_has_no_candidate)
  let ?cs = "candidate_json source received u (rank_candidates received all)"
  obtain m where m: "json_object j = Some m" and cand: "Option.bind (vec_get ?cs i) json_object = Some cand"
    using assms(2) suggestion_fields(5) unfolding j by (auto simp: correction_candidate_def bind_eq_Some_conv)
  note fields = suggestion_fields [OF m [unfolded j]]
  define c where "c = rank_candidates received all ! i"
  have i: "i < length ?cs" and obj: "json_object (one_candidate_json (unique_identifier_span source received u)
      (best_count (rank_candidates received all)) c) = Some cand"
    using cand by (auto simp: bind_eq_Some_conv vec_get_eq_Some candidate_json_def c_def)
  then have c: "c \<in> set (rank_candidates received all)" by (simp add: candidate_json_def c_def)
  obtain start stop where span: "unique_identifier_span source received u = Some (start, stop)"
    using assms(3) candidate_fields(2) [OF obj] by auto
  obtain pre post where source: "source = pre @ received @ post" "start = length pre"
      "stop = length pre + length received"
    using unique_span_sound [OF span] .
  let ?r = "rc_replacement c"
  have bounds: "start < 2 ^ 64" "stop < 2 ^ 64"
    using assms(5) source by (simp_all add: max_source_bytes_def)
  have boundary: "is_char_boundary source start" "is_char_boundary source stop"
    using identifier_boundaries [of pre received post] assms(4) rank_candidates_received [OF c] source by simp_all
  have edit: "apply_edit sha source m i received ?r (record_to_json [(''start'', JInt (int start)),
      (''end'', JInt (int stop)), (''replacement'', JString ?r)]) =
      Inr (applied_record sha m i (pre @ ?r @ post) (sha source) start stop received ?r)"
    using bounds boundary by (simp add: apply_edit_def field_def json_u64_def json_str_def check_def) (simp add: source)
  have "?cs \<noteq> []" "length ?cs \<le> max_candidates"
    using i length_rank_candidates [of received all] by (auto simp: candidate_json_def)
  moreover have "apply_candidate sha source m i received cand =
      Inr (applied_record sha m i (pre @ ?r @ post) (sha source) start stop received ?r)"
    using candidate_fields [OF obj] rank_candidates_replacement [OF c] edit
    by (simp add: apply_candidate_def span check_def)
  ultimately have "apply_correction sha source j i =
      Inr (applied_record sha m i (pre @ ?r @ post) (sha source) start stop received ?r)"
    using assms(5) fields cand by (simp add: apply_correction_def m check_def)
  moreover note applied_record_fields [of sha m i "pre @ ?r @ post" "sha source" start stop received ?r]
  ultimately show ?thesis
    using source(1) candidate_fields(1) [OF obj] rank_candidates_replacement(1) [OF c] rank_candidates_received [OF c] m fields(4)
    by metis
qed

definition sample_detail :: string where
  "sample_detail = ''record has no attribute '' @ backtick @ ''a'' @ backtick @ ''; available fields: ab''"

lemma sample_detail_parsed:
  "unknown_call_name sample_detail = None" "keyword_error_of sample_detail = None"
  "attribute_error sample_detail = Some (''a'', [''ab''])"
  "rank_candidates ''a'' [''ab''] = [\<lparr> rc_replacement = ''ab'', rc_distance = 1 \<rparr>]"
  "unique_identifier_span ''r.a'' ''a'' UseAttribute = Some (2, 3)"
  by code_simp+

theorem suggestion_applies_witness:
  "\<exists>j out. correction_for_error id ''stone_script_error'' sample_detail ''r.a'' = Some j
     \<and> apply_correction id ''r.a'' j 0 = Inr (JObject out) \<and> field out ''source'' json_str \<noteq> None"
proof -
  let ?c = "\<lparr> rc_replacement = ''ab'', rc_distance = 1 \<rparr>"
  obtain phase cls expected guidance where j: "correction_for_error id ''stone_script_error'' sample_detail ''r.a''
      = Some (suggestion_envelope id ''r.a'' phase cls ''a'' expected (candidate_json ''r.a'' ''a'' UseAttribute [?c]) guidance)"
    by (simp add: correction_for_error_def field_correction_def sample_detail_parsed)
  let ?j = "suggestion_envelope id ''r.a'' phase cls ''a'' expected (candidate_json ''r.a'' ''a'' UseAttribute [?c]) guidance"
  obtain m where m: "json_object ?j = Some m" by (simp add: suggestion_envelope_def)
  obtain cand where cand: "json_object (one_candidate_json (Some (2, 3)) (best_count [?c]) ?c) = Some cand"
    by (simp add: one_candidate_json_def)
  have "correction_candidate ?j 0 = Some cand"
    using m suggestion_fields(5) [OF m] cand
    by (simp add: correction_candidate_def candidate_json_def sample_detail_parsed)
  moreover have "field cand ''edit'' json_object \<noteq> None" using candidate_fields(2) [OF cand] by simp
  moreover have "valid_utf8 ''r.a''" "length ''r.a'' \<le> max_source_bytes"
    by (simp_all add: byte_def max_source_bytes_def)
  ultimately show ?thesis using suggestion_applies [OF j] j by fastforce
qed

end
