(* ===== verification/Admission.thy ===== *)
theory Admission
  imports Correction
begin

text \<open>Admission of programs (\<open>stone_admission.rs\<close>): before a program runs, its calls are checked against
  the builtins and the names the program or the session binds, keyword arguments of builtins against
  their schemas, and \<open>await\<close> and \<open>async with\<close> against the enclosing function.\<close>

record admission_names =
  an_callable :: "string set"
  an_schema_shadow :: "string set"
  an_async_context :: bool

definition admission_error :: "string \<Rightarrow> msg_arg list \<Rightarrow> shell_error" where
  "admission_error detail args = StoneError ''admission'' detail args"

section \<open>Names that a program binds\<close>

fun collect_expr_bindings :: "expr \<Rightarrow> string set"
  and collect_exprs_bindings :: "expr list \<Rightarrow> string set"
  and collect_named_bindings :: "(string \<times> expr) list \<Rightarrow> string set"
  and collect_part_bindings :: "fstring_part list \<Rightarrow> string set"
  and collect_clause_bindings :: "comp_clause list \<Rightarrow> string set"
  and collect_option_bindings :: "expr option \<Rightarrow> string set"
where
  "collect_expr_bindings ENone = {}"
| "collect_expr_bindings (EBool b) = {}"
| "collect_expr_bindings (EInt s) = {}"
| "collect_expr_bindings (EFloat x) = {}"
| "collect_expr_bindings (EString s) = {}"
| "collect_expr_bindings (EName x) = {}"
| "collect_expr_bindings (EFormatted parts) = collect_part_bindings parts"
| "collect_expr_bindings (EList vs) = collect_exprs_bindings vs"
| "collect_expr_bindings (ETuple vs) = collect_exprs_bindings vs"
| "collect_expr_bindings (EListComp elt clauses) = collect_expr_bindings elt \<union> collect_clause_bindings clauses"
| "collect_expr_bindings (EGenerator elt clauses) = collect_expr_bindings elt \<union> collect_clause_bindings clauses"
| "collect_expr_bindings (ERecord fs) = collect_named_bindings fs"
| "collect_expr_bindings (EDictComp k v clauses) =
     collect_expr_bindings k \<union> collect_expr_bindings v \<union> collect_clause_bindings clauses"
| "collect_expr_bindings (ESubscript v i) = collect_expr_bindings v \<union> collect_expr_bindings i"
| "collect_expr_bindings (EAttribute v a) = collect_expr_bindings v"
| "collect_expr_bindings (ESlice l u) = collect_option_bindings l \<union> collect_option_bindings u"
| "collect_expr_bindings (ECompare l ops cs) = collect_expr_bindings l \<union> collect_exprs_bindings cs"
| "collect_expr_bindings (EBoolOp op vs) = collect_exprs_bindings vs"
| "collect_expr_bindings (EConditional t c e) =
     collect_expr_bindings t \<union> collect_expr_bindings c \<union> collect_expr_bindings e"
| "collect_expr_bindings (ENot v) = collect_expr_bindings v"
| "collect_expr_bindings (ENeg v) = collect_expr_bindings v"
| "collect_expr_bindings (EInvert v) = collect_expr_bindings v"
| "collect_expr_bindings (EAwait v) = collect_expr_bindings v"
| "collect_expr_bindings (EAdd l r) = collect_expr_bindings l \<union> collect_expr_bindings r"
| "collect_expr_bindings (ESub l r) = collect_expr_bindings l \<union> collect_expr_bindings r"
| "collect_expr_bindings (EMul l r) = collect_expr_bindings l \<union> collect_expr_bindings r"
| "collect_expr_bindings (EDiv l r) = collect_expr_bindings l \<union> collect_expr_bindings r"
| "collect_expr_bindings (EFloorDiv l r) = collect_expr_bindings l \<union> collect_expr_bindings r"
| "collect_expr_bindings (EMod l r) = collect_expr_bindings l \<union> collect_expr_bindings r"
| "collect_expr_bindings (EBitAnd l r) = collect_expr_bindings l \<union> collect_expr_bindings r"
| "collect_expr_bindings (EBitOr l r) = collect_expr_bindings l \<union> collect_expr_bindings r"
| "collect_expr_bindings (EBitXor l r) = collect_expr_bindings l \<union> collect_expr_bindings r"
| "collect_expr_bindings (ELShift l r) = collect_expr_bindings l \<union> collect_expr_bindings r"
| "collect_expr_bindings (ERShift l r) = collect_expr_bindings l \<union> collect_expr_bindings r"
| "collect_expr_bindings (ELambda params body) = set params \<union> collect_expr_bindings body"
| "collect_expr_bindings (EMethodCall receiver method positional named) =
     collect_expr_bindings receiver \<union> collect_exprs_bindings positional \<union> collect_named_bindings named"
| "collect_expr_bindings (ECall (Call name positional named)) =
     collect_exprs_bindings positional \<union> collect_named_bindings named"
| "collect_exprs_bindings [] = {}"
| "collect_exprs_bindings (e # es) = collect_expr_bindings e \<union> collect_exprs_bindings es"
| "collect_named_bindings [] = {}"
| "collect_named_bindings ((name, e) # es) = collect_expr_bindings e \<union> collect_named_bindings es"
| "collect_part_bindings [] = {}"
| "collect_part_bindings (FLiteral s # ps) = collect_part_bindings ps"
| "collect_part_bindings (FExpr e # ps) = collect_expr_bindings e \<union> collect_part_bindings ps"
| "collect_part_bindings (FFormatted e spec # ps) = collect_expr_bindings e \<union> collect_part_bindings ps"
| "collect_clause_bindings [] = {}"
| "collect_clause_bindings (CompClause targets iter filters # cs) =
     set targets \<union> collect_expr_bindings iter \<union> collect_exprs_bindings filters \<union> collect_clause_bindings cs"
| "collect_option_bindings None = {}"
| "collect_option_bindings (Some e) = collect_expr_bindings e"

fun collect_assign_target :: "assign_target \<Rightarrow> string set" where
  "collect_assign_target (TName x) = {x}"
| "collect_assign_target (TTuple xs) = set xs"
| "collect_assign_target (TSubscript v i) = collect_assign_target v \<union> collect_expr_bindings i"

definition collect_stage_bindings :: "stage_decorator option \<Rightarrow> string set" where
  "collect_stage_bindings stage = (case stage of None \<Rightarrow> {} | Some d \<Rightarrow>
     collect_expr_bindings (sd_evidence d) \<union> collect_option_bindings (sd_repair d)
       \<union> collect_option_bindings (sd_max_attempts d))"

fun collect_param_bindings :: "function_param list \<Rightarrow> string set" where
  "collect_param_bindings [] = {}"
| "collect_param_bindings (FunctionParam name ty dflt # ps) =
     {name} \<union> collect_option_bindings dflt \<union> collect_param_bindings ps"

fun collect_statement_bindings :: "stmt list \<Rightarrow> string set"
  and collect_stmt_bindings :: "stmt \<Rightarrow> string set"
  and collect_handler_bindings :: "except_handler list \<Rightarrow> string set"
where
  "collect_statement_bindings [] = {}"
| "collect_statement_bindings (s # ss) = collect_stmt_bindings s \<union> collect_statement_bindings ss"
| "collect_stmt_bindings (SAssign target v) = collect_assign_target target \<union> collect_expr_bindings v"
| "collect_stmt_bindings (SAugAssign target op v) = collect_assign_target target \<union> collect_expr_bindings v"
| "collect_stmt_bindings (SFor targets iter body) =
     set targets \<union> collect_expr_bindings iter \<union> collect_statement_bindings body"
| "collect_stmt_bindings (SWhile c body) = collect_expr_bindings c \<union> collect_statement_bindings body"
| "collect_stmt_bindings (SIf c t e) =
     collect_expr_bindings c \<union> collect_statement_bindings t \<union> collect_statement_bindings e"
| "collect_stmt_bindings (SWith is_async target ctx body) =
     set_option target \<union> collect_expr_bindings ctx \<union> collect_statement_bindings body"
| "collect_stmt_bindings (STry body handlers) = collect_statement_bindings body \<union> collect_handler_bindings handlers"
| "collect_stmt_bindings (SFunctionDef (FunctionDef name is_async params ret body stage)) =
     {name} \<union> collect_stage_bindings stage \<union> collect_param_bindings params \<union> collect_statement_bindings body"
| "collect_stmt_bindings (SRaise v) = collect_option_bindings v"
| "collect_stmt_bindings (SReturn v) = collect_option_bindings v"
| "collect_stmt_bindings SBreak = {}"
| "collect_stmt_bindings SContinue = {}"
| "collect_stmt_bindings SPass = {}"
| "collect_stmt_bindings (SExpr v) = collect_expr_bindings v"
| "collect_handler_bindings [] = {}"
| "collect_handler_bindings (ExceptHandler name body # hs) =
     set_option name \<union> collect_statement_bindings body \<union> collect_handler_bindings hs"

section \<open>The check\<close>

definition awaitable :: "expr \<Rightarrow> bool" where
  "awaitable e \<longleftrightarrow> (case e of
     EName _ \<Rightarrow> True
   | EMethodCall _ method _ _ \<Rightarrow> method \<in> {''wait'', ''wait_any'', ''wait_all'', ''accept''}
   | ECall (Call name _ _) \<Rightarrow> name \<in> {''run'', ''attempt_wait'', ''attempt_join'', ''attempt_wait_any'',
       ''attempt_wait_all'', ''attempt_accept''}
   | _ \<Rightarrow> False)"

definition await_error :: string where
  "await_error = ''await currently supports run(), an attempt handle, child.wait(), scope.wait_any(), scope.wait_all(), root.accept(), and their functional attempt_* forms''"

definition validate_await :: "admission_names \<Rightarrow> expr \<Rightarrow> unit res" where
  "validate_await names v =
     (if \<not> an_async_context names then Inl (admission_error ''await is only valid inside async def'' [])
      else if \<not> awaitable v then Inl (admission_error await_error []) else Inr ())"

definition validate_call :: "admission_names \<Rightarrow> string \<Rightarrow> (string \<times> expr) list \<Rightarrow> unit res" where
  "validate_call names name named =
     (if name \<notin> an_callable names
      then Inl (admission_error ''unknown Stone function `{}`; use help() for available Stone functions'' [MStr name])
      else if name \<in> an_schema_shadow names then Inr ()
      else case expected_keywords name of
        None \<Rightarrow> Inr ()
      | Some expected \<Rightarrow> (case find (\<lambda>(n, _). n \<notin> set expected) named of
          None \<Rightarrow> Inr ()
        | Some (received, _) \<Rightarrow>
            Inl (admission_error ''unexpected {} keyword argument `{}`'' [MStr name, MStr received])))"

definition also_ok :: "unit res \<Rightarrow> unit res \<Rightarrow> unit res" where
  "also_ok r s = and_then r (\<lambda>_. s)"

lemma also_ok_cong [fundef_cong]: "r = r' \<Longrightarrow> s = s' \<Longrightarrow> also_ok r s = also_ok r' s'"
  by simp

lemma also_ok_Inr [simp]: "also_ok r s = Inr u \<longleftrightarrow> r = Inr () \<and> s = Inr ()"
  by (auto simp: also_ok_def and_then_eq_Inr)

fun validate_expr :: "admission_names \<Rightarrow> expr \<Rightarrow> unit res"
  and validate_exprs :: "admission_names \<Rightarrow> expr list \<Rightarrow> unit res"
  and validate_named :: "admission_names \<Rightarrow> (string \<times> expr) list \<Rightarrow> unit res"
  and validate_parts :: "admission_names \<Rightarrow> fstring_part list \<Rightarrow> unit res"
  and validate_clauses :: "admission_names \<Rightarrow> comp_clause list \<Rightarrow> unit res"
  and validate_option :: "admission_names \<Rightarrow> expr option \<Rightarrow> unit res"
where
  "validate_expr names ENone = Inr ()"
| "validate_expr names (EBool b) = Inr ()"
| "validate_expr names (EInt s) = Inr ()"
| "validate_expr names (EFloat x) = Inr ()"
| "validate_expr names (EString s) = Inr ()"
| "validate_expr names (EName x) = Inr ()"
| "validate_expr names (EFormatted parts) = validate_parts names parts"
| "validate_expr names (EList vs) = validate_exprs names vs"
| "validate_expr names (ETuple vs) = validate_exprs names vs"
| "validate_expr names (EListComp elt clauses) = also_ok (validate_expr names elt) (validate_clauses names clauses)"
| "validate_expr names (ERecord fs) = validate_named names fs"
| "validate_expr names (EDictComp k v clauses) =
     also_ok (validate_expr names k) (also_ok (validate_expr names v) (validate_clauses names clauses))"
| "validate_expr names (ESubscript v i) = also_ok (validate_expr names v) (validate_expr names i)"
| "validate_expr names (EAttribute v a) = validate_expr names v"
| "validate_expr names (ESlice l u) = also_ok (validate_option names l) (validate_option names u)"
| "validate_expr names (ECompare l ops cs) = also_ok (validate_expr names l) (validate_exprs names cs)"
| "validate_expr names (EBoolOp op vs) = validate_exprs names vs"
| "validate_expr names (EConditional t c e) =
     also_ok (validate_expr names t) (also_ok (validate_expr names c) (validate_expr names e))"
| "validate_expr names (ENot v) = validate_expr names v"
| "validate_expr names (ENeg v) = validate_expr names v"
| "validate_expr names (EInvert v) = validate_expr names v"
| "validate_expr names (EAwait v) = also_ok (validate_await names v) (validate_expr names v)"
| "validate_expr names (EAdd l r) = also_ok (validate_expr names l) (validate_expr names r)"
| "validate_expr names (ESub l r) = also_ok (validate_expr names l) (validate_expr names r)"
| "validate_expr names (EMul l r) = also_ok (validate_expr names l) (validate_expr names r)"
| "validate_expr names (EDiv l r) = also_ok (validate_expr names l) (validate_expr names r)"
| "validate_expr names (EFloorDiv l r) = also_ok (validate_expr names l) (validate_expr names r)"
| "validate_expr names (EMod l r) = also_ok (validate_expr names l) (validate_expr names r)"
| "validate_expr names (EBitAnd l r) = also_ok (validate_expr names l) (validate_expr names r)"
| "validate_expr names (EBitOr l r) = also_ok (validate_expr names l) (validate_expr names r)"
| "validate_expr names (EBitXor l r) = also_ok (validate_expr names l) (validate_expr names r)"
| "validate_expr names (ELShift l r) = also_ok (validate_expr names l) (validate_expr names r)"
| "validate_expr names (ERShift l r) = also_ok (validate_expr names l) (validate_expr names r)"
| "validate_expr names (EGenerator elt clauses) = also_ok (validate_expr names elt) (validate_clauses names clauses)"
| "validate_expr names (ELambda params body) = validate_expr names body"
| "validate_expr names (EMethodCall receiver method positional named) =
     also_ok (validate_expr names receiver) (also_ok (validate_exprs names positional) (validate_named names named))"
| "validate_expr names (ECall (Call name positional named)) =
     also_ok (validate_call names name named)
       (also_ok (validate_exprs names positional) (validate_named names named))"
| "validate_exprs names [] = Inr ()"
| "validate_exprs names (e # es) = also_ok (validate_expr names e) (validate_exprs names es)"
| "validate_named names [] = Inr ()"
| "validate_named names ((name, e) # es) = also_ok (validate_expr names e) (validate_named names es)"
| "validate_parts names [] = Inr ()"
| "validate_parts names (FLiteral s # ps) = validate_parts names ps"
| "validate_parts names (FExpr e # ps) = also_ok (validate_expr names e) (validate_parts names ps)"
| "validate_parts names (FFormatted e spec # ps) = also_ok (validate_expr names e) (validate_parts names ps)"
| "validate_clauses names [] = Inr ()"
| "validate_clauses names (CompClause targets iter filters # cs) =
     also_ok (validate_expr names iter) (also_ok (validate_exprs names filters) (validate_clauses names cs))"
| "validate_option names None = Inr ()"
| "validate_option names (Some e) = validate_expr names e"

definition validate_stage :: "admission_names \<Rightarrow> stage_decorator option \<Rightarrow> unit res" where
  "validate_stage names stage = (case stage of None \<Rightarrow> Inr () | Some d \<Rightarrow>
     also_ok (validate_expr names (sd_evidence d))
       (also_ok (validate_option names (sd_repair d)) (validate_option names (sd_max_attempts d))))"

fun validate_params :: "admission_names \<Rightarrow> function_param list \<Rightarrow> unit res" where
  "validate_params names [] = Inr ()"
| "validate_params names (FunctionParam name ty dflt # ps) =
     also_ok (validate_option names dflt) (validate_params names ps)"

definition validate_with :: "admission_names \<Rightarrow> bool \<Rightarrow> unit res" where
  "validate_with names is_async = (if is_async \<and> \<not> an_async_context names
     then Inl (admission_error ''async with is only valid inside async def'' []) else Inr ())"

fun validate_statements :: "admission_names \<Rightarrow> stmt list \<Rightarrow> unit res"
  and validate_stmt :: "admission_names \<Rightarrow> stmt \<Rightarrow> unit res"
  and validate_handlers :: "admission_names \<Rightarrow> except_handler list \<Rightarrow> unit res"
where
  "validate_statements names [] = Inr ()"
| "validate_statements names (s # ss) = also_ok (validate_stmt names s) (validate_statements names ss)"
| "validate_stmt names (SAssign target v) = validate_expr names v"
| "validate_stmt names (SAugAssign target op v) = validate_expr names v"
| "validate_stmt names (SFor targets iter body) = also_ok (validate_expr names iter) (validate_statements names body)"
| "validate_stmt names (SWhile c body) = also_ok (validate_expr names c) (validate_statements names body)"
| "validate_stmt names (SIf c t e) =
     also_ok (validate_expr names c) (also_ok (validate_statements names t) (validate_statements names e))"
| "validate_stmt names (SWith is_async target ctx body) =
     also_ok (validate_with names is_async) (also_ok (validate_expr names ctx) (validate_statements names body))"
| "validate_stmt names (STry body handlers) =
     also_ok (validate_statements names body) (validate_handlers names handlers)"
| "validate_stmt names (SFunctionDef (FunctionDef name is_async params ret body stage)) =
     also_ok (validate_stage names stage) (also_ok (validate_params names params)
       (validate_statements (names\<lparr> an_async_context := is_async \<rparr>) body))"
| "validate_stmt names (SRaise v) = validate_option names v"
| "validate_stmt names (SReturn v) = validate_option names v"
| "validate_stmt names SBreak = Inr ()"
| "validate_stmt names SContinue = Inr ()"
| "validate_stmt names SPass = Inr ()"
| "validate_stmt names (SExpr v) = validate_expr names v"
| "validate_handlers names [] = Inr ()"
| "validate_handlers names (ExceptHandler name body # hs) =
     also_ok (validate_statements names body) (validate_handlers names hs)"

definition program_names :: "program \<Rightarrow> string list \<Rightarrow> admission_names" where
  "program_names p session_bound_names = (let
       bound_names = set session_bound_names \<union> collect_statement_bindings p
     in \<lparr> an_callable = set stone_builtin_names \<union> {''get'', ''items'', ''keys'', ''values'', ''isinstance''} \<union> bound_names,
          an_schema_shadow = bound_names, an_async_context = False \<rparr>)"

definition validate_program :: "program \<Rightarrow> string list \<Rightarrow> unit res" where
  "validate_program p session_bound_names = validate_statements (program_names p session_bound_names) p"

end
