(* ===== verification/Admission_Correct.thy ===== *)
theory Admission_Correct
  imports Admission
begin

text \<open>Admission as a typing judgement: the check accepts a program exactly when every expression that
  occurs in it, at any depth, is a legal call or await in the context of its function.\<close>

section \<open>Occurrences\<close>

fun part_exprs :: "fstring_part \<Rightarrow> expr list" where
  "part_exprs (FLiteral s) = []"
| "part_exprs (FExpr e) = [e]"
| "part_exprs (FFormatted e spec) = [e]"

fun clause_exprs :: "comp_clause \<Rightarrow> expr list" where
  "clause_exprs (CompClause targets iter filters) = iter # filters"

fun children :: "expr \<Rightarrow> expr list" where
  "children (EFormatted parts) = concat (List.map part_exprs parts)"
| "children (EList vs) = vs"
| "children (ETuple vs) = vs"
| "children (EListComp elt clauses) = elt # concat (List.map clause_exprs clauses)"
| "children (ERecord fs) = List.map snd fs"
| "children (EDictComp k v clauses) = k # v # concat (List.map clause_exprs clauses)"
| "children (ESubscript v i) = [v, i]"
| "children (EAttribute v a) = [v]"
| "children (ESlice l u) = (case l of None \<Rightarrow> [] | Some e \<Rightarrow> [e]) @ (case u of None \<Rightarrow> [] | Some e \<Rightarrow> [e])"
| "children (ECompare l ops cs) = l # cs"
| "children (EBoolOp op vs) = vs"
| "children (EConditional t c e) = [t, c, e]"
| "children (ENot v) = [v]"
| "children (ENeg v) = [v]"
| "children (EInvert v) = [v]"
| "children (EAwait v) = [v]"
| "children (EAdd l r) = [l, r]"
| "children (ESub l r) = [l, r]"
| "children (EMul l r) = [l, r]"
| "children (EDiv l r) = [l, r]"
| "children (EFloorDiv l r) = [l, r]"
| "children (EMod l r) = [l, r]"
| "children (EBitAnd l r) = [l, r]"
| "children (EBitOr l r) = [l, r]"
| "children (EBitXor l r) = [l, r]"
| "children (ELShift l r) = [l, r]"
| "children (ERShift l r) = [l, r]"
| "children (EGenerator elt clauses) = elt # concat (List.map clause_exprs clauses)"
| "children (ELambda params body) = [body]"
| "children (EMethodCall receiver method positional named) = receiver # positional @ List.map snd named"
| "children (ECall (Call name positional named)) = positional @ List.map snd named"
| "children e = []"

inductive occurs :: "expr \<Rightarrow> expr \<Rightarrow> bool" where
  here: "occurs e e"
| inside: "c \<in> set (children e) \<Longrightarrow> occurs s c \<Longrightarrow> occurs s e"

definition legal_call :: "admission_names \<Rightarrow> string \<Rightarrow> (string \<times> expr) list \<Rightarrow> bool" where
  "legal_call names name named \<longleftrightarrow> name \<in> an_callable names \<and>
     (name \<notin> an_schema_shadow names \<longrightarrow> (\<forall>ks. expected_keywords name = Some ks \<longrightarrow> fst ` set named \<subseteq> set ks))"

definition legal :: "admission_names \<Rightarrow> expr \<Rightarrow> bool" where
  "legal names e \<longleftrightarrow> (case e of
     ECall (Call name positional named) \<Rightarrow> legal_call names name named
   | EAwait v \<Rightarrow> an_async_context names \<and> awaitable v
   | _ \<Rightarrow> True)"

section \<open>Expressions\<close>

lemma unexpected_keyword: "find (\<lambda>(n, _). n \<notin> set ks) named = None \<longleftrightarrow> fst ` set named \<subseteq> set ks"
  by (auto simp: find_None_iff)

lemma validate_call_legal: "validate_call names name named = Inr () \<longleftrightarrow> legal_call names name named"
proof (cases "expected_keywords name")
  case None
  then show ?thesis by (simp add: validate_call_def legal_call_def)
next
  case (Some ks)
  show ?thesis
  proof (cases "find (\<lambda>(n, _). n \<notin> set ks) named")
    case None
    then show ?thesis using unexpected_keyword [of ks named] by (simp add: validate_call_def legal_call_def Some)
  next
    case (Some x)
    then have "\<not> fst ` set named \<subseteq> set ks" using unexpected_keyword [of ks named] by simp
    with Some \<open>expected_keywords name = Some ks\<close> show ?thesis
      by (cases x) (simp add: validate_call_def legal_call_def)
  qed
qed

lemma validate_lists:
  "validate_exprs names es = Inr () \<longleftrightarrow> (\<forall>e\<in>set es. validate_expr names e = Inr ())"
  "validate_named names fs = Inr () \<longleftrightarrow> (\<forall>e\<in>set (List.map snd fs). validate_expr names e = Inr ())"
  "validate_parts names ps = Inr () \<longleftrightarrow> (\<forall>e\<in>set (concat (List.map part_exprs ps)). validate_expr names e = Inr ())"
  "validate_clauses names cs = Inr () \<longleftrightarrow> (\<forall>e\<in>set (concat (List.map clause_exprs cs)). validate_expr names e = Inr ())"
  "validate_option names oe = Inr () \<longleftrightarrow> (\<forall>e\<in>set_option oe. validate_expr names e = Inr ())"
proof -
  show exprs: "validate_exprs names es = Inr () \<longleftrightarrow> (\<forall>e\<in>set es. validate_expr names e = Inr ())" for es
    by (induction es) auto
  show "validate_named names fs = Inr () \<longleftrightarrow> (\<forall>e\<in>set (List.map snd fs). validate_expr names e = Inr ())"
    by (induction fs) auto
  show "validate_parts names ps = Inr () \<longleftrightarrow> (\<forall>e\<in>set (concat (List.map part_exprs ps)). validate_expr names e = Inr ())"
  proof (induction ps)
    case (Cons p ps)
    then show ?case by (cases p) auto
  qed simp
  show "validate_clauses names cs = Inr () \<longleftrightarrow> (\<forall>e\<in>set (concat (List.map clause_exprs cs)). validate_expr names e = Inr ())"
  proof (induction cs)
    case (Cons c cs)
    then show ?case by (cases c) (auto simp: exprs)
  qed simp
qed (cases oe; simp)

lemma validate_expr_step:
  "validate_expr names e = Inr () \<longleftrightarrow> legal names e \<and> (\<forall>c\<in>set (children e). validate_expr names c = Inr ())"
proof (cases e)
  case (ECall call)
  then show ?thesis by (cases call) (auto simp: validate_lists legal_def validate_call_legal)
qed (auto simp: validate_lists legal_def validate_await_def split: option.splits)

lemma validated_occurrence: "occurs s e \<Longrightarrow> validate_expr names e = Inr () \<Longrightarrow> legal names s"
  by (induction rule: occurs.induct) (blast dest: validate_expr_step [THEN iffD1])+

lemma member_size: "x \<in> set xs \<Longrightarrow> f x < Suc (size_list f xs)"
  by (induction xs) auto
lemma part_size: "e \<in> set (part_exprs p) \<Longrightarrow> p \<in> set ps \<Longrightarrow> size e < Suc (size_list size ps)"
  using member_size [of p ps size] by (cases p) auto
lemma clause_size: "e \<in> set (clause_exprs c) \<Longrightarrow> c \<in> set cs \<Longrightarrow> size e < Suc (size_list size cs)"
  using member_size [of c cs size] by (cases c) (auto dest: member_size [where f = size])
lemma named_size: "(n, e) \<in> set fs \<Longrightarrow> size e < Suc (size_list (size_prod (\<lambda>_. 0) size) fs)"
  using member_size [of "(n, e)" fs "size_prod (\<lambda>_. 0) size"] by simp
lemma children_size: "c \<in> set (children e) \<Longrightarrow> size c < size e"
  by (induction e rule: children.induct)
   (fastforce split: option.splits dest: part_size clause_size named_size member_size [where f = size])+

lemma validate_expr_legal: "validate_expr names e = Inr () \<longleftrightarrow> (\<forall>s. occurs s e \<longrightarrow> legal names s)"
proof
  assume "\<forall>s. occurs s e \<longrightarrow> legal names s"
  then show "validate_expr names e = Inr ()"
  proof (induction "size e" arbitrary: e rule: less_induct)
    case less
    then have "\<forall>c\<in>set (children e). validate_expr names c = Inr ()"
      using children_size occurs.inside by blast
    with less.prems occurs.here show ?case by (blast intro: validate_expr_step [THEN iffD2])
  qed
qed (use validated_occurrence in blast)

section \<open>Statements\<close>

text \<open>The expressions of a statement that the check looks at, and the blocks inside it, each with the
  context of the function that it belongs to.\<close>

fun param_exprs :: "function_param \<Rightarrow> expr list" where
  "param_exprs (FunctionParam name ty dflt) = (case dflt of None \<Rightarrow> [] | Some e \<Rightarrow> [e])"

definition stage_exprs :: "stage_decorator option \<Rightarrow> expr list" where
  "stage_exprs stage = (case stage of None \<Rightarrow> [] | Some d \<Rightarrow> sd_evidence d
     # (case sd_repair d of None \<Rightarrow> [] | Some e \<Rightarrow> [e]) @ (case sd_max_attempts d of None \<Rightarrow> [] | Some e \<Rightarrow> [e]))"

fun stmt_exprs :: "stmt \<Rightarrow> expr list" where
  "stmt_exprs (SAssign target v) = [v]"
| "stmt_exprs (SAugAssign target op v) = [v]"
| "stmt_exprs (SFor targets iter body) = [iter]"
| "stmt_exprs (SWhile c body) = [c]"
| "stmt_exprs (SIf c t e) = [c]"
| "stmt_exprs (SWith is_async target ctx body) = [ctx]"
| "stmt_exprs (SFunctionDef (FunctionDef name is_async params ret body stage)) =
     stage_exprs stage @ concat (List.map param_exprs params)"
| "stmt_exprs (SRaise v) = (case v of None \<Rightarrow> [] | Some e \<Rightarrow> [e])"
| "stmt_exprs (SReturn v) = (case v of None \<Rightarrow> [] | Some e \<Rightarrow> [e])"
| "stmt_exprs (SExpr v) = [v]"
| "stmt_exprs s = []"

fun handler_body :: "except_handler \<Rightarrow> stmt list" where
  "handler_body (ExceptHandler name body) = body"

fun stmt_blocks :: "bool \<Rightarrow> stmt \<Rightarrow> (bool \<times> stmt list) list" where
  "stmt_blocks a (SFor targets iter body) = [(a, body)]"
| "stmt_blocks a (SWhile c body) = [(a, body)]"
| "stmt_blocks a (SIf c t e) = [(a, t), (a, e)]"
| "stmt_blocks a (SWith is_async target ctx body) = [(a, body)]"
| "stmt_blocks a (STry body handlers) = (a, body) # List.map (\<lambda>h. (a, handler_body h)) handlers"
| "stmt_blocks a (SFunctionDef (FunctionDef name is_async params ret body stage)) = [(is_async, body)]"
| "stmt_blocks a s = []"

inductive occurs_in :: "bool \<Rightarrow> stmt \<Rightarrow> bool \<Rightarrow> stmt list \<Rightarrow> bool" where
  here: "s \<in> set ss \<Longrightarrow> occurs_in a s a ss"
| inside: "t \<in> set ss \<Longrightarrow> (a', block) \<in> set (stmt_blocks a t) \<Longrightarrow> occurs_in b s a' block \<Longrightarrow> occurs_in b s a ss"

definition legal_stmt :: "admission_names \<Rightarrow> bool \<Rightarrow> stmt \<Rightarrow> bool" where
  "legal_stmt names a s \<longleftrightarrow> (case s of SWith is_async _ _ _ \<Rightarrow> is_async \<longrightarrow> a | _ \<Rightarrow> True)
     \<and> (\<forall>e\<in>set (stmt_exprs s). \<forall>x. occurs x e \<longrightarrow> legal (names\<lparr> an_async_context := a \<rparr>) x)"

lemma validate_statements_all:
  "validate_statements names ss = Inr () \<longleftrightarrow> (\<forall>s\<in>set ss. validate_stmt names s = Inr ())"
  by (induction ss) auto

lemma validate_handlers_all:
  "validate_handlers names hs = Inr () \<longleftrightarrow> (\<forall>h\<in>set hs. validate_statements names (handler_body h) = Inr ())"
proof (induction hs)
  case (Cons h hs)
  then show ?case by (cases h) auto
qed simp

lemma validate_params_all:
  "validate_params names ps = Inr () \<longleftrightarrow> (\<forall>e\<in>set (concat (List.map param_exprs ps)). validate_expr names e = Inr ())"
proof (induction ps)
  case (Cons p ps)
  then show ?case by (cases p) (auto simp: validate_lists split: option.splits)
qed simp

lemma validate_stmt_step:
  "validate_stmt (names\<lparr> an_async_context := a \<rparr>) s = Inr () \<longleftrightarrow> legal_stmt names a s
     \<and> (\<forall>(a', block)\<in>set (stmt_blocks a s). validate_statements (names\<lparr> an_async_context := a' \<rparr>) block = Inr ())"
proof (cases s)
  case (SFunctionDef f)
  then show ?thesis
    by (cases f) (auto simp: legal_stmt_def validate_expr_legal [symmetric] validate_params_all validate_stage_def
        stage_exprs_def validate_lists split: option.splits)
qed (auto simp: legal_stmt_def validate_expr_legal [symmetric] validate_handlers_all validate_with_def
    validate_lists split: option.splits)

lemma validated_statement:
  "occurs_in b s a ss \<Longrightarrow> validate_statements (names\<lparr> an_async_context := a \<rparr>) ss = Inr () \<Longrightarrow> legal_stmt names b s"
proof (induction rule: occurs_in.induct)
  case (here s ss a)
  then show ?case unfolding validate_statements_all by (blast dest: validate_stmt_step [THEN iffD1])
next
  case (inside t ss a' block a b s)
  then have "validate_stmt (names\<lparr> an_async_context := a \<rparr>) t = Inr ()" by (simp add: validate_statements_all)
  with inside show ?case using validate_stmt_step [THEN iffD1] by fastforce
qed

lemma handler_size: "h \<in> set hs \<Longrightarrow> size_list size (handler_body h) < Suc (size_list size hs)"
  using member_size [of h hs size] by (cases h) auto

lemma block_size: "(a', block) \<in> set (stmt_blocks a s) \<Longrightarrow> size_list size block < size s"
  by (induction a s rule: stmt_blocks.induct) (auto dest: handler_size)

lemma validate_statements_legal:
  "(\<forall>b s. occurs_in b s a ss \<longrightarrow> legal_stmt names b s) \<Longrightarrow>
     validate_statements (names\<lparr> an_async_context := a \<rparr>) ss = Inr ()"
proof (induction "size_list size ss" arbitrary: a ss rule: less_induct)
  case less
  have "validate_stmt (names\<lparr> an_async_context := a \<rparr>) t = Inr ()" if t: "t \<in> set ss" for t
  proof -
    have "validate_statements (names\<lparr> an_async_context := a' \<rparr>) block = Inr ()"
      if block: "(a', block) \<in> set (stmt_blocks a t)" for a' block
    proof (rule less.hyps)
      show "size_list size block < size_list size ss"
        using block_size [OF block] member_size [OF t, of size] by linarith
      show "\<forall>b s. occurs_in b s a' block \<longrightarrow> legal_stmt names b s"
        using less.prems occurs_in.inside [OF t block] by blast
    qed
    moreover have "legal_stmt names a t" using less.prems occurs_in.here [OF t] by blast
    ultimately show ?thesis by (intro validate_stmt_step [THEN iffD2]) auto
  qed
  then show ?case by (simp add: validate_statements_all)
qed

lemma sync_names: "(program_names p session)\<lparr> an_async_context := False \<rparr> = program_names p session"
  by (simp add: program_names_def Let_def)

lemma program_judgement:
  "validate_program p session = Inr () \<longleftrightarrow>
     (\<forall>a s. occurs_in a s False p \<longrightarrow> legal_stmt (program_names p session) a s)"
  using validated_statement [of _ _ False p "program_names p session", unfolded sync_names]
    validate_statements_legal [of False p "program_names p session", unfolded sync_names]
  unfolding validate_program_def by blast

text \<open>C8: admission is a static judgement on the whole program. A program is admitted exactly when, at every depth of
  its statements, every call of a function names a builtin, one of \<open>get\<close>, \<open>items\<close>, \<open>keys\<close>, \<open>values\<close> and \<open>isinstance\<close>, or a name that
  the program or the session binds; every keyword of a call of a name that is not rebound and has a schema is in the
  schema; every await stands in an async function and its operand is one that can be awaited (a name, or one of the
  methods and calls that \<open>awaitable\<close> lists); and every async with stands in an async function. The judgement looks at the expressions
  that \<open>stmt_exprs\<close> lists: not at the targets of assignments, and of a stage only at evidence, repair and the limit of
  attempts.\<close>

theorem admitted_iff_legal:
  "validate_program p session = Inr () \<longleftrightarrow>
     (\<forall>a s. occurs_in a s False p \<longrightarrow> legal_stmt (program_names p session) a s)"
  by (rule program_judgement)

lemma legal_mono:
  assumes "an_callable names \<subseteq> an_callable names'" and "an_schema_shadow names \<subseteq> an_schema_shadow names'"
    and "an_async_context names = an_async_context names'" and "legal names e"
  shows "legal names' e"
  using assms by (auto simp: legal_def legal_call_def split: expr.splits call.splits)

text \<open>an admitted program stays admitted when the session binds more names.\<close>

theorem admission_grows_with_session:
  assumes "validate_program p session = Inr ()" and "set session \<subseteq> set session'"
  shows "validate_program p session' = Inr ()"
proof -
  let ?n = "program_names p session" let ?n' = "program_names p session'"
  have callable: "an_callable ?n \<subseteq> an_callable ?n'" "an_schema_shadow ?n \<subseteq> an_schema_shadow ?n'"
    using assms(2) by (auto simp: program_names_def Let_def)
  have "legal_stmt ?n' a s" if "legal_stmt ?n a s" for a s
    using that legal_mono [of "?n\<lparr> an_async_context := a \<rparr>" "?n'\<lparr> an_async_context := a \<rparr>"] callable
    by (auto simp: legal_stmt_def)
  with assms(1) show ?thesis unfolding program_judgement by blast
qed

definition sample_program :: program where
  "sample_program =
     [SFunctionDef (FunctionDef ''f'' True [] TyAny [SExpr (EAwait (ECall (Call ''run'' [] [])))] None),
      SExpr (ECall (Call ''f'' [EName ''x''] []))]"

lemma run_is_builtin: "''run'' \<in> set stone_builtin_names" "expected_keywords ''run'' = None"
  by (simp add: stone_builtin_names_def) code_simp

lemma sample_program_admitted: "validate_program sample_program [] = Inr ()"
  by (simp add: validate_program_def sample_program_def program_names_def Let_def validate_stage_def
      validate_await_def awaitable_def validate_call_def run_is_builtin)

theorem admitted_iff_legal_witness:
  "occurs_in True (SExpr (EAwait (ECall (Call ''run'' [] [])))) False sample_program
   \<and> legal_stmt (program_names sample_program []) True (SExpr (EAwait (ECall (Call ''run'' [] []))))"
proof -
  have "occurs_in True (SExpr (EAwait (ECall (Call ''run'' [] [])))) False sample_program"
    by (rule occurs_in.inside [OF _ _ occurs_in.here]) (auto simp: sample_program_def)
  then show ?thesis using admitted_iff_legal [of sample_program "[]"] sample_program_admitted by blast
qed

theorem admission_grows_with_session_witness: "validate_program sample_program [''x''] = Inr ()"
  using admission_grows_with_session [OF sample_program_admitted, of "[''x'']"] by simp

end
