(* ===== verification/Attempt_Values.thy ===== *)
theory Attempt_Values
  imports Collections Json_Access
begin

text \<open>The values of speculative attempts: outcomes, handles, failures, acceptances and frontiers
  (\<open>stone_attempt_value.rs\<close>), the scopes that own child attempts (\<open>stone_attempt_scope.rs\<close>) and the
  selectors of a best candidate (\<open>stone_attempt_best.rs\<close>). The Rust values share their state through
  \<open>Arc<Mutex<_>>\<close>; here the states live in vectors and a shared value is the index of its state. One
  evaluation runs on one thread, so a lock is never poisoned.\<close>

section \<open>Counters and records\<close>

definition saturating_succ :: "nat \<Rightarrow> nat" where
  "saturating_succ n = min (n + 1) 18446744073709551615"

definition u64_value :: "nat \<Rightarrow> nu_value" where
  "u64_value n = VInt (i64_of (int n))"

definition nu_str :: "nu_value \<Rightarrow> string option" where
  "nu_str v = (case v of VString s \<Rightarrow> Some s | _ \<Rightarrow> None)"

definition optional_value :: "('a \<Rightarrow> nu_value) \<Rightarrow> 'a option \<Rightarrow> nu_value" where
  "optional_value f x = (case x of None \<Rightarrow> VNothing | Some y \<Rightarrow> f y)"

definition string_list :: "string list \<Rightarrow> nu_value" where
  "string_list ss = VList (List.map VString ss)"

definition attempt_record_field :: "nu_value \<Rightarrow> string \<Rightarrow> nu_value option" where
  "attempt_record_field v key = (case v of VRecord r \<Rightarrow> record_get r key | _ \<Rightarrow> None)"

definition attempt_metadata_string :: "nu_value \<Rightarrow> string \<Rightarrow> string option" where
  "attempt_metadata_string v key = do {
     metadata \<leftarrow> attempt_record_field v ''metadata'';
     field \<leftarrow> attempt_record_field metadata key;
     nu_str field }"

definition record_attribute :: "nu_value \<Rightarrow> string \<Rightarrow> string \<Rightarrow> nu_value res" where
  "record_attribute v attr kind = (case v of
     VRecord r \<Rightarrow> ok_or (stone_error ''attribute'' ''{} has no attribute `{}`'' [MStr kind, MStr attr])
                    (record_get r attr)
   | _ \<Rightarrow> Inl (stone_error kind ''runtime value did not contain a record'' []))"

section \<open>Outcomes, handles and acceptances\<close>

record attempt_outcome =
  ao_attempt :: string
  ao_joined :: bool
  ao_timed_out :: bool
  ao_state :: string
  ao_controller_state :: string
  ao_record :: nu_value

definition succeeded :: "attempt_outcome \<Rightarrow> bool" where
  "succeeded a \<longleftrightarrow> ao_joined a
     \<and> attempt_metadata_string (ao_record a) ''controller_result_status'' = Some ''succeeded''"

definition failed :: "attempt_outcome \<Rightarrow> bool" where
  "failed a \<longleftrightarrow> ao_joined a \<and> (ao_state a = ''failed'' \<or> \<not> succeeded a)"

definition unwrap_or :: "'a \<Rightarrow> 'a option \<Rightarrow> 'a" where
  "unwrap_or d x = (case x of None \<Rightarrow> d | Some y \<Rightarrow> y)"

definition outcome_materialize :: "attempt_outcome \<Rightarrow> nu_value" where
  "outcome_materialize a = (let text = (\<lambda>key dflt. VString (unwrap_or dflt (attempt_metadata_string (ao_record a) key)));
       reported = (\<lambda>key. unwrap_or VNothing (attempt_record_field (ao_record a) key))
     in VRecord
      [(''attempt'', VString (ao_attempt a)), (''joined'', VBool (ao_joined a)),
       (''timed_out'', VBool (ao_timed_out a)), (''ok'', VBool (succeeded a)),
       (''succeeded'', VBool (succeeded a)), (''state'', VString (ao_state a)),
       (''controller_state'', VString (ao_controller_state a)),
       (''execution'', VRecord [(''status'', VString (ao_controller_state a)),
          (''joined'', VBool (ao_joined a)), (''timed_out'', VBool (ao_timed_out a))]),
       (''result'', VRecord [(''status'', text ''controller_result_status'' ''unreported''),
          (''reason'', text ''controller_result_reason'' []),
          (''value'', reported ''reported_result''), (''error'', reported ''reported_error'')]),
       (''evaluation'', VRecord [(''status'', VString ''not_evaluated'')]),
       (''selection'', VRecord [(''status'', text ''selection_state'' ''pending'')]),
       (''cleanup'', VRecord [(''status'', VString (if ao_state a = ''active'' then ''pending'' else ''closed''))]),
       (''record'', ao_record a)])"

definition outcome_attribute :: "attempt_outcome \<Rightarrow> string \<Rightarrow> nu_value res" where
  "outcome_attribute a attr = (if attr = ''type'' then Inr (VString ''attempt_outcome'')
     else record_attribute (outcome_materialize a) attr ''attempt_outcome'')"

record attempt_handle =
  ah_attempt :: string
  ah_record :: nu_value

definition handle_attribute :: "attempt_handle \<Rightarrow> string \<Rightarrow> nu_value res" where
  "handle_attribute h attr = (if attr = ''type'' then Inr (VString ''attempt_handle'')
     else if attr = ''attempt'' then Inr (VString (ah_attempt h))
     else record_attribute (ah_record h) attr ''attempt_handle'')"

record attempt_acceptance =
  aa_attempt :: string
  aa_record :: nu_value
  aa_selected_record :: nu_value

definition new_acceptance :: "string \<Rightarrow> nu_value \<Rightarrow> attempt_acceptance res" where
  "new_acceptance attempt r = and_then (ok_or (stone_error ''attempt_acceptance''
       ''Gateway acceptance result did not contain a selected child record'' []) (attempt_record_field r ''child''))
     (\<lambda>child. Inr \<lparr> aa_attempt = attempt, aa_record = r, aa_selected_record = child \<rparr>)"

definition selected_handle :: "attempt_acceptance \<Rightarrow> attempt_handle" where
  "selected_handle a = \<lparr> ah_attempt = aa_attempt a, ah_record = aa_selected_record a \<rparr>"

definition acceptance_materialize :: "attempt_acceptance \<Rightarrow> nu_value" where
  "acceptance_materialize a = VRecord
     ([(''type'', VString ''attempt_acceptance''), (''status'', VString ''accepted''), (''accepted'', VBool True),
       (''attempt'', VString (aa_attempt a)), (''selected'', aa_selected_record a)]
      @ (case aa_record a of
           VRecord r \<Rightarrow> List.filter (\<lambda>(f, _). f \<notin> {''type'', ''status'', ''accepted'', ''attempt'', ''selected''}) r
         | _ \<Rightarrow> []))"

definition acceptance_attribute :: "attempt_acceptance \<Rightarrow> string \<Rightarrow> nu_value res" where
  "acceptance_attribute a attr = record_attribute (acceptance_materialize a) attr ''attempt_acceptance''"

section \<open>Scopes\<close>

record attempt_child =
  ch_attempt :: string
  ch_joined :: bool
  ch_resolved :: bool

record attempt_scope =
  sc_id :: nat
  sc_exit_policy :: string
  sc_join_timeout_ms :: nat
  sc_children :: "attempt_child list"
  sc_closed :: bool

definition new_scope :: "nat \<Rightarrow> string \<Rightarrow> nat \<Rightarrow> attempt_scope" where
  "new_scope i policy timeout = \<lparr> sc_id = i, sc_exit_policy = policy, sc_join_timeout_ms = timeout,
     sc_children = [], sc_closed = False \<rparr>"

definition scope_register :: "string \<Rightarrow> attempt_scope \<Rightarrow> attempt_scope res" where
  "scope_register attempt s =
     (if sc_closed s
      then Inl (stone_error ''attempt scope'' ''attempt scope #{} is already closed'' [MInt (int (sc_id s))])
      else if \<exists>child\<in>set (sc_children s). ch_attempt child = attempt then Inr s
      else Inr (s\<lparr> sc_children := sc_children s
        @ [\<lparr> ch_attempt = attempt, ch_joined = False, ch_resolved = False \<rparr>] \<rparr>))"

primrec update_child :: "string \<Rightarrow> (attempt_child \<Rightarrow> attempt_child) \<Rightarrow> attempt_child list \<Rightarrow> attempt_child list" where
  "update_child attempt f [] = []"
| "update_child attempt f (c # cs) = (if ch_attempt c = attempt then f c # cs else c # update_child attempt f cs)"

definition mark_joined :: "string \<Rightarrow> attempt_scope \<Rightarrow> attempt_scope" where
  "mark_joined attempt s = s\<lparr> sc_children := update_child attempt (\<lambda>c. c\<lparr> ch_joined := True \<rparr>) (sc_children s) \<rparr>"

definition mark_resolved :: "string \<Rightarrow> attempt_scope \<Rightarrow> attempt_scope" where
  "mark_resolved attempt s = s\<lparr> sc_children := update_child attempt (\<lambda>c. c\<lparr> ch_resolved := True \<rparr>) (sc_children s) \<rparr>"

definition owns_joined :: "string \<Rightarrow> attempt_scope \<Rightarrow> bool" where
  "owns_joined attempt s \<longleftrightarrow>
     (\<exists>child\<in>set (sc_children s). ch_attempt child = attempt \<and> ch_joined child \<and> \<not> ch_resolved child)"

definition scope_attribute :: "attempt_scope \<Rightarrow> string \<Rightarrow> nu_value res" where
  "scope_attribute s attr =
     (if attr = ''id'' then Inr (u64_value (sc_id s))
      else if attr = ''exit_policy'' then Inr (VString (sc_exit_policy s))
      else if attr = ''join_timeout_ms'' then Inr (u64_value (sc_join_timeout_ms s))
      else if attr = ''closed'' then Inr (VBool (sc_closed s))
      else if attr = ''children'' then Inr (string_list (List.map ch_attempt (sc_children s)))
      else Inl (stone_error ''attribute'' ''attempt_scope has no attribute `{}`'' [MStr attr]))"

end
