(* ===== verification/Attempt_Best.thy ===== *)
theory Attempt_Best
  imports Attempt_Values
begin

text \<open>The selector of the best candidate (\<open>stone_attempt_best.rs\<close>) and the retained failures and
  semantic frontiers (\<open>stone_attempt_value.rs\<close>). A selector or a failure refers to the scope that owns its
  attempts by the index of that scope.\<close>

section \<open>Selectors\<close>

datatype best_objective = Maximize | Minimize

definition parse_objective :: "string \<Rightarrow> best_objective res" where
  "parse_objective s = (if s = ''max'' then Inr Maximize else if s = ''min'' then Inr Minimize
     else Inl (stone_error ''attempt_best'' ''objective must be either \"max\" or \"min\"'' []))"

definition objective_text :: "best_objective \<Rightarrow> string" where
  "objective_text ob = (case ob of Maximize \<Rightarrow> ''max'' | Minimize \<Rightarrow> ''min'')"

definition prefers :: "best_objective \<Rightarrow> f64 \<Rightarrow> f64 \<Rightarrow> bool" where
  "prefers ob candidate current = (case ob of
     Maximize \<Rightarrow> f64_lt current candidate | Minimize \<Rightarrow> f64_lt candidate current)"

record best_candidate =
  bc_outcome :: attempt_outcome
  bc_score :: f64
  bc_summary :: string
  bc_evidence :: "string list"
  bc_artifacts :: "string list"

abbreviation bc_attempt :: "best_candidate \<Rightarrow> string" where
  "bc_attempt c \<equiv> ao_attempt (bc_outcome c)"

datatype best_lifecycle = BestOpen | BestAccepted | BestDiscarded

definition lifecycle_text :: "best_lifecycle \<Rightarrow> string" where
  "lifecycle_text l = (case l of BestOpen \<Rightarrow> ''open'' | BestAccepted \<Rightarrow> ''accepted'' | BestDiscarded \<Rightarrow> ''discarded'')"

record attempt_best =
  bs_selection_id :: nat
  bs_scope :: nat
  bs_objective :: best_objective
  bs_considered :: nat
  bs_replacements :: nat
  bs_lifecycle :: best_lifecycle
  bs_current :: "best_candidate option"
  bs_final_attempt :: "string option"
  bs_final_score :: "f64 option"

datatype best_plan = Retain | Replace best_candidate | Reject best_candidate

definition new_best :: "nat \<Rightarrow> nat \<Rightarrow> best_objective \<Rightarrow> attempt_best" where
  "new_best i scope ob = \<lparr> bs_selection_id = i, bs_scope = scope, bs_objective = ob, bs_considered = 0,
     bs_replacements = 0, bs_lifecycle = BestOpen, bs_current = None, bs_final_attempt = None, bs_final_score = None \<rparr>"

definition already_closed :: "string \<Rightarrow> attempt_best \<Rightarrow> shell_error" where
  "already_closed context b = stone_error context ''attempt_best #{} is already {}''
     [MInt (int (bs_selection_id b)), MStr (lifecycle_text (bs_lifecycle b))]"

definition best_plan_for :: "f64 \<Rightarrow> attempt_best \<Rightarrow> best_plan res" where
  "best_plan_for score b =
     (if bs_lifecycle b \<noteq> BestOpen then Inl (already_closed ''attempt_best_consider'' b)
      else case bs_current b of
        None \<Rightarrow> Inr Retain
      | Some current \<Rightarrow> Inr (if prefers (bs_objective b) score (bc_score current) then Replace current else Reject current))"

definition retain_candidate :: "best_candidate \<Rightarrow> bool \<Rightarrow> attempt_best \<Rightarrow> attempt_best res" where
  "retain_candidate c replaced b =
     (if bs_lifecycle b \<noteq> BestOpen
      then Inl (stone_error ''attempt_best_consider'' ''cannot retain a candidate after selection has closed'' [])
      else Inr (b\<lparr> bs_considered := saturating_succ (bs_considered b),
        bs_replacements := (if replaced then saturating_succ (bs_replacements b) else bs_replacements b),
        bs_current := Some c \<rparr>))"

definition record_rejected :: "attempt_best \<Rightarrow> attempt_best res" where
  "record_rejected b =
     (if bs_lifecycle b \<noteq> BestOpen
      then Inl (stone_error ''attempt_best_consider'' ''cannot reject a candidate after selection has closed'' [])
      else Inr (b\<lparr> bs_considered := saturating_succ (bs_considered b) \<rparr>))"

definition current_candidate :: "string \<Rightarrow> attempt_best \<Rightarrow> best_candidate res" where
  "current_candidate context b =
     (if bs_lifecycle b \<noteq> BestOpen then Inl (already_closed context b)
      else ok_or (stone_error context ''attempt_best #{} has no retained candidate'' [MInt (int (bs_selection_id b))])
             (bs_current b))"

definition mark_accepted :: "best_candidate \<Rightarrow> attempt_best \<Rightarrow> attempt_best res" where
  "mark_accepted c b =
     (if bs_lifecycle b \<noteq> BestOpen then Inl (already_closed ''attempt_best_accept'' b)
      else Inr (b\<lparr> bs_final_attempt := Some (bc_attempt c), bs_final_score := Some (bc_score c),
        bs_current := None, bs_lifecycle := BestAccepted \<rparr>))"

definition mark_discarded :: "best_candidate option \<Rightarrow> attempt_best \<Rightarrow> attempt_best res" where
  "mark_discarded c b = (case bs_lifecycle b of
     BestAccepted \<Rightarrow> Inl (stone_error ''attempt_best_discard'' ''cannot discard an already accepted selection'' [])
   | BestDiscarded \<Rightarrow> Inr b
   | BestOpen \<Rightarrow> Inr (b\<lparr>
       bs_final_attempt := (case c of None \<Rightarrow> bs_final_attempt b | Some d \<Rightarrow> Some (bc_attempt d)),
       bs_final_score := (case c of None \<Rightarrow> bs_final_score b | Some d \<Rightarrow> Some (bc_score d)),
       bs_current := None, bs_lifecycle := BestDiscarded \<rparr>))"

definition best_outcome :: "attempt_best \<Rightarrow> attempt_outcome res" where
  "best_outcome b = and_then (current_candidate ''attempt_best outcome'' b) (\<lambda>c. Inr (bc_outcome c))"

definition best_status :: "bool \<Rightarrow> attempt_best \<Rightarrow> string" where
  "best_status scope_closed b =
     (if scope_closed \<and> bs_lifecycle b = BestOpen then ''scope_closed''
      else if bs_lifecycle b = BestOpen \<and> bs_current b \<noteq> None then ''retaining''
      else lifecycle_text (bs_lifecycle b))"

definition best_attribute :: "attempt_scope \<Rightarrow> attempt_best \<Rightarrow> string \<Rightarrow> nu_value res" where
  "best_attribute scope b attr = (let current = bs_current b in
     if attr = ''type'' then Inr (VString ''attempt_best'')
     else if attr = ''id'' then Inr (u64_value (bs_selection_id b))
     else if attr = ''scope_id'' then Inr (u64_value (sc_id scope))
     else if attr = ''objective'' then Inr (VString (objective_text (bs_objective b)))
     else if attr = ''status'' then Inr (VString (best_status (sc_closed scope) b))
     else if attr = ''empty'' then Inr (VBool (current = None))
     else if attr = ''considered'' then Inr (u64_value (bs_considered b))
     else if attr = ''replacements'' then Inr (u64_value (bs_replacements b))
     else if attr = ''attempt'' then Inr (optional_value VString (or_else (map_option (\<lambda>c. bc_attempt c) current) (bs_final_attempt b)))
     else if attr = ''score'' then Inr (optional_value VFloat (or_else (map_option bc_score current) (bs_final_score b)))
     else if attr = ''summary'' then Inr (optional_value (\<lambda>c. VString (bc_summary c)) current)
     else if attr = ''evidence'' then Inr (string_list (unwrap_or [] (map_option bc_evidence current)))
     else if attr = ''artifacts'' then Inr (string_list (unwrap_or [] (map_option bc_artifacts current)))
     else if attr = ''outcome'' then Inl (stone_error ''attribute''
       ''attempt_best.outcome is a typed value and must be read through the evaluator'' [])
     else Inl (stone_error ''attribute'' ''attempt_best has no attribute `{}`'' [MStr attr]))"

definition decision_record :: "best_candidate \<Rightarrow> bool \<Rightarrow> string option \<Rightarrow> string option \<Rightarrow> attempt_best \<Rightarrow> nu_value" where
  "decision_record c selected replaced_attempt discarded_attempt b = VRecord
     ([(''type'', VString ''attempt_best_decision''), (''selected'', VBool selected),
       (''attempt'', VString (bc_attempt c)), (''score'', VFloat (bc_score c)),
       (''replaced_attempt'', optional_value VString replaced_attempt),
       (''discarded_attempt'', optional_value VString discarded_attempt),
       (''considered'', u64_value (bs_considered b)), (''replacements'', u64_value (bs_replacements b))]
      @ (case bs_current b of None \<Rightarrow> []
         | Some best \<Rightarrow> [(''best_attempt'', VString (bc_attempt best)), (''best_score'', VFloat (bc_score best))]))"

section \<open>Retained failures\<close>

record attempt_failure =
  fl_id :: nat
  fl_attempt :: string
  fl_scope :: nat
  fl_outcome :: "attempt_outcome option"
  fl_resolution :: "string option"

definition new_failure :: "nat \<Rightarrow> nat \<Rightarrow> attempt_outcome \<Rightarrow> attempt_failure" where
  "new_failure i scope out = \<lparr> fl_id = i, fl_attempt = ao_attempt out, fl_scope = scope,
     fl_outcome = Some out, fl_resolution = None \<rparr>"

definition is_retained :: "attempt_failure \<Rightarrow> bool" where
  "is_retained f \<longleftrightarrow> fl_outcome f \<noteq> None"

definition failure_outcome :: "attempt_failure \<Rightarrow> attempt_outcome res" where
  "failure_outcome f = ok_or (stone_error ''attempt_failure outcome''
     ''the full failed outcome was released after lifecycle resolution; use inspect() for the archived trace'' [])
     (fl_outcome f)"

definition resolve_failure :: "string \<Rightarrow> attempt_failure \<Rightarrow> attempt_failure" where
  "resolve_failure resolution f = f\<lparr> fl_outcome := None, fl_resolution := Some resolution \<rparr>"

definition failure_status :: "bool \<Rightarrow> attempt_failure \<Rightarrow> string" where
  "failure_status scope_closed f =
     (if fl_outcome f \<noteq> None then if scope_closed then ''scope_closed'' else ''retained'' else ''resolved'')"

definition failure_materialize :: "attempt_scope \<Rightarrow> attempt_failure \<Rightarrow> nu_value" where
  "failure_materialize scope f = VRecord
     [(''type'', VString ''attempt_failure''), (''id'', u64_value (fl_id f)), (''attempt'', VString (fl_attempt f)),
      (''scope_id'', u64_value (sc_id scope)), (''status'', VString (failure_status (sc_closed scope) f)),
      (''resolution'', optional_value VString (fl_resolution f)),
      (''outcome'', optional_value outcome_materialize (fl_outcome f))]"

definition failure_attribute :: "attempt_scope \<Rightarrow> attempt_failure \<Rightarrow> string \<Rightarrow> nu_value res" where
  "failure_attribute scope f attr = (if attr = ''outcome'' then Inl (stone_error ''attribute''
       ''attempt_failure.outcome is a typed value and must be read through the evaluator'' [])
     else record_attribute (failure_materialize scope f) attr ''attempt_failure'')"

section \<open>Semantic frontiers\<close>

datatype frontier_mode = FrontierParent | FrontierRetained

definition frontier_mode_text :: "frontier_mode \<Rightarrow> string" where
  "frontier_mode_text m = (case m of FrontierParent \<Rightarrow> ''parent'' | FrontierRetained \<Rightarrow> ''retained'')"

record semantic_frontier =
  sf_frontier_id :: nat
  sf_checkpoint :: string
  sf_mode :: frontier_mode
  sf_seal_duration_ms :: nat
  sf_storage_bytes :: nat
  sf_guidance_level :: string
  sf_record :: nu_value
  sf_branch_count :: nat
  sf_released :: bool
  sf_released_by_cleanup :: bool
  sf_released_by_scope :: bool

definition mark_branched :: "semantic_frontier \<Rightarrow> semantic_frontier" where
  "mark_branched f = f\<lparr> sf_branch_count := (sf_branch_count f + 1) mod 2 ^ 64 \<rparr>"

definition mark_released :: "semantic_frontier \<Rightarrow> semantic_frontier" where
  "mark_released f = f\<lparr> sf_released := True \<rparr>"

definition mark_released_by_cleanup :: "semantic_frontier \<Rightarrow> semantic_frontier" where
  "mark_released_by_cleanup f = f\<lparr> sf_released_by_cleanup := True, sf_released := True \<rparr>"

definition mark_released_by_scope :: "semantic_frontier \<Rightarrow> semantic_frontier" where
  "mark_released_by_scope f = f\<lparr> sf_released_by_scope := True, sf_released := True \<rparr>"

definition release_origin :: "semantic_frontier \<Rightarrow> string option" where
  "release_origin f = (if \<not> sf_released f then None
     else if sf_released_by_scope f then Some ''scope_exit''
     else if sf_released_by_cleanup f then Some ''evaluation_cleanup'' else Some ''explicit'')"

definition frontier_attribute :: "semantic_frontier \<Rightarrow> string \<Rightarrow> nu_value res" where
  "frontier_attribute f attr = (if attr = ''type'' then Inr (VString ''semantic_frontier'')
     else if attr = ''status'' then Inr (VString (if sf_released f then ''released'' else ''ready''))
     else record_attribute (sf_record f) attr ''semantic_frontier'')"

definition json_option :: "('a \<Rightarrow> json) \<Rightarrow> 'a option \<Rightarrow> json" where
  "json_option f x = (case x of None \<Rightarrow> JNull | Some y \<Rightarrow> f y)"

definition frontier_diagnostic :: "semantic_frontier \<Rightarrow> json" where
  "frontier_diagnostic f = json_record
     [(''frontier_id'', JInt (int (sf_frontier_id f))), (''availability'', JString (frontier_mode_text (sf_mode f))),
      (''branch_count'', JInt (int (sf_branch_count f))), (''unused'', JBool (sf_branch_count f = 0)),
      (''released'', JBool (sf_released f)), (''release_origin'', json_option JString (release_origin f)),
      (''seal_duration_ms'', JInt (int (sf_seal_duration_ms f))), (''storage_bytes'', JInt (int (sf_storage_bytes f))),
      (''guidance_level'', JString (sf_guidance_level f))]"

end
