(* ===== verification/Attempts.thy ===== *)
theory Attempts
  imports Attempt_Best State
begin

text \<open>The life of attempts inside one evaluation (\<open>stone_eval.rs\<close>): what a call does once its arguments
  are evaluated. The world holds the scopes, selectors, retained failures and frontiers the evaluation has
  created, and the state of the gateway, the service that runs the attempts. The gateway is a
  parameter: each call of \<open>gateway_env\<close> is a function on its state. Times are left out.\<close>

record wait_set =
  ws_ready :: "nu_value list"
  ws_completed :: bool
  ws_timed_out :: bool

record 'g gateway =
  gw_state :: "string \<Rightarrow> nat \<Rightarrow> 'g \<Rightarrow> nu_value res \<times> 'g"
  gw_wait :: "string \<Rightarrow> nat option \<Rightarrow> 'g \<Rightarrow> nu_value res \<times> 'g"
  gw_wait_set :: "string list \<Rightarrow> bool \<Rightarrow> nat option \<Rightarrow> 'g \<Rightarrow> wait_set res \<times> 'g"
  gw_terminate :: "string \<Rightarrow> 'g \<Rightarrow> nu_value res \<times> 'g"
  gw_discard :: "string \<Rightarrow> string \<Rightarrow> 'g \<Rightarrow> nu_value res \<times> 'g"
  gw_accept :: "string \<Rightarrow> string \<Rightarrow> 'g \<Rightarrow> nu_value res \<times> 'g"
  gw_release :: "string \<Rightarrow> 'g \<Rightarrow> unit res \<times> 'g"
  gw_error_text :: "shell_error \<Rightarrow> string"
  gw_json_text :: "json \<Rightarrow> string"

record 'g attempt_world =
  aw_scopes :: "attempt_scope list"
  aw_bests :: "attempt_best list"
  aw_failures :: "attempt_failure list"
  aw_frontiers :: "semantic_frontier list"
  aw_tracked :: "nat list"
  aw_dropped :: nat
  aw_next_callable :: nat
  aw_gateway :: 'g

text \<open>The vectors \<open>attempt_scopes\<close> and \<open>retained_failures\<close> of the code only grow, so they are the stores of
  scopes and failures. The vector \<open>semantic_frontiers\<close> forgets its oldest frontier when it is full, so it is
  a list of indices into the store of frontiers.\<close>

definition empty_world :: "'g \<Rightarrow> 'g attempt_world" where
  "empty_world g = \<lparr> aw_scopes = [], aw_bests = [], aw_failures = [], aw_frontiers = [], aw_tracked = [],
     aw_dropped = 0, aw_next_callable = 0, aw_gateway = g \<rparr>"

datatype attempt_value =
    ARuntime rvalue
  | AScope nat
  | ABest nat
  | AFailure nat
  | AHandle attempt_handle
  | AOutcome attempt_outcome
  | AAcceptance attempt_acceptance
  | AFrontier nat

section \<open>Steps on the world\<close>

type_synonym ('g, 'a) act = "'g attempt_world \<Rightarrow> 'a res \<times> 'g attempt_world"

definition act_lift :: "'a res \<Rightarrow> ('g, 'a) act" where
  "act_lift r = (\<lambda>w. (r, w))"

definition act_ret :: "'a \<Rightarrow> ('g, 'a) act" where
  "act_ret x = (\<lambda>w. (Inr x, w))"

definition act_fail :: "string \<Rightarrow> string \<Rightarrow> msg_arg list \<Rightarrow> ('g, 'a) act" where
  "act_fail kind msg args = (\<lambda>w. (Inl (stone_error kind msg args), w))"

definition act_then :: "('g, 'a) act \<Rightarrow> ('a \<Rightarrow> ('g, 'b) act) \<Rightarrow> ('g, 'b) act" where
  "act_then m f = (\<lambda>w. case m w of (Inl e, w') \<Rightarrow> (Inl e, w') | (Inr x, w') \<Rightarrow> f x w')"

definition act_read :: "('g attempt_world \<Rightarrow> 'a) \<Rightarrow> ('g, 'a) act" where
  "act_read f = (\<lambda>w. (Inr (f w), w))"

definition act_update :: "('g attempt_world \<Rightarrow> 'g attempt_world) \<Rightarrow> ('g, unit) act" where
  "act_update f = (\<lambda>w. (Inr (), f w))"

definition act_require :: "bool \<Rightarrow> string \<Rightarrow> string \<Rightarrow> msg_arg list \<Rightarrow> ('g, unit) act" where
  "act_require b kind msg args = (if b then act_ret () else act_fail kind msg args)"

definition act_gateway :: "('g \<Rightarrow> 'a res \<times> 'g) \<Rightarrow> ('g, 'a) act" where
  "act_gateway call = (\<lambda>w. case call (aw_gateway w) of (r, g) \<Rightarrow> (r, w\<lparr> aw_gateway := g \<rparr>))"

lemma act_simps [simp]:
  "act_lift r w = (r, w)"
  "act_ret x w = (Inr x, w)"
  "act_fail k m a w = (Inl (stone_error k m a), w)"
  "act_read f w = (Inr (f w), w)"
  "act_update h w = (Inr (), h w)"
  "act_require b k m a w = (if b then (Inr (), w) else (Inl (stone_error k m a), w))"
  by (simp_all add: act_lift_def act_ret_def act_fail_def act_read_def act_update_def act_require_def)

lemma act_then_apply:
  "act_then m f w = (case m w of (Inl e, w') \<Rightarrow> (Inl e, w') | (Inr x, w') \<Rightarrow> f x w')"
  by (simp add: act_then_def)

section \<open>Shared states\<close>

definition scope_at :: "nat \<Rightarrow> 'g attempt_world \<Rightarrow> attempt_scope" where
  "scope_at i w = aw_scopes w ! i"

definition best_at :: "nat \<Rightarrow> 'g attempt_world \<Rightarrow> attempt_best" where
  "best_at i w = aw_bests w ! i"

definition failure_at :: "nat \<Rightarrow> 'g attempt_world \<Rightarrow> attempt_failure" where
  "failure_at i w = aw_failures w ! i"

definition frontier_at :: "nat \<Rightarrow> 'g attempt_world \<Rightarrow> semantic_frontier" where
  "frontier_at i w = aw_frontiers w ! i"

definition put_scope :: "nat \<Rightarrow> attempt_scope \<Rightarrow> 'g attempt_world \<Rightarrow> 'g attempt_world" where
  "put_scope i s w = w\<lparr> aw_scopes := (aw_scopes w)[i := s] \<rparr>"

definition put_best :: "nat \<Rightarrow> attempt_best \<Rightarrow> 'g attempt_world \<Rightarrow> 'g attempt_world" where
  "put_best i b w = w\<lparr> aw_bests := (aw_bests w)[i := b] \<rparr>"

definition put_frontier :: "nat \<Rightarrow> semantic_frontier \<Rightarrow> 'g attempt_world \<Rightarrow> 'g attempt_world" where
  "put_frontier i f w = w\<lparr> aw_frontiers := (aw_frontiers w)[i := f] \<rparr>"

text \<open>The identifier of a new shared value; the counter wraps around.\<close>

definition fresh_id :: "('g, nat) act" where
  "fresh_id w = (Inr (aw_next_callable w), w\<lparr> aw_next_callable :=
     if aw_next_callable w = 18446744073709551615 then 0 else aw_next_callable w + 1 \<rparr>)"

definition update_best :: "nat \<Rightarrow> (attempt_best \<Rightarrow> attempt_best res) \<Rightarrow> ('g, unit) act" where
  "update_best i f = act_then (act_read (best_at i)) (\<lambda>b.
     act_then (act_lift (f b)) (\<lambda>b'. act_update (put_best i b')))"

definition mark_all_joined :: "string \<Rightarrow> 'g attempt_world \<Rightarrow> 'g attempt_world" where
  "mark_all_joined attempt w = w\<lparr> aw_scopes := List.map (mark_joined attempt) (aw_scopes w) \<rparr>"

definition mark_all_resolved :: "string \<Rightarrow> 'g attempt_world \<Rightarrow> 'g attempt_world" where
  "mark_all_resolved attempt w = w\<lparr> aw_scopes := List.map (mark_resolved attempt) (aw_scopes w) \<rparr>"

definition resolve_retained_failures :: "string \<Rightarrow> string \<Rightarrow> 'g attempt_world \<Rightarrow> 'g attempt_world" where
  "resolve_retained_failures attempt resolution w = w\<lparr> aw_failures :=
     List.map (\<lambda>f. if fl_attempt f = attempt then resolve_failure resolution f else f) (aw_failures w) \<rparr>"

section \<open>Attempt records of the gateway\<close>

definition attempt_fields :: "nu_value \<Rightarrow> (string \<times> nu_value) list option" where
  "attempt_fields v = (case v of
     VRecord r \<Rightarrow> Some (case record_get r ''attempt'' of Some (VRecord a) \<Rightarrow> a | _ \<Rightarrow> r)
   | _ \<Rightarrow> None)"

definition attempt_record_state :: "nu_value \<Rightarrow> string option" where
  "attempt_record_state v = do {
     a \<leftarrow> attempt_fields v;
     state \<leftarrow> record_get a ''state'';
     nu_str state }"

definition attempt_controller_state :: "nu_value \<Rightarrow> string option" where
  "attempt_controller_state v = do {
     a \<leftarrow> attempt_fields v;
     metadata \<leftarrow> record_get a ''metadata'';
     fields \<leftarrow> nu_record metadata;
     state \<leftarrow> record_get fields ''controller_state'';
     nu_str state }"

definition controller_finished :: "string \<Rightarrow> bool" where
  "controller_finished s \<longleftrightarrow> s \<in> {''exited'', ''failed'', ''terminated''}"

definition attempt_outcome_value :: "string \<Rightarrow> nu_value \<Rightarrow> attempt_outcome" where
  "attempt_outcome_value attempt r = (let controller = unwrap_or ''unknown'' (attempt_controller_state r);
       joined = controller_finished controller
     in \<lparr> ao_attempt = attempt, ao_joined = joined, ao_timed_out = \<not> joined,
          ao_state = unwrap_or ''unknown'' (attempt_record_state r), ao_controller_state = controller, ao_record = r \<rparr>)"

definition attempt_id_from_value :: "nu_value \<Rightarrow> string \<Rightarrow> string res" where
  "attempt_id_from_value v context = (case v of
     VString s \<Rightarrow> Inr s
   | VRecord r \<Rightarrow> and_then (ok_or (stone_error context ''attempt record has no `attempt` field'' [])
                     (record_get r ''attempt'')) (\<lambda>a. value_to_string a context)
   | _ \<Rightarrow> Inl (stone_error context ''expected attempt id or record, got {}'' [MType v]))"

section \<open>Waiting\<close>

definition join_attempt :: "'g gateway \<Rightarrow> string \<Rightarrow> nat option \<Rightarrow> ('g, attempt_value) act" where
  "join_attempt gw attempt timeout = act_then (act_gateway (gw_wait gw attempt timeout)) (\<lambda>waited.
     let out = attempt_outcome_value attempt waited
     in act_then (act_update (if ao_joined out then mark_all_joined attempt else (\<lambda>w. w))) (\<lambda>_. act_ret (AOutcome out)))"

primrec collect_ready :: "nu_value list \<Rightarrow> ('g, attempt_outcome list) act" where
  "collect_ready [] = act_ret []"
| "collect_ready (r # rs) =
     act_then (act_lift (attempt_id_from_value r ''attempt wait set result'')) (\<lambda>attempt.
     act_then (act_update (mark_all_joined attempt)) (\<lambda>_.
     act_then (collect_ready rs) (\<lambda>outs. act_ret (attempt_outcome_value attempt r # outs))))"

definition waiting_outcome :: "bool \<Rightarrow> attempt_outcome" where
  "waiting_outcome timed_out = \<lparr> ao_attempt = [], ao_joined = False, ao_timed_out = timed_out,
     ao_state = ''waiting'', ao_controller_state = ''running'', ao_record = VNothing \<rparr>"

definition waited_record :: "string list \<Rightarrow> wait_set \<Rightarrow> attempt_outcome list \<Rightarrow> nu_value" where
  "waited_record children waited outs = VRecord
     [(''completed'', VBool (ws_completed waited)), (''timed_out'', VBool (ws_timed_out waited)),
      (''outcomes'', VList (List.map outcome_materialize outs)),
      (''pending'', string_list (List.filter (\<lambda>a. a \<notin> ao_attempt ` set outs) children))]"

definition wait_for_attempts :: "'g gateway \<Rightarrow> string \<Rightarrow> string list \<Rightarrow> bool \<Rightarrow> nat option \<Rightarrow> ('g, attempt_value) act" where
  "wait_for_attempts gw name children wait_all timeout =
     act_then (act_require (children \<noteq> []) name ''attempt wait set requires at least one child'' []) (\<lambda>_.
     act_then (act_gateway (gw_wait_set gw children wait_all timeout)) (\<lambda>waited.
     act_then (collect_ready (ws_ready waited)) (\<lambda>outs. act_ret
       (if wait_all then ARuntime (RNu (waited_record children waited outs))
        else AOutcome (case outs of [] \<Rightarrow> waiting_outcome (ws_timed_out waited) | out # _ \<Rightarrow> out)))))"

section \<open>Failures and selectors\<close>

definition scope_open :: "nat \<Rightarrow> string \<Rightarrow> string \<Rightarrow> ('g, unit) act" where
  "scope_open i kind msg = act_then (act_read (scope_at i)) (\<lambda>s. act_require (\<not> sc_closed s) kind msg [])"

definition not_owned :: "string \<Rightarrow> attempt_scope \<Rightarrow> string \<Rightarrow> shell_error" where
  "not_owned kind s attempt = stone_error kind ''attempt {} is not an unresolved joined child owned by scope #{}''
     [MStr attempt, MInt (int (sc_id s))]"

definition retain_failure :: "nat \<Rightarrow> attempt_outcome \<Rightarrow> ('g, attempt_value) act" where
  "retain_failure i out = (let kind = ''attempt_retain_failure'' in
     act_then (act_require (failed out) kind
       ''only a joined child with a failed attempt state or non-succeeded report can be retained as an attempt_failure'' []) (\<lambda>_.
     act_then (act_read (scope_at i)) (\<lambda>s.
     act_then (act_lift (if owns_joined (ao_attempt out) s then Inr () else Inl (not_owned kind s (ao_attempt out)))) (\<lambda>_.
     act_then (act_read aw_failures) (\<lambda>failures.
     act_then (act_require (\<not> (\<exists>f\<in>set failures. fl_attempt f = ao_attempt out \<and> is_retained f)) kind
       ''the same failed child is already retained'' []) (\<lambda>_.
     act_then fresh_id (\<lambda>n.
     act_then (act_update (\<lambda>w. w\<lparr> aw_failures := aw_failures w @ [new_failure n i out] \<rparr>)) (\<lambda>_.
     act_ret (AFailure (length failures))))))))))"

definition open_selector :: "nat \<Rightarrow> string \<Rightarrow> ('g, attempt_value) act" where
  "open_selector i objective =
     act_then (scope_open i ''attempt_best'' ''cannot bind a best-candidate selector to a closed attempt_scope'') (\<lambda>_.
     act_then (act_lift (parse_objective objective)) (\<lambda>ob.
     act_then fresh_id (\<lambda>n.
     act_then (act_read (\<lambda>w. length (aw_bests w))) (\<lambda>k.
     act_then (act_update (\<lambda>w. w\<lparr> aw_bests := aw_bests w @ [new_best n i ob] \<rparr>)) (\<lambda>_. act_ret (ABest k))))))"

definition decide :: "nat \<Rightarrow> best_candidate \<Rightarrow> bool \<Rightarrow> string option \<Rightarrow> string option \<Rightarrow> ('g, attempt_value) act" where
  "decide k c selected replaced discarded = act_then (act_read (best_at k)) (\<lambda>b.
     act_ret (ARuntime (RNu (decision_record c selected replaced discarded b))))"

definition discard_loser :: "'g gateway \<Rightarrow> string \<Rightarrow> string \<Rightarrow> ('g, unit) act" where
  "discard_loser gw attempt reason = act_then (act_gateway (gw_discard gw attempt reason)) (\<lambda>_.
     act_update (mark_all_resolved attempt))"

definition considered_twice :: "best_candidate \<Rightarrow> best_candidate \<Rightarrow> ('g, unit) act" where
  "considered_twice current c = act_require (bc_attempt current \<noteq> bc_attempt c) ''attempt_best_consider''
     ''the retained candidate cannot be considered twice'' []"

definition follow_plan :: "'g gateway \<Rightarrow> nat \<Rightarrow> best_candidate \<Rightarrow> best_plan \<Rightarrow> ('g, attempt_value) act" where
  "follow_plan gw k c plan = (case plan of
     Retain \<Rightarrow>
       act_then (update_best k (retain_candidate c False)) (\<lambda>_. decide k c True None None)
   | Replace current \<Rightarrow>
       act_then (considered_twice current c) (\<lambda>_.
       act_then (discard_loser gw (bc_attempt current) ''replaced by a better scored candidate'') (\<lambda>_.
       act_then (update_best k (retain_candidate c True)) (\<lambda>_.
       decide k c True (Some (bc_attempt current)) (Some (bc_attempt current)))))
   | Reject current \<Rightarrow>
       act_then (considered_twice current c) (\<lambda>_.
       act_then (discard_loser gw (bc_attempt c) ''not better than the retained scored candidate'') (\<lambda>_.
       act_then (update_best k record_rejected) (\<lambda>_.
       decide k c False None (Some (bc_attempt c))))))"

definition consider_candidate :: "'g gateway \<Rightarrow> nat \<Rightarrow> best_candidate \<Rightarrow> ('g, attempt_value) act" where
  "consider_candidate gw k c = (let kind = ''attempt_best_consider'' in
     act_then (act_require (f64_finite (bc_score c)) kind ''score must be a finite number'' []) (\<lambda>_.
     act_then (act_require (bc_summary c \<noteq> [] \<and> length (bc_summary c) \<le> 1024) kind
       ''summary must contain 1..1024 bytes'' []) (\<lambda>_.
     act_then (act_require (bc_evidence c \<noteq> []) kind ''evidence must contain at least one bounded reference'' []) (\<lambda>_.
     act_then (act_read (best_at k)) (\<lambda>b.
     act_then (scope_open (bs_scope b) kind ''cannot consider a candidate after its attempt_scope has closed'') (\<lambda>_.
     act_then (act_require (succeeded (bc_outcome c)) kind
       ''only a joined child that reported succeeded can be considered'' []) (\<lambda>_.
     act_then (act_read (scope_at (bs_scope b))) (\<lambda>s.
     act_then (act_lift (if owns_joined (bc_attempt c) s then Inr () else Inl (not_owned kind s (bc_attempt c)))) (\<lambda>_.
     act_then (act_lift (best_plan_for (bc_score c) b)) (follow_plan gw k c))))))))))"

definition accept_best :: "'g gateway \<Rightarrow> nat \<Rightarrow> string \<Rightarrow> ('g, attempt_value) act" where
  "accept_best gw k parent = (let kind = ''attempt_best_accept'' in
     act_then (act_read (best_at k)) (\<lambda>b.
     act_then (scope_open (bs_scope b) kind ''accept the retained candidate before closing its attempt_scope'') (\<lambda>_.
     act_then (act_lift (current_candidate kind b)) (\<lambda>c.
     act_then (act_read (scope_at (bs_scope b))) (\<lambda>s.
     act_then (act_require (owns_joined (bc_attempt c) s) kind
       ''the retained child was resolved outside its selector and can no longer be accepted'' []) (\<lambda>_.
     act_then (act_gateway (gw_accept gw parent (bc_attempt c))) (\<lambda>accepted.
     act_then (act_update (mark_all_resolved (bc_attempt c))) (\<lambda>_.
     act_then (update_best k (mark_accepted c)) (\<lambda>_.
     act_then (act_lift (new_acceptance (bc_attempt c) accepted)) (\<lambda>a. act_ret (AAcceptance a)))))))))))"

definition discard_held :: "'g gateway \<Rightarrow> string \<Rightarrow> best_candidate option \<Rightarrow> ('g, nu_value) act" where
  "discard_held gw reason held = (case held of
     Some c \<Rightarrow> act_then (act_gateway (gw_discard gw (bc_attempt c) reason)) (\<lambda>discarded.
       act_then (act_update (mark_all_resolved (bc_attempt c))) (\<lambda>_. act_ret discarded))
   | None \<Rightarrow> act_ret (json_to_nu_value (json_record [(''attempt'', JNull), (''already_empty'', JBool True)])))"

definition discard_best :: "'g gateway \<Rightarrow> nat \<Rightarrow> string \<Rightarrow> ('g, attempt_value) act" where
  "discard_best gw k reason =
     act_then (act_read (best_at k)) (\<lambda>b.
     act_then (discard_held gw reason (bs_current b)) (\<lambda>result.
     act_then (update_best k (mark_discarded (bs_current b))) (\<lambda>_. act_ret (ARuntime (RNu result)))))"

definition accept_attempt :: "'g gateway \<Rightarrow> string \<Rightarrow> string \<Rightarrow> ('g, attempt_value) act" where
  "accept_attempt gw parent child =
     act_then (act_gateway (gw_accept gw parent child)) (\<lambda>accepted.
     act_then (act_update (\<lambda>w. resolve_retained_failures child ''accepted'' (mark_all_resolved child w))) (\<lambda>_.
     act_then (act_lift (new_acceptance child accepted)) (\<lambda>a. act_ret (AAcceptance a))))"

definition discard_attempt :: "'g gateway \<Rightarrow> string \<Rightarrow> string \<Rightarrow> ('g, attempt_value) act" where
  "discard_attempt gw attempt reason =
     act_then (act_gateway (gw_discard gw attempt reason)) (\<lambda>discarded.
     act_then (act_update (\<lambda>w. resolve_retained_failures attempt ''discarded'' (mark_all_resolved attempt w))) (\<lambda>_.
     act_ret (ARuntime (RNu discarded))))"

end
