(* ===== verification/Attempt_Cleanup.thy ===== *)
theory Attempt_Cleanup
  imports Attempts
begin

text \<open>Opening and closing of attempt scopes and the release of semantic frontiers (\<open>stone_eval.rs\<close>): a
  scope terminates, joins and discards the children that are still unresolved, and is closed only when every
  child has come to rest. The same code runs when a \<open>with\<close> block is left and when the evaluation ends.\<close>

section \<open>Scopes\<close>

definition open_scope :: "string \<Rightarrow> nat \<Rightarrow> ('g, attempt_value) act" where
  "open_scope exit_policy join_timeout_ms =
     act_then (act_require (exit_policy = ''cancel_then_join'') ''attempt_scope''
       ''attempt_scope currently supports only exit_policy=\"cancel_then_join\"'' []) (\<lambda>_.
     act_then (act_require (join_timeout_ms \<noteq> 0) ''attempt_scope'' ''join_timeout_ms must be greater than zero'' []) (\<lambda>_.
     act_then fresh_id (\<lambda>n.
     act_then (act_read (\<lambda>w. length (aw_scopes w))) (\<lambda>i.
     act_then (act_update (\<lambda>w. w\<lparr> aw_scopes := aw_scopes w @ [new_scope n exit_policy join_timeout_ms] \<rparr>)) (\<lambda>_.
     act_ret (AScope i))))))"

definition add_to_scope :: "nat \<Rightarrow> string \<Rightarrow> ('g, attempt_value) act" where
  "add_to_scope i attempt =
     act_then (act_read (scope_at i)) (\<lambda>s.
     act_then (act_lift (scope_register attempt s)) (\<lambda>s'.
     act_then (act_update (put_scope i s')) (\<lambda>_. act_ret (AScope i))))"

section \<open>Closing one child\<close>

record child_run =
  cr_errors :: "string list"
  cr_terminated :: bool
  cr_joined :: bool
  cr_discarded :: bool
  cr_state :: string
  cr_controller :: "string option"

definition start_run :: "attempt_child \<Rightarrow> child_run" where
  "start_run c = \<lparr> cr_errors = [], cr_terminated = False, cr_joined = ch_joined c, cr_discarded = False,
     cr_state = ''unknown'', cr_controller = None \<rparr>"

definition add_error :: "string \<Rightarrow> string \<Rightarrow> child_run \<Rightarrow> child_run" where
  "add_error label text r = r\<lparr> cr_errors := cr_errors r @ [label @ '': '' @ text] \<rparr>"

definition call_gateway :: "('g \<Rightarrow> 'a res \<times> 'g) \<Rightarrow> 'g attempt_world \<Rightarrow> 'a res \<times> 'g attempt_world" where
  "call_gateway call w = act_gateway call w"

definition first_look :: "'g gateway \<Rightarrow> string \<Rightarrow> child_run \<times> 'g attempt_world \<Rightarrow> child_run \<times> 'g attempt_world" where
  "first_look gw attempt = (\<lambda>(r, w). case call_gateway (gw_state gw attempt 1) w of
     (Inr v, w') \<Rightarrow> (r\<lparr> cr_state := unwrap_or ''unknown'' (attempt_record_state v),
                       cr_controller := attempt_controller_state v \<rparr>, w')
   | (Inl e, w') \<Rightarrow> (add_error ''state'' (gw_error_text gw e) r, w'))"

definition terminate_child :: "'g gateway \<Rightarrow> string \<Rightarrow> child_run \<times> 'g attempt_world \<Rightarrow> child_run \<times> 'g attempt_world" where
  "terminate_child gw attempt = (\<lambda>(r, w).
     if cr_controller r \<in> Some ` {''starting'', ''running'', ''terminating''}
     then (case call_gateway (gw_terminate gw attempt) w of
         (Inr _, w') \<Rightarrow> (r\<lparr> cr_terminated := True \<rparr>, w')
       | (Inl e, w') \<Rightarrow> (add_error ''terminate'' (gw_error_text gw e) r, w'))
     else (r, w))"

definition join_child :: "'g gateway \<Rightarrow> nat \<Rightarrow> nat \<Rightarrow> string \<Rightarrow> child_run \<times> 'g attempt_world \<Rightarrow> child_run \<times> 'g attempt_world" where
  "join_child gw i timeout attempt = (\<lambda>(r, w).
     if cr_controller r \<noteq> None \<and> \<not> cr_joined r
     then (case call_gateway (gw_wait gw attempt (Some timeout)) w of
         (Inr v, w') \<Rightarrow> let joined = (case attempt_controller_state v of None \<Rightarrow> False | Some s \<Rightarrow> controller_finished s)
           in (r\<lparr> cr_joined := joined \<rparr>,
               if joined then put_scope i (mark_joined attempt (scope_at i w')) w' else w')
       | (Inl e, w') \<Rightarrow> (add_error ''join'' (gw_error_text gw e) r, w'))
     else (r, w))"

definition stop_child :: "'g gateway \<Rightarrow> nat \<Rightarrow> nat \<Rightarrow> string \<Rightarrow> child_run \<times> 'g attempt_world \<Rightarrow> child_run \<times> 'g attempt_world" where
  "stop_child gw i timeout attempt rw =
     (if cr_state (fst rw) = ''active'' then join_child gw i timeout attempt (terminate_child gw attempt rw) else rw)"

definition last_look :: "'g gateway \<Rightarrow> string \<Rightarrow> child_run \<times> 'g attempt_world \<Rightarrow> child_run \<times> 'g attempt_world" where
  "last_look gw attempt = (\<lambda>(r, w). case call_gateway (gw_state gw attempt 1) w of
     (Inr v, w') \<Rightarrow> (r\<lparr> cr_state := unwrap_or ''unknown'' (attempt_record_state v) \<rparr>, w')
   | (Inl e, w') \<Rightarrow> (add_error ''final state'' (gw_error_text gw e) r, w'))"

definition resolve_child :: "nat \<Rightarrow> string \<Rightarrow> string \<Rightarrow> 'g attempt_world \<Rightarrow> 'g attempt_world" where
  "resolve_child i attempt resolution w =
     resolve_retained_failures attempt resolution (put_scope i (mark_resolved attempt (scope_at i w)) w)"

definition settle_child :: "'g gateway \<Rightarrow> nat \<Rightarrow> string \<Rightarrow> string \<Rightarrow> child_run \<times> 'g attempt_world \<Rightarrow> child_run \<times> 'g attempt_world" where
  "settle_child gw i attempt reason = (\<lambda>(r, w).
     if cr_state r = ''active''
     then (case call_gateway (gw_discard gw attempt reason) w of
         (Inr _, w') \<Rightarrow> (r\<lparr> cr_discarded := True, cr_state := ''rolled_back'' \<rparr>, resolve_child i attempt ''discarded'' w')
       | (Inl e, w') \<Rightarrow> (add_error ''discard'' (gw_error_text gw e) r, w'))
     else if cr_state r \<noteq> ''unknown'' then (r, resolve_child i attempt (cr_state r) w)
     else (r, w))"

definition child_clean :: "child_run \<Rightarrow> bool" where
  "child_clean r \<longleftrightarrow> cr_errors r = [] \<and> cr_state r \<noteq> ''active'' \<and> cr_state r \<noteq> ''unknown''"

definition child_report :: "string \<Rightarrow> child_run \<Rightarrow> json" where
  "child_report attempt r = json_record
     [(''attempt'', JString attempt), (''joined'', JBool (cr_joined r)), (''terminated'', JBool (cr_terminated r)),
      (''discarded'', JBool (cr_discarded r)), (''state'', JString (cr_state r)), (''clean'', JBool (child_clean r)),
      (''errors'', json_strings (cr_errors r))]"

definition resolved_report :: "attempt_child \<Rightarrow> json" where
  "resolved_report c = json_record
     [(''attempt'', JString (ch_attempt c)), (''joined'', JBool (ch_joined c)), (''resolved'', JBool True),
      (''action'', JString ''already_resolved''), (''clean'', JBool True)]"

definition close_child :: "'g gateway \<Rightarrow> nat \<Rightarrow> nat \<Rightarrow> string \<Rightarrow> attempt_child
    \<Rightarrow> bool \<times> json list \<times> 'g attempt_world \<Rightarrow> bool \<times> json list \<times> 'g attempt_world" where
  "close_child gw i timeout reason c = (\<lambda>(clean, reports, w).
     if ch_resolved c then (clean, reports @ [resolved_report c], w)
     else case settle_child gw i (ch_attempt c) reason (last_look gw (ch_attempt c)
            (stop_child gw i timeout (ch_attempt c) (first_look gw (ch_attempt c) (start_run c, w)))) of
       (r, w') \<Rightarrow> (clean \<and> child_clean r, reports @ [child_report (ch_attempt c) r], w'))"

section \<open>Closing a scope\<close>

definition scope_report :: "attempt_scope \<Rightarrow> bool \<Rightarrow> bool \<Rightarrow> json list \<Rightarrow> nu_value" where
  "scope_report s already clean reports = json_to_nu_value (json_record
     [(''scope'', JInt (int (sc_id s))), (''exit_policy'', JString (sc_exit_policy s)), (''closed'', JBool clean),
      (''already_closed'', JBool already), (''clean'', JBool clean), (''children'', JArray reports)])"

definition close_attempt_scope :: "'g gateway \<Rightarrow> nat \<Rightarrow> string \<Rightarrow> 'g attempt_world \<Rightarrow> nu_value \<times> 'g attempt_world" where
  "close_attempt_scope gw i reason w = (let s = scope_at i w in
     if sc_closed s then (scope_report s True True [], w)
     else case fold (close_child gw i (sc_join_timeout_ms s) reason) (sc_children s) (True, [], w) of
       (clean, reports, w') \<Rightarrow> (scope_report s False clean reports,
         if clean then put_scope i ((scope_at i w')\<lparr> sc_closed := True \<rparr>) w' else w'))"

text \<open>No value of a report is of another nushell type, so the parameter of the conversion is not used.\<close>

definition report_json :: "nu_value \<Rightarrow> json" where
  "report_json report = nu_to_json_value (\<lambda>_. JNull) report"

definition report_is_clean :: "json \<Rightarrow> bool" where
  "report_is_clean j \<longleftrightarrow> (case json_object j of None \<Rightarrow> False | Some m \<Rightarrow> field m ''clean'' json_bool = Some True)"

definition close_attempt_scope_checked :: "'g gateway \<Rightarrow> nat \<Rightarrow> string \<Rightarrow> ('g, unit) act" where
  "close_attempt_scope_checked gw i reason w = (case close_attempt_scope gw i reason w of
     (report, w') \<Rightarrow> let j = report_json report in
       (if report_is_clean j then Inr ()
        else Inl (stone_error ''attempt scope cleanup'' ''cancel-then-join cleanup was incomplete: {}''
               [MStr (gw_json_text gw j)]), w'))"

definition close_if_open :: "'g gateway \<Rightarrow> string \<Rightarrow> nat \<Rightarrow> json list \<times> 'g attempt_world \<Rightarrow> json list \<times> 'g attempt_world" where
  "close_if_open gw reason i = (\<lambda>(broken, w).
     if sc_closed (scope_at i w) then (broken, w)
     else case close_attempt_scope gw i reason w of
       (report, w') \<Rightarrow> let j = report_json report in (if report_is_clean j then broken else broken @ [j], w'))"

definition close_open_attempt_scopes :: "'g gateway \<Rightarrow> string \<Rightarrow> ('g, unit) act" where
  "close_open_attempt_scopes gw reason w =
     (case fold (close_if_open gw reason) [0..<length (aw_scopes w)] ([], w) of
       (broken, w') \<Rightarrow> (if broken = [] then Inr ()
         else Inl (stone_error ''attempt scope cleanup'' ''automatic cancel-then-join cleanup was incomplete: {}''
                [MStr (gw_json_text gw (JArray broken))]), w'))"

section \<open>Frontiers\<close>

definition max_frontiers :: nat where
  "max_frontiers = 256"

definition track_frontier :: "semantic_frontier \<Rightarrow> ('g, attempt_value) act" where
  "track_frontier f w = (let i = length (aw_frontiers w); full = length (aw_tracked w) = max_frontiers in
     (Inr (AFrontier i), w\<lparr> aw_frontiers := aw_frontiers w @ [f],
        aw_tracked := (if full then tl (aw_tracked w) else aw_tracked w) @ [i],
        aw_dropped := (if full then saturating_succ (aw_dropped w) else aw_dropped w) \<rparr>))"

definition release_report :: "semantic_frontier \<Rightarrow> bool \<Rightarrow> nu_value" where
  "release_report f already_released = json_to_nu_value (json_record
     [(''type'', JString ''semantic_frontier_release''), (''frontier_id'', JInt (int (sf_frontier_id f))),
      (''status'', JString ''released''), (''already_released'', JBool already_released),
      (''release_origin'', json_option JString (release_origin f)), (''availability'', JString (frontier_mode_text (sf_mode f))),
      (''branches'', JInt (int (sf_branch_count f))), (''checkpoint_reclaimed'', JBool True)])"

definition release_frontier :: "'g gateway \<Rightarrow> nat \<Rightarrow> (semantic_frontier \<Rightarrow> semantic_frontier) \<Rightarrow> ('g, bool) act" where
  "release_frontier gw i mark = act_then (act_read (frontier_at i)) (\<lambda>f.
     if sf_released f then act_ret True
     else act_then (act_gateway (gw_release gw (sf_checkpoint f))) (\<lambda>_.
          act_then (act_update (put_frontier i (mark f))) (\<lambda>_. act_ret False)))"

definition release_explicitly :: "'g gateway \<Rightarrow> nat \<Rightarrow> ('g, attempt_value) act" where
  "release_explicitly gw i =
     act_then (release_frontier gw i mark_released) (\<lambda>already_released.
     act_then (act_read (frontier_at i)) (\<lambda>f. act_ret (ARuntime (RNu (release_report f already_released)))))"

definition release_at_end :: "'g gateway \<Rightarrow> nat \<Rightarrow> nat list \<times> 'g attempt_world \<Rightarrow> nat list \<times> 'g attempt_world" where
  "release_at_end gw i = (\<lambda>(failed_ids, w). case release_frontier gw i mark_released_by_cleanup w of
     (Inr _, w') \<Rightarrow> (failed_ids, w')
   | (Inl _, w') \<Rightarrow> (failed_ids @ [sf_frontier_id (frontier_at i w)], w'))"

definition release_open_semantic_frontiers :: "'g gateway \<Rightarrow> ('g, unit) act" where
  "release_open_semantic_frontiers gw w = (case fold (release_at_end gw) (aw_tracked w) ([], w) of
     (failed_ids, w') \<Rightarrow> (if failed_ids = [] then Inr ()
       else Inl (stone_error ''semantic frontier cleanup'' ''automatic release failed for semantic frontiers {}''
              [MStr (join_text '', '' (List.map nat_text failed_ids))]), w'))"

section \<open>The end of a block and of the evaluation\<close>

definition close_with_resource :: "'g gateway \<Rightarrow> (rvalue \<Rightarrow> ('g, unit) act) \<Rightarrow> attempt_value \<Rightarrow> ('g, unit) act" where
  "close_with_resource gw close_runtime v = (case v of
     AScope i \<Rightarrow> close_attempt_scope_checked gw i ''Stone attempt scope exited''
   | AFrontier i \<Rightarrow> act_then (release_frontier gw i mark_released_by_scope) (\<lambda>_. act_ret ())
   | ARuntime r \<Rightarrow> close_runtime r
   | _ \<Rightarrow> act_ret ())"

definition combine_cleanup_results :: "unit res \<Rightarrow> unit res \<Rightarrow> unit res" where
  "combine_cleanup_results scope_cleanup frontier_cleanup = (case (scope_cleanup, frontier_cleanup) of
     (Inr _, Inr _) \<Rightarrow> Inr ()
   | (Inl e, Inr _) \<Rightarrow> Inl e
   | (Inr _, Inl e) \<Rightarrow> Inl e
   | (Inl _, Inl _) \<Rightarrow> Inl (stone_error ''evaluation cleanup''
       ''attempt-scope and semantic-frontier cleanup both failed'' []))"

definition evaluation_cleanup :: "'g gateway \<Rightarrow> ('g, unit) act" where
  "evaluation_cleanup gw w = (case close_open_attempt_scopes gw ''Stone evaluation ended'' w of
     (scope_cleanup, w') \<Rightarrow> (case release_open_semantic_frontiers gw w' of
       (frontier_cleanup, w'') \<Rightarrow> (combine_cleanup_results scope_cleanup frontier_cleanup, w'')))"

end
