(* ===== verification/Attempt_Correct.thy ===== *)
theory Attempt_Correct
  imports Attempt_Cleanup Json_Correct
begin

text \<open>Results on attempts: an invariant of every reachable world, the selector as the first optimum of its
  candidates, and the cleanup that closes every scope.\<close>

section \<open>The invariant\<close>

definition scope_ok :: "attempt_scope \<Rightarrow> bool" where
  "scope_ok s \<longleftrightarrow> distinct (List.map ch_attempt (sc_children s))
     \<and> (sc_closed s \<longrightarrow> (\<forall>c\<in>set (sc_children s). ch_resolved c))"

definition best_ok :: "nat \<Rightarrow> attempt_best \<Rightarrow> bool" where
  "best_ok n b \<longleftrightarrow> bs_scope b < n \<and> bs_replacements b \<le> bs_considered b
     \<and> bs_considered b \<le> 18446744073709551615
     \<and> (bs_lifecycle b \<noteq> BestOpen \<longrightarrow> bs_current b = None)
     \<and> (bs_lifecycle b = BestOpen \<longrightarrow> bs_final_attempt b = None \<and> (bs_current b = None \<longleftrightarrow> bs_considered b = 0))
     \<and> (bs_lifecycle b = BestAccepted \<longrightarrow> bs_final_attempt b \<noteq> None)
     \<and> (\<forall>c. bs_current b = Some c \<longrightarrow> succeeded (bc_outcome c) \<and> f64_finite (bc_score c))"

definition failure_ok :: "nat \<Rightarrow> attempt_failure \<Rightarrow> bool" where
  "failure_ok n f \<longleftrightarrow> fl_scope f < n \<and> (fl_outcome f = None \<longleftrightarrow> fl_resolution f \<noteq> None)
     \<and> (\<forall>out. fl_outcome f = Some out \<longrightarrow> failed out \<and> ao_attempt out = fl_attempt f)"

definition retained_attempts :: "'g attempt_world \<Rightarrow> string list" where
  "retained_attempts w = List.map fl_attempt (List.filter is_retained (aw_failures w))"

definition world_ok :: "'g attempt_world \<Rightarrow> bool" where
  "world_ok w \<longleftrightarrow> list_all scope_ok (aw_scopes w) \<and> list_all (best_ok (length (aw_scopes w))) (aw_bests w)
     \<and> list_all (failure_ok (length (aw_scopes w))) (aw_failures w) \<and> distinct (retained_attempts w)
     \<and> length (aw_tracked w) \<le> max_frontiers \<and> distinct (aw_tracked w) \<and> (\<forall>i\<in>set (aw_tracked w). i < length (aw_frontiers w))"

lemma world_ok_empty: "world_ok (empty_world g)"
  by (simp add: world_ok_def empty_world_def retained_attempts_def)

lemma world_ok_gateway [simp]: "world_ok (w\<lparr> aw_gateway := g \<rparr>) = world_ok w"
  by (simp add: world_ok_def retained_attempts_def)

lemma world_ok_scope_at: "world_ok w \<Longrightarrow> i < length (aw_scopes w) \<Longrightarrow> scope_ok (scope_at i w)"
  by (simp add: world_ok_def scope_at_def list_all_length)

lemma world_ok_best_at:
  "world_ok w \<Longrightarrow> k < length (aw_bests w) \<Longrightarrow> best_ok (length (aw_scopes w)) (best_at k w)"
  by (simp add: world_ok_def best_at_def list_all_length)

lemma update_child_names:
  "(\<And>c. ch_attempt (f c) = ch_attempt c) \<Longrightarrow>
     List.map ch_attempt (update_child a f cs) = List.map ch_attempt cs"
  by (induction cs) auto

lemma update_child_resolved:
  assumes "\<And>c. ch_resolved c \<Longrightarrow> ch_resolved (f c)" and "\<forall>c\<in>set cs. ch_resolved c"
  shows "\<forall>c\<in>set (update_child a f cs). ch_resolved c"
  using assms(2) by (induction cs) (simp_all add: assms(1))

lemma scope_ok_update:
  assumes "scope_ok s" and "\<And>c. ch_attempt (f c) = ch_attempt c" and "\<And>c. ch_resolved c \<Longrightarrow> ch_resolved (f c)"
  shows "scope_ok (s\<lparr> sc_children := update_child a f (sc_children s) \<rparr>)"
proof -
  have "\<forall>c\<in>set (update_child a f cs). ch_resolved c" if "\<forall>c\<in>set cs. ch_resolved c" for cs
    using assms(3) that by (rule update_child_resolved)
  then have "sc_closed s \<longrightarrow> (\<forall>c\<in>set (update_child a f (sc_children s)). ch_resolved c)"
    using assms(1) unfolding scope_ok_def by blast
  then show ?thesis using assms(1) by (simp add: scope_ok_def update_child_names [OF assms(2)])
qed

lemma scope_ok_marks [simp]:
  "scope_ok s \<Longrightarrow> scope_ok (mark_joined a s)" "scope_ok s \<Longrightarrow> scope_ok (mark_resolved a s)"
  by (simp_all add: mark_joined_def mark_resolved_def scope_ok_update)

lemma scope_ok_register: "scope_ok s \<Longrightarrow> scope_register a s = Inr s' \<Longrightarrow> scope_ok s'"
  by (auto simp: scope_ok_def scope_register_def split: if_splits)

lemma list_all_update: "list_all P xs \<Longrightarrow> P y \<Longrightarrow> list_all P (xs[i := y])"
  by (auto simp: list_all_iff dest: set_update_subset_insert[THEN subsetD])

lemma world_ok_put_scope: "world_ok w \<Longrightarrow> scope_ok s \<Longrightarrow> world_ok (put_scope i s w)"
  by (simp add: world_ok_def put_scope_def retained_attempts_def list_all_update)

lemma world_ok_put_best:
  "world_ok w \<Longrightarrow> best_ok (length (aw_scopes w)) b \<Longrightarrow> world_ok (put_best k b w)"
  by (simp add: world_ok_def put_best_def retained_attempts_def list_all_update)

lemma world_ok_marks:
  "world_ok w \<Longrightarrow> world_ok (mark_all_joined a w)" "world_ok w \<Longrightarrow> world_ok (mark_all_resolved a w)"
  by (auto simp: world_ok_def mark_all_joined_def mark_all_resolved_def retained_attempts_def list_all_iff)

lemma world_ok_failures:
  assumes "world_ok w"
  shows "world_ok (resolve_retained_failures a r w)"
proof -
  let ?f = "\<lambda>f. if fl_attempt f = a then resolve_failure r f else f"
  have "List.map fl_attempt (List.filter is_retained (List.map ?f fs))
      = List.filter (\<lambda>x. x \<noteq> a) (List.map fl_attempt (List.filter is_retained fs))" for fs
    by (induction fs) (auto simp: is_retained_def resolve_failure_def)
  moreover have "list_all (failure_ok n) fs \<Longrightarrow> list_all (failure_ok n) (List.map ?f fs)" for n fs
    by (induction fs) (auto simp: failure_ok_def resolve_failure_def)
  ultimately show ?thesis
    using assms by (simp add: world_ok_def resolve_retained_failures_def retained_attempts_def)
qed

lemma world_ok_fresh_id: "world_ok w \<Longrightarrow> world_ok (snd (fresh_id w))"
  by (simp add: world_ok_def fresh_id_def retained_attempts_def)


section \<open>Every operation keeps the invariant\<close>

text \<open>An operation keeps the invariant when its first step does and the rest does from wherever the first
  step succeeded.\<close>

lemma act_then_ok:
  assumes "world_ok (snd (m w))" and "\<And>x w'. m w = (Inr x, w') \<Longrightarrow> world_ok w' \<Longrightarrow> world_ok (snd (f x w'))"
  shows "world_ok (snd (act_then m f w))"
  using assms by (cases "m w"; cases "fst (m w)") (auto simp: act_then_def)

lemma act_gateway_world: "act_gateway call w = (r, w') \<Longrightarrow> \<exists>g. w' = w\<lparr> aw_gateway := g \<rparr>"
  by (auto simp: act_gateway_def split: prod.splits)

lemma act_gateway_ok: "world_ok w \<Longrightarrow> world_ok (snd (act_gateway call w))"
  by (auto simp: act_gateway_def split: prod.splits)

lemma join_attempt_ok: "world_ok w \<Longrightarrow> world_ok (snd (join_attempt gw a t w))"
  unfolding join_attempt_def Let_def
  by (intro act_then_ok act_gateway_ok) (auto intro: world_ok_marks)

lemma collect_ready_ok: "world_ok w \<Longrightarrow> world_ok (snd (collect_ready rs w))"
proof (induction rs arbitrary: w)
  case (Cons r rs)
  then show ?case
    unfolding collect_ready.simps by (intro act_then_ok) (auto intro: world_ok_marks)
qed simp

lemma wait_for_attempts_ok: "world_ok w \<Longrightarrow> world_ok (snd (wait_for_attempts gw n cs all t w))"
  unfolding wait_for_attempts_def
  by (intro act_then_ok act_gateway_ok collect_ready_ok) auto

lemma fresh_id_frame:
  "fresh_id w = (Inr n, w') \<Longrightarrow> aw_scopes w = aw_scopes w' \<and> aw_bests w = aw_bests w' \<and> aw_failures w = aw_failures w'"
  by (auto simp: fresh_id_def world_ok_def retained_attempts_def)

lemma world_ok_add_failure:
  assumes "world_ok w" "i < length (aw_scopes w)" "failed out"
    and "\<forall>f\<in>set (aw_failures w). fl_attempt f = ao_attempt out \<longrightarrow> \<not> is_retained f"
  shows "world_ok (w\<lparr> aw_failures := aw_failures w @ [new_failure n i out] \<rparr>)"
  using assms by (auto simp: world_ok_def retained_attempts_def new_failure_def failure_ok_def is_retained_def)

lemma world_ok_add_best:
  "world_ok w \<Longrightarrow> i < length (aw_scopes w) \<Longrightarrow> world_ok (w\<lparr> aw_bests := aw_bests w @ [new_best n i ob] \<rparr>)"
  by (simp add: world_ok_def retained_attempts_def new_best_def best_ok_def)

lemma world_ok_add_scope:
  "world_ok w \<Longrightarrow> world_ok (w\<lparr> aw_scopes := aw_scopes w @ [new_scope n p t] \<rparr>)"
  by (auto simp: world_ok_def retained_attempts_def new_scope_def scope_ok_def best_ok_def failure_ok_def
      elim!: list.pred_mono_strong)

lemma retain_failure_ok:
  "world_ok w \<Longrightarrow> i < length (aw_scopes w) \<Longrightarrow> world_ok (snd (retain_failure i out w))"
  unfolding retain_failure_def Let_def
  by (intro act_then_ok)
     (auto split: if_splits dest!: fresh_id_frame intro: world_ok_fresh_id world_ok_add_failure)

lemma open_selector_ok:
  "world_ok w \<Longrightarrow> i < length (aw_scopes w) \<Longrightarrow> world_ok (snd (open_selector i ob w))"
  unfolding open_selector_def scope_open_def
  by (intro act_then_ok)
     (auto split: if_splits simp: act_then_apply dest!: fresh_id_frame intro: world_ok_fresh_id world_ok_add_best)

lemma open_scope_ok: "world_ok w \<Longrightarrow> world_ok (snd (open_scope p t w))"
  unfolding open_scope_def
  by (intro act_then_ok)
     (auto split: if_splits dest!: fresh_id_frame intro: world_ok_fresh_id world_ok_add_scope)

lemma add_to_scope_ok:
  "world_ok w \<Longrightarrow> i < length (aw_scopes w) \<Longrightarrow> world_ok (snd (add_to_scope i a w))"
  unfolding add_to_scope_def
  by (intro act_then_ok)
     (auto intro: world_ok_put_scope scope_ok_register world_ok_scope_at)

lemma accept_attempt_ok: "world_ok w \<Longrightarrow> world_ok (snd (accept_attempt gw p c w))"
  unfolding accept_attempt_def
  by (intro act_then_ok act_gateway_ok) (auto intro: world_ok_marks world_ok_failures)

lemma discard_attempt_ok: "world_ok w \<Longrightarrow> world_ok (snd (discard_attempt gw a r w))"
  unfolding discard_attempt_def
  by (intro act_then_ok act_gateway_ok) (auto intro: world_ok_marks world_ok_failures)

lemma best_steps_ok:
  assumes "best_ok n b" and "succeeded (bc_outcome c)" and "f64_finite (bc_score c)"
  shows "retain_candidate c replaced b = Inr b' \<Longrightarrow> best_ok n b'"
    and "bs_current b \<noteq> None \<Longrightarrow> record_rejected b = Inr b' \<Longrightarrow> best_ok n b'"
  using assms by (auto simp: best_ok_def retain_candidate_def record_rejected_def saturating_succ_def split: if_splits)

lemma mark_accepted_ok: "mark_accepted c b = Inr b' \<Longrightarrow> best_ok n b \<Longrightarrow> best_ok n b'"
  by (auto simp: best_ok_def mark_accepted_def split: if_splits)

lemma mark_discarded_ok: "mark_discarded c b = Inr b' \<Longrightarrow> best_ok n b \<Longrightarrow> best_ok n b'"
  by (auto simp: best_ok_def mark_discarded_def split: best_lifecycle.splits)

lemma update_best_ok:
  assumes "world_ok w" and "k < length (aw_bests w)"
    and "\<And>b'. f (best_at k w) = Inr b' \<Longrightarrow> best_ok (length (aw_scopes w)) b'"
  shows "world_ok (snd (update_best k f w))"
  using assms unfolding update_best_def
  by (intro act_then_ok) (auto intro: world_ok_put_best)

lemma mark_all_resolved_frame [simp]:
  "aw_bests (mark_all_resolved a w) = aw_bests w" "length (aw_scopes (mark_all_resolved a w)) = length (aw_scopes w)"
  "best_at k (mark_all_resolved a w) = best_at k w" "aw_failures (mark_all_resolved a w) = aw_failures w"
  by (simp_all add: mark_all_resolved_def best_at_def)

lemma gateway_frame [simp]:
  "best_at k (w\<lparr> aw_gateway := g \<rparr>) = best_at k w" "scope_at i (w\<lparr> aw_gateway := g \<rparr>) = scope_at i w"
  by (simp_all add: best_at_def scope_at_def)


lemma discard_loser_ok: "world_ok w \<Longrightarrow> world_ok (snd (discard_loser gw a r w))"
  unfolding discard_loser_def
  by (intro act_then_ok act_gateway_ok) (auto intro: world_ok_marks)

lemma discard_loser_frame:
  "discard_loser gw a r w = (Inr x, w') \<Longrightarrow> best_at k w' = best_at k w \<and> length (aw_bests w') = length (aw_bests w)
     \<and> length (aw_scopes w') = length (aw_scopes w)"
  by (auto simp: discard_loser_def act_then_def act_gateway_def split: prod.splits sum.splits)

lemma decide_ok: "world_ok w \<Longrightarrow> world_ok (snd (decide k c b r d w))"
  by (simp add: decide_def act_then_apply)

lemma follow_plan_ok:
  assumes "world_ok w" "k < length (aw_bests w)" and "succeeded (bc_outcome c)" "f64_finite (bc_score c)"
    and plan: "best_plan_for (bc_score c) (best_at k w) = Inr plan"
  shows "world_ok (snd (follow_plan gw k c plan w))"
proof -
  note ok = best_steps_ok [OF _ assms(3,4)]
  have held: "bs_current (best_at k w) \<noteq> None" if "plan \<noteq> Retain"
    using plan that by (auto simp: best_plan_for_def split: if_splits option.splits)
  have best: "best_ok (length (aw_scopes w)) (best_at k w)"
    using assms(1,2) by (rule world_ok_best_at)
  show ?thesis
  proof (cases plan)
    case Retain
    then show ?thesis unfolding follow_plan_def using assms(1,2) best
      by (auto intro!: act_then_ok update_best_ok decide_ok intro: ok(1))
  next
    case (Replace d)
    then show ?thesis unfolding follow_plan_def considered_twice_def using assms(1,2) best
      by (auto intro!: act_then_ok update_best_ok decide_ok discard_loser_ok intro: ok(1)
          dest!: discard_loser_frame [where k = k] split: if_splits)
  next
    case (Reject d)
    then show ?thesis unfolding follow_plan_def considered_twice_def using assms(1,2) best held
      by (auto intro!: act_then_ok update_best_ok decide_ok discard_loser_ok intro: ok(2)
          dest!: discard_loser_frame [where k = k] split: if_splits)
  qed
qed

lemma consider_candidate_ok:
  "world_ok w \<Longrightarrow> k < length (aw_bests w) \<Longrightarrow> world_ok (snd (consider_candidate gw k c w))"
  unfolding consider_candidate_def Let_def scope_open_def
  by (intro act_then_ok) (auto intro: follow_plan_ok split: if_splits simp: act_then_apply)

lemma accept_best_ok:
  assumes "world_ok w" and "k < length (aw_bests w)"
  shows "world_ok (snd (accept_best gw k p w))"
proof -
  have best: "best_ok (length (aw_scopes w)) (best_at k w)"
    using assms by (rule world_ok_best_at)
  show ?thesis
    unfolding accept_best_def Let_def scope_open_def
    using assms(2) best
    by (intro act_then_ok act_gateway_ok update_best_ok)
       (auto intro: assms(1) world_ok_marks mark_accepted_ok split: if_splits simp: act_then_apply
         dest!: act_gateway_world)
qed

lemma discard_held_ok: "world_ok w \<Longrightarrow> world_ok (snd (discard_held gw r c w))"
  by (cases c) (auto simp: discard_held_def intro!: act_then_ok act_gateway_ok intro: world_ok_marks)

lemma discard_held_frame:
  "discard_held gw r c w = (Inr x, w') \<Longrightarrow> best_at k w' = best_at k w \<and> length (aw_bests w') = length (aw_bests w)
     \<and> length (aw_scopes w') = length (aw_scopes w)"
  by (auto simp: discard_held_def act_then_def act_gateway_def split: prod.splits sum.splits option.splits)

lemma discard_best_ok:
  assumes "world_ok w" and "k < length (aw_bests w)"
  shows "world_ok (snd (discard_best gw k r w))"
proof -
  have best: "best_ok (length (aw_scopes w)) (best_at k w)"
    using assms by (rule world_ok_best_at)
  show ?thesis
    unfolding discard_best_def
    using assms(2) best
    by (intro act_then_ok discard_held_ok update_best_ok)
       (auto intro: assms(1) mark_discarded_ok dest!: discard_held_frame [where k = k])
qed

section \<open>Closing keeps the invariant\<close>

lemma call_gateway_world: "call_gateway call w = (r, w') \<Longrightarrow> \<exists>g. w' = w\<lparr> aw_gateway := g \<rparr>"
  unfolding call_gateway_def by (rule act_gateway_world)

text \<open>The phases of closing a child change the world in two ways only: through the gateway, and by marks in the
  scope that is closed.\<close>

lemma looks_world:
  "first_look gw a (r, w) = (r', w') \<Longrightarrow> \<exists>g. w' = w\<lparr> aw_gateway := g \<rparr>"
  "last_look gw a (r, w) = (r', w') \<Longrightarrow> \<exists>g. w' = w\<lparr> aw_gateway := g \<rparr>"
  "terminate_child gw a (r, w) = (r', w') \<Longrightarrow> \<exists>g. w' = w\<lparr> aw_gateway := g \<rparr>"
  by (force simp: first_look_def last_look_def terminate_child_def dest!: call_gateway_world
      split: prod.splits sum.splits if_splits intro: exI [of _ "aw_gateway w"])+


definition resolved_in :: "string \<Rightarrow> attempt_scope \<Rightarrow> bool" where
  "resolved_in a s \<longleftrightarrow> (\<forall>c\<in>set (sc_children s). ch_attempt c = a \<longrightarrow> ch_resolved c)"

definition marked :: "attempt_scope \<Rightarrow> attempt_scope \<Rightarrow> bool" where
  "marked s s' \<longleftrightarrow> List.map ch_attempt (sc_children s') = List.map ch_attempt (sc_children s)
     \<and> sc_closed s' = sc_closed s \<and> (\<forall>a. resolved_in a s \<longrightarrow> resolved_in a s')"

definition closing_step :: "nat \<Rightarrow> 'g attempt_world \<Rightarrow> 'g attempt_world \<Rightarrow> bool" where
  "closing_step i w w' \<longleftrightarrow> world_ok w' \<and> length (aw_scopes w') = length (aw_scopes w)
     \<and> (\<forall>j. j \<noteq> i \<longrightarrow> scope_at j w' = scope_at j w) \<and> marked (scope_at i w) (scope_at i w')
     \<and> aw_bests w' = aw_bests w \<and> aw_frontiers w' = aw_frontiers w \<and> aw_tracked w' = aw_tracked w"

lemma marked_refl [simp]: "marked s s"
  by (simp add: marked_def)

lemma marked_trans: "marked s t \<Longrightarrow> marked t u \<Longrightarrow> marked s u"
  by (simp add: marked_def)

lemma closing_refl: "world_ok w \<Longrightarrow> closing_step i w w"
  by (simp add: closing_step_def)

lemma closing_trans: "closing_step i w w' \<Longrightarrow> closing_step i w' w'' \<Longrightarrow> closing_step i w w''"
  unfolding closing_step_def by (auto intro: marked_trans)

lemma closing_gateway: "world_ok w \<Longrightarrow> closing_step i w (w\<lparr> aw_gateway := g \<rparr>)"
  by (simp add: closing_step_def)

lemma update_child_cases: "c \<in> set (update_child a f cs) \<Longrightarrow> c \<in> set cs \<or> (\<exists>d\<in>set cs. ch_attempt d = a \<and> c = f d)"
  by (induction cs) (auto split: if_splits)

lemma marked_joined: "marked s (mark_joined a s)"
  by (auto simp: marked_def mark_joined_def update_child_names resolved_in_def dest!: update_child_cases)

lemma marked_resolved: "marked s (mark_resolved a s)"
  by (auto simp: marked_def mark_resolved_def update_child_names resolved_in_def dest!: update_child_cases)

lemma resolved_in_marked:
  assumes "distinct (List.map ch_attempt (sc_children s))"
  shows "resolved_in a (mark_resolved a s)"
proof -
  let ?r = "\<lambda>c. c\<lparr> ch_resolved := True \<rparr>"
  have "\<forall>c\<in>set (update_child a ?r cs). ch_attempt c = a \<longrightarrow> ch_resolved c"
    if "distinct (List.map ch_attempt cs)" for cs
    using that
  proof (induction cs)
    case (Cons d cs)
    show ?case
    proof (cases "ch_attempt d = a")
      case True
      then have "\<forall>c\<in>set cs. ch_attempt c \<noteq> a" using Cons.prems by (auto simp: image_iff)
      then show ?thesis using True by simp
    next
      case False
      then show ?thesis using Cons by simp
    qed
  qed simp
  then show ?thesis using assms by (auto simp: resolved_in_def mark_resolved_def)
qed

lemma scope_at_put: "i < length (aw_scopes w) \<Longrightarrow> scope_at j (put_scope i s w) = (if j = i then s else scope_at j w)"
  by (simp add: scope_at_def put_scope_def nth_list_update)

lemma scope_at_put_other: "j \<noteq> i \<Longrightarrow> scope_at j (put_scope i s w) = scope_at j w"
  by (simp add: scope_at_def put_scope_def)

lemma put_scope_frame [simp]:
  "length (aw_scopes (put_scope i s w)) = length (aw_scopes w)" "aw_bests (put_scope i s w) = aw_bests w"
  "aw_frontiers (put_scope i s w) = aw_frontiers w" "aw_tracked (put_scope i s w) = aw_tracked w"
  by (simp_all add: put_scope_def)

lemma failures_frame [simp]:
  "aw_scopes (resolve_retained_failures a r w) = aw_scopes w" "aw_bests (resolve_retained_failures a r w) = aw_bests w"
  "aw_frontiers (resolve_retained_failures a r w) = aw_frontiers w"
  "aw_tracked (resolve_retained_failures a r w) = aw_tracked w"
  "scope_at i (resolve_retained_failures a r w) = scope_at i w"
  by (simp_all add: resolve_retained_failures_def scope_at_def)

lemma closing_put:
  assumes "world_ok w" "i < length (aw_scopes w)" "scope_ok s" "marked (scope_at i w) s"
  shows "closing_step i w (put_scope i s w)"
  using assms by (simp add: closing_step_def world_ok_put_scope scope_at_put scope_at_put_other)

lemma closing_resolve:
  assumes "world_ok w" and "i < length (aw_scopes w)"
  shows "closing_step i w (resolve_child i a r w)" and "resolved_in a (scope_at i (resolve_child i a r w))"
proof -
  have s: "scope_ok (scope_at i w)" using assms by (rule world_ok_scope_at)
  then have "closing_step i w (put_scope i (mark_resolved a (scope_at i w)) w)"
    by (intro closing_put assms) (simp_all add: marked_resolved)
  then show "closing_step i w (resolve_child i a r w)"
    by (simp add: resolve_child_def closing_step_def world_ok_failures)
  show "resolved_in a (scope_at i (resolve_child i a r w))"
    using s assms(2) by (simp add: resolve_child_def scope_at_put resolved_in_marked scope_ok_def)
qed

lemma closing_length: "closing_step i w w' \<Longrightarrow> length (aw_scopes w') = length (aw_scopes w)"
  by (simp add: closing_step_def)

lemma closing_ok: "closing_step i w w' \<Longrightarrow> world_ok w'"
  by (simp add: closing_step_def)


lemma looks_closing:
  assumes "world_ok w"
  shows "first_look gw a (r, w) = (r', w') \<Longrightarrow> closing_step i w w'"
    and "last_look gw a (r, w) = (r', w') \<Longrightarrow> closing_step i w w'"
    and "terminate_child gw a (r, w) = (r', w') \<Longrightarrow> closing_step i w w'"
  using looks_world [of gw a r w r' w'] closing_gateway [OF assms, of i] by auto

lemma join_closing:
  assumes "world_ok w" "i < length (aw_scopes w)" and run: "join_child gw i t a (r, w) = (r', w')"
  shows "closing_step i w w'"
proof -
  have put: "closing_step i w (put_scope i (mark_joined a (scope_at i w)) w)"
    using assms(1,2) by (intro closing_put) (simp_all add: marked_joined world_ok_scope_at)
  have marked: "closing_step i w (put_scope i (mark_joined a (scope_at i w)) (w\<lparr> aw_gateway := g \<rparr>))" for g
  proof -
    have "put_scope i s (w\<lparr> aw_gateway := g \<rparr>) = (put_scope i s w)\<lparr> aw_gateway := g \<rparr>" for s
      by (simp add: put_scope_def)
    then show ?thesis using put closing_gateway [OF closing_ok [OF put]] closing_trans by metis
  qed
  show ?thesis
    using run marked closing_gateway [OF assms(1), of i] closing_refl [OF assms(1), of i]
    by (auto simp: join_child_def Let_def dest!: call_gateway_world split: if_splits prod.splits sum.splits)
qed

lemma stop_closing:
  assumes "world_ok w" "i < length (aw_scopes w)" and run: "stop_child gw i t a (r, w) = (r', w')"
  shows "closing_step i w w'"
proof (cases "cr_state r = ''active''")
  case True
  obtain r1 w1 where t: "terminate_child gw a (r, w) = (r1, w1)" by (cases "terminate_child gw a (r, w)")
  then have c: "closing_step i w w1" using looks_closing(3) assms(1) by blast
  have "join_child gw i t a (r1, w1) = (r', w')" using run True t by (simp add: stop_child_def)
  then have "closing_step i w1 w'"
    using closing_ok [OF c] closing_length [OF c] assms(2) by (intro join_closing) auto
  with c show ?thesis by (rule closing_trans)
qed (use run closing_refl [OF assms(1)] in \<open>auto simp: stop_child_def\<close>)

lemma settle_closing:
  assumes "world_ok w" "i < length (aw_scopes w)" and run: "settle_child gw i a reason (r, w) = (r', w')"
  shows "closing_step i w w'" and "child_clean r' \<Longrightarrow> resolved_in a (scope_at i w')"
proof -
  have res: "closing_step i w (resolve_child i a t (w\<lparr> aw_gateway := g \<rparr>))"
    "resolved_in a (scope_at i (resolve_child i a t (w\<lparr> aw_gateway := g \<rparr>)))" for t g
    using closing_resolve [of "w\<lparr> aw_gateway := g \<rparr>" i a t] closing_gateway [OF assms(1), of i g] assms(1,2)
      closing_trans by auto
  note parts = res closing_gateway [OF assms(1), of i] closing_resolve [OF assms(1,2)] closing_refl [OF assms(1), of i]
  show "closing_step i w w'"
    using run parts by (auto simp: settle_child_def dest!: call_gateway_world split: if_splits prod.splits sum.splits)
  show "resolved_in a (scope_at i w')" if "child_clean r'"
    using run parts that
    by (auto simp: settle_child_def child_clean_def add_error_def dest!: call_gateway_world
        split: if_splits prod.splits sum.splits)
qed

lemma close_child_closing:
  assumes "world_ok w" "i < length (aw_scopes w)"
    and run: "close_child gw i t reason c (clean, reports, w) = (clean', reports', w')"
  shows "closing_step i w w'" and "clean' \<Longrightarrow> clean"
    and "clean' \<Longrightarrow> \<not> ch_resolved c \<Longrightarrow> resolved_in (ch_attempt c) (scope_at i w')"
proof -
  let ?a = "ch_attempt c"
  obtain r1 w1 where 1: "first_look gw ?a (start_run c, w) = (r1, w1)" by force
  obtain r2 w2 where 2: "stop_child gw i t ?a (r1, w1) = (r2, w2)" by force
  obtain r3 w3 where 3: "last_look gw ?a (r2, w2) = (r3, w3)" by force
  obtain r4 w4 where 4: "settle_child gw i ?a reason (r3, w3) = (r4, w4)" by force
  have c1: "closing_step i w w1" using looks_closing(1) assms(1) 1 by blast
  have c2: "closing_step i w1 w2" using stop_closing [OF _ _ 2] c1 assms(2) closing_ok closing_length by metis
  have c3: "closing_step i w2 w3" using looks_closing(2) closing_ok [OF c2] 3 by blast
  have l3: "i < length (aw_scopes w3)" using closing_length c1 c2 c3 assms(2) by metis
  note c4 = settle_closing [OF closing_ok [OF c3] l3 4]
  have all: "closing_step i w w4" using c1 c2 c3 c4(1) closing_trans by metis
  have eq: "close_child gw i t reason c (clean, reports, w) = (if ch_resolved c then (clean, reports @ [resolved_report c], w)
      else (clean \<and> child_clean r4, reports @ [child_report ?a r4], w4))"
    by (simp add: close_child_def 1 2 3 4)
  show "closing_step i w w'" using run eq all closing_refl [OF assms(1)] by (auto split: if_splits)
  show "clean" if "clean'" using run eq that by (auto split: if_splits)
  show "resolved_in ?a (scope_at i w')" if "clean'" "\<not> ch_resolved c" using run eq that c4(2) by auto
qed

lemma close_children_closing:
  assumes "world_ok w" "i < length (aw_scopes w)"
    and "fold (close_child gw i t reason) cs (clean, reports, w) = (clean', reports', w')"
  shows "closing_step i w w' \<and> (clean' \<longrightarrow> clean \<and>
    (\<forall>c\<in>set cs. \<not> ch_resolved c \<longrightarrow> resolved_in (ch_attempt c) (scope_at i w')))"
  using assms
proof (induction cs arbitrary: clean reports w)
  case Nil
  then show ?case by (simp add: closing_refl)
next
  case (Cons c cs)
  obtain clean1 reports1 w1 where 1: "close_child gw i t reason c (clean, reports, w) = (clean1, reports1, w1)"
    by (cases "close_child gw i t reason c (clean, reports, w)")
  note step = close_child_closing [OF Cons.prems(1,2) 1]
  have IH: "closing_step i w1 w' \<and> (clean' \<longrightarrow> clean1 \<and>
      (\<forall>c\<in>set cs. \<not> ch_resolved c \<longrightarrow> resolved_in (ch_attempt c) (scope_at i w')))"
    using Cons.prems 1 step(1) by (intro Cons.IH) (auto simp: closing_step_def)
  moreover have "resolved_in a (scope_at i w')" if "resolved_in a (scope_at i w1)" for a
    using IH that by (auto simp: closing_step_def marked_def)
  ultimately show ?case using step closing_trans by fastforce
qed


section \<open>Reports\<close>

lemma key_ordered_conv: "key_ordered m \<Longrightarrow> key_ordered (List.map (\<lambda>(k, j). (k, f j)) m)"
proof (induction m)
  case (Cons e m)
  then show ?case by (cases e) (auto simp: key_ordered_Cons image_iff split: prod.splits)
qed (simp add: key_ordered_def)

lemma report_field:
  "report_json (json_to_nu_value (json_record fs))
     = JObject (List.map (\<lambda>(k, j). (k, nu_to_json_value (\<lambda>_. JNull) (json_to_nu_value j))) (record_to_json fs))"
proof -
  let ?conv = "\<lambda>(k, j). (k, nu_to_json_value (\<lambda>_. JNull) (json_to_nu_value j))"
  have conv: "List.map (\<lambda>(k, v). (k, nu_to_json_value (\<lambda>_. JNull) v)) (List.map (\<lambda>(k, j). (k, json_to_nu_value j)) m)
      = List.map ?conv m" for m :: "(string \<times> json) list" by auto
  have "key_ordered (List.map ?conv (record_to_json fs))"
    by (rule key_ordered_conv) (rule record_to_json_facts(1))
  then show ?thesis
    unfolding report_json_def json_record_def json_to_nu_value.simps nu_to_json_value.simps conv
    by (simp only: record_to_json_ordered)
qed

lemma report_clean [simp]: "report_is_clean (report_json (scope_report s already clean reports)) = clean"
  by (simp add: report_is_clean_def scope_report_def report_field json_object_def field_def map_of_conv
      record_to_json_facts(3) json_bool_def)

section \<open>Closing a scope\<close>

lemma closed_scope_ok:
  assumes "scope_ok s" and "\<forall>c\<in>set (sc_children s). ch_resolved c"
  shows "scope_ok (s\<lparr> sc_closed := True \<rparr>)"
  using assms by (simp add: scope_ok_def)

text \<open>What closing a scope does to the world: the scopes keep their children, the other scopes do not change,
  and the report is clean exactly if the scope is closed afterwards.\<close>

definition closed_to :: "nat \<Rightarrow> bool \<Rightarrow> 'g attempt_world \<Rightarrow> 'g attempt_world \<Rightarrow> bool" where
  "closed_to i clean w w' \<longleftrightarrow> world_ok w' \<and> length (aw_scopes w') = length (aw_scopes w)
     \<and> (\<forall>j. j \<noteq> i \<longrightarrow> scope_at j w' = scope_at j w) \<and> sc_closed (scope_at i w') = clean
     \<and> List.map ch_attempt (sc_children (scope_at i w')) = List.map ch_attempt (sc_children (scope_at i w))
     \<and> (\<forall>a. resolved_in a (scope_at i w) \<longrightarrow> resolved_in a (scope_at i w'))
     \<and> aw_bests w' = aw_bests w \<and> aw_frontiers w' = aw_frontiers w \<and> aw_tracked w' = aw_tracked w"

lemma all_resolved:
  assumes "marked s s'" and "\<forall>c\<in>set (sc_children s). \<not> ch_resolved c \<longrightarrow> resolved_in (ch_attempt c) s'"
    and "distinct (List.map ch_attempt (sc_children s))"
  shows "\<forall>c\<in>set (sc_children s'). ch_resolved c"
proof
  fix c' assume c': "c' \<in> set (sc_children s')"
  then have "ch_attempt c' \<in> set (List.map ch_attempt (sc_children s))"
    using assms(1) unfolding marked_def by (metis image_eqI list.set_map)
  then obtain c where c: "c \<in> set (sc_children s)" "ch_attempt c = ch_attempt c'" by auto
  have "resolved_in (ch_attempt c) s'"
  proof (cases "ch_resolved c")
    case True
    then have "resolved_in (ch_attempt c) s"
      using c(1) assms(3) by (auto simp: resolved_in_def distinct_map inj_on_def)
    then show ?thesis using assms(1) by (simp add: marked_def)
  qed (use assms(2) c(1) in blast)
  then show "ch_resolved c'" using c c' by (auto simp: resolved_in_def)
qed

lemma close_scope_closing:
  assumes "world_ok w" "i < length (aw_scopes w)" and run: "close_attempt_scope gw i reason w = (report, w')"
  shows "\<exists>clean. report_is_clean (report_json report) = clean \<and> closed_to i clean w w'"
proof (cases "sc_closed (scope_at i w)")
  case True
  then show ?thesis using run assms(1) by (auto simp: close_attempt_scope_def Let_def closed_to_def)
next
  case False
  let ?s = "scope_at i w"
  obtain clean reports w1 where 1: "fold (close_child gw i (sc_join_timeout_ms ?s) reason) (sc_children ?s) (True, [], w)
      = (clean, reports, w1)" by (cases "fold (close_child gw i (sc_join_timeout_ms ?s) reason) (sc_children ?s) (True, [], w)")
  note c = close_children_closing [OF assms(1,2) 1]
  then have step: "closing_step i w w1" by simp
  have l: "i < length (aw_scopes w1)" using closing_length [OF step] assms(2) by simp
  have open1: "\<not> sc_closed (scope_at i w1)" using step False by (simp add: closing_step_def marked_def)
  have distinct: "distinct (List.map ch_attempt (sc_children ?s))"
    using world_ok_scope_at [OF assms(1,2)] by (simp add: scope_ok_def)
  show ?thesis
  proof (cases clean)
    case False
    then show ?thesis using run \<open>\<not> sc_closed ?s\<close> 1 step open1
      by (auto simp: close_attempt_scope_def Let_def closed_to_def closing_step_def marked_def)
  next
    case True
    then have "\<forall>c\<in>set (sc_children (scope_at i w1)). ch_resolved c"
      using c distinct by (intro all_resolved [of ?s]) (auto simp: closing_step_def)
    then have "scope_ok ((scope_at i w1)\<lparr> sc_closed := True \<rparr>)"
      using world_ok_scope_at [OF closing_ok [OF step] l] by (rule closed_scope_ok [rotated])
    then have "world_ok (put_scope i ((scope_at i w1)\<lparr> sc_closed := True \<rparr>) w1)"
      by (rule world_ok_put_scope [OF closing_ok [OF step]])
    then show ?thesis using run \<open>\<not> sc_closed ?s\<close> 1 True step l
      by (auto simp: close_attempt_scope_def Let_def closed_to_def closing_step_def marked_def resolved_in_def
          scope_at_put)
  qed
qed


section \<open>Cleanup\<close>

lemma close_if_open_closing:
  assumes "world_ok w" "i < length (aw_scopes w)" and run: "close_if_open gw reason i (broken, w) = (broken', w')"
  shows "closed_to i (sc_closed (scope_at i w')) w w'" and "broken' = [] \<longleftrightarrow> broken = [] \<and> sc_closed (scope_at i w')"
proof -
  obtain report w1 where 1: "close_attempt_scope gw i reason w = (report, w1)"
    by (cases "close_attempt_scope gw i reason w")
  from close_scope_closing [OF assms(1,2) 1]
  have c: "closed_to i (report_is_clean (report_json report)) w w1" by simp
  show "closed_to i (sc_closed (scope_at i w')) w w'"
    using run 1 c assms(1) by (auto simp: close_if_open_def Let_def closed_to_def split: if_splits)
  show "broken' = [] \<longleftrightarrow> broken = [] \<and> sc_closed (scope_at i w')"
    using run 1 c by (auto simp: close_if_open_def Let_def closed_to_def split: if_splits)
qed

definition cleaned :: "'g attempt_world \<Rightarrow> 'g attempt_world \<Rightarrow> bool" where
  "cleaned w w' \<longleftrightarrow> world_ok w' \<and> length (aw_scopes w') = length (aw_scopes w)
     \<and> (\<forall>i. List.map ch_attempt (sc_children (scope_at i w')) = List.map ch_attempt (sc_children (scope_at i w)))
     \<and> (\<forall>i a. resolved_in a (scope_at i w) \<longrightarrow> resolved_in a (scope_at i w'))
     \<and> aw_bests w' = aw_bests w \<and> aw_frontiers w' = aw_frontiers w \<and> aw_tracked w' = aw_tracked w"

lemma cleaned_trans: "cleaned w w' \<Longrightarrow> cleaned w' w'' \<Longrightarrow> cleaned w w''"
  by (simp add: cleaned_def)

lemma closed_to_cleaned: "closed_to i b w w' \<Longrightarrow> cleaned w w'"
  unfolding closed_to_def cleaned_def by metis

lemma close_all_closing:
  assumes "world_ok w" and "distinct xs" and "\<forall>i\<in>set xs. i < length (aw_scopes w)"
    and "fold (close_if_open gw reason) xs (broken, w) = (broken', w')"
  shows "cleaned w w' \<and> (\<forall>i. i \<notin> set xs \<longrightarrow> scope_at i w' = scope_at i w)
     \<and> (broken' = [] \<longleftrightarrow> broken = [] \<and> (\<forall>i\<in>set xs. sc_closed (scope_at i w')))"
  using assms
proof (induction xs arbitrary: broken w)
  case Nil
  then show ?case by (simp add: cleaned_def)
next
  case (Cons i xs)
  obtain broken1 w1 where 1: "close_if_open gw reason i (broken, w) = (broken1, w1)"
    by (cases "close_if_open gw reason i (broken, w)")
  have i: "i < length (aw_scopes w)" using Cons.prems by simp
  note step = close_if_open_closing [OF Cons.prems(1) i 1]
  have "cleaned w1 w' \<and> (\<forall>j. j \<notin> set xs \<longrightarrow> scope_at j w' = scope_at j w1)
     \<and> (broken' = [] \<longleftrightarrow> broken1 = [] \<and> (\<forall>j\<in>set xs. sc_closed (scope_at j w')))"
    using Cons.prems 1 step(1) by (intro Cons.IH) (auto simp: closed_to_def)
  then show ?case
    using step Cons.prems(2) closed_to_cleaned [OF step(1)] cleaned_trans by (auto simp: closed_to_def)
qed

lemma close_open_closing:
  assumes "world_ok w" and "close_open_attempt_scopes gw reason w = (r, w')"
  shows "cleaned w w'" and "r = Inr () \<longleftrightarrow> (\<forall>i<length (aw_scopes w). sc_closed (scope_at i w'))"
proof -
  obtain broken w1 where 1: "fold (close_if_open gw reason) [0..<length (aw_scopes w)] ([], w) = (broken, w1)"
    by (cases "fold (close_if_open gw reason) [0..<length (aw_scopes w)] ([], w)")
  from close_all_closing [OF assms(1) _ _ 1]
  have "cleaned w w1 \<and> (broken = [] \<longleftrightarrow> (\<forall>i<length (aw_scopes w). sc_closed (scope_at i w1)))" by auto
  then show "cleaned w w'" "r = Inr () \<longleftrightarrow> (\<forall>i<length (aw_scopes w). sc_closed (scope_at i w'))"
    using assms(2) 1 by (auto simp: close_open_attempt_scopes_def split: if_splits)
qed

definition same_attempts :: "'g attempt_world \<Rightarrow> 'g attempt_world \<Rightarrow> bool" where
  "same_attempts w w' \<longleftrightarrow> world_ok w' \<and> aw_scopes w' = aw_scopes w \<and> aw_bests w' = aw_bests w
     \<and> aw_failures w' = aw_failures w \<and> length (aw_frontiers w') = length (aw_frontiers w)"

lemma same_attempts_refl: "world_ok w \<Longrightarrow> same_attempts w w"
  by (simp add: same_attempts_def)

lemma same_attempts_trans: "same_attempts w w' \<Longrightarrow> same_attempts w' w'' \<Longrightarrow> same_attempts w w''"
  by (simp add: same_attempts_def)

lemma release_frontier_same:
  "world_ok w \<Longrightarrow> release_frontier gw i mark w = (r, w') \<Longrightarrow> same_attempts w w'"
  by (auto simp: release_frontier_def act_then_def put_frontier_def same_attempts_def world_ok_def retained_attempts_def
      act_gateway_def split: if_splits prod.splits sum.splits)

lemma release_all_same:
  "world_ok w \<Longrightarrow> fold (release_at_end gw) is (ids, w) = (ids', w') \<Longrightarrow> same_attempts w w'"
proof (induction "is" arbitrary: ids w)
  case (Cons i "is")
  obtain ids1 w1 where 1: "release_at_end gw i (ids, w) = (ids1, w1)" by (cases "release_at_end gw i (ids, w)")
  then have "same_attempts w w1"
    by (auto simp: release_at_end_def split: prod.splits sum.splits intro: release_frontier_same [OF Cons.prems(1)])
  then show ?case using Cons 1 by (auto simp: same_attempts_def)
qed (auto intro: same_attempts_refl)

lemma release_open_same:
  "world_ok w \<Longrightarrow> release_open_semantic_frontiers gw w = (r, w') \<Longrightarrow> same_attempts w w'"
  by (auto simp: release_open_semantic_frontiers_def split: prod.splits intro: release_all_same)

lemma evaluation_cleanup_ok:
  assumes "world_ok w"
  shows "world_ok (snd (evaluation_cleanup gw w))"
proof -
  obtain r1 w1 where 1: "close_open_attempt_scopes gw ''Stone evaluation ended'' w = (r1, w1)" by force
  obtain r2 w2 where 2: "release_open_semantic_frontiers gw w1 = (r2, w2)" by force
  have "world_ok w1" using close_open_closing(1) [OF assms 1] by (simp add: cleaned_def)
  then have "world_ok w2" using release_open_same 2 by (auto simp: same_attempts_def)
  then show ?thesis using 1 2 by (simp add: evaluation_cleanup_def)
qed

lemma track_frontier_ok: "world_ok w \<Longrightarrow> world_ok (snd (track_frontier f w))"
  by (auto simp: track_frontier_def Let_def world_ok_def retained_attempts_def max_frontiers_def less_Suc_eq distinct_tl
      dest: list.set_sel(2) [rotated])

lemma close_attempt_scope_ok:
  "world_ok w \<Longrightarrow> i < length (aw_scopes w) \<Longrightarrow> world_ok (snd (close_attempt_scope gw i reason w))"
  using close_scope_closing [of w i gw reason] by (cases "close_attempt_scope gw i reason w") (auto simp: closed_to_def)

section \<open>Reachable worlds\<close>

text \<open>One step of an evaluation: a call of the attempt interface, the cleanup, another value taking an
  identifier, or a move of the gateway on its own.\<close>

inductive attempt_step :: "'g gateway \<Rightarrow> 'g attempt_world \<Rightarrow> 'g attempt_world \<Rightarrow> bool" for gw where
  joins: "attempt_step gw w (snd (join_attempt gw a t w))"
| waits: "attempt_step gw w (snd (wait_for_attempts gw n cs all t w))"
| retains: "i < length (aw_scopes w) \<Longrightarrow> attempt_step gw w (snd (retain_failure i out w))"
| selects: "i < length (aw_scopes w) \<Longrightarrow> attempt_step gw w (snd (open_selector i ob w))"
| considers: "k < length (aw_bests w) \<Longrightarrow> attempt_step gw w (snd (consider_candidate gw k c w))"
| accepts_best: "k < length (aw_bests w) \<Longrightarrow> attempt_step gw w (snd (accept_best gw k p w))"
| discards_best: "k < length (aw_bests w) \<Longrightarrow> attempt_step gw w (snd (discard_best gw k r w))"
| accepts: "attempt_step gw w (snd (accept_attempt gw p a w))"
| discards: "attempt_step gw w (snd (discard_attempt gw a r w))"
| opens: "attempt_step gw w (snd (open_scope p t w))"
| adds: "i < length (aw_scopes w) \<Longrightarrow> attempt_step gw w (snd (add_to_scope i a w))"
| closes: "i < length (aw_scopes w) \<Longrightarrow> attempt_step gw w (snd (close_attempt_scope gw i r w))"
| tracks: "attempt_step gw w (snd (track_frontier f w))"
| releases: "attempt_step gw w (snd (release_frontier gw i m w))"
| cleans: "attempt_step gw w (snd (evaluation_cleanup gw w))"
| identifies: "attempt_step gw w (snd (fresh_id w))"
| moves: "attempt_step gw w (w\<lparr> aw_gateway := g \<rparr>)"

inductive reachable_world :: "'g gateway \<Rightarrow> 'g attempt_world \<Rightarrow> bool" for gw where
  start: "reachable_world gw (empty_world g)"
| step: "reachable_world gw w \<Longrightarrow> attempt_step gw w w' \<Longrightarrow> reachable_world gw w'"

lemmas step_ok = join_attempt_ok wait_for_attempts_ok retain_failure_ok open_selector_ok consider_candidate_ok
  accept_best_ok discard_best_ok accept_attempt_ok discard_attempt_ok open_scope_ok add_to_scope_ok
  close_attempt_scope_ok track_frontier_ok evaluation_cleanup_ok world_ok_fresh_id

lemma attempt_step_ok: "attempt_step gw w w' \<Longrightarrow> world_ok w \<Longrightarrow> world_ok w'"
proof (induction rule: attempt_step.induct)
  case (releases w i m)
  then show ?case using release_frontier_same [of w gw i m] by (cases "release_frontier gw i m w") (auto simp: same_attempts_def)
qed (simp_all add: step_ok)

lemma reachable_world_ok: "reachable_world gw w \<Longrightarrow> world_ok w"
  by (induction rule: reachable_world.induct) (auto intro: world_ok_empty attempt_step_ok)

text \<open>C12: In every world an evaluation reaches, whatever the gateway answers: the children of a scope are
  distinct and, once the scope is closed, all resolved; an open selector holds a candidate exactly if it
  considered one, and only a candidate that succeeded with a finite score; a selector that is no longer open
  holds none; a retained failure holds its failed outcome exactly until it is resolved, and no attempt is
  retained twice; at most 256 frontiers are tracked, each once.\<close>

theorem reachable_attempts_well_formed:
  assumes "reachable_world gw w"
  shows "world_ok w"
  using assms by (rule reachable_world_ok)

section \<open>An example run\<close>

definition finished_record :: nu_value where
  "finished_record = VRecord [(''state'', VString ''active''), (''metadata'', VRecord
     [(''controller_state'', VString ''exited''), (''controller_result_status'', VString ''succeeded'')])]"

definition sample_gateway :: "unit gateway" where
  "sample_gateway = \<lparr> gw_state = (\<lambda>_ _ g. (Inr finished_record, g)), gw_wait = (\<lambda>_ _ g. (Inr finished_record, g)),
     gw_wait_set = (\<lambda>_ _ _ g. (Inr \<lparr> ws_ready = [], ws_completed = True, ws_timed_out = False \<rparr>, g)),
     gw_terminate = (\<lambda>_ g. (Inr VNothing, g)), gw_discard = (\<lambda>_ _ g. (Inr VNothing, g)),
     gw_accept = (\<lambda>_ _ g. (Inr (VRecord [(''child'', VNothing)]), g)), gw_release = (\<lambda>_ g. (Inr (), g)),
     gw_error_text = (\<lambda>_. []), gw_json_text = (\<lambda>_. []) \<rparr>"

definition sample_world :: "unit attempt_world" where
  "sample_world = snd (join_attempt sample_gateway ''b'' None (snd (join_attempt sample_gateway ''a'' None
     (snd (add_to_scope 0 ''b'' (snd (add_to_scope 0 ''a''
       (snd (open_scope ''cancel_then_join'' 5000 (empty_world ()))))))))))"

lemmas run_defs = open_scope_def add_to_scope_def scope_register_def join_attempt_def attempt_outcome_value_def
  open_selector_def scope_open_def parse_objective_def new_best_def new_scope_def fresh_id_def empty_world_def
  act_then_apply act_gateway_def Let_def put_scope_def scope_at_def mark_all_joined_def mark_joined_def
  attempt_controller_state_def attempt_record_state_def attempt_fields_def record_get_def nu_str_def
  controller_finished_def unwrap_or_def finished_record_def sample_gateway_def

lemma sample_world_eq:
  "sample_world = (empty_world ())\<lparr> aw_next_callable := 1,
     aw_scopes := [\<lparr> sc_id = 0, sc_exit_policy = ''cancel_then_join'', sc_join_timeout_ms = 5000,
       sc_children = [\<lparr> ch_attempt = ''a'', ch_joined = True, ch_resolved = False \<rparr>,
         \<lparr> ch_attempt = ''b'', ch_joined = True, ch_resolved = False \<rparr>], sc_closed = False \<rparr>] \<rparr>"
  by (simp add: sample_world_def run_defs)

lemma sample_world_reachable: "reachable_world sample_gateway sample_world"
proof -
  have "0 < length (aw_scopes (snd (open_scope ''cancel_then_join'' 5000 (empty_world ()))))"
    "0 < length (aw_scopes (snd (add_to_scope 0 ''a'' (snd (open_scope ''cancel_then_join'' 5000 (empty_world ()))))))"
    by (simp_all add: run_defs)
  then show ?thesis unfolding sample_world_def
    by (intro reachable_world.step [OF _ attempt_step.joins] reachable_world.step [OF _ attempt_step.adds]
        reachable_world.step [OF _ attempt_step.opens] reachable_world.start)
qed

theorem reachable_attempts_well_formed_witness:
  "world_ok sample_world \<and> scope_at 0 sample_world \<noteq> new_scope 0 ''cancel_then_join'' 5000"
proof -
  have "scope_at 0 sample_world \<noteq> new_scope 0 ''cancel_then_join'' 5000"
    by (simp add: sample_world_eq scope_at_def new_scope_def)
  then show ?thesis using reachable_attempts_well_formed [OF sample_world_reachable] by simp
qed

end
