(* ===== verification/Attempt_Settled.thy ===== *)
theory Attempt_Settled
  imports Attempt_Correct
begin

text \<open>What is settled stays settled: no step of an evaluation makes a resolved child unresolved, takes a child
  out of its scope or opens a closed scope again.\<close>

definition child_names :: "attempt_scope \<Rightarrow> string list" where
  "child_names s = List.map ch_attempt (sc_children s)"

definition scope_grown :: "attempt_scope \<Rightarrow> attempt_scope \<Rightarrow> bool" where
  "scope_grown s s' \<longleftrightarrow> set (child_names s) \<subseteq> set (child_names s')
     \<and> (\<forall>a\<in>set (child_names s). resolved_in a s \<longrightarrow> resolved_in a s')
     \<and> (sc_closed s \<longrightarrow> sc_closed s' \<and> child_names s' = child_names s)"

definition grown :: "'g attempt_world \<Rightarrow> 'g attempt_world \<Rightarrow> bool" where
  "grown w w' \<longleftrightarrow> length (aw_scopes w) \<le> length (aw_scopes w')
     \<and> (\<forall>i<length (aw_scopes w). scope_grown (scope_at i w) (scope_at i w'))"

lemma scope_grown_refl [simp]: "scope_grown s s"
  by (simp add: scope_grown_def)

lemma scope_grown_trans: "scope_grown s t \<Longrightarrow> scope_grown t u \<Longrightarrow> scope_grown s u"
  by (auto simp: scope_grown_def)

lemma grown_refl [simp]: "grown w w"
  by (simp add: grown_def)

lemma grown_trans: "grown w w' \<Longrightarrow> grown w' w'' \<Longrightarrow> grown w w''"
  unfolding grown_def by (meson less_le_trans order_trans scope_grown_trans)

lemma grown_same_scopes: "aw_scopes w' = aw_scopes w \<Longrightarrow> grown w w'"
  by (simp add: grown_def scope_at_def)

lemma marked_grown: "marked s s' \<Longrightarrow> scope_grown s s'"
  by (simp add: marked_def scope_grown_def child_names_def)

lemma grown_marks: "grown w (mark_all_joined a w)" "grown w (mark_all_resolved a w)"
  by (simp_all add: grown_def mark_all_joined_def mark_all_resolved_def scope_at_def marked_grown marked_joined
      marked_resolved)

lemma grown_failures [simp]: "grown w (resolve_retained_failures a r w') = grown w w'"
  by (simp add: grown_def)

lemma grown_gateway [simp]: "grown w (w'\<lparr> aw_gateway := g \<rparr>) = grown w w'"
  by (simp add: grown_def)

lemma grown_put: "scope_grown (scope_at i w) s \<Longrightarrow> grown w (put_scope i s w)"
proof -
  assume s: "scope_grown (scope_at i w) s"
  have "scope_grown (scope_at j w) (scope_at j (put_scope i s w))" if "j < length (aw_scopes w)" for j
    using s that by (cases "j = i") (simp_all add: scope_at_put scope_at_put_other)
  then show ?thesis by (simp add: grown_def)
qed

lemma register_grown: "scope_register a s = Inr s' \<Longrightarrow> scope_grown s s'"
  by (fastforce simp: scope_register_def scope_grown_def child_names_def resolved_in_def split: if_splits)

lemma closed_to_grown:
  assumes "closed_to i c w w'" and "i < length (aw_scopes w) \<Longrightarrow> sc_closed (scope_at i w) \<Longrightarrow> c"
  shows "grown w w'"
  unfolding grown_def
proof (intro conjI allI impI)
  fix j assume "j < length (aw_scopes w)"
  then show "scope_grown (scope_at j w) (scope_at j w')"
    using assms by (cases "j = i") (auto simp: closed_to_def scope_grown_def child_names_def)
qed (use assms in \<open>simp add: closed_to_def\<close>)

lemma act_then_grown:
  assumes "grown w (snd (m w))" and "\<And>x w'. m w = (Inr x, w') \<Longrightarrow> grown w' (snd (f x w'))"
  shows "grown w (snd (act_then m f w))"
  using assms by (cases "m w"; cases "fst (m w)") (auto simp: act_then_def intro: grown_trans)

lemma act_gateway_grown: "grown w (snd (act_gateway call w))"
  by (auto simp: act_gateway_def split: prod.splits)

lemma fresh_id_grown: "grown w (snd (fresh_id w))"
  by (simp add: fresh_id_def grown_same_scopes)

lemma update_best_grown: "grown w (snd (update_best k f w))"
  unfolding update_best_def
  by (intro act_then_grown) (auto simp: put_best_def intro: grown_same_scopes)

lemma collect_ready_grown: "grown w (snd (collect_ready rs w))"
proof (induction rs arbitrary: w)
  case (Cons r rs)
  then show ?case unfolding collect_ready.simps by (intro act_then_grown) (auto intro: grown_marks)
qed simp

lemmas grown_intros = act_then_grown act_gateway_grown fresh_id_grown update_best_grown collect_ready_grown

lemma discard_grown: "grown w (snd (discard_loser gw a r w))" "grown w (snd (discard_held gw r c w))"
  unfolding discard_loser_def discard_held_def
  by (intro grown_intros; simp add: grown_marks) (cases c; auto intro!: grown_intros simp: grown_marks)

lemma follow_plan_grown: "grown w (snd (follow_plan gw k c plan w))"
  unfolding follow_plan_def considered_twice_def decide_def
  by (cases plan) (auto intro!: grown_intros discard_grown)

lemma waits_grown:
  "grown w (snd (join_attempt gw a t w))" "grown w (snd (wait_for_attempts gw n cs all t w))"
  unfolding join_attempt_def wait_for_attempts_def Let_def
  by (auto intro!: grown_intros intro: grown_marks)

lemma selection_grown:
  "grown w (snd (retain_failure i out w))" "grown w (snd (open_selector i ob w))"
  "grown w (snd (consider_candidate gw k c w))" "grown w (snd (accept_best gw k p w))"
  "grown w (snd (discard_best gw k r w))"
  unfolding retain_failure_def open_selector_def consider_candidate_def accept_best_def discard_best_def scope_open_def Let_def
  by (auto intro!: grown_intros follow_plan_grown discard_grown intro: grown_same_scopes grown_marks)

lemma ending_grown:
  "grown w (snd (accept_attempt gw p a w))" "grown w (snd (discard_attempt gw a r w))"
  unfolding accept_attempt_def discard_attempt_def
  by (auto intro!: grown_intros intro: grown_marks)

lemma open_scope_grown: "grown w (snd (open_scope p t w))"
  unfolding open_scope_def
  by (intro grown_intros) (auto simp: grown_def scope_at_def nth_append)

lemma add_to_scope_grown: "grown w (snd (add_to_scope i a w))"
  unfolding add_to_scope_def
  by (intro grown_intros) (auto intro!: grown_put register_grown)

lemma close_attempt_scope_grown:
  assumes "world_ok w" "i < length (aw_scopes w)"
  shows "grown w (snd (close_attempt_scope gw i r w))"
proof (cases "sc_closed (scope_at i w)")
  case False
  obtain report w' where "close_attempt_scope gw i r w = (report, w')" by force
  with close_scope_closing [OF assms this] False show ?thesis by (auto intro: closed_to_grown)
qed (simp add: close_attempt_scope_def Let_def)

lemma close_all_grown:
  assumes "world_ok w" and "distinct xs" and "\<forall>i\<in>set xs. i < length (aw_scopes w)"
    and "fold (close_if_open gw reason) xs (broken, w) = (broken', w')"
  shows "grown w w'"
  using assms
proof (induction xs arbitrary: broken w)
  case (Cons i xs)
  obtain broken1 w1 where 1: "close_if_open gw reason i (broken, w) = (broken1, w1)" by force
  have i: "i < length (aw_scopes w)" using Cons.prems by simp
  have "grown w w1"
    using 1 close_attempt_scope_grown [OF Cons.prems(1) i, of gw reason]
    by (auto simp: close_if_open_def Let_def split: if_splits prod.splits)
  moreover have "grown w1 w'"
    using Cons.prems 1 close_if_open_closing(1) [OF Cons.prems(1) i 1]
    by (intro Cons.IH) (auto simp: closed_to_def)
  ultimately show ?case by (rule grown_trans)
qed simp

lemma evaluation_cleanup_grown:
  assumes "world_ok w"
  shows "grown w (snd (evaluation_cleanup gw w))"
proof -
  obtain r1 w1 where 1: "close_open_attempt_scopes gw ''Stone evaluation ended'' w = (r1, w1)" by force
  obtain r2 w2 where 2: "release_open_semantic_frontiers gw w1 = (r2, w2)" by force
  have "grown w w1"
    using 1 close_all_grown [OF assms, of "[0..<length (aw_scopes w)]"]
    by (auto simp: close_open_attempt_scopes_def split: prod.splits)
  moreover have "aw_scopes w2 = aw_scopes w1"
    using release_open_same [OF _ 2] close_open_closing(1) [OF assms 1] by (simp add: cleaned_def same_attempts_def)
  ultimately show ?thesis using 1 2 by (simp add: evaluation_cleanup_def grown_def scope_at_def)
qed

lemma attempt_step_grown:
  assumes "attempt_step gw w w'" and "world_ok w"
  shows "grown w w'"
  using assms
proof (induction rule: attempt_step.induct)
  case (releases w i m)
  then show ?case using release_frontier_same [of w gw i m]
    by (cases "release_frontier gw i m w") (auto simp: same_attempts_def intro: grown_same_scopes)
next
  case (tracks w f)
  then show ?case by (simp add: track_frontier_def Let_def grown_same_scopes)
qed (simp_all add: waits_grown selection_grown ending_grown open_scope_grown add_to_scope_grown close_attempt_scope_grown
    evaluation_cleanup_grown fresh_id_grown)

lemma attempt_steps_grown:
  assumes "(attempt_step gw)\<^sup>*\<^sup>* w w'" and "world_ok w"
  shows "grown w w' \<and> world_ok w'"
  using assms by (induction rule: rtranclp_induct) (auto intro: grown_trans attempt_step_grown attempt_step_ok)

text \<open>A child that is resolved in the scope of a call is refused by it.\<close>

lemma settled_is_refused:
  assumes "\<not> owns_joined a (scope_at i w)"
  shows "ao_attempt out = a \<Longrightarrow> \<not> is_ok (fst (retain_failure i out w))"
    and "bs_scope (best_at k w) = i \<Longrightarrow> bc_attempt c = a \<Longrightarrow> \<not> is_ok (fst (consider_candidate gw k c w))"
    and "bs_scope (best_at k w) = i \<Longrightarrow> bs_current (best_at k w) = Some c \<Longrightarrow> bc_attempt c = a
      \<Longrightarrow> \<not> is_ok (fst (accept_best gw k parent w))"
  using assms
  by (auto simp: retain_failure_def consider_candidate_def accept_best_def Let_def act_then_apply scope_open_def
      current_candidate_def ok_or_def split: if_splits)

text \<open>C18: Once a child of a scope is resolved (accepted, discarded, replaced or rolled back), no later call
  makes it unresolved: it stays a resolved child of the scope, so that the scope never owns it as a joined, unresolved
  child again. From then on it cannot be retained as a failure of the scope, and a selector of the scope neither
  considers it nor accepts it. A closed scope stays closed with the children it had.\<close>

theorem settled_attempts_stay_settled:
  assumes "reachable_world gw w" and "i < length (aw_scopes w)" and "(attempt_step gw)\<^sup>*\<^sup>* w w'"
  shows "(\<forall>a\<in>set (child_names (scope_at i w)). resolved_in a (scope_at i w) \<longrightarrow>
      a \<in> set (child_names (scope_at i w')) \<and> resolved_in a (scope_at i w') \<and> \<not> owns_joined a (scope_at i w')
      \<and> (\<forall>out. ao_attempt out = a \<longrightarrow> \<not> is_ok (fst (retain_failure i out w')))
      \<and> (\<forall>k c. bs_scope (best_at k w') = i \<and> bc_attempt c = a \<longrightarrow> \<not> is_ok (fst (consider_candidate gw k c w')))
      \<and> (\<forall>k c parent. bs_scope (best_at k w') = i \<and> bs_current (best_at k w') = Some c \<and> bc_attempt c = a
          \<longrightarrow> \<not> is_ok (fst (accept_best gw k parent w'))))
    \<and> (sc_closed (scope_at i w) \<longrightarrow> sc_closed (scope_at i w')
        \<and> child_names (scope_at i w') = child_names (scope_at i w))"
proof -
  have "grown w w'" using attempt_steps_grown [OF assms(3)] reachable_world_ok [OF assms(1)] by simp
  then have grown: "scope_grown (scope_at i w) (scope_at i w')" using assms(2) by (simp add: grown_def)
  have settled: "a \<in> set (child_names (scope_at i w')) \<and> resolved_in a (scope_at i w') \<and> \<not> owns_joined a (scope_at i w')"
    if "a \<in> set (child_names (scope_at i w))" "resolved_in a (scope_at i w)" for a
    using grown that by (auto simp: scope_grown_def owns_joined_def resolved_in_def)
  have refused: "(\<forall>out. ao_attempt out = a \<longrightarrow> \<not> is_ok (fst (retain_failure i out w')))
      \<and> (\<forall>k c. bs_scope (best_at k w') = i \<and> bc_attempt c = a \<longrightarrow> \<not> is_ok (fst (consider_candidate gw k c w')))
      \<and> (\<forall>k c parent. bs_scope (best_at k w') = i \<and> bs_current (best_at k w') = Some c \<and> bc_attempt c = a
          \<longrightarrow> \<not> is_ok (fst (accept_best gw k parent w')))"
    if "\<not> owns_joined a (scope_at i w')" for a
    by (intro conjI allI impI settled_is_refused [OF that]) auto
  have "sc_closed (scope_at i w) \<longrightarrow> sc_closed (scope_at i w') \<and> child_names (scope_at i w') = child_names (scope_at i w)"
    using grown by (simp add: scope_grown_def)
  then show ?thesis using settled refused by blast
qed

definition discarded_world :: "unit attempt_world" where
  "discarded_world = snd (discard_attempt sample_gateway ''a'' ''not needed'' sample_world)"

lemma discarded_scope:
  "scope_at 0 discarded_world = \<lparr> sc_id = 0, sc_exit_policy = ''cancel_then_join'', sc_join_timeout_ms = 5000,
     sc_children = [\<lparr> ch_attempt = ''a'', ch_joined = True, ch_resolved = True \<rparr>,
       \<lparr> ch_attempt = ''b'', ch_joined = True, ch_resolved = False \<rparr>], sc_closed = False \<rparr>"
  "length (aw_scopes discarded_world) = 1"
  by (simp_all add: discarded_world_def discard_attempt_def sample_world_eq run_defs mark_all_resolved_def mark_resolved_def
      resolve_retained_failures_def)

theorem settled_attempts_stay_settled_witness:
  "owns_joined ''a'' (scope_at 0 sample_world)
   \<and> \<not> owns_joined ''a'' (scope_at 0 (snd (join_attempt sample_gateway ''a'' None discarded_world)))"
proof -
  have "reachable_world sample_gateway discarded_world" unfolding discarded_world_def
    by (intro reachable_world.step [OF sample_world_reachable attempt_step.discards])
  moreover have "owns_joined ''a'' (scope_at 0 sample_world)"
    by (simp add: sample_world_eq scope_at_def owns_joined_def)
  moreover have "''a'' \<in> set (child_names (scope_at 0 discarded_world))" "resolved_in ''a'' (scope_at 0 discarded_world)"
    "0 < length (aw_scopes discarded_world)"
    by (simp_all add: discarded_scope child_names_def resolved_in_def)
  moreover have "(attempt_step sample_gateway)\<^sup>*\<^sup>* discarded_world (snd (join_attempt sample_gateway ''a'' None discarded_world))"
    by (intro r_into_rtranclp attempt_step.joins)
  ultimately show ?thesis using settled_attempts_stay_settled by blast
qed

end
