(* ===== verification/F64_Order.thy ===== *)
theory F64_Order
  imports Json Complex_Main
begin

text \<open>The order of floats that are not NaN is the order of the extended reals they stand for.\<close>

section \<open>Finite floats\<close>

fun f64_real :: "f64 \<Rightarrow> real" where
  "f64_real (F_Fin s m e) = of_int (signed_mantissa s m) * 2 powi e"
| "f64_real x = 0"

lemma align_real: "g \<le> e \<Longrightarrow> of_int (align z e g) = of_int z * (2::real) powi e / 2 powi g"
proof -
  assume "g \<le> e"
  then have "(2::real) powi (e - g) = 2 ^ nat (e - g)" by (simp add: power_int_def)
  then have "(2::real) ^ nat (e - g) = 2 powi e / 2 powi g" by (simp add: power_int_diff)
  then show ?thesis by (simp add: align_def)
qed

lemma f64_cmp_real:
  "f64_partial_cmp (F_Fin s m e) (F_Fin t n f) = Some
     (if f64_real (F_Fin s m e) < f64_real (F_Fin t n f) then OLess
      else if f64_real (F_Fin s m e) = f64_real (F_Fin t n f) then OEqual else OGreater)"
proof -
  let ?g = "min e f"
  let ?a = "align (signed_mantissa s m) e ?g" and ?b = "align (signed_mantissa t n) f ?g"
  have pos: "(0::real) < 2 powi ?g" by simp
  have a: "f64_real (F_Fin s m e) = of_int ?a * 2 powi ?g" and b: "f64_real (F_Fin t n f) = of_int ?b * 2 powi ?g"
    using pos by (simp_all add: align_real)
  have "f64_real (F_Fin s m e) < f64_real (F_Fin t n f) \<longleftrightarrow> ?a < ?b"
    unfolding a b using pos by (simp add: mult_less_cancel_right_pos)
  moreover have "f64_real (F_Fin s m e) = f64_real (F_Fin t n f) \<longleftrightarrow> ?a = ?b"
    unfolding a b using pos by simp
  ultimately show ?thesis by (simp add: f64_partial_cmp_def Let_def int_cmp_def)
qed

lemma f64_lt_real:
  assumes "f64_finite x" and "f64_finite y"
  shows "f64_lt x y \<longleftrightarrow> f64_real x < f64_real y"
proof -
  obtain s m e t n f where "x = F_Fin s m e" "y = F_Fin t n f"
    using assms by (cases x; cases y) (auto simp: f64_finite_def)
  then show ?thesis by (simp add: f64_lt_def f64_cmp_real)
qed

section \<open>All floats but NaN\<close>

text \<open>An infinity comes before or after all finite floats.\<close>

fun f64_rank :: "f64 \<Rightarrow> int \<times> real" where
  "f64_rank (F_Inf s) = (if s then (- 1, 0) else (1, 0))"
| "f64_rank x = (0, f64_real x)"

definition rank_le :: "int \<times> real \<Rightarrow> int \<times> real \<Rightarrow> bool" where
  "rank_le a b \<longleftrightarrow> fst a < fst b \<or> fst a = fst b \<and> snd a \<le> snd b"

lemma f64_cmp_rank:
  assumes "x \<noteq> F_NaN" and "y \<noteq> F_NaN"
  shows "\<exists>c. f64_partial_cmp x y = Some c \<and> (c \<noteq> OGreater \<longleftrightarrow> rank_le (f64_rank x) (f64_rank y))
     \<and> (c \<noteq> OLess \<longleftrightarrow> rank_le (f64_rank y) (f64_rank x))"
proof (cases x)
  case (F_Fin s m e)
  then show ?thesis using assms f64_cmp_real
    by (cases y) (auto simp: f64_partial_cmp_def [of "F_Fin _ _ _" "F_Inf _"] rank_le_def)
next
  case (F_Inf s)
  then show ?thesis using assms by (cases y) (auto simp: f64_partial_cmp_def rank_le_def)
qed (use assms in simp)

lemma rank_le_linear:
  "rank_le a b \<Longrightarrow> rank_le b c \<Longrightarrow> rank_le a c" "rank_le a b \<or> rank_le b a"
  by (auto simp: rank_le_def)

end
