(* ===== verification/Attempt_Select.thy ===== *)
theory Attempt_Select
  imports Attempt_Settled F64_Order
begin

text \<open>The selector of the best candidate refines its specification: of the candidates it considered it holds
  the first one that no other beats, and every other one is resolved.\<close>

section \<open>The order of finite scores\<close>

definition score_real :: "best_objective \<Rightarrow> best_candidate \<Rightarrow> real" where
  "score_real ob c = (case ob of Maximize \<Rightarrow> f64_real (bc_score c) | Minimize \<Rightarrow> - f64_real (bc_score c))"

lemma prefers_real:
  assumes "f64_finite (bc_score c)" and "f64_finite (bc_score d)"
  shows "prefers ob (bc_score c) (bc_score d) \<longleftrightarrow> score_real ob d < score_real ob c"
  using assms by (cases ob) (simp_all add: prefers_def score_real_def f64_lt_real)

section \<open>The specification\<close>

definition unbeaten :: "best_objective \<Rightarrow> best_candidate list \<Rightarrow> best_candidate \<Rightarrow> bool" where
  "unbeaten ob cs c \<longleftrightarrow> (\<forall>d\<in>set cs. \<not> prefers ob (bc_score d) (bc_score c))"

definition first_best :: "best_objective \<Rightarrow> best_candidate list \<Rightarrow> best_candidate option" where
  "first_best ob cs = find (unbeaten ob cs) cs"

definition all_finite :: "best_candidate list \<Rightarrow> bool" where
  "all_finite cs \<longleftrightarrow> (\<forall>c\<in>set cs. f64_finite (bc_score c))"

lemma unbeaten_real:
  "all_finite cs \<Longrightarrow> c \<in> set cs \<Longrightarrow> unbeaten ob cs c \<longleftrightarrow> (\<forall>d\<in>set cs. score_real ob d \<le> score_real ob c)"
  by (auto simp: unbeaten_def all_finite_def prefers_real not_less)

lemma find_append: "find P (xs @ ys) = (case find P xs of Some x \<Rightarrow> Some x | None \<Rightarrow> find P ys)"
  by (induction xs) auto

lemma find_cong_set: "(\<And>x. x \<in> set xs \<Longrightarrow> P x = Q x) \<Longrightarrow> find P xs = find Q xs"
  by (induction xs) auto

lemma first_best_exists:
  assumes "all_finite cs" and "cs \<noteq> []"
  shows "\<exists>b. first_best ob cs = Some b"
proof -
  have "\<exists>b\<in>set cs. \<forall>d\<in>set cs. score_real ob d \<le> score_real ob b"
  proof -
    have "Max (score_real ob ` set cs) \<in> score_real ob ` set cs" using assms(2) by (intro Max_in) auto
    then obtain b where "b \<in> set cs" "score_real ob b = Max (score_real ob ` set cs)" by auto
    then show ?thesis by (metis Max_ge finite_imageI finite_set imageI)
  qed
  then show ?thesis
    using assms(1) by (auto simp: first_best_def unbeaten_real find_None_iff simp flip: not_None_eq)
qed

lemma first_best_SomeD:
  assumes "all_finite cs" and "first_best ob cs = Some b"
  shows "b \<in> set cs" and "\<forall>d\<in>set cs. score_real ob d \<le> score_real ob b"
proof -
  show "b \<in> set cs" using assms(2) by (auto simp: first_best_def find_Some_iff)
  have "unbeaten ob cs b" using assms(2) by (auto simp: first_best_def find_Some_iff)
  then show "\<forall>d\<in>set cs. score_real ob d \<le> score_real ob b"
    using assms(1) \<open>b \<in> set cs\<close> by (simp add: unbeaten_real)
qed

text \<open>How the first optimum changes when a candidate is added: this is the decision of the selector.\<close>

lemma first_best_snoc:
  assumes "all_finite (cs @ [c])"
  shows "first_best ob (cs @ [c]) = (case first_best ob cs of
     None \<Rightarrow> Some c
   | Some b \<Rightarrow> Some (if prefers ob (bc_score c) (bc_score b) then c else b))"
proof (cases "cs = []")
  case True
  then show ?thesis using assms by (simp add: first_best_def unbeaten_real all_finite_def)
next
  case False
  have fin: "all_finite cs" "f64_finite (bc_score c)" using assms by (auto simp: all_finite_def)
  obtain b where b: "first_best ob cs = Some b" using first_best_exists [OF fin(1) False] by blast
  note bD = first_best_SomeD [OF fin(1) b]
  have pref: "prefers ob (bc_score c) (bc_score b) \<longleftrightarrow> score_real ob b < score_real ob c"
    using fin bD(1) by (intro prefers_real) (auto simp: all_finite_def)
  show ?thesis
  proof (cases "score_real ob b < score_real ob c")
    case True
    then have "\<forall>d\<in>set cs. \<not> unbeaten ob (cs @ [c]) d"
      using bD(2) assms by (fastforce simp: unbeaten_real)
    then have "find (unbeaten ob (cs @ [c])) cs = None" by (simp add: find_None_iff)
    moreover have "unbeaten ob (cs @ [c]) c"
      using True bD(2) assms by (fastforce simp: unbeaten_real)
    ultimately show ?thesis using True b pref by (simp add: first_best_def find_append)
  next
    case False
    then have "unbeaten ob (cs @ [c]) d = unbeaten ob cs d" if "d \<in> set cs" for d
      using that bD assms fin by (fastforce simp: unbeaten_real)
    then have "find (unbeaten ob (cs @ [c])) cs = Some b"
      using b find_cong_set [of cs "unbeaten ob (cs @ [c])" "unbeaten ob cs"] by (simp add: first_best_def)
    then show ?thesis using False b pref by (simp add: first_best_def find_append)
  qed
qed


section \<open>The refinement\<close>

text \<open>What a selector stands for after it considered the candidates \<open>cs\<close>.\<close>

definition selects :: "'g attempt_world \<Rightarrow> nat \<Rightarrow> best_candidate list \<Rightarrow> bool" where
  "selects w k cs \<longleftrightarrow> k < length (aw_bests w) \<and> (let b = best_at k w; s = scope_at (bs_scope b) w in
     bs_lifecycle b = BestOpen \<and> bs_current b = first_best (bs_objective b) cs
     \<and> bs_considered b = min (length cs) 18446744073709551615
     \<and> all_finite cs \<and> distinct (List.map bc_attempt cs)
     \<and> (\<forall>c\<in>set cs. bc_attempt c \<in> set (child_names s)
          \<and> (Some c \<noteq> bs_current b \<longrightarrow> resolved_in (bc_attempt c) s)))"

lemma selects_grown:
  assumes "selects w k cs" and "world_ok w" and "grown w w'" and "best_at k w' = best_at k w"
    and "length (aw_bests w) \<le> length (aw_bests w')"
  shows "selects w' k cs"
proof -
  have "bs_scope (best_at k w) < length (aw_scopes w)"
    using assms(1,2) world_ok_best_at [of w k] by (simp add: selects_def best_ok_def)
  then have "scope_grown (scope_at (bs_scope (best_at k w)) w) (scope_at (bs_scope (best_at k w)) w')"
    using assms(3) by (simp add: grown_def)
  then show ?thesis
    using assms(1,4,5) unfolding selects_def Let_def scope_grown_def by auto
qed

lemma consider_candidate_Inr:
  assumes "consider_candidate gw k c w = (Inr v, w')"
  obtains plan where "f64_finite (bc_score c)" and "succeeded (bc_outcome c)"
    and "owns_joined (bc_attempt c) (scope_at (bs_scope (best_at k w)) w)"
    and "best_plan_for (bc_score c) (best_at k w) = Inr plan" and "follow_plan gw k c plan w = (Inr v, w')"
  using assms
  by (auto simp: consider_candidate_def act_then_def scope_open_def Let_def split: if_splits sum.splits prod.splits)

lemma decide_world: "decide k c b r d w = (Inr v, w') \<Longrightarrow> w' = w"
  by (simp add: decide_def act_then_apply)

lemma discard_loser_world:
  "discard_loser gw a r w = (Inr u, w') \<Longrightarrow> \<exists>g. w' = mark_all_resolved a (w\<lparr> aw_gateway := g \<rparr>)"
  by (auto simp: discard_loser_def act_then_def act_gateway_def split: prod.splits sum.splits)

lemma update_best_world:
  "update_best k f w = (Inr u, w') \<Longrightarrow> \<exists>b. f (best_at k w) = Inr b \<and> w' = put_best k b w"
  by (auto simp: update_best_def act_then_def split: sum.splits)

text \<open>The three ways a considered candidate is settled.\<close>

lemma follow_plan_Inr:
  assumes "follow_plan gw k c plan w = (Inr v, w')"
  shows "case plan of
      Retain \<Rightarrow> \<exists>b. retain_candidate c False (best_at k w) = Inr b \<and> w' = put_best k b w
    | Replace d \<Rightarrow> bc_attempt d \<noteq> bc_attempt c \<and> (\<exists>b g. retain_candidate c True (best_at k w) = Inr b
        \<and> w' = put_best k b (mark_all_resolved (bc_attempt d) (w\<lparr> aw_gateway := g \<rparr>)))
    | Reject d \<Rightarrow> bc_attempt d \<noteq> bc_attempt c \<and> (\<exists>b g. record_rejected (best_at k w) = Inr b
        \<and> w' = put_best k b (mark_all_resolved (bc_attempt c) (w\<lparr> aw_gateway := g \<rparr>)))"
  using assms
  by (auto simp: follow_plan_def considered_twice_def act_then_def split: best_plan.splits if_splits prod.splits sum.splits
      dest!: decide_world discard_loser_world update_best_world)

lemma best_at_put: "k < length (aw_bests w) \<Longrightarrow> best_at k (put_best k b w) = b"
  by (simp add: best_at_def put_best_def)

lemma put_best_frame [simp]:
  "scope_at i (put_best k b w) = scope_at i w" "length (aw_bests (put_best k b w)) = length (aw_bests w)"
  by (simp_all add: put_best_def scope_at_def)

lemma scope_at_mark_all: "i < length (aw_scopes w) \<Longrightarrow> scope_at i (mark_all_resolved a w) = mark_resolved a (scope_at i w)"
  by (simp add: scope_at_def mark_all_resolved_def)

lemma resolved_not_owned: "resolved_in a s \<Longrightarrow> \<not> owns_joined a s"
  by (auto simp: resolved_in_def owns_joined_def)

lemma owned_child: "owns_joined a s \<Longrightarrow> a \<in> set (child_names s)"
  by (auto simp: owns_joined_def child_names_def)

lemma child_names_mark [simp]: "child_names (mark_resolved a s) = child_names s"
  using marked_resolved [of s a] by (simp add: child_names_def marked_def)


lemma considered_is_new:
  assumes "selects w k cs" and "owns_joined (bc_attempt c) (scope_at (bs_scope (best_at k w)) w)"
    and "best_plan_for (bc_score c) (best_at k w) = Inr plan"
    and "\<And>d. plan = Replace d \<or> plan = Reject d \<Longrightarrow> bc_attempt d \<noteq> bc_attempt c"
  shows "bc_attempt c \<notin> set (List.map bc_attempt cs)"
proof -
  have "bc_attempt d \<noteq> bc_attempt c" if d: "d \<in> set cs" for d
  proof (cases "Some d = bs_current (best_at k w)")
    case True
    then have "plan = Replace d \<or> plan = Reject d"
      using assms(3) True [symmetric] by (auto simp: best_plan_for_def split: if_splits)
    then show ?thesis by (rule assms(4))
  next
    case False
    then have "resolved_in (bc_attempt d) (scope_at (bs_scope (best_at k w)) w)"
      using assms(1) d by (auto simp: selects_def Let_def)
    then show ?thesis using assms(2) resolved_not_owned by metis
  qed
  then show ?thesis by force
qed

text \<open>The new state of the selector, whatever the plan.\<close>

lemma plan_is_first_best:
  assumes "selects w k cs" and "all_finite (cs @ [c])"
    and "best_plan_for (bc_score c) (best_at k w) = Inr plan"
  shows "first_best (bs_objective (best_at k w)) (cs @ [c])
    = (case plan of Retain \<Rightarrow> Some c | Replace d \<Rightarrow> Some c | Reject d \<Rightarrow> Some d)"
  using assms by (auto simp: first_best_snoc selects_def Let_def best_plan_for_def split: if_splits option.splits)

lemma plan_current:
  assumes "best_plan_for x b = Inr plan"
  shows "bs_lifecycle b = BestOpen"
    and "bs_current b = (case plan of Retain \<Rightarrow> None | Replace d \<Rightarrow> Some d | Reject d \<Rightarrow> Some d)"
  using assms by (auto simp: best_plan_for_def split: if_splits option.splits)

lemma selects_intro:
  assumes old: "selects w k cs" and ok: "world_ok w"
    and fin: "f64_finite (bc_score c)" and owned: "owns_joined (bc_attempt c) (scope_at (bs_scope (best_at k w)) w)"
    and new: "bc_attempt c \<notin> set (List.map bc_attempt cs)"
    and w1: "grown w w1" "best_at k w1 = best_at k w" "length (aw_bests w1) = length (aw_bests w)"
    and b: "bs_scope b = bs_scope (best_at k w)" "bs_objective b = bs_objective (best_at k w)"
      "bs_lifecycle b = BestOpen" "bs_considered b = saturating_succ (bs_considered (best_at k w))"
      "bs_current b = first_best (bs_objective (best_at k w)) (cs @ [c])"
    and losers: "\<And>d. d \<in> set (cs @ [c]) \<Longrightarrow> Some d = bs_current (best_at k w) \<or> d = c \<Longrightarrow>
      Some d \<noteq> bs_current b \<Longrightarrow> resolved_in (bc_attempt d) (scope_at (bs_scope b) w1)"
  shows "selects (put_best k b w1) k (cs @ [c])"
proof -
  have k: "k < length (aw_bests w)" using old by (simp add: selects_def)
  let ?s = "scope_at (bs_scope (best_at k w)) w" and ?s1 = "scope_at (bs_scope (best_at k w)) w1"
  have "bs_scope (best_at k w) < length (aw_scopes w)"
    using world_ok_best_at [OF ok k] by (simp add: best_ok_def)
  then have grown: "scope_grown ?s ?s1" using w1(1) by (simp add: grown_def)
  have "bc_attempt d \<in> set (child_names ?s1)" if "d \<in> set (cs @ [c])" for d
    using that old owned_child [OF owned] grown by (auto simp: selects_def Let_def scope_grown_def)
  moreover have "resolved_in (bc_attempt d) ?s1" if "d \<in> set (cs @ [c])" "Some d \<noteq> bs_current b" for d
  proof (cases "Some d = bs_current (best_at k w) \<or> d = c")
    case True
    then show ?thesis using losers [OF that(1)] that(2) b(1) by simp
  next
    case False
    then show ?thesis using that(1) old grown by (auto simp: selects_def Let_def scope_grown_def)
  qed
  ultimately show ?thesis
    using old fin new b k w1(3)
    by (auto simp: selects_def Let_def best_at_put all_finite_def saturating_succ_def)
qed

lemma selects_step:
  assumes old: "selects w k cs" and ok: "world_ok w" and run: "consider_candidate gw k c w = (Inr v, w')"
  shows "selects w' k (cs @ [c])"
proof -
  let ?b = "best_at k w"
  obtain plan where fin: "f64_finite (bc_score c)" and owned: "owns_joined (bc_attempt c) (scope_at (bs_scope ?b) w)"
    and plan: "best_plan_for (bc_score c) ?b = Inr plan" and follow: "follow_plan gw k c plan w = (Inr v, w')"
    by (rule consider_candidate_Inr [OF run])
  note effect = follow_plan_Inr [OF follow]
  have new: "bc_attempt c \<notin> set (List.map bc_attempt cs)"
    using effect by (intro considered_is_new [OF old owned plan]) (auto split: best_plan.splits)
  have k: "k < length (aw_bests w)" using old by (simp add: selects_def)
  have i: "bs_scope ?b < length (aw_scopes w)" using world_ok_best_at [OF ok k] by (simp add: best_ok_def)
  have distinct: "distinct (List.map ch_attempt (sc_children (scope_at (bs_scope ?b) w)))"
    using world_ok_scope_at [OF ok i] by (simp add: scope_ok_def)
  have best: "first_best (bs_objective ?b) (cs @ [c])
      = (case plan of Retain \<Rightarrow> Some c | Replace d \<Rightarrow> Some c | Reject d \<Rightarrow> Some d)"
    using old fin by (intro plan_is_first_best [OF old _ plan]) (auto simp: all_finite_def selects_def Let_def)
  note intro = selects_intro [OF old ok fin owned new]
  have marks: "grown w (mark_all_resolved a (w\<lparr> aw_gateway := g \<rparr>))"
    "best_at k (mark_all_resolved a (w\<lparr> aw_gateway := g \<rparr>)) = ?b"
    "resolved_in a (scope_at (bs_scope ?b) (mark_all_resolved a (w\<lparr> aw_gateway := g \<rparr>)))" for a g
    using grown_marks(2) [of "w\<lparr> aw_gateway := g \<rparr>" a] i distinct
    by (simp_all add: scope_at_mark_all resolved_in_marked grown_def)
  note current = plan_current [OF plan]
  show ?thesis
  proof (cases plan)
    case Retain
    then obtain b where "retain_candidate c False ?b = Inr b" "w' = put_best k b w" using effect by auto
    then show ?thesis using Retain current best
      by (auto simp: retain_candidate_def split: if_splits intro!: intro)
  next
    case (Replace d)
    then obtain b g where "retain_candidate c True ?b = Inr b"
      "w' = put_best k b (mark_all_resolved (bc_attempt d) (w\<lparr> aw_gateway := g \<rparr>))" using effect by auto
    then show ?thesis using Replace current best
      by (auto simp: retain_candidate_def split: if_splits intro!: intro marks)
  next
    case (Reject d)
    then obtain b g where "record_rejected ?b = Inr b"
      "w' = put_best k b (mark_all_resolved (bc_attempt c) (w\<lparr> aw_gateway := g \<rparr>))" using effect by auto
    then show ?thesis using Reject current best
      by (auto simp: record_rejected_def split: if_splits intro!: intro marks)
  qed
qed


text \<open>The life of selector \<open>k\<close> since it was opened: it considers candidates one after the other, and between them
  the evaluation does anything that leaves the selector alone.\<close>

inductive selection_run :: "'g gateway \<Rightarrow> nat \<Rightarrow> best_candidate list \<Rightarrow> 'g attempt_world \<Rightarrow> bool" for gw k where
  opened: "reachable_world gw w \<Longrightarrow> open_selector i ob w = (Inr (ABest k), w') \<Longrightarrow> i < length (aw_scopes w)
     \<Longrightarrow> selection_run gw k [] w'"
| considered: "selection_run gw k cs w \<Longrightarrow> consider_candidate gw k c w = (Inr v, w')
     \<Longrightarrow> selection_run gw k (cs @ [c]) w'"
| other: "selection_run gw k cs w \<Longrightarrow> attempt_step gw w w' \<Longrightarrow> best_at k w' = best_at k w
     \<Longrightarrow> length (aw_bests w) \<le> length (aw_bests w') \<Longrightarrow> selection_run gw k cs w'"

lemma open_selector_Inr:
  assumes "open_selector i ob w = (Inr (ABest k), w')"
  shows "\<exists>n ob'. k < length (aw_bests w') \<and> best_at k w' = new_best n i ob'"
  using assms
  by (auto simp: open_selector_def act_then_def scope_open_def fresh_id_def best_at_def split: if_splits sum.splits) blast+

lemma selection_run_selects: "selection_run gw k cs w \<Longrightarrow> world_ok w \<and> selects w k cs"
proof (induction rule: selection_run.induct)
  case (opened w i ob w')
  then have "world_ok w'" using open_selector_ok [OF reachable_world_ok, of gw w i ob] by simp
  moreover have "selects w' k []"
    using open_selector_Inr [OF opened(2)]
    by (auto simp: selects_def Let_def new_best_def first_best_def all_finite_def)
  ultimately show ?case by simp
next
  case (considered cs w c v w')
  then have "k < length (aw_bests w)" by (simp add: selects_def)
  then show ?case using considered consider_candidate_ok [of w k gw c] selects_step by auto
next
  case (other cs w w')
  then show ?case using attempt_step_ok attempt_step_grown selects_grown by metis
qed

text \<open>C5: The selector refines its specification. Whatever happens between its calls, after it considered the
  candidates \<open>cs\<close> an open selector holds the first of them that no other candidate beats in the direction of
  its objective, it has counted them, and every other candidate is a resolved child of its scope; no attempt
  was considered twice. What it accepts in the end is that first optimum.\<close>

theorem selector_holds_first_optimum:
  assumes "selection_run gw k cs w"
  shows "bs_current (best_at k w) = first_best (bs_objective (best_at k w)) cs
    \<and> bs_considered (best_at k w) = min (length cs) 18446744073709551615
    \<and> distinct (List.map bc_attempt cs)
    \<and> (\<forall>c\<in>set cs. Some c \<noteq> first_best (bs_objective (best_at k w)) cs
        \<longrightarrow> resolved_in (bc_attempt c) (scope_at (bs_scope (best_at k w)) w))
    \<and> (\<forall>p a w'. accept_best gw k p w = (Inr (AAcceptance a), w')
        \<longrightarrow> (\<exists>c. first_best (bs_objective (best_at k w)) cs = Some c \<and> aa_attempt a = bc_attempt c))"
proof -
  have s: "selects w k cs" using selection_run_selects [OF assms] by simp
  have "\<exists>c. bs_current (best_at k w) = Some c \<and> aa_attempt a = bc_attempt c"
    if "accept_best gw k p w = (Inr (AAcceptance a), w')" for p a w'
    using that
    by (auto simp: accept_best_def act_then_def scope_open_def current_candidate_def new_acceptance_def and_then_eq_Inr
        ok_or_def Let_def split: if_splits sum.splits prod.splits option.splits)
  then show ?thesis using s unfolding selects_def Let_def by auto
qed


section \<open>An example run\<close>

definition sample_candidate :: "string \<Rightarrow> int \<Rightarrow> best_candidate" where
  "sample_candidate a score = \<lparr> bc_outcome = attempt_outcome_value a finished_record, bc_score = F_Fin False score 0,
     bc_summary = ''done'', bc_evidence = [''log''], bc_artifacts = [] \<rparr>"

definition sample_scope :: "bool \<Rightarrow> attempt_scope" where
  "sample_scope resolved = \<lparr> sc_id = 0, sc_exit_policy = ''cancel_then_join'', sc_join_timeout_ms = 5000,
     sc_children = [\<lparr> ch_attempt = ''a'', ch_joined = True, ch_resolved = resolved \<rparr>,
       \<lparr> ch_attempt = ''b'', ch_joined = True, ch_resolved = False \<rparr>], sc_closed = False \<rparr>"

definition sample_best :: "nat \<Rightarrow> nat \<Rightarrow> best_candidate option \<Rightarrow> attempt_best" where
  "sample_best n r c = \<lparr> bs_selection_id = 1, bs_scope = 0, bs_objective = Maximize, bs_considered = n,
     bs_replacements = r, bs_lifecycle = BestOpen, bs_current = c, bs_final_attempt = None, bs_final_score = None \<rparr>"

definition selection_state :: "bool \<Rightarrow> attempt_best \<Rightarrow> unit attempt_world" where
  "selection_state resolved b = (empty_world ())\<lparr> aw_next_callable := 2, aw_scopes := [sample_scope resolved], aw_bests := [b] \<rparr>"

lemma sample_parts [simp]:
  "best_at 0 (selection_state r b) = b" "scope_at 0 (selection_state r b) = sample_scope r"
  "aw_bests (selection_state r b) = [b]"
  "put_best 0 b' (selection_state r b) = selection_state r b'"
  "mark_all_resolved ''a'' (selection_state r b) = selection_state True b"
  "(selection_state r b)\<lparr> aw_gateway := g \<rparr> = selection_state r b"
  "\<not> sc_closed (sample_scope r)" "owns_joined ''b'' (sample_scope r)" "owns_joined ''a'' (sample_scope False)"
  by (simp_all add: selection_state_def best_at_def scope_at_def put_best_def mark_all_resolved_def sample_scope_def
      mark_resolved_def owns_joined_def empty_world_def)

lemma sample_candidate_parts [simp]:
  "bc_attempt (sample_candidate a m) = a" "bc_score (sample_candidate a m) = F_Fin False m 0"
  "bc_summary (sample_candidate a m) = ''done''" "bc_evidence (sample_candidate a m) = [''log'']"
  "succeeded (bc_outcome (sample_candidate a m))" "f64_finite (F_Fin False m 0)"
  by (simp_all add: sample_candidate_def attempt_outcome_value_def Let_def succeeded_def finished_record_def
      attempt_metadata_string_def attempt_record_field_def record_get_def nu_str_def attempt_controller_state_def
      attempt_fields_def controller_finished_def unwrap_or_def f64_finite_def)

lemma sample_opened:
  "open_selector 0 ''max'' sample_world = (Inr (ABest 0), selection_state False (sample_best 0 0 None))"
  by (simp add: sample_world_eq open_selector_def scope_open_def act_then_apply scope_at_def parse_objective_def
      fresh_id_def new_best_def selection_state_def sample_best_def sample_scope_def empty_world_def)

lemma sample_first:
  "\<exists>v. consider_candidate sample_gateway 0 (sample_candidate ''a'' 1) (selection_state False (sample_best 0 0 None))
     = (Inr v, selection_state False (sample_best 1 0 (Some (sample_candidate ''a'' 1))))"
  by (simp add: consider_candidate_def Let_def act_then_apply scope_open_def sample_best_def best_plan_for_def
      follow_plan_def update_best_def retain_candidate_def saturating_succ_def decide_def)

lemma sample_second:
  "\<exists>v. consider_candidate sample_gateway 0 (sample_candidate ''b'' 2)
       (selection_state False (sample_best 1 0 (Some (sample_candidate ''a'' 1))))
     = (Inr v, selection_state True (sample_best 2 1 (Some (sample_candidate ''b'' 2))))"
  by (simp add: consider_candidate_def Let_def act_then_apply scope_open_def sample_best_def best_plan_for_def
      follow_plan_def update_best_def retain_candidate_def saturating_succ_def decide_def prefers_def f64_lt_def
      f64_partial_cmp_def int_cmp_def align_def signed_mantissa_def considered_twice_def discard_loser_def
      act_gateway_def sample_gateway_def numeral_2_eq_2)

lemma sample_selection_run:
  "selection_run sample_gateway 0 [sample_candidate ''a'' 1, sample_candidate ''b'' 2]
     (selection_state True (sample_best 2 1 (Some (sample_candidate ''b'' 2))))"
proof -
  have "0 < length (aw_scopes sample_world)" by (simp add: sample_world_eq)
  then have "selection_run sample_gateway 0 [] (selection_state False (sample_best 0 0 None))"
    by (rule selection_run.opened [OF sample_world_reachable sample_opened])
  then have "selection_run sample_gateway 0 ([] @ [sample_candidate ''a'' 1])
      (selection_state False (sample_best 1 0 (Some (sample_candidate ''a'' 1))))"
    using sample_first by (blast intro: selection_run.considered)
  then have "selection_run sample_gateway 0 (([] @ [sample_candidate ''a'' 1]) @ [sample_candidate ''b'' 2])
      (selection_state True (sample_best 2 1 (Some (sample_candidate ''b'' 2))))"
    using sample_second by (blast intro: selection_run.considered)
  then show ?thesis by simp
qed

theorem selector_holds_first_optimum_witness:
  "first_best Maximize [sample_candidate ''a'' 1, sample_candidate ''b'' 2] = Some (sample_candidate ''b'' 2)
   \<and> resolved_in ''a'' (sample_scope True)"
proof -
  have "sample_candidate ''a'' 1 \<noteq> sample_candidate ''b'' 2"
    by (simp add: sample_candidate_def attempt_outcome_value_def Let_def)
  note distinct = this
  let ?first = "first_best Maximize [sample_candidate ''a'' 1, sample_candidate ''b'' 2]"
  have parts: "bs_current (sample_best n r c) = c" "bs_objective (sample_best n r c) = Maximize"
    "bs_scope (sample_best n r c) = 0" for n r c
    by (simp_all add: sample_best_def)
  note claim = selector_holds_first_optimum [OF sample_selection_run, unfolded sample_parts parts]
  have first: "?first = Some (sample_candidate ''b'' 2)" using claim by (elim conjE) (erule sym)
  have "\<forall>c\<in>set [sample_candidate ''a'' 1, sample_candidate ''b'' 2].
      Some c \<noteq> ?first \<longrightarrow> resolved_in (bc_attempt c) (sample_scope True)"
    using claim by (elim conjE)
  then have "resolved_in (bc_attempt (sample_candidate ''a'' 1)) (sample_scope True)"
    using distinct by (simp add: first)
  then show ?thesis using first by simp
qed

end
