(* ===== verification/Attempt_Endings.thy ===== *)
theory Attempt_Endings
  imports Attempt_Correct
begin

text \<open>The end of an evaluation. The cleanup succeeds exactly if it left nothing open, whatever the gateway
  answers, and it does succeed if the gateway answers its calls.\<close>

section \<open>Releasing the frontiers\<close>

definition released_at :: "nat \<Rightarrow> 'g attempt_world \<Rightarrow> bool" where
  "released_at i w \<longleftrightarrow> sf_released (frontier_at i w)"

lemma release_frontier_effect:
  assumes "release_frontier gw i mark_released_by_cleanup w = (r, w')" and "i < length (aw_frontiers w)"
  shows "released_at i w' \<longleftrightarrow> is_ok r" and "j \<noteq> i \<Longrightarrow> frontier_at j w' = frontier_at j w"
    and "length (aw_frontiers w') = length (aw_frontiers w)" and "aw_tracked w' = aw_tracked w"
  using assms
  by (auto simp: release_frontier_def act_then_apply act_gateway_def put_frontier_def frontier_at_def released_at_def
      is_ok_def mark_released_by_cleanup_def split: if_splits prod.splits sum.splits)

lemma release_at_end_effect:
  assumes "release_at_end gw i (ids, w) = (ids', w')" and "i < length (aw_frontiers w)"
  shows "ids' = [] \<longleftrightarrow> ids = [] \<and> released_at i w'" and "j \<noteq> i \<Longrightarrow> frontier_at j w' = frontier_at j w"
    and "length (aw_frontiers w') = length (aw_frontiers w)" and "aw_tracked w' = aw_tracked w"
proof -
  obtain r w1 where run: "release_frontier gw i mark_released_by_cleanup w = (r, w1)" by force
  note eff = release_frontier_effect [OF run assms(2)]
  show "ids' = [] \<longleftrightarrow> ids = [] \<and> released_at i w'" "j \<noteq> i \<Longrightarrow> frontier_at j w' = frontier_at j w"
    "length (aw_frontiers w') = length (aw_frontiers w)" "aw_tracked w' = aw_tracked w"
    using assms(1) run eff by (auto simp: release_at_end_def is_ok_def split: sum.splits)
qed

lemma release_all_effect:
  assumes "fold (release_at_end gw) xs (ids, w) = (ids', w')"
    and "distinct xs" and "\<forall>i\<in>set xs. i < length (aw_frontiers w)"
  shows "(ids' = [] \<longleftrightarrow> ids = [] \<and> (\<forall>i\<in>set xs. released_at i w'))
    \<and> (\<forall>j. j \<notin> set xs \<longrightarrow> frontier_at j w' = frontier_at j w) \<and> aw_tracked w' = aw_tracked w"
  using assms
proof (induction xs arbitrary: ids w)
  case (Cons i xs)
  obtain ids1 w1 where 1: "release_at_end gw i (ids, w) = (ids1, w1)" by force
  note eff = release_at_end_effect [OF 1]
  have IH: "(ids' = [] \<longleftrightarrow> ids1 = [] \<and> (\<forall>i\<in>set xs. released_at i w'))
      \<and> (\<forall>j. j \<notin> set xs \<longrightarrow> frontier_at j w' = frontier_at j w1) \<and> aw_tracked w' = aw_tracked w1"
    using Cons.prems 1 eff(3) by (intro Cons.IH) auto
  moreover have "released_at i w' = released_at i w1" using IH Cons.prems(2) by (simp add: released_at_def)
  ultimately show ?case using eff Cons.prems(3) by auto
qed simp

lemma release_open_effect:
  assumes "world_ok w" and "release_open_semantic_frontiers gw w = (r, w')"
  shows "is_ok r \<longleftrightarrow> (\<forall>i\<in>set (aw_tracked w). released_at i w')" and "aw_tracked w' = aw_tracked w"
proof -
  obtain ids w1 where 1: "fold (release_at_end gw) (aw_tracked w) ([], w) = (ids, w1)" by force
  note eff = release_all_effect [OF 1]
  show "is_ok r \<longleftrightarrow> (\<forall>i\<in>set (aw_tracked w). released_at i w')" "aw_tracked w' = aw_tracked w"
    using assms 1 eff by (auto simp: release_open_semantic_frontiers_def is_ok_def world_ok_def split: if_splits)
qed

section \<open>The cleanup\<close>

lemma combine_is_ok [simp]: "is_ok (combine_cleanup_results r s) \<longleftrightarrow> is_ok r \<and> is_ok s"
  by (auto simp: combine_cleanup_results_def is_ok_def split: sum.splits)

definition all_closed :: "'g attempt_world \<Rightarrow> bool" where
  "all_closed w \<longleftrightarrow> (\<forall>s\<in>set (aw_scopes w). sc_closed s)"

lemma all_closed_at: "all_closed w \<longleftrightarrow> (\<forall>i<length (aw_scopes w). sc_closed (scope_at i w))"
  by (simp add: all_closed_def scope_at_def all_set_conv_all_nth)

text \<open>What the cleanup leaves behind: every tracked frontier is released, every scope is closed and all children
  of the scopes, the same as before, are resolved.\<close>

definition nothing_open :: "'g attempt_world \<Rightarrow> bool" where
  "nothing_open w \<longleftrightarrow> all_closed w \<and> (\<forall>i\<in>set (aw_tracked w). released_at i w)"

lemma evaluation_cleanup_effect:
  assumes "world_ok w" and run: "evaluation_cleanup gw w = (r, w')"
  shows "is_ok r \<longleftrightarrow> nothing_open w'" and "world_ok w'"
    and "List.map (List.map ch_attempt \<circ> sc_children) (aw_scopes w')
       = List.map (List.map ch_attempt \<circ> sc_children) (aw_scopes w)"
proof -
  obtain r1 w1 where 1: "close_open_attempt_scopes gw ''Stone evaluation ended'' w = (r1, w1)" by force
  obtain r2 w2 where 2: "release_open_semantic_frontiers gw w1 = (r2, w2)" by force
  note c = close_open_closing [OF assms(1) 1]
  have ok1: "world_ok w1" using c(1) by (simp add: cleaned_def)
  have same: "same_attempts w1 w2" using release_open_same [OF ok1 2] .
  note f = release_open_effect [OF ok1 2]
  have eq: "r = combine_cleanup_results r1 r2" "w' = w2" using run 1 2 by (simp_all add: evaluation_cleanup_def)
  have "is_ok r1 \<longleftrightarrow> all_closed w1"
    using c by (auto simp: is_ok_def cleaned_def all_closed_at split: sum.splits)
  then show "is_ok r \<longleftrightarrow> nothing_open w'"
    using f same by (simp add: eq nothing_open_def same_attempts_def all_closed_def)
  show "world_ok w'" using same by (simp add: eq same_attempts_def)
  show "List.map (List.map ch_attempt \<circ> sc_children) (aw_scopes w')
      = List.map (List.map ch_attempt \<circ> sc_children) (aw_scopes w)"
    using same c(1) by (intro nth_equalityI) (auto simp: eq same_attempts_def cleaned_def scope_at_def)
qed

lemma all_closed_resolved:
  "world_ok w \<Longrightarrow> all_closed w \<Longrightarrow> \<forall>s\<in>set (aw_scopes w). \<forall>c\<in>set (sc_children s). ch_resolved c"
  by (auto simp: world_ok_def list_all_iff scope_ok_def all_closed_def)

text \<open>C7: The cleanup at the end of an evaluation reports an error exactly if it left something open. Whatever
  the gateway answers, it returns no error if and only if every scope is closed and every tracked frontier is
  released afterwards; then every child of every scope is resolved. In both cases each scope has the
  children it had before: none is dropped because an earlier one could not be settled.\<close>

theorem cleanup_error_iff_something_open:
  assumes "reachable_world gw w"
  shows "case evaluation_cleanup gw w of (r, w') \<Rightarrow>
     (is_ok r \<longleftrightarrow> nothing_open w')
     \<and> (is_ok r \<longrightarrow> (\<forall>s\<in>set (aw_scopes w'). \<forall>c\<in>set (sc_children s). ch_resolved c))
     \<and> List.map (List.map ch_attempt \<circ> sc_children) (aw_scopes w')
       = List.map (List.map ch_attempt \<circ> sc_children) (aw_scopes w)"
proof -
  obtain r w' where run: "evaluation_cleanup gw w = (r, w')" by force
  note eff = evaluation_cleanup_effect [OF reachable_world_ok [OF assms] run]
  show ?thesis using eff all_closed_resolved [of w'] by (simp add: run nothing_open_def)
qed

section \<open>A gateway that answers\<close>

text \<open>The gateway is cooperative if it carries out every call and knows the state of every attempt. It may leave
  an attempt running for ever: its answer to a wait may say that the attempt has not finished.\<close>

definition knows_state :: "nu_value res \<Rightarrow> bool" where
  "knows_state r \<longleftrightarrow> (case r of Inr v \<Rightarrow> unwrap_or ''unknown'' (attempt_record_state v) \<noteq> ''unknown'' | Inl _ \<Rightarrow> False)"

definition cooperative :: "'g gateway \<Rightarrow> bool" where
  "cooperative gw \<longleftrightarrow> (\<forall>a n g. knows_state (fst (gw_state gw a n g))) \<and> (\<forall>a t g. is_ok (fst (gw_wait gw a t g)))
     \<and> (\<forall>a g. is_ok (fst (gw_terminate gw a g))) \<and> (\<forall>a x g. is_ok (fst (gw_discard gw a x g)))
     \<and> (\<forall>c g. is_ok (fst (gw_release gw c g)))"

lemma call_ok: "is_ok (fst (call (aw_gateway w))) \<Longrightarrow> \<exists>v w'. call_gateway call w = (Inr v, w')"
  by (auto simp: call_gateway_def act_gateway_def is_ok_def split: prod.splits sum.splits)

lemma state_known:
  assumes "cooperative gw"
  shows "\<exists>v w'. call_gateway (gw_state gw a n) w = (Inr v, w') \<and> unwrap_or ''unknown'' (attempt_record_state v) \<noteq> ''unknown''"
proof -
  obtain r g where run: "gw_state gw a n (aw_gateway w) = (r, g)" by force
  have "knows_state (fst (gw_state gw a n (aw_gateway w)))" using assms by (simp add: cooperative_def)
  then show ?thesis by (auto simp: run call_gateway_def act_gateway_def knows_state_def split: sum.splits)
qed

lemma looks_without_error:
  assumes "cooperative gw"
  shows "cr_errors (fst (first_look gw a rw)) = cr_errors (fst rw)"
    and "cr_errors (fst (last_look gw a rw)) = cr_errors (fst rw)"
    and "cr_state (fst (last_look gw a rw)) \<noteq> ''unknown''"
proof -
  obtain r w where rw: "rw = (r, w)" by force
  obtain v w' where call: "call_gateway (gw_state gw a 1) w = (Inr v, w')"
    and known: "unwrap_or ''unknown'' (attempt_record_state v) \<noteq> ''unknown''"
    using state_known [OF assms] by blast
  show "cr_errors (fst (first_look gw a rw)) = cr_errors (fst rw)"
    "cr_errors (fst (last_look gw a rw)) = cr_errors (fst rw)"
    "cr_state (fst (last_look gw a rw)) \<noteq> ''unknown''"
    using call known by (simp_all add: rw first_look_def last_look_def)
qed

lemma stop_without_error:
  assumes "cooperative gw"
  shows "cr_errors (fst (stop_child gw i t a rw)) = cr_errors (fst rw)"
proof -
  have terminate: "\<exists>v w'. call_gateway (gw_terminate gw a) w = (Inr v, w')" for w
    using assms by (intro call_ok) (simp add: cooperative_def)
  have wait: "\<exists>v w'. call_gateway (gw_wait gw a (Some t)) w = (Inr v, w')" for w
    using assms by (intro call_ok) (simp add: cooperative_def)
  have "cr_errors (fst (terminate_child gw a (r, w))) = cr_errors r" for r w
    using terminate [of w] by (auto simp: terminate_child_def)
  moreover have "cr_errors (fst (join_child gw i t a (r, w))) = cr_errors r" for r w
    using wait [of w] by (auto simp: join_child_def Let_def)
  ultimately have "cr_errors (fst (join_child gw i t a (terminate_child gw a rw))) = cr_errors (fst rw)"
    by (cases rw; cases "terminate_child gw a rw") (metis fst_conv)
  then show ?thesis by (simp add: stop_child_def)
qed

lemma settle_clean:
  assumes "cooperative gw" and "cr_errors (fst rw) = []" and "cr_state (fst rw) \<noteq> ''unknown''"
  shows "child_clean (fst (settle_child gw i a reason rw))"
proof -
  obtain r w where rw: "rw = (r, w)" by force
  obtain v w' where "call_gateway (gw_discard gw a reason) w = (Inr v, w')"
    using assms(1) call_ok [of "gw_discard gw a reason" w] by (auto simp: cooperative_def)
  then show ?thesis using assms(2,3) by (simp add: rw settle_child_def child_clean_def)
qed

lemma close_child_clean:
  assumes "cooperative gw"
  shows "fst (close_child gw i t reason c (clean, reports, w)) = clean"
proof -
  let ?rw = "last_look gw (ch_attempt c)
      (stop_child gw i t (ch_attempt c) (first_look gw (ch_attempt c) (start_run c, w)))"
  obtain r w' where run: "settle_child gw i (ch_attempt c) reason ?rw = (r, w')" by force
  have "cr_errors (fst ?rw) = []"
    by (simp add: looks_without_error [OF assms] stop_without_error [OF assms] start_run_def)
  then have "child_clean r"
    using settle_clean [OF assms, of ?rw i "ch_attempt c" reason] looks_without_error(3) [OF assms] by (simp add: run)
  then show ?thesis by (simp add: close_child_def run)
qed

lemma close_children_clean:
  "cooperative gw \<Longrightarrow> fst (fold (close_child gw i t reason) cs (clean, reports, w)) = clean"
proof (induction cs arbitrary: clean reports w)
  case (Cons c cs)
  obtain b rs w' where run: "close_child gw i t reason c (clean, reports, w) = (b, rs, w')"
    by (cases "close_child gw i t reason c (clean, reports, w)")
  then have "b = clean" using close_child_clean [OF Cons.prems, of i t reason c clean reports w] by simp
  then show ?case using Cons run by simp
qed simp

lemma close_if_open_clean:
  assumes "cooperative gw"
  shows "fst (close_if_open gw reason i (broken, w)) = broken"
proof (cases "sc_closed (scope_at i w)")
  case False
  let ?s = "scope_at i w"
  obtain clean reports w1 where 1: "fold (close_child gw i (sc_join_timeout_ms ?s) reason) (sc_children ?s) (True, [], w)
      = (clean, reports, w1)" by (cases "fold (close_child gw i (sc_join_timeout_ms ?s) reason) (sc_children ?s) (True, [], w)")
  have clean
    using close_children_clean [OF assms(1), of i "sc_join_timeout_ms ?s" reason "sc_children ?s" True "[]" w] 1 by simp
  then show ?thesis using False 1 by (simp add: close_if_open_def close_attempt_scope_def Let_def)
qed (simp add: close_if_open_def)

lemma close_all_clean: "cooperative gw \<Longrightarrow> fst (fold (close_if_open gw reason) xs (broken, w)) = broken"
proof (induction xs arbitrary: broken w)
  case (Cons i xs)
  obtain b w' where run: "close_if_open gw reason i (broken, w) = (b, w')" by force
  then have "b = broken" using close_if_open_clean [OF Cons.prems, of reason i broken w] by simp
  then show ?case using Cons run by simp
qed simp

lemma release_frontier_answers:
  assumes "cooperative gw"
  shows "is_ok (fst (release_frontier gw i mark w))"
proof -
  obtain v w' where "act_gateway (gw_release gw (sf_checkpoint (frontier_at i w))) w = (Inr v, w')"
    using assms call_ok [of "gw_release gw (sf_checkpoint (frontier_at i w))" w]
    by (auto simp: cooperative_def call_gateway_def)
  then show ?thesis by (simp add: release_frontier_def act_then_apply is_ok_def)
qed

lemma release_all_clean: "cooperative gw \<Longrightarrow> fst (fold (release_at_end gw) xs (ids, w)) = ids"
proof (induction xs arbitrary: ids w)
  case (Cons i xs)
  have "fst (release_at_end gw i (ids, w)) = ids"
    using release_frontier_answers [OF Cons.prems, of i mark_released_by_cleanup w]
    by (auto simp: release_at_end_def is_ok_def split: prod.splits sum.splits)
  then obtain w' where "release_at_end gw i (ids, w) = (ids, w')" by (metis prod.collapse)
  then show ?case using Cons by simp
qed simp

lemma evaluation_cleanup_answers:
  assumes "cooperative gw"
  shows "is_ok (fst (evaluation_cleanup gw w))"
proof -
  obtain broken w1 where 1: "fold (close_if_open gw ''Stone evaluation ended'') [0..<length (aw_scopes w)] ([], w) = (broken, w1)"
    by force
  have "broken = []" using close_all_clean [OF assms, of _ _ "[]" w] 1 by (metis fst_conv)
  moreover obtain ids w2 where 2: "fold (release_at_end gw) (aw_tracked w1) ([], w1) = (ids, w2)" by force
  moreover have "ids = []" using release_all_clean [OF assms, of _ "[]" w1] 2 by (metis fst_conv)
  ultimately show ?thesis
    by (simp add: evaluation_cleanup_def close_open_attempt_scopes_def release_open_semantic_frontiers_def 1 2
        is_ok_def combine_cleanup_results_def)
qed

text \<open>C6: If the gateway carries out its calls and knows the state of its attempts, the cleanup settles
  everything in one pass: from every world an evaluation can reach it returns without an error, every scope is
  closed, every child of every scope is resolved and every tracked frontier is released. That holds even if an
  attempt never finishes within its timeout: it is then discarded.\<close>

theorem cleanup_settles_everything:
  assumes "reachable_world gw w" and "cooperative gw"
  shows "\<exists>w'. evaluation_cleanup gw w = (Inr (), w') \<and> nothing_open w'
     \<and> (\<forall>s\<in>set (aw_scopes w'). \<forall>c\<in>set (sc_children s). ch_resolved c)"
proof -
  obtain r w' where run: "evaluation_cleanup gw w = (r, w')" by force
  have "is_ok r" using evaluation_cleanup_answers [OF assms(2), of w] by (simp add: run)
  moreover note eff = evaluation_cleanup_effect [OF reachable_world_ok [OF assms(1)] run]
  ultimately show ?thesis using all_closed_resolved [of w'] run
    by (auto simp: is_ok_def nothing_open_def split: sum.splits)
qed

section \<open>Examples\<close>

text \<open>The attempts of the sample gateway stay active for ever; the stubborn gateway cannot discard them.\<close>

definition stubborn_gateway :: "unit gateway" where
  "stubborn_gateway = sample_gateway\<lparr> gw_discard := (\<lambda>_ _ g. (Inl (stone_error ''gateway'' ''not available'' []), g)) \<rparr>"

lemma sample_world_stubborn: "reachable_world stubborn_gateway sample_world"
proof -
  have joins: "join_attempt stubborn_gateway = join_attempt sample_gateway"
    by (intro ext) (simp add: join_attempt_def stubborn_gateway_def)
  have "0 < length (aw_scopes (snd (open_scope ''cancel_then_join'' 5000 (empty_world ()))))"
    "0 < length (aw_scopes (snd (add_to_scope 0 ''a'' (snd (open_scope ''cancel_then_join'' 5000 (empty_world ()))))))"
    by (simp_all add: run_defs)
  then show ?thesis unfolding sample_world_def joins [symmetric]
    by (intro reachable_world.step [OF _ attempt_step.joins] reachable_world.step [OF _ attempt_step.adds]
        reachable_world.step [OF _ attempt_step.opens] reachable_world.start)
qed

lemma stubborn_child:
  assumes "\<not> ch_resolved c"
  shows "\<not> fst (close_child stubborn_gateway i t reason c (clean, reports, w))"
  using assms
  by (simp add: close_child_def first_look_def last_look_def stop_child_def terminate_child_def join_child_def settle_child_def
      child_clean_def add_error_def call_gateway_def act_gateway_def stubborn_gateway_def sample_gateway_def start_run_def
      finished_record_def attempt_record_state_def attempt_controller_state_def attempt_fields_def record_get_def
      nu_str_def unwrap_or_def controller_finished_def Let_def)

lemma stubborn_fails: "\<not> is_ok (fst (evaluation_cleanup stubborn_gateway sample_world))"
proof -
  have "aw_scopes sample_world = [scope_at 0 sample_world]" "\<not> sc_closed (scope_at 0 sample_world)"
    "\<exists>c c'. sc_children (scope_at 0 sample_world) = [c, c'] \<and> \<not> ch_resolved c'"
    by (simp_all add: sample_world_eq scope_at_def)
  then obtain c c' where cs: "length (aw_scopes sample_world) = 1" "\<not> sc_closed (scope_at 0 sample_world)"
    "sc_children (scope_at 0 sample_world) = [c, c']" "\<not> ch_resolved c'"
    by (metis One_nat_def length_Cons list.size(3))
  let ?close = "close_child stubborn_gateway 0 (sc_join_timeout_ms (scope_at 0 sample_world)) ''Stone evaluation ended''"
  obtain b rs w where "?close c (True, [], sample_world) = (b, rs, w)" by (cases "?close c (True, [], sample_world)")
  moreover obtain b' rs' w' where 2: "?close c' (b, rs, w) = (b', rs', w')" by (cases "?close c' (b, rs, w)")
  moreover have "\<not> b'"
    using stubborn_child [OF cs(4), of 0 "sc_join_timeout_ms (scope_at 0 sample_world)" "''Stone evaluation ended''" b rs w]
    by (simp add: 2)
  ultimately have "fold ?close [c, c'] (True, [], sample_world) = (False, rs', w')" by simp
  then obtain e where "close_open_attempt_scopes stubborn_gateway ''Stone evaluation ended'' sample_world = (Inl e, w')"
    by (simp add: close_open_attempt_scopes_def close_if_open_def close_attempt_scope_def Let_def cs)
  then show ?thesis
    by (cases "release_open_semantic_frontiers stubborn_gateway w'") (simp add: evaluation_cleanup_def)
qed

theorem cleanup_error_iff_something_open_witness:
  "\<not> nothing_open (snd (evaluation_cleanup stubborn_gateway sample_world))"
  using cleanup_error_iff_something_open [OF sample_world_stubborn] stubborn_fails
  by (cases "evaluation_cleanup stubborn_gateway sample_world") simp

lemma sample_cooperative: "cooperative sample_gateway"
  by (simp add: cooperative_def sample_gateway_def is_ok_def knows_state_def finished_record_def
      attempt_record_state_def attempt_fields_def record_get_def nu_str_def unwrap_or_def)

theorem cleanup_settles_everything_witness:
  "\<not> nothing_open sample_world \<and> nothing_open (snd (evaluation_cleanup sample_gateway sample_world))"
proof -
  have "\<not> nothing_open sample_world" by (simp add: sample_world_eq nothing_open_def all_closed_def)
  then show ?thesis
    using cleanup_settles_everything [OF sample_world_reachable sample_cooperative] by auto
qed

end
