(* ===== verification/Attempt_Calls.thy ===== *)
theory Attempt_Calls
  imports Attempt_Cleanup
begin

text \<open>The calls of Stone that work on attempts (\<open>stone_eval.rs\<close>): each evaluates its arguments in order,
  checks them and then takes the step of the theories \<open>Attempts\<close> and \<open>Attempt_Cleanup\<close>. The evaluation of an
  argument is a parameter \<open>ev\<close>; it may itself change the world.\<close>

section \<open>Values\<close>

record 'g call_env =
  ce_gateway :: "'g gateway"
  ce_eval :: "expr \<Rightarrow> ('g, attempt_value) act"
  ce_materialize :: materializer

definition value_type_name :: "nu_value \<Rightarrow> string" where
  "value_type_name v = (case v of
     VNothing \<Rightarrow> ''NoneType'' | VBool _ \<Rightarrow> ''bool'' | VInt _ \<Rightarrow> ''int'' | VFloat _ \<Rightarrow> ''float''
   | VString _ \<Rightarrow> ''str'' | VGlob _ \<Rightarrow> ''str'' | VList _ \<Rightarrow> ''list'' | VRecord _ \<Rightarrow> ''dict''
   | VBinary _ \<Rightarrow> ''bytes'' | VOther _ \<Rightarrow> ''value'')"

definition runtime_type_name :: "attempt_value \<Rightarrow> string" where
  "runtime_type_name v = (case v of
     ARuntime r \<Rightarrow> (case r of
         RNu n \<Rightarrow> value_type_name n
       | RTextLines _ _ \<Rightarrow> ''list'' | RJsonlRows _ \<Rightarrow> ''list'' | RJsonObjectView _ \<Rightarrow> ''dict''
       | RJsonArrayView _ \<Rightarrow> ''list'' | RJsonScalarView _ \<Rightarrow> ''json'' | RCallable _ _ \<Rightarrow> ''function''
       | ROwned kind _ \<Rightarrow> kind)
   | AScope _ \<Rightarrow> ''attempt_scope'' | ABest _ \<Rightarrow> ''attempt_best'' | AFailure _ \<Rightarrow> ''attempt_failure''
   | AHandle _ \<Rightarrow> ''attempt_handle'' | AOutcome _ \<Rightarrow> ''attempt_outcome'' | AAcceptance _ \<Rightarrow> ''attempt_acceptance''
   | AFrontier _ \<Rightarrow> ''semantic_frontier'')"

definition into_nu :: "materializer \<Rightarrow> string \<Rightarrow> attempt_value \<Rightarrow> ('g, nu_value) act" where
  "into_nu m context v = (case v of
     ARuntime r \<Rightarrow> act_lift (into_nu_value m r context)
   | ABest k \<Rightarrow> act_then (act_read (best_at k)) (\<lambda>b. act_fail context
       ''attempt_best #{} is a task-owned selection value and cannot cross this boundary'' [MInt (int (bs_selection_id b))])
   | AFailure k \<Rightarrow> act_read (\<lambda>w. failure_materialize (scope_at (fl_scope (failure_at k w)) w) (failure_at k w))
   | AScope i \<Rightarrow> act_then (act_read (scope_at i)) (\<lambda>s. act_fail context
       ''attempt scope #{} is a task-owned supervision value and cannot cross this boundary'' [MInt (int (sc_id s))])
   | AHandle h \<Rightarrow> act_ret (ah_record h)
   | AOutcome out \<Rightarrow> act_ret (outcome_materialize out)
   | AAcceptance a \<Rightarrow> act_ret (acceptance_materialize a)
   | AFrontier _ \<Rightarrow> act_fail context
       ''semantic frontiers are task-owned authority values and cannot cross this boundary'' [])"

definition attempt_attribute :: "attempt_value \<Rightarrow> string \<Rightarrow> ('g, attempt_value) act option" where
  "attempt_attribute v attr = (let plain = (\<lambda>f. act_then (act_read f) (\<lambda>r. act_then (act_lift r) (\<lambda>n. act_ret (ARuntime (RNu n))))) in
     case v of
       AScope i \<Rightarrow> Some (plain (\<lambda>w. scope_attribute (scope_at i w) attr))
     | ABest k \<Rightarrow> Some (if attr = ''outcome''
         then act_then (act_read (best_at k)) (\<lambda>b. act_then (act_lift (best_outcome b)) (\<lambda>out. act_ret (AOutcome out)))
         else plain (\<lambda>w. best_attribute (scope_at (bs_scope (best_at k w)) w) (best_at k w) attr))
     | AFailure k \<Rightarrow> Some (if attr = ''outcome''
         then act_then (act_read (failure_at k)) (\<lambda>f. act_then (act_lift (failure_outcome f)) (\<lambda>out. act_ret (AOutcome out)))
         else plain (\<lambda>w. failure_attribute (scope_at (fl_scope (failure_at k w)) w) (failure_at k w) attr))
     | AHandle h \<Rightarrow> Some (plain (\<lambda>_. handle_attribute h attr))
     | AOutcome out \<Rightarrow> Some (plain (\<lambda>_. outcome_attribute out attr))
     | AAcceptance a \<Rightarrow> Some (if attr = ''selected'' then act_ret (AHandle (selected_handle a))
         else plain (\<lambda>_. acceptance_attribute a attr))
     | AFrontier i \<Rightarrow> Some (plain (\<lambda>w. frontier_attribute (frontier_at i w) attr))
     | ARuntime _ \<Rightarrow> None)"

section \<open>Arguments\<close>

definition eval_nu :: "'g call_env \<Rightarrow> string \<Rightarrow> expr \<Rightarrow> ('g, nu_value) act" where
  "eval_nu env context e = act_then (ce_eval env e) (into_nu (ce_materialize env) context)"

definition eval_text :: "'g call_env \<Rightarrow> string \<Rightarrow> expr \<Rightarrow> ('g, string) act" where
  "eval_text env context e = act_then (eval_nu env context e) (\<lambda>v. act_lift (value_to_string v context))"

definition eval_scope_ref :: "'g call_env \<Rightarrow> string \<Rightarrow> expr \<Rightarrow> ('g, nat) act" where
  "eval_scope_ref env context e = act_then (ce_eval env e) (\<lambda>v. case v of
     AScope i \<Rightarrow> act_ret i
   | _ \<Rightarrow> act_fail context ''expected attempt_scope, got {}'' [MStr (runtime_type_name v)])"

definition eval_best_ref :: "'g call_env \<Rightarrow> string \<Rightarrow> expr \<Rightarrow> ('g, nat) act" where
  "eval_best_ref env context e = act_then (ce_eval env e) (\<lambda>v. case v of
     ABest k \<Rightarrow> act_ret k
   | _ \<Rightarrow> act_fail context ''expected attempt_best, got {}'' [MStr (runtime_type_name v)])"

definition act_option :: "('a \<Rightarrow> ('g, 'b) act) \<Rightarrow> 'a option \<Rightarrow> ('g, 'b option) act" where
  "act_option f x = (case x of None \<Rightarrow> act_ret None | Some a \<Rightarrow> act_then (f a) (\<lambda>b. act_ret (Some b)))"

primrec act_list :: "('a \<Rightarrow> ('g, 'b) act) \<Rightarrow> 'a list \<Rightarrow> ('g, 'b list) act" where
  "act_list f [] = act_ret []"
| "act_list f (x # xs) = act_then (f x) (\<lambda>y. act_then (act_list f xs) (\<lambda>ys. act_ret (y # ys)))"

primrec act_fold :: "('a \<Rightarrow> 's \<Rightarrow> ('g, 's) act) \<Rightarrow> 'a list \<Rightarrow> 's \<Rightarrow> ('g, 's) act" where
  "act_fold f [] s = act_ret s"
| "act_fold f (x # xs) s = act_then (f x s) (act_fold f xs)"

definition eval_call_values :: "'g call_env \<Rightarrow> string \<Rightarrow> expr list \<Rightarrow> (string \<times> expr) list
    \<Rightarrow> ('g, nu_value list \<times> (string \<times> nu_value) list) act" where
  "eval_call_values env name positional named =
     act_then (act_list (eval_nu env name) positional) (\<lambda>vs.
     act_then (act_list (\<lambda>(n, e). act_then (eval_nu env name e) (\<lambda>v. act_ret (n, v))) named) (\<lambda>nvs.
     act_ret (vs, nvs)))"

definition unexpected_keyword :: "string \<Rightarrow> string \<Rightarrow> shell_error" where
  "unexpected_keyword context name = stone_error context ''unexpected keyword argument `{}`'' [MStr name]"

definition value_to_u64 :: "nu_value \<Rightarrow> string \<Rightarrow> nat res" where
  "value_to_u64 v context = and_then (value_to_i64 v context) (\<lambda>i.
     if sint i < 0 then Inl (stone_error context ''value must be non-negative'' []) else Inr (nat (sint i)))"

definition u32_limited :: "string \<Rightarrow> string \<Rightarrow> nat \<Rightarrow> nat res" where
  "u32_limited context msg n = (if n < 4294967296 then Inr n else Inl (stone_error context msg []))"

definition value_to_optional_timeout :: "nu_value \<Rightarrow> string \<Rightarrow> nat option res" where
  "value_to_optional_timeout v context = (if v = VNothing then Inr None
     else and_then (value_to_u64 v context) (\<lambda>n.
          and_then (u32_limited context ''timeout_ms is too large'' n) (\<lambda>t. Inr (Some t))))"

definition value_to_string_list :: "nu_value \<Rightarrow> string \<Rightarrow> string list res" where
  "value_to_string_list v context = (case v of
     VList vs \<Rightarrow> collect_ok (\<lambda>x. value_to_string x context) vs
   | _ \<Rightarrow> Inl (stone_error context ''expected list of strings, got {}'' [MType v]))"

definition bounded_strings :: "nu_value \<Rightarrow> string \<Rightarrow> string list res" where
  "bounded_strings v context = and_then (value_to_string_list v context) (\<lambda>ss.
     if 16 < length ss then Inl (stone_error context ''expected at most 16 references'' [])
     else if \<exists>s\<in>set ss. s = [] \<or> 512 < length s
          then Inl (stone_error context ''references must contain 1..512 bytes'' []) else Inr ss)"

definition opt_res :: "('a \<Rightarrow> 'b res) \<Rightarrow> 'a option \<Rightarrow> 'b option res" where
  "opt_res f x = (case x of None \<Rightarrow> Inr None | Some a \<Rightarrow> and_then (f a) (\<lambda>b. Inr (Some b)))"

section \<open>Joining and waiting\<close>

definition join_keyword_error :: "string \<Rightarrow> shell_error" where
  "join_keyword_error name = stone_error ''attempt_join'' (''unexpected keyword argument `{}`'' @
     (if name = ''scope''
      then ''; the child is already registered when attempt_fork(..., scope=scope) runs, so omit scope here''
      else ''; accepted keywords: attempt, timeout_ms'')) [MStr name]"

definition join_named :: "string \<times> nu_value \<Rightarrow> string \<times> nat option \<Rightarrow> (string \<times> nat option) res" where
  "join_named nv s = (case nv of (name, v) \<Rightarrow>
     if name = ''attempt'' then and_then (attempt_id_from_value v ''attempt_join attempt'') (\<lambda>a. Inr (a, snd s))
     else if name = ''timeout_ms'' then and_then (value_to_optional_timeout v ''attempt_join timeout_ms'') (\<lambda>t. Inr (fst s, t))
     else Inl (unexpected_keyword ''attempt_join'' name))"

definition eval_attempt_join_call :: "'g call_env \<Rightarrow> call \<Rightarrow> ('g, attempt_value) act" where
  "eval_attempt_join_call env call = (case call of Call fn positional named \<Rightarrow>
     act_then (act_lift (case find (\<lambda>(n, _). n \<noteq> ''attempt'' \<and> n \<noteq> ''timeout_ms'') named of
         None \<Rightarrow> Inr () | Some (n, _) \<Rightarrow> Inl (join_keyword_error n))) (\<lambda>_.
     act_then (eval_call_values env fn positional named) (\<lambda>(vs, nvs).
     act_then (act_require (length vs \<le> 2) ''attempt_join''
       ''attempt_join() accepts at most attempt and timeout_ms arguments'' []) (\<lambda>_.
     act_then (act_lift (opt_res (\<lambda>v. attempt_id_from_value v ''attempt_join attempt'') (vec_get vs 0))) (\<lambda>attempt.
     act_then (act_lift (opt_res (\<lambda>v. value_to_optional_timeout v ''attempt_join timeout_ms'') (vec_get vs 1))) (\<lambda>timeout.
     act_then (act_lift (fold_ok join_named nvs (unwrap_or [] attempt, Option.bind timeout (\<lambda>t. t)))) (\<lambda>(attempt, timeout).
     act_then (act_require (attempt \<noteq> []) ''attempt_join'' ''attempt_join() requires a child attempt'' []) (\<lambda>_.
     join_attempt (ce_gateway env) attempt timeout))))))))"

definition eval_attempt_set_expr :: "'g call_env \<Rightarrow> string \<Rightarrow> expr \<Rightarrow> ('g, string list) act" where
  "eval_attempt_set_expr env context e = act_then (ce_eval env e) (\<lambda>v. case v of
     AScope i \<Rightarrow> act_read (\<lambda>w. List.map ch_attempt (List.filter (\<lambda>c. \<not> ch_joined c) (sc_children (scope_at i w))))
   | AHandle h \<Rightarrow> act_ret [ah_attempt h]
   | AOutcome out \<Rightarrow> act_ret [ao_attempt out]
   | AAcceptance a \<Rightarrow> act_ret [aa_attempt a]
   | ARuntime (RNu (VList vs)) \<Rightarrow> act_lift (collect_ok (\<lambda>x. attempt_id_from_value x context) vs)
   | ARuntime (RNu n) \<Rightarrow> act_lift (and_then (attempt_id_from_value n context) (\<lambda>a. Inr [a]))
   | _ \<Rightarrow> act_fail context ''expected attempt_scope, attempt_handle, attempt id, or list; got {}''
            [MStr (runtime_type_name v)])"

definition wait_set_named :: "'g call_env \<Rightarrow> string \<Rightarrow> string \<times> expr \<Rightarrow> string list option \<times> nat option
    \<Rightarrow> ('g, string list option \<times> nat option) act" where
  "wait_set_named env fn ne s = (case ne of (name, e) \<Rightarrow>
     if name \<in> {''children'', ''attempts'', ''scope''} then
       act_then (act_require (fst s = None) fn ''children may be supplied only once'' []) (\<lambda>_.
       act_then (eval_attempt_set_expr env fn e) (\<lambda>cs. act_ret (Some cs, snd s)))
     else if name = ''timeout_ms'' then
       act_then (eval_nu env fn e) (\<lambda>v.
       act_then (act_lift (value_to_optional_timeout v fn)) (\<lambda>t. act_ret (fst s, t)))
     else act_lift (Inl (unexpected_keyword fn name)))"

definition eval_attempt_wait_set_call :: "'g call_env \<Rightarrow> call \<Rightarrow> bool \<Rightarrow> ('g, attempt_value) act" where
  "eval_attempt_wait_set_call env call wait_all = (case call of Call fn positional named \<Rightarrow>
     act_then (act_require (length positional \<le> 2) fn ''{}() accepts at most children and timeout_ms arguments'' [MStr fn]) (\<lambda>_.
     act_then (act_option (eval_attempt_set_expr env fn) (vec_get positional 0)) (\<lambda>children.
     act_then (act_option (\<lambda>e. act_then (eval_nu env fn e) (\<lambda>v. act_lift (value_to_optional_timeout v fn)))
       (vec_get positional 1)) (\<lambda>timeout.
     act_then (act_fold (wait_set_named env fn) named (children, Option.bind timeout (\<lambda>t. t))) (\<lambda>(children, timeout).
     act_then (act_lift (ok_or (stone_error fn ''{}() requires children'' [MStr fn]) children)) (\<lambda>cs.
     wait_for_attempts (ce_gateway env) fn cs wait_all timeout))))))"

definition terminate_named :: "string \<times> nu_value \<Rightarrow> string \<Rightarrow> string res" where
  "terminate_named nv attempt = (case nv of (name, v) \<Rightarrow>
     if name = ''attempt'' then attempt_id_from_value v ''attempt_terminate attempt''
     else Inl (unexpected_keyword ''attempt_terminate'' name))"

definition eval_attempt_terminate_call :: "'g call_env \<Rightarrow> call \<Rightarrow> ('g, attempt_value) act" where
  "eval_attempt_terminate_call env call = (case call of Call fn positional named \<Rightarrow>
     act_then (eval_call_values env fn positional named) (\<lambda>(vs, nvs).
     act_then (act_require (length vs \<le> 1) ''attempt_terminate''
       ''attempt_terminate() accepts exactly one attempt argument'' []) (\<lambda>_.
     act_then (act_lift (opt_res (\<lambda>v. attempt_id_from_value v ''attempt_terminate attempt'') (vec_get vs 0))) (\<lambda>attempt.
     act_then (act_lift (fold_ok terminate_named nvs (unwrap_or [] attempt))) (\<lambda>attempt.
     act_then (act_require (attempt \<noteq> []) ''attempt_terminate'' ''attempt_terminate() requires a child attempt'' []) (\<lambda>_.
     act_then (act_gateway (gw_terminate (ce_gateway env) attempt)) (\<lambda>r. act_ret (ARuntime (RNu r)))))))))"

section \<open>Failures and selectors\<close>

definition retain_named :: "'g call_env \<Rightarrow> string \<times> expr \<Rightarrow> nat option \<times> attempt_value option
    \<Rightarrow> ('g, nat option \<times> attempt_value option) act" where
  "retain_named env ne s = (case ne of (name, e) \<Rightarrow>
     if name = ''scope'' \<and> fst s = None then
       act_then (eval_scope_ref env ''attempt_retain_failure scope'' e) (\<lambda>i. act_ret (Some i, snd s))
     else if name = ''outcome'' \<and> snd s = None then act_then (ce_eval env e) (\<lambda>v. act_ret (fst s, Some v))
     else if name \<in> {''scope'', ''outcome''} then
       act_fail ''attempt_retain_failure'' ''`{}` was supplied more than once'' [MStr name]
     else act_lift (Inl (unexpected_keyword ''attempt_retain_failure'' name)))"

definition outcome_argument :: "string \<Rightarrow> attempt_value \<Rightarrow> attempt_outcome res" where
  "outcome_argument context v = (case v of
     AOutcome out \<Rightarrow> Inr out
   | _ \<Rightarrow> Inl (stone_error context ''outcome must be an attempt_outcome, got {}'' [MStr (runtime_type_name v)]))"

definition eval_attempt_retain_failure_call :: "'g call_env \<Rightarrow> call \<Rightarrow> ('g, attempt_value) act" where
  "eval_attempt_retain_failure_call env call = (case call of Call fn positional named \<Rightarrow>
     let kind = ''attempt_retain_failure'' in
     act_then (act_require (length positional \<le> 2) kind
       ''attempt_retain_failure() requires scope and outcome arguments'' []) (\<lambda>_.
     act_then (act_option (eval_scope_ref env ''attempt_retain_failure scope'') (vec_get positional 0)) (\<lambda>scope.
     act_then (act_option (ce_eval env) (vec_get positional 1)) (\<lambda>out.
     act_then (act_fold (retain_named env) named (scope, out)) (\<lambda>(scope, out).
     act_then (act_lift (ok_or (stone_error kind ''missing scope ownership argument'' []) scope)) (\<lambda>i.
     act_then (scope_open i kind ''cannot retain a failed child in a closed attempt_scope'') (\<lambda>_.
     act_then (act_lift (ok_or (stone_error kind ''missing outcome argument'' []) out)) (\<lambda>v.
     act_then (act_lift (outcome_argument kind v)) (\<lambda>result. retain_failure i result)))))))))"

definition best_named :: "'g call_env \<Rightarrow> string \<times> expr \<Rightarrow> nat option \<times> string \<Rightarrow> ('g, nat option \<times> string) act" where
  "best_named env ne s = (case ne of (name, e) \<Rightarrow>
     if name = ''scope'' then
       act_then (act_require (fst s = None) ''attempt_best'' ''scope may be supplied only once'' []) (\<lambda>_.
       act_then (eval_scope_ref env ''attempt_best scope'' e) (\<lambda>i. act_ret (Some i, snd s)))
     else if name = ''objective'' then act_then (eval_text env ''attempt_best objective'' e) (\<lambda>ob. act_ret (fst s, ob))
     else act_lift (Inl (unexpected_keyword ''attempt_best'' name)))"

definition eval_attempt_best_call :: "'g call_env \<Rightarrow> call \<Rightarrow> ('g, attempt_value) act" where
  "eval_attempt_best_call env call = (case call of Call fn positional named \<Rightarrow>
     act_then (act_require (length positional \<le> 2) ''attempt_best'' ''attempt_best() accepts scope and objective arguments'' []) (\<lambda>_.
     act_then (act_option (eval_scope_ref env ''attempt_best scope'') (vec_get positional 0)) (\<lambda>scope.
     act_then (act_option (eval_text env ''attempt_best objective'') (vec_get positional 1)) (\<lambda>objective.
     act_then (act_fold (best_named env) named (scope, unwrap_or ''max'' objective)) (\<lambda>(scope, objective).
     act_then (act_lift (ok_or (stone_error ''attempt_best''
       ''attempt_best() requires an attempt_scope ownership argument'' []) scope)) (\<lambda>i.
     open_selector i objective))))))"

record consider_args =
  ca_score :: "f64 option"
  ca_summary :: string
  ca_evidence :: "string list"
  ca_artifacts :: "string list"

definition consider_named :: "'g call_env \<Rightarrow> string \<times> expr \<Rightarrow> consider_args \<Rightarrow> ('g, consider_args) act" where
  "consider_named env ne s = (case ne of (name, e) \<Rightarrow>
     act_then (eval_nu env ''attempt_best_consider'' e) (\<lambda>v. act_lift
       (if name = ''score'' then and_then (value_to_f64 v ''attempt_best_consider score'') (\<lambda>x. Inr (s\<lparr> ca_score := Some x \<rparr>))
        else if name = ''summary'' then
          and_then (value_to_string v ''attempt_best_consider summary'') (\<lambda>t. Inr (s\<lparr> ca_summary := t \<rparr>))
        else if name = ''evidence'' then
          and_then (bounded_strings v ''attempt_best_consider evidence'') (\<lambda>ts. Inr (s\<lparr> ca_evidence := ts \<rparr>))
        else if name = ''artifacts'' then
          and_then (bounded_strings v ''attempt_best_consider artifacts'') (\<lambda>ts. Inr (s\<lparr> ca_artifacts := ts \<rparr>))
        else Inl (unexpected_keyword ''attempt_best_consider'' name))))"

definition eval_attempt_best_consider_call :: "'g call_env \<Rightarrow> call \<Rightarrow> ('g, attempt_value) act" where
  "eval_attempt_best_consider_call env call = (case call of Call fn positional named \<Rightarrow>
     let kind = ''attempt_best_consider'' in
     act_then (act_require (2 \<le> length positional \<and> length positional \<le> 3) kind
       ''attempt_best_consider() requires best, outcome, and score arguments'' []) (\<lambda>_.
     act_then (eval_best_ref env kind (positional ! 0)) (\<lambda>k.
     act_then (act_then (ce_eval env (positional ! 1)) (\<lambda>v. act_lift (outcome_argument kind v))) (\<lambda>out.
     act_then (act_option (\<lambda>e. act_then (eval_nu env ''attempt_best_consider score'' e)
       (\<lambda>v. act_lift (value_to_f64 v ''attempt_best_consider score''))) (vec_get positional 2)) (\<lambda>score.
     act_then (act_fold (consider_named env) named
       \<lparr> ca_score = score, ca_summary = [], ca_evidence = [], ca_artifacts = [] \<rparr>) (\<lambda>a.
     act_then (act_lift (ok_or (stone_error kind ''attempt_best_consider() requires a numeric score'' []) (ca_score a))) (\<lambda>x.
     consider_candidate (ce_gateway env) k \<lparr> bc_outcome = out, bc_score = x, bc_summary = ca_summary a,
       bc_evidence = ca_evidence a, bc_artifacts = ca_artifacts a \<rparr>)))))))"

definition eval_attempt_id :: "'g call_env \<Rightarrow> string \<Rightarrow> expr \<Rightarrow> ('g, string) act" where
  "eval_attempt_id env context e = act_then (eval_nu env context e) (\<lambda>v. act_lift (attempt_id_from_value v context))"

definition accept_named :: "'g call_env \<Rightarrow> string \<times> expr \<Rightarrow> string \<Rightarrow> ('g, string) act" where
  "accept_named env ne parent = (case ne of (name, e) \<Rightarrow>
     if name = ''parent'' then eval_attempt_id env ''attempt_best_accept parent'' e
     else act_lift (Inl (unexpected_keyword ''attempt_best_accept'' name)))"

definition eval_attempt_best_accept_call :: "'g call_env \<Rightarrow> call \<Rightarrow> ('g, attempt_value) act" where
  "eval_attempt_best_accept_call env call = (case call of Call fn positional named \<Rightarrow>
     act_then (act_require (positional \<noteq> [] \<and> length positional \<le> 2) ''attempt_best_accept''
       ''attempt_best_accept() requires best and accepts an optional parent'' []) (\<lambda>_.
     act_then (eval_best_ref env ''attempt_best_accept'' (positional ! 0)) (\<lambda>k.
     act_then (act_option (eval_attempt_id env ''attempt_best_accept parent'') (vec_get positional 1)) (\<lambda>parent.
     act_then (act_fold (accept_named env) named (unwrap_or [] parent)) (\<lambda>parent.
     accept_best (ce_gateway env) k parent)))))"

definition discard_named :: "'g call_env \<Rightarrow> string \<times> expr \<Rightarrow> string \<Rightarrow> ('g, string) act" where
  "discard_named env ne reason = (case ne of (name, e) \<Rightarrow>
     if name = ''reason'' then eval_text env ''attempt_best_discard reason'' e
     else act_lift (Inl (unexpected_keyword ''attempt_best_discard'' name)))"

definition eval_attempt_best_discard_call :: "'g call_env \<Rightarrow> call \<Rightarrow> ('g, attempt_value) act" where
  "eval_attempt_best_discard_call env call = (case call of Call fn positional named \<Rightarrow>
     act_then (act_require (positional \<noteq> [] \<and> length positional \<le> 2) ''attempt_best_discard''
       ''attempt_best_discard() requires best and accepts an optional reason'' []) (\<lambda>_.
     act_then (eval_best_ref env ''attempt_best_discard'' (positional ! 0)) (\<lambda>k.
     act_then (act_option (eval_text env ''attempt_best_discard reason'') (vec_get positional 1)) (\<lambda>reason.
     act_then (act_fold (discard_named env) named (unwrap_or ''best-candidate selection abandoned'' reason)) (\<lambda>reason.
     discard_best (ce_gateway env) k reason)))))"

section \<open>Scopes\<close>

definition scope_named :: "string \<times> nu_value \<Rightarrow> string \<times> nat \<Rightarrow> (string \<times> nat) res" where
  "scope_named nv s = (case nv of (name, v) \<Rightarrow>
     if name = ''exit_policy'' then and_then (value_to_string v ''attempt_scope exit_policy'') (\<lambda>p. Inr (p, snd s))
     else if name = ''join_timeout_ms'' then
       and_then (value_to_u64 v ''attempt_scope join_timeout_ms'') (\<lambda>n.
       and_then (u32_limited ''attempt_scope'' ''join_timeout_ms is too large'' n) (\<lambda>t. Inr (fst s, t)))
     else Inl (unexpected_keyword ''attempt_scope'' name))"

definition eval_attempt_scope_call :: "'g call_env \<Rightarrow> call \<Rightarrow> ('g, attempt_value) act" where
  "eval_attempt_scope_call env call = (case call of Call fn positional named \<Rightarrow>
     act_then (eval_call_values env fn positional named) (\<lambda>(vs, nvs).
     act_then (act_require (length vs \<le> 1) ''attempt_scope'' ''attempt_scope() accepts at most one exit_policy argument'' []) (\<lambda>_.
     act_then (act_lift (opt_res (\<lambda>v. value_to_string v ''attempt_scope exit_policy'') (vec_get vs 0))) (\<lambda>policy.
     act_then (act_lift (fold_ok scope_named nvs (unwrap_or ''cancel_then_join'' policy, 5000))) (\<lambda>(policy, timeout).
     open_scope policy timeout)))))"

definition eval_attempt_scope_add_call :: "'g call_env \<Rightarrow> call \<Rightarrow> ('g, attempt_value) act" where
  "eval_attempt_scope_add_call env call = (case call of Call fn positional named \<Rightarrow>
     act_then (act_require (length positional = 2 \<and> named = []) ''attempt_scope_add''
       ''attempt_scope_add() requires scope and child arguments'' []) (\<lambda>_.
     act_then (eval_scope_ref env ''attempt_scope_add'' (positional ! 0)) (\<lambda>i.
     act_then (eval_attempt_id env ''attempt_scope_add child'' (positional ! 1)) (\<lambda>attempt.
     add_to_scope i attempt))))"

definition close_named :: "'g call_env \<Rightarrow> string \<times> expr \<Rightarrow> string \<Rightarrow> ('g, string) act" where
  "close_named env ne reason = (case ne of (name, e) \<Rightarrow>
     act_then (eval_nu env ''attempt_scope_close reason'' e) (\<lambda>v. act_lift
       (if name = ''reason'' then value_to_string v ''attempt_scope_close reason''
        else Inl (unexpected_keyword ''attempt_scope_close'' name))))"

definition eval_attempt_scope_close_call :: "'g call_env \<Rightarrow> call \<Rightarrow> ('g, attempt_value) act" where
  "eval_attempt_scope_close_call env call = (case call of Call fn positional named \<Rightarrow>
     act_then (act_require (length positional = 1) ''attempt_scope_close''
       ''attempt_scope_close() requires exactly one scope argument'' []) (\<lambda>_.
     act_then (eval_scope_ref env ''attempt_scope_close'' (positional ! 0)) (\<lambda>i.
     act_then (act_fold (close_named env) named ''attempt scope closed'') (\<lambda>reason.
     (\<lambda>w. case close_attempt_scope (ce_gateway env) i reason w of (report, w') \<Rightarrow> (Inr (ARuntime (RNu report)), w'))))))"

section \<open>Accepting, discarding, releasing\<close>

definition accept_call_named :: "string \<times> nu_value \<Rightarrow> string \<times> string \<Rightarrow> (string \<times> string) res" where
  "accept_call_named nv s = (case nv of (name, v) \<Rightarrow>
     if name = ''parent'' then and_then (attempt_id_from_value v ''attempt_accept parent'') (\<lambda>a. Inr (a, snd s))
     else if name = ''child'' then and_then (attempt_id_from_value v ''attempt_accept child'') (\<lambda>a. Inr (fst s, a))
     else Inl (unexpected_keyword ''attempt_accept'' name))"

definition eval_attempt_accept_call :: "'g call_env \<Rightarrow> call \<Rightarrow> ('g, attempt_value) act" where
  "eval_attempt_accept_call env call = (case call of Call fn positional named \<Rightarrow>
     act_then (eval_call_values env fn positional named) (\<lambda>(vs, nvs).
     act_then (act_require (length vs \<le> 2) ''attempt_accept'' ''attempt_accept() accepts parent and child arguments'' []) (\<lambda>_.
     act_then (act_lift (opt_res (\<lambda>v. attempt_id_from_value v ''attempt_accept parent'') (vec_get vs 0))) (\<lambda>parent.
     act_then (act_lift (opt_res (\<lambda>v. attempt_id_from_value v ''attempt_accept child'') (vec_get vs 1))) (\<lambda>child.
     act_then (act_lift (fold_ok accept_call_named nvs (unwrap_or [] parent, unwrap_or [] child))) (\<lambda>(parent, child).
     accept_attempt (ce_gateway env) parent child))))))"

definition discard_call_named :: "string \<times> nu_value \<Rightarrow> string \<times> string \<Rightarrow> (string \<times> string) res" where
  "discard_call_named nv s = (case nv of (name, v) \<Rightarrow>
     if name = ''attempt'' then and_then (attempt_id_from_value v ''attempt_discard attempt'') (\<lambda>a. Inr (a, snd s))
     else if name = ''reason'' then and_then (value_to_string v ''attempt_discard reason'') (\<lambda>t. Inr (fst s, t))
     else Inl (unexpected_keyword ''attempt_discard'' name))"

definition eval_attempt_discard_call :: "'g call_env \<Rightarrow> call \<Rightarrow> ('g, attempt_value) act" where
  "eval_attempt_discard_call env call = (case call of Call fn positional named \<Rightarrow>
     act_then (eval_call_values env fn positional named) (\<lambda>(vs, nvs).
     act_then (act_require (length vs \<le> 2) ''attempt_discard''
       ''attempt_discard() accepts at most attempt and reason arguments'' []) (\<lambda>_.
     act_then (act_lift (opt_res (\<lambda>v. attempt_id_from_value v ''attempt_discard attempt'') (vec_get vs 0))) (\<lambda>attempt.
     act_then (act_lift (opt_res (\<lambda>v. value_to_string v ''attempt_discard reason'') (vec_get vs 1))) (\<lambda>reason.
     act_then (act_lift (fold_ok discard_call_named nvs (unwrap_or [] attempt, unwrap_or [] reason))) (\<lambda>(attempt, reason).
     discard_attempt (ce_gateway env) attempt reason))))))"

definition wait_timeout :: "nu_value \<Rightarrow> nat res" where
  "wait_timeout v = and_then (value_to_u64 v ''attempt_wait timeout_ms'')
     (u32_limited ''attempt_wait'' ''timeout_ms is too large'')"

definition wait_named :: "string \<times> nu_value \<Rightarrow> string \<times> nat option \<Rightarrow> (string \<times> nat option) res" where
  "wait_named nv s = (case nv of (name, v) \<Rightarrow>
     if name = ''attempt'' then and_then (attempt_id_from_value v ''attempt_wait attempt'') (\<lambda>a. Inr (a, snd s))
     else if name = ''timeout_ms'' then and_then (wait_timeout v) (\<lambda>t. Inr (fst s, Some t))
     else Inl (unexpected_keyword ''attempt_wait'' name))"

definition eval_attempt_wait_call :: "'g call_env \<Rightarrow> call \<Rightarrow> ('g, attempt_value) act" where
  "eval_attempt_wait_call env call = (case call of Call fn positional named \<Rightarrow>
     act_then (eval_call_values env fn positional named) (\<lambda>(vs, nvs).
     act_then (act_require (length vs \<le> 2) ''attempt_wait''
       ''attempt_wait() accepts at most attempt and timeout_ms positional arguments'' []) (\<lambda>_.
     act_then (act_lift (opt_res (\<lambda>v. attempt_id_from_value v ''attempt_wait attempt'') (vec_get vs 0))) (\<lambda>attempt.
     act_then (act_lift (opt_res wait_timeout (vec_get vs 1))) (\<lambda>timeout.
     act_then (act_lift (fold_ok wait_named nvs (unwrap_or [] attempt, timeout))) (\<lambda>(attempt, timeout).
     act_then (act_gateway (gw_wait (ce_gateway env) attempt timeout)) (\<lambda>r. act_ret (ARuntime (RNu r)))))))))"

definition release_named :: "'g call_env \<Rightarrow> string \<times> expr \<Rightarrow> attempt_value option \<Rightarrow> ('g, attempt_value option) act" where
  "release_named env ne s = (case ne of (name, e) \<Rightarrow>
     act_then (ce_eval env e) (\<lambda>v. act_lift
       (if name = ''frontier'' \<and> s = None then Inr (Some v)
        else if name = ''frontier'' then Inl (stone_error ''semantic_frontier_release'' ''`frontier` was supplied more than once'' [])
        else Inl (stone_error ''semantic_frontier_release''
               ''unexpected semantic_frontier_release keyword argument `{}`'' [MStr name]))))"

definition eval_semantic_frontier_release_call :: "'g call_env \<Rightarrow> call \<Rightarrow> ('g, attempt_value) act" where
  "eval_semantic_frontier_release_call env call = (case call of Call fn positional named \<Rightarrow>
     act_then (act_require (length positional \<le> 1) ''semantic_frontier_release''
       ''semantic_frontier_release() accepts exactly one semantic frontier'' []) (\<lambda>_.
     act_then (act_option (ce_eval env) (vec_get positional 0)) (\<lambda>frontier.
     act_then (act_fold (release_named env) named frontier) (\<lambda>frontier.
     case frontier of
       Some (AFrontier i) \<Rightarrow> release_explicitly (ce_gateway env) i
     | _ \<Rightarrow> act_fail ''semantic_frontier_release'' ''frontier must be a semantic_frontier created by semantic_frontier()'' []))))"

section \<open>The calls by name\<close>

text \<open>The calls of this theory as the evaluator picks them by the name of the function; \<open>None\<close> stands for any
  other function.\<close>

definition eval_attempt_call :: "'g call_env \<Rightarrow> call \<Rightarrow> ('g, attempt_value) act option" where
  "eval_attempt_call env call = (case call of Call fn _ _ \<Rightarrow>
     if fn = ''attempt_wait'' then Some (eval_attempt_wait_call env call)
     else if fn = ''attempt_join'' then Some (eval_attempt_join_call env call)
     else if fn = ''attempt_wait_any'' then Some (eval_attempt_wait_set_call env call False)
     else if fn = ''attempt_wait_all'' then Some (eval_attempt_wait_set_call env call True)
     else if fn = ''attempt_terminate'' then Some (eval_attempt_terminate_call env call)
     else if fn = ''attempt_retain_failure'' then Some (eval_attempt_retain_failure_call env call)
     else if fn = ''attempt_best'' then Some (eval_attempt_best_call env call)
     else if fn = ''attempt_best_consider'' then Some (eval_attempt_best_consider_call env call)
     else if fn = ''attempt_best_accept'' then Some (eval_attempt_best_accept_call env call)
     else if fn = ''attempt_best_discard'' then Some (eval_attempt_best_discard_call env call)
     else if fn = ''attempt_scope'' then Some (eval_attempt_scope_call env call)
     else if fn = ''attempt_scope_add'' then Some (eval_attempt_scope_add_call env call)
     else if fn = ''attempt_scope_close'' then Some (eval_attempt_scope_close_call env call)
     else if fn = ''semantic_frontier_release'' then Some (eval_semantic_frontier_release_call env call)
     else if fn = ''attempt_accept'' then Some (eval_attempt_accept_call env call)
     else if fn = ''attempt_discard'' then Some (eval_attempt_discard_call env call)
     else None)"

end
