(* ===== verification/Attempt_Calls_Correct.thy ===== *)
theory Attempt_Calls_Correct
  imports Attempt_Calls Attempt_Settled
begin

text \<open>Every call on attempts is a sequence of the steps of \<open>Attempt_Correct\<close>, and the values it returns refer to
  scopes, selectors, failures and frontiers that exist.\<close>

section \<open>The stores only grow\<close>

definition stores_grow :: "'g attempt_world \<Rightarrow> 'g attempt_world \<Rightarrow> bool" where
  "stores_grow w w' \<longleftrightarrow> length (aw_scopes w) \<le> length (aw_scopes w') \<and> length (aw_bests w) \<le> length (aw_bests w')
     \<and> length (aw_failures w) \<le> length (aw_failures w') \<and> length (aw_frontiers w) \<le> length (aw_frontiers w')"

lemma stores_grow_refl [simp]: "stores_grow w w"
  by (simp add: stores_grow_def)

lemma stores_grow_trans: "stores_grow w w' \<Longrightarrow> stores_grow w' w'' \<Longrightarrow> stores_grow w w''"
  by (simp add: stores_grow_def)

lemma stores_grow_updates [simp]:
  "stores_grow w (mark_all_joined a w') = stores_grow w w'" "stores_grow w (mark_all_resolved a w') = stores_grow w w'"
  "stores_grow w (resolve_retained_failures a r w') = stores_grow w w'" "stores_grow w (put_scope i s w') = stores_grow w w'"
  "stores_grow w (put_best k b w') = stores_grow w w'" "stores_grow w (put_frontier j f w') = stores_grow w w'"
  "stores_grow w (w'\<lparr> aw_gateway := g \<rparr>) = stores_grow w w'"
  by (simp_all add: stores_grow_def mark_all_joined_def mark_all_resolved_def resolve_retained_failures_def put_scope_def
      put_best_def put_frontier_def)

lemma act_then_stores:
  assumes "stores_grow w (snd (m w))" and "\<And>x w'. stores_grow w' (snd (f x w'))"
  shows "stores_grow w (snd (act_then m f w))"
  using assms(1) assms(2) by (cases "m w"; cases "fst (m w)") (auto simp: act_then_def intro: stores_grow_trans)

lemma act_gateway_stores: "stores_grow w (snd (act_gateway call w))"
  by (simp add: act_gateway_def split: prod.splits)

lemma fresh_id_stores: "stores_grow w (snd (fresh_id w))"
  by (simp add: fresh_id_def stores_grow_def)

lemma update_best_stores: "stores_grow w (snd (update_best k f w))"
  unfolding update_best_def by (intro act_then_stores) simp_all

lemma collect_ready_stores: "stores_grow w (snd (collect_ready rs w))"
proof (induction rs arbitrary: w)
  case (Cons r rs)
  then show ?case unfolding collect_ready.simps by (intro act_then_stores) simp_all
qed simp

lemma appended_stores:
  "stores_grow w (w\<lparr> aw_scopes := aw_scopes w @ xs \<rparr>)" "stores_grow w (w\<lparr> aw_bests := aw_bests w @ ys \<rparr>)"
  "stores_grow w (w\<lparr> aw_failures := aw_failures w @ zs \<rparr>)"
  by (simp_all add: stores_grow_def)

lemmas stores_intros = act_then_stores act_gateway_stores fresh_id_stores update_best_stores collect_ready_stores

lemma discard_stores: "stores_grow w (snd (discard_loser gw a r w))" "stores_grow w (snd (discard_held gw r c w))"
  unfolding discard_loser_def discard_held_def
  by (cases c; (intro stores_intros; simp)) (cases c; simp; intro stores_intros; simp)

lemma follow_plan_stores: "stores_grow w (snd (follow_plan gw k c plan w))"
  unfolding follow_plan_def considered_twice_def decide_def
  by (cases plan) (auto intro!: stores_intros discard_stores)

lemma operation_stores:
  "stores_grow w (snd (join_attempt gw a t w))" "stores_grow w (snd (wait_for_attempts gw n cs all t w))"
  "stores_grow w (snd (retain_failure i out w))" "stores_grow w (snd (open_selector i ob w))"
  "stores_grow w (snd (consider_candidate gw k c w))" "stores_grow w (snd (accept_best gw k p w))"
  "stores_grow w (snd (discard_best gw k r w))" "stores_grow w (snd (accept_attempt gw p a w))"
  "stores_grow w (snd (discard_attempt gw a r w))" "stores_grow w (snd (open_scope q m w))"
  "stores_grow w (snd (add_to_scope i a w))"
  unfolding join_attempt_def wait_for_attempts_def retain_failure_def open_selector_def consider_candidate_def
    accept_best_def discard_best_def accept_attempt_def discard_attempt_def open_scope_def add_to_scope_def scope_open_def
    Let_def
  by (auto intro!: stores_intros follow_plan_stores discard_stores intro: appended_stores)

lemma call_gateway_stores: "call_gateway call w = (r, w') \<Longrightarrow> stores_grow w0 w' = stores_grow w0 w"
  by (auto dest!: call_gateway_world)

lemma child_stores:
  "stores_grow w0 (snd (first_look gw a (r, w))) = stores_grow w0 w"
  "stores_grow w0 (snd (last_look gw a (r, w))) = stores_grow w0 w"
  "stores_grow w0 (snd (terminate_child gw a (r, w))) = stores_grow w0 w"
  "stores_grow w0 (snd (join_child gw i t a (r, w))) = stores_grow w0 w"
  "stores_grow w0 (snd (settle_child gw i a reason (r, w))) = stores_grow w0 w"
  by (auto simp: first_look_def last_look_def terminate_child_def join_child_def settle_child_def resolve_child_def Let_def
      dest!: call_gateway_stores [where ?w0.0 = w0] split: prod.splits sum.splits)

lemma close_child_stores:
  "stores_grow w0 w \<Longrightarrow> stores_grow w0 (snd (snd (close_child gw i t reason c (clean, reports, w))))"
proof -
  assume w: "stores_grow w0 w"
  let ?a = "ch_attempt c"
  obtain r1 w1 where 1: "first_look gw ?a (start_run c, w) = (r1, w1)" by force
  obtain r2 w2 where 2: "terminate_child gw ?a (r1, w1) = (r2, w2)" by force
  obtain r3 w3 where 3: "stop_child gw i t ?a (r1, w1) = (r3, w3)" by force
  obtain r4 w4 where 4: "last_look gw ?a (r3, w3) = (r4, w4)" by force
  have "stores_grow w0 w1" using child_stores(1) [of w0 gw ?a "start_run c" w] w by (simp add: 1)
  moreover have "stores_grow w0 w3 = stores_grow w0 w1"
    using child_stores(3) [of w0 gw ?a r1 w1] child_stores(4) [of w0 gw i t ?a r2 w2] 2 3
    by (auto simp: stop_child_def split: if_splits)
  moreover have "stores_grow w0 w4 = stores_grow w0 w3" using child_stores(2) [of w0 gw ?a r3 w3] by (simp add: 4)
  moreover obtain r5 w5 where 5: "settle_child gw i ?a reason (r4, w4) = (r5, w5)" by force
  moreover have "stores_grow w0 w5 = stores_grow w0 w4" using child_stores(5) [of w0 gw i ?a reason r4 w4] by (simp add: 5)
  ultimately show ?thesis using w by (simp add: close_child_def 1 3 4)
qed

lemma close_children_stores:
  "stores_grow w0 w \<Longrightarrow> stores_grow w0 (snd (snd (fold (close_child gw i t reason) cs (clean, reports, w))))"
proof (induction cs arbitrary: clean reports w)
  case (Cons c cs)
  obtain b rs w1 where 1: "close_child gw i t reason c (clean, reports, w) = (b, rs, w1)"
    by (cases "close_child gw i t reason c (clean, reports, w)")
  then show ?case using Cons close_child_stores [OF Cons.prems, of gw i t reason c clean reports] by simp
qed simp

lemma close_attempt_scope_stores: "stores_grow w (snd (close_attempt_scope gw i reason w))"
proof -
  let ?s = "scope_at i w"
  obtain b rs w1 where 1: "fold (close_child gw i (sc_join_timeout_ms ?s) reason) (sc_children ?s) (True, [], w) = (b, rs, w1)"
    by (cases "fold (close_child gw i (sc_join_timeout_ms ?s) reason) (sc_children ?s) (True, [], w)")
  have "stores_grow w w1"
    using close_children_stores [of w w gw i "sc_join_timeout_ms ?s" reason "sc_children ?s" True "[]"] by (simp add: 1)
  then show ?thesis by (simp add: close_attempt_scope_def Let_def 1)
qed

lemma release_frontier_stores: "stores_grow w (snd (release_frontier gw i mark w))"
  unfolding release_frontier_def by (auto intro!: stores_intros)

section \<open>Runs\<close>

text \<open>A value is valid in a world if what it refers to is in the stores. A computation runs from a world if it
  ends in a reachable world, drops nothing from the stores and its result has the property \<open>P\<close> there.\<close>

definition valid :: "attempt_value \<Rightarrow> 'g attempt_world \<Rightarrow> bool" where
  "valid v w \<longleftrightarrow> (case v of
     AScope i \<Rightarrow> i < length (aw_scopes w) | ABest k \<Rightarrow> k < length (aw_bests w)
   | AFailure f \<Rightarrow> f < length (aw_failures w) | AFrontier i \<Rightarrow> i < length (aw_frontiers w) | _ \<Rightarrow> True)"

lemma valid_grow: "valid v w \<Longrightarrow> stores_grow w w' \<Longrightarrow> valid v w'"
  by (cases v) (auto simp: valid_def stores_grow_def)

lemma valid_simps [simp]:
  "valid (ARuntime r) w" "valid (AHandle h) w" "valid (AOutcome out) w" "valid (AAcceptance a) w"
  "valid (AScope i) w \<longleftrightarrow> i < length (aw_scopes w)" "valid (ABest k) w \<longleftrightarrow> k < length (aw_bests w)"
  "valid (AFailure f) w \<longleftrightarrow> f < length (aw_failures w)" "valid (AFrontier j) w \<longleftrightarrow> j < length (aw_frontiers w)"
  by (simp_all add: valid_def)

definition runs :: "'g gateway \<Rightarrow> ('a \<Rightarrow> 'g attempt_world \<Rightarrow> bool) \<Rightarrow> ('g, 'a) act \<Rightarrow> 'g attempt_world \<Rightarrow> bool" where
  "runs gw P m w \<longleftrightarrow> (case m w of (r, w') \<Rightarrow> reachable_world gw w' \<and> stores_grow w w' \<and> (\<forall>x. r = Inr x \<longrightarrow> P x w'))"

lemma runs_then:
  assumes "runs gw P m w"
    and "\<And>x w'. reachable_world gw w' \<Longrightarrow> stores_grow w w' \<Longrightarrow> P x w' \<Longrightarrow> runs gw R (f x) w'"
  shows "runs gw R (act_then m f) w"
proof -
  obtain r w' where run: "m w = (r, w')" by force
  show ?thesis
  proof (cases r)
    case (Inl e)
    then show ?thesis using assms(1) run by (simp add: runs_def act_then_def)
  next
    case (Inr x)
    then have "runs gw R (f x) w'" "stores_grow w w'" using assms run by (auto simp: runs_def)
    then show ?thesis using Inr run by (auto simp: runs_def act_then_def intro: stores_grow_trans split: prod.splits)
  qed
qed

lemma runs_simple [simp]:
  "runs gw P (act_ret x) w \<longleftrightarrow> reachable_world gw w \<and> P x w"
  "runs gw P (act_lift r) w \<longleftrightarrow> reachable_world gw w \<and> (\<forall>x. r = Inr x \<longrightarrow> P x w)"
  "runs gw P (act_fail k m a) w \<longleftrightarrow> reachable_world gw w"
  "runs gw Q (act_require b k m a) w \<longleftrightarrow> reachable_world gw w \<and> (b \<longrightarrow> Q () w)"
  "runs gw P (act_read f) w \<longleftrightarrow> reachable_world gw w \<and> P (f w) w"
  by (auto simp: runs_def)

lemma runs_weaken: "runs gw P m w \<Longrightarrow> (\<And>x w'. P x w' \<Longrightarrow> Q x w') \<Longrightarrow> runs gw Q m w"
  by (auto simp: runs_def split: prod.splits)

lemma runs_gateway: "reachable_world gw w \<Longrightarrow> runs gw (\<lambda>_ _. True) (act_gateway call) w"
  using reachable_world.step [OF _ attempt_step.moves] by (auto simp: runs_def act_gateway_def split: prod.splits)

lemma runs_option:
  assumes "reachable_world gw w"
    and "\<And>a. x = Some a \<Longrightarrow> runs gw P (f a) w"
  shows "runs gw (\<lambda>y w'. \<forall>b. y = Some b \<longrightarrow> P b w') (act_option f x) w"
  using assms by (cases x) (auto simp: act_option_def intro: runs_then)

lemma runs_list:
  assumes "\<And>a w'. reachable_world gw w' \<Longrightarrow> runs gw (\<lambda>_ _. True) (f a) w'" and "reachable_world gw w"
  shows "runs gw (\<lambda>_ _. True) (act_list f xs) w"
  using assms(2) by (induction xs arbitrary: w) (auto intro!: runs_then assms(1))

lemma runs_fold:
  assumes "\<And>a s w'. reachable_world gw w' \<Longrightarrow> stores_grow w w' \<Longrightarrow> I s w' \<Longrightarrow> runs gw I (g a s) w'"
    and "reachable_world gw w" and "I s w"
  shows "runs gw I (act_fold g xs s) w"
proof -
  have "stores_grow w w1 \<Longrightarrow> reachable_world gw w1 \<Longrightarrow> I s w1 \<Longrightarrow> runs gw I (act_fold g xs s) w1" for w1
  proof (induction xs arbitrary: s w1)
    case (Cons x xs)
    have "runs gw I (act_fold g xs t) w2" if "reachable_world gw w2" "stores_grow w1 w2" "I t w2" for t w2
      using Cons.IH [of w2 t] Cons.prems(1) that stores_grow_trans by blast
    then show ?case using assms(1) [of w1 s x] Cons.prems by (auto intro: runs_then)
  qed simp
  then show ?thesis using assms(2,3) by simp
qed

lemma runs_step:
  assumes "attempt_step gw w (snd (m w))" "stores_grow w (snd (m w))" "reachable_world gw w"
    and "\<And>x w'. m w = (Inr x, w') \<Longrightarrow> P x w'"
  shows "runs gw P m w"
  using assms reachable_world.step by (auto simp: runs_def split: prod.splits)

section \<open>The steps\<close>

lemma act_then_Inr: "act_then m f w = (Inr y, w') \<longleftrightarrow> (\<exists>x w1. m w = (Inr x, w1) \<and> f x w1 = (Inr y, w'))"
  by (auto simp: act_then_def split: prod.splits sum.splits)

lemma scope_open_Inr [simp]: "scope_open i k m w = (Inr x, w') \<longleftrightarrow> w' = w \<and> \<not> sc_closed (scope_at i w)"
  by (auto simp: scope_open_def act_then_Inr)

lemma decide_Inr [simp]:
  "decide k c a b d w = (Inr v, w') \<longleftrightarrow> w' = w \<and> v = ARuntime (RNu (decision_record c a b d (best_at k w)))"
  by (auto simp: decide_def act_then_Inr)

lemma fresh_id_Inr: "fresh_id w = (Inr n, w') \<Longrightarrow> aw_scopes w' = aw_scopes w \<and> aw_bests w' = aw_bests w"
  by (auto simp: fresh_id_def)

lemma results_valid:
  "join_attempt gw a t w = (Inr v, w') \<Longrightarrow> valid v w'"
  "wait_for_attempts gw n cs all t w = (Inr v, w') \<Longrightarrow> valid v w'"
  "retain_failure i out w = (Inr v, w') \<Longrightarrow> valid v w'"
  "open_selector i ob w = (Inr v, w') \<Longrightarrow> valid v w'"
  "accept_best gw k p w = (Inr v, w') \<Longrightarrow> valid v w'"
  "discard_best gw k r w = (Inr v, w') \<Longrightarrow> valid v w'"
  "accept_attempt gw p a w = (Inr v, w') \<Longrightarrow> valid v w'"
  "discard_attempt gw a r w = (Inr v, w') \<Longrightarrow> valid v w'"
  "open_scope q m w = (Inr v, w') \<Longrightarrow> valid v w'"
  by (auto simp: join_attempt_def wait_for_attempts_def retain_failure_def open_selector_def accept_best_def
      discard_best_def accept_attempt_def discard_attempt_def open_scope_def act_then_Inr Let_def fresh_id_def
      split: if_splits)

lemma follow_plan_valid: "follow_plan gw k c plan w = (Inr v, w') \<Longrightarrow> valid v w'"
  by (cases plan) (auto simp: follow_plan_def act_then_Inr)

lemma considered_valid: "consider_candidate gw k c w = (Inr v, w') \<Longrightarrow> valid v w'"
  by (auto simp: consider_candidate_def act_then_Inr Let_def intro: follow_plan_valid)

lemma runs_operations:
  assumes "reachable_world gw w"
  shows "runs gw valid (join_attempt gw a t) w" "runs gw valid (wait_for_attempts gw n cs all t) w"
    "runs gw valid (accept_attempt gw p a) w" "runs gw valid (discard_attempt gw a r) w" "runs gw valid (open_scope q m) w"
  using assms
  by (auto intro!: runs_step attempt_step.intros operation_stores dest: results_valid)

lemma runs_scope_operations:
  assumes "reachable_world gw w" and "i < length (aw_scopes w)"
  shows "runs gw valid (retain_failure i out) w" "runs gw valid (open_selector i ob) w"
    "runs gw valid (add_to_scope i a) w"
proof -
  have "runs gw (\<lambda>v _. v = AScope i) (add_to_scope i a) w"
    using assms by (intro runs_step attempt_step.intros operation_stores) (auto simp: add_to_scope_def act_then_Inr)
  then show "runs gw valid (add_to_scope i a) w"
    using assms(2) by (auto simp: runs_def stores_grow_def split: prod.splits)
qed (use assms in \<open>auto intro!: runs_step attempt_step.intros operation_stores dest: results_valid\<close>)

lemma runs_best_operations:
  assumes "reachable_world gw w" and "k < length (aw_bests w)"
  shows "runs gw valid (consider_candidate gw k c) w" "runs gw valid (accept_best gw k p) w"
    "runs gw valid (discard_best gw k r) w"
  using assms
  by (auto intro!: runs_step attempt_step.intros operation_stores dest: results_valid considered_valid)

lemma runs_release:
  assumes "reachable_world gw w"
  shows "runs gw valid (release_explicitly gw i) w"
proof -
  have "runs gw (\<lambda>_ _. True) (release_frontier gw i mark_released) w"
    using assms by (intro runs_step attempt_step.releases release_frontier_stores) auto
  then show ?thesis unfolding release_explicitly_def by (auto simp: runs_def act_then_def split: prod.splits sum.splits)
qed

lemma runs_close:
  assumes "reachable_world gw w" and "i < length (aw_scopes w)"
  shows "runs gw valid (\<lambda>w. case close_attempt_scope gw i reason w of (report, w') \<Rightarrow> (Inr (ARuntime (RNu report)), w')) w"
  using reachable_world.step [OF assms(1) attempt_step.closes [OF assms(2), of gw reason]]
    close_attempt_scope_stores [of w gw i reason]
  by (auto simp: runs_def split: prod.splits)

section \<open>The arguments\<close>

text \<open>The evaluation of an expression is sound if it takes the world along the steps of the attempts and returns
  valid values.\<close>

definition sound_eval :: "'g call_env \<Rightarrow> bool" where
  "sound_eval env \<longleftrightarrow> (\<forall>e w. reachable_world (ce_gateway env) w \<longrightarrow> runs (ce_gateway env) valid (ce_eval env e) w)"

lemma runs_into_nu: "reachable_world gw w \<Longrightarrow> runs gw (\<lambda>_ _. True) (into_nu m context v) w"
  by (cases v) (auto simp: into_nu_def intro!: runs_then)

lemma runs_eval: "sound_eval env \<Longrightarrow> reachable_world (ce_gateway env) w \<Longrightarrow> runs (ce_gateway env) valid (ce_eval env e) w"
  by (simp add: sound_eval_def)

lemma runs_eval_nu:
  "sound_eval env \<Longrightarrow> reachable_world (ce_gateway env) w \<Longrightarrow> runs (ce_gateway env) (\<lambda>_ _. True) (eval_nu env context e) w"
  unfolding eval_nu_def by (auto intro: runs_then runs_eval runs_into_nu)

lemma runs_texts:
  assumes "sound_eval env" and "reachable_world (ce_gateway env) w"
  shows "runs (ce_gateway env) (\<lambda>_ _. True) (eval_text env context e) w"
    "runs (ce_gateway env) (\<lambda>_ _. True) (eval_attempt_id env context e) w"
  unfolding eval_text_def eval_attempt_id_def by (auto intro!: runs_then runs_eval_nu assms)

lemma runs_refs:
  assumes "sound_eval env" and "reachable_world (ce_gateway env) w"
  shows "runs (ce_gateway env) (\<lambda>i w'. i < length (aw_scopes w')) (eval_scope_ref env context e) w"
    "runs (ce_gateway env) (\<lambda>k w'. k < length (aw_bests w')) (eval_best_ref env context e) w"
  unfolding eval_scope_ref_def eval_best_ref_def
  by (auto intro!: runs_then [OF runs_eval [OF assms]] split: attempt_value.split)

lemma runs_set_expr:
  assumes "sound_eval env" and "reachable_world (ce_gateway env) w"
  shows "runs (ce_gateway env) (\<lambda>_ _. True) (eval_attempt_set_expr env context e) w"
  unfolding eval_attempt_set_expr_def
  by (intro runs_then [OF runs_eval [OF assms]]) (auto split: attempt_value.split rvalue.split nu_value.split)

lemma runs_call_values:
  assumes "sound_eval env" and "reachable_world (ce_gateway env) w"
  shows "runs (ce_gateway env) (\<lambda>_ _. True) (eval_call_values env fn positional named) w"
  unfolding eval_call_values_def
  by (auto intro!: runs_then [where P = "\<lambda>_ _. True"] runs_list runs_eval_nu assms split: prod.split)

section \<open>The calls\<close>

lemma runs_any: "runs gw P m w \<Longrightarrow> runs gw (\<lambda>_ _. True) m w"
  by (rule runs_weaken) simp_all

lemma runs_check:
  "reachable_world gw w \<Longrightarrow> (b \<Longrightarrow> runs gw R (f ()) w) \<Longrightarrow> runs gw R (act_then (act_require b k m a) f) w"
  by (auto simp: act_then_def act_require_def runs_def)

lemma runs_lift:
  "reachable_world gw w \<Longrightarrow> (\<And>x. r = Inr x \<Longrightarrow> runs gw R (f x) w) \<Longrightarrow> runs gw R (act_then (act_lift r) f) w"
  by (cases r) (auto simp: act_then_def runs_def)

lemma runs_values:
  assumes "sound_eval env" and "reachable_world (ce_gateway env) w"
    and "\<And>vs nvs w'. reachable_world (ce_gateway env) w' \<Longrightarrow> runs (ce_gateway env) R (f (vs, nvs)) w'"
  shows "runs (ce_gateway env) R (act_then (eval_call_values env fn positional named) f) w"
  using assms(3) by (intro runs_then [OF runs_call_values [OF assms(1,2)]]) auto

text \<open>The calls that evaluate all their arguments first.\<close>

lemma runs_value_calls:
  assumes env: "sound_eval env" and w: "reachable_world (ce_gateway env) w"
  shows "runs (ce_gateway env) valid (eval_attempt_join_call env call) w"
    "runs (ce_gateway env) valid (eval_attempt_terminate_call env call) w"
    "runs (ce_gateway env) valid (eval_attempt_scope_call env call) w"
    "runs (ce_gateway env) valid (eval_attempt_accept_call env call) w"
    "runs (ce_gateway env) valid (eval_attempt_discard_call env call) w"
    "runs (ce_gateway env) valid (eval_attempt_wait_call env call) w"
  unfolding eval_attempt_join_call_def eval_attempt_terminate_call_def eval_attempt_scope_call_def
    eval_attempt_accept_call_def eval_attempt_discard_call_def eval_attempt_wait_call_def
  by (cases call; auto intro!: runs_lift runs_values [OF env] runs_check runs_operations w runs_then [OF runs_gateway])+

text \<open>The calls that evaluate and check one argument after the other.\<close>

abbreviation anything :: "'a \<Rightarrow> 'g attempt_world \<Rightarrow> bool" where
  "anything \<equiv> \<lambda>_ _. True"

lemma runs_any_option:
  assumes "reachable_world gw w" and "\<And>a. runs gw anything (f a) w"
  shows "runs gw anything (act_option f x) w"
  using runs_option [of gw w x anything f] assms by (simp add: runs_any)

lemma runs_any_fold:
  assumes "\<And>a s w'. reachable_world gw w' \<Longrightarrow> runs gw anything (g a s) w'" and "reachable_world gw w"
  shows "runs gw anything (act_fold g xs s) w"
  using assms by (intro runs_fold) auto

lemma runs_named:
  assumes env: "sound_eval env" and w: "reachable_world (ce_gateway env) w"
  shows "runs (ce_gateway env) anything (wait_set_named env fn ne cs) w"
    "runs (ce_gateway env) anything (consider_named env ne ca) w"
    "runs (ce_gateway env) anything (accept_named env ne parent) w"
    "runs (ce_gateway env) anything (discard_named env ne reason) w"
    "runs (ce_gateway env) anything (close_named env ne reason) w"
    "runs (ce_gateway env) anything (release_named env ne fr) w"
  unfolding wait_set_named_def consider_named_def accept_named_def discard_named_def close_named_def release_named_def
  by (cases ne; auto intro!: runs_check runs_then [OF runs_set_expr [OF env]] runs_then [OF runs_eval_nu [OF env]]
      runs_then [OF runs_eval [OF env]] runs_lift runs_texts [OF env] w)+

text \<open>A scope among the arguments, once it has been evaluated, stays in the store.\<close>

definition scope_argument :: "nat option \<times> 'a \<Rightarrow> 'g attempt_world \<Rightarrow> bool" where
  "scope_argument s w \<longleftrightarrow> (\<forall>i. fst s = Some i \<longrightarrow> i < length (aw_scopes w))"

lemma scope_argument_simps [simp]:
  "scope_argument (None, x) w" "scope_argument (Some i, x) w \<longleftrightarrow> i < length (aw_scopes w)"
  by (simp_all add: scope_argument_def)

lemma scope_argument_grow: "scope_argument s w \<Longrightarrow> stores_grow w w' \<Longrightarrow> scope_argument s w'"
  by (auto simp: scope_argument_def stores_grow_def)

lemma runs_scope_ref:
  assumes "sound_eval env" and "reachable_world (ce_gateway env) w"
  shows "runs (ce_gateway env) scope_argument (act_then (eval_scope_ref env what e) (\<lambda>i. act_ret (Some i, x))) w"
  by (rule runs_then [OF runs_refs(1) [OF assms]]) simp

lemma runs_keep_scope:
  assumes "runs gw anything m w" and "scope_argument s w"
  shows "runs gw scope_argument (act_then m (\<lambda>v. act_ret (fst s, f v))) w"
  using assms(2) by (intro runs_then [OF assms(1)]) (auto simp: scope_argument_def stores_grow_def)

lemma runs_scope_named:
  assumes env: "sound_eval env" and w: "reachable_world (ce_gateway env) w"
  shows "scope_argument s w \<Longrightarrow> runs (ce_gateway env) scope_argument (retain_named env ne s) w"
    "scope_argument t w \<Longrightarrow> runs (ce_gateway env) scope_argument (best_named env ne t) w"
  unfolding retain_named_def best_named_def
  by (cases ne; simp add: w; intro impI conjI runs_check runs_scope_ref runs_keep_scope
      runs_any [OF runs_eval [OF env w]] runs_texts(1) env w; assumption)+

lemma runs_wait_set_call:
  assumes env: "sound_eval env" and w: "reachable_world (ce_gateway env) w"
  shows "runs (ce_gateway env) valid (eval_attempt_wait_set_call env call wait_all) w"
  unfolding eval_attempt_wait_set_call_def
  by (cases call; auto intro!: runs_check runs_lift runs_operations w runs_set_expr [OF env] runs_eval_nu [OF env]
      runs_then [OF runs_any_option] runs_then [OF runs_any_fold] runs_then [OF runs_eval_nu [OF env]] runs_named [OF env])

lemma runs_scope_option:
  assumes "sound_eval env" and "reachable_world (ce_gateway env) w"
  shows "runs (ce_gateway env) (\<lambda>s w'. scope_argument (s, y) w') (act_option (eval_scope_ref env what) x) w"
  unfolding scope_argument_def fst_conv by (rule runs_option [OF assms(2) runs_refs(1) [OF assms]])

lemma scope_argument_still: "scope_argument (x, y) w \<Longrightarrow> stores_grow w w' \<Longrightarrow> scope_argument (x, z) w'"
  by (auto simp: scope_argument_def stores_grow_def)

lemma runs_open:
  "reachable_world gw w \<Longrightarrow> runs gw R (f ()) w \<Longrightarrow> runs gw R (act_then (scope_open i k m) f) w"
  by (auto simp: act_then_def scope_open_def act_require_def act_read_def act_ret_def act_fail_def runs_def)

lemma runs_retain_failure_call:
  assumes env: "sound_eval env" and w: "reachable_world (ce_gateway env) w"
  shows "runs (ce_gateway env) valid (eval_attempt_retain_failure_call env call) w"
proof (cases call)
  case (Call fn positional named)
  have some: "ok_or e scope = Inr i \<Longrightarrow> scope_argument (scope, x) w \<Longrightarrow> i < length (aw_scopes w)"
    for e scope i and x :: "attempt_value option" and w :: "'a attempt_world"
    by (cases scope) (auto simp: ok_or_def)
  show ?thesis
    unfolding eval_attempt_retain_failure_call_def Call call.case Let_def
    by (auto intro!: runs_check w runs_then [OF runs_scope_option [OF env, where y = None]] runs_then [OF runs_any_option]
        runs_any [OF runs_eval [OF env]] runs_then [OF runs_fold [where I = scope_argument]] runs_lift runs_open
        runs_scope_operations runs_scope_named [OF env] some intro: scope_argument_still)
qed

lemma ok_or_Inr [simp]: "ok_or e x = Inr y \<longleftrightarrow> x = Some y"
  by (cases x) (simp_all add: ok_or_def)

lemma runs_best_call:
  assumes env: "sound_eval env" and w: "reachable_world (ce_gateway env) w"
  shows "runs (ce_gateway env) valid (eval_attempt_best_call env call) w"
  unfolding eval_attempt_best_call_def
  by (cases call; auto intro!: runs_check w runs_then [OF runs_scope_option [OF env, where y = "[]"]]
      runs_then [OF runs_any_option] runs_texts [OF env] runs_then [OF runs_fold [where I = scope_argument]] runs_lift
      runs_scope_operations runs_scope_named [OF env] intro: scope_argument_still)

text \<open>A selector or a scope that has been evaluated stays in the store while the other arguments are evaluated.\<close>

lemma runs_then_best:
  assumes "runs gw anything m w" and "k < length (aw_bests w)"
    and "\<And>x w'. reachable_world gw w' \<Longrightarrow> k < length (aw_bests w') \<Longrightarrow> runs gw R (f x) w'"
  shows "runs gw R (act_then m f) w"
  using assms(2,3) by (intro runs_then [OF assms(1)]) (auto simp: stores_grow_def)

lemma runs_then_scope:
  assumes "runs gw anything m w" and "i < length (aw_scopes w)"
    and "\<And>x w'. reachable_world gw w' \<Longrightarrow> i < length (aw_scopes w') \<Longrightarrow> runs gw R (f x) w'"
  shows "runs gw R (act_then m f) w"
  using assms(2,3) by (intro runs_then [OF assms(1)]) (auto simp: stores_grow_def)

lemma runs_selector_calls:
  assumes env: "sound_eval env" and w: "reachable_world (ce_gateway env) w"
  shows "runs (ce_gateway env) valid (eval_attempt_best_consider_call env call) w"
    "runs (ce_gateway env) valid (eval_attempt_best_accept_call env call) w"
    "runs (ce_gateway env) valid (eval_attempt_best_discard_call env call) w"
proof -
  note args = runs_any_option runs_any_fold runs_named [OF env] runs_texts [OF env] runs_eval_nu [OF env]
  have score: "runs (ce_gateway env) anything (act_then (eval_nu env what e) (\<lambda>v. act_lift (g v))) w'"
    if "reachable_world (ce_gateway env) w'" for what e w' and g :: "nu_value \<Rightarrow> 'b res"
    using that by (intro runs_then [OF runs_eval_nu [OF env]]) auto
  have outcome: "runs (ce_gateway env) anything (act_then (ce_eval env e) (\<lambda>v. act_lift (g v))) w'"
    if "reachable_world (ce_gateway env) w'" for e w' and g :: "attempt_value \<Rightarrow> 'b res"
    using that by (intro runs_then [OF runs_eval [OF env]]) auto
  show "runs (ce_gateway env) valid (eval_attempt_best_consider_call env call) w"
    unfolding eval_attempt_best_consider_call_def Let_def
    by (cases call; simp only: call.case; intro runs_check w runs_then [OF runs_refs(2) [OF env w]]
        runs_then_best [OF outcome] runs_then_best [OF runs_any_option [OF _ score]] runs_then_best [OF runs_any_fold]
        runs_named [OF env] runs_lift runs_best_operations; assumption)
  show "runs (ce_gateway env) valid (eval_attempt_best_accept_call env call) w"
    "runs (ce_gateway env) valid (eval_attempt_best_discard_call env call) w"
    unfolding eval_attempt_best_accept_call_def eval_attempt_best_discard_call_def
    by (cases call; simp only: call.case; intro runs_check w runs_then [OF runs_refs(2) [OF env w]]
        runs_then_best [OF runs_any_option] runs_then_best [OF runs_any_fold] runs_texts [OF env]
        runs_named [OF env] runs_best_operations; assumption)+
qed

lemma runs_scope_calls:
  assumes env: "sound_eval env" and w: "reachable_world (ce_gateway env) w"
  shows "runs (ce_gateway env) valid (eval_attempt_scope_add_call env call) w"
    "runs (ce_gateway env) valid (eval_attempt_scope_close_call env call) w"
  unfolding eval_attempt_scope_add_call_def eval_attempt_scope_close_call_def
  by (cases call; simp only: call.case; intro runs_check w runs_then [OF runs_refs(1) [OF env w]]
      runs_then_scope [OF runs_texts(2) [OF env]] runs_then_scope [OF runs_any_fold] runs_named [OF env]
      runs_scope_operations runs_close; assumption)+

lemma runs_release_call:
  assumes env: "sound_eval env" and w: "reachable_world (ce_gateway env) w"
  shows "runs (ce_gateway env) valid (eval_semantic_frontier_release_call env call) w"
  unfolding eval_semantic_frontier_release_call_def
  by (cases call; auto intro!: runs_check w runs_then [OF runs_any_option] runs_any [OF runs_eval [OF env]]
      runs_then [OF runs_any_fold] runs_named [OF env] runs_release split: option.split attempt_value.split)

lemmas runs_calls = runs_value_calls runs_wait_set_call runs_retain_failure_call runs_best_call runs_selector_calls
  runs_scope_calls runs_release_call

text \<open>C11: Whatever a program passes to the calls on attempts, and whatever the gateway answers, a call
  leaves a well-formed world. The call may fail at any of its checks, after some of its arguments have been
  evaluated. If it returns a value, that value refers to an existing scope, selector, failure or
  frontier; nothing the program held before has been dropped from the stores. The evaluation of the arguments is a
  parameter and is assumed to do the same.\<close>

theorem attempt_calls_sound:
  assumes "sound_eval env" and "reachable_world (ce_gateway env) w" and "eval_attempt_call env call = Some m"
  shows "case m w of (r, w') \<Rightarrow> reachable_world (ce_gateway env) w' \<and> world_ok w' \<and> stores_grow w w'
     \<and> (\<forall>v. r = Inr v \<longrightarrow> valid v w')"
proof -
  have "runs (ce_gateway env) valid m w"
    using assms(3) runs_calls [OF assms(1,2)] by (cases call) (auto simp: eval_attempt_call_def split: if_splits)
  then show ?thesis by (auto simp: runs_def dest: reachable_world_ok split: prod.splits)
qed

section \<open>An example\<close>

text \<open>The name of the first scope evaluates to it, everything else to the identifier of a child.\<close>

definition sample_eval :: "expr \<Rightarrow> (unit, attempt_value) act" where
  "sample_eval e w = (case e of
     EName _ \<Rightarrow> (if aw_scopes w = [] then Inl (stone_error ''name'' ''unknown'' []) else Inr (AScope 0), w)
   | _ \<Rightarrow> (Inr (ARuntime (RNu (VString ''c''))), w))"

definition sample_env :: "unit call_env" where
  "sample_env = \<lparr> ce_gateway = sample_gateway, ce_eval = sample_eval, ce_materialize = (\<lambda>_. Inr VNothing) \<rparr>"

lemma sample_env_sound: "sound_eval sample_env"
  by (auto simp: sound_eval_def sample_env_def runs_def sample_eval_def split: expr.splits)

theorem attempt_calls_sound_witness:
  "world_ok (snd (eval_attempt_scope_add_call sample_env (Call ''attempt_scope_add'' [EName ''s'', EString ''c''] [])
     sample_world))"
proof -
  have "eval_attempt_call sample_env (Call ''attempt_scope_add'' [EName ''s'', EString ''c''] [])
      = Some (eval_attempt_scope_add_call sample_env (Call ''attempt_scope_add'' [EName ''s'', EString ''c''] []))"
    by (simp add: eval_attempt_call_def)
  moreover have "reachable_world (ce_gateway sample_env) sample_world"
    using sample_world_reachable by (simp add: sample_env_def)
  ultimately show ?thesis
    using attempt_calls_sound [OF sample_env_sound] by (fastforce split: prod.splits)
qed

end
