(* ===== verification/Text_Methods.thy ===== *)
theory Text_Methods
  imports Collections Json_Access
begin

text \<open>The methods of strings and records (\<open>stone_builtins.rs\<close>). A text is the list of its UTF-8 bytes, so
  an index that Rust reports is a position in that list. The Unicode classes and case mappings beyond ASCII, the
  shortest text of a float and the text of a JSON value are parameters.\<close>

record text_env =
  te_alphabetic :: "string \<Rightarrow> bool"
  te_alphanumeric :: "string \<Rightarrow> bool"
  te_lower :: "string \<Rightarrow> string"
  te_upper :: "string \<Rightarrow> string"
  te_float_text :: "f64 \<Rightarrow> string"
  te_json_text :: "json \<Rightarrow> string"
  te_other_json :: "string \<Rightarrow> json"

definition json_text_of :: "text_env \<Rightarrow> nu_value \<Rightarrow> string" where
  "json_text_of env v = te_json_text env (nu_to_json_value (te_other_json env) v)"

section \<open>Searching\<close>

definition char_offset :: "nat \<Rightarrow> string \<Rightarrow> nat" where
  "char_offset n s = length (concat (take n (str_chars s)))"

definition search_start :: "string \<Rightarrow> nu_value list \<Rightarrow> string \<Rightarrow> nat res" where
  "search_start s args name = (case args of
     [_, start] \<Rightarrow> and_then (value_to_i64 start name) (\<lambda>i. normalize_string_start i (length (str_chars s)))
   | _ \<Rightarrow> Inr 0)"

definition find_from :: "string \<Rightarrow> nat \<Rightarrow> string \<Rightarrow> nat option" where
  "find_from s start needle = (let prefix_len = char_offset start s
     in map_option (\<lambda>i. prefix_len + i) (str_find needle (drop prefix_len s)))"

definition index_value :: "nat \<Rightarrow> nu_value" where
  "index_value n = VInt (i64_of (int n))"

definition index_method_builtin :: "nu_value \<Rightarrow> nu_value list \<Rightarrow> nu_value res" where
  "index_method_builtin receiver args = (case nu_list receiver of
     Some vs \<Rightarrow> (case args of
         [needle] \<Rightarrow> ok_or (stone_error ''index'' ''value is not in list'' [])
           (map_option index_value (position (\<lambda>v. values_equal v needle) vs))
       | _ \<Rightarrow> Inl (stone_error ''index'' ''list index() requires exactly one argument'' []))
   | None \<Rightarrow> (case nu_text receiver of
         Some s \<Rightarrow>
           if length args = 1 \<or> length args = 2 then
             and_then (value_to_string (hd args) ''index'') (\<lambda>needle.
             and_then (search_start s args ''index'') (\<lambda>start.
             ok_or (stone_error ''index'' ''substring not found'' [])
               (map_option index_value (find_from s start needle))))
           else Inl (stone_error ''index'' ''string index() requires a substring and optional start'' [])
       | None \<Rightarrow> Inl (stone_error ''index'' ''{} has no index()'' [MType receiver])))"

definition find_method_builtin :: "nu_value \<Rightarrow> nu_value list \<Rightarrow> nu_value res" where
  "find_method_builtin receiver args = (case nu_text receiver of
     None \<Rightarrow> Inl (stone_error ''find'' ''{} has no find()'' [MType receiver])
   | Some s \<Rightarrow>
       if length args = 1 \<or> length args = 2 then
         and_then (value_to_string (hd args) ''find'') (\<lambda>needle.
         and_then (search_start s args ''find'') (\<lambda>start.
         Inr (case find_from s start needle of None \<Rightarrow> VInt (- 1) | Some i \<Rightarrow> index_value i)))
       else Inl (stone_error ''find'' ''string find() requires a substring and optional start'' []))"

section \<open>Splitting\<close>

text \<open>The parts of a text between the occurrences of a separator, from the left and from the right. The
  empty separator matches before every character and at the end.\<close>

function split_on :: "string \<Rightarrow> string \<Rightarrow> string list" where
  "split_on sep s = (if sep = [] then [s] else (case str_find sep s of
     None \<Rightarrow> [s]
   | Some i \<Rightarrow> take i s # split_on sep (drop (i + length sep) s)))"
  by auto

termination split_on
proof (relation "measure (\<lambda>(sep, s). length s)", goal_cases)
  case (2 sep s i)
  then have "starts_with sep (drop i s)" "i \<le> length s" using str_find_SomeD by blast+
  then have "0 < length sep" "i + length sep \<le> length s" using 2 by (auto simp: starts_with_iff dest: arg_cong [where f = length])
  then have "length s - (i + length sep) < length s" by linarith
  then show ?case by simp
qed simp

declare split_on.simps [simp del]

definition split_str :: "string \<Rightarrow> string \<Rightarrow> string list" where
  "split_str sep s = (if sep = [] then [] # str_chars s @ [[]] else split_on sep s)"

primrec splitn :: "nat \<Rightarrow> string \<Rightarrow> string \<Rightarrow> string list" where
  "splitn 0 sep s = [s]"
| "splitn (Suc limit) sep s = (case str_find sep s of
     None \<Rightarrow> [s]
   | Some i \<Rightarrow> take i s # splitn limit sep (drop (i + length sep) s))"

definition str_rfind :: "string \<Rightarrow> string \<Rightarrow> nat option" where
  "str_rfind p s = map_option (\<lambda>i. length s - i - length p) (str_find (rev p) (rev s))"

primrec rsplitn :: "nat \<Rightarrow> string \<Rightarrow> string \<Rightarrow> string list" where
  "rsplitn 0 sep s = [s]"
| "rsplitn (Suc limit) sep s = (case str_rfind sep s of
     None \<Rightarrow> [s]
   | Some i \<Rightarrow> drop (i + length sep) s # rsplitn limit sep (take i s))"

text \<open>The words of a text, given as the list of its characters.\<close>

function words_of :: "string list \<Rightarrow> string list" where
  "words_of cs = (let r = dropWhile is_whitespace cs in if r = [] then []
     else concat (takeWhile (\<lambda>c. \<not> is_whitespace c) r) # words_of (dropWhile (\<lambda>c. \<not> is_whitespace c) r))"
  by auto

termination words_of
proof (relation "measure length", goal_cases)
  case (2 cs r)
  then have "\<not> is_whitespace (hd r)" by (simp add: hd_dropWhile)
  moreover have "r \<noteq> []" using 2 by simp
  then obtain c r' where r: "r = c # r'" using list.exhaust by blast
  ultimately have "length (dropWhile (\<lambda>c. \<not> is_whitespace c) r) < length r"
    using length_dropWhile_le [of "\<lambda>c. \<not> is_whitespace c" r'] by simp
  moreover have "length r \<le> length cs" using 2 by (simp add: length_dropWhile_le)
  ultimately show ?case by simp
qed simp

declare words_of.simps [simp del]

definition split_whitespace :: "string \<Rightarrow> string list" where
  "split_whitespace s = words_of (str_chars s)"

definition trim_front :: "string \<Rightarrow> string" where
  "trim_front s = trim_start_matches is_whitespace s"

definition trim_back :: "string \<Rightarrow> string" where
  "trim_back s = trim_end_matches is_whitespace s"

primrec limited_words :: "nat \<Rightarrow> string \<Rightarrow> string list" where
  "limited_words 0 rest = [rest]"
| "limited_words (Suc n) rest = (let cs = str_chars rest in
     if \<not> list_ex is_whitespace cs then [rest]
     else let word = concat (takeWhile (\<lambda>c. \<not> is_whitespace c) cs); rest' = trim_front (drop (length word) rest)
       in if rest' = [] then [word] else word # limited_words n rest')"

definition split_whitespace_limited :: "string \<Rightarrow> nat \<Rightarrow> string list" where
  "split_whitespace_limited text limit = (let rest = trim_front text in
     if rest = [] then [] else if limit = 0 then [rest] else limited_words limit rest)"

definition split_whitespace_right_limited :: "string \<Rightarrow> nat \<Rightarrow> string list" where
  "split_whitespace_right_limited text limit = (let trimmed = trim text in
     if trimmed = [] then [] else if limit = 0 then [trimmed]
     else let fields = split_whitespace trimmed in
       if length fields \<le> limit + 1 then fields
       else let split_at = length fields - limit
         in join_strings '' '' (take split_at fields) # drop split_at fields)"

definition split_maxsplit :: "nu_value option \<Rightarrow> nat option res" where
  "split_maxsplit maxsplit = (case maxsplit of
     None \<Rightarrow> Inr None
   | Some v \<Rightarrow> and_then (value_to_i64 v ''split maxsplit'') (\<lambda>i.
       Inr (if sint i < 0 then None else Some (nat (sint i)))))"

definition given_separator :: "nu_value option \<Rightarrow> nu_value option" where
  "given_separator separator = (if separator = Some VNothing then None else separator)"

definition nonempty_separator :: "string \<Rightarrow> nu_value \<Rightarrow> string res" where
  "nonempty_separator name v = and_then (value_to_string v name) (\<lambda>sep.
     if sep = [] then Inl (stone_error name ''empty separator is not supported'' []) else Inr sep)"

definition string_values :: "string list \<Rightarrow> nu_value" where
  "string_values parts = VList (List.map VString parts)"

definition split_text_parts :: "string \<Rightarrow> nu_value option \<Rightarrow> nat option \<Rightarrow> nu_value res" where
  "split_text_parts text separator maxsplit = (case given_separator separator of
     None \<Rightarrow> Inr (string_values (case maxsplit of
         None \<Rightarrow> split_whitespace text | Some limit \<Rightarrow> split_whitespace_limited text limit))
   | Some v \<Rightarrow> and_then (nonempty_separator ''split'' v) (\<lambda>sep.
       Inr (string_values (case maxsplit of None \<Rightarrow> split_str sep text | Some limit \<Rightarrow> splitn limit sep text))))"

definition rsplit_text :: "string \<Rightarrow> nu_value option \<Rightarrow> nat option \<Rightarrow> nu_value res" where
  "rsplit_text text separator maxsplit = (case given_separator separator of
     None \<Rightarrow> Inr (string_values (case maxsplit of
         None \<Rightarrow> split_whitespace text | Some limit \<Rightarrow> split_whitespace_right_limited text limit))
   | Some v \<Rightarrow> and_then (nonempty_separator ''rsplit'' v) (\<lambda>sep.
       Inr (string_values (case maxsplit of None \<Rightarrow> split_str sep text | Some limit \<Rightarrow> rev (rsplitn limit sep text)))))"

definition split_builtin :: "nu_value \<Rightarrow> nu_value option \<Rightarrow> nu_value option \<Rightarrow> nu_value res" where
  "split_builtin text separator maxsplit =
     and_then (value_to_string text ''split'') (\<lambda>s.
     and_then (split_maxsplit maxsplit) (\<lambda>limit. split_text_parts s separator limit))"

section \<open>Joining, replacing, formatting numbers\<close>

definition str_replace :: "string \<Rightarrow> string \<Rightarrow> string \<Rightarrow> string" where
  "str_replace old new s = join_strings new (split_str old s)"

definition zfill_text :: "string \<Rightarrow> nat \<Rightarrow> string" where
  "zfill_text text width = (let n = length (str_chars text) in
     if width \<le> n then text
     else case text of
       c # rest \<Rightarrow> if c = CHR ''-'' \<or> c = CHR ''+'' then c # replicate (width - n) CHR ''0'' @ rest
                   else replicate (width - n) CHR ''0'' @ text
     | [] \<Rightarrow> replicate (width - n) CHR ''0'')"

definition trim_given_matches :: "(string \<Rightarrow> bool) \<Rightarrow> string \<Rightarrow> string" where
  "trim_given_matches P s = trim_end_matches P (trim_start_matches P s)"

definition starts_with_builtin :: "nu_value \<Rightarrow> nu_value \<Rightarrow> nu_value res" where
  "starts_with_builtin text prefix =
     and_then (value_to_string text ''starts_with'') (\<lambda>s.
     and_then (value_to_string prefix ''starts_with'') (\<lambda>p. Inr (VBool (starts_with p s))))"

section \<open>Methods of strings\<close>

definition no_args :: "string \<Rightarrow> nu_value list \<Rightarrow> nu_value \<Rightarrow> nu_value res" where
  "no_args name args v = (if args = [] then Inr v else Inl (stone_error name (name @ ''() takes no arguments'') []))"

definition strip_method :: "string \<Rightarrow> (string \<Rightarrow> string) \<Rightarrow> ((string \<Rightarrow> bool) \<Rightarrow> string \<Rightarrow> string) \<Rightarrow> string
    \<Rightarrow> nu_value list \<Rightarrow> nu_value res" where
  "strip_method name strip strip_matches text args = (case args of
     [] \<Rightarrow> Inr (VString (strip text))
   | [chars] \<Rightarrow> and_then (value_to_string chars name) (\<lambda>cs.
       Inr (VString (strip_matches (\<lambda>ch. ch \<in> set (str_chars cs)) text)))
   | _ \<Rightarrow> Inl (stone_error name (name @ ''() takes at most one argument'') []))"

definition count_value :: "nat \<Rightarrow> nu_value res" where
  "count_value n = and_then (ok_or (stone_error ''count'' ''count is too large'' []) (i64_of_len n)) (\<lambda>z. Inr (VInt (i64_of z)))"

definition count_method :: "string \<Rightarrow> nu_value list \<Rightarrow> nu_value res" where
  "count_method text args = (case args of
     [needle] \<Rightarrow> and_then (value_to_string needle ''count'') (\<lambda>p.
       count_value (if p = [] then length (str_chars text) + 1 else length (split_on p text) - 1))
   | _ \<Rightarrow> Inl (stone_error ''count'' ''count() requires exactly one argument'' []))"

definition split_args :: "string \<Rightarrow> nu_value list \<Rightarrow> (nu_value option \<times> nu_value option) res" where
  "split_args name args = (case args of
     [] \<Rightarrow> Inr (None, None)
   | [separator] \<Rightarrow> Inr (Some separator, None)
   | [separator, maxsplit] \<Rightarrow> Inr (Some separator, Some maxsplit)
   | _ \<Rightarrow> Inl (stone_error name (name @ ''() takes separator and optional maxsplit'') []))"

definition split_method :: "string \<Rightarrow> (string \<Rightarrow> nu_value option \<Rightarrow> nat option \<Rightarrow> nu_value res) \<Rightarrow> string
    \<Rightarrow> nu_value list \<Rightarrow> nu_value res" where
  "split_method name split text args =
     and_then (split_args name args) (\<lambda>(separator, maxsplit).
     and_then (split_maxsplit maxsplit) (\<lambda>limit. split text separator limit))"

definition replace_method :: "string \<Rightarrow> nu_value list \<Rightarrow> nu_value res" where
  "replace_method text args = (case args of
     [old, new] \<Rightarrow>
       and_then (value_to_string old ''replace'') (\<lambda>p.
       and_then (value_to_string new ''replace'') (\<lambda>q. Inr (VString (str_replace p q text))))
   | _ \<Rightarrow> Inl (stone_error ''replace'' ''replace() requires old and new arguments'' []))"

definition join_method :: "string \<Rightarrow> nu_value list \<Rightarrow> nu_value res" where
  "join_method text args = (case args of
     [items] \<Rightarrow> join_items items text
   | _ \<Rightarrow> Inl (stone_error ''join'' ''join() requires exactly one iterable'' []))"

definition zfill_method :: "string \<Rightarrow> nu_value list \<Rightarrow> nu_value res" where
  "zfill_method text args = (case args of
     [width] \<Rightarrow> and_then (value_to_i64 width ''zfill width'') (\<lambda>w.
       if sint w < 0 then Inl (stone_error ''zfill'' ''width must be non-negative'' [])
       else Inr (VString (zfill_text text (nat (sint w)))))
   | _ \<Rightarrow> Inl (stone_error ''zfill'' ''zfill() requires exactly one width'' []))"

definition affix_method :: "string \<Rightarrow> (string \<Rightarrow> string \<Rightarrow> bool) \<Rightarrow> string \<Rightarrow> nu_value list \<Rightarrow> nu_value res" where
  "affix_method name test text args = (case args of
     [affix] \<Rightarrow> and_then (value_to_string affix name) (\<lambda>p. Inr (VBool (test p text)))
   | _ \<Rightarrow> Inl (stone_error name (name @ ''() requires exactly one argument'') []))"

text \<open>The caller only passes the names of this list; \<open>None\<close> is the \<open>unreachable!\<close> of the code.\<close>

definition string_method_builtin :: "text_env \<Rightarrow> nu_value \<Rightarrow> string \<Rightarrow> nu_value list \<Rightarrow> nu_value res option" where
  "string_method_builtin env receiver method args = (case nu_text receiver of
     None \<Rightarrow> Some (Inl (stone_error method ''{} has no {}()'' [MType receiver, MStr method]))
   | Some text \<Rightarrow>
       if method = ''strip'' then Some (strip_method method trim trim_given_matches text args)
       else if method = ''lstrip'' then Some (strip_method method trim_front trim_start_matches text args)
       else if method = ''rstrip'' then Some (strip_method method trim_back trim_end_matches text args)
       else if method = ''isdigit'' then Some (no_args method args (VBool (text \<noteq> [] \<and> list_all is_ascii_digit text)))
       else if method = ''isalpha'' then
         Some (no_args method args (VBool (text \<noteq> [] \<and> list_all (te_alphabetic env) (str_chars text))))
       else if method = ''isalnum'' then
         Some (no_args method args (VBool (text \<noteq> [] \<and> list_all (te_alphanumeric env) (str_chars text))))
       else if method = ''count'' then Some (count_method text args)
       else if method = ''split'' then Some (split_method method split_text_parts text args)
       else if method = ''rsplit'' then Some (split_method method rsplit_text text args)
       else if method = ''splitlines'' then
         Some (if args = [] then Inr (string_values (str_lines text))
               else Inl (stone_error ''splitlines'' ''splitlines() takes no arguments for now'' []))
       else if method = ''replace'' then Some (replace_method text args)
       else if method = ''join'' then Some (join_method text args)
       else if method = ''lower'' then Some (no_args method args (VString (te_lower env text)))
       else if method = ''upper'' then Some (no_args method args (VString (te_upper env text)))
       else if method = ''zfill'' then Some (zfill_method text args)
       else if method = ''startswith'' then Some (affix_method method starts_with text args)
       else if method = ''endswith'' then Some (affix_method method ends_with text args)
       else None)"

section \<open>Methods of records\<close>

definition record_method_builtin :: "nu_value \<Rightarrow> string \<Rightarrow> nu_value list \<Rightarrow> nu_value res option" where
  "record_method_builtin receiver method args = (case nu_record receiver of
     None \<Rightarrow> Some (Inl (stone_error method ''{} has no {}()'' [MType receiver, MStr method]))
   | Some r \<Rightarrow>
       if method = ''get'' then Some
         (if length args = 1 \<or> length args = 2 then
            and_then (value_to_string (hd args) ''get'') (\<lambda>key. Inr (case record_get r key of
                Some v \<Rightarrow> v
              | None \<Rightarrow> (case args of [_, dflt] \<Rightarrow> dflt | _ \<Rightarrow> VNothing)))
          else Inl (stone_error ''get'' ''record get() requires key and optional default'' []))
       else if method = ''keys'' then Some (no_args method args (string_values (List.map fst r)))
       else if method = ''values'' then Some (no_args method args (VList (List.map snd r)))
       else if method = ''items'' then Some (no_args method args (VList (List.map (\<lambda>(k, v). VList [VString k, v]) r)))
       else None)"

definition list_builtin :: "nu_value \<Rightarrow> nu_value res" where
  "list_builtin v = (case v of
     VList vs \<Rightarrow> Inr (VList vs)
   | VRecord r \<Rightarrow> Inr (string_values (List.map fst r))
   | _ \<Rightarrow> Inl (stone_error ''list'' ''expected list or record, got {}'' [MType v]))"

section \<open>Conversions\<close>

definition bool_text :: "bool \<Rightarrow> string" where
  "bool_text b = (if b then ''true'' else ''false'')"

definition int_text :: "int \<Rightarrow> string" where
  "int_text z = (if z < 0 then CHR ''-'' # nat_text (nat (- z)) else nat_text (nat z))"

definition value_to_display_string :: "text_env \<Rightarrow> nu_value \<Rightarrow> string" where
  "value_to_display_string env v = (case v of
     VNothing \<Rightarrow> []
   | VBool b \<Rightarrow> bool_text b
   | VInt i \<Rightarrow> int_text (sint i)
   | VFloat x \<Rightarrow> te_float_text env x
   | VString s \<Rightarrow> s
   | VGlob s \<Rightarrow> s
   | _ \<Rightarrow> json_text_of env v)"

definition str_builtin :: "text_env \<Rightarrow> nu_value \<Rightarrow> nu_value res" where
  "str_builtin env v = Inr (VString (value_to_display_string env v))"

definition value_to_path_string :: "nu_value \<Rightarrow> string \<Rightarrow> string res" where
  "value_to_path_string v context = (case v of
     VRecord r \<Rightarrow> and_then (ok_or (stone_error context ''record path argument is missing `path`; got {}'' [MType v])
         (record_get r ''path'')) (\<lambda>p. value_to_string p context)
   | _ \<Rightarrow> value_to_string v context)"

definition len_builtin :: "nu_value \<Rightarrow> nu_value res" where
  "len_builtin v = and_then (value_len v) (\<lambda>n. Inr (VInt n))"

definition is_map_builtin_name :: "string \<Rightarrow> bool" where
  "is_map_builtin_name f \<longleftrightarrow> f \<in> {''int'', ''float'', ''json_dumps'', ''repr'', ''str''}"

definition map_builtin_value :: "text_env \<Rightarrow> string \<Rightarrow> nu_value \<Rightarrow> nu_value res" where
  "map_builtin_value env f v = (if f = ''int'' then value_to_int v
     else if f = ''float'' then float_builtin v
     else if f = ''json_dumps'' then Inr (VString (json_text_of env v))
     else if f = ''repr'' \<or> f = ''str'' then str_builtin env v
     else Inl (stone_error ''map'' ''map() does not support `{}` yet'' [MStr f]))"

definition parse_float_builtin :: "nu_value \<Rightarrow> nu_value \<Rightarrow> nu_value res" where
  "parse_float_builtin v dflt = (case value_to_f64 v ''parse_float'' of
     Inr x \<Rightarrow> Inr (VFloat x)
   | Inl _ \<Rightarrow> (case dflt of VFloat _ \<Rightarrow> Inr dflt | VInt _ \<Rightarrow> Inr dflt
       | _ \<Rightarrow> Inl (stone_error ''parse_float'' ''default must be int or float, got {}'' [MType dflt])))"

definition parse_int_builtin :: "nu_value \<Rightarrow> nu_value \<Rightarrow> nu_value res" where
  "parse_int_builtin v dflt = (case value_to_int v of
     Inr x \<Rightarrow> Inr x
   | Inl _ \<Rightarrow> (case dflt of VInt _ \<Rightarrow> Inr dflt
       | _ \<Rightarrow> Inl (stone_error ''parse_int'' ''default must be int, got {}'' [MType dflt])))"

text \<open>Rounding to an integer, halves away from zero.\<close>

definition f64_round_half_away :: "f64 \<Rightarrow> f64" where
  "f64_round_half_away x = (case x of
     F_Fin s m e \<Rightarrow> if 0 \<le> e then x
       else let p = 2 ^ nat (- e) in f64_round s ((2 * m + p) div (2 * p)) 1 0
   | _ \<Rightarrow> x)"

definition round_builtin :: "nu_value \<Rightarrow> i64 \<Rightarrow> nu_value res" where
  "round_builtin v digits =
     and_then (value_to_f64 v ''round'') (\<lambda>x.
     if sint digits < 0 \<or> 9 < sint digits then Inl (stone_error ''round'' ''round() digits must be between 0 and 9'' [])
     else let factor = f64_of_int (10 ^ nat (sint digits))
       in Inr (VFloat (f64_div (f64_round_half_away (f64_mul x factor)) factor)))"

end
