(* ===== verification/Format_Sort.thy ===== *)
theory Format_Sort
  imports Text_Methods
begin

text \<open>The format function, the removal of duplicates, the selection of rows and sorting
  (\<open>stone_builtins.rs\<close>).\<close>

section \<open>Format\<close>

text \<open>A float with a fixed number of decimal places, rounded to nearest, ties to even.\<close>

definition zero_padded :: "nat \<Rightarrow> string \<Rightarrow> string" where
  "zero_padded n s = replicate (n - length s) CHR ''0'' @ s"

definition decimal_text :: "nat \<Rightarrow> int \<Rightarrow> string" where
  "decimal_text precision n = nat_text (nat (n div 10 ^ precision)) @
     (if precision = 0 then [] else CHR ''.'' # zero_padded precision (nat_text (nat (n mod 10 ^ precision))))"

definition fixed_text :: "nat \<Rightarrow> f64 \<Rightarrow> string" where
  "fixed_text precision x = (case x of
     F_NaN \<Rightarrow> ''NaN''
   | F_Inf s \<Rightarrow> if s then ''-inf'' else ''inf''
   | F_Fin s m e \<Rightarrow> (if s then ''-'' else []) @ decimal_text precision
       (if 0 \<le> e then m * 2 ^ nat e * 10 ^ precision else div_half_even (m * 10 ^ precision) (2 ^ nat (- e))))"

definition parse_usize :: "string \<Rightarrow> nat option" where
  "parse_usize digits = (let n = nat (digits_value digits) in if n < 2 ^ 64 then Some n else None)"

definition parse_fixed_decimal_format_spec :: "string \<Rightarrow> nat option" where
  "parse_fixed_decimal_format_spec spec =
     (if starts_with '':.'' spec \<and> ends_with ''f'' (drop 2 spec)
      then let digits = butlast (drop 2 spec)
        in if digits = [] \<or> \<not> list_all is_ascii_digit digits then None else parse_usize digits
      else None)"

definition format_value :: "text_env \<Rightarrow> nu_value \<Rightarrow> string \<Rightarrow> string res" where
  "format_value env v spec =
     (if spec = [] then Inr (value_to_display_string env v)
      else case parse_fixed_decimal_format_spec spec of
        Some precision \<Rightarrow> and_then (value_to_f64 v ''format'') (\<lambda>x. Inr (fixed_text precision x))
      | None \<Rightarrow> Inl (stone_error ''format''
          ''unsupported format spec `{{}}`; supported specs are {}, {N}, and {:.Nf}'' [MStr spec]))"

definition split_format_index_and_spec :: "string \<Rightarrow> (nat option \<times> string) res" where
  "split_format_index_and_spec spec =
     (if spec = [] \<or> hd spec = CHR '':'' then Inr (None, spec)
      else let index_text = takeWhile (\<lambda>c. c \<noteq> CHR '':'') spec
        in if \<not> list_all is_ascii_digit index_text then Inr (None, spec)
           else and_then (ok_or (stone_error ''format'' ''format() placeholder index is too large'' []) (parse_usize index_text))
             (\<lambda>index. Inr (Some index, drop (length index_text) spec)))"

record format_state =
  fs_output :: string
  fs_arg_index :: nat
  fs_explicit :: bool
  fs_implicit :: bool

definition push_text :: "string \<Rightarrow> format_state \<Rightarrow> format_state" where
  "push_text s st = st\<lparr> fs_output := fs_output st @ s \<rparr>"

definition place_value :: "text_env \<Rightarrow> nu_value list \<Rightarrow> string \<Rightarrow> format_state \<Rightarrow> format_state res" where
  "place_value env args field_spec st =
     and_then (split_format_index_and_spec field_spec) (\<lambda>(explicit_index, spec).
     let value_index = (case explicit_index of Some i \<Rightarrow> i | None \<Rightarrow> fs_arg_index st);
         st' = (case explicit_index of Some _ \<Rightarrow> st\<lparr> fs_explicit := True \<rparr>
           | None \<Rightarrow> st\<lparr> fs_implicit := True, fs_arg_index := fs_arg_index st + 1 \<rparr>)
     in if fs_explicit st' \<and> fs_implicit st' then Inl (stone_error ''format''
          ''format() cannot mix numbered placeholders like {0} with automatic {} placeholders'' [])
        else and_then (ok_or (stone_error ''format'' ''format() has fewer arguments than placeholders'' [])
            (vec_get args value_index)) (\<lambda>v.
          and_then (format_value env v spec) (\<lambda>text. Inr (push_text text st'))))"

function format_loop :: "text_env \<Rightarrow> nu_value list \<Rightarrow> string \<Rightarrow> format_state \<Rightarrow> format_state res" where
  "format_loop env args [] st = Inr st"
| "format_loop env args (c # cs) st =
     (if c = CHR ''{'' \<and> cs \<noteq> [] \<and> hd cs = CHR ''{'' then format_loop env args (tl cs) (push_text [c] st)
      else if c = CHR ''}'' \<and> cs \<noteq> [] \<and> hd cs = CHR ''}'' then format_loop env args (tl cs) (push_text [c] st)
      else if c = CHR ''{'' then
        (let spec = takeWhile (\<lambda>d. d \<noteq> CHR ''}'') cs; rest = dropWhile (\<lambda>d. d \<noteq> CHR ''}'') cs
         in if rest = [] then Inl (stone_error ''format'' ''format() found an unmatched `{`'' [])
            else case place_value env args spec st of
                Inl e \<Rightarrow> Inl e
              | Inr st' \<Rightarrow> format_loop env args (tl rest) st')
      else if c = CHR ''}'' then Inl (stone_error ''format''
        ''format() supports `{}`, simple fixed decimal specs like `{:.2f}`, and escaped `{{` or `}}`'' [])
      else format_loop env args cs (push_text [c] st))"
  by pat_completeness auto

termination format_loop
proof (relation "measure (\<lambda>(env, args, s, st). length s)", goal_cases)
  case (4 env args c cs st spec rest st')
  then have "length rest \<le> length cs" by (simp add: length_dropWhile_le)
  then have "length (tl rest) < Suc (length cs)" unfolding length_tl by linarith
  then show ?case by simp
qed auto

definition format_template :: "text_env \<Rightarrow> string \<Rightarrow> nu_value list \<Rightarrow> string res" where
  "format_template env template args =
     and_then (format_loop env args template
       \<lparr> fs_output = [], fs_arg_index = 0, fs_explicit = False, fs_implicit = False \<rparr>) (\<lambda>st.
     if \<not> fs_explicit st \<and> fs_arg_index st \<noteq> length args
     then Inl (stone_error ''format'' ''format() received more arguments than placeholders'' [])
     else Inr (fs_output st))"

definition format_builtin :: "text_env \<Rightarrow> nu_value \<Rightarrow> nu_value list \<Rightarrow> nu_value res" where
  "format_builtin env template args =
     and_then (value_to_string template ''format'') (\<lambda>t.
     and_then (format_template env t args) (\<lambda>text. Inr (VString text)))"

section \<open>Duplicates and selections\<close>

text \<open>Two values are the same if their JSON texts are.\<close>

definition value_identity_key :: "text_env \<Rightarrow> nu_value \<Rightarrow> string" where
  "value_identity_key env v = json_text_of env v"

primrec unique_loop :: "text_env \<Rightarrow> string set \<Rightarrow> nu_value list \<Rightarrow> nu_value list" where
  "unique_loop env seen [] = []"
| "unique_loop env seen (v # vs) = (let key = value_identity_key env v in
     if key \<in> seen then unique_loop env seen vs else v # unique_loop env (insert key seen) vs)"

definition unique_values :: "text_env \<Rightarrow> nu_value list \<Rightarrow> nu_value list" where
  "unique_values env vs = unique_loop env {} vs"

definition set_builtin :: "text_env \<Rightarrow> nu_value list \<Rightarrow> nu_value res" where
  "set_builtin env vs = Inr (VList (unique_values env vs))"

definition unique_builtin :: "text_env \<Rightarrow> nu_value \<Rightarrow> nu_value res" where
  "unique_builtin env v =
     and_then (ok_or (stone_error ''unique'' ''expected list, got {}'' [MType v]) (nu_list v)) (\<lambda>vs.
     Inr (VList (unique_values env vs)))"

definition row_value :: "string \<Rightarrow> nu_value \<Rightarrow> nu_value option" where
  "row_value key row = Option.bind (nu_record row) (\<lambda>r. record_get r key)"

definition where_list :: "nu_value \<Rightarrow> nu_value list res" where
  "where_list v = ok_or (stone_error ''where'' ''expected list, got {}'' [MType v]) (nu_list v)"

definition where_builtin :: "nu_value \<Rightarrow> nu_value \<Rightarrow> nu_value \<Rightarrow> nu_value res" where
  "where_builtin rows key expected =
     and_then (value_to_string key ''where key'') (\<lambda>k.
     and_then (where_list rows) (\<lambda>vs.
     Inr (VList (List.filter (\<lambda>row. case row_value k row of None \<Rightarrow> False | Some v \<Rightarrow> values_equal v expected) vs))))"

definition where_compare_op :: "string \<Rightarrow> compare_op res" where
  "where_compare_op op =
     (if op \<in> {''=='', ''='', ''eq''} then Inr CEq
      else if op \<in> {''!='', ''<>'', ''ne''} then Inr CNotEq
      else if op \<in> {''>'', ''gt''} then Inr CGt
      else if op \<in> {''>='', ''gte'', ''ge''} then Inr CGtE
      else if op \<in> {''<'', ''lt''} then Inr CLt
      else if op \<in> {''<='', ''lte'', ''le''} then Inr CLtE
      else if op = ''in'' then Inr CIn
      else if op \<in> {''not in'', ''not_in''} then Inr CNotIn
      else Inl (stone_error ''where''
        ''unsupported operator `{}`; expected ==, !=, >, >=, <, <=, in, or not in'' [MStr op]))"

primrec select_rows :: "string \<Rightarrow> compare_op \<Rightarrow> nu_value \<Rightarrow> nu_value list \<Rightarrow> nu_value list res" where
  "select_rows key op expected [] = Inr []"
| "select_rows key op expected (row # rows) = (case row_value key row of
     None \<Rightarrow> select_rows key op expected rows
   | Some candidate \<Rightarrow>
       and_then (compare_values candidate op expected) (\<lambda>b.
       and_then (select_rows key op expected rows) (\<lambda>rest. Inr (if b then row # rest else rest))))"

definition where_compare_builtin :: "nu_value \<Rightarrow> nu_value \<Rightarrow> nu_value \<Rightarrow> nu_value \<Rightarrow> nu_value res" where
  "where_compare_builtin rows key op expected =
     and_then (value_to_string key ''where key'') (\<lambda>k.
     and_then (value_to_string op ''where operator'') (\<lambda>o'.
     and_then (where_compare_op o') (\<lambda>cmp.
     and_then (where_list rows) (\<lambda>vs.
     and_then (select_rows k cmp expected vs) (\<lambda>selected. Inr (VList selected))))))"

section \<open>Sorting\<close>

datatype sort_key_kind = KeyNumber | KeyText | KeyComposite

definition sort_key_kind_of :: "nu_value \<Rightarrow> sort_key_kind res" where
  "sort_key_kind_of v = (case v of
     VInt _ \<Rightarrow> Inr KeyNumber
   | VFloat x \<Rightarrow> if f64_is_nan x then Inl (stone_error ''sort'' ''cannot sort NaN values'' []) else Inr KeyNumber
   | VString _ \<Rightarrow> Inr KeyText
   | VGlob _ \<Rightarrow> Inr KeyText
   | VList _ \<Rightarrow> Inr KeyComposite
   | _ \<Rightarrow> Inl (stone_error ''sort'' ''cannot sort by {}'' [MType v]))"

definition sort_key_for_value :: "nu_value \<Rightarrow> string option \<Rightarrow> nu_value res" where
  "sort_key_for_value v fld = (case fld of
     None \<Rightarrow> Inr v
   | Some f \<Rightarrow> (case v of
       VRecord r \<Rightarrow> ok_or (stone_error ''sort'' ''record has no key `{}`'' [MStr f]) (record_get r f)
     | _ \<Rightarrow> Inl (stone_error ''sort'' ''key= requires record rows, got {}'' [MType v])))"

text \<open>The key of a value may be computed by a function of the program, so it runs on a state.\<close>

primrec keyed_values :: "(nu_value \<Rightarrow> 's \<Rightarrow> nu_value res \<times> 's) \<Rightarrow> sort_key_kind option \<Rightarrow> nu_value list \<Rightarrow> 's
    \<Rightarrow> (nu_value \<times> nu_value) list res \<times> 's" where
  "keyed_values key kind [] s = (Inr [], s)"
| "keyed_values key kind (v # vs) s = (case key v s of
     (Inl e, s') \<Rightarrow> (Inl e, s')
   | (Inr k, s') \<Rightarrow> (case sort_key_kind_of k of
       Inl e \<Rightarrow> (Inl e, s')
     | Inr next \<Rightarrow>
         if kind \<noteq> None \<and> kind \<noteq> Some next
         then (Inl (stone_error ''sort'' ''all sort keys must have compatible types'' []), s')
         else (case keyed_values key (Some next) vs s' of
             (Inl e, s'') \<Rightarrow> (Inl e, s'')
           | (Inr kvs, s'') \<Rightarrow> (Inr ((k, v) # kvs), s''))))"

text \<open>The stable sort of the standard library. Its result is only specified if the comparison orders every two
  elements; on two keys that cannot be ordered the comparison of the code panics, so the result may be none.\<close>

primrec all_comparable :: "('a \<Rightarrow> 'a \<Rightarrow> ordering res) \<Rightarrow> 'a list \<Rightarrow> bool" where
  "all_comparable cmp [] = True"
| "all_comparable cmp (x # xs) = ((\<forall>y\<in>set xs. is_ok (cmp x y) \<and> is_ok (cmp y x)) \<and> all_comparable cmp xs)"

primrec insert_sorted :: "('a \<Rightarrow> 'a \<Rightarrow> bool) \<Rightarrow> 'a \<Rightarrow> 'a list \<Rightarrow> 'a list" where
  "insert_sorted le x [] = [x]"
| "insert_sorted le x (y # ys) = (if le x y then x # y # ys else y # insert_sorted le x ys)"

definition stable_sort :: "('a \<Rightarrow> 'a \<Rightarrow> bool) \<Rightarrow> 'a list \<Rightarrow> 'a list" where
  "stable_sort le xs = foldr (insert_sorted le) xs []"

definition sort_by :: "('a \<Rightarrow> 'a \<Rightarrow> ordering res) \<Rightarrow> 'a list \<Rightarrow> 'a list option" where
  "sort_by cmp xs = (if all_comparable cmp xs
     then Some (stable_sort (\<lambda>x y. cmp x y \<noteq> Inr OGreater) xs) else None)"

definition key_ordering :: "bool \<Rightarrow> nu_value \<times> nu_value \<Rightarrow> nu_value \<times> nu_value \<Rightarrow> ordering res" where
  "key_ordering reverse x y = and_then (value_ordering (fst x) (fst y)) (\<lambda>c.
     Inr (if reverse then ordering_reverse c else c))"

definition sort_builtin_values :: "nu_value list \<Rightarrow> bool \<Rightarrow> (nu_value \<Rightarrow> 's \<Rightarrow> nu_value res \<times> 's) \<Rightarrow> 's
    \<Rightarrow> nu_value res option \<times> 's" where
  "sort_builtin_values vs reverse key s = (case keyed_values key None vs s of
     (Inl e, s') \<Rightarrow> (Some (Inl e), s')
   | (Inr keyed, s') \<Rightarrow> (map_option (\<lambda>kvs. Inr (VList (List.map snd kvs))) (sort_by (key_ordering reverse) keyed), s'))"

end
