(* ===== verification/Sort_Correct.thy ===== *)
theory Sort_Correct
  imports Format_Sort F64_Order "HOL-Library.Multiset"
begin

text \<open>Sorting: the result is the one permutation of the values that is ordered by the keys and keeps values
  with equal keys in their order, ascending and descending.\<close>

section \<open>Stable sorting\<close>

locale preorder_relation =
  fixes le :: "'a \<Rightarrow> 'a \<Rightarrow> bool" and A :: "'a set"
  assumes total: "x \<in> A \<Longrightarrow> y \<in> A \<Longrightarrow> le x y \<or> le y x"
    and trans: "x \<in> A \<Longrightarrow> y \<in> A \<Longrightarrow> z \<in> A \<Longrightarrow> le x y \<Longrightarrow> le y z \<Longrightarrow> le x z"
begin

definition same :: "'a \<Rightarrow> 'a \<Rightarrow> bool" where
  "same x y \<longleftrightarrow> le x y \<and> le y x"

lemma refl: "x \<in> A \<Longrightarrow> le x x"
  using total by blast

lemma mset_insert_sorted: "mset (insert_sorted le x ys) = add_mset x (mset ys)"
  by (induction ys) auto

lemma set_insert_sorted: "set (insert_sorted le x ys) = insert x (set ys)"
  by (induction ys) auto

lemma mset_stable_sort: "mset (stable_sort le xs) = mset xs"
  by (induction xs) (simp_all add: stable_sort_def mset_insert_sorted)

lemma set_stable_sort: "set (stable_sort le xs) = set xs"
  using arg_cong [OF mset_stable_sort, of set_mset] by simp

lemma sorted_insert: "insert x (set ys) \<subseteq> A \<Longrightarrow> sorted_wrt le ys \<Longrightarrow> sorted_wrt le (insert_sorted le x ys)"
proof (induction ys)
  case (Cons y ys)
  then show ?case
  proof (cases "le x y")
    case True
    then have "le x z" if "z \<in> set ys" for z
      using Cons.prems that trans [of x y z] by auto
    then show ?thesis using True Cons.prems by simp
  next
    case False
    then have "le y x" using Cons.prems(1) total by auto
    then show ?thesis using False Cons by (auto simp: set_insert_sorted)
  qed
qed simp

lemma sorted_stable_sort: "set xs \<subseteq> A \<Longrightarrow> sorted_wrt le (stable_sort le xs)"
proof (induction xs)
  case (Cons x xs)
  have "set (stable_sort le xs) = set xs" by (rule set_stable_sort)
  then show ?case using Cons sorted_insert [of x "stable_sort le xs"] by (simp add: stable_sort_def)
qed (simp add: stable_sort_def)

lemma filter_insert:
  assumes "insert x (set ys) \<subseteq> A" and "k \<in> A" and "sorted_wrt le ys"
  shows "filter (same k) (insert_sorted le x ys) = (if same k x then x # filter (same k) ys else filter (same k) ys)"
  using assms
proof (induction ys)
  case (Cons y ys)
  show ?case
  proof (cases "le x y")
    case False
    then have "le y x" using Cons.prems(1) total by auto
    then have "\<not> (same k x \<and> same k y)" using False Cons.prems(1,2) trans by (auto simp: same_def)
    then show ?thesis using False Cons by auto
  qed simp
qed simp

lemma filter_stable_sort:
  assumes "set xs \<subseteq> A" and "k \<in> A"
  shows "filter (same k) (stable_sort le xs) = filter (same k) xs"
  using assms(1)
proof (induction xs)
  case (Cons x xs)
  then show ?case
    using filter_insert [of x "stable_sort le xs" k] assms(2) sorted_stable_sort [of xs] set_stable_sort [of xs]
    by (simp add: stable_sort_def)
qed (simp add: stable_sort_def)

text \<open>There is only one such permutation, so every stable sort returns it.\<close>

lemma stable_sort_unique:
  assumes "sorted_wrt le ys" "sorted_wrt le zs" "set ys \<subseteq> A" "set zs \<subseteq> A"
    and "\<And>k. k \<in> A \<Longrightarrow> filter (same k) ys = filter (same k) zs"
  shows "ys = zs"
  using assms
proof (induction ys arbitrary: zs)
  case Nil
  then show ?case
  proof (cases zs)
    case (Cons z zs')
    then have "filter (same z) zs \<noteq> []" using Nil.prems(4) refl by (auto simp: same_def)
    then show ?thesis using Nil.prems(4,5) Cons by (metis filter.simps(1) list.set_intros(1) subsetD)
  qed simp
next
  case (Cons y ys)
  have y: "y \<in> A" "same y y" using Cons.prems(3) refl by (auto simp: same_def)
  then have "filter (same y) zs \<noteq> []" using Cons.prems(5) [of y] by auto
  then obtain z zs' where zs: "zs = z # zs'" by (cases zs) auto
  have z: "z \<in> A" "same z z" using Cons.prems(4) zs refl by (auto simp: same_def)
  have "z \<in> set (filter (same z) (y # ys))" using Cons.prems(5) [OF z(1)] z zs by simp
  then have "z \<in> set (y # ys)" by (simp only: set_filter mem_Collect_eq)
  moreover have "y \<in> set (filter (same y) zs)" using Cons.prems(5) [OF y(1)] y(2) by (metis filter.simps(2) list.set_intros(1))
  then have "y \<in> set zs" by (simp only: set_filter mem_Collect_eq)
  then have "y \<in> set (z # zs')" using zs by simp
  ultimately have "le y z" "le z y" using Cons.prems(1,2) zs y z by (auto simp: same_def)
  then have "same y z" by (simp add: same_def)
  then have head: "y = z" using Cons.prems(5) [OF y(1)] y(2) zs by simp
  have "filter (same k) ys = filter (same k) zs'" if "k \<in> A" for k
    using Cons.prems(5) [OF that] by (simp add: zs head split: if_splits)
  then have "ys = zs'" using Cons.prems zs by (intro Cons.IH) auto
  then show ?case by (simp add: zs head)
qed

end

section \<open>The order of keys\<close>

definition key_le :: "bool \<Rightarrow> nu_value \<times> nu_value \<Rightarrow> nu_value \<times> nu_value \<Rightarrow> bool" where
  "key_le reverse x y \<longleftrightarrow> key_ordering reverse x y \<noteq> Inr OGreater"

definition int_keyed :: "(nu_value \<times> nu_value) set" where
  "int_keyed = {x. \<exists>i. fst x = VInt i}"

definition float_keyed :: "(nu_value \<times> nu_value) set" where
  "float_keyed = {x. \<exists>f. fst x = VFloat f \<and> f \<noteq> F_NaN}"

definition text_keyed :: "(nu_value \<times> nu_value) set" where
  "text_keyed = {x. nu_text (fst x) \<noteq> None}"

definition key_int :: "nu_value \<times> nu_value \<Rightarrow> int" where
  "key_int x = (case nu_int (fst x) of Some i \<Rightarrow> sint i | None \<Rightarrow> 0)"

definition key_rank :: "nu_value \<times> nu_value \<Rightarrow> int \<times> real" where
  "key_rank x = (case fst x of VFloat f \<Rightarrow> f64_rank f | _ \<Rightarrow> (0, 0))"

definition key_text :: "nu_value \<times> nu_value \<Rightarrow> string" where
  "key_text x = (case nu_text (fst x) of Some s \<Rightarrow> s | None \<Rightarrow> [])"

lemma reverse_cases:
  "key_le reverse x y \<longleftrightarrow> (if reverse then c \<noteq> OLess else c \<noteq> OGreater)"
  if "value_ordering (fst x) (fst y) = Inr c"
  using that by (cases c) (auto simp: key_le_def key_ordering_def ordering_reverse_def)

lemma int_key_le:
  assumes "x \<in> int_keyed" "y \<in> int_keyed"
  shows "key_le reverse x y \<longleftrightarrow> (if reverse then key_int y \<le> key_int x else key_int x \<le> key_int y)"
    and "is_ok (key_ordering reverse x y)"
proof -
  have "value_ordering (fst x) (fst y) = Inr (int_cmp (key_int x) (key_int y))"
    using assms by (auto simp: int_keyed_def key_int_def nu_int_def)
  then show "key_le reverse x y \<longleftrightarrow> (if reverse then key_int y \<le> key_int x else key_int x \<le> key_int y)"
    "is_ok (key_ordering reverse x y)"
    by (auto simp: reverse_cases int_cmp_def key_ordering_def)
qed

lemma float_key_le:
  assumes "x \<in> float_keyed" "y \<in> float_keyed"
  shows "key_le reverse x y \<longleftrightarrow> (if reverse then rank_le (key_rank y) (key_rank x) else rank_le (key_rank x) (key_rank y))"
    and "is_ok (key_ordering reverse x y)"
proof -
  obtain f g where fg: "fst x = VFloat f" "f \<noteq> F_NaN" "fst y = VFloat g" "g \<noteq> F_NaN"
    using assms by (auto simp: float_keyed_def)
  obtain c where c: "f64_partial_cmp f g = Some c" "c \<noteq> OGreater \<longleftrightarrow> rank_le (f64_rank f) (f64_rank g)"
    "c \<noteq> OLess \<longleftrightarrow> rank_le (f64_rank g) (f64_rank f)"
    using f64_cmp_rank [OF fg(2,4)] by blast
  have "value_ordering (fst x) (fst y) = Inr c" by (simp add: fg f64_ordering_def c(1) ok_or_def)
  then show "key_le reverse x y \<longleftrightarrow> (if reverse then rank_le (key_rank y) (key_rank x) else rank_le (key_rank x) (key_rank y))"
    "is_ok (key_ordering reverse x y)"
    using c by (auto simp: reverse_cases key_rank_def fg key_ordering_def)
qed

lemma str_cmp_trans: "str_cmp a b \<noteq> OGreater \<Longrightarrow> str_cmp b c \<noteq> OGreater \<Longrightarrow> str_cmp a c \<noteq> OGreater"
proof (induction a arbitrary: b c)
  case (Cons x a)
  then show ?case by (cases b; cases c) (auto simp: int_cmp_def split: if_splits)
qed auto

lemma str_cmp_flipped: "str_cmp b a = ordering_reverse (str_cmp a b)"
proof (induction a arbitrary: b)
  case Nil
  then show ?case by (cases b) simp_all
next
  case (Cons x a)
  then show ?case by (cases b) (auto simp: int_cmp_def)
qed

lemma text_key_le:
  assumes "x \<in> text_keyed" "y \<in> text_keyed"
  shows "key_le reverse x y \<longleftrightarrow> (if reverse then str_cmp (key_text y) (key_text x) \<noteq> OGreater
      else str_cmp (key_text x) (key_text y) \<noteq> OGreater)"
    and "is_ok (key_ordering reverse x y)"
proof -
  have "value_ordering (fst x) (fst y) = Inr (str_cmp (key_text x) (key_text y))"
    using assms by (cases "fst x") (auto simp: text_keyed_def key_text_def nu_text_def)
  then show "key_le reverse x y \<longleftrightarrow> (if reverse then str_cmp (key_text y) (key_text x) \<noteq> OGreater
      else str_cmp (key_text x) (key_text y) \<noteq> OGreater)" "is_ok (key_ordering reverse x y)"
    using str_cmp_flipped [of "key_text y" "key_text x"]
    by (cases "str_cmp (key_text x) (key_text y)"; simp add: reverse_cases key_ordering_def)+
qed

interpretation int_keys: preorder_relation "key_le reverse" int_keyed for reverse
  by unfold_locales (auto simp: int_key_le split: if_splits)

interpretation float_keys: preorder_relation "key_le reverse" float_keyed for reverse
proof unfold_locales
  fix x y :: "nu_value \<times> nu_value" assume "x \<in> float_keyed" "y \<in> float_keyed"
  then show "key_le reverse x y \<or> key_le reverse y x"
    using rank_le_linear(2) [of "key_rank x" "key_rank y"] by (auto simp: float_key_le)
qed (auto simp: float_key_le split: if_splits intro: rank_le_linear(1))

interpretation text_keys: preorder_relation "key_le reverse" text_keyed for reverse
proof unfold_locales
  fix x y :: "nu_value \<times> nu_value" assume "x \<in> text_keyed" "y \<in> text_keyed"
  then show "key_le reverse x y \<or> key_le reverse y x"
    using str_cmp_flipped [of "key_text y" "key_text x"] by (cases "str_cmp (key_text x) (key_text y)") (auto simp: text_key_le)
qed (auto simp: text_key_le split: if_splits dest: str_cmp_trans)

section \<open>The result of sorting\<close>

definition stable_order :: "bool \<Rightarrow> (nu_value \<times> nu_value) list \<Rightarrow> (nu_value \<times> nu_value) list \<Rightarrow> bool" where
  "stable_order reverse kvs ys \<longleftrightarrow> mset ys = mset kvs \<and> sorted_wrt (key_le reverse) ys
     \<and> (\<forall>k\<in>set kvs. List.filter (\<lambda>x. key_le reverse k x \<and> key_le reverse x k) ys
          = List.filter (\<lambda>x. key_le reverse k x \<and> key_le reverse x k) kvs)"

lemma all_comparableI: "(\<And>x y. x \<in> set xs \<Longrightarrow> y \<in> set xs \<Longrightarrow> is_ok (cmp x y)) \<Longrightarrow> all_comparable cmp xs"
  by (induction xs) auto

lemma sorted_keys:
  assumes order: "preorder_relation (key_le reverse) (set kvs)"
    and ok: "\<And>x y. x \<in> set kvs \<Longrightarrow> y \<in> set kvs \<Longrightarrow> is_ok (key_ordering reverse x y)"
  shows "sort_by (key_ordering reverse) kvs = Some (stable_sort (key_le reverse) kvs)"
    and "stable_order reverse kvs (stable_sort (key_le reverse) kvs)"
    and "stable_order reverse kvs ys \<Longrightarrow> ys = stable_sort (key_le reverse) kvs"
proof -
  have "(\<lambda>x y. key_ordering reverse x y \<noteq> Inr OGreater) = key_le reverse" by (intro ext) (simp add: key_le_def)
  then show "sort_by (key_ordering reverse) kvs = Some (stable_sort (key_le reverse) kvs)"
    using ok all_comparableI [of kvs "key_ordering reverse"] by (auto simp: sort_by_def)
  have same: "preorder_relation.same (key_le reverse) k = (\<lambda>x. key_le reverse k x \<and> key_le reverse x k)" for k
    by (intro ext) (simp add: preorder_relation.same_def [OF order])
  show sorted: "stable_order reverse kvs (stable_sort (key_le reverse) kvs)"
    using preorder_relation.mset_stable_sort [OF order, of kvs] preorder_relation.sorted_stable_sort [OF order, of kvs]
      preorder_relation.filter_stable_sort [OF order, of kvs]
    unfolding stable_order_def by (simp add: same)
  show "ys = stable_sort (key_le reverse) kvs" if ys: "stable_order reverse kvs ys"
  proof (rule preorder_relation.stable_sort_unique [OF order])
    show "set ys \<subseteq> set kvs" "set (stable_sort (key_le reverse) kvs) \<subseteq> set kvs"
      using ys sorted unfolding stable_order_def by (metis mset_eq_setD order_refl)+
  qed (use ys sorted in \<open>auto simp: stable_order_def same\<close>)
qed

lemma preorder_subset: "preorder_relation le A \<Longrightarrow> B \<subseteq> A \<Longrightarrow> preorder_relation le B"
  unfolding preorder_relation_def by (meson subsetD)

definition plain_keys :: "nu_value list \<Rightarrow> bool" where
  "plain_keys ks \<longleftrightarrow> (\<forall>k\<in>set ks. \<exists>i. k = VInt i) \<or> (\<forall>k\<in>set ks. \<exists>f. k = VFloat f \<and> f \<noteq> F_NaN)
     \<or> (\<forall>k\<in>set ks. nu_text k \<noteq> None)"

lemma plain_keys_order:
  assumes "plain_keys (List.map fst kvs)"
  shows "preorder_relation (key_le reverse) (set kvs)
    \<and> (\<forall>x\<in>set kvs. \<forall>y\<in>set kvs. is_ok (key_ordering reverse x y))"
proof -
  have "set kvs \<subseteq> int_keyed \<or> set kvs \<subseteq> float_keyed \<or> set kvs \<subseteq> text_keyed"
    using assms unfolding plain_keys_def
  proof (elim disjE)
    assume "\<forall>k\<in>set (List.map fst kvs). \<exists>i. k = VInt i"
    then have "set kvs \<subseteq> int_keyed" by (simp add: int_keyed_def subset_iff)
    then show ?thesis by simp
  next
    assume "\<forall>k\<in>set (List.map fst kvs). \<exists>f. k = VFloat f \<and> f \<noteq> F_NaN"
    then have "set kvs \<subseteq> float_keyed" by (simp add: float_keyed_def subset_iff)
    then show ?thesis by simp
  next
    assume "\<forall>k\<in>set (List.map fst kvs). nu_text k \<noteq> None"
    then have "set kvs \<subseteq> text_keyed" by (simp add: text_keyed_def subset_iff)
    then show ?thesis by simp
  qed
  then show ?thesis
    using preorder_subset [OF int_keys.preorder_relation_axioms] preorder_subset [OF float_keys.preorder_relation_axioms]
      preorder_subset [OF text_keys.preorder_relation_axioms] int_key_le(2) float_key_le(2) text_key_le(2)
    by (meson subsetD)
qed

lemma keyed_values_snd: "keyed_values key kind vs s = (Inr kvs, s') \<Longrightarrow> List.map snd kvs = vs"
  by (induction vs arbitrary: kind s kvs) (auto split: prod.splits sum.splits if_splits)

text \<open>C26: Sorting by integers, by floats or by texts returns the one permutation of the values whose keys are in
  order, descending if asked to, and which keeps values with equal keys in the order they had. The keys are computed
  once, in the order of the values.\<close>

theorem sort_is_the_stable_order:
  assumes "keyed_values key None vs s = (Inr kvs, s')" and "plain_keys (List.map fst kvs)"
  shows "List.map snd kvs = vs \<and> (\<exists>!ys. stable_order reverse kvs ys)
    \<and> (\<forall>ys. stable_order reverse kvs ys
        \<longrightarrow> sort_builtin_values vs reverse key s = (Some (Inr (VList (List.map snd ys))), s'))"
proof -
  have order: "preorder_relation (key_le reverse) (set kvs)"
    and ok: "\<And>x y. x \<in> set kvs \<Longrightarrow> y \<in> set kvs \<Longrightarrow> is_ok (key_ordering reverse x y)"
    using plain_keys_order [OF assms(2)] by blast+
  note sorted = sorted_keys [OF order ok]
  show ?thesis
    using sorted(2,3) keyed_values_snd [OF assms(1)] by (auto simp: sort_builtin_values_def assms(1) sorted(1))
qed

definition name_of :: "nu_value \<Rightarrow> unit \<Rightarrow> nu_value res \<times> unit" where
  "name_of row s = (sort_key_for_value row (Some ''n''), s)"

definition row :: "int \<Rightarrow> string \<Rightarrow> nu_value" where
  "row i name = VRecord [(''n'', VString name), (''i'', VInt (i64_of i))]"

theorem sort_is_the_stable_order_witness:
  "\<exists>!ys. stable_order True [(VString ''a'', row 1 ''a''), (VString ''b'', row 2 ''b''), (VString ''a'', row 3 ''a'')] ys"
proof -
  let ?kvs = "[(VString ''a'', row 1 ''a''), (VString ''b'', row 2 ''b''), (VString ''a'', row 3 ''a'')]"
  have keys: "keyed_values name_of None [row 1 ''a'', row 2 ''b'', row 3 ''a''] () = (Inr ?kvs, ())"
    by (simp add: name_of_def row_def sort_key_for_value_def record_get_def ok_or_def sort_key_kind_of_def)
  have "plain_keys (List.map fst ?kvs)" by (simp add: plain_keys_def nu_text_def)
  from sort_is_the_stable_order [OF keys this, of True] show ?thesis by (elim conjE)
qed

end
