(* ===== verification/Text_Correct.thy ===== *)
theory Text_Correct
  imports Format_Sort
begin

text \<open>Searching, splitting, joining and formatting of texts.\<close>

section \<open>Occurrences\<close>

text \<open>An index is an occurrence if the pattern stands there.\<close>

definition occurs_at :: "string \<Rightarrow> string \<Rightarrow> nat \<Rightarrow> bool" where
  "occurs_at p s i \<longleftrightarrow> i \<le> length s \<and> starts_with p (drop i s)"

lemma str_find_least:
  "(str_find p s = Some i \<longleftrightarrow> occurs_at p s i \<and> (\<forall>j<i. \<not> occurs_at p s j))
   \<and> (str_find p s = None \<longleftrightarrow> (\<forall>j. \<not> occurs_at p s j))"
proof (induction s arbitrary: i)
  case Nil
  then show ?case by (auto simp: occurs_at_def)
next
  case (Cons c cs)
  have step: "occurs_at p (c # cs) 0 \<longleftrightarrow> starts_with p (c # cs)" "occurs_at p (c # cs) (Suc k) \<longleftrightarrow> occurs_at p cs k" for k
    by (simp_all only: occurs_at_def drop0 drop_Suc_Cons) simp_all
  show ?case
  proof (cases "starts_with p (c # cs)")
    case True
    then show ?thesis using step by (auto simp del: starts_with.simps intro: gr0I)
  next
    case False
    have "(\<forall>j. \<not> occurs_at p (c # cs) j) \<longleftrightarrow> (\<forall>j. \<not> occurs_at p cs j)"
      using step False by (metis not0_implies_Suc)
    moreover have "map_option Suc (str_find p cs) = Some i \<longleftrightarrow> occurs_at p (c # cs) i \<and> (\<forall>j<i. \<not> occurs_at p (c # cs) j)"
    proof (cases i)
      case 0
      then show ?thesis using step(1) False by auto
    next
      case (Suc k)
      have "(\<forall>j<Suc k. \<not> occurs_at p (c # cs) j) \<longleftrightarrow> (\<forall>j<k. \<not> occurs_at p cs j)"
        using step False by (metis Suc_less_eq not0_implies_Suc zero_less_Suc)
      then show ?thesis using Cons.IH [of k] step(2) [of k] Suc by auto
    qed
    ultimately show ?thesis using False Cons.IH by (simp del: starts_with.simps)
  qed
qed

lemma str_find_SomeI: "occurs_at p s i \<Longrightarrow> \<forall>j<i. \<not> occurs_at p s j \<Longrightarrow> str_find p s = Some i"
  using str_find_least by blast

lemma occurs_append: "occurs_at p s i \<longleftrightarrow> (\<exists>a b. s = a @ p @ b \<and> length a = i)"
  by (auto simp: occurs_at_def starts_with_iff) (metis append_take_drop_id length_take min.absorb2)

lemma str_find_append: "str_find p s = Some i \<Longrightarrow> s = take i s @ p @ drop (i + length p) s"
  using str_find_SomeD [of p s i] by (auto simp: starts_with_iff)
    (metis append_take_drop_id drop_drop add.commute append_eq_conv_conj)

section \<open>Splitting and joining\<close>

lemma join_split_on: "sep \<noteq> [] \<Longrightarrow> join_strings sep (split_on sep s) = s \<and> split_on sep s \<noteq> []"
proof (induction sep s rule: split_on.induct)
  case (1 sep s)
  show ?case
  proof (cases "str_find sep s")
    case (Some i)
    then show ?thesis
      using 1 str_find_append [OF Some] by (simp add: split_on.simps [of sep s])
  qed (use 1 in \<open>simp add: split_on.simps [of sep s]\<close>)
qed

lemma join_splitn: "join_strings sep (splitn n sep s) = s \<and> splitn n sep s \<noteq> [] \<and> length (splitn n sep s) \<le> Suc n"
proof (induction n arbitrary: s)
  case (Suc n)
  then show ?case using str_find_append [of sep s] by (cases "str_find sep s") simp_all
qed simp

lemma join_append:
  "xs \<noteq> [] \<Longrightarrow> join_strings sep (xs @ [y]) = join_strings sep xs @ sep @ y"
  by (induction xs) auto

lemma str_rfind_append:
  assumes "str_rfind p s = Some i"
  shows "s = take i s @ p @ drop (i + length p) s"
proof -
  obtain j where j: "str_find (rev p) (rev s) = Some j" "i = length s - j - length p"
    using assms by (auto simp: str_rfind_def)
  have "rev s = take j (rev s) @ rev p @ drop (j + length p) (rev s)"
    using str_find_append [OF j(1)] by simp
  then have split: "s = rev (drop (j + length p) (rev s)) @ p @ rev (take j (rev s))"
    by (metis append.assoc rev_append rev_rev_ident)
  moreover have "length (rev (drop (j + length p) (rev s))) = i" using j(2) by simp
  ultimately show ?thesis by (metis append_eq_conv_conj drop_drop add.commute append.assoc)
qed

lemma join_rsplitn: "join_strings sep (rev (rsplitn n sep s)) = s \<and> rsplitn n sep s \<noteq> [] \<and> length (rsplitn n sep s) \<le> Suc n"
proof (induction n arbitrary: s)
  case (Suc n)
  then show ?case
    using str_rfind_append [of sep s] join_append [of "rev (rsplitn n sep (take i s))" sep for i]
    by (cases "str_rfind sep s") simp_all
qed simp

lemma collect_strings: "collect_ok (\<lambda>v. value_to_string v ctx) (List.map VString parts) = Inr parts"
  by (induction parts) (simp_all add: value_to_string_def nu_text_def)

lemma occurs_take: "occurs_at p (take n s) i \<Longrightarrow> occurs_at p s i"
  unfolding occurs_append by (metis append.assoc append_take_drop_id)

lemma split_on_pieces: "sep \<noteq> [] \<Longrightarrow> \<forall>p\<in>set (split_on sep s). \<not> str_contains sep p"
proof (induction sep s rule: split_on.induct)
  case (1 sep s)
  show ?case
  proof (cases "str_find sep s")
    case (Some i)
    have "\<not> occurs_at sep (take i s) j" for j
    proof
      assume o: "occurs_at sep (take i s) j"
      then have "j + length sep \<le> length (take i s)" by (auto simp: occurs_append dest: arg_cong [where f = length])
      then have "j < i" using 1(2) by (cases sep) auto
      then show False using occurs_take [OF o] Some str_find_least by blast
    qed
    then have "str_find sep (take i s) = None" using str_find_least by blast
    then show ?thesis using 1 Some by (simp add: split_on.simps [of sep s] str_contains_def)
  qed (use 1 in \<open>simp add: split_on.simps [of sep s] str_contains_def\<close>)
qed

text \<open>C27: Joining undoes splitting. If \<open>split\<close> or \<open>rsplit\<close> with a separator, with or without a limit on the number
  of splits, returns the parts of a text, then \<open>join\<close> of the separator with these parts returns the text. At most
  one part more than the limit is returned, and without a limit no part contains the separator.\<close>

theorem split_join_round_trip:
  assumes "method \<in> {''split'', ''rsplit''}" and "limits \<in> {[], [VInt n]}"
    and "string_method_builtin env (VString s) method (VString sep # limits) = Some (Inr parts)"
  shows "string_method_builtin env (VString sep) ''join'' [parts] = Some (Inr (VString s))
    \<and> (\<exists>ps. parts = string_values ps \<and> (limits \<noteq> [] \<and> 0 \<le> sint n \<longrightarrow> length ps \<le> nat (sint n) + 1)
        \<and> (limits = [] \<longrightarrow> (\<forall>p\<in>set ps. \<not> str_contains sep p)))"
proof -
  have join: "string_method_builtin env (VString sep) ''join'' [string_values ps] = Some (Inr (VString (join_strings sep ps)))" for ps
    by (simp add: string_method_builtin_def nu_text_def join_method_def join_items_def string_values_def nu_list_def
        ok_or_def collect_strings)
  have plain: "value_to_string (VString t) c = Inr t" "nu_text (VString t) = Some t" for t c
    by (simp_all add: value_to_string_def nu_text_def)
  note defs = string_method_builtin_def split_method_def split_args_def split_maxsplit_def plain split_text_parts_def rsplit_text_def
    given_separator_def nonempty_separator_def split_str_def value_to_i64_def
  have sep: "sep \<noteq> []" using assms by (auto simp: defs)
  define k where "k = nat (sint n)"
  have "\<exists>ps. parts = string_values ps \<and> (ps = split_on sep s \<and> (limits = [] \<or> sint n < 0)
      \<or> limits \<noteq> [] \<and> 0 \<le> sint n \<and> (ps = splitn k sep s \<or> ps = rev (rsplitn k sep s)))"
    using assms sep by (auto simp: defs k_def split: if_splits)
  then obtain ps where ps: "parts = string_values ps" "ps = split_on sep s \<and> (limits = [] \<or> sint n < 0)
      \<or> limits \<noteq> [] \<and> 0 \<le> sint n \<and> (ps = splitn k sep s \<or> ps = rev (rsplitn k sep s))" by blast
  then have "join_strings sep ps = s" using join_split_on [OF sep] join_splitn join_rsplitn by auto
  moreover have "limits \<noteq> [] \<and> 0 \<le> sint n \<longrightarrow> length ps \<le> k + 1"
    using ps(2) join_splitn [of sep k s] join_rsplitn [of sep k s] by auto
  moreover have "limits = [] \<longrightarrow> (\<forall>p\<in>set ps. \<not> str_contains sep p)"
    using ps(2) split_on_pieces [OF sep] by auto
  ultimately show ?thesis using ps(1) join by (auto simp: k_def)
qed

theorem split_join_round_trip_witness:
  "\<forall>env. string_method_builtin env (VString ''--'') ''join'' [string_values [''a'', ''b--c'']] = Some (Inr (VString ''a--b--c''))"
proof
  fix env
  have "string_method_builtin env (VString ''a--b--c'') ''split'' (VString ''--'' # [VInt 1])
      = Some (Inr (string_values [''a'', ''b--c'']))"
    by (simp add: string_method_builtin_def split_method_def split_args_def split_maxsplit_def value_to_string_def nu_text_def
        split_text_parts_def given_separator_def nonempty_separator_def value_to_i64_def)
  then show "string_method_builtin env (VString ''--'') ''join'' [string_values [''a'', ''b--c'']]
      = Some (Inr (VString ''a--b--c''))"
    using split_join_round_trip [of "''split''" "[VInt 1]" 1] by blast
qed

section \<open>Searching\<close>

lemma find_from_first:
  "find_from s n p = Some i \<longleftrightarrow> char_offset n s \<le> i \<and> occurs_at p s i \<and> (\<forall>j. char_offset n s \<le> j \<and> j < i \<longrightarrow> \<not> occurs_at p s j)"
  "find_from s n p = None \<longleftrightarrow> (\<forall>j\<ge>char_offset n s. \<not> occurs_at p s j)"
proof -
  let ?k = "char_offset n s"
  have k: "?k \<le> length s"
  proof -
    have "concat (str_chars s) = concat (take n (str_chars s)) @ concat (drop n (str_chars s))"
      by (metis append_take_drop_id concat_append)
    then show ?thesis unfolding char_offset_def by (metis concat_str_chars length_append le_add1)
  qed
  have shift: "occurs_at p (drop ?k s) j \<longleftrightarrow> occurs_at p s (?k + j)" for j
    using k by (auto simp: occurs_at_def add.commute)
  note least = str_find_least [of p "drop ?k s"]
  show "find_from s n p = None \<longleftrightarrow> (\<forall>j\<ge>?k. \<not> occurs_at p s j)"
    using least shift by (auto simp: find_from_def Let_def dest!: le_Suc_ex)
  show "find_from s n p = Some i \<longleftrightarrow> ?k \<le> i \<and> occurs_at p s i \<and> (\<forall>j. ?k \<le> j \<and> j < i \<longrightarrow> \<not> occurs_at p s j)"
  proof (cases "?k \<le> i")
    case True
    then obtain d where d: "i = ?k + d" using le_Suc_ex by blast
    have "find_from s n p = Some i \<longleftrightarrow> str_find p (drop ?k s) = Some d" by (auto simp: find_from_def Let_def d)
    also have "\<dots> \<longleftrightarrow> occurs_at p s i \<and> (\<forall>j<d. \<not> occurs_at p s (?k + j))" using least shift d by blast
    also have "(\<forall>j<d. \<not> occurs_at p s (?k + j)) \<longleftrightarrow> (\<forall>j. ?k \<le> j \<and> j < i \<longrightarrow> \<not> occurs_at p s j)"
      using d by (auto dest!: le_Suc_ex)
    finally show ?thesis using True by blast
  qed (auto simp: find_from_def Let_def)
qed

definition search_offset :: "string \<Rightarrow> int \<Rightarrow> nat" where
  "search_offset s z = (let len = int (length (str_chars s))
     in char_offset (nat (clamp (if z < 0 then len + z else z) 0 len)) s)"

text \<open>C29: \<open>find\<close> returns the position of the first occurrence of the pattern at or after the start, counted in
  bytes, or -1 if there is none. The start is counted in characters, from the end if it is negative, and is clamped
  to the text.\<close>

theorem find_returns_first_occurrence:
  assumes "int (length (str_chars s)) < 9223372036854775808" and "int (length s) < 9223372036854775808"
  shows "\<exists>i. find_method_builtin (VString s) [VString p, VInt start] = Inr (VInt i)
    \<and> (if \<exists>j\<ge>search_offset s (sint start). occurs_at p s j
       then occurs_at p s (nat (sint i)) \<and> int (search_offset s (sint start)) \<le> sint i
           \<and> (\<forall>j. search_offset s (sint start) \<le> j \<and> j < nat (sint i) \<longrightarrow> \<not> occurs_at p s j)
       else i = - 1)"
proof -
  let ?k = "search_offset s (sint start)"
  define n where "n = nat (clamp (if sint start < 0 then int (length (str_chars s)) + sint start else sint start)
      0 (int (length (str_chars s))))"
  have k: "?k = char_offset n s" by (simp add: search_offset_def n_def Let_def)
  have "search_start s [VString p, VInt start] ''find'' = Inr n"
    using assms(1) by (simp add: search_start_def value_to_i64_def normalize_string_start_def n_def
        i64_of_len_def in_i64_def)
  then have run: "find_method_builtin (VString s) [VString p, VInt start]
      = Inr (case find_from s n p of None \<Rightarrow> VInt (- 1) | Some i \<Rightarrow> index_value i)"
    by (simp add: find_method_builtin_def nu_text_def value_to_string_def)
  show ?thesis
  proof (cases "find_from s n p")
    case None
    then show ?thesis using run find_from_first(2) [of s n p] by (simp add: k)
  next
    case (Some i)
    then have first: "?k \<le> i" "occurs_at p s i" "\<forall>j. ?k \<le> j \<and> j < i \<longrightarrow> \<not> occurs_at p s j"
      using find_from_first(1) by (auto simp: k)
    then have "int i < 9223372036854775808" using assms(2) by (simp add: occurs_at_def)
    then have i: "sint (i64_of (int i)) = int i" by (simp add: sint_i64_of in_i64_def)
    then show ?thesis using run Some first by (intro exI [of _ "i64_of (int i)"]) (auto simp: index_value_def)
  qed
qed

theorem find_returns_first_occurrence_witness:
  "\<exists>i. find_method_builtin (VString ''abcab'') [VString ''ab'', VInt 1] = Inr (VInt i)
    \<and> occurs_at ''ab'' ''abcab'' (nat (sint i)) \<and> 1 \<le> sint i"
proof -
  have len: "length (str_chars ''abcab'') = 5" "length ''abcab'' = 5" "search_offset ''abcab'' 1 = 1"
    by code_simp+
  have "occurs_at ''ab'' ''abcab'' 3" by (simp add: occurs_at_def)
  then have "\<exists>j\<ge>1. occurs_at ''ab'' ''abcab'' j" by (intro exI [of _ 3]) simp
  then show ?thesis using find_returns_first_occurrence [of "''abcab''" "''ab''" 1] len by auto
qed

section \<open>Formatting\<close>

definition is_brace :: "char \<Rightarrow> bool" where
  "is_brace c \<longleftrightarrow> c = CHR ''{'' \<or> c = CHR ''}''"

definition escape_braces :: "string \<Rightarrow> string" where
  "escape_braces t = concat (List.map (\<lambda>c. if is_brace c then [c, c] else [c]) t)"

datatype piece = Literal string | Placed nu_value

definition template_of :: "piece list \<Rightarrow> string" where
  "template_of ps = concat (List.map (\<lambda>p. case p of Literal t \<Rightarrow> escape_braces t | Placed _ \<Rightarrow> ''{}'') ps)"

definition placed_values :: "piece list \<Rightarrow> nu_value list" where
  "placed_values ps = concat (List.map (\<lambda>p. case p of Literal _ \<Rightarrow> [] | Placed v \<Rightarrow> [v]) ps)"

definition rendered :: "text_env \<Rightarrow> piece list \<Rightarrow> string" where
  "rendered env ps = concat (List.map (\<lambda>p. case p of Literal t \<Rightarrow> t | Placed v \<Rightarrow> value_to_display_string env v) ps)"

lemma format_escaped:
  "format_loop env args (escape_braces t @ rest) st = format_loop env args rest (push_text t st)"
proof (induction t arbitrary: st)
  case (Cons c t)
  then show ?case by (auto simp: escape_braces_def is_brace_def push_text_def)
qed (simp add: escape_braces_def push_text_def)

lemma format_pieces:
  assumes "args = before @ placed_values ps" and "fs_arg_index st = length before" and "\<not> fs_explicit st"
  shows "\<exists>st'. format_loop env args (template_of ps) st = Inr st' \<and> fs_output st' = fs_output st @ rendered env ps
    \<and> fs_arg_index st' = length args \<and> \<not> fs_explicit st'"
  using assms
proof (induction ps arbitrary: before st)
  case Nil
  then show ?case by (simp add: template_of_def placed_values_def rendered_def)
next
  case (Cons p ps)
  show ?case
  proof (cases p)
    case (Literal t)
    then have "format_loop env args (template_of (p # ps)) st = format_loop env args (template_of ps) (push_text t st)"
      by (simp add: template_of_def format_escaped)
    then show ?thesis
      using Cons.IH [of before "push_text t st"] Cons.prems Literal by (simp add: push_text_def placed_values_def rendered_def)
  next
    case (Placed v)
    let ?st = "push_text (value_to_display_string env v) (st\<lparr> fs_implicit := True, fs_arg_index := fs_arg_index st + 1 \<rparr>)"
    have "vec_get args (length before) = Some v"
      using Cons.prems(1) Placed by (simp add: vec_get_def placed_values_def)
    then have "place_value env args [] st = Inr ?st"
      using Cons.prems(2,3) by (simp add: place_value_def split_format_index_and_spec_def ok_or_def format_value_def Let_def)
    then have "format_loop env args (template_of (p # ps)) st = format_loop env args (template_of ps) ?st"
      using Placed by (simp add: template_of_def)
    then show ?thesis
      using Cons.IH [of "before @ [v]" ?st] Cons.prems Placed by (simp add: push_text_def placed_values_def rendered_def)
  qed
qed

text \<open>C28: A template that consists of literal texts, with their braces doubled, and placeholders, with as many
  arguments as placeholders, is filled in: the result is the literal texts with the arguments between them, each as
  its displayed text. No brace of a literal is taken for a placeholder.\<close>

theorem format_fills_placeholders:
  "format_builtin env (VString (template_of ps)) (placed_values ps) = Inr (VString (rendered env ps))"
  using format_pieces [of "placed_values ps" "[]" ps
      "\<lparr> fs_output = [], fs_arg_index = 0, fs_explicit = False, fs_implicit = False \<rparr>" env]
  by (auto simp: format_builtin_def format_template_def value_to_string_def nu_text_def)

end
