(* ===== verification/Context_State.thy ===== *)
theory Context_State
  imports Format_Sort
begin

text \<open>The memory of a session (\<open>stone_context.rs\<close>): items by key with revisions, a log of events, and a budget of
  bytes. The map of the items is a \<open>BTreeMap\<close>, the list of its entries in the order of the keys.\<close>

record context_env = text_env +
  cx_debug_text :: "string \<Rightarrow> string"

definition max_context_items :: nat where "max_context_items = 256"

definition max_context_item_bytes :: nat where "max_context_item_bytes = 16 * 1024"

definition max_context_bytes :: nat where "max_context_bytes = 256 * 1024"

definition max_context_evidence_items :: nat where "max_context_evidence_items = 64"

definition max_context_events :: nat where "max_context_events = 512"

definition max_context_project_tokens :: nat where "max_context_project_tokens = 4096"

record context_item =
  ci_id :: string
  ci_key :: string
  ci_kind :: string
  ci_content :: json
  ci_status :: string
  ci_evidence :: "json list"
  ci_revision :: nat
  ci_supersedes :: "string option"

record context_state =
  cx_revision :: nat
  cx_next_id :: nat
  cx_items :: "(string \<times> context_item) list"
  cx_events :: "json list"
  cx_remote_item_count :: "nat option"
  cx_total_item_bytes :: nat

definition empty_context :: context_state where
  "empty_context = \<lparr> cx_revision = 0, cx_next_id = 0, cx_items = [], cx_events = [], cx_remote_item_count = None,
     cx_total_item_bytes = 0 \<rparr>"

definition nat_json :: "nat \<Rightarrow> json" where
  "nat_json n = JInt (int n)"

definition optional_json :: "string option \<Rightarrow> json" where
  "optional_json s = (case s of None \<Rightarrow> JNull | Some t \<Rightarrow> JString t)"

definition item_json :: "context_item \<Rightarrow> json" where
  "item_json i = json_record [(''id'', JString (ci_id i)), (''key'', JString (ci_key i)), (''kind'', JString (ci_kind i)),
     (''content'', ci_content i), (''status'', JString (ci_status i)), (''evidence'', JArray (ci_evidence i)),
     (''revision'', nat_json (ci_revision i)), (''supersedes'', optional_json (ci_supersedes i)), (''superseded_by'', JNull)]"

definition encoded_item_bytes :: "context_env \<Rightarrow> context_item \<Rightarrow> nat" where
  "encoded_item_bytes env i = length (te_json_text env (item_json i))"

section \<open>Checks\<close>

definition validate_text :: "string \<Rightarrow> string \<Rightarrow> string + unit" where
  "validate_text name v =
     (if trim v = [] then Inl (name @ '' must not be empty'')
      else if 256 < length v then Inl (name @ '' exceeds 256 bytes'') else Inr ())"

definition context_statuses :: "string list" where
  "context_statuses = [''active'', ''verified'', ''pending'', ''contradicted'', ''archived'']"

definition validate_status :: "context_env \<Rightarrow> string \<Rightarrow> string + unit" where
  "validate_status env status =
     (if status \<in> set context_statuses then Inr ()
      else Inl (''unsupported status '' @ cx_debug_text env status
        @ ''; expected active, verified, pending, contradicted, or archived''))"

definition validate_item_size :: "context_env \<Rightarrow> json \<Rightarrow> json list \<Rightarrow> string + unit" where
  "validate_item_size env content evidence =
     (if max_context_evidence_items < length evidence
      then Inl (''context evidence has '' @ nat_text (length evidence) @ '' entries; maximum is 64'')
      else let bytes = length (te_json_text env (json_record [(''content'', content), (''evidence'', JArray evidence)]))
        in if max_context_item_bytes < bytes
           then Inl (''context item is '' @ nat_text bytes @ '' bytes; maximum is 16384'') else Inr ())"

definition require_capacity :: "context_state \<Rightarrow> string + unit" where
  "require_capacity st =
     (if max_context_items \<le> length (cx_items st)
      then Inl ''context item limit 256 reached; compact or archive state before writing more'' else Inr ())"

definition u64_succ :: "nat \<Rightarrow> nat option" where
  "u64_succ n = (if n + 1 < 2 ^ 64 then Some (n + 1) else None)"

definition push_event :: "json \<Rightarrow> context_state \<Rightarrow> context_state" where
  "push_event event st =
     st\<lparr> cx_events := (if length (cx_events st) = max_context_events then tl (cx_events st) else cx_events st) @ [event] \<rparr>"

section \<open>Writing\<close>

definition bytes_after :: "nat \<Rightarrow> nat \<Rightarrow> nat \<Rightarrow> nat option" where
  "bytes_after bytes prior_bytes item_bytes =
     (if bytes < prior_bytes \<or> 2 ^ 64 \<le> bytes - prior_bytes + item_bytes then None else Some (bytes - prior_bytes + item_bytes))"

definition item_footprint :: "context_env \<Rightarrow> context_item \<Rightarrow> nat" where
  "item_footprint env i = (if ci_status i = ''archived'' then 0 else encoded_item_bytes env i)"

definition store_item :: "context_item \<Rightarrow> (string \<times> context_item) list \<Rightarrow> (string \<times> context_item) list" where
  "store_item i items = (if ci_status i = ''archived'' then List.filter (\<lambda>e. fst e \<noteq> ci_key i) items
     else map_insert (ci_key i) i items)"

definition context_write :: "context_env \<Rightarrow> string \<Rightarrow> string \<Rightarrow> json \<Rightarrow> string \<Rightarrow> json list \<Rightarrow> context_state
    \<Rightarrow> string + json \<times> context_state" where
  "context_write env key kind content status evidence st =
     and_then (validate_text ''key'' key) (\<lambda>_.
     and_then (validate_text ''kind'' kind) (\<lambda>_.
     and_then (validate_status env status) (\<lambda>_.
     and_then (validate_item_size env content evidence) (\<lambda>_.
     let prior = map_of (cx_items st) key in
     and_then (if status \<noteq> ''archived'' \<and> prior = None then require_capacity st else Inr ()) (\<lambda>_.
     and_then (ok_or ''context revision overflow'' (u64_succ (cx_revision st))) (\<lambda>revision.
     and_then (ok_or ''context item id overflow'' (u64_succ (cx_next_id st))) (\<lambda>next_id.
     let item = \<lparr> ci_id = ''context-item-'' @ nat_text next_id, ci_key = key, ci_kind = kind, ci_content = content,
           ci_status = status, ci_evidence = evidence, ci_revision = revision, ci_supersedes = map_option ci_id prior \<rparr>;
         prior_bytes = (case prior of None \<Rightarrow> 0 | Some p \<Rightarrow> encoded_item_bytes env p)
     in and_then (ok_or ''context byte accounting overflow''
            (bytes_after (cx_total_item_bytes st) prior_bytes (item_footprint env item))) (\<lambda>bytes.
        if max_context_bytes < bytes
        then Inl (''context is '' @ nat_text bytes @ '' bytes; maximum is 262144'')
        else Inr (item_json item, push_event (json_record [(''op'', JString ''write''), (''revision'', nat_json revision),
               (''item'', JString (ci_id item)), (''key'', JString key)])
             (st\<lparr> cx_revision := revision, cx_next_id := next_id, cx_total_item_bytes := bytes,
                 cx_items := store_item item (cx_items st), cx_remote_item_count := None \<rparr>))))))))))"

section \<open>Reading\<close>

fun split_where :: "(string \<Rightarrow> bool) \<Rightarrow> string list \<Rightarrow> string list" where
  "split_where P [] = [[]]"
| "split_where P (c # cs) = (case split_where P cs of
     [] \<Rightarrow> []
   | word # words \<Rightarrow> if P c then [] # word # words else (c @ word) # words)"

definition relevance_tokens :: "context_env \<Rightarrow> string \<Rightarrow> string list" where
  "relevance_tokens env s = List.map (te_lower env)
     (List.filter (\<lambda>token. 1 < length token) (split_where (\<lambda>c. \<not> te_alphanumeric env c) (str_chars s)))"

definition relevance_score :: "context_env \<Rightarrow> string \<Rightarrow> string list \<Rightarrow> nat" where
  "relevance_score env s tokens = length (List.filter (\<lambda>token. str_contains token (te_lower env s)) tokens)"

definition searchable_text :: "context_env \<Rightarrow> context_item \<Rightarrow> string" where
  "searchable_text env i = ci_key i @ '' '' @ ci_kind i @ '' '' @ ci_status i @ '' '' @ te_json_text env (ci_content i)"

text \<open>The most relevant items first, the latest first among equally relevant ones.\<close>

definition more_relevant :: "context_item \<times> nat \<Rightarrow> context_item \<times> nat \<Rightarrow> bool" where
  "more_relevant x y \<longleftrightarrow> snd y < snd x \<or> snd y = snd x \<and> ci_revision (fst y) \<le> ci_revision (fst x)"

definition ids_json :: "context_item list \<Rightarrow> json" where
  "ids_json is = json_strings (List.map ci_id is)"

definition context_matches :: "context_env \<Rightarrow> string \<Rightarrow> string list \<Rightarrow> string list \<Rightarrow> context_state \<Rightarrow> (context_item \<times> nat) list" where
  "context_matches env query keys kinds st =
     (let tokens = relevance_tokens env query in
      List.filter (\<lambda>m. tokens = [] \<or> 0 < snd m)
        (List.map (\<lambda>i. (i, relevance_score env (searchable_text env i) tokens))
          (List.filter (\<lambda>i. (keys = [] \<or> ci_key i \<in> set keys) \<and> (kinds = [] \<or> ci_kind i \<in> set kinds))
            (List.map snd (cx_items st)))))"

definition context_read :: "context_env \<Rightarrow> string \<Rightarrow> string list \<Rightarrow> string list \<Rightarrow> nat \<Rightarrow> context_state
    \<Rightarrow> json list \<times> context_state" where
  "context_read env query keys kinds limit st =
     (let q = te_lower env query;
          selected = take limit (List.map fst (stable_sort more_relevant (context_matches env q keys kinds st)))
      in (List.map item_json selected,
          push_event (json_record [(''op'', JString ''read''), (''revision'', nat_json (cx_revision st)), (''query'', JString q),
            (''keys'', json_strings keys), (''kinds'', json_strings kinds), (''selected'', ids_json selected)]) st))"

section \<open>Projecting\<close>

primrec check_required_keys :: "string set \<Rightarrow> string list \<Rightarrow> string + unit" where
  "check_required_keys seen [] = Inr ()"
| "check_required_keys seen (key # keys) =
     and_then (validate_text ''required key'' key) (\<lambda>_.
     if key \<in> seen then Inl (''required key is duplicated: '' @ key)
     else check_required_keys (insert key seen) keys)"

definition memory_text :: "context_env \<Rightarrow> context_item list \<Rightarrow> string" where
  "memory_text env is = te_json_text env (json_record [(''memory'', JArray (List.map item_json is))])"

text \<open>Candidates are added as long as the text fits; a candidate that does not fit is left out.\<close>

primrec add_candidates :: "context_env \<Rightarrow> nat \<Rightarrow> context_item list \<Rightarrow> context_item list \<times> bool \<Rightarrow> context_item list \<times> bool" where
  "add_candidates env max_bytes [] acc = acc"
| "add_candidates env max_bytes (i # is) acc = add_candidates env max_bytes is
     (if length (memory_text env (fst acc @ [i])) \<le> max_bytes then (fst acc @ [i], snd acc) else (fst acc, True))"

definition context_candidates :: "context_env \<Rightarrow> string \<Rightarrow> string list \<Rightarrow> context_state \<Rightarrow> context_item list" where
  "context_candidates env focus required_keys st =
     (let tokens = relevance_tokens env focus in
      List.map fst (stable_sort more_relevant
        (List.map (\<lambda>i. (i, relevance_score env (searchable_text env i) tokens))
          (List.filter (\<lambda>i. ci_key i \<notin> set required_keys) (List.map snd (cx_items st))))))"

definition token_estimate :: "nat \<Rightarrow> nat" where
  "token_estimate bytes = (bytes + 3) div 4"

definition required_items :: "string list \<Rightarrow> context_state \<Rightarrow> string + context_item list" where
  "required_items keys st = collect_ok (\<lambda>key. ok_or (''required key is missing: '' @ key) (map_of (cx_items st) key)) keys"

definition context_project :: "context_env \<Rightarrow> string \<Rightarrow> nat \<Rightarrow> string list \<Rightarrow> context_state
    \<Rightarrow> string + json \<times> context_state" where
  "context_project env focus max_tokens required_keys st =
     (if max_tokens = 0 then Inl ''max_tokens must be greater than zero''
      else if max_context_project_tokens < max_tokens then Inl ''max_tokens exceeds 4096''
      else if max_context_items < length required_keys then Inl ''projection may require at most 256 keys''
      else
        and_then (check_required_keys {} required_keys) (\<lambda>_.
        and_then (required_items required_keys st) (\<lambda>required.
        let max_bytes = max_tokens * 4 in
        if max_bytes < length (memory_text env required)
        then Inl (''required keys need approximately '' @ nat_text (token_estimate (length (memory_text env required)))
               @ '' tokens; budget is '' @ nat_text max_tokens)
        else let (selected, truncated) = add_candidates env max_bytes (context_candidates env focus required_keys st) (required, False);
                 body = memory_text env selected;
                 estimated = nat_json (token_estimate (length body))
             in Inr (json_record [(''revision'', nat_json (cx_revision st)), (''focus'', JString focus),
                    (''required_keys'', json_strings required_keys), (''items'', JArray (List.map item_json selected)),
                    (''text'', JString body), (''estimated_tokens'', estimated), (''truncated'', JBool truncated)],
                  push_event (json_record [(''op'', JString ''project''), (''revision'', nat_json (cx_revision st)),
                    (''focus'', JString focus), (''max_tokens'', nat_json max_tokens),
                    (''required_keys'', json_strings required_keys), (''selected'', ids_json selected),
                    (''estimated_tokens'', estimated), (''truncated'', JBool truncated)]) st))))"

section \<open>Diagnostics and the gateway\<close>

definition context_diagnostics :: "context_state \<Rightarrow> json option" where
  "context_diagnostics st = (if cx_events st = [] then None else Some (json_record [
     (''revision'', nat_json (cx_revision st)),
     (''item_count'', nat_json (case cx_remote_item_count st of Some n \<Rightarrow> n | None \<Rightarrow> length (cx_items st))),
     (''events'', JArray (cx_events st))]))"

definition switch_to_gateway :: "nat \<Rightarrow> context_state \<Rightarrow> context_state" where
  "switch_to_gateway item_count st = st\<lparr> cx_items := [], cx_total_item_bytes := 0, cx_remote_item_count := Some item_count \<rparr>"

definition member_or_null :: "json \<Rightarrow> string \<Rightarrow> json" where
  "member_or_null j key = (case Option.bind (json_object j) (\<lambda>m. map_of m key) of None \<Rightarrow> JNull | Some v \<Rightarrow> v)"

definition ids_of :: "json list \<Rightarrow> json" where
  "ids_of js = json_strings (List.map_filter (\<lambda>j. json_str (member_or_null j ''id'')) js)"

definition observe_gateway_write :: "json \<Rightarrow> nat \<Rightarrow> nat \<Rightarrow> context_state \<Rightarrow> context_state" where
  "observe_gateway_write item revision item_count st =
     push_event (json_record [(''op'', JString ''write''), (''revision'', nat_json revision),
         (''item'', member_or_null item ''id''), (''key'', member_or_null item ''key''), (''backend'', JString ''gateway'')])
       (switch_to_gateway item_count (st\<lparr> cx_revision := revision \<rparr>))"

definition observe_gateway_read :: "string \<Rightarrow> string list \<Rightarrow> string list \<Rightarrow> json list \<Rightarrow> nat \<Rightarrow> nat \<Rightarrow> context_state \<Rightarrow> context_state" where
  "observe_gateway_read query keys kinds items revision item_count st =
     push_event (json_record [(''op'', JString ''read''), (''revision'', nat_json revision), (''query'', JString query),
         (''keys'', json_strings keys), (''kinds'', json_strings kinds), (''selected'', ids_of items), (''backend'', JString ''gateway'')])
       (switch_to_gateway item_count (st\<lparr> cx_revision := revision \<rparr>))"

definition observe_gateway_project :: "string \<Rightarrow> nat \<Rightarrow> json \<Rightarrow> nat \<Rightarrow> nat \<Rightarrow> context_state \<Rightarrow> context_state" where
  "observe_gateway_project focus max_tokens projection revision item_count st =
     push_event (json_record [(''op'', JString ''project''), (''revision'', nat_json revision), (''focus'', JString focus),
         (''max_tokens'', nat_json max_tokens),
         (''selected'', ids_of (case json_array (member_or_null projection ''items'') of None \<Rightarrow> [] | Some js \<Rightarrow> js)),
         (''estimated_tokens'', member_or_null projection ''estimated_tokens''),
         (''truncated'', member_or_null projection ''truncated''), (''backend'', JString ''gateway'')])
       (switch_to_gateway item_count (st\<lparr> cx_revision := revision \<rparr>))"

end
