(* ===== verification/Context_Correct.thy ===== *)
theory Context_Correct
  imports Context_State Json_Correct Sort_Correct
begin

text \<open>The memory of a session stays within its limits and its accounting is exact; what is written is read back;
  a projection fits its budget.\<close>

section \<open>Maps of entries\<close>

lemma key_ordered_first: "key_ordered ((k', v') # m) \<Longrightarrow> map_of m k = Some p \<Longrightarrow> k' < k"
  by (auto simp: key_ordered_Cons dest!: map_of_SomeD)

lemma sum_map_insert_new:
  fixes f :: "'a \<Rightarrow> nat"
  shows "map_of m k = None \<Longrightarrow> (\<Sum>e\<leftarrow>map_insert k v m. f (snd e)) = (\<Sum>e\<leftarrow>m. f (snd e)) + f v"
  by (induction k v m rule: map_insert.induct) (auto split: if_splits)

lemma sum_map_insert_old:
  fixes f :: "'a \<Rightarrow> nat"
  shows "key_ordered m \<Longrightarrow> map_of m k = Some p
    \<Longrightarrow> (\<Sum>e\<leftarrow>map_insert k v m. f (snd e)) + f p = (\<Sum>e\<leftarrow>m. f (snd e)) + f v"
proof (induction k v m rule: map_insert.induct)
  case (2 k v k' v' m)
  then have "k = k' \<or> k' < k \<and> map_of m k = Some p" using key_ordered_first [of k' v' m k p] by (auto split: if_splits)
  then show ?case using 2 by (auto simp: key_ordered_Cons)
qed simp

lemma length_map_insert: "length (map_insert k v m) \<le> Suc (length m)"
  by (induction k v m rule: map_insert.induct) simp_all

lemma length_map_insert_present:
  "key_ordered m \<Longrightarrow> map_of m k = Some p \<Longrightarrow> length (map_insert k v m) = length m"
  using sum_map_insert_old [of m k p "\<lambda>_. 1" v] by (simp add: sum_list_triv)

lemma set_map_insert: "set (map_insert k v m) \<subseteq> insert (k, v) (set m)"
  by (induction k v m rule: map_insert.induct) auto

lemma set_map_insert_distinct: "key_ordered m \<Longrightarrow> set (map_insert k v m) = insert (k, v) {e \<in> set m. fst e \<noteq> k}"
proof (induction k v m rule: map_insert.induct)
  case (2 k v k' v' m)
  then show ?case by (auto simp: key_ordered_def)
qed simp

lemma filter_absent_key: "k \<notin> fst ` set m \<Longrightarrow> List.filter (\<lambda>e. fst e \<noteq> k) m = m"
  by (intro filter_True) auto

lemma sum_filter_key:
  fixes f :: "'a \<Rightarrow> nat"
  shows "key_ordered m \<Longrightarrow> map_of m k = Some p
    \<Longrightarrow> (\<Sum>e\<leftarrow>List.filter (\<lambda>e. fst e \<noteq> k) m. f (snd e)) + f p = (\<Sum>e\<leftarrow>m. f (snd e))"
proof (induction m)
  case (Cons e m)
  show ?case
  proof (cases "fst e = k")
    case True
    then have "k \<notin> fst ` set m" using Cons.prems(1) by (auto simp: key_ordered_Cons)
    then show ?thesis using Cons True by (cases e) (simp add: filter_absent_key)
  next
    case False
    then show ?thesis using Cons by (cases e) (simp add: key_ordered_Cons)
  qed
qed simp

lemma filter_map_insert: "key_ordered m \<Longrightarrow> List.filter (\<lambda>e. fst e = k) (map_insert k v m) = [(k, v)]"
proof (induction k v m rule: map_insert.induct)
  case (2 k v k' v' m)
  then have "List.filter (\<lambda>e. fst e = k) m = []" if "k \<le> k'"
    using that by (auto simp: key_ordered_Cons filter_empty_conv)
  then show ?case using 2 by (auto simp: key_ordered_Cons less_imp_le)
qed simp

section \<open>The invariant\<close>

definition item_ok :: "nat \<Rightarrow> string \<times> context_item \<Rightarrow> bool" where
  "item_ok revision e \<longleftrightarrow> ci_key (snd e) = fst e \<and> ci_revision (snd e) \<le> revision
     \<and> ci_status (snd e) \<in> set context_statuses \<and> ci_status (snd e) \<noteq> ''archived''
     \<and> length (ci_evidence (snd e)) \<le> max_context_evidence_items"

definition used_bytes :: "context_env \<Rightarrow> context_state \<Rightarrow> nat" where
  "used_bytes env st = (\<Sum>e\<leftarrow>cx_items st. encoded_item_bytes env (snd e))"

definition context_ok :: "context_env \<Rightarrow> context_state \<Rightarrow> bool" where
  "context_ok env st \<longleftrightarrow> key_ordered (cx_items st) \<and> (\<forall>e\<in>set (cx_items st). item_ok (cx_revision st) e)
     \<and> inj_on (\<lambda>e. ci_revision (snd e)) (set (cx_items st))
     \<and> length (cx_items st) \<le> max_context_items \<and> length (cx_events st) \<le> max_context_events
     \<and> cx_total_item_bytes st = used_bytes env st \<and> cx_total_item_bytes st \<le> max_context_bytes"

definition new_item :: "string \<Rightarrow> string \<Rightarrow> json \<Rightarrow> string \<Rightarrow> json list \<Rightarrow> context_state \<Rightarrow> context_item" where
  "new_item key kind content status evidence st = \<lparr> ci_id = ''context-item-'' @ nat_text (cx_next_id st + 1), ci_key = key,
     ci_kind = kind, ci_content = content, ci_status = status, ci_evidence = evidence, ci_revision = cx_revision st + 1,
     ci_supersedes = map_option ci_id (map_of (cx_items st) key) \<rparr>"

definition prior_bytes :: "context_env \<Rightarrow> string \<Rightarrow> context_state \<Rightarrow> nat" where
  "prior_bytes env key st = (case map_of (cx_items st) key of None \<Rightarrow> 0 | Some p \<Rightarrow> encoded_item_bytes env p)"

definition write_allowed :: "context_env \<Rightarrow> string \<Rightarrow> string \<Rightarrow> json \<Rightarrow> string \<Rightarrow> json list \<Rightarrow> context_state \<Rightarrow> bool" where
  "write_allowed env key kind content status evidence st \<longleftrightarrow>
     validate_text ''key'' key = Inr () \<and> validate_text ''kind'' kind = Inr () \<and> validate_status env status = Inr ()
     \<and> validate_item_size env content evidence = Inr ()
     \<and> (status \<noteq> ''archived'' \<and> map_of (cx_items st) key = None \<longrightarrow> length (cx_items st) < max_context_items)
     \<and> used_bytes env st + item_footprint env (new_item key kind content status evidence st)
         \<le> max_context_bytes + prior_bytes env key st"

lemma u64_succ_iff: "u64_succ n = Some m \<longleftrightarrow> m = n + 1 \<and> n + 1 < 2 ^ 64"
  by (auto simp: u64_succ_def)

lemma prior_in_total: "key_ordered (cx_items st) \<Longrightarrow> prior_bytes env key st \<le> used_bytes env st"
  using sum_filter_key [of "cx_items st" key _ "encoded_item_bytes env"]
  by (auto simp: prior_bytes_def used_bytes_def split: option.split)

lemma context_write_result:
  assumes ok: "context_ok env st" and room: "cx_revision st + 1 < 2 ^ 64" "cx_next_id st + 1 < 2 ^ 64"
    and allowed: "write_allowed env key kind content status evidence st"
  defines "item \<equiv> new_item key kind content status evidence st"
  shows "context_write env key kind content status evidence st = Inr (item_json item,
    push_event (json_record [(''op'', JString ''write''), (''revision'', nat_json (cx_revision st + 1)),
        (''item'', JString (ci_id item)), (''key'', JString key)])
      (st\<lparr> cx_revision := cx_revision st + 1, cx_next_id := cx_next_id st + 1,
        cx_total_item_bytes := used_bytes env st - prior_bytes env key st + item_footprint env item,
        cx_items := store_item item (cx_items st), cx_remote_item_count := None \<rparr>))"
proof -
  have le: "prior_bytes env key st \<le> used_bytes env st" using ok by (intro prior_in_total) (simp add: context_ok_def)
  have bytes: "bytes_after (cx_total_item_bytes st) (prior_bytes env key st) (item_footprint env item)
      = Some (used_bytes env st - prior_bytes env key st + item_footprint env item)"
    "\<not> max_context_bytes < used_bytes env st - prior_bytes env key st + item_footprint env item"
    using le ok allowed by (auto simp: bytes_after_def context_ok_def write_allowed_def item_def max_context_bytes_def)
  have capacity: "(if status \<noteq> ''archived'' \<and> map_of (cx_items st) key = None then require_capacity st else Inr ()) = Inr ()"
    using allowed by (auto simp: write_allowed_def require_capacity_def)
  note bytes' = bytes [unfolded item_def new_item_def prior_bytes_def]
  show ?thesis
    using allowed capacity room bytes'
    by (simp add: context_write_def write_allowed_def u64_succ_def item_def new_item_def prior_bytes_def Let_def)
qed

lemma context_write_ok:
  assumes ok: "context_ok env st" and run: "context_write env key kind content status evidence st = Inr (j, st')"
  shows "cx_revision st + 1 < 2 ^ 64" "cx_next_id st + 1 < 2 ^ 64" "write_allowed env key kind content status evidence st"
proof -
  have le: "prior_bytes env key st \<le> used_bytes env st" using ok by (intro prior_in_total) (simp add: context_ok_def)
  have room: "u64_succ (cx_revision st) = Some (cx_revision st + 1)" "u64_succ (cx_next_id st) = Some (cx_next_id st + 1)"
    using run by (auto simp: context_write_def and_then_eq_Inr Let_def ok_or_def u64_succ_iff split: option.splits)
  then show "cx_revision st + 1 < 2 ^ 64" "cx_next_id st + 1 < 2 ^ 64" by (simp_all add: u64_succ_iff)
  obtain bytes where bytes: "bytes_after (cx_total_item_bytes st) (prior_bytes env key st)
      (item_footprint env (new_item key kind content status evidence st)) = Some bytes" "bytes \<le> max_context_bytes"
    and checks: "validate_text ''key'' key = Inr ()" "validate_text ''kind'' kind = Inr ()" "validate_status env status = Inr ()"
      "validate_item_size env content evidence = Inr ()"
      "(if status \<noteq> ''archived'' \<and> map_of (cx_items st) key = None then require_capacity st else Inr ()) = Inr ()"
    using run room
    by (auto simp: context_write_def and_then_eq_Inr Let_def ok_or_def prior_bytes_def new_item_def split: option.splits if_splits)
  then show "write_allowed env key kind content status evidence st"
    using le ok by (auto simp: write_allowed_def bytes_after_def context_ok_def require_capacity_def split: if_splits)
qed

lemma push_event_events: "length (cx_events st) \<le> max_context_events \<Longrightarrow> length (cx_events (push_event e st)) \<le> max_context_events"
  by (auto simp: push_event_def max_context_events_def)

lemma push_event_ok: "context_ok env st \<Longrightarrow> context_ok env (push_event e st)"
  using push_event_events by (auto simp: context_ok_def push_event_def used_bytes_def)

lemma set_store_item:
  assumes "key_ordered items"
  shows "set (store_item i items) = (if ci_status i = ''archived'' then {} else {(ci_key i, i)}) \<union> {e \<in> set items. fst e \<noteq> ci_key i}"
  using set_map_insert_distinct [OF assms] by (auto simp: store_item_def)

lemma key_ordered_store_item: "key_ordered items \<Longrightarrow> key_ordered (store_item i items)"
  by (auto simp: store_item_def key_ordered_map_insert) (simp add: key_ordered_def sorted_wrt_map sorted_wrt_filter)

lemma bytes_store_item:
  assumes "key_ordered (cx_items st)"
  shows "(\<Sum>e\<leftarrow>store_item i (cx_items st). encoded_item_bytes env (snd e)) = used_bytes env st - prior_bytes env (ci_key i) st + item_footprint env i"
proof (cases "map_of (cx_items st) (ci_key i)")
  case None
  then show ?thesis
    using sum_map_insert_new [OF None, of "encoded_item_bytes env" i] filter_absent_key [OF None [unfolded map_of_eq_None_iff]]
    by (auto simp: store_item_def used_bytes_def prior_bytes_def item_footprint_def)
next
  case (Some p)
  then show ?thesis
    using sum_map_insert_old [OF assms Some, of "encoded_item_bytes env" i] sum_filter_key [OF assms Some, of "encoded_item_bytes env"]
    by (auto simp: store_item_def used_bytes_def prior_bytes_def item_footprint_def)
qed

lemma length_store_item:
  assumes "key_ordered items" and "length items \<le> n"
    and "ci_status i \<noteq> ''archived'' \<Longrightarrow> map_of items (ci_key i) = None \<Longrightarrow> length items < n"
  shows "length (store_item i items) \<le> n"
proof (cases "ci_status i = ''archived''")
  case True
  then show ?thesis using assms(2) by (simp add: store_item_def le_trans [OF length_filter_le])
next
  case False
  then show ?thesis
    using assms length_map_insert [of "ci_key i" i items] length_map_insert_present [OF assms(1)]
    by (cases "map_of items (ci_key i)") (auto simp: store_item_def)
qed

lemma context_write_keeps_ok:
  assumes ok: "context_ok env st" and run: "context_write env key kind content status evidence st = Inr (j, st')"
  shows "context_ok env st'"
proof -
  note allowed = context_write_ok [OF ok run]
  define i where "i = new_item key kind content status evidence st"
  have i: "ci_key i = key" "ci_status i = status" "ci_revision i = cx_revision st + 1" "ci_evidence i = evidence"
    by (simp_all add: i_def new_item_def)
  have order: "key_ordered (cx_items st)" using ok by (simp add: context_ok_def)
  note items = set_store_item [OF order, of i]
  have bytes: "(\<Sum>e\<leftarrow>store_item i (cx_items st). encoded_item_bytes env (snd e)) \<le> max_context_bytes"
    using allowed(3) prior_in_total [OF order, of env key]
    by (auto simp: bytes_store_item [OF order] i write_allowed_def i_def [symmetric])
  have good: "item_ok (cx_revision st + 1) (key, i)" if "status \<noteq> ''archived''"
    using allowed(3) that by (auto simp: item_ok_def i write_allowed_def validate_status_def validate_item_size_def split: if_splits)
  have old: "item_ok (cx_revision st) e" if "e \<in> set (cx_items st)" for e using ok that by (simp add: context_ok_def)
  have inj: "inj_on (\<lambda>e. ci_revision (snd e)) (set (store_item i (cx_items st)))"
    using ok old unfolding items by (fastforce simp: context_ok_def inj_on_def item_ok_def i)
  have len: "length (store_item i (cx_items st)) \<le> max_context_items"
    using ok allowed(3) by (intro length_store_item order) (auto simp: context_ok_def i write_allowed_def)
  have all: "\<forall>e\<in>set (store_item i (cx_items st)). item_ok (cx_revision st + 1) e"
    using good unfolding items by (auto simp: i item_ok_def dest!: old intro: le_SucI)
  have "context_ok env (st\<lparr> cx_revision := cx_revision st + 1, cx_next_id := cx_next_id st + 1,
      cx_total_item_bytes := used_bytes env st - prior_bytes env key st + item_footprint env i,
      cx_items := store_item i (cx_items st), cx_remote_item_count := None \<rparr>)"
    using ok key_ordered_store_item [OF order] inj len bytes all bytes_store_item [OF order, of env i]
    by (simp add: context_ok_def used_bytes_def i)
  then show ?thesis
    using context_write_result [OF ok allowed, folded i_def] run by (auto intro: push_event_ok)
qed

lemma gateway_ok: "context_ok env st \<Longrightarrow> context_ok env (switch_to_gateway n (st\<lparr> cx_revision := r \<rparr>))"
  by (auto simp: context_ok_def switch_to_gateway_def used_bytes_def key_ordered_def)

lemma context_project_ok: "context_project env focus n keys st = Inr (j, st') \<Longrightarrow> \<exists>e. st' = push_event e st"
  by (auto simp: context_project_def and_then_eq_Inr Let_def split: if_splits prod.splits)

text \<open>The states a session reaches.\<close>

inductive context_reach :: "context_env \<Rightarrow> context_state \<Rightarrow> bool" for env where
  start: "context_reach env empty_context"
| written: "context_reach env st \<Longrightarrow> context_write env key kind content status evidence st = Inr (j, st') \<Longrightarrow> context_reach env st'"
| reading: "context_reach env st \<Longrightarrow> context_read env query keys kinds limit st = (js, st') \<Longrightarrow> context_reach env st'"
| projected: "context_reach env st \<Longrightarrow> context_project env focus n keys st = Inr (j, st') \<Longrightarrow> context_reach env st'"
| gateway_write: "context_reach env st \<Longrightarrow> context_reach env (observe_gateway_write item revision item_count st)"
| gateway_read: "context_reach env st \<Longrightarrow> context_reach env (observe_gateway_read query keys kinds items revision item_count st)"
| gateway_project: "context_reach env st \<Longrightarrow> context_reach env (observe_gateway_project focus n projection revision item_count st)"

lemma context_reach_ok: "context_reach env st \<Longrightarrow> context_ok env st"
proof (induction rule: context_reach.induct)
  case start
  then show ?case by (simp add: context_ok_def empty_context_def used_bytes_def key_ordered_def)
next
  case (written st key kind content status evidence j st')
  then show ?case using context_write_keeps_ok by blast
next
  case (projected st focus n keys j st')
  then show ?case using context_project_ok push_event_ok by metis
qed (auto simp: context_read_def Let_def observe_gateway_write_def observe_gateway_read_def observe_gateway_project_def
    intro: push_event_ok gateway_ok)

section \<open>Limits and exact accounting\<close>

text \<open>C22: In every state that a session reaches, by writes, reads, projections and the replies of the gateway, the
  memory holds at most 256 items in at most 262144 bytes and at most 512 events, the number of bytes is the sum over
  the items that are held, each item stands under its own key, is not archived, and has a revision of its own.\<close>

theorem context_stays_within_limits:
  assumes "context_reach env st"
  shows "length (cx_items st) \<le> 256 \<and> length (cx_events st) \<le> 512 \<and> cx_total_item_bytes st \<le> 262144
    \<and> cx_total_item_bytes st = (\<Sum>e\<leftarrow>cx_items st. encoded_item_bytes env (snd e))
    \<and> sorted_wrt (<) (List.map fst (cx_items st))
    \<and> (\<forall>(k, i)\<in>set (cx_items st). ci_key i = k \<and> ci_status i \<noteq> ''archived'' \<and> ci_revision i \<le> cx_revision st)
    \<and> inj_on (\<lambda>e. ci_revision (snd e)) (set (cx_items st))"
  using context_reach_ok [OF assms]
  by (auto simp: context_ok_def used_bytes_def key_ordered_def item_ok_def max_context_items_def max_context_events_def
      max_context_bytes_def)

theorem context_stays_within_limits_witness:
  "\<forall>env. length (cx_items (observe_gateway_write JNull 7 3 empty_context)) \<le> 256"
  using context_stays_within_limits [OF context_reach.gateway_write [OF context_reach.start]] by blast



section \<open>Reading what was written\<close>

interpretation relevance: preorder_relation more_relevant UNIV
  by unfold_locales (auto simp: more_relevant_def)

text \<open>C25: A read for a key, with a query that has no words to match, returns the item that the last write stored
  under the key, and nothing after a write that archived it.\<close>

theorem written_item_is_read_back:
  assumes "context_reach env st" and "context_write env key kind content status evidence st = Inr (item, st')"
    and "relevance_tokens env (te_lower env query) = []" and "0 < limit"
  shows "fst (context_read env query [key] [] limit st') = (if status = ''archived'' then [] else [item])"
proof -
  note ok = context_reach_ok [OF assms(1)] and run = assms(2)
  define i where "i = new_item key kind content status evidence st"
  have order: "key_ordered (cx_items st)" using ok by (simp add: context_ok_def)
  have st': "cx_items st' = store_item i (cx_items st)" "item = item_json i"
    using context_write_result [OF ok context_write_ok [OF ok run], folded i_def] run by (auto simp: push_event_def)
  have i: "ci_key i = key" "ci_status i = status" by (simp_all add: i_def new_item_def)
  have own: "ci_key (snd e) = fst e" if "e \<in> set (cx_items st')" for e
    using context_write_keeps_ok [OF ok run] that by (simp add: context_ok_def item_ok_def)
  have "List.filter (\<lambda>e. fst e = key) (cx_items st') = (if status = ''archived'' then [] else [(key, i)])"
    using filter_map_insert [OF order, of key i] by (auto simp: st' store_item_def i filter_empty_conv)
  then have "List.filter (\<lambda>j. ci_key j = key) (List.map snd (cx_items st')) = (if status = ''archived'' then [] else [i])"
    using own by (auto simp: filter_map comp_def cong: filter_cong)
  then show ?thesis
    using assms(3,4) by (auto simp: context_read_def Let_def context_matches_def st'(2) stable_sort_def)
qed

text \<open>An environment with a text of two bytes for every value.\<close>

definition small_env :: context_env where
  "small_env = \<lparr> te_alphabetic = (\<lambda>_. False), te_alphanumeric = (\<lambda>_. False), te_lower = id, te_upper = id,
    te_float_text = (\<lambda>_. []), te_json_text = (\<lambda>_. ''{}''), te_other_json = JString, cx_debug_text = id \<rparr>"

theorem written_item_is_read_back_witness:
  "\<exists>j st. context_write small_env ''k'' ''note'' JNull ''active'' [] empty_context = Inr (j, st)
    \<and> fst (context_read small_env [] [''k''] [] 20 st) = [j]"
proof -
  have texts: "trim ''k'' = ''k''" "trim ''note'' = ''note''" by code_simp+
  have allowed: "write_allowed small_env ''k'' ''note'' JNull ''active'' [] empty_context"
    by (simp add: write_allowed_def validate_text_def texts validate_status_def context_statuses_def validate_item_size_def
        used_bytes_def item_footprint_def new_item_def prior_bytes_def empty_context_def encoded_item_bytes_def small_env_def
        max_context_evidence_items_def max_context_item_bytes_def max_context_items_def max_context_bytes_def)
  obtain j st where run: "context_write small_env ''k'' ''note'' JNull ''active'' [] empty_context = Inr (j, st)"
    using context_write_result [OF context_reach_ok [OF context_reach.start] _ _ allowed] by (simp add: empty_context_def)
  have "relevance_tokens small_env (te_lower small_env []) = []" by (simp add: relevance_tokens_def small_env_def)
  from written_item_is_read_back [OF context_reach.start run this, of 20] run show ?thesis by auto
qed

section \<open>Projections\<close>

lemma add_candidates_chosen:
  "\<exists>chosen. fst (add_candidates env n is acc) = fst acc @ chosen \<and> mset chosen \<subseteq># mset is
     \<and> (\<not> snd (add_candidates env n is acc) \<longleftrightarrow> \<not> snd acc \<and> mset chosen = mset is)
     \<and> (length (memory_text env (fst acc)) \<le> n \<longrightarrow> length (memory_text env (fst acc @ chosen)) \<le> n)"
proof (induction "is" arbitrary: acc)
  case (Cons i "is")
  define acc' where "acc' = (if length (memory_text env (fst acc @ [i])) \<le> n then (fst acc @ [i], snd acc) else (fst acc, True))"
  obtain chosen where c: "fst (add_candidates env n is acc') = fst acc' @ chosen" "mset chosen \<subseteq># mset is"
    "\<not> snd (add_candidates env n is acc') \<longleftrightarrow> \<not> snd acc' \<and> mset chosen = mset is"
    "length (memory_text env (fst acc')) \<le> n \<longrightarrow> length (memory_text env (fst acc' @ chosen)) \<le> n"
    using Cons.IH [of acc'] by blast
  have run: "add_candidates env n (i # is) acc = add_candidates env n is acc'" by (simp add: acc'_def)
  show ?case
  proof (cases "length (memory_text env (fst acc @ [i])) \<le> n")
    case True
    then show ?thesis unfolding run using c by (intro exI [of _ "i # chosen"]) (simp add: acc'_def)
  next
    case False
    have "mset chosen \<noteq> add_mset i (mset is)" using size_mset_mono [OF c(2)] by (metis Suc_n_not_le_n size_add_mset)
    then show ?thesis unfolding run using c False
      by (intro exI [of _ chosen]) (auto simp: acc'_def intro: subset_mset.order_trans)
  qed
qed simp

lemma required_itemsD:
  "required_items keys st = Inr is \<Longrightarrow> is = List.map (\<lambda>k. the (map_of (cx_items st) k)) keys
    \<and> (\<forall>k\<in>set keys. map_of (cx_items st) k \<noteq> None)"
  unfolding required_items_def by (induction keys arbitrary: "is") (auto simp: and_then_eq_Inr ok_or_def split: option.splits)

lemma check_required_keysD: "check_required_keys seen keys = Inr () \<Longrightarrow> distinct keys \<and> set keys \<inter> seen = {}"
  by (induction keys arbitrary: seen) (auto simp: and_then_eq_Inr split: if_splits)

lemma all_items:
  assumes ok: "context_ok env st" and keys: "distinct keys" "\<forall>k\<in>set keys. map_of (cx_items st) k \<noteq> None"
  shows "mset (List.map (\<lambda>k. the (map_of (cx_items st) k)) keys)
      + mset (List.filter (\<lambda>i. ci_key i \<notin> set keys) (List.map snd (cx_items st))) = mset (List.map snd (cx_items st))"
proof -
  let ?f = "\<lambda>k. the (map_of (cx_items st) k)" and ?is = "List.map snd (cx_items st)"
  have own: "ci_key (snd e) = fst e" if "e \<in> set (cx_items st)" for e using ok that by (simp add: context_ok_def item_ok_def)
  have "distinct (List.map fst (cx_items st))"
    using ok unfolding context_ok_def key_ordered_def by (simp add: strict_sorted_iff)
  then have "distinct (List.map ci_key ?is)" using own by (simp add: comp_def cong: map_cong)
  then have dist: "distinct ?is" and inj: "inj_on ci_key (set ?is)" using distinct_map [of ci_key ?is] by blast+
  have f: "ci_key (?f k) = k \<and> ?f k \<in> set ?is" if "k \<in> set keys" for k
    using keys(2) that own [of "(k, ?f k)"] by (force dest: map_of_SomeD)
  have "inj_on ?f (set keys)" using f by (metis (no_types, lifting) inj_onI)
  then have "distinct (List.map ?f keys)" using keys(1) by (simp add: distinct_map)
  moreover have "set (List.map ?f keys) = {i \<in> set ?is. ci_key i \<in> set keys}"
  proof
    show "{i \<in> set ?is. ci_key i \<in> set keys} \<subseteq> set (List.map ?f keys)"
    proof
      fix i assume i: "i \<in> {i \<in> set ?is. ci_key i \<in> set keys}"
      then have "i = ?f (ci_key i)" using f [of "ci_key i"] inj by (metis (no_types, lifting) inj_onD mem_Collect_eq)
      then show "i \<in> set (List.map ?f keys)" using i by auto
    qed
  qed (use f in auto)
  ultimately have "mset (List.map ?f keys) = mset (List.filter (\<lambda>i. ci_key i \<in> set keys) ?is)"
    using dist by (intro set_eq_iff_mset_eq_distinct [THEN iffD1]) auto
  then show ?thesis by (simp add: mset_filter) 
qed

text \<open>C23: If a projection succeeds, its text takes at most four bytes for each allowed token, and the estimate of its
  tokens is at most the allowed number. Its items begin with the required ones in the order they were asked for, no
  item comes twice, and it says that it is truncated exactly if not all items of the memory are in it.\<close>

theorem projection_fits_budget:
  assumes "context_reach env st" and "context_project env focus n keys st = Inr (j, st')"
  shows "\<exists>selected truncated. j = json_record [(''revision'', nat_json (cx_revision st)), (''focus'', JString focus),
        (''required_keys'', json_strings keys), (''items'', JArray (List.map item_json selected)),
        (''text'', JString (memory_text env selected)),
        (''estimated_tokens'', nat_json (token_estimate (length (memory_text env selected)))), (''truncated'', JBool truncated)]
    \<and> length (memory_text env selected) \<le> 4 * n \<and> token_estimate (length (memory_text env selected)) \<le> n
    \<and> take (length keys) selected = List.map (\<lambda>k. the (map_of (cx_items st) k)) keys
    \<and> mset selected \<subseteq># mset (List.map snd (cx_items st))
    \<and> (truncated \<longleftrightarrow> mset selected \<noteq> mset (List.map snd (cx_items st)))"
proof -
  obtain required where checked: "check_required_keys {} keys = Inr ()" and required: "required_items keys st = Inr required"
    and fits: "length (memory_text env required) \<le> n * 4"
    and j: "j = (let (selected, truncated) = add_candidates env (n * 4) (context_candidates env focus keys st) (required, False)
      in json_record [(''revision'', nat_json (cx_revision st)), (''focus'', JString focus),
        (''required_keys'', json_strings keys), (''items'', JArray (List.map item_json selected)),
        (''text'', JString (memory_text env selected)),
        (''estimated_tokens'', nat_json (token_estimate (length (memory_text env selected)))), (''truncated'', JBool truncated)])"
    using assms(2) by (auto simp: context_project_def and_then_eq_Inr Let_def split: if_splits prod.splits)
  let ?cands = "context_candidates env focus keys st"
  obtain selected truncated where added: "add_candidates env (n * 4) ?cands (required, False) = (selected, truncated)" by fastforce
  obtain chosen where chosen: "selected = required @ chosen" "mset chosen \<subseteq># mset ?cands" "\<not> truncated \<longleftrightarrow> mset chosen = mset ?cands"
    "length (memory_text env selected) \<le> n * 4"
    using add_candidates_chosen [of env "n * 4" ?cands "(required, False)"] fits added by auto
  have req: "required = List.map (\<lambda>k. the (map_of (cx_items st) k)) keys" "\<forall>k\<in>set keys. map_of (cx_items st) k \<noteq> None"
    using required_itemsD [OF required] by auto
  have "mset ?cands = mset (List.filter (\<lambda>i. ci_key i \<notin> set keys) (List.map snd (cx_items st)))"
    by (simp add: context_candidates_def Let_def relevance.mset_stable_sort multiset.map_comp comp_def)
  then have all: "mset required + mset ?cands = mset (List.map snd (cx_items st))"
    using all_items [OF context_reach_ok [OF assms(1)] _ req(2)] check_required_keysD [OF checked] req(1) by simp
  have truncated: "truncated \<longleftrightarrow> mset selected \<noteq> mset (List.map snd (cx_items st))"
    unfolding all [symmetric] chosen(1) mset_append using chosen(3) by auto
  have once: "mset selected \<subseteq># mset (List.map snd (cx_items st))"
    unfolding all [symmetric] chosen(1) mset_append using chosen(2) by simp
  have "take (length keys) selected = List.map (\<lambda>k. the (map_of (cx_items st) k)) keys" by (simp add: chosen(1) req(1))
  moreover have "token_estimate (length (memory_text env selected)) \<le> n" using chosen(4) by (simp add: token_estimate_def)
  ultimately show ?thesis
    using j [unfolded added Let_def prod.case] chosen(4) truncated once
    by (intro exI [of _ selected] exI [of _ truncated] conjI) (simp_all del: mset_map)
qed

theorem projection_fits_budget_witness:
  "\<exists>j st selected. context_project small_env [] 1 [] empty_context = Inr (j, st)
    \<and> token_estimate (length (memory_text small_env selected)) \<le> 1"
proof -
  have "\<exists>j st. context_project small_env [] 1 [] empty_context = Inr (j, st)"
    by (simp add: context_project_def max_context_project_tokens_def max_context_items_def required_items_def empty_context_def
        memory_text_def small_env_def context_candidates_def stable_sort_def Let_def)
  then obtain j st where run: "context_project small_env [] 1 [] empty_context = Inr (j, st)" by blast
  from projection_fits_budget [OF context_reach.start run] run show ?thesis by blast
qed

end
