(* ===== verification/Steps.thy ===== *)
theory Steps
  imports Value
begin

text \<open>Steps on a state that may fail with an error: the methods of the evaluator, for any state. A failed step keeps
  the state it reached.\<close>

type_synonym ('w, 'a) act_on = "'w \<Rightarrow> 'a res \<times> 'w"

definition st_lift :: "'a res \<Rightarrow> ('w, 'a) act_on" where
  "st_lift r = (\<lambda>w. (r, w))"

definition st_then :: "('w, 'a) act_on \<Rightarrow> ('a \<Rightarrow> ('w, 'b) act_on) \<Rightarrow> ('w, 'b) act_on" where
  "st_then m f = (\<lambda>w. case m w of (Inl e, w') \<Rightarrow> (Inl e, w') | (Inr x, w') \<Rightarrow> f x w')"

definition st_update :: "('w \<Rightarrow> 'w) \<Rightarrow> ('w, unit) act_on" where
  "st_update f = (\<lambda>w. (Inr (), f w))"

text \<open>Continue with the result of a step, an error or a value.\<close>

definition st_result :: "('w, 'a) act_on \<Rightarrow> ('a res \<Rightarrow> ('w, 'b) act_on) \<Rightarrow> ('w, 'b) act_on" where
  "st_result m f = (\<lambda>w. case m w of (r, w') \<Rightarrow> f r w')"

lemma st_simps [simp]:
  "st_lift r w = (r, w)"
  "st_update f w = (Inr (), f w)"
  "st_then (st_lift (Inr x)) g = g x"
  "st_then (st_lift (Inl e)) g = st_lift (Inl e)"
  by (simp_all add: st_lift_def st_update_def st_then_def fun_eq_iff)

lemma st_then_eq: "st_then m f w = (case m w of (Inl e, w') \<Rightarrow> (Inl e, w') | (Inr x, w') \<Rightarrow> f x w')"
  by (simp add: st_then_def)

lemma st_then_cong [fundef_cong]:
  "m = m' \<Longrightarrow> (\<And>x. f x = f' x) \<Longrightarrow> st_then m f = st_then m' f'"
  by (rule arg_cong2 [of m m' f f' st_then]) auto

primrec st_list :: "('a \<Rightarrow> ('w, 'b) act_on) \<Rightarrow> 'a list \<Rightarrow> ('w, 'b list) act_on" where
  "st_list f [] = st_lift (Inr [])"
| "st_list f (x # xs) = st_then (f x) (\<lambda>y. st_then (st_list f xs) (\<lambda>ys. st_lift (Inr (y # ys))))"

end
