(* ===== verification/Context_Calls.thy ===== *)
theory Context_Calls
  imports Context_State Steps State
begin

text \<open>The calls \<open>context_write\<close>, \<open>context_read\<close> and \<open>context_project\<close> (\<open>stone_eval.rs\<close>): arguments by position or
  by name, and the choice between the memory of the session and the memory that the gateway keeps. The gateway and
  the evaluation of an argument are parameters.\<close>

record 's memory_world =
  cw_context :: context_state
  cw_rest :: 's

record 's memory_env =
  cc_context :: context_env
  cc_eval :: "expr \<Rightarrow> ('s memory_world, rvalue) act_on"
  cc_materialize :: materializer
  cc_memory_enabled :: "'s \<Rightarrow> bool"
  cc_gateway_write :: "string \<Rightarrow> string \<Rightarrow> json \<Rightarrow> string \<Rightarrow> json list \<Rightarrow> 's \<Rightarrow> (json \<times> nat \<times> nat) res \<times> 's"
  cc_gateway_read :: "string \<Rightarrow> string list \<Rightarrow> string list \<Rightarrow> nat \<Rightarrow> 's \<Rightarrow> (json list \<times> nat \<times> nat) res \<times> 's"
  cc_gateway_project :: "string \<Rightarrow> nat \<Rightarrow> string list \<Rightarrow> 's \<Rightarrow> (json \<times> nat \<times> nat) res \<times> 's"
  cc_error_detail :: "shell_error \<Rightarrow> string"

definition context_input_error :: "string \<Rightarrow> msg_arg list \<Rightarrow> shell_error" where
  "context_input_error msg args = stone_error ''context'' msg args"

section \<open>Arguments\<close>

definition eval_argument :: "'s memory_env \<Rightarrow> string \<Rightarrow> expr \<Rightarrow> ('s memory_world, nu_value) act_on" where
  "eval_argument env context e = st_then (cc_eval env e) (\<lambda>v. st_lift (into_nu_value (cc_materialize env) v context))"

definition eval_arguments :: "'s memory_env \<Rightarrow> string \<Rightarrow> expr list \<Rightarrow> (string \<times> expr) list
    \<Rightarrow> ('s memory_world, nu_value list \<times> (string \<times> nu_value) list) act_on" where
  "eval_arguments env name positional named =
     st_then (st_list (eval_argument env name) positional) (\<lambda>vs.
     st_then (st_list (\<lambda>(n, e). st_then (eval_argument env name e) (\<lambda>v. st_lift (Inr (n, v)))) named) (\<lambda>nvs.
     st_lift (Inr (vs, nvs))))"

text \<open>The slots of the arguments, as an association from the names; a slot may be filled only once.\<close>

primrec fill_slots :: "string \<Rightarrow> string list \<Rightarrow> (string \<times> nu_value) list \<Rightarrow> (string \<rightharpoonup> nu_value) \<Rightarrow> (string \<rightharpoonup> nu_value) res" where
  "fill_slots call allowed [] slots = Inr slots"
| "fill_slots call allowed (nv # nvs) slots =
     (if fst nv \<notin> set allowed then Inl (context_input_error (''unexpected '' @ call @ '' keyword argument `{}`'') [MStr (fst nv)])
      else if slots (fst nv) \<noteq> None
      then Inl (context_input_error (call @ '' argument `{}` was supplied more than once'') [MStr (fst nv)])
      else fill_slots call allowed nvs (slots(fst nv \<mapsto> snd nv)))"

definition context_arguments :: "string \<Rightarrow> string \<Rightarrow> string list \<Rightarrow> string list \<Rightarrow> nu_value list \<Rightarrow> (string \<times> nu_value) list
    \<Rightarrow> (string \<rightharpoonup> nu_value) res" where
  "context_arguments call usage by_position allowed positional named =
     (if length by_position < length positional then Inl (context_input_error usage [])
      else fill_slots call allowed named (map_of (zip by_position positional)))"

definition context_required_string :: "nu_value option \<Rightarrow> string \<Rightarrow> string res" where
  "context_required_string v context =
     and_then (ok_or (context_input_error (context @ '' is required'') []) v) (\<lambda>x. value_to_string x context)"

definition optional_text :: "nu_value option \<Rightarrow> string \<Rightarrow> string \<Rightarrow> string res" where
  "optional_text v context dflt = (case v of None \<Rightarrow> Inr dflt | Some x \<Rightarrow> value_to_string x context)"

definition optional_limit :: "nu_value option \<Rightarrow> string \<Rightarrow> nat \<Rightarrow> nat res" where
  "optional_limit v context dflt = (case v of None \<Rightarrow> Inr dflt | Some x \<Rightarrow> value_to_limit x context)"

definition context_string_list :: "nu_value option \<Rightarrow> string \<Rightarrow> string list res" where
  "context_string_list v context = (case v of
     None \<Rightarrow> Inr []
   | Some VNothing \<Rightarrow> Inr []
   | Some (VList vs) \<Rightarrow> collect_ok (\<lambda>x. value_to_string x context) vs
   | Some _ \<Rightarrow> Inl (context_input_error (context @ '' must be a list of strings'') []))"

definition context_json_list :: "context_env \<Rightarrow> nu_value option \<Rightarrow> string \<Rightarrow> json list res" where
  "context_json_list env v context = (case v of
     None \<Rightarrow> Inr []
   | Some VNothing \<Rightarrow> Inr []
   | Some (VList vs) \<Rightarrow> Inr (List.map (nu_to_json_value (te_other_json env)) vs)
   | Some _ \<Rightarrow> Inl (context_input_error (context @ '' must be a list'') []))"

section \<open>The memory of the session or of the gateway\<close>

text \<open>A request to the gateway, or an operation on the memory of the session.\<close>

definition ask_gateway :: "'s memory_env \<Rightarrow> ('s \<Rightarrow> ('a \<times> nat \<times> nat) res \<times> 's) \<Rightarrow> ('a \<Rightarrow> nat \<Rightarrow> nat \<Rightarrow> context_state \<Rightarrow> context_state)
    \<Rightarrow> ('s memory_world, 'a) act_on" where
  "ask_gateway env request observe = (\<lambda>w. case request (cw_rest w) of
     (Inl e, s) \<Rightarrow> (Inl (context_input_error ''{}'' [MStr (cc_error_detail env e)]), w\<lparr> cw_rest := s \<rparr>)
   | (Inr (x, revision, n), s) \<Rightarrow> (Inr x, w\<lparr> cw_rest := s, cw_context := observe x revision n (cw_context w) \<rparr>))"

definition on_session :: "(context_state \<Rightarrow> string + 'a \<times> context_state) \<Rightarrow> ('s memory_world, 'a) act_on" where
  "on_session f = (\<lambda>w. case f (cw_context w) of
     Inl msg \<Rightarrow> (Inl (context_input_error ''{}'' [MStr msg]), w)
   | Inr (x, st) \<Rightarrow> (Inr x, w\<lparr> cw_context := st \<rparr>))"

definition memory_choice :: "'s memory_env \<Rightarrow> ('s memory_world, 'a) act_on \<Rightarrow> ('s memory_world, 'a) act_on \<Rightarrow> ('s memory_world, 'a) act_on" where
  "memory_choice env remote local = (\<lambda>w. if cc_memory_enabled env (cw_rest w) then remote w else local w)"

definition value_result :: "('s memory_world, json) act_on \<Rightarrow> ('s memory_world, rvalue) act_on" where
  "value_result m = st_then m (\<lambda>j. st_lift (Inr (RNu (json_to_nu_value j))))"

definition eval_context_write_call :: "'s memory_env \<Rightarrow> expr list \<Rightarrow> (string \<times> expr) list \<Rightarrow> ('s memory_world, rvalue) act_on" where
  "eval_context_write_call env positional named =
     st_then (eval_arguments env ''context_write'' positional named) (\<lambda>(vs, nvs).
     st_then (st_lift (context_arguments ''context_write''
       ''context_write accepts key, kind, content, optional status, and optional evidence''
       [''key'', ''kind'', ''content'', ''status'', ''evidence''] [''key'', ''kind'', ''content'', ''status'', ''evidence''] vs nvs)) (\<lambda>args.
     st_then (st_lift (context_required_string (args ''key'') ''context_write key'')) (\<lambda>key.
     st_then (st_lift (context_required_string (args ''kind'') ''context_write kind'')) (\<lambda>kind.
     st_then (st_lift (ok_or (context_input_error ''context_write requires a content argument'' []) (args ''content''))) (\<lambda>content_value.
     st_then (st_lift (optional_text (args ''status'') ''context_write status'' ''active'')) (\<lambda>status.
     st_then (st_lift (context_json_list (cc_context env) (args ''evidence'') ''context_write evidence'')) (\<lambda>evidence.
     let content = nu_to_json_value (te_other_json (cc_context env)) content_value in
     value_result (memory_choice env
       (ask_gateway env (cc_gateway_write env key kind content status evidence) (\<lambda>item revision n. observe_gateway_write item revision n))
       (on_session (context_write (cc_context env) key kind content status evidence))))))))))"

definition eval_context_read_call :: "'s memory_env \<Rightarrow> expr list \<Rightarrow> (string \<times> expr) list \<Rightarrow> ('s memory_world, rvalue) act_on" where
  "eval_context_read_call env positional named =
     st_then (eval_arguments env ''context_read'' positional named) (\<lambda>(vs, nvs).
     st_then (st_lift (context_arguments ''context_read'' ''context_read accepts optional query, keys, kinds, and limit''
       [''query'', ''keys'', ''kinds'', ''limit''] [''query'', ''keys'', ''kinds'', ''limit''] vs nvs)) (\<lambda>args.
     st_then (st_lift (optional_text (args ''query'') ''context_read query'' [])) (\<lambda>query.
     st_then (st_lift (context_string_list (args ''keys'') ''context_read keys'')) (\<lambda>keys.
     st_then (st_lift (context_string_list (args ''kinds'') ''context_read kinds'')) (\<lambda>kinds.
     st_then (st_lift (optional_limit (args ''limit'') ''context_read limit'' 20)) (\<lambda>limit.
     value_result (st_then (memory_choice env
       (ask_gateway env (cc_gateway_read env query keys kinds limit)
         (\<lambda>items revision n. observe_gateway_read query keys kinds items revision n))
       (on_session (\<lambda>st. Inr (context_read (cc_context env) query keys kinds limit st)))) (\<lambda>items. st_lift (Inr (JArray items))))))))))"

definition eval_context_project_call :: "'s memory_env \<Rightarrow> expr list \<Rightarrow> (string \<times> expr) list \<Rightarrow> ('s memory_world, rvalue) act_on" where
  "eval_context_project_call env positional named =
     st_then (eval_arguments env ''context_project'' positional named) (\<lambda>(vs, nvs).
     st_then (st_lift (context_arguments ''context_project''
       ''context_project accepts optional focus, max_tokens, and required_keys''
       [''focus'', ''max_tokens''] [''focus'', ''max_tokens'', ''required_keys''] vs nvs)) (\<lambda>args.
     st_then (st_lift (optional_text (args ''focus'') ''context_project focus'' [])) (\<lambda>focus.
     st_then (st_lift (optional_limit (args ''max_tokens'') ''context_project max_tokens'' 512)) (\<lambda>max_tokens.
     st_then (st_lift (context_string_list (args ''required_keys'') ''context_project required_keys'')) (\<lambda>required_keys.
     value_result (memory_choice env
       (ask_gateway env (cc_gateway_project env focus max_tokens required_keys)
         (\<lambda>projection revision n. observe_gateway_project focus max_tokens projection revision n))
       (on_session (context_project (cc_context env) focus max_tokens required_keys))))))))"

end
