(* ===== verification/Json_Schema.thy ===== *)
theory Json_Schema
  imports Json_Access Strings
begin

text \<open>The subset of JSON Schema for the answers of a model (\<open>stone_json_schema.rs\<close>): the check of a schema and
  the check of a value against a schema. An object is a \<open>BTreeMap\<close>, so its entries come in the order of their
  keys. The texts of JSON values, floats and quoted strings in messages are parameters.\<close>

record schema_env =
  se_json_text :: "json \<Rightarrow> string"
  se_float_text :: "f64 \<Rightarrow> string"
  se_debug_text :: "string \<Rightarrow> string"

section \<open>Equality of JSON values\<close>

text \<open>Numbers of different representations are different; floats are compared as floats.\<close>

fun json_equal :: "json \<Rightarrow> json \<Rightarrow> bool"
  and jsons_equal :: "json list \<Rightarrow> json list \<Rightarrow> bool"
  and entries_equal :: "(string \<times> json) list \<Rightarrow> (string \<times> json) list \<Rightarrow> bool" where
  "json_equal JNull JNull = True"
| "json_equal (JBool a) (JBool b) = (a = b)"
| "json_equal (JInt a) (JInt b) = (a = b)"
| "json_equal (JFloat a) (JFloat b) = f64_eq a b"
| "json_equal (JString a) (JString b) = (a = b)"
| "json_equal (JArray a) (JArray b) = jsons_equal a b"
| "json_equal (JObject a) (JObject b) = entries_equal a b"
| "json_equal _ _ = False"
| "jsons_equal [] [] = True"
| "jsons_equal (a # as) (b # bs) = (json_equal a b \<and> jsons_equal as bs)"
| "jsons_equal _ _ = False"
| "entries_equal [] [] = True"
| "entries_equal ((k, a) # as) ((l, b) # bs) = (k = l \<and> json_equal a b \<and> entries_equal as bs)"
| "entries_equal _ _ = False"

definition json_f64 :: "json \<Rightarrow> f64 option" where
  "json_f64 j = (case j of JInt z \<Rightarrow> Some (f64_of_int z) | JFloat x \<Rightarrow> Some x | _ \<Rightarrow> None)"

section \<open>Paths and issues\<close>

definition max_schema_depth :: nat where "max_schema_depth = 32"

definition max_schema_branches :: nat where "max_schema_branches = 32"

definition max_schema_key_bytes :: nat where "max_schema_key_bytes = 128"

definition max_validation_issues :: nat where "max_validation_issues = 16"

record validation_issue =
  vi_path :: string
  vi_keyword :: string
  vi_message :: string

definition issue_json :: "validation_issue \<Rightarrow> json" where
  "issue_json i = json_record [(''path'', JString (vi_path i)), (''keyword'', JString (vi_keyword i)),
     (''message'', JString (vi_message i))]"

definition is_ascii_alphanumeric :: "char \<Rightarrow> bool" where
  "is_ascii_alphanumeric c \<longleftrightarrow> is_ascii_digit c \<or> c \<in> {CHR ''a''..CHR ''z''} \<or> c \<in> {CHR ''A''..CHR ''Z''}"

definition property_path :: "schema_env \<Rightarrow> string \<Rightarrow> string \<Rightarrow> string" where
  "property_path env parent name =
     (if list_all (\<lambda>c. c = CHR ''_'' \<or> is_ascii_alphanumeric c) name then parent @ ''.'' @ name
      else parent @ ''['' @ se_json_text env (JString name) @ '']'')"

definition index_path :: "string \<Rightarrow> nat \<Rightarrow> string" where
  "index_path path i = path @ ''['' @ nat_text i @ '']''"

definition push_issue :: "string \<Rightarrow> string \<Rightarrow> string \<Rightarrow> validation_issue list \<Rightarrow> validation_issue list" where
  "push_issue path keyword message issues =
     (if length issues < max_validation_issues
      then issues @ [\<lparr> vi_path = path, vi_keyword = keyword, vi_message = message \<rparr>] else issues)"

section \<open>The check of a schema\<close>

primrec try_each :: "('a \<Rightarrow> 'e + unit) \<Rightarrow> 'a list \<Rightarrow> 'e + unit" where
  "try_each f [] = Inr ()"
| "try_each f (x # xs) = and_then (f x) (\<lambda>_. try_each f xs)"

lemma try_each_cong [fundef_cong]:
  "xs = ys \<Longrightarrow> (\<And>x. x \<in> set ys \<Longrightarrow> f x = g x) \<Longrightarrow> try_each f xs = try_each g ys"
  by (induction xs arbitrary: ys) auto

definition schema_keywords :: "string list" where
  "schema_keywords = [''$schema'', ''$id'', ''title'', ''description'', ''type'', ''properties'', ''required'',
     ''additionalProperties'', ''items'', ''minItems'', ''maxItems'', ''minLength'', ''maxLength'', ''minimum'',
     ''maximum'', ''enum'', ''const'', ''oneOf'', ''anyOf'']"

definition schema_types :: "string list" where
  "schema_types = [''object'', ''array'', ''string'', ''integer'', ''number'', ''boolean'', ''null'']"

text \<open>A check of the value of a keyword, if the schema has it.\<close>

definition for_keyword :: "(string \<times> json) list \<Rightarrow> string \<Rightarrow> (json \<Rightarrow> string + unit) \<Rightarrow> string + unit" where
  "for_keyword object keyword check = (case map_of object keyword of None \<Rightarrow> Inr () | Some v \<Rightarrow> check v)"

lemma for_keyword_cong [fundef_cong]:
  "m = m' \<Longrightarrow> k = k' \<Longrightarrow> (\<And>v. map_of m' k' = Some v \<Longrightarrow> f v = g v) \<Longrightarrow> for_keyword m k f = for_keyword m' k' g"
  by (auto simp: for_keyword_def split: option.splits)

definition check_keywords :: "schema_env \<Rightarrow> (string \<times> json) list \<Rightarrow> string \<Rightarrow> string + unit" where
  "check_keywords env object path = try_each (\<lambda>(keyword, _).
     if keyword \<in> set schema_keywords then Inr ()
     else Inl (path @ '' uses unsupported JSON Schema keyword '' @ se_debug_text env keyword)) object"

definition check_type :: "schema_env \<Rightarrow> (string \<times> json) list \<Rightarrow> string \<Rightarrow> string + unit" where
  "check_type env object path = for_keyword object ''type'' (\<lambda>v.
     and_then (ok_or (path @ ''.type must be one string'') (json_str v)) (\<lambda>kind.
     if kind \<in> set schema_types then Inr ()
     else Inl (path @ ''.type has unsupported value '' @ se_debug_text env kind)))"

primrec check_names :: "schema_env \<Rightarrow> string \<Rightarrow> string set \<Rightarrow> json list \<Rightarrow> string + unit" where
  "check_names env path seen [] = Inr ()"
| "check_names env path seen (j # js) =
     and_then (ok_or (path @ ''.required must contain only strings'') (json_str j)) (\<lambda>name.
     if max_schema_key_bytes < length name
     then Inl (path @ ''.required contains a name longer than 128 bytes'')
     else if name \<in> seen then Inl (path @ ''.required contains duplicate '' @ se_debug_text env name)
     else check_names env path (insert name seen) js)"

definition check_required_names :: "schema_env \<Rightarrow> (string \<times> json) list \<Rightarrow> string \<Rightarrow> string + unit" where
  "check_required_names env object path = for_keyword object ''required'' (\<lambda>v.
     and_then (ok_or (path @ ''.required must be a list of strings'') (json_array v)) (check_names env path {}))"

definition check_additional :: "(string \<times> json) list \<Rightarrow> string \<Rightarrow> string + unit" where
  "check_additional object path = for_keyword object ''additionalProperties'' (\<lambda>v.
     if json_bool v = None then Inl (path @ ''.additionalProperties supports only a boolean'') else Inr ())"

definition optional_usize :: "(string \<times> json) list \<Rightarrow> string \<Rightarrow> string \<Rightarrow> string + nat option" where
  "optional_usize object path keyword = (case map_of object keyword of
     None \<Rightarrow> Inr None
   | Some v \<Rightarrow> and_then (ok_or (path @ ''.'' @ keyword @ '' must be a non-negative integer'') (json_u64 v)) (\<lambda>n. Inr (Some n)))"

definition validate_non_negative_integer_pair :: "(string \<times> json) list \<Rightarrow> string \<Rightarrow> string \<Rightarrow> string \<Rightarrow> string + unit" where
  "validate_non_negative_integer_pair object path minimum maximum =
     and_then (optional_usize object path minimum) (\<lambda>lo.
     and_then (optional_usize object path maximum) (\<lambda>hi.
     case (lo, hi) of
       (Some a, Some b) \<Rightarrow> if b < a then Inl (path @ ''.'' @ minimum @ '' must not exceed '' @ maximum) else Inr ()
     | _ \<Rightarrow> Inr ()))"

definition finite_f64 :: "json \<Rightarrow> f64 option" where
  "finite_f64 v = (case json_f64 v of Some x \<Rightarrow> if f64_finite x then Some x else None | None \<Rightarrow> None)"

definition optional_number :: "(string \<times> json) list \<Rightarrow> string \<Rightarrow> string \<Rightarrow> string + f64 option" where
  "optional_number object path keyword = (case map_of object keyword of
     None \<Rightarrow> Inr None
   | Some v \<Rightarrow> and_then (ok_or (path @ ''.'' @ keyword @ '' must be a finite number'') (finite_f64 v)) (\<lambda>x. Inr (Some x)))"

definition validate_number_pair :: "(string \<times> json) list \<Rightarrow> string \<Rightarrow> string \<Rightarrow> string \<Rightarrow> string + unit" where
  "validate_number_pair object path minimum maximum =
     and_then (optional_number object path minimum) (\<lambda>lo.
     and_then (optional_number object path maximum) (\<lambda>hi.
     case (lo, hi) of
       (Some a, Some b) \<Rightarrow> if f64_lt b a then Inl (path @ ''.'' @ minimum @ '' must not exceed '' @ maximum) else Inr ()
     | _ \<Rightarrow> Inr ()))"

definition check_enum :: "(string \<times> json) list \<Rightarrow> string \<Rightarrow> string + unit" where
  "check_enum object path = for_keyword object ''enum'' (\<lambda>v.
     and_then (ok_or (path @ ''.enum must be a non-empty list'') (json_array v)) (\<lambda>vs.
     if vs = [] then Inl (path @ ''.enum must not be empty'') else Inr ()))"

function validate_schema_node :: "schema_env \<Rightarrow> json \<Rightarrow> string \<Rightarrow> nat \<Rightarrow> string + unit" where
  "validate_schema_node env schema path depth =
     (if max_schema_depth < depth then Inl (path @ '' exceeds the supported schema depth of 32'')
      else
        and_then (ok_or (path @ '' must be a schema object'') (json_object schema)) (\<lambda>object.
        and_then (check_keywords env object path) (\<lambda>_.
        and_then (check_type env object path) (\<lambda>_.
        and_then (for_keyword object ''properties'' (\<lambda>v.
          and_then (ok_or (path @ ''.properties must be an object'') (json_object v)) (\<lambda>properties.
          try_each (\<lambda>entry.
            if max_schema_key_bytes < length (fst entry)
            then Inl (path @ ''.properties contains a name longer than 128 bytes'')
            else validate_schema_node env (snd entry) (property_path env path (fst entry)) (depth + 1)) properties))) (\<lambda>_.
        and_then (check_required_names env object path) (\<lambda>_.
        and_then (check_additional object path) (\<lambda>_.
        and_then (for_keyword object ''items'' (\<lambda>child.
          validate_schema_node env child (path @ ''.items'') (depth + 1))) (\<lambda>_.
        and_then (validate_non_negative_integer_pair object path ''minItems'' ''maxItems'') (\<lambda>_.
        and_then (validate_non_negative_integer_pair object path ''minLength'' ''maxLength'') (\<lambda>_.
        and_then (validate_number_pair object path ''minimum'' ''maximum'') (\<lambda>_.
        and_then (check_enum object path) (\<lambda>_.
        try_each (\<lambda>keyword. for_keyword object keyword (\<lambda>v.
          and_then (ok_or (path @ ''.'' @ keyword @ '' must be a non-empty list of schemas'') (json_array v)) (\<lambda>branches.
          if branches = [] \<or> max_schema_branches < length branches
          then Inl (path @ ''.'' @ keyword @ '' must contain between 1 and 32 schemas'')
          else try_each (\<lambda>ib. validate_schema_node env (snd ib) (index_path (path @ ''.'' @ keyword) (fst ib)) (depth + 1))
            (List.enumerate 0 branches)))) [''oneOf'', ''anyOf'']))))))))))))"
  by auto

termination validate_schema_node
  by (relation "measure (\<lambda>(env, schema, path, depth). Suc max_schema_depth - depth)") auto

declare validate_schema_node.simps [simp del]

definition validate_schema_definition :: "schema_env \<Rightarrow> json \<Rightarrow> string + unit" where
  "validate_schema_definition env schema = validate_schema_node env schema ''$'' 0"

section \<open>The check of a value\<close>

definition is_integral :: "f64 \<Rightarrow> bool" where
  "is_integral x = (case x of F_Fin s m e \<Rightarrow> 0 \<le> e \<or> m mod 2 ^ nat (- e) = 0 | _ \<Rightarrow> False)"

definition instance_has_type :: "json \<Rightarrow> string \<Rightarrow> bool" where
  "instance_has_type v kind =
     (if kind = ''object'' then json_object v \<noteq> None
      else if kind = ''array'' then json_array v \<noteq> None
      else if kind = ''string'' then json_str v \<noteq> None
      else if kind = ''integer'' then (case json_f64 v of Some x \<Rightarrow> is_integral x | None \<Rightarrow> False)
      else if kind = ''number'' then json_f64 v \<noteq> None
      else if kind = ''boolean'' then json_bool v \<noteq> None
      else kind = ''null'' \<and> v = JNull)"

definition instance_type :: "json \<Rightarrow> string" where
  "instance_type v = (case v of
     JNull \<Rightarrow> ''null''
   | JBool _ \<Rightarrow> ''boolean''
   | JInt _ \<Rightarrow> ''number''
   | JFloat _ \<Rightarrow> ''number''
   | JString _ \<Rightarrow> ''string''
   | JArray _ \<Rightarrow> ''array''
   | JObject _ \<Rightarrow> ''object'')"

text \<open>An issue unless a condition holds.\<close>

definition require :: "bool \<Rightarrow> string \<Rightarrow> string \<Rightarrow> string \<Rightarrow> validation_issue list \<Rightarrow> validation_issue list" where
  "require ok path keyword message issues = (if ok then issues else push_issue path keyword message issues)"

definition const_ok :: "(string \<times> json) list \<Rightarrow> json \<Rightarrow> bool" where
  "const_ok object v = (case map_of object ''const'' of None \<Rightarrow> True | Some expected \<Rightarrow> json_equal v expected)"

definition enum_ok :: "(string \<times> json) list \<Rightarrow> json \<Rightarrow> bool" where
  "enum_ok object v = (case field object ''enum'' json_array of
     None \<Rightarrow> True | Some allowed \<Rightarrow> list_ex (\<lambda>candidate. json_equal candidate v) allowed)"

definition type_ok :: "(string \<times> json) list \<Rightarrow> json \<Rightarrow> bool" where
  "type_ok object v = (case field object ''type'' json_str of None \<Rightarrow> True | Some kind \<Rightarrow> instance_has_type v kind)"

definition type_message :: "(string \<times> json) list \<Rightarrow> json \<Rightarrow> string" where
  "type_message object v = ''expected '' @ (case field object ''type'' json_str of None \<Rightarrow> [] | Some kind \<Rightarrow> kind)
     @ '', got '' @ instance_type v"

fun first_const :: "schema_env \<Rightarrow> (string \<times> json) list \<Rightarrow> string option" where
  "first_const env [] = None"
| "first_const env ((name, property) # rest) =
     (case Option.bind (json_object property) (\<lambda>m. map_of m ''const'') of
        Some v \<Rightarrow> Some (name @ ''='' @ se_json_text env v)
      | None \<Rightarrow> first_const env rest)"

definition one_of_branch_label :: "schema_env \<Rightarrow> json \<Rightarrow> string option" where
  "one_of_branch_label env branch = Option.bind (json_object branch) (\<lambda>object.
     case Option.bind (field object ''properties'' json_object) (first_const env) of
       Some label \<Rightarrow> Some label
     | None \<Rightarrow> Option.bind (field object ''required'' json_array) (\<lambda>values.
         let names = take 4 (List.map_filter json_str values)
         in if names = [] then None else Some (''object requiring {'' @ join_text '', '' names @ ''}'')))"

text \<open>The first branch with the fewest issues.\<close>

fun nearest_branch :: "(nat \<times> validation_issue list) list \<Rightarrow> (nat \<times> validation_issue list) option" where
  "nearest_branch [] = None"
| "nearest_branch (x # xs) = (case nearest_branch xs of
     None \<Rightarrow> Some x
   | Some y \<Rightarrow> if length (snd y) < length (snd x) then Some y else Some x)"

definition nearest_text :: "schema_env \<Rightarrow> json list \<Rightarrow> validation_issue list list \<Rightarrow> string option" where
  "nearest_text env branches branch_issues =
     Option.bind (nearest_branch (List.enumerate 0 branch_issues)) (\<lambda>(index, issues).
     if issues = [] then None
     else let label = (case Option.bind (vec_get branches index) (one_of_branch_label env) of
              Some label \<Rightarrow> label | None \<Rightarrow> ''branch '' @ nat_text index);
          details = join_text ''; '' (List.map (\<lambda>i. vi_path i @ '' '' @ vi_keyword i @ '': '' @ vi_message i) (take 3 issues))
        in Some (''nearest '' @ label @ '': '' @ details))"

definition one_of_mismatch_message :: "schema_env \<Rightarrow> json list \<Rightarrow> validation_issue list list \<Rightarrow> string" where
  "one_of_mismatch_message env branches branch_issues =
     (let allowed = take 8 (List.map_filter (one_of_branch_label env) branches)
      in join_text ''; '' ([''value matches no allowed schema'']
        @ (if allowed = [] then [] else [''allowed alternatives: '' @ join_text '' | '' allowed])
        @ (case nearest_text env branches branch_issues of None \<Rightarrow> [] | Some t \<Rightarrow> [t])))"

definition one_of_message :: "schema_env \<Rightarrow> json list \<Rightarrow> validation_issue list list \<Rightarrow> string" where
  "one_of_message env branches branch_issues =
     (let matches = length (List.filter (\<lambda>is. is = []) branch_issues)
      in if matches = 0 then one_of_mismatch_message env branches branch_issues
         else ''expected exactly one matching schema, found '' @ nat_text matches)"

definition check_required :: "schema_env \<Rightarrow> (string \<times> json) list \<Rightarrow> (string \<times> json) list \<Rightarrow> string
    \<Rightarrow> validation_issue list \<Rightarrow> validation_issue list" where
  "check_required env object members path issues = (case field object ''required'' json_array of
     None \<Rightarrow> issues
   | Some names \<Rightarrow> fold (\<lambda>name. require (map_of members name \<noteq> None) (property_path env path name) ''required''
       ''required property is missing'') (List.map_filter json_str names) issues)"

definition property_schema :: "(string \<times> json) list \<Rightarrow> string \<Rightarrow> json option" where
  "property_schema object name = Option.bind (field object ''properties'' json_object) (\<lambda>m. map_of m name)"

definition additional_ok :: "(string \<times> json) list \<Rightarrow> bool" where
  "additional_ok object \<longleftrightarrow> field object ''additionalProperties'' json_bool \<noteq> Some False"

text \<open>The limits on a count: the items of an array, the characters of a text.\<close>

definition at_least :: "(string \<times> json) list \<Rightarrow> string \<Rightarrow> nat \<Rightarrow> bool" where
  "at_least object keyword n = (case field object keyword json_u64 of None \<Rightarrow> True | Some limit \<Rightarrow> limit \<le> n)"

definition at_most :: "(string \<times> json) list \<Rightarrow> string \<Rightarrow> nat \<Rightarrow> bool" where
  "at_most object keyword n = (case field object keyword json_u64 of None \<Rightarrow> True | Some limit \<Rightarrow> n \<le> limit)"

definition limit_text :: "(string \<times> json) list \<Rightarrow> string \<Rightarrow> string" where
  "limit_text object keyword = (case field object keyword json_u64 of None \<Rightarrow> [] | Some limit \<Rightarrow> nat_text limit)"

definition check_count :: "(string \<times> json) list \<Rightarrow> string \<Rightarrow> string \<Rightarrow> string \<Rightarrow> string \<Rightarrow> nat
    \<Rightarrow> validation_issue list \<Rightarrow> validation_issue list" where
  "check_count object minimum maximum noun path n issues =
     require (at_most object maximum n) path maximum (''expected at most '' @ limit_text object maximum @ '' '' @ noun)
       (require (at_least object minimum n) path minimum (''expected at least '' @ limit_text object minimum @ '' '' @ noun)
         issues)"

definition not_below :: "(string \<times> json) list \<Rightarrow> f64 \<Rightarrow> bool" where
  "not_below object x = (case field object ''minimum'' json_f64 of None \<Rightarrow> True | Some limit \<Rightarrow> \<not> f64_lt x limit)"

definition not_above :: "(string \<times> json) list \<Rightarrow> f64 \<Rightarrow> bool" where
  "not_above object x = (case field object ''maximum'' json_f64 of None \<Rightarrow> True | Some limit \<Rightarrow> \<not> f64_lt limit x)"

definition bound_text :: "schema_env \<Rightarrow> (string \<times> json) list \<Rightarrow> string \<Rightarrow> string" where
  "bound_text env object keyword = (case field object keyword json_f64 of None \<Rightarrow> [] | Some limit \<Rightarrow> se_float_text env limit)"

definition check_number :: "schema_env \<Rightarrow> (string \<times> json) list \<Rightarrow> json \<Rightarrow> string
    \<Rightarrow> validation_issue list \<Rightarrow> validation_issue list" where
  "check_number env object v path issues = (case json_f64 v of
     None \<Rightarrow> issues
   | Some x \<Rightarrow>
       require (not_above object x) path ''maximum'' (''expected a value of at most '' @ bound_text env object ''maximum'')
         (require (not_below object x) path ''minimum'' (''expected a value of at least '' @ bound_text env object ''minimum'')
           issues))"

definition check_text :: "(string \<times> json) list \<Rightarrow> json \<Rightarrow> string \<Rightarrow> validation_issue list \<Rightarrow> validation_issue list" where
  "check_text object v path issues = (case json_str v of
     None \<Rightarrow> issues
   | Some s \<Rightarrow> check_count object ''minLength'' ''maxLength'' ''characters'' path (length (str_chars s)) issues)"

text \<open>A schema that is found inside a schema is smaller.\<close>

lemma json_part_size: "(k, j) \<in> set m \<Longrightarrow> size j < size (JObject m)" "j \<in> set js \<Longrightarrow> size j < size (JArray js)"
proof -
  show "(k, j) \<in> set m \<Longrightarrow> size j < size (JObject m)" by (induction m) auto
  show "j \<in> set js \<Longrightarrow> size j < size (JArray js)" by (induction js) auto
qed

lemma field_size: "map_of m k = Some j \<Longrightarrow> size j < size (JObject m)"
  using json_part_size(1) map_of_SomeD by fast

lemma field_array: "field m k json_array = Some js \<longleftrightarrow> map_of m k = Some (JArray js)"
  by (cases "map_of m k") (auto simp: field_def json_array_def split: json.split)

lemma field_object: "field m k json_object = Some ps \<longleftrightarrow> map_of m k = Some (JObject ps)"
  by (cases "map_of m k") (auto simp: field_def json_object_def split: json.split)

lemma inner_sizes:
  assumes "json_object schema = Some m"
  shows "map_of m k = Some j \<Longrightarrow> size j < size schema"
    and "field m k json_array = Some js \<Longrightarrow> j \<in> set js \<Longrightarrow> size j < size schema"
    and "property_schema m name = Some j \<Longrightarrow> size j < size schema"
proof -
  have schema: "schema = JObject m" using assms by (cases schema) (auto simp: json_object_def)
  show one: "size j < size schema" if "map_of m k = Some j" for k j using field_size [OF that] schema by simp
  show "size j < size schema" if "field m k json_array = Some js" "j \<in> set js"
    using one [of k "JArray js"] json_part_size(2) [OF that(2)] that(1) by (simp add: field_array)
  show "size j < size schema" if "property_schema m name = Some j"
  proof -
    from that obtain ps where ps: "field m ''properties'' json_object = Some ps" "map_of ps name = Some j"
      by (auto simp: property_schema_def bind_eq_Some_conv)
    then show ?thesis using one [of "''properties''" "JObject ps"] field_size [OF ps(2)] by (simp add: field_object)
  qed
qed

function validate_instance_node :: "schema_env \<Rightarrow> json \<Rightarrow> json \<Rightarrow> string \<Rightarrow> nat \<Rightarrow> validation_issue list
    \<Rightarrow> validation_issue list" where
  "validate_instance_node env schema v path depth issues0 =
     (if max_validation_issues \<le> length issues0 \<or> max_schema_depth < depth then issues0
      else case json_object schema of
        None \<Rightarrow> issues0
      | Some object \<Rightarrow>
          let issues1 = require (const_ok object v) path ''const'' ''value does not equal const'' issues0;
            issues2 = require (enum_ok object v) path ''enum'' ''value is not one of the allowed values'' issues1
          in if \<not> type_ok object v then push_issue path ''type'' (type_message object v) issues2
             else let
               issues3 = (case field object ''oneOf'' json_array of
                   None \<Rightarrow> issues2
                 | Some branches \<Rightarrow>
                     let found = List.map (\<lambda>branch. validate_instance_node env branch v ''$'' 0 []) branches
                     in require (length (List.filter (\<lambda>is. is = []) found) = 1) path ''oneOf''
                          (one_of_message env branches found) issues2);
               issues4 = (case field object ''anyOf'' json_array of
                   None \<Rightarrow> issues3
                 | Some branches \<Rightarrow>
                     require (list_ex (\<lambda>branch. validate_instance_node env branch v ''$'' 0 [] = []) branches) path ''anyOf''
                       ''value matches no allowed schema'' issues3);
               issues5 = (case json_object v of
                   None \<Rightarrow> issues4
                 | Some members \<Rightarrow>
                     fold (\<lambda>entry issues. case property_schema object (fst entry) of
                         Some child_schema \<Rightarrow>
                           validate_instance_node env child_schema (snd entry) (property_path env path (fst entry)) (depth + 1) issues
                       | None \<Rightarrow> require (additional_ok object) (property_path env path (fst entry)) ''additionalProperties''
                           ''additional property is not allowed'' issues)
                       members (check_required env object members path issues4));
               issues6 = (case json_array v of
                   None \<Rightarrow> issues5
                 | Some values \<Rightarrow>
                     let counted = check_count object ''minItems'' ''maxItems'' ''items'' path (length values) issues5
                     in (case map_of object ''items'' of
                         None \<Rightarrow> counted
                       | Some item_schema \<Rightarrow>
                           fold (\<lambda>iv issues.
                             validate_instance_node env item_schema (snd iv) (index_path path (fst iv)) (depth + 1) issues)
                             (List.enumerate 0 values) counted))
             in check_number env object v path (check_text object v path issues6))"
  by auto

termination validate_instance_node
  by (relation "measure (\<lambda>(env, schema, _). size schema)") (auto dest: inner_sizes)

declare validate_instance_node.simps [simp del]

definition validate_instance :: "schema_env \<Rightarrow> json \<Rightarrow> json \<Rightarrow> validation_issue list" where
  "validate_instance env schema v = validate_instance_node env schema v ''$'' 0 []"

end
