(* ===== verification/Model_Requests.thy ===== *)
theory Model_Requests
  imports Json_Schema Collections
begin

text \<open>Requests to a model (\<open>stone_eval.rs\<close>): the checks of messages and options, the texts that a request for
  a structured answer adds, and what is read from a response. The printing of an error and of a JSON value are
  parameters.\<close>

record request_env =
  rq_schema :: schema_env
  rq_display :: "shell_error \<Rightarrow> string"
  rq_other :: "string \<Rightarrow> json"

definition json_of :: "request_env \<Rightarrow> nu_value \<Rightarrow> json" where
  "json_of env v = nu_to_json_value (rq_other env) v"

text \<open>The error of an operation; the messages of the two operations differ in the title only.\<close>

definition model_input_error :: "string \<Rightarrow> string \<Rightarrow> msg_arg list \<Rightarrow> shell_error" where
  "model_input_error operation msg args = stone_error operation msg args"

definition model_infer_validation_error :: "string \<Rightarrow> msg_arg list \<Rightarrow> shell_error" where
  "model_infer_validation_error msg args = stone_error ''model_infer validation'' msg args"

definition map_error :: "('e \<Rightarrow> 'f) \<Rightarrow> 'e + 'a \<Rightarrow> 'f + 'a" where
  "map_error f r = (case r of Inl e \<Rightarrow> Inl (f e) | Inr x \<Rightarrow> Inr x)"

definition text_value :: "request_env \<Rightarrow> string \<Rightarrow> string \<Rightarrow> nu_value \<Rightarrow> string res" where
  "text_value env operation context v =
     map_error (\<lambda>e. model_input_error operation ''{}'' [MStr (rq_display env e)]) (value_to_string v context)"

section \<open>Messages\<close>

definition message_roles :: "string list" where
  "message_roles = [''system'', ''user'', ''assistant'']"

primrec check_message_fields :: "request_env \<Rightarrow> string \<Rightarrow> (string \<times> nu_value) list \<Rightarrow> unit res" where
  "check_message_fields env operation [] = Inr ()"
| "check_message_fields env operation (f # fs) =
     (if fst f \<in> {''role'', ''content'', ''name''} then check_message_fields env operation fs
      else Inl (model_input_error operation (''unsupported '' @ operation @ '' message field {}; expected role, content, or name'')
        [MStr (se_debug_text (rq_schema env) (fst f))]))"

definition message_value :: "request_env \<Rightarrow> string \<Rightarrow> nat \<Rightarrow> nu_value \<Rightarrow> json res" where
  "message_value env operation index v =
     and_then (ok_or (model_input_error operation (operation @ '' message {} must be a record, got {}'') [MInt (int index), MType v])
       (nu_record v)) (\<lambda>r.
     and_then (check_message_fields env operation r) (\<lambda>_.
     and_then (ok_or (model_input_error operation (operation @ '' message {} requires role'') [MInt (int index)])
       (record_get r ''role'')) (\<lambda>role_value.
     and_then (text_value env operation (operation @ '' message role'') role_value) (\<lambda>role.
     if role \<notin> set message_roles
     then Inl (model_input_error operation (''unsupported '' @ operation @ '' message role {}; expected system, user, or assistant'')
       [MStr (se_debug_text (rq_schema env) role)])
     else
     and_then (ok_or (model_input_error operation (operation @ '' message {} requires content'') [MInt (int index)])
       (record_get r ''content'')) (\<lambda>content_value.
     and_then (text_value env operation (operation @ '' message content'') content_value) (\<lambda>content.
     let message = map_insert ''content'' (JString content) (map_insert ''role'' (JString role) []) in
     case record_get r ''name'' of
       None \<Rightarrow> Inr (JObject message)
     | Some VNothing \<Rightarrow> Inr (JObject message)
     | Some name_value \<Rightarrow>
         and_then (text_value env operation (operation @ '' message name'') name_value) (\<lambda>name.
         Inr (JObject (map_insert ''name'' (JString name) message)))))))))"

definition model_message_values_for :: "request_env \<Rightarrow> nu_value \<Rightarrow> string \<Rightarrow> json list res" where
  "model_message_values_for env messages operation =
     and_then (ok_or (model_input_error operation (operation @ '' messages must be a list of records, got {}'') [MType messages])
       (nu_list messages)) (\<lambda>vs.
     if vs = [] then Inl (model_input_error operation (operation @ '' messages list must not be empty'') [])
     else collect_ok (\<lambda>(index, v). message_value env operation index v) (List.enumerate 0 vs))"

section \<open>Options\<close>

definition number_option :: "string \<Rightarrow> string \<Rightarrow> nu_value \<Rightarrow> json res" where
  "number_option operation name v =
     and_then (case v of VInt i \<Rightarrow> Inr (f64_of_int (sint i)) | VFloat x \<Rightarrow> Inr x
       | _ \<Rightarrow> Inl (model_input_error operation (operation @ '' '' @ name @ '' must be a number, got {}'') [MType v])) (\<lambda>x.
     if \<not> f64_finite x \<or> f64_lt x (f64_of_int 0)
     then Inl (model_input_error operation (operation @ '' '' @ name @ '' must be a finite non-negative number'') [])
     else if name = ''top_p'' \<and> (\<not> f64_lt (f64_of_int 0) x \<or> f64_lt (f64_of_int 1) x)
     then Inl (model_input_error operation (operation
       @ '' top_p must be greater than 0 and at most 1 with the current Gateway protocol'') [])
     else Inr (JFloat x))"

definition count_option :: "string \<Rightarrow> string \<Rightarrow> nu_value \<Rightarrow> json res" where
  "count_option operation name v = (case v of
     VInt i \<Rightarrow>
       if sint i < 0 then Inl (model_input_error operation (operation @ '' '' @ name @ '' must be non-negative'') [])
       else if 4294967296 \<le> sint i
       then Inl (model_input_error operation (operation @ '' '' @ name @ '' exceeds the unsigned 32-bit limit'') [])
       else if name = ''seed'' \<and> sint i = 0
       then Inl (model_input_error operation (operation @ '' seed must be positive with the current Gateway protocol'') [])
       else Inr (JInt (sint i))
   | _ \<Rightarrow> Inl (model_input_error operation (operation @ '' '' @ name @ '' must be an integer, got {}'') [MType v]))"

primrec check_metadata :: "request_env \<Rightarrow> string \<Rightarrow> (string \<times> nu_value) list \<Rightarrow> unit res" where
  "check_metadata env operation [] = Inr ()"
| "check_metadata env operation (f # fs) = (case nu_text (snd f) of
     Some _ \<Rightarrow> check_metadata env operation fs
   | None \<Rightarrow> Inl (model_input_error operation (operation @ '' metadata field {} must be a string, got {}'')
       [MStr (se_debug_text (rq_schema env) (fst f)), MType (snd f)]))"

definition metadata_option :: "request_env \<Rightarrow> string \<Rightarrow> nu_value \<Rightarrow> json res" where
  "metadata_option env operation v =
     and_then (ok_or (model_input_error operation (operation @ '' metadata must be a record, got {}'') [MType v]) (nu_record v)) (\<lambda>r.
     and_then (check_metadata env operation r) (\<lambda>_. Inr (json_of env v)))"

definition response_format_option :: "request_env \<Rightarrow> string \<Rightarrow> nu_value \<Rightarrow> json res" where
  "response_format_option env operation v = (case v of
     VString _ \<Rightarrow> Inr (json_of env v)
   | VRecord _ \<Rightarrow> Inr (json_of env v)
   | _ \<Rightarrow> Inl (model_input_error operation (operation @ '' response_format must be a string or record, got {}'') [MType v]))"

definition expected_options :: "bool \<Rightarrow> string" where
  "expected_options allow_response_format = (if allow_response_format
     then ''model_class, model, temperature, top_p, seed, max_output_tokens, response_format, or metadata''
     else ''model_class, model, temperature, top_p, seed, max_output_tokens, or metadata'')"

definition option_value :: "request_env \<Rightarrow> string \<Rightarrow> bool \<Rightarrow> string \<Rightarrow> nu_value \<Rightarrow> json res" where
  "option_value env operation allow_response_format name v =
     (if name \<in> {''model_class'', ''model''}
      then and_then (text_value env operation (operation @ '' '' @ name) v) (\<lambda>s. Inr (JString s))
      else if name \<in> {''temperature'', ''top_p''} then number_option operation name v
      else if name \<in> {''seed'', ''max_output_tokens''} then count_option operation name v
      else if name = ''response_format'' \<and> allow_response_format then response_format_option env operation v
      else if name = ''metadata'' then metadata_option env operation v
      else Inl (model_input_error operation (''unexpected '' @ operation @ '' keyword argument `{}`; expected {}'')
        [MStr name, MStr (expected_options allow_response_format)]))"

primrec add_options :: "request_env \<Rightarrow> string \<Rightarrow> bool \<Rightarrow> string set \<Rightarrow> (string \<times> nu_value) list \<Rightarrow> (string \<times> json) list
    \<Rightarrow> (string \<times> json) list res" where
  "add_options env operation allow_response_format seen [] request = Inr request"
| "add_options env operation allow_response_format seen (nv # nvs) request = (case nv of (name, v) \<Rightarrow>
     if name \<in> seen
     then Inl (model_input_error operation (''duplicate '' @ operation @ '' keyword argument `{}`'') [MStr name])
     else if v = VNothing then add_options env operation allow_response_format (insert name seen) nvs request
     else and_then (option_value env operation allow_response_format name v) (\<lambda>j.
       add_options env operation allow_response_format (insert name seen) nvs (map_insert name j request)))"

definition model_request_from_values :: "request_env \<Rightarrow> nu_value \<Rightarrow> (string \<times> nu_value) list \<Rightarrow> string \<Rightarrow> bool
    \<Rightarrow> (string \<times> json) list res" where
  "model_request_from_values env messages named operation allow_response_format =
     and_then (model_message_values_for env messages operation) (\<lambda>ms.
     add_options env operation allow_response_format {} named [(''messages'', JArray ms)])"

section \<open>Responses\<close>

record model_usage =
  mu_input_tokens :: nat
  mu_output_tokens :: nat
  mu_total_tokens :: nat

definition no_usage :: model_usage where
  "no_usage = \<lparr> mu_input_tokens = 0, mu_output_tokens = 0, mu_total_tokens = 0 \<rparr>"

definition saturating_add :: "nat \<Rightarrow> nat \<Rightarrow> nat" where
  "saturating_add a b = min (a + b) (2 ^ 64 - 1)"

definition usage_field :: "json \<Rightarrow> string \<Rightarrow> nat" where
  "usage_field usage key = (case Option.bind (json_object usage) (\<lambda>m. field m key json_u64) of None \<Rightarrow> 0 | Some n \<Rightarrow> n)"

definition add_response :: "request_env \<Rightarrow> nu_value \<Rightarrow> model_usage \<Rightarrow> model_usage" where
  "add_response env response u = (case Option.bind (json_object (json_of env response)) (\<lambda>m. map_of m ''usage'') of
     None \<Rightarrow> u
   | Some usage \<Rightarrow> \<lparr> mu_input_tokens = saturating_add (mu_input_tokens u) (usage_field usage ''input_tokens''),
       mu_output_tokens = saturating_add (mu_output_tokens u) (usage_field usage ''output_tokens''),
       mu_total_tokens = saturating_add (mu_total_tokens u) (usage_field usage ''total_tokens'') \<rparr>)"

definition usage_json :: "model_usage \<Rightarrow> json" where
  "usage_json u = json_record [(''input_tokens'', JInt (int (mu_input_tokens u))),
     (''output_tokens'', JInt (int (mu_output_tokens u))), (''total_tokens'', JInt (int (mu_total_tokens u)))]"

definition model_response_content :: "request_env \<Rightarrow> nu_value \<Rightarrow> string res" where
  "model_response_content env response =
     and_then (ok_or (model_infer_validation_error ''model response must be a record, got {}'' [MType response])
       (nu_record response)) (\<lambda>r.
     and_then (ok_or (model_infer_validation_error ''model response does not contain string content'' [])
       (record_get r ''content'')) (\<lambda>content.
     map_error (\<lambda>e. model_infer_validation_error ''{}'' [MStr (rq_display env e)])
       (value_to_string content ''model_infer response content'')))"

section \<open>Texts of a structured request\<close>

definition ellipsis :: string where
  "ellipsis = [char_of (226::nat), char_of (128::nat), char_of (166::nat)]"

definition bounded_text :: "string \<Rightarrow> nat \<Rightarrow> string" where
  "bounded_text s max_chars = (let cs = str_chars s in
     if length cs \<le> max_chars then s else concat (take (max_chars - 1) cs) @ ellipsis)"

definition newline :: string where
  "newline = [char_of (10::nat)]"

definition model_infer_repair_message :: "request_env \<Rightarrow> string \<Rightarrow> nat \<Rightarrow> json list \<Rightarrow> string" where
  "model_infer_repair_message env repair_prompt attempt issues =
     (if trim repair_prompt = [] then ''Your previous response failed JSON Schema validation. Correct it.'' else trim repair_prompt)
     @ newline @ ''Validation attempt '' @ nat_text attempt @ '' errors: '' @ se_json_text (rq_schema env) (JArray issues)
     @ newline @ ''Return only one corrected JSON object matching the declared schema.''"

definition model_infer_schema_instruction :: "string \<Rightarrow> string \<Rightarrow> string" where
  "model_infer_schema_instruction schema_bytes schema_prompt =
     (if trim schema_prompt = []
      then ''Return exactly one JSON object matching this JSON Schema. Do not add prose or Markdown.'' @ newline
        @ ''JSON Schema:'' @ newline @ schema_bytes
      else ''Return exactly one JSON object. Do not add prose or Markdown.'' @ newline @ ''Output contract:'' @ newline
        @ trim schema_prompt)"

end
