(* ===== verification/Model_Infer.thy ===== *)
theory Model_Infer
  imports Model_Requests State Steps
begin

text \<open>The calls \<open>model_call\<close> and \<open>model_infer\<close> (\<open>stone_eval.rs\<close>): the transition events around a request to the
  model, the hooks of the program before and after it, and the bounded loop that asks again until an answer
  conforms to the schema. The service behind the gateway, the code of a hook and the evaluation of an argument are
  parameters; they may change the world.\<close>

section \<open>Steps\<close>

record 's model_world =
  mw_next_transition :: nat
  mw_events :: "json list"
  mw_hook_active :: bool
  mw_rest :: 's

type_synonym ('s, 'a) step = "('s model_world, 'a) act_on"

section \<open>Hooks\<close>

datatype hook_handler = HookCallable nat string | HookNamedFunction string

record transition_hooks =
  th_pre :: "hook_handler option"
  th_post :: "hook_handler option"

definition no_hooks :: transition_hooks where
  "no_hooks = \<lparr> th_pre = None, th_post = None \<rparr>"

record 's model_env =
  md_request :: request_env
  md_model_call :: "json \<Rightarrow> 's \<Rightarrow> nu_value res \<times> 's"
  md_parse :: "string \<Rightarrow> string + json"
  md_run_handler :: "hook_handler \<Rightarrow> nu_value \<Rightarrow> ('s, rvalue) step"
  md_eval :: "expr \<Rightarrow> ('s, rvalue) step"
  md_is_function :: "string \<Rightarrow> 's \<Rightarrow> bool"
  md_materialize :: materializer
  md_owned_hooks :: "nat \<Rightarrow> transition_hooks"
  md_error_record :: "shell_error \<Rightarrow> nu_value"
  md_type_name :: "rvalue \<Rightarrow> string"
  md_controller_run :: "nat option"

definition transition_hook_error :: "string \<Rightarrow> string \<Rightarrow> msg_arg list \<Rightarrow> shell_error" where
  "transition_hook_error effect msg args = stone_error (effect @ '' transition hook'') msg args"

definition invoke_transition_hook :: "'s model_env \<Rightarrow> string \<Rightarrow> string \<Rightarrow> hook_handler \<Rightarrow> nu_value \<Rightarrow> ('s, rvalue) step" where
  "invoke_transition_hook env effect phase handler event = (\<lambda>w.
     if mw_hook_active w
     then (Inl (transition_hook_error effect ''transition hooks cannot recursively invoke another transition hook'' []), w)
     else case md_run_handler env handler event (w\<lparr> mw_hook_active := True \<rparr>) of (r, w') \<Rightarrow>
       (map_error (\<lambda>e. transition_hook_error effect (phase @ '' hook failed: {}'') [MStr (rq_display (md_request env) e)]) r,
        w'\<lparr> mw_hook_active := False \<rparr>))"

text \<open>A name that no local shadows may name a function.\<close>

definition named_function :: "'s model_env \<Rightarrow> expr \<Rightarrow> 's model_world \<Rightarrow> string option" where
  "named_function env e w = (case e of EName name \<Rightarrow> if md_is_function env name (mw_rest w) then Some name else None | _ \<Rightarrow> None)"

definition eval_transition_hook_handler :: "'s model_env \<Rightarrow> string \<Rightarrow> string \<Rightarrow> expr \<Rightarrow> ('s, hook_handler) step" where
  "eval_transition_hook_handler env effect phase e = (\<lambda>w. case named_function env e w of
     Some name \<Rightarrow> (Inr (HookNamedFunction name), w)
   | None \<Rightarrow> st_then (md_eval env e) (\<lambda>v. st_lift (case v of
       RCallable i n \<Rightarrow> Inr (HookCallable i n)
     | _ \<Rightarrow> Inl (transition_hook_error effect
         (phase @ '' hook must be a lambda, callable local, or named Stone function; got {}'') [MStr (md_type_name env v)]))) w)"

definition set_hook :: "string \<Rightarrow> hook_handler \<Rightarrow> transition_hooks \<Rightarrow> transition_hooks" where
  "set_hook phase h hooks = (if phase = ''pre'' then hooks\<lparr> th_pre := Some h \<rparr> else hooks\<lparr> th_post := Some h \<rparr>)"

primrec hook_entries :: "'s model_env \<Rightarrow> string \<Rightarrow> string set \<Rightarrow> (string \<times> expr) list \<Rightarrow> transition_hooks \<Rightarrow> ('s, transition_hooks) step" where
  "hook_entries env effect seen [] hooks = st_lift (Inr hooks)"
| "hook_entries env effect seen (e # es) hooks = (case e of (phase, handler) \<Rightarrow>
     if phase \<in> seen then st_lift (Inl (transition_hook_error effect ''duplicate hooks field `{}`'' [MStr phase]))
     else if phase \<notin> {''pre'', ''post''}
     then st_lift (Inl (transition_hook_error effect ''unsupported hooks field `{}`; expected pre or post'' [MStr phase]))
     else if handler = ENone then hook_entries env effect (insert phase seen) es hooks
     else st_then (eval_transition_hook_handler env effect phase handler) (\<lambda>h.
       hook_entries env effect (insert phase seen) es (set_hook phase h hooks)))"

definition eval_transition_hooks :: "'s model_env \<Rightarrow> string \<Rightarrow> expr \<Rightarrow> ('s, transition_hooks) step" where
  "eval_transition_hooks env effect e = (case e of
     ENone \<Rightarrow> st_lift (Inr no_hooks)
   | ERecord entries \<Rightarrow> hook_entries env effect {} entries no_hooks
   | _ \<Rightarrow> st_then (md_eval env e) (\<lambda>v. st_lift (case v of
       RNu VNothing \<Rightarrow> Inr no_hooks
     | ROwned kind i \<Rightarrow> if kind = ''transition_hooks'' then Inr (md_owned_hooks env i)
         else Inl (transition_hook_error effect (''hooks must be a transition_hooks() value or a record literal containing ''
           @ ''pre and/or post handlers; got {}'') [MStr (md_type_name env v)])
     | _ \<Rightarrow> Inl (transition_hook_error effect (''hooks must be a transition_hooks() value or a record literal containing ''
           @ ''pre and/or post handlers; got {}'') [MStr (md_type_name env v)]))))"

section \<open>Arguments\<close>

definition eval_plain :: "'s model_env \<Rightarrow> string \<Rightarrow> expr \<Rightarrow> ('s, nu_value) step" where
  "eval_plain env context e = st_then (md_eval env e) (\<lambda>v. st_lift (into_nu_value (md_materialize env) v context))"

primrec eval_named_with_hooks :: "'s model_env \<Rightarrow> string \<Rightarrow> (string \<times> expr) list \<Rightarrow> transition_hooks option
    \<Rightarrow> ('s, (string \<times> nu_value) list \<times> transition_hooks) step" where
  "eval_named_with_hooks env name [] hooks = st_lift (Inr ([], case hooks of None \<Rightarrow> no_hooks | Some h \<Rightarrow> h))"
| "eval_named_with_hooks env name (ne # nes) hooks = (case ne of (key, e) \<Rightarrow>
     if key = ''hooks''
     then if hooks \<noteq> None then st_lift (Inl (transition_hook_error name ''hooks may be supplied only once'' []))
          else st_then (eval_transition_hooks env name e) (\<lambda>h. eval_named_with_hooks env name nes (Some h))
     else st_then (eval_plain env name e) (\<lambda>v.
          st_then (eval_named_with_hooks env name nes hooks) (\<lambda>(nvs, h). st_lift (Inr ((key, v) # nvs, h)))))"

definition eval_call_values_with_transition_hooks :: "'s model_env \<Rightarrow> string \<Rightarrow> expr list \<Rightarrow> (string \<times> expr) list
    \<Rightarrow> ('s, nu_value list \<times> (string \<times> nu_value) list \<times> transition_hooks) step" where
  "eval_call_values_with_transition_hooks env name positional named =
     st_then (st_list (eval_plain env name) positional) (\<lambda>vs.
     st_then (eval_named_with_hooks env name named None) (\<lambda>(nvs, h). st_lift (Inr (vs, nvs, h))))"

section \<open>One request\<close>

definition transition_id_for_scope :: "nat \<Rightarrow> nat option \<Rightarrow> string" where
  "transition_id_for_scope sequence controller_run = (case controller_run of
     Some run \<Rightarrow> ''run-'' @ nat_text run @ ''-transition-'' @ nat_text sequence
   | None \<Rightarrow> ''transition-'' @ nat_text sequence)"

definition next_transition_id :: "'s model_env \<Rightarrow> ('s, string) step" where
  "next_transition_id env = (\<lambda>w. let n = (if mw_next_transition w + 1 < 2 ^ 64 then mw_next_transition w + 1 else 1)
     in (Inr (transition_id_for_scope n (md_controller_run env)), w\<lparr> mw_next_transition := n \<rparr>))"

definition record_transition_event :: "json \<Rightarrow> ('s, unit) step" where
  "record_transition_event event = st_update (\<lambda>w. w\<lparr> mw_events := mw_events w @ [event] \<rparr>)"

definition phase_event :: "string \<Rightarrow> string \<Rightarrow> (string \<times> json) list \<Rightarrow> json" where
  "phase_event transition phase details = json_record ([(''id'', JString transition), (''kind'', JString ''model_call''),
     (''phase'', JString phase)] @ details)"

definition transition_event_value :: "string \<Rightarrow> string \<Rightarrow> string \<Rightarrow> nu_value \<Rightarrow> nu_value option \<Rightarrow> nu_value" where
  "transition_event_value transition kind phase input outcome = VRecord ([(''transition_id'', VString transition),
     (''kind'', VString kind), (''phase'', VString phase), (''input'', input)]
     @ (case outcome of None \<Rightarrow> [] | Some v \<Rightarrow> [(''outcome'', v)]))"

definition transition_outcome_value :: "'s model_env \<Rightarrow> nu_value res \<Rightarrow> nu_value" where
  "transition_outcome_value env result = VRecord (case result of
     Inr v \<Rightarrow> [(''ok'', VBool True), (''value'', v)]
   | Inl e \<Rightarrow> [(''ok'', VBool False), (''error'', md_error_record env e)])"

datatype pre_hook_decision = HookContinue "(string \<times> nu_value) list option" | HookReject string

definition rejected :: string where
  "rejected = ''pre hook rejected the transition''"

definition transition_pre_hook_record :: "'s model_env \<Rightarrow> string \<Rightarrow> rvalue \<Rightarrow> pre_hook_decision res" where
  "transition_pre_hook_record env effect out =
     and_then (into_nu_value (md_materialize env) out (effect @ '' pre hook result'')) (\<lambda>v. case v of
       VNothing \<Rightarrow> Inr (HookContinue None)
     | VBool b \<Rightarrow> Inr (if b then HookContinue None else HookReject rejected)
     | VRecord r \<Rightarrow> (case record_get r ''allow'' of
         None \<Rightarrow> Inr (HookContinue (Some r))
       | Some (VBool b) \<Rightarrow>
           if b then Inr (HookContinue (Some r))
           else Inr (HookReject (case record_get r ''reason'' of
               None \<Rightarrow> rejected
             | Some reason \<Rightarrow> (case value_to_string reason ''pre hook reason'' of Inl _ \<Rightarrow> rejected | Inr s \<Rightarrow> s)))
       | Some allow \<Rightarrow> Inl (transition_hook_error effect ''pre hook allow field must be bool, got {}'' [MType allow]))
     | _ \<Rightarrow> Inl (transition_hook_error effect ''pre hook must return None, bool, or a patch record; got {}'' [MType v]))"

primrec check_patch_fields :: "string list \<Rightarrow> unit res" where
  "check_patch_fields [] = Inr ()"
| "check_patch_fields (key # keys) = (if key \<in> {''allow'', ''reason'', ''messages''} then check_patch_fields keys
     else Inl (transition_hook_error ''model_call''
       ''unsupported model_call pre-hook patch field `{}`; expected allow, reason, or messages'' [MStr key]))"

definition apply_model_pre_hook_output :: "'s model_env \<Rightarrow> rvalue \<Rightarrow> (string \<times> json) list \<Rightarrow> (bool \<times> (string \<times> json) list) res" where
  "apply_model_pre_hook_output env out request =
     and_then (transition_pre_hook_record env ''model_call'' out) (\<lambda>decision. case decision of
       HookReject reason \<Rightarrow> Inl (transition_hook_error ''model_call'' ''{}'' [MStr reason])
     | HookContinue None \<Rightarrow> Inr (False, request)
     | HookContinue (Some r) \<Rightarrow>
         and_then (check_patch_fields (List.map fst r)) (\<lambda>_.
         case record_get r ''messages'' of
           None \<Rightarrow> Inr (False, request)
         | Some messages \<Rightarrow>
             and_then (model_message_values_for (md_request env) messages ''model_call'') (\<lambda>ms.
             Inr (True, map_insert ''messages'' (JArray ms) request))))"

definition attach_transition_id :: "nu_value \<Rightarrow> string \<Rightarrow> string \<Rightarrow> nu_value res" where
  "attach_transition_id v transition effect = (case v of
     VRecord r \<Rightarrow> Inr (VRecord (r @ [(''transition_id'', VString transition)]))
   | _ \<Rightarrow> Inl (transition_hook_error effect ''effect response must be a record, got {}'' [MType v]))"

definition gateway_call :: "'s model_env \<Rightarrow> json \<Rightarrow> ('s, nu_value) step" where
  "gateway_call env request = (\<lambda>w. case md_model_call env request (mw_rest w) of (r, s) \<Rightarrow> (r, w\<lparr> mw_rest := s \<rparr>))"

definition run_pre_hook :: "'s model_env \<Rightarrow> string \<Rightarrow> transition_hooks \<Rightarrow> (string \<times> json) list
    \<Rightarrow> ('s, (string \<times> json) list) step" where
  "run_pre_hook env transition hooks request = (case th_pre hooks of
     None \<Rightarrow> st_lift (Inr request)
   | Some pre \<Rightarrow> st_result
       (st_then (invoke_transition_hook env ''model_call'' ''pre'' pre
           (transition_event_value transition ''model_call'' ''pre'' (json_to_nu_value (JObject request)) None))
         (\<lambda>out. st_lift (apply_model_pre_hook_output env out request)))
       (\<lambda>r. case r of
           Inl e \<Rightarrow> st_then (record_transition_event (phase_event transition ''pre'' [(''ok'', JBool False)])) (\<lambda>_. st_lift (Inl e))
         | Inr (changed, request') \<Rightarrow>
             st_then (record_transition_event (phase_event transition ''pre'' [(''ok'', JBool True), (''changed'', JBool changed)]))
               (\<lambda>_. st_lift (Inr request'))))"

definition run_post_hook :: "'s model_env \<Rightarrow> string \<Rightarrow> transition_hooks \<Rightarrow> (string \<times> json) list \<Rightarrow> nu_value res \<Rightarrow> ('s, unit) step" where
  "run_post_hook env transition hooks request result = (case th_post hooks of
     None \<Rightarrow> st_lift (Inr ())
   | Some post \<Rightarrow> st_result
       (invoke_transition_hook env ''model_call'' ''post'' post
         (transition_event_value transition ''model_call'' ''post'' (json_to_nu_value (JObject request))
           (Some (transition_outcome_value env result))))
       (\<lambda>r. st_then (record_transition_event (phase_event transition ''post'' [(''ok'', JBool (is_ok r))]))
          (\<lambda>_. st_lift (and_then r (\<lambda>_. Inr ())))))"

definition execute_model_request :: "'s model_env \<Rightarrow> (string \<times> json) list \<Rightarrow> transition_hooks \<Rightarrow> ('s, nu_value) step" where
  "execute_model_request env request hooks =
     st_then (next_transition_id env) (\<lambda>transition.
     st_then (record_transition_event (phase_event transition ''start''
       [(''pre_hook'', JBool (th_pre hooks \<noteq> None)), (''post_hook'', JBool (th_post hooks \<noteq> None))])) (\<lambda>_.
     st_then (run_pre_hook env transition hooks request) (\<lambda>effective.
     st_result (st_then (gateway_call env (JObject effective)) (\<lambda>response.
       st_lift (attach_transition_id response transition ''model_call''))) (\<lambda>result.
     st_then (record_transition_event (phase_event transition ''effect'' [(''ok'', JBool (is_ok result))])) (\<lambda>_.
     st_then (run_post_hook env transition hooks effective result) (\<lambda>_.
     st_lift result))))))"

definition eval_model_call_call :: "'s model_env \<Rightarrow> expr list \<Rightarrow> (string \<times> expr) list \<Rightarrow> ('s, nu_value) step" where
  "eval_model_call_call env positional named = (\<lambda>w.
     if mw_hook_active w
     then (Inl (transition_hook_error ''model_call'' ''model_call() cannot be called from a transition hook'' []), w)
     else st_then (eval_call_values_with_transition_hooks env ''model_call'' positional named) (\<lambda>(vs, nvs, hooks). case vs of
       [messages] \<Rightarrow>
         st_then (st_lift (model_request_from_values (md_request env) messages nvs ''model_call'' True)) (\<lambda>request.
         execute_model_request env request hooks)
     | _ \<Rightarrow> st_lift (Inl (model_input_error ''model_call'' ''model_call() requires exactly one positional messages list'' []))) w)"

section \<open>Structured answers\<close>

definition max_retries :: nat where "max_retries = 4"

definition max_schema_bytes :: nat where "max_schema_bytes = 64 * 1024"

definition max_prompt_bytes :: nat where "max_prompt_bytes = 4096"

definition max_repair_content_chars :: nat where "max_repair_content_chars = 32 * 1024"

definition infer_error :: "string \<Rightarrow> msg_arg list \<Rightarrow> shell_error" where
  "infer_error msg args = model_input_error ''model_infer'' msg args"

record infer_options =
  io_retries :: nat
  io_repair_prompt :: string
  io_schema_prompt :: string
  io_model_options :: "(string \<times> nu_value) list"

definition no_options :: infer_options where
  "no_options = \<lparr> io_retries = 0, io_repair_prompt = [], io_schema_prompt = [], io_model_options = [] \<rparr>"

definition retries_option :: "nu_value \<Rightarrow> nat res" where
  "retries_option v = (case v of
     VInt i \<Rightarrow> if 0 \<le> sint i \<and> sint i \<le> int max_retries then Inr (nat (sint i))
       else Inl (infer_error ''model_infer retries must be between 0 and 4, got {}'' [MInt (sint i)])
   | _ \<Rightarrow> Inl (infer_error ''model_infer retries must be an integer, got {}'' [MType v]))"

definition prompt_option :: "'s model_env \<Rightarrow> string \<Rightarrow> nu_value \<Rightarrow> string res" where
  "prompt_option env name v =
     and_then (text_value (md_request env) ''model_infer'' (''model_infer '' @ name) v) (\<lambda>s.
     if max_prompt_bytes < length s then Inl (infer_error (''model_infer '' @ name @ '' exceeds the 4096-byte limit'') [])
     else Inr s)"

definition set_option :: "'s model_env \<Rightarrow> string \<Rightarrow> nu_value \<Rightarrow> infer_options \<Rightarrow> infer_options res" where
  "set_option env name v o' =
     (if name = ''retries'' then and_then (retries_option v) (\<lambda>n. Inr (o'\<lparr> io_retries := n \<rparr>))
      else if name = ''repair_prompt'' then and_then (prompt_option env name v) (\<lambda>s. Inr (o'\<lparr> io_repair_prompt := s \<rparr>))
      else if name = ''schema_prompt'' then and_then (prompt_option env name v) (\<lambda>s. Inr (o'\<lparr> io_schema_prompt := s \<rparr>))
      else if name = ''response_format''
      then Inl (infer_error ''model_infer owns response_format; remove the explicit response_format argument'' [])
      else Inr (o'\<lparr> io_model_options := io_model_options o' @ [(name, v)] \<rparr>))"

primrec infer_options_of :: "'s model_env \<Rightarrow> string set \<Rightarrow> (string \<times> nu_value) list \<Rightarrow> infer_options \<Rightarrow> infer_options res" where
  "infer_options_of env seen [] o' = Inr o'"
| "infer_options_of env seen (nv # nvs) o' = (case nv of (name, v) \<Rightarrow>
     if name \<in> seen then Inl (infer_error ''duplicate model_infer keyword argument `{}`'' [MStr name])
     else and_then (set_option env name v o') (infer_options_of env (insert name seen) nvs))"

definition role_message :: "string \<Rightarrow> string \<Rightarrow> json" where
  "role_message role content = json_record [(''role'', JString role), (''content'', JString content)]"

definition has_system_role :: "json \<Rightarrow> bool" where
  "has_system_role m \<longleftrightarrow> Option.bind (json_object m) (\<lambda>r. field r ''role'' json_str) = Some ''system''"

definition request_messages :: "(string \<times> json) list \<Rightarrow> json list" where
  "request_messages request = (case field request ''messages'' json_array of None \<Rightarrow> [] | Some ms \<Rightarrow> ms)"

definition set_messages :: "json list \<Rightarrow> (string \<times> json) list \<Rightarrow> (string \<times> json) list" where
  "set_messages ms request = map_insert ''messages'' (JArray ms) request"

text \<open>The instruction goes after the system messages that come first.\<close>

definition with_instruction :: "string \<Rightarrow> (string \<times> json) list \<Rightarrow> (string \<times> json) list" where
  "with_instruction instruction request = (let ms = request_messages request in
     map_insert ''response_format'' (json_record [(''type'', JString ''json_object'')])
       (set_messages (takeWhile has_system_role ms @ [role_message ''system'' instruction] @ dropWhile has_system_role ms) request))"

definition json_issue :: "string \<Rightarrow> validation_issue" where
  "json_issue err = \<lparr> vi_path = ''$'', vi_keyword = ''json'', vi_message = bounded_text err 256 \<rparr>"

definition judge_answer :: "'s model_env \<Rightarrow> json \<Rightarrow> string \<Rightarrow> json option \<times> validation_issue list" where
  "judge_answer env schema content = (case md_parse env content of
     Inr v \<Rightarrow> (let issues = validate_instance (rq_schema (md_request env)) schema v in (if issues = [] then Some v else None, issues))
   | Inl err \<Rightarrow> (None, [json_issue err]))"

definition infer_result :: "'s model_env \<Rightarrow> json \<Rightarrow> nu_value \<Rightarrow> nat \<Rightarrow> json list \<Rightarrow> model_usage \<Rightarrow> json" where
  "infer_result env v response attempts failures usage = json_record [(''value'', v),
     (''response'', json_of (md_request env) response), (''validation_attempts'', JInt (int attempts)),
     (''errors'', JArray failures), (''usage'', usage_json usage)]"

definition failure_json :: "nat \<Rightarrow> json list \<Rightarrow> string \<Rightarrow> string \<Rightarrow> json" where
  "failure_json attempt issues content repair = json_record [(''attempt'', JInt (int attempt)), (''errors'', JArray issues),
     (''response_excerpt'', JString (bounded_text content 2048)), (''repair_prompt'', JString repair)]"

definition failed_inference :: "'s model_env \<Rightarrow> nat \<Rightarrow> json list \<Rightarrow> model_usage \<Rightarrow> shell_error" where
  "failed_inference env attempts failures usage =
     model_infer_validation_error ''model output failed validation after {} attempt(s): {}'' [MInt (int attempts),
       MStr (bounded_text (se_json_text (rq_schema (md_request env)) (json_record [(''validation_attempts'', JInt (int attempts)),
         (''errors'', JArray failures), (''usage'', usage_json usage)])) 4096)]"

definition with_repair :: "string \<Rightarrow> string \<Rightarrow> (string \<times> json) list \<Rightarrow> (string \<times> json) list" where
  "with_repair content repair request = set_messages (request_messages request
     @ [role_message ''assistant'' (bounded_text content max_repair_content_chars), role_message ''user'' repair]) request"

text \<open>The loop over the attempts; \<open>remaining\<close> is the number of attempts that are allowed after this one.\<close>

fun infer_loop :: "'s model_env \<Rightarrow> json \<Rightarrow> transition_hooks \<Rightarrow> string \<Rightarrow> nat \<Rightarrow> nat \<Rightarrow> (string \<times> json) list \<Rightarrow> json list
    \<Rightarrow> model_usage \<Rightarrow> ('s, nu_value) step" where
  "infer_loop env schema hooks repair_prompt remaining attempt request failures usage =
     st_then (execute_model_request env request hooks) (\<lambda>response.
     let usage' = add_response (md_request env) response usage in
     st_then (st_lift (model_response_content (md_request env) response)) (\<lambda>content.
     case judge_answer env schema content of
       (Some v, _) \<Rightarrow> st_lift (Inr (json_to_nu_value (infer_result env v response (attempt + 1) failures usage')))
     | (None, issues) \<Rightarrow>
         let issue_values = List.map issue_json issues;
             repair = model_infer_repair_message (md_request env) repair_prompt (attempt + 1) issue_values;
             failures' = failures @ [failure_json (attempt + 1) issue_values content repair]
         in (case remaining of
               0 \<Rightarrow> st_lift (Inl (failed_inference env (attempt + 1) failures' usage'))
             | Suc n \<Rightarrow> infer_loop env schema hooks repair_prompt n (attempt + 1) (with_repair content repair request) failures' usage')))"

declare infer_loop.simps [simp del]

definition infer_schema :: "'s model_env \<Rightarrow> nu_value \<Rightarrow> (json \<times> string) res" where
  "infer_schema env v = (case v of
     VRecord _ \<Rightarrow>
       (let schema = json_of (md_request env) v; bytes = se_json_text (rq_schema (md_request env)) schema
        in if max_schema_bytes < length bytes then Inl (infer_error ''model_infer schema exceeds the 65536-byte limit'' [])
           else case validate_schema_definition (rq_schema (md_request env)) schema of
               Inl msg \<Rightarrow> Inl (infer_error ''{}'' [MStr msg])
             | Inr _ \<Rightarrow> Inr (schema, bytes))
   | _ \<Rightarrow> Inl (infer_error ''model_infer schema must be a record, got {}'' [MType v]))"

definition model_infer_values :: "'s model_env \<Rightarrow> nu_value \<Rightarrow> nu_value \<Rightarrow> (string \<times> nu_value) list \<Rightarrow> transition_hooks
    \<Rightarrow> ('s, nu_value) step" where
  "model_infer_values env messages schema_value named hooks =
     st_then (st_lift (infer_schema env schema_value)) (\<lambda>(schema, bytes).
     st_then (st_lift (infer_options_of env {} named no_options)) (\<lambda>opts.
     st_then (st_lift (model_request_from_values (md_request env) messages (io_model_options opts) ''model_infer'' False)) (\<lambda>request.
     infer_loop env schema hooks (io_repair_prompt opts) (io_retries opts) 0
       (with_instruction (model_infer_schema_instruction bytes (io_schema_prompt opts)) request) [] no_usage)))"

definition eval_model_infer_call :: "'s model_env \<Rightarrow> expr list \<Rightarrow> (string \<times> expr) list \<Rightarrow> ('s, nu_value) step" where
  "eval_model_infer_call env positional named = (\<lambda>w.
     if mw_hook_active w
     then (Inl (transition_hook_error ''model_infer'' ''model_infer() cannot be called from a transition hook'' []), w)
     else st_then (eval_call_values_with_transition_hooks env ''model_infer'' positional named) (\<lambda>(vs, nvs, hooks). case vs of
       [messages, schema] \<Rightarrow> model_infer_values env messages schema nvs hooks
     | _ \<Rightarrow> st_lift (Inl (infer_error ''model_infer() requires exactly two positional arguments: messages and schema'' []))) w)"

end
