(* ===== verification/Schema_Correct.thy ===== *)
theory Schema_Correct
  imports Json_Schema
begin

text \<open>A value has no issues under an accepted schema exactly if it conforms to it. The specification has no paths,
  no cap on issues and no limit on depth.\<close>

section \<open>The specification\<close>

definition elements :: "json \<Rightarrow> json list" where
  "elements v = (case json_array v of None \<Rightarrow> [] | Some vs \<Rightarrow> vs)"

definition members :: "json \<Rightarrow> (string \<times> json) list" where
  "members v = (case json_object v of None \<Rightarrow> [] | Some m \<Rightarrow> m)"

definition required_members :: "(string \<times> json) list \<Rightarrow> string set" where
  "required_members object = (case field object ''required'' json_array of
     None \<Rightarrow> {} | Some js \<Rightarrow> {n. JString n \<in> set js})"

text \<open>The keywords that do not refer to another schema.\<close>

definition plain_keywords_hold :: "(string \<times> json) list \<Rightarrow> json \<Rightarrow> bool" where
  "plain_keywords_hold object v \<longleftrightarrow> const_ok object v \<and> enum_ok object v \<and> type_ok object v
     \<and> (json_object v \<noteq> None \<longrightarrow> required_members object \<subseteq> fst ` set (members v))
     \<and> (json_array v \<noteq> None \<longrightarrow>
          at_least object ''minItems'' (length (elements v)) \<and> at_most object ''maxItems'' (length (elements v)))
     \<and> (\<forall>s. json_str v = Some s \<longrightarrow>
          at_least object ''minLength'' (length (str_chars s)) \<and> at_most object ''maxLength'' (length (str_chars s)))
     \<and> (\<forall>x. json_f64 v = Some x \<longrightarrow> not_below object x \<and> not_above object x)"

function conforms :: "json \<Rightarrow> json \<Rightarrow> bool" where
  "conforms schema v = (case json_object schema of
     None \<Rightarrow> True
   | Some object \<Rightarrow> plain_keywords_hold object v
       \<and> (case field object ''oneOf'' json_array of None \<Rightarrow> True
            | Some branches \<Rightarrow> length (List.filter (\<lambda>branch. conforms branch v) branches) = 1)
       \<and> (case field object ''anyOf'' json_array of None \<Rightarrow> True
            | Some branches \<Rightarrow> list_ex (\<lambda>branch. conforms branch v) branches)
       \<and> list_all (\<lambda>member. case property_schema object (fst member) of
             None \<Rightarrow> additional_ok object | Some s \<Rightarrow> conforms s (snd member)) (members v)
       \<and> (case map_of object ''items'' of None \<Rightarrow> True | Some s \<Rightarrow> list_all (conforms s) (elements v)))"
  by auto

termination conforms
  by (relation "measure (\<lambda>(schema, _). size schema)") (auto dest: inner_sizes)

declare conforms.simps [simp del]

section \<open>Steps that add issues\<close>

text \<open>A step extends the list of issues within the cap, and below the cap it extends it exactly if its condition
  fails.\<close>

definition reports :: "(validation_issue list \<Rightarrow> validation_issue list) \<Rightarrow> bool \<Rightarrow> bool" where
  "reports f ok \<longleftrightarrow> (\<forall>issues. length issues \<le> max_validation_issues \<longrightarrow>
     (\<exists>more. f issues = issues @ more \<and> length (f issues) \<le> max_validation_issues
        \<and> (length issues < max_validation_issues \<longrightarrow> (more = [] \<longleftrightarrow> ok))))"

lemma reports_id: "reports (\<lambda>issues. issues) True"
  by (simp add: reports_def)

lemma reports_push: "reports (push_issue path keyword message) False"
  by (auto simp: reports_def push_issue_def)

lemma reports_require: "reports (require ok path keyword message) ok"
  by (auto simp: reports_def push_issue_def require_def)

lemma reports_comp:
  assumes "reports f P" and "reports g Q"
  shows "reports (\<lambda>issues. g (f issues)) (P \<and> Q)"
  unfolding reports_def
proof (intro allI impI)
  fix issues :: "validation_issue list"
  assume len: "length issues \<le> max_validation_issues"
  obtain more where f: "f issues = issues @ more" "length (f issues) \<le> max_validation_issues"
    "length issues < max_validation_issues \<longrightarrow> (more = []) = P" using assms(1) len unfolding reports_def by blast
  obtain more' where g: "g (f issues) = f issues @ more'" "length (g (f issues)) \<le> max_validation_issues"
    "length (f issues) < max_validation_issues \<longrightarrow> (more' = []) = Q" using assms(2) f(2) unfolding reports_def by blast
  show "\<exists>more. g (f issues) = issues @ more \<and> length (g (f issues)) \<le> max_validation_issues
      \<and> (length issues < max_validation_issues \<longrightarrow> (more = []) = (P \<and> Q))"
    using f g by (intro exI [of _ "more @ more'"]) auto
qed

lemma reports_fold: "(\<And>x. x \<in> set xs \<Longrightarrow> reports (f x) (P x)) \<Longrightarrow> reports (fold f xs) (list_all P xs)"
proof (induction xs)
  case (Cons x xs)
  then have "reports (\<lambda>issues. fold f xs (f x issues)) (P x \<and> list_all P xs)"
    by (intro reports_comp) auto
  then show ?case by (simp add: comp_def)
qed (simp add: reports_id id_def)

lemma reports_cong: "reports f P \<Longrightarrow> P = Q \<Longrightarrow> reports f Q"
  by simp


lemma reports_below:
  assumes "reports g P" and "\<And>issues. length issues < max_validation_issues \<Longrightarrow> f issues = g issues"
    and "\<And>issues. max_validation_issues \<le> length issues \<Longrightarrow> f issues = issues"
  shows "reports f P"
  unfolding reports_def
proof (intro allI impI)
  fix issues :: "validation_issue list"
  assume "length issues \<le> max_validation_issues"
  then show "\<exists>more. f issues = issues @ more \<and> length (f issues) \<le> max_validation_issues
      \<and> (length issues < max_validation_issues \<longrightarrow> (more = []) = P)"
    using assms(1) [unfolded reports_def, rule_format, of issues] assms(2) [of issues] assms(3) [of issues]
    by (cases "length issues < max_validation_issues") auto
qed

lemma reports_empty: "reports f P \<Longrightarrow> f [] = [] \<longleftrightarrow> P"
  by (auto simp: reports_def max_validation_issues_def dest!: spec [of _ "[]"])

lemma reports_length: "reports f P \<Longrightarrow> length (f []) \<le> max_validation_issues"
  by (auto simp: reports_def dest!: spec [of _ "[]"])

section \<open>Accepted schemas\<close>

text \<open>Acceptance does not depend on the path, and a smaller depth does not hurt.\<close>

lemma try_each_ok: "try_each f xs = Inr () \<longleftrightarrow> (\<forall>x\<in>set xs. f x = Inr ())"
  by (induction xs) (auto simp: and_then_eq_Inr)

lemma check_names_path: "check_names env path seen js = Inr () \<Longrightarrow> check_names env path' seen js = Inr ()"
  by (induction js arbitrary: seen) (auto simp: and_then_eq_Inr ok_or_def split: option.splits if_splits)

lemma for_keyword_ok: "for_keyword m k f = Inr () \<longleftrightarrow> (\<forall>v. map_of m k = Some v \<longrightarrow> f v = Inr ())"
  by (simp add: for_keyword_def split: option.split)

lemma ok_or_ok [simp]: "ok_or e x = Inr y \<longleftrightarrow> x = Some y"
  by (cases x) simp_all

lemma optional_path:
  "optional_usize m path k = Inr n \<Longrightarrow> optional_usize m path' k = Inr n"
  "optional_number m path k = Inr x \<Longrightarrow> optional_number m path' k = Inr x"
  by (auto simp: optional_usize_def optional_number_def and_then_eq_Inr split: option.splits)

lemma pair_ok:
  "validate_non_negative_integer_pair m path a b = Inr () \<longleftrightarrow> (\<exists>lo hi. optional_usize m path a = Inr lo
     \<and> optional_usize m path b = Inr hi \<and> (\<forall>x y. lo = Some x \<longrightarrow> hi = Some y \<longrightarrow> \<not> y < x))"
  "validate_number_pair m path a b = Inr () \<longleftrightarrow> (\<exists>lo' hi'. optional_number m path a = Inr lo'
     \<and> optional_number m path b = Inr hi' \<and> (\<forall>x y. lo' = Some x \<longrightarrow> hi' = Some y \<longrightarrow> \<not> f64_lt y x))"
  unfolding validate_non_negative_integer_pair_def validate_number_pair_def and_then_eq_Inr
  by (intro ex_cong1 conj_cong refl; force split: option.split)+

lemma then_ok:
  "and_then r (\<lambda>_. s) = Inr () \<longleftrightarrow> r = Inr () \<and> s = Inr ()"
  "and_then (ok_or e x) f = Inr y \<longleftrightarrow> (\<exists>z. x = Some z \<and> f z = Inr y)"
  "(if b then Inl e else s) = Inr y \<longleftrightarrow> \<not> b \<and> s = Inr y"
  by (auto simp: and_then_eq_Inr)

lemma checks_path:
  "check_keywords env m path = Inr () \<Longrightarrow> check_keywords env m path' = Inr ()"
  "check_type env m path = Inr () \<Longrightarrow> check_type env m path' = Inr ()"
  "check_required_names env m path = Inr () \<Longrightarrow> check_required_names env m path' = Inr ()"
  "check_additional m path = Inr () \<Longrightarrow> check_additional m path' = Inr ()"
  "check_enum m path = Inr () \<Longrightarrow> check_enum m path' = Inr ()"
  "validate_non_negative_integer_pair m path a b = Inr () \<Longrightarrow> validate_non_negative_integer_pair m path' a b = Inr ()"
  "validate_number_pair m path a b = Inr () \<Longrightarrow> validate_number_pair m path' a b = Inr ()"
proof -
  show "check_keywords env m path = Inr () \<Longrightarrow> check_keywords env m path' = Inr ()"
    by (auto simp: check_keywords_def try_each_ok split: if_splits)
  show "check_type env m path = Inr () \<Longrightarrow> check_type env m path' = Inr ()"
    by (auto simp: check_type_def for_keyword_ok and_then_eq_Inr split: if_splits)
  show "check_required_names env m path = Inr () \<Longrightarrow> check_required_names env m path' = Inr ()"
    by (auto simp: check_required_names_def for_keyword_ok and_then_eq_Inr intro: check_names_path)
  show "check_additional m path = Inr () \<Longrightarrow> check_additional m path' = Inr ()"
    by (cases "map_of m ''additionalProperties''") (auto simp: check_additional_def for_keyword_def split: if_splits)
  show "check_enum m path = Inr () \<Longrightarrow> check_enum m path' = Inr ()"
    by (auto simp: check_enum_def for_keyword_ok and_then_eq_Inr split: if_splits)
  show "validate_non_negative_integer_pair m path a b = Inr () \<Longrightarrow> validate_non_negative_integer_pair m path' a b = Inr ()"
    unfolding pair_ok using optional_path by blast
  show "validate_number_pair m path a b = Inr () \<Longrightarrow> validate_number_pair m path' a b = Inr ()"
    unfolding pair_ok using optional_path by blast
qed

lemma json_object_Some: "json_object j = Some m \<longleftrightarrow> j = JObject m"
  by (cases j) (auto simp: json_object_def)

lemma json_array_Some: "json_array j = Some js \<longleftrightarrow> j = JArray js"
  by (cases j) (auto simp: json_array_def)

lemma accepted_unfold:
  "validate_schema_node env (JObject m) path d = Inr () \<longleftrightarrow> d \<le> max_schema_depth
     \<and> check_keywords env m path = Inr () \<and> check_type env m path = Inr () \<and> check_required_names env m path = Inr ()
     \<and> check_additional m path = Inr () \<and> check_enum m path = Inr ()
     \<and> validate_non_negative_integer_pair m path ''minItems'' ''maxItems'' = Inr ()
     \<and> validate_non_negative_integer_pair m path ''minLength'' ''maxLength'' = Inr ()
     \<and> validate_number_pair m path ''minimum'' ''maximum'' = Inr ()
     \<and> (\<forall>v. map_of m ''properties'' = Some v \<longrightarrow> (\<exists>ps. v = JObject ps \<and> (\<forall>e\<in>set ps. length (fst e) \<le> max_schema_key_bytes
          \<and> validate_schema_node env (snd e) (property_path env path (fst e)) (Suc d) = Inr ())))
     \<and> (\<forall>v. map_of m ''items'' = Some v \<longrightarrow> validate_schema_node env v (path @ ''.items'') (Suc d) = Inr ())
     \<and> (\<forall>k\<in>{''oneOf'', ''anyOf''}. \<forall>v. map_of m k = Some v \<longrightarrow> (\<exists>bs. v = JArray bs \<and> bs \<noteq> [] \<and> length bs \<le> max_schema_branches
          \<and> (\<forall>ib\<in>set (List.enumerate 0 bs). validate_schema_node env (snd ib) (index_path (path @ ''.'' @ k) (fst ib)) (Suc d) = Inr ())))"
  unfolding validate_schema_node.simps [of env "JObject m" path d] then_ok for_keyword_ok try_each_ok json_object_Some
    json_array_Some json.inject
  by (simp add: not_less) blast

lemma accepted_branches:
  assumes "validate_schema_node env (JObject m) path d = Inr ()" and "k \<in> {''oneOf'', ''anyOf''}" and "map_of m k = Some v"
  obtains bs where "v = JArray bs" "bs \<noteq> []" "length bs \<le> max_schema_branches"
    "\<And>ib. ib \<in> set (List.enumerate 0 bs) \<Longrightarrow> validate_schema_node env (snd ib) (index_path (path @ ''.'' @ k) (fst ib)) (Suc d) = Inr ()"
proof -
  have "\<exists>bs. v = JArray bs \<and> bs \<noteq> [] \<and> length bs \<le> max_schema_branches \<and> (\<forall>ib\<in>set (List.enumerate 0 bs).
      validate_schema_node env (snd ib) (index_path (path @ ''.'' @ k) (fst ib)) (Suc d) = Inr ())"
    using assms(1) [unfolded accepted_unfold] assms(3) by (elim conjE) (drule bspec [OF _ assms(2)], drule spec, drule (1) mp)
  then show ?thesis using that by blast
qed

lemma accepted_object: "validate_schema_node env schema path d = Inr () \<Longrightarrow> \<exists>m. schema = JObject m"
  by (subst (asm) validate_schema_node.simps) (auto simp: and_then_eq_Inr json_object_Some split: if_splits)

lemma enumerate_member: "ib \<in> set (List.enumerate n bs) \<Longrightarrow> snd ib \<in> set bs"
  using nth_mem [of "fst ib - n" bs] by (auto simp: in_set_enumerate_eq)

lemma accepted_shallower:
  "validate_schema_node env schema path d = Inr () \<Longrightarrow> d' \<le> d \<Longrightarrow> validate_schema_node env schema path' d' = Inr ()"
proof (induction "size schema" arbitrary: schema path d path' d' rule: less_induct)
  case less
  obtain m where schema: "schema = JObject m" using accepted_object [OF less.prems(1)] by blast
  note acc = less.prems(1) [unfolded schema accepted_unfold]
  have IH: "validate_schema_node env j path'' (Suc d') = Inr ()"
    if "validate_schema_node env j p (Suc d) = Inr ()" "size j < size schema" for j p path''
    using less.hyps [OF that(2,1), of "Suc d'" path''] less.prems(2) by simp
  have props: "size (snd e) < size schema" if "map_of m ''properties'' = Some (JObject ps)" "e \<in> set ps" for ps e
    using field_size [OF that(1)] json_part_size(1) [of "fst e" "snd e" ps] that(2) schema by simp
  have branches: "size (snd ib) < size schema" if "map_of m k = Some (JArray bs)" "ib \<in> set (List.enumerate 0 bs)" for k bs ib
    using field_size [OF that(1)] json_part_size(2) [OF enumerate_member [OF that(2)]] schema by simp
  have items: "size v < size schema" if "map_of m ''items'' = Some v" for v
    using field_size [OF that] schema by simp
  show ?case
    unfolding schema accepted_unfold
  proof (intro conjI allI impI ballI)
    show "d' \<le> max_schema_depth" using acc less.prems(2) by simp
    show "\<exists>ps. v = JObject ps \<and> (\<forall>e\<in>set ps. length (fst e) \<le> max_schema_key_bytes
        \<and> validate_schema_node env (snd e) (property_path env path' (fst e)) (Suc d') = Inr ())"
      if "map_of m ''properties'' = Some v" for v
      using acc that IH props by blast
    show "validate_schema_node env v (path' @ ''.items'') (Suc d') = Inr ()" if "map_of m ''items'' = Some v" for v
      using acc that IH items by blast
    show "\<exists>bs. v = JArray bs \<and> bs \<noteq> [] \<and> length bs \<le> max_schema_branches \<and> (\<forall>ib\<in>set (List.enumerate 0 bs).
        validate_schema_node env (snd ib) (index_path (path' @ ''.'' @ k) (fst ib)) (Suc d') = Inr ())"
      if k: "k \<in> {''oneOf'', ''anyOf''}" "map_of m k = Some v" for k v
    proof -
      obtain bs where bs: "v = JArray bs" "bs \<noteq> []" "length bs \<le> max_schema_branches"
        "\<And>ib. ib \<in> set (List.enumerate 0 bs) \<Longrightarrow> validate_schema_node env (snd ib) (index_path (path @ ''.'' @ k) (fst ib)) (Suc d) = Inr ()"
        using accepted_branches [OF less.prems(1) [unfolded schema] k] by metis
      then show ?thesis using IH branches k(2) by blast
    qed
  qed (use acc checks_path [where path = path and path' = path'] in blast)+
qed

text \<open>What the check of a value visits is accepted too: members and items one level deeper, branches at any depth.\<close>

lemma accepted_parts:
  assumes "validate_schema_node env (JObject m) path d = Inr ()"
  shows "property_schema m name = Some j \<Longrightarrow> validate_schema_node env j path' (Suc d) = Inr ()"
    and "map_of m ''items'' = Some j \<Longrightarrow> validate_schema_node env j path' (Suc d) = Inr ()"
    and "k \<in> {''oneOf'', ''anyOf''} \<Longrightarrow> field m k json_array = Some js \<Longrightarrow> j \<in> set js
      \<Longrightarrow> validate_schema_node env j path' 0 = Inr ()"
proof -
  note acc = assms [unfolded accepted_unfold]
  show "validate_schema_node env j path' (Suc d) = Inr ()" if p: "property_schema m name = Some j"
  proof -
    obtain ps where ps: "map_of m ''properties'' = Some (JObject ps)" "map_of ps name = Some j"
      using p by (auto simp: property_schema_def bind_eq_Some_conv field_object)
    then have "validate_schema_node env (snd (name, j)) (property_path env path (fst (name, j))) (Suc d) = Inr ()"
      using acc map_of_SomeD [OF ps(2)] by blast
    then show ?thesis using accepted_shallower by auto
  qed
  show "validate_schema_node env j path' (Suc d) = Inr ()" if "map_of m ''items'' = Some j"
    using acc that accepted_shallower by blast
  show "validate_schema_node env j path' 0 = Inr ()"
    if k: "k \<in> {''oneOf'', ''anyOf''}" "field m k json_array = Some js" "j \<in> set js"
  proof -
    obtain i where "i < length js" "js ! i = j" using k(3) by (auto simp: in_set_conv_nth)
    then have i: "(i, j) \<in> set (List.enumerate 0 js)" by (simp add: in_set_enumerate_eq)
    obtain bs where bs: "JArray js = JArray bs" "\<And>ib. ib \<in> set (List.enumerate 0 bs)
        \<Longrightarrow> validate_schema_node env (snd ib) (index_path (path @ ''.'' @ k) (fst ib)) (Suc d) = Inr ()"
      using accepted_branches [OF assms k(1) k(2) [unfolded field_array]] by metis
    have "validate_schema_node env j (index_path (path @ ''.'' @ k) i) (Suc d) = Inr ()"
      using bs(2) [of "(i, j)"] bs(1) i by simp
    then show ?thesis using accepted_shallower by auto
  qed
qed

section \<open>Validation is conformance\<close>

lemma reports_if: "(c \<Longrightarrow> reports f P) \<Longrightarrow> (\<not> c \<Longrightarrow> reports g P) \<Longrightarrow> reports (\<lambda>issues. if c then f issues else g issues) P"
  by (cases c) simp_all

lemma reports_count:
  "reports (check_count object minimum maximum noun path n) (at_least object minimum n \<and> at_most object maximum n)"
  unfolding check_count_def using reports_comp [OF reports_require reports_require] .

lemma reports_number:
  "reports (check_number env object v path) (\<forall>x. json_f64 v = Some x \<longrightarrow> not_below object x \<and> not_above object x)"
  using reports_comp [OF reports_require reports_require] reports_id
  by (cases "json_f64 v") (auto simp: check_number_def [abs_def])

lemma reports_text:
  "reports (check_text object v path) (\<forall>s. json_str v = Some s \<longrightarrow>
     at_least object ''minLength'' (length (str_chars s)) \<and> at_most object ''maxLength'' (length (str_chars s)))"
  using reports_count reports_id by (cases "json_str v") (auto simp: check_text_def [abs_def])

lemma reports_required:
  "reports (check_required env object ms path) (required_members object \<subseteq> fst ` set ms)"
proof (cases "field object ''required'' json_array")
  case (Some js)
  have names: "set (List.map_filter json_str js) = {n. JString n \<in> set js}"
    by (auto simp: List.map_filter_def json_str_def image_iff split: json.splits)
  have "reports (fold (\<lambda>name. require (map_of ms name \<noteq> None) (property_path env path name) ''required''
      ''required property is missing'') (List.map_filter json_str js)) (list_all (\<lambda>name. map_of ms name \<noteq> None) (List.map_filter json_str js))"
    by (intro reports_fold reports_require)
  moreover have "list_all (\<lambda>name. map_of ms name \<noteq> None) (List.map_filter json_str js)
      \<longleftrightarrow> required_members object \<subseteq> fst ` set ms"
    unfolding list_all_iff names required_members_def Some by (auto simp: map_of_eq_None_iff)
  ultimately show ?thesis using Some by (simp add: check_required_def [abs_def])
qed (simp add: check_required_def [abs_def] required_members_def reports_id)

lemma reports_one_of:
  assumes "\<forall>bs. field m ''oneOf'' json_array = Some bs \<longrightarrow> (\<forall>b\<in>set bs. (val b = []) = conf b)"
  shows "reports (\<lambda>issues. case field m ''oneOf'' json_array of None \<Rightarrow> issues | Some branches \<Rightarrow>
      let found = List.map val branches
      in require (length (List.filter (\<lambda>is. is = []) found) = 1) path ''oneOf'' (one_of_message env branches found) issues)
    (case field m ''oneOf'' json_array of None \<Rightarrow> True | Some branches \<Rightarrow> length (List.filter conf branches) = 1)"
proof (cases "field m ''oneOf'' json_array")
  case (Some bs)
  have "List.filter (\<lambda>b. val b = []) bs = List.filter conf bs" using assms Some by (intro filter_cong) auto
  then show ?thesis by (simp add: Some Let_def filter_map comp_def reports_cong [OF reports_require])
qed (simp add: reports_id)

lemma reports_any_of:
  assumes "\<forall>bs. field m ''anyOf'' json_array = Some bs \<longrightarrow> (\<forall>b\<in>set bs. (val b = []) = conf b)"
  shows "reports (\<lambda>issues. case field m ''anyOf'' json_array of None \<Rightarrow> issues | Some branches \<Rightarrow>
      require (list_ex (\<lambda>branch. val branch = []) branches) path ''anyOf'' ''value matches no allowed schema'' issues)
    (case field m ''anyOf'' json_array of None \<Rightarrow> True | Some branches \<Rightarrow> list_ex conf branches)"
proof (cases "field m ''anyOf'' json_array")
  case (Some bs)
  have "list_ex (\<lambda>b. val b = []) bs = list_ex conf bs" using assms Some by (auto simp: list_ex_iff)
  then show ?thesis by (simp add: Some reports_require)
qed (simp add: reports_id)

lemma reports_members:
  assumes "\<forall>name s w path. property_schema m name = Some s \<longrightarrow> reports (val s w path) (conf s w)"
  shows "reports (\<lambda>issues. case json_object v of None \<Rightarrow> issues | Some ms \<Rightarrow>
      fold (\<lambda>entry issues. case property_schema m (fst entry) of
          Some s \<Rightarrow> val s (snd entry) (property_path env path (fst entry)) issues
        | None \<Rightarrow> require (additional_ok m) (property_path env path (fst entry)) ''additionalProperties''
            ''additional property is not allowed'' issues) ms (check_required env m ms path issues))
    ((json_object v \<noteq> None \<longrightarrow> required_members m \<subseteq> fst ` set (members v))
      \<and> list_all (\<lambda>member. case property_schema m (fst member) of
             None \<Rightarrow> additional_ok m | Some s \<Rightarrow> conf s (snd member)) (members v))"
proof (cases "json_object v")
  case (Some ms)
  have "reports (fold (\<lambda>entry issues. case property_schema m (fst entry) of
        Some s \<Rightarrow> val s (snd entry) (property_path env path (fst entry)) issues
      | None \<Rightarrow> require (additional_ok m) (property_path env path (fst entry)) ''additionalProperties''
          ''additional property is not allowed'' issues) ms)
    (list_all (\<lambda>member. case property_schema m (fst member) of
           None \<Rightarrow> additional_ok m | Some s \<Rightarrow> conf s (snd member)) ms)"
    by (rule reports_fold) (auto split: option.split intro: reports_require simp: assms)
  from reports_comp [OF reports_required this] show ?thesis by (simp add: Some members_def)
qed (simp add: reports_id members_def)

lemma reports_items:
  assumes "\<forall>s w path. map_of m ''items'' = Some s \<longrightarrow> reports (val s w path) (conf s w)"
  shows "reports (\<lambda>issues. case json_array v of None \<Rightarrow> issues | Some values \<Rightarrow>
      let counted = check_count m ''minItems'' ''maxItems'' ''items'' path (length values) issues
      in (case map_of m ''items'' of None \<Rightarrow> counted | Some s \<Rightarrow>
            fold (\<lambda>iv issues. val s (snd iv) (index_path path (fst iv)) issues) (List.enumerate 0 values) counted))
    ((json_array v \<noteq> None \<longrightarrow> at_least m ''minItems'' (length (elements v)) \<and> at_most m ''maxItems'' (length (elements v)))
      \<and> (case map_of m ''items'' of None \<Rightarrow> True | Some s \<Rightarrow> list_all (conf s) (elements v)))"
proof (cases "json_array v")
  case array: (Some vs)
  show ?thesis
  proof (cases "map_of m ''items''")
    case (Some s)
    have "reports (fold (\<lambda>iv issues. val s (snd iv) (index_path path (fst iv)) issues) (List.enumerate 0 vs))
        (list_all (\<lambda>iv. conf s (snd iv)) (List.enumerate 0 vs))"
      using assms Some by (intro reports_fold) blast
    moreover have "list_all (\<lambda>iv. conf s (snd iv)) (List.enumerate 0 vs) = list_all (conf s) vs"
      using list.pred_map [of "conf s" snd "List.enumerate 0 vs"] by (simp add: comp_def)
    ultimately show ?thesis using reports_comp [OF reports_count] array Some by (simp add: elements_def Let_def)
  qed (simp add: array elements_def Let_def reports_count)
qed (simp add: reports_id elements_def split: option.split)

lemma validate_reports:
  "validate_schema_node env schema p d = Inr () \<Longrightarrow> reports (validate_instance_node env schema v path d) (conforms schema v)"
proof (induction "size schema" arbitrary: schema p d v path rule: less_induct)
  case less
  obtain m where schema: "schema = JObject m" using accepted_object [OF less.prems] by blast
  note acc = less.prems [unfolded schema]
  have depth: "\<not> max_schema_depth < d" using acc unfolding accepted_unfold by (elim conjE) simp
  have m: "json_object schema = Some m" by (simp add: schema json_object_def)
  note sizes = inner_sizes [OF m] and parts = accepted_parts [OF acc]
  have branch: "validate_instance_node env b v ''$'' 0 [] = [] \<longleftrightarrow> conforms b v"
    if "k \<in> {''oneOf'', ''anyOf''}" "field m k json_array = Some bs" "b \<in> set bs" for k bs b
    by (rule reports_empty [OF less.hyps [OF sizes(2) [OF that(2,3)] parts(3) [OF that]]])
  have one: "\<forall>bs. field m ''oneOf'' json_array = Some bs
      \<longrightarrow> (\<forall>b\<in>set bs. (validate_instance_node env b v ''$'' 0 [] = []) = conforms b v)"
    and any: "\<forall>bs. field m ''anyOf'' json_array = Some bs
      \<longrightarrow> (\<forall>b\<in>set bs. (validate_instance_node env b v ''$'' 0 [] = []) = conforms b v)" using branch by blast+
  have member: "\<forall>name s w path. property_schema m name = Some s
      \<longrightarrow> reports (validate_instance_node env s w path (d + 1)) (conforms s w)"
    using less.hyps [OF sizes(3) parts(1)] by simp
  have item: "\<forall>s w path. map_of m ''items'' = Some s
      \<longrightarrow> reports (validate_instance_node env s w path (d + 1)) (conforms s w)"
    using less.hyps [OF sizes(1) parts(2)] by simp
  note first = reports_comp [OF reports_require [of "const_ok m v" path "''const''" "''value does not equal const''"]
      reports_require [of "enum_ok m v" path "''enum''" "''value is not one of the allowed values''"]]
  show ?case
  proof (cases "type_ok m v")
    case False
    have "reports (validate_instance_node env schema v path d) False"
      by (rule reports_below [OF reports_cong [OF reports_comp [OF first reports_push [of path "''type''" "type_message m v"]]]])
        (use False depth m in \<open>simp_all add: validate_instance_node.simps [of env schema v path d] Let_def\<close>)
    then show ?thesis using False by (simp add: conforms.simps [of schema] m plain_keywords_hold_def)
  next
    case True
    let ?empty = "\<lambda>b. validate_instance_node env b v ''$'' 0 []" and ?conf = "\<lambda>b. conforms b v"
      and ?val = "\<lambda>s w path. validate_instance_node env s w path (d + 1)"
    note s1 = reports_comp [OF first reports_one_of [of m ?empty ?conf path env, OF one]]
    note s2 = reports_comp [OF s1 reports_any_of [of m ?empty ?conf path, OF any]]
    note s3 = reports_comp [OF s2 reports_members [of m ?val conforms env path v, OF member]]
    note s4 = reports_comp [OF s3 reports_items [of m ?val conforms path v, OF item]]
    note s5 = reports_comp [OF reports_comp [OF s4 reports_text [of m v path]] reports_number [of env m v path]]
    show ?thesis
      apply (rule reports_below [OF reports_cong [OF s5]])
      subgoal using True unfolding conforms.simps [of schema] m option.case plain_keywords_hold_def by blast
      subgoal using True depth m by (simp add: validate_instance_node.simps [of env schema v path d] Let_def)
      subgoal by (simp add: validate_instance_node.simps [of env schema v path d])
      done
  qed
qed

text \<open>C19: If a schema is accepted, a value has no issues under it exactly if it conforms to it: the limit on the depth
  is never reached, neither the cap on the number of issues nor the end of a check at the first wrong type hides the
  only issue, and a branch of \<open>oneOf\<close> or \<open>anyOf\<close> is judged as on its own. At most sixteen issues are reported.\<close>

theorem schema_validation_is_conformance:
  assumes "validate_schema_definition env schema = Inr ()"
  shows "(validate_instance env schema v = [] \<longleftrightarrow> conforms schema v) \<and> length (validate_instance env schema v) \<le> 16"
proof -
  have "reports (validate_instance_node env schema v ''$'' 0) (conforms schema v)"
    using assms by (auto simp: validate_schema_definition_def intro: validate_reports)
  then show ?thesis
    using reports_empty reports_length by (fastforce simp: validate_instance_def max_validation_issues_def)
qed

definition names_schema :: json where
  "names_schema = JObject [(''items'', JObject [(''minLength'', JInt 1), (''type'', JString ''string'')]), (''type'', JString ''array'')]"

theorem schema_validation_is_conformance_witness:
  "\<forall>env. validate_instance env names_schema (JArray [JString ''a'']) = []
    \<and> validate_instance env names_schema (JArray [JInt 1]) \<noteq> []"
proof
  fix env
  have "validate_schema_definition env names_schema = Inr ()"
    by (simp add: validate_schema_definition_def names_schema_def accepted_unfold check_keywords_def schema_keywords_def
        check_type_def schema_types_def check_required_names_def check_additional_def check_enum_def for_keyword_def json_str_def
        validate_non_negative_integer_pair_def validate_number_pair_def optional_usize_def optional_number_def json_u64_def
        max_schema_depth_def)
  note valid = schema_validation_is_conformance [OF this]
  have "conforms names_schema (JArray [JString ''a''])" "\<not> conforms names_schema (JArray [JInt 1])"
    by (simp_all add: names_schema_def conforms.simps json_object_def json_array_def json_str_def plain_keywords_hold_def const_ok_def
        enum_ok_def type_ok_def field_def elements_def members_def at_least_def at_most_def json_u64_def instance_has_type_def
        json_f64_def)
  then show "validate_instance env names_schema (JArray [JString ''a'']) = []
    \<and> validate_instance env names_schema (JArray [JInt 1]) \<noteq> []" using valid by blast
qed

end
