(* ===== verification/Model_Correct.thy ===== *)
theory Model_Correct
  imports Model_Infer Schema_Correct Json_Correct
begin

text \<open>Structured answers: what \<open>model_infer\<close> returns conforms to the schema, and it returns the first answer that
  does within the allowed attempts.\<close>

section \<open>The result of the loop\<close>

definition result_of :: "json \<Rightarrow> nat \<Rightarrow> nat \<Rightarrow> nu_value \<Rightarrow> bool" where
  "result_of j attempts failed v \<longleftrightarrow> (\<exists>r es. v = VRecord r \<and> record_get r ''value'' = Some (json_to_nu_value j)
     \<and> record_get r ''validation_attempts'' = Some (json_to_nu_value (JInt (int attempts)))
     \<and> record_get r ''errors'' = Some (VList es) \<and> length es = failed)"

lemma json_record_get:
  assumes "json_to_nu_value (json_record fs) = VRecord r" and "distinct (List.map fst fs)" and "(k, j) \<in> set fs"
  shows "record_get r k = Some (json_to_nu_value j)"
proof -
  have r: "r = List.map (\<lambda>(k, j). (k, json_to_nu_value j)) (record_to_json fs)" using assms(1) by (simp add: json_record_def)
  have "map_of (record_to_json fs) k = map_of (rev fs) k"
    using fold_map_insert(3) [of fs "[]" k] by (simp add: record_to_json_def key_ordered_def split: option.split)
  also have "\<dots> = Some j" using assms(2,3) by (simp add: distinct_rev rev_map [symmetric])
  finally show ?thesis by (simp add: r record_get_def map_of_map)
qed

lemma infer_result_of:
  "result_of j attempts (length failures) (json_to_nu_value (infer_result env j response attempts failures usage))"
proof -
  obtain r where r: "json_to_nu_value (infer_result env j response attempts failures usage) = VRecord r"
    by (simp add: infer_result_def json_record_def)
  note get = json_record_get [OF r [unfolded infer_result_def]]
  show ?thesis
    unfolding result_of_def r
    using get [of "''value''"] get [of "''validation_attempts''"] get [of "''errors''"] by auto
qed

lemma judge_Some: "judge_answer env schema content = (Some v, issues)
  \<Longrightarrow> md_parse env content = Inr v \<and> validate_instance (rq_schema (md_request env)) schema v = []"
  by (auto simp: judge_answer_def Let_def split: sum.splits if_splits)

definition repair_text :: "'s model_env \<Rightarrow> string \<Rightarrow> nat \<Rightarrow> validation_issue list \<Rightarrow> string" where
  "repair_text env rp attempt issues = model_infer_repair_message (md_request env) rp attempt (List.map issue_json issues)"

text \<open>One round of the loop, when the model answers with some content.\<close>

lemma infer_loop_round:
  assumes "execute_model_request env request hooks w = (Inr response, w1)"
    and "model_response_content (md_request env) response = Inr content"
    and "judge_answer env schema content = (verdict, issues)"
  shows "infer_loop env schema hooks rp remaining attempt request failures usage w =
    (let usage' = add_response (md_request env) response usage; repair = repair_text env rp (attempt + 1) issues;
         failures' = failures @ [failure_json (attempt + 1) (List.map issue_json issues) content repair]
     in case verdict of
       Some j \<Rightarrow> (Inr (json_to_nu_value (infer_result env j response (attempt + 1) failures usage')), w1)
     | None \<Rightarrow> (case remaining of
         0 \<Rightarrow> (Inl (failed_inference env (attempt + 1) failures' usage'), w1)
       | Suc n \<Rightarrow> infer_loop env schema hooks rp n (attempt + 1) (with_repair content repair request) failures' usage' w1))"
  using assms
  by (auto simp: infer_loop.simps [of env schema hooks rp remaining attempt request failures usage] st_then_eq Let_def repair_text_def
      split: option.split nat.split)

text \<open>A request that got a response: the response is what the gateway gave, with the name of the transition.\<close>

definition answered :: "'s model_env \<Rightarrow> transition_hooks \<Rightarrow> 's model_world \<Rightarrow> nu_value \<Rightarrow> 's model_world \<Rightarrow> bool" where
  "answered env hooks w response w' \<longleftrightarrow> (\<exists>request. execute_model_request env request hooks w = (Inr response, w'))
     \<and> (\<exists>request s s' r t. md_model_call env request s = (Inr r, s') \<and> attach_transition_id r t ''model_call'' = Inr response)"

lemma request_answered:
  assumes "execute_model_request env request hooks w = (Inr response, w')"
  shows "answered env hooks w response w'"
proof -
  have "\<exists>request s s' r t. md_model_call env request s = (Inr r, s') \<and> attach_transition_id r t ''model_call'' = Inr response"
    using assms
    by (auto simp: execute_model_request_def st_then_eq st_result_def gateway_call_def split: sum.splits prod.splits) metis+
  then show ?thesis using assms by (auto simp: answered_def)
qed

text \<open>The worlds after a number of answered requests.\<close>

inductive after_answers :: "'s model_env \<Rightarrow> transition_hooks \<Rightarrow> 's model_world \<Rightarrow> nat \<Rightarrow> 's model_world \<Rightarrow> bool"
  for env hooks w where
  start: "after_answers env hooks w 0 w"
| answer: "after_answers env hooks w n w1 \<Longrightarrow> answered env hooks w1 response w2 \<Longrightarrow> after_answers env hooks w (Suc n) w2"

text \<open>The value stands in the content of the answer that came as number \<open>n\<close> from \<open>w\<close> on and is the last one.\<close>

definition in_answer :: "'s model_env \<Rightarrow> transition_hooks \<Rightarrow> 's model_world \<Rightarrow> nat \<Rightarrow> 's model_world \<Rightarrow> json \<Rightarrow> nu_value \<Rightarrow> bool" where
  "in_answer env hooks w n w' j v \<longleftrightarrow> (\<exists>w1 response content fields. after_answers env hooks w (n - 1) w1
     \<and> answered env hooks w1 response w' \<and> model_response_content (md_request env) response = Inr content
     \<and> md_parse env content = Inr j
     \<and> v = VRecord fields \<and> record_get fields ''response'' = Some (json_to_nu_value (json_of (md_request env) response)))"

lemma infer_result_response:
  "\<exists>fields. json_to_nu_value (infer_result env j response attempts failures usage) = VRecord fields
    \<and> record_get fields ''response'' = Some (json_to_nu_value (json_of (md_request env) response))"
proof -
  obtain r where r: "json_to_nu_value (infer_result env j response attempts failures usage) = VRecord r"
    by (simp add: infer_result_def json_record_def)
  show ?thesis using json_record_get [OF r [unfolded infer_result_def], of "''response''"] r by auto
qed

lemma infer_loop_result:
  "infer_loop env schema hooks rp remaining attempt request failures usage w = (Inr v, w') \<Longrightarrow> length failures = attempt
   \<Longrightarrow> after_answers env hooks w0 attempt w
   \<Longrightarrow> \<exists>j n. result_of j n (n - 1) v \<and> attempt < n \<and> n \<le> Suc (attempt + remaining) \<and> in_answer env hooks w0 n w' j v
        \<and> validate_instance (rq_schema (md_request env)) schema j = []"
proof (induction env schema hooks rp remaining attempt request failures usage arbitrary: w rule: infer_loop.induct)
  case (1 env schema hooks rp remaining attempt request failures usage)
  obtain response w1 where run: "execute_model_request env request hooks w = (Inr response, w1)"
    using "1.prems"(1) by (auto simp: infer_loop.simps [of env] st_then_eq split: sum.splits prod.splits)
  obtain content where content: "model_response_content (md_request env) response = Inr content"
    using "1.prems"(1) run by (auto simp: infer_loop.simps [of env] st_then_eq Let_def split: sum.splits prod.splits)
  obtain verdict issues where judged: "judge_answer env schema content = (verdict, issues)" by fastforce
  note answered = request_answered [OF run]
  note round = "1.prems"(1) [unfolded infer_loop_round [OF run content judged], unfolded Let_def]
  show ?case
  proof (cases verdict)
    case (Some j)
    then have v: "v = json_to_nu_value (infer_result env j response (Suc attempt) failures (add_response (md_request env) response usage))"
      and w': "w' = w1" using round by simp_all
    have "in_answer env hooks w0 (Suc attempt) w' j v"
      using "1.prems"(3) answered content judged Some judge_Some [of env schema content j issues]
        infer_result_response [of env j response "Suc attempt" failures]
      unfolding in_answer_def v w' by fastforce
    then show ?thesis
      using "1.prems"(2) judged Some judge_Some [of env schema content j issues]
        infer_result_of [of j "Suc attempt" failures env response] v
      by (intro exI [of _ j] exI [of _ "Suc attempt"]) auto
  next
    case None
    then obtain n where n: "remaining = Suc n" using round by (cases remaining) auto
    note next_world = after_answers.answer [OF "1.prems"(3) answered]
    show ?thesis
      using "1.IH" [OF refl judged [symmetric] _ refl refl refl n] round None n "1.prems"(2) next_world
      by (fastforce simp: repair_text_def)
  qed
qed

lemma infer_schemaD:
  "infer_schema env sv = Inr (schema, bytes) \<Longrightarrow> schema = json_of (md_request env) sv
    \<and> validate_schema_definition (rq_schema (md_request env)) schema = Inr ()"
  by (auto simp: infer_schema_def Let_def split: nu_value.splits if_splits sum.splits)

lemma infer_options_retries: "infer_options_of env seen nvs opts = Inr opts' \<Longrightarrow> io_retries opts \<le> 4 \<Longrightarrow> io_retries opts' \<le> 4"
proof (induction nvs arbitrary: seen opts)
  case (Cons nv nvs)
  obtain name v where nv: "nv = (name, v)" by (cases nv)
  then obtain mid where mid: "set_option env name v opts = Inr mid" "infer_options_of env (insert name seen) nvs mid = Inr opts'"
    using Cons.prems(1) by (auto simp: and_then_eq_Inr split: if_splits)
  have "io_retries mid \<le> 4"
    using mid(1) Cons.prems(2)
    by (auto simp: set_option_def and_then_eq_Inr retries_option_def max_retries_def split: if_splits nu_value.splits)
  then show ?case using Cons.IH mid(2) by blast
qed simp

section \<open>The first answer that conforms\<close>

text \<open>A model that gives prepared answers, one for each request.\<close>

definition prepared :: "'s model_env \<Rightarrow> ('s \<Rightarrow> string list) \<Rightarrow> bool" where
  "prepared env answers \<longleftrightarrow> (\<forall>request s c cs. answers s = c # cs \<longrightarrow>
     (\<exists>s'. md_model_call env request s = (Inr (VRecord [(''content'', VString c)]), s') \<and> answers s' = cs))"

definition answer_conforms :: "'s model_env \<Rightarrow> json \<Rightarrow> string \<Rightarrow> bool" where
  "answer_conforms env schema c = (case md_parse env c of Inl _ \<Rightarrow> False | Inr j \<Rightarrow> conforms schema j)"

lemma execute_prepared:
  assumes "prepared env answers" and "answers (mw_rest w) = c # cs"
  shows "\<exists>w' t. execute_model_request env request no_hooks w
    = (Inr (VRecord [(''content'', VString c), (''transition_id'', VString t)]), w') \<and> answers (mw_rest w') = cs"
proof -
  obtain s' where "md_model_call env (JObject request) (mw_rest w) = (Inr (VRecord [(''content'', VString c)]), s')" "answers s' = cs"
    using assms unfolding prepared_def by blast
  then show ?thesis
    by (simp add: execute_model_request_def st_then_eq next_transition_id_def Let_def record_transition_event_def run_pre_hook_def
        no_hooks_def st_result_def gateway_call_def attach_transition_id_def run_post_hook_def)
qed

lemma judge_answer_iff:
  assumes "validate_schema_definition (rq_schema (md_request env)) schema = Inr ()"
  shows "fst (judge_answer env schema c) = (if answer_conforms env schema c then Some (projr (md_parse env c)) else None)"
  using schema_validation_is_conformance [OF assms]
  by (auto simp: judge_answer_def answer_conforms_def Let_def split: sum.split)

definition refused_first :: "'s model_env \<Rightarrow> json \<Rightarrow> string list \<Rightarrow> nat" where
  "refused_first env schema cs = length (takeWhile (\<lambda>c. \<not> answer_conforms env schema c) cs)"

lemma response_content [simp]:
  "model_response_content env (VRecord [(''content'', VString c), (''transition_id'', VString t)]) = Inr c"
  by (simp add: model_response_content_def record_get_def value_to_string_def map_error_def)

lemma infer_loop_prepared:
  assumes "prepared env answers" and valid: "validate_schema_definition (rq_schema (md_request env)) schema = Inr ()"
  shows "answers (mw_rest w) = cs \<Longrightarrow> remaining < length cs \<Longrightarrow> length failures = attempt
    \<Longrightarrow> \<exists>r w'. infer_loop env schema no_hooks rp remaining attempt request failures usage w = (r, w')
      \<and> answers (mw_rest w') = drop (Suc (min (refused_first env schema cs) remaining)) cs
      \<and> (if refused_first env schema cs \<le> remaining
         then \<exists>v. r = Inr v \<and> result_of (projr (md_parse env (cs ! refused_first env schema cs)))
           (Suc (attempt + refused_first env schema cs)) (attempt + refused_first env schema cs) v
         else \<not> is_ok r)"
proof (induction remaining arbitrary: w cs attempt request failures usage)
  case 0
  obtain c cs' where cs: "cs = c # cs'" using 0 by (cases cs) auto
  obtain w1 t where run: "execute_model_request env request no_hooks w
      = (Inr (VRecord [(''content'', VString c), (''transition_id'', VString t)]), w1)" and rest: "answers (mw_rest w1) = cs'"
    using execute_prepared [OF assms(1)] 0 cs by metis
  obtain verdict issues where judged: "judge_answer env schema c = (verdict, issues)" by fastforce
  note round = infer_loop_round [OF run response_content judged]
  note verdict = judge_answer_iff [OF valid, of c, unfolded judged fst_conv]
  show ?case
  proof (cases "answer_conforms env schema c")
    case True
    then show ?thesis
      using verdict rest infer_result_of [of "projr (md_parse env c)" "Suc attempt" failures env] 0
      by (simp add: round cs refused_first_def Let_def)
  next
    case False
    then show ?thesis using verdict rest 0 by (simp add: round cs refused_first_def Let_def)
  qed
next
  case (Suc n)
  obtain c cs' where cs: "cs = c # cs'" using Suc.prems by (cases cs) auto
  obtain w1 t where run: "execute_model_request env request no_hooks w
      = (Inr (VRecord [(''content'', VString c), (''transition_id'', VString t)]), w1)" and rest: "answers (mw_rest w1) = cs'"
    using execute_prepared [OF assms(1)] Suc.prems cs by metis
  obtain verdict issues where judged: "judge_answer env schema c = (verdict, issues)" by fastforce
  note round = infer_loop_round [OF run response_content judged]
  note verdict = judge_answer_iff [OF valid, of c, unfolded judged fst_conv]
  show ?case
  proof (cases "answer_conforms env schema c")
    case True
    then show ?thesis
      using verdict rest infer_result_of [of "projr (md_parse env c)" "Suc attempt" failures env] Suc.prems
      by (simp add: round cs refused_first_def Let_def)
  next
    case False
    let ?repair = "repair_text env rp (Suc attempt) issues"
    note IH = Suc.IH [OF rest, of "failures @ [failure_json (Suc attempt) (List.map issue_json issues) c ?repair]" "Suc attempt"
      "with_repair c ?repair request" "add_response (md_request env) (VRecord [(''content'', VString c), (''transition_id'', VString t)]) usage"]
    have refused: "refused_first env schema cs = Suc (refused_first env schema cs')" using False by (simp add: cs refused_first_def)
    show ?thesis
      using False verdict IH Suc.prems by (auto simp: round cs Let_def refused [unfolded cs])
  qed
qed

text \<open>An environment whose model reads its answers from a list, where only one text is JSON.\<close>

definition scripted_env :: "string list model_env" where
  "scripted_env = \<lparr>
    md_request = \<lparr> rq_schema = \<lparr> se_json_text = (\<lambda>_. []), se_float_text = (\<lambda>_. []), se_debug_text = id \<rparr>,
      rq_display = (\<lambda>_. []), rq_other = JString \<rparr>,
    md_model_call = (\<lambda>_ cs. (case cs of [] \<Rightarrow> (Inl (stone_error ''gateway'' [] []), [])
      | c # cs' \<Rightarrow> (Inr (VRecord [(''content'', VString c)]), cs'))),
    md_parse = (\<lambda>c. if c = ''null'' then Inr JNull else Inl ''not JSON''),
    md_run_handler = (\<lambda>_ _ w. (Inr (RNu VNothing), w)), md_eval = (\<lambda>_ w. (Inr (RNu VNothing), w)),
    md_is_function = (\<lambda>_ _. False), md_materialize = (\<lambda>_. Inr VNothing), md_owned_hooks = (\<lambda>_. no_hooks),
    md_error_record = (\<lambda>_. VNothing), md_type_name = (\<lambda>_. []), md_controller_run = None \<rparr>"

definition scripted_world :: "string list \<Rightarrow> string list model_world" where
  "scripted_world cs = \<lparr> mw_next_transition = 0, mw_events = [], mw_hook_active = False, mw_rest = cs \<rparr>"

definition hello :: nu_value where
  "hello = VList [VRecord [(''role'', VString ''user''), (''content'', VString ''hi'')]]"

definition one_retry :: infer_options where
  "one_retry = no_options\<lparr> io_retries := 1 \<rparr>"

lemma scripted_steps:
  "prepared scripted_env id"
  "infer_schema scripted_env (VRecord []) = Inr (JObject [], [])"
  "infer_options_of scripted_env {} [(''retries'', VInt 1)] no_options = Inr one_retry"
  "\<exists>request. model_request_from_values (md_request scripted_env) hello (io_model_options one_retry) ''model_infer'' False = Inr request"
proof -
  show "prepared scripted_env id" by (simp add: prepared_def scripted_env_def)
  have "validate_schema_node e (JObject []) ''$'' 0 = Inr ()" for e
    by (simp add: accepted_unfold check_keywords_def check_type_def check_required_names_def check_additional_def check_enum_def
        for_keyword_def validate_non_negative_integer_pair_def validate_number_pair_def optional_usize_def optional_number_def)
  then show "infer_schema scripted_env (VRecord []) = Inr (JObject [], [])"
    by (simp add: infer_schema_def scripted_env_def json_of_def record_to_json_def validate_schema_definition_def
        max_schema_bytes_def Let_def)
  show "infer_options_of scripted_env {} [(''retries'', VInt 1)] no_options = Inr one_retry"
    by (simp add: set_option_def retries_option_def max_retries_def one_retry_def)
  show "\<exists>request. model_request_from_values (md_request scripted_env) hello (io_model_options one_retry) ''model_infer'' False = Inr request"
    by (simp add: model_request_from_values_def model_message_values_for_def hello_def message_value_def record_get_def text_value_def
        map_error_def value_to_string_def message_roles_def one_retry_def no_options_def Let_def)
qed

lemma scripted_conforms: "answer_conforms scripted_env (JObject []) c \<longleftrightarrow> c = ''null''"
  by (simp add: answer_conforms_def scripted_env_def conforms.simps json_object_def plain_keywords_hold_def const_ok_def enum_ok_def
      type_ok_def field_def members_def elements_def json_array_def json_str_def json_f64_def)

text \<open>C21: If \<open>model_infer\<close>, on evaluated arguments, returns, its value is what the last answer of the model says: the content of that response of
  the gateway parses to the value, and the result holds the response. The value conforms to the schema that was given.
  The result says how many attempts were made, which is the number of answered requests, at least one and at most one
  more than the retries that were allowed (at most four), and it lists one failure for each attempt before the last.\<close>

theorem structured_answer_conforms:
  assumes "model_infer_values env messages sv named hooks w = (Inr v, w')"
  shows "\<exists>j n opts. result_of j n (n - 1) v \<and> in_answer env hooks w n w' j v \<and> conforms (json_of (md_request env) sv) j
    \<and> infer_options_of env {} named no_options = Inr opts \<and> 1 \<le> n \<and> n \<le> Suc (io_retries opts) \<and> io_retries opts \<le> 4"
proof -
  obtain schema bytes opts request where steps: "infer_schema env sv = Inr (schema, bytes)"
    "infer_options_of env {} named no_options = Inr opts"
    "model_request_from_values (md_request env) messages (io_model_options opts) ''model_infer'' False = Inr request"
    "infer_loop env schema hooks (io_repair_prompt opts) (io_retries opts) 0
       (with_instruction (model_infer_schema_instruction bytes (io_schema_prompt opts)) request) [] no_usage w = (Inr v, w')"
    using assms by (auto simp: model_infer_values_def st_then_eq split: sum.splits)
  note schema = infer_schemaD [OF steps(1)]
  obtain j n where "result_of j n (n - 1) v" "0 < n" "n \<le> Suc (io_retries opts)" "in_answer env hooks w n w' j v"
    "validate_instance (rq_schema (md_request env)) schema j = []"
    using infer_loop_result [OF steps(4) _ after_answers.start] by auto
  moreover have "io_retries opts \<le> 4" using infer_options_retries [OF steps(2)] by (simp add: no_options_def)
  ultimately show ?thesis using schema steps(2) schema_validation_is_conformance by (metis Suc_leI One_nat_def)
qed

theorem structured_answer_conforms_witness:
  "\<exists>v w j n. model_infer_values scripted_env hello (VRecord []) [(''retries'', VInt 1)] no_hooks (scripted_world [''x'', ''null'']) = (Inr v, w)
    \<and> result_of j n (n - 1) v \<and> n \<le> 2"
proof -
  obtain request where request: "model_request_from_values (md_request scripted_env) hello (io_model_options one_retry) ''model_infer'' False
      = Inr request" using scripted_steps(4) by blast
  have "\<exists>v w. model_infer_values scripted_env hello (VRecord []) [(''retries'', VInt 1)] no_hooks (scripted_world [''x'', ''null'']) = (Inr v, w)"
    using infer_loop_prepared [OF scripted_steps(1) infer_schemaD [OF scripted_steps(2), THEN conjunct2],
        of "scripted_world [''x'', ''null'']" "[''x'', ''null'']" 1 "[]" 0 "io_repair_prompt one_retry"
        "with_instruction (model_infer_schema_instruction [] (io_schema_prompt one_retry)) request" no_usage]
    by (auto simp: model_infer_values_def scripted_steps(2,3) request scripted_world_def refused_first_def scripted_conforms
        one_retry_def [THEN arg_cong, of io_retries] simp del: infer_options_of.simps)
  then obtain v w where run: "model_infer_values scripted_env hello (VRecord []) [(''retries'', VInt 1)] no_hooks
      (scripted_world [''x'', ''null'']) = (Inr v, w)" by blast
  from structured_answer_conforms [OF run] run scripted_steps(3) show ?thesis by (fastforce simp: one_retry_def)
qed

text \<open>C20: If the model gives one answer after the other, without hooks, \<open>model_infer\<close> returns the first answer that
  conforms to the schema if it is among the first retries plus one, and has then asked exactly once for it and once for
  each answer before; otherwise it fails after it has asked retries plus one times.\<close>

theorem first_conforming_answer_wins:
  assumes "prepared env answers" and "answers (mw_rest w) = cs" and "io_retries opts < length cs"
    and "infer_schema env sv = Inr (schema, bytes)" and "infer_options_of env {} named no_options = Inr opts"
    and "model_request_from_values (md_request env) messages (io_model_options opts) ''model_infer'' False = Inr request"
  shows "let k = length (takeWhile (\<lambda>c. \<not> answer_conforms env schema c) cs);
             (r, w') = model_infer_values env messages sv named no_hooks w
         in answers (mw_rest w') = drop (Suc (min k (io_retries opts))) cs
          \<and> (if k \<le> io_retries opts then \<exists>v. r = Inr v \<and> result_of (projr (md_parse env (cs ! k))) (Suc k) k v else \<not> is_ok r)"
proof -
  note valid = infer_schemaD [OF assms(4), THEN conjunct2]
  show ?thesis
    using infer_loop_prepared [OF assms(1) valid assms(2,3), of "[]" 0 "io_repair_prompt opts"
        "with_instruction (model_infer_schema_instruction bytes (io_schema_prompt opts)) request" no_usage]
    by (auto simp: model_infer_values_def assms(4-6) Let_def refused_first_def split: prod.split)
qed

theorem first_conforming_answer_wins_witness:
  "\<exists>r w'. model_infer_values scripted_env hello (VRecord []) [(''retries'', VInt 1)] no_hooks
      (scripted_world [''x'', ''null'', ''null'']) = (r, w') \<and> is_ok r \<and> mw_rest w' = [''null'']"
proof -
  obtain request where request: "model_request_from_values (md_request scripted_env) hello (io_model_options one_retry) ''model_infer'' False
      = Inr request" using scripted_steps(4) by blast
  show ?thesis
    using first_conforming_answer_wins [OF scripted_steps(1) _ _ scripted_steps(2,3) request,
        of "scripted_world [''x'', ''null'', ''null'']" "[''x'', ''null'', ''null'']"]
    by (auto simp: scripted_world_def scripted_conforms one_retry_def Let_def split: prod.splits)
qed

end
