(* ===== verification/Spec2Isabelle.thy ===== *)
theory Spec2Isabelle
  imports Loop_Correct Fused_Correct Fused_If Code_Safety Jsonl_Correct Numeric_Correct
    Collections_Correct State_Correct Json_Scan_Correct Jsonl_Vm_Correct Jsonl_Native_Correct Json_Correct
    Asset_Image_Correct Correction_Correct Admission_Correct Attempt_Select Attempt_Endings
    Attempt_Calls_Correct Sort_Correct Text_Correct Context_Correct Context_Calls Model_Correct
begin

text \<open>
  Waymark runs agent programs written in Stone, a small language with the syntax of Python. This
  development models the interpreter of Stone in \<open>crates/waymark-runtime/src\<close>: its values, its
  evaluator, and the hot loop compiler \<open>stone_vm\<close> that replaces a \<open>for\<close> loop by code for a register
  machine. The question the code raises is whether the fast path computes what the evaluator
  computes; the main theorems answer it operation by operation, with the exact conditions.

  \<^bold>\<open>The parts and how they interact.\<close> The evaluator (\<open>stone_eval.rs\<close>) runs statements on a state that
  holds a stack of scopes. At a \<open>for\<close> statement it asks the lowering (\<open>stone_vm/lower.rs\<close>,
  \<open>stone_vm/jsonl_match.rs\<close>) for a plan of the loop body. A plan is compiled to a loop function
  (\<open>stone_vm/types.rs\<close>), optimised (\<open>stone_vm/optimize.rs\<close>) and run on the machine
  (\<open>stone_vm/interp.rs\<close>) by the executor (\<open>stone_vm/runtime.rs\<close>), which loads locals from the scopes
  and writes results back. If the machine misses, the evaluator runs the loop. A loop that aggregates
  JSON rows is compiled to block code instead; its rows are scanned lazily (\<open>stone_json_view.rs\<close>) and
  run through the block code machine or through a native body (\<open>stone_vm/jsonl_runtime.rs\<close>). Values,
  arithmetic and collections (\<open>stone_builtins.rs\<close>) are shared by both sides.

  A program may also start other programs as attempts, through a remote gateway. It groups them in scopes,
  waits for them, keeps the best of them in a selector and accepts or discards their results; what it
  leaves open is closed when the evaluation ends (\<open>stone_eval.rs\<close>, \<open>stone_attempt_scope.rs\<close>,
  \<open>stone_attempt_best.rs\<close>, \<open>stone_attempt_value.rs\<close>). It may keep notes in a bounded memory
  (\<open>stone_context.rs\<close>), and ask a language model for a value that conforms to a JSON Schema: the answer is validated
  (\<open>stone_json_schema.rs\<close>) and the model is asked again, a bounded number of times, until it conforms.

  \<^bold>\<open>Theories of the model.\<close>
  \<^item> \<open>Prelude\<close>: results as sums, options, 64-bit integers with checked operations, vectors, maps.
  \<^item> \<open>F64\<close>: binary64 numbers as NaN, infinities and signed dyadic numbers, rounded to nearest even.
  \<^item> \<open>Strings\<close>: the functions of Rust strings the code uses, on UTF-8 bytes; integer and float parsing.
  \<^item> \<open>Ast\<close>: programs (\<open>stone_ast.rs\<close>). \<open>Value\<close>: plain values and errors; an error keeps its kind, its
    message with a placeholder for each formatted part, and the parts.
  \<^item> \<open>Numeric\<close>, \<open>Collections\<close>: arithmetic, comparison, indexing and list functions (\<open>stone_builtins.rs\<close>).
    \<open>Text_Methods\<close>: the methods of strings and records. \<open>Format_Sort\<close>: \<open>format\<close>, \<open>unique\<close>, \<open>where\<close> and sorting.
  \<^item> \<open>State\<close>: runtime values, scopes, diagnostics (\<open>EvalState\<close>, \<open>RuntimeValue\<close>); the locale
    \<open>mutable_store\<close> states the contract of the scopes and is interpreted on them.
  \<^item> \<open>Loop_Types\<close>, \<open>Lower_Match\<close>, \<open>Expr_Lower\<close>, \<open>Lower\<close>, \<open>Jsonl_Match\<close>, \<open>Jsonl_Lower\<close>, \<open>Optimize\<close>: plans,
    recognisers, compilers and the optimizer.
  \<^item> \<open>Interp\<close>, \<open>Vm_Runtime\<close>: the register machine and the executor.
  \<^item> \<open>Json\<close>: JSON values and the conversions of \<open>json.rs\<close>. \<open>Json_Scan\<close>: the scanner of byte ranges, views
    and rows (\<open>stone_json_view.rs\<close>).
  \<^item> \<open>Jsonl_Vm\<close>: the fields of a row, the native body and the block code machine. \<open>Jsonl_Native\<close>: loading
    of accumulators, guards, snapshots and the loops over rows (\<open>stone_vm/jsonl_runtime.rs\<close>), counted by
    \<open>Hot_Diagnostics\<close>.
  \<^item> \<open>Eval\<close>, \<open>Eval_Stmt\<close>: the evaluator of expressions and statements.
  \<^item> \<open>Admission\<close>: the check of a program before it runs (\<open>stone_admission.rs\<close>). \<open>Json_Access\<close>,
    \<open>Correction\<close>: suggestions for a program that failed, and their application to its source
    (\<open>stone_correction.rs\<close>).
  \<^item> \<open>Attempt_Values\<close>, \<open>Attempt_Best\<close>: outcomes, scopes, selectors, retained failures and frontiers.
    \<open>Attempts\<close>, \<open>Attempt_Cleanup\<close>: the operations on them, with the state of the evaluation as the record
    \<open>attempt_world\<close> (the vectors of \<open>EvalState\<close> and the stores behind the shared pointers). \<open>Attempt_Calls\<close>: the
    calls of Stone that evaluate and check the arguments of these operations (\<open>stone_eval.rs\<close>).
  \<^item> \<open>Context_State\<close>: the memory of a session, \<open>Context_Calls\<close>: the calls \<open>context_write\<close>, \<open>context_read\<close> and
    \<open>context_project\<close>. \<open>Steps\<close>: steps on a state that may fail.
  \<^item> \<open>Json_Schema\<close>: the check of a schema and the validation of an instance. \<open>Model_Requests\<close>: the request to a model.
    \<open>Model_Infer\<close>: the calls \<open>model_call\<close> and \<open>model_infer\<close> with the hooks around a request (\<open>stone_eval.rs\<close>).
  \<^item> \<open>Utf8\<close>, \<open>Asset_Image\<close>: the image format of packaged files (\<open>crates/asset-image/src/lib.rs\<close>).

  \<^bold>\<open>Theories of the results.\<close>
  \<^item> \<open>Expr_Correct\<close>, \<open>Loop_Correct\<close>: a compiled integer body computes what the evaluator computes
    (C1), by a simulation between register files and scopes.
    \<open>Code_Safety\<close>: such code never fails internally (C15).
  \<^item> \<open>Fused_Correct\<close>: sums and appends (C3, C13), the optimizer
    (C2), the loop target, and the programs on
    which machine and evaluator differ.
  \<^item> \<open>Fused_If\<close>: the fused counter update against the plain conditional
    (C14), and a program on which they differ.
  \<^item> \<open>Jsonl_Correct\<close>: the round trip of aggregation plans through block code
    (C16, C17).
  \<^item> \<open>Numeric_Correct\<close>, \<open>Collections_Correct\<close>: functional behaviour and bounds of the builtins
    (C30, C31), slices and ranges.
  \<^item> \<open>F64_Order\<close>: the order of floats. \<open>Sort_Correct\<close>: sorting returns the one stable order of its keys
    (C26); the locale \<open>preorder_relation\<close> is interpreted on the orders of integer, float and text keys.
    \<open>Text_Correct\<close>: splitting, searching and formatting
    (C27, C29, C28).
  \<^item> \<open>State_Correct\<close>: the scope stack and the iteration limit
    (C32, C33).
  \<^item> \<open>Json_Scan_Correct\<close>: the scanner on well-formed and on arbitrary bytes
    (C34), and the rows of a text.
  \<^item> \<open>Jsonl_Vm_Correct\<close>: the block code machine simulates the native body (C35).
    \<open>Jsonl_Native_Correct\<close>: the loops over rows (C36, C37) and what the
    totals mean (C38).
  \<^item> \<open>Json_Correct\<close>: the conversion between Stone values and JSON (C39).
  \<^item> \<open>Admission_Correct\<close>: admission decides a declarative judgement on the statements of a program
    (C8), which keeps its verdict when a session binds more names.
  \<^item> \<open>Correction_Correct\<close>: the edit distance is the cost of the cheapest alignment (C9), the ranking is
    sorted and complete, a suggestion applies to its source (C10).
  \<^item> \<open>Asset_Image_Correct\<close>: an encoded image decodes to itself (C4), the table of a decoded image
    is sound for arbitrary bytes (C40), look-up by path is exact.
  \<^item> \<open>Attempt_Correct\<close>: the invariant of the worlds an evaluation reaches (C12).
    \<open>Attempt_Settled\<close>: what is settled stays settled (C18). \<open>Attempt_Select\<close>: a selector
    holds the first optimum of its candidates (C5). \<open>Attempt_Endings\<close>: the cleanup fails exactly if
    it left something open (C7) and settles everything if the gateway answers
    (C6). \<open>Attempt_Calls_Correct\<close>: the calls keep the invariant and return references that
    exist (C11).
  \<^item> \<open>Schema_Correct\<close>: a schema that is accepted judges an instance as a declarative definition of conformance does
    (C19). \<open>Model_Correct\<close>: a structured answer conforms to its schema
    (C21) and is the first one that does (C20).
  \<^item> \<open>Context_Correct\<close>: the limits of the memory hold in every state it reaches (C22); when a
    write is refused (C24), what a read finds (C25), and the budget of a
    projection (C23).

  \<^bold>\<open>Bounds.\<close> A \<open>while\<close> loop has fuel 1000000, the limit of the code itself, and \<open>range\<close> builds at most
  100000 items, again the limit of the code; there is no other fuel. Lengths are natural numbers that
  the code converts to \<open>i64\<close>; the conversion is part of the model. A \<open>u32\<close> register or block number is a
  natural number, since the compilers only produce constants far below the limit.

  The block code machine is a partial function; C35 shows that compiled code always returns.

  \<^bold>\<open>Parameters.\<close> The record \<open>runtime\<close> holds what the evaluator calls and this development does not
  define: the decoder of one JSON value (\<open>serde_json\<close>), the iteration order of a hash map, Unicode lower
  case, the bytes of a file, task-owned values, and the remaining calls, methods and statements; and two
  settings, the block code machine and the check of snapshots. The theorems hold for every choice. The
  record \<open>gateway\<close> holds the requests to the service that runs the attempts, as functions on its state, and
  the texts of its errors; the record \<open>call_env\<close> adds the evaluation of an argument. The record \<open>text_env\<close> holds the Unicode
  classes and case mappings, the shortest text of a float and the text of a JSON value; \<open>schema_env\<close>, \<open>request_env\<close>
  and \<open>context_env\<close> hold the same for their theories. The records \<open>model_env\<close> and \<open>memory_env\<close> add the gateway, the
  bodies of hooks and the evaluation of an argument.

  \<^bold>\<open>Not modelled.\<close> The parser and the workflow syntax, function calls, exceptions, \<open>with\<close> blocks, open
  files, the calls that create attempts and frontiers; the server, the gateway, the supervisor and
  the tools, which are transport and operating system code. Wall-clock timings are left out.
\<close>

end
